(* ===== verification/Prelude.thy ===== *)
theory Prelude
  imports Main "HOL-Library.Sublist" "HOL-Library.List_Lexorder" "HOL-Library.Char_ord"
    "HOL-Library.Product_Lexorder"
begin

text \<open>
  Shared vocabulary of the development: the JavaScript idioms the daemon's code uses
  (truthiness, the nullish operator, trimming), results with errors as values, tables of
  rows with a primary key, and the two generic contracts several components meet: an
  idempotent keyed write and an invariant kept by every labelled step.

  Strings are lists of characters below 256, read as code units. The code only compares
  them, tests them for emptiness, trims them, takes prefixes and suffixes, and counts
  their UTF-8 bytes, so nothing depends on code units above that range. Timestamps are
  integers (epoch milliseconds): the code compares \<open>toISOString\<close> texts, whose string
  order is the order of the milliseconds for the years 0000 to 9999.
\<close>

named_theorems row_simps \<open>rewriting reads through writes on tables of rows\<close>
named_theorems step_inv \<open>preservation of a component's invariant by one operation\<close>

section \<open>JavaScript idioms\<close>

type_synonym timestamp = int

text \<open>A nullable string used as a condition: null, undefined and the empty string are false.\<close>

definition truthy :: "string option \<Rightarrow> bool" where
  "truthy x = (case x of None \<Rightarrow> False | Some s \<Rightarrow> s \<noteq> [])"

lemma truthy_simps [simp]:
  "truthy None = False" "truthy (Some s) = (s \<noteq> [])"
  by (simp_all add: truthy_def)

lemma truthy_Some: "truthy x \<Longrightarrow> \<exists>s. x = Some s \<and> s \<noteq> []"
  by (cases x) simp_all

text \<open>\<open>a ?? b\<close>, with a nullable and a plain right operand.\<close>

definition nullish :: "'a option \<Rightarrow> 'a option \<Rightarrow> 'a option" where
  "nullish a b = (case a of None \<Rightarrow> b | Some x \<Rightarrow> Some x)"

definition or_default :: "'a option \<Rightarrow> 'a \<Rightarrow> 'a" where
  "or_default a d = (case a of None \<Rightarrow> d | Some x \<Rightarrow> x)"

lemma nullish_simps [simp]:
  "nullish None b = b" "nullish (Some x) b = Some x" "nullish a None = a"
  by (simp_all add: nullish_def split: option.split)

lemma or_default_simps [simp]: "or_default None d = d" "or_default (Some x) d = x"
  by (simp_all add: or_default_def)

text \<open>White space as \<open>String.prototype.trim\<close> sees it below code unit 256.\<close>

definition js_space :: "char \<Rightarrow> bool" where
  "js_space c = ((of_char c :: nat) \<in> {9, 10, 11, 12, 13, 32, 160})"

definition trim :: "string \<Rightarrow> string" where
  "trim s = rev (dropWhile js_space (rev (dropWhile js_space s)))"

definition blank :: "string option \<Rightarrow> bool" where
  "blank x = (case x of None \<Rightarrow> True | Some s \<Rightarrow> trim s = [])"

lemma trim_Nil_iff: "trim s = [] \<longleftrightarrow> (\<forall>c \<in> set s. js_space c)"
proof
  assume h: "trim s = []"
  then have "\<forall>c \<in> set (dropWhile js_space s). js_space c"
    by (simp add: trim_def dropWhile_eq_Nil_conv)
  moreover have "dropWhile js_space s \<noteq> [] \<Longrightarrow> \<not> js_space (hd (dropWhile js_space s))"
    by (rule hd_dropWhile)
  ultimately have "dropWhile js_space s = []"
    by (meson list.set_sel(1))
  then show "\<forall>c \<in> set s. js_space c"
    by (simp add: dropWhile_eq_Nil_conv)
next
  assume "\<forall>c \<in> set s. js_space c"
  then show "trim s = []" by (auto simp: trim_def dest: set_dropWhileD)
qed

lemma blank_simps [simp]: "blank None = True" "blank (Some s) = (trim s = [])"
  by (simp_all add: blank_def)

lemma trim_Nil [simp]: "trim [] = []"
  by (simp add: trim_def)

text \<open>The number of bytes \<open>Buffer.byteLength\<close> counts.\<close>

definition utf8_width :: "char \<Rightarrow> nat" where
  "utf8_width c = (if (of_char c :: nat) < 128 then 1 else 2)"

definition byte_length :: "string \<Rightarrow> nat" where
  "byte_length s = sum_list (map utf8_width s)"

lemma byte_length_simps [simp]:
  "byte_length [] = 0" "byte_length (c # s) = utf8_width c + byte_length s"
  "byte_length (s @ t) = byte_length s + byte_length t"
  by (simp_all add: byte_length_def)

lemma length_le_byte_length: "length s \<le> byte_length s"
  by (induction s) (auto simp: utf8_width_def)

text \<open>The decimal digits of a number, as a template literal prints it.\<close>

fun nat_str :: "nat \<Rightarrow> string" where
  "nat_str n = (if n < 10 then [char_of (48 + n)] else nat_str (n div 10) @ [char_of (48 + n mod 10)])"

declare nat_str.simps [simp del]

lemma nat_str_ascii: "c \<in> set (nat_str n) \<Longrightarrow> utf8_width c = 1"
proof (induction n rule: nat_str.induct)
  case (1 n)
  show ?case
  proof (cases "n < 10")
    case True
    then show ?thesis using 1(2) by (simp add: nat_str.simps [of n] utf8_width_def)
  next
    case False
    have d: "utf8_width (char_of (48 + n mod 10)) = 1"
      using mod_less_divisor [of 10 n] by (simp add: utf8_width_def del: mod_less_divisor)
    from False 1(2) consider "c \<in> set (nat_str (n div 10))" | "c = char_of (48 + n mod 10)"
      by (auto simp: nat_str.simps [of n])
    then show ?thesis using 1(1) [OF False] d by cases auto
  qed
qed

lemma byte_length_ascii: "(\<And>c. c \<in> set s \<Longrightarrow> utf8_width c = 1) \<Longrightarrow> byte_length s = length s"
  by (induction s) auto

lemma byte_length_nat_str [simp]: "byte_length (nat_str n) = length (nat_str n)"
  by (rule byte_length_ascii) (rule nat_str_ascii)

lemma length_nat_str_mono: "m \<le> n \<Longrightarrow> length (nat_str m) \<le> length (nat_str n)"
proof (induction n arbitrary: m rule: nat_str.induct)
  case (1 n)
  show ?case
  proof (cases "m < 10")
    case True
    then show ?thesis by (simp add: nat_str.simps [of m]) (simp add: nat_str.simps [of n])
  next
    case False
    with 1 have "length (nat_str (m div 10)) \<le> length (nat_str (n div 10))" by (simp add: div_le_mono)
    then show ?thesis using False 1(2) by (simp add: nat_str.simps [of m] nat_str.simps [of n])
  qed
qed

lemma length_nat_str_le: "0 < k \<Longrightarrow> n < 10 ^ k \<Longrightarrow> length (nat_str n) \<le> k"
proof (induction k arbitrary: n)
  case 0
  then show ?case by simp
next
  case (Suc k)
  show ?case
  proof (cases "n < 10")
    case True
    then show ?thesis by (simp add: nat_str.simps [of n])
  next
    case False
    then have "0 < k" using Suc.prems by (cases k) auto
    then have "length (nat_str (n div 10)) \<le> k" using Suc by (simp add: less_mult_imp_div_less)
    then show ?thesis using False by (simp add: nat_str.simps [of n])
  qed
qed

text \<open>\<open>Array.prototype.findIndex\<close>, with \<open>-1\<close> as \<open>None\<close>.\<close>

fun find_index :: "('a \<Rightarrow> bool) \<Rightarrow> 'a list \<Rightarrow> nat option" where
  "find_index P [] = None"
| "find_index P (x # xs) = (if P x then Some 0 else map_option Suc (find_index P xs))"

lemma find_index_Some:
  "find_index P xs = Some i \<Longrightarrow> i < length xs \<and> P (xs ! i) \<and> (\<forall>j < i. \<not> P (xs ! j))"
proof (induction xs arbitrary: i)
  case Nil
  then show ?case by simp
next
  case (Cons x xs)
  then show ?case
    by (cases i) (auto split: if_splits simp: nth_Cons less_Suc_eq_0_disj)
qed

lemma find_index_None: "find_index P xs = None \<longleftrightarrow> (\<forall>x \<in> set xs. \<not> P x)"
  by (induction xs) auto

text \<open>\<open>xs[i] ?? null\<close>.\<close>

definition at :: "'a list \<Rightarrow> nat \<Rightarrow> 'a option" where
  "at xs i = (if i < length xs then Some (xs ! i) else None)"

lemma at_Some: "at xs i = Some x \<Longrightarrow> x \<in> set xs"
  by (auto simp: at_def split: if_splits)

lemma find_in_set: "find P xs = Some x \<Longrightarrow> x \<in> set xs \<and> P x"
  by (auto simp: find_Some_iff)

lemma find_append:
  "find P (xs @ ys) = (case find P xs of None \<Rightarrow> find P ys | Some x \<Rightarrow> Some x)"
  by (induction xs) auto

lemma map_sum_fst_Inr [simp]: "map_sum id fst x = Inr t \<longleftrightarrow> (\<exists>v. x = Inr (t, v))"
  by (cases x) auto

section \<open>Tables of rows with a primary key\<close>

text \<open>
  A SQLite table is the list of its rows in \<open>rowid\<close> order. \<open>row_get\<close> is a select by
  primary key, \<open>row_set\<close> an \<open>UPDATE ... WHERE\<close>, \<open>row_count\<close> the number of rows a where
  clause selects (the driver's \<open>changes\<close>), and \<open>row_insert\<close> an insert, which fails when the
  key is taken.
\<close>

definition row_get :: "('r \<Rightarrow> 'k) \<Rightarrow> 'k \<Rightarrow> 'r list \<Rightarrow> 'r option" where
  "row_get key k rows = find (\<lambda>r. key r = k) rows"

definition row_set :: "('r \<Rightarrow> bool) \<Rightarrow> ('r \<Rightarrow> 'r) \<Rightarrow> 'r list \<Rightarrow> 'r list" where
  "row_set p f rows = map (\<lambda>r. if p r then f r else r) rows"

definition row_count :: "('r \<Rightarrow> bool) \<Rightarrow> 'r list \<Rightarrow> nat" where
  "row_count p rows = length (filter p rows)"

definition row_insert :: "('r \<Rightarrow> 'k) \<Rightarrow> 'r \<Rightarrow> 'r list \<Rightarrow> 'r list option" where
  "row_insert key r rows = (if key r \<in> key ` set rows then None else Some (rows @ [r]))"

text \<open>\<open>LIMIT n\<close>: a negative limit is no limit.\<close>

definition sql_limit :: "int \<Rightarrow> 'a list \<Rightarrow> 'a list" where
  "sql_limit n xs = (if n < 0 then xs else take (nat n) xs)"

lemma row_get_Some: "row_get key k rows = Some r \<Longrightarrow> r \<in> set rows \<and> key r = k"
  unfolding row_get_def by (rule find_in_set)

lemma row_get_None: "row_get key k rows = None \<longleftrightarrow> k \<notin> key ` set rows"
  by (auto simp: row_get_def find_None_iff)

lemma row_get_key: "row_get key k rows = Some r \<Longrightarrow> key r = k"
  by (drule row_get_Some) simp

lemma row_get_Cons [row_simps]:
  "row_get key k (r # rows) = (if key r = k then Some r else row_get key k rows)"
  by (simp add: row_get_def)

lemma row_get_Nil [row_simps]: "row_get key k [] = None"
  by (simp add: row_get_def)

lemma row_get_append [row_simps]:
  "row_get key k (rows @ rows') =
     (case row_get key k rows of None \<Rightarrow> row_get key k rows' | Some r \<Rightarrow> Some r)"
  by (simp add: row_get_def find_append split: option.split)

lemma row_get_distinct:
  "distinct (map key rows) \<Longrightarrow> r \<in> set rows \<Longrightarrow> row_get key (key r) rows = Some r"
  by (induction rows) (auto simp: row_get_def)

text \<open>An update that keeps the key: the row read back is the updated row.\<close>

lemma row_get_set:
  assumes "\<And>r. key (f r) = key r"
  shows "row_get key k (row_set p f rows) =
    map_option (\<lambda>r. if p r then f r else r) (row_get key k rows)"
  by (induction rows) (auto simp: row_get_def row_set_def assms)

lemma row_set_keys:
  assumes "\<And>r. key (f r) = key r"
  shows "map key (row_set p f rows) = map key rows"
  by (simp add: row_set_def assms cong: map_cong)

lemma set_row_set: "set (row_set p f rows) = (\<lambda>r. if p r then f r else r) ` set rows"
  by (simp add: row_set_def)

lemma row_insert_Some:
  "row_insert key r rows = Some rows' \<longleftrightarrow> key r \<notin> key ` set rows \<and> rows' = rows @ [r]"
  by (auto simp: row_insert_def)

lemma row_count_0: "row_count p rows = 0 \<longleftrightarrow> (\<forall>r \<in> set rows. \<not> p r)"
  by (simp add: row_count_def filter_empty_conv)

lemma row_set_none: "row_count p rows = 0 \<Longrightarrow> row_set p f rows = rows"
  by (simp add: row_count_0 row_set_def map_idI)

lemma row_set_other: "(\<And>r. r \<in> set rows \<Longrightarrow> \<not> p r) \<Longrightarrow> row_set p f rows = rows"
  by (simp add: row_set_def map_idI)

lemma find_row_set:
  assumes "\<And>r. p r \<Longrightarrow> q (f r) = q r"
  shows "find q (row_set p f rows) = map_option (\<lambda>r. if p r then f r else r) (find q rows)"
  by (induction rows) (auto simp: row_set_def assms)

lemma filter_row_set_le:
  assumes "\<And>r. r \<in> set rows \<Longrightarrow> p r \<Longrightarrow> q (f r) \<Longrightarrow> q r"
  shows "length (filter q (row_set p f rows)) \<le> length (filter q rows)"
  using assms by (induction rows) (auto simp: row_set_def le_SucI)

text \<open>A weight summed over the selected rows: an update that selects no new row and keeps the
  weights cannot raise it, and an update of a single row raises it by the new weight at most.\<close>

lemma sum_filter_row_set_le:
  fixes w :: "'r \<Rightarrow> nat"
  assumes "\<And>r. p r \<Longrightarrow> q (f r) \<Longrightarrow> q r \<and> w (f r) = w r"
  shows "sum_list (map w (filter q (row_set p f rows))) \<le> sum_list (map w (filter q rows))"
proof (induction rows)
  case Nil
  then show ?case by (simp add: row_set_def)
next
  case (Cons r rows)
  then show ?case using assms [of r] by (auto simp: row_set_def)
qed

lemma sum_filter_row_set_one:
  fixes w :: "'r \<Rightarrow> nat"
  assumes "distinct (map key rows)" and "\<And>r. p r \<Longrightarrow> key r = k"
    and "\<And>r. r \<in> set rows \<Longrightarrow> p r \<Longrightarrow> w (f r) \<le> B"
  shows "sum_list (map w (filter q (row_set p f rows))) \<le> sum_list (map w (filter q rows)) + B"
  using assms(1,3)
proof (induction rows)
  case Nil
  then show ?case by (simp add: row_set_def)
next
  case (Cons r rows)
  show ?case
  proof (cases "p r")
    case True
    then have "\<not> p x" if "x \<in> set rows" for x
      using that Cons.prems(1) assms(2) by force
    then have "row_set p f rows = rows" by (simp add: row_set_other)
    then have "row_set p f (r # rows) = f r # rows" using True by (simp add: row_set_def)
    then show ?thesis using Cons.prems(2) [of r] True by simp
  next
    case False
    then show ?thesis using Cons by (auto simp: row_set_def)
  qed
qed

section \<open>Contracts shared by several components\<close>

text \<open>
  An idempotent keyed write: \<open>put k i s\<close> stores what it makes of the input under a fresh key
  and returns the stored entry; under a taken key it returns what is stored and writes
  nothing. The mailbox drop, the outbox record and the stream emit promise this.
\<close>

locale idempotent_put =
  fixes look :: "'s \<Rightarrow> 'k \<Rightarrow> 'v option"
    and put :: "'k \<Rightarrow> 'i \<Rightarrow> 's \<Rightarrow> 'e + 's \<times> 'v"
  assumes put_taken: "look s k = Some v \<Longrightarrow> put k i s = Inr (s, v)"
    and put_fresh: "look s k = None \<Longrightarrow> put k i s = Inr (t, v) \<Longrightarrow> look t k = Some v"
    and put_other: "put k i s = Inr (t, v) \<Longrightarrow> k' \<noteq> k \<Longrightarrow> look t k' = look s k'"
begin

lemma look_put: "put k i s = Inr (t, v) \<Longrightarrow> look t k = Some v"
  by (cases "look s k") (auto simp: put_taken intro: put_fresh)

lemma put_replay: "put k i s = Inr (t, v) \<Longrightarrow> put k j t = Inr (t, v)"
  by (rule put_taken) (rule look_put)

lemma look_stable: "look s k' = Some v' \<Longrightarrow> put k i s = Inr (t, v) \<Longrightarrow> look t k' = Some v'"
  by (cases "k' = k") (auto simp: put_taken put_other)

lemma put_replay_later:
  "put k i s = Inr (t, v) \<Longrightarrow> put k' i' t = Inr (u, v') \<Longrightarrow> put k j u = Inr (u, v)"
  by (rule put_taken) (rule look_stable [OF look_put])

end

text \<open>
  A labelled transition function that may refuse: \<open>Inl\<close> leaves the state as it was, as a
  rolled-back transaction does. \<open>run_steps\<close> plays a sequence of labels.
\<close>

definition attempt_step :: "('l \<Rightarrow> 's \<Rightarrow> 'e + 's) \<Rightarrow> 'l \<Rightarrow> 's \<Rightarrow> 's" where
  "attempt_step step l s = (case step l s of Inl _ \<Rightarrow> s | Inr t \<Rightarrow> t)"

definition run_steps :: "('l \<Rightarrow> 's \<Rightarrow> 'e + 's) \<Rightarrow> 'l list \<Rightarrow> 's \<Rightarrow> 's" where
  "run_steps step ls s = fold (attempt_step step) ls s"

lemma run_steps_simps:
  "run_steps step [] s = s"
  "run_steps step (l # ls) s = run_steps step ls (attempt_step step l s)"
  by (simp_all add: run_steps_def)

lemma run_steps_append: "run_steps step (ls @ ms) s = run_steps step ms (run_steps step ls s)"
  by (simp add: run_steps_def)

text \<open>
  An invariant kept by every accepted step holds after any run, and so does every fact that
  accepted steps from states of the invariant never undo.
\<close>

locale guarded_machine =
  fixes step :: "'l \<Rightarrow> 's \<Rightarrow> 'e + 's"
    and inv :: "'s \<Rightarrow> bool"
  assumes step_keeps: "inv s \<Longrightarrow> step l s = Inr t \<Longrightarrow> inv t"
begin

lemma attempt_keeps: "inv s \<Longrightarrow> inv (attempt_step step l s)"
  by (auto simp: attempt_step_def split: sum.split intro: step_keeps)

lemma run_keeps: "inv s \<Longrightarrow> inv (run_steps step ls s)"
  by (induction ls arbitrary: s) (simp_all add: run_steps_simps attempt_keeps)

lemma run_stable:
  assumes "inv s" and "P s"
    and "\<And>l s t. l \<in> set ls \<Longrightarrow> inv s \<Longrightarrow> P s \<Longrightarrow> step l s = Inr t \<Longrightarrow> P t"
  shows "P (run_steps step ls s)"
  using assms
proof (induction ls arbitrary: s)
  case Nil
  then show ?case by (simp add: run_steps_simps)
next
  case (Cons l ls)
  have "P (attempt_step step l s)"
    using Cons.prems(1,2) Cons.prems(3) [of l s] by (auto simp: attempt_step_def split: sum.split)
  moreover have "\<And>m u t. m \<in> set ls \<Longrightarrow> inv u \<Longrightarrow> P u \<Longrightarrow> step m u = Inr t \<Longrightarrow> P t"
    using Cons.prems(3) by (meson list.set_intros(2))
  ultimately show ?case
    using Cons.IH [OF attempt_keeps [OF Cons.prems(1)]] by (simp add: run_steps_simps)
qed

end

end
