(* ===== verification/Rig_Events.thy ===== *)
theory Rig_Events
  imports Prelude
begin

text \<open>
  The members of the \<open>RigEvent\<close> union (\<open>domain/types.ts\<close>) that the modelled components
  persist. An event log is the list of persisted events, oldest first: \<open>EventBus\<close> inserts
  one row per event inside the caller's transaction, so a component appends to the log in
  the same step in which it writes its table.
\<close>

datatype rig_event =
    Stream_emitted (ev_stream_item: string) (ev_source: string) (ev_hint_destination: "string option")
      (ev_hint_type: "string option") (ev_hint_urgency: "string option") (ev_interrupt: bool)
  | Queue_created (ev_qitem: string) (ev_source_session: string) (ev_destination_session: string)
      (ev_priority: string) (ev_tier: "string option") (ev_summary: "string option")
  | Queue_handed_off (ev_qitem: string) (ev_from_session: string) (ev_to_session: string)
      (ev_summary: "string option")
  | Queue_claimed (ev_qitem: string) (ev_destination_session: string) (ev_claimed_at: timestamp)
      (ev_closure_required_at: "timestamp option") (ev_summary: "string option")
  | Queue_unclaimed (ev_qitem: string) (ev_destination_session: string) (ev_reason: string)
      (ev_summary: "string option")
  | Qitem_fallback_routed (ev_qitem: string) (ev_original: string) (ev_reroute: string)
      (ev_reason: string)
  | Inbox_absorbed (ev_inbox: string) (ev_destination_session: string) (ev_sender: string)
      (ev_promoted_qitem: string)
  | Inbox_denied (ev_inbox: string) (ev_destination_session: string) (ev_sender: string)
      (ev_reason: string)
  | Queue_updated (ev_qitem: string) (ev_from_state: string) (ev_to_state: string)
      (ev_closure_reason: "string option") (ev_closure_target: "string option")
      (ev_actor: string) (ev_summary: "string option")
  | Lease_acquired (ev_lease: string) (ev_classifier: string) (ev_acquired_at: timestamp)
      (ev_expires_at: timestamp)
  | Lease_expired (ev_lease: string) (ev_classifier: string) (ev_expired_at: timestamp)
  | Classifier_dead (ev_lease: string) (ev_classifier: string) (ev_last_heartbeat: timestamp)
      (ev_detected_at: timestamp)
  | Classifier_reclaimed (ev_lease: string) (ev_previous: string) (ev_reclaimed_by: string)
      (ev_reason: string) (ev_reclaimed_at: timestamp)
  | Workflow_step_closed (ev_instance: string) (ev_step: string) (ev_exit: string)
      (ev_actor: string) (ev_prior_qitem: string)
  | Workflow_next_qitem_projected (ev_instance: string) (ev_next_qitem: string)
      (ev_next_owner: string) (ev_next_step: string)
  | Workflow_completed (ev_instance: string) (ev_workflow: string)
  | Workflow_instantiated (ev_instance: string) (ev_workflow: string) (ev_version: string)
      (ev_created_by: string)
  | Workflow_resumed (ev_instance: string) (ev_workflow: string) (ev_step: string)
      (ev_occurrence: "string option") (ev_resumed_by: string) (ev_decision: "string option")
      (ev_resume_count: int)
  | Routing_table_changed (ev_rig: string) (ev_instance: string) (ev_route_step: "string option")
      (ev_from: string) (ev_to: string)
  | Workflow_failed (ev_instance: string) (ev_workflow: string) (ev_reason: string)

end
