(* ===== verification/Hot_Potato.thy ===== *)
theory Hot_Potato
  imports Prelude
begin

text \<open>
  \<open>domain/hot-potato-enforcer.ts\<close>: the closure contract. A transition to \<open>done\<close> must
  carry a closure reason from a fixed list, and two of the reasons must name a target;
  any other transition passes its closure fields through. The claim deadline is the claim
  time plus the service level of the item's tier.
\<close>

definition CLOSURE_REASONS :: "string list" where
  "CLOSURE_REASONS = [''handed_off_to'', ''blocked_on'', ''denied'', ''canceled'',
     ''no-follow-on'', ''escalation'', ''superseded'']"

definition DONE_CLOSURE_REASONS :: "string list" where
  "DONE_CLOSURE_REASONS = filter (\<lambda>r. r \<noteq> ''blocked_on'') CLOSURE_REASONS"

definition isClosureReason :: "string \<Rightarrow> bool" where
  "isClosureReason v \<longleftrightarrow> v \<in> set CLOSURE_REASONS"

record closure_request =
  cr_state :: string
  cr_reason :: "string option"
  cr_target :: "string option"

text \<open>The error codes, with the list of valid reasons the error carries.\<close>

datatype closure_error =
    Missing_closure_reason "string list"
  | Invalid_closure_reason "string list"
  | Missing_closure_target

record closure_ok =
  ok_reason :: "string option"
  ok_target :: "string option"

definition requires_target :: "string \<Rightarrow> bool" where
  "requires_target r \<longleftrightarrow> r = ''handed_off_to'' \<or> r = ''escalation''"

definition validateClosure :: "closure_request \<Rightarrow> closure_error + closure_ok" where
  "validateClosure req =
    (if cr_state req \<noteq> ''done'' then Inr \<lparr>ok_reason = cr_reason req, ok_target = cr_target req\<rparr>
     else if \<not> truthy (cr_reason req) then Inl (Missing_closure_reason DONE_CLOSURE_REASONS)
     else let r = the (cr_reason req) in
       if \<not> isClosureReason r then Inl (Invalid_closure_reason DONE_CLOSURE_REASONS)
       else if r = ''blocked_on'' then Inl (Invalid_closure_reason DONE_CLOSURE_REASONS)
       else if requires_target r \<and> \<not> truthy (cr_target req) then Inl Missing_closure_target
       else Inr \<lparr>ok_reason = Some r, ok_target = cr_target req\<rparr>)"

text \<open>
  The service levels in seconds. The code indexes an object literal with the tier, and such
  a lookup also finds the members every object inherits; multiplying one by 1000 is NaN,
  and \<open>toISOString\<close> of an invalid date throws.
\<close>

definition inherited_members :: "string list" where
  "inherited_members = [''constructor'', ''__defineGetter__'', ''__defineSetter__'',
     ''hasOwnProperty'', ''__lookupGetter__'', ''__lookupSetter__'', ''isPrototypeOf'',
     ''propertyIsEnumerable'', ''toString'', ''valueOf'', ''__proto__'', ''toLocaleString'']"

datatype tier_seconds = Finite int | NaN

definition TIER_SLA_SECONDS :: "string \<Rightarrow> tier_seconds option" where
  "TIER_SLA_SECONDS tier =
    (if tier = ''fast'' then Some (Finite (30 * 60))
     else if tier = ''routine'' then Some (Finite (4 * 60 * 60))
     else if tier = ''deep'' then Some (Finite (24 * 60 * 60))
     else if tier = ''critical'' then Some (Finite (15 * 60))
     else if tier \<in> set inherited_members then Some NaN
     else None)"

datatype range_error = Range_error

definition computeClosureRequiredAt ::
  "timestamp \<Rightarrow> string option \<Rightarrow> range_error + timestamp option" where
  "computeClosureRequiredAt claimed tier =
    (if \<not> truthy tier then Inr None
     else case TIER_SLA_SECONDS (the tier) of
       None \<Rightarrow> Inr None
     | Some (Finite s) \<Rightarrow> Inr (Some (claimed + s * 1000))
     | Some NaN \<Rightarrow> Inl Range_error)"

section \<open>What the contract guarantees\<close>

lemma DONE_CLOSURE_REASONS_simps:
  "r \<in> set DONE_CLOSURE_REASONS \<longleftrightarrow> isClosureReason r \<and> r \<noteq> ''blocked_on''"
  by (auto simp: DONE_CLOSURE_REASONS_def isClosureReason_def)

lemma validateClosure_not_done:
  "cr_state req \<noteq> ''done'' \<Longrightarrow>
     validateClosure req = Inr \<lparr>ok_reason = cr_reason req, ok_target = cr_target req\<rparr>"
  by (simp add: validateClosure_def)

lemma validateClosure_fields:
  assumes "validateClosure req = Inr ok"
  shows "ok_target ok = cr_target req" and "ok_reason ok = cr_reason req"
  using assms
  by (auto simp: validateClosure_def Let_def split: if_splits dest: truthy_Some)

lemma validateClosure_done:
  assumes "validateClosure req = Inr ok" and "cr_state req = ''done''"
  obtains r where "ok_reason ok = Some r" and "r \<in> set DONE_CLOSURE_REASONS"
    and "requires_target r \<Longrightarrow> truthy (ok_target ok)"
  using assms
  by (auto simp: validateClosure_def Let_def DONE_CLOSURE_REASONS_simps split: if_splits)

lemma validateClosure_refuses:
  assumes "cr_state req = ''done''"
    and "cr_reason req = None \<or> (\<exists>r. cr_reason req = Some r \<and> r \<notin> set DONE_CLOSURE_REASONS)"
  shows "\<exists>e. validateClosure req = Inl e"
proof -
  have "[] \<notin> set CLOSURE_REASONS" by (simp add: CLOSURE_REASONS_def)
  with assms show ?thesis
    by (auto simp: validateClosure_def Let_def DONE_CLOSURE_REASONS_simps isClosureReason_def)
qed

lemma computeClosureRequiredAt_later:
  "computeClosureRequiredAt t tier = Inr (Some d) \<Longrightarrow> t < d"
  by (auto simp: computeClosureRequiredAt_def TIER_SLA_SECONDS_def split: if_splits)

end
