(* ===== verification/Human_Route.thy ===== *)
theory Human_Route
  imports Prelude
begin

text \<open>
  \<open>domain/human-route-enforcer.ts\<close>: an item that reaches a person must carry a summary and
  an evidence reference. The three legs of the predicate are the \<open>human-gate\<close> tier, a
  human seat as destination, and a park on a human seat.
\<close>

definition seat_char :: "char \<Rightarrow> bool" where
  "seat_char c = (let n = of_char c :: nat in
     (48 \<le> n \<and> n \<le> 57) \<or> (65 \<le> n \<and> n \<le> 90) \<or> (97 \<le> n \<and> n \<le> 122) \<or> n = 46 \<or> n = 95 \<or> n = 45)"

text \<open>The regular expression \<open>^human(?:-[A-Za-z0-9._-]+)?@(kernel|host)$\<close>.\<close>

definition isHumanSeatSession :: "string \<Rightarrow> bool" where
  "isHumanSeatSession s =
    (let r = drop 5 s;
         name = takeWhile (\<lambda>c. c \<noteq> CHR ''@'') r;
         host = dropWhile (\<lambda>c. c \<noteq> CHR ''@'') r
     in take 5 s = ''human''
        \<and> (case name of [] \<Rightarrow> True
            | c # m \<Rightarrow> c = CHR ''-'' \<and> m \<noteq> [] \<and> list_all seat_char m)
        \<and> (host = ''@kernel'' \<or> host = ''@host''))"

definition human_seat_ref :: "string option \<Rightarrow> bool" where
  "human_seat_ref x = (case x of None \<Rightarrow> False | Some s \<Rightarrow> isHumanSeatSession s)"

lemma human_seat_ref_simps [simp]:
  "human_seat_ref None = False" "human_seat_ref (Some s) = isHumanSeatSession s"
  by (simp_all add: human_seat_ref_def)

datatype human_route_error = Human_route_fields_required (missing_fields: "string list")

definition validateRequiredFields ::
  "bool \<Rightarrow> string option \<Rightarrow> string option \<Rightarrow> human_route_error + bool" where
  "validateRequiredFields fired summary evidence =
    (if \<not> fired then Inr False
     else let missing = (if blank summary then [''summary''] else [])
                      @ (if blank evidence then [''evidence_ref''] else [])
          in if missing = [] then Inr True else Inl (Human_route_fields_required missing))"

definition validateHumanRoute ::
  "string option \<Rightarrow> string \<Rightarrow> string option \<Rightarrow> string option \<Rightarrow> human_route_error + bool" where
  "validateHumanRoute tier destination summary evidence =
    validateRequiredFields (tier = Some ''human-gate'' \<or> isHumanSeatSession destination)
      summary evidence"

definition validateHumanPark ::
  "string option \<Rightarrow> string option \<Rightarrow> string option \<Rightarrow> human_route_error + bool" where
  "validateHumanPark blocked_on summary evidence =
    validateRequiredFields (human_seat_ref blocked_on) summary evidence"

section \<open>Facts\<close>

lemma seat_char_at: "\<not> seat_char (CHR ''@'')"
  by (simp add: seat_char_def)

lemma takeWhile_at: "CHR ''@'' \<notin> set n \<Longrightarrow>
    takeWhile (\<lambda>c. c \<noteq> CHR ''@'') (n @ CHR ''@'' # h) = n
  \<and> dropWhile (\<lambda>c. c \<noteq> CHR ''@'') (n @ CHR ''@'' # h) = CHR ''@'' # h"
  by (induction n) auto

lemma isHumanSeatSession_iff:
  "isHumanSeatSession s \<longleftrightarrow>
    (\<exists>n h. s = ''human'' @ n @ CHR ''@'' # h \<and> h \<in> {''kernel'', ''host''}
       \<and> (n = [] \<or> (\<exists>m. n = CHR ''-'' # m \<and> m \<noteq> [] \<and> (\<forall>c \<in> set m. seat_char c))))"
    (is "_ = (\<exists>n h. ?R n h)")
proof
  assume a: "isHumanSeatSession s"
  define n where "n = takeWhile (\<lambda>c. c \<noteq> CHR ''@'') (drop 5 s)"
  define g where "g = dropWhile (\<lambda>c. c \<noteq> CHR ''@'') (drop 5 s)"
  have "s = take 5 s @ drop 5 s" by simp
  also have "drop 5 s = n @ g" by (simp add: n_def g_def)
  finally have s: "s = take 5 s @ n @ g" .
  from a have "take 5 s = ''human''" and g: "g = ''@kernel'' \<or> g = ''@host''"
    and n: "n = [] \<or> (\<exists>m. n = CHR ''-'' # m \<and> m \<noteq> [] \<and> (\<forall>c \<in> set m. seat_char c))"
    by (auto simp: isHumanSeatSession_def Let_def n_def g_def list_all_iff split: list.splits)
  with s have "?R n (tl g)" by auto
  then show "\<exists>n h. ?R n h" by blast
next
  assume "\<exists>n h. ?R n h"
  then obtain n h where r: "?R n h" by blast
  then have "CHR ''@'' \<notin> set n" using seat_char_at by auto
  from takeWhile_at [OF this, of h] r show "isHumanSeatSession s"
    by (auto simp: isHumanSeatSession_def list_all_iff)
qed

lemma validateRequiredFields_ok:
  "validateRequiredFields fired summary evidence = Inr b \<longleftrightarrow>
     (b \<longleftrightarrow> fired) \<and> (fired \<longrightarrow> \<not> blank summary \<and> \<not> blank evidence)"
  by (auto simp: validateRequiredFields_def Let_def)

lemma validateHumanRoute_ok:
  "validateHumanRoute tier d summary evidence = Inr b \<longleftrightarrow>
     (b \<longleftrightarrow> tier = Some ''human-gate'' \<or> isHumanSeatSession d)
     \<and> (b \<longrightarrow> \<not> blank summary \<and> \<not> blank evidence)"
  unfolding validateHumanRoute_def by (auto simp: validateRequiredFields_ok)

lemma validateHumanPark_ok:
  "validateHumanPark on summary evidence = Inr b \<longleftrightarrow>
     (b \<longleftrightarrow> human_seat_ref on) \<and> (b \<longrightarrow> \<not> blank summary \<and> \<not> blank evidence)"
  unfolding validateHumanPark_def by (auto simp: validateRequiredFields_ok)

lemma validateHumanRoute_agent:
  "tier \<noteq> Some ''human-gate'' \<Longrightarrow> \<not> isHumanSeatSession d \<Longrightarrow>
     validateHumanRoute tier d summary evidence = Inr False"
  by (simp add: validateHumanRoute_ok)

end
