(* ===== verification/Classifier_Lease.thy ===== *)
theory Classifier_Lease
  imports Rig_Events
begin

text \<open>
  The single-writer lease of the project classifier
  (\<open>packages/daemon/src/domain/classifier-lease-manager.ts\<close>), over the table of
  \<open>db/migrations/029_classifier_leases.ts\<close>. The store is the table in rowid order and the
  event log. Every method reads the clock one or more times: \<open>clock k\<close> is the k-th reading of
  the call. \<open>isAlive\<close> is the injected liveness check and \<open>fresh\<close> the id \<open>ulid()\<close> returns; the
  insert fails when the id is taken or the partial unique index is violated.
\<close>

section \<open>State\<close>

datatype lease_state = Active | Expired | Reclaimed

record classifier_lease =
  leaseId :: string
  classifierSession :: string
  acquiredAt :: timestamp
  expiresAt :: timestamp
  lastHeartbeat :: timestamp
  leaseState :: lease_state
  reclaimedBySession :: "string option"
  reclaimReason :: "string option"

record lease_store =
  leases :: "classifier_lease list"
  leaseEvents :: "rig_event list"

datatype lease_error =
    Lease_held string
  | Lease_not_found
  | Lease_session_mismatch
  | Lease_not_active
  | Lease_past_ttl
  | No_active_lease
  | Lease_still_active
  | Lease_mismatch
  | Lease_constraint

definition DEFAULT_LEASE_TTL_MS :: int where
  "DEFAULT_LEASE_TTL_MS = 15 * 60 * 1000"

section \<open>Operations\<close>

definition getActiveLease :: "lease_store \<Rightarrow> classifier_lease option" where
  "getActiveLease s = find (\<lambda>l. leaseState l = Active) (leases s)"

definition lease_getById :: "lease_store \<Rightarrow> string \<Rightarrow> classifier_lease option" where
  "lease_getById s i = row_get leaseId i (leases s)"

definition lease_getByIdOrThrow :: "lease_store \<Rightarrow> string \<Rightarrow> lease_error + classifier_lease" where
  "lease_getByIdOrThrow s i = (case lease_getById s i of None \<Rightarrow> Inl Lease_not_found | Some l \<Rightarrow> Inr l)"

definition isPastTtl :: "timestamp \<Rightarrow> classifier_lease \<Rightarrow> bool" where
  "isPastTtl now l = (now > expiresAt l)"

definition lease_log_event :: "rig_event \<Rightarrow> lease_store \<Rightarrow> lease_store" where
  "lease_log_event e s = s\<lparr>leaseEvents := leaseEvents s @ [e]\<rparr>"

definition expire_active :: "string \<Rightarrow> lease_store \<Rightarrow> lease_store" where
  "expire_active i s = s\<lparr>leases :=
     row_set (\<lambda>l. leaseId l = i \<and> leaseState l = Active) (\<lambda>l. l\<lparr>leaseState := Expired\<rparr>) (leases s)\<rparr>"

definition insertActiveLease ::
  "int \<Rightarrow> (nat \<Rightarrow> timestamp) \<Rightarrow> string \<Rightarrow> string \<Rightarrow> lease_store \<Rightarrow> lease_error + lease_store" where
  "insertActiveLease ttlMs clock i session s =
    (let acquired = clock 0; expires = clock 1 + ttlMs;
         lease = \<lparr>leaseId = i, classifierSession = session, acquiredAt = acquired,
           expiresAt = expires, lastHeartbeat = acquired, leaseState = Active,
           reclaimedBySession = None, reclaimReason = None\<rparr>
     in if \<exists>l \<in> set (leases s). leaseState l = Active then Inl Lease_constraint
        else case row_insert leaseId lease (leases s) of
            None \<Rightarrow> Inl Lease_constraint
          | Some ls \<Rightarrow> Inr (lease_log_event (Lease_acquired i session acquired expires) (s\<lparr>leases := ls\<rparr>)))"

definition replaceExpiredOwnLease ::
  "int \<Rightarrow> (nat \<Rightarrow> timestamp) \<Rightarrow> string \<Rightarrow> classifier_lease \<Rightarrow> lease_store
     \<Rightarrow> lease_error + lease_store \<times> classifier_lease" where
  "replaceExpiredOwnLease ttlMs clock fresh active s =
    (let now = clock 0;
         expired = lease_log_event (Lease_expired (leaseId active) (classifierSession active) now)
                     (expire_active (leaseId active) s)
     in case insertActiveLease ttlMs (\<lambda>k. clock (Suc k)) fresh (classifierSession active) expired of
          Inl e \<Rightarrow> Inl e
        | Inr s' \<Rightarrow> (case lease_getByIdOrThrow s' fresh of Inl e \<Rightarrow> Inl e | Inr l \<Rightarrow> Inr (s', l)))"

definition acquire ::
  "int \<Rightarrow> (nat \<Rightarrow> timestamp) \<Rightarrow> string \<Rightarrow> string \<Rightarrow> lease_store
     \<Rightarrow> lease_error + lease_store \<times> classifier_lease" where
  "acquire ttlMs clock fresh session s =
    (case getActiveLease s of
       Some active \<Rightarrow>
         if classifierSession active = session then
           if \<not> isPastTtl (clock 0) active then Inr (s, active)
           else replaceExpiredOwnLease ttlMs (\<lambda>k. clock (Suc k)) fresh active s
         else Inl (Lease_held (classifierSession active))
     | None \<Rightarrow>
         (case insertActiveLease ttlMs clock fresh session s of
            Inl e \<Rightarrow> Inl e
          | Inr s' \<Rightarrow> (case lease_getByIdOrThrow s' fresh of Inl e \<Rightarrow> Inl e | Inr l \<Rightarrow> Inr (s', l))))"

definition heartbeat ::
  "int \<Rightarrow> (nat \<Rightarrow> timestamp) \<Rightarrow> string \<Rightarrow> string \<Rightarrow> lease_store
     \<Rightarrow> lease_error + lease_store \<times> classifier_lease" where
  "heartbeat ttlMs clock i session s =
    (case lease_getById s i of
       None \<Rightarrow> Inl Lease_not_found
     | Some lease \<Rightarrow>
         if classifierSession lease \<noteq> session then Inl Lease_session_mismatch
         else if leaseState lease \<noteq> Active then Inl Lease_not_active
         else if isPastTtl (clock 0) lease then Inl Lease_past_ttl
         else
           (let now = clock 1;
                s' = s\<lparr>leases := row_set (\<lambda>l. leaseId l = i)
                       (\<lambda>l. l\<lparr>lastHeartbeat := now, expiresAt := now + ttlMs\<rparr>) (leases s)\<rparr>
            in case lease_getByIdOrThrow s' i of Inl e \<Rightarrow> Inl e | Inr l \<Rightarrow> Inr (s', l)))"

definition evaluateDeadness ::
  "(string \<Rightarrow> bool) \<Rightarrow> (nat \<Rightarrow> timestamp) \<Rightarrow> lease_store
     \<Rightarrow> lease_error + lease_store \<times> classifier_lease option" where
  "evaluateDeadness isAlive clock s =
    (case getActiveLease s of
       None \<Rightarrow> Inr (s, None)
     | Some active \<Rightarrow>
         (let now = clock 0;
              ttlPassed = (now > expiresAt active);
              sessionDead = (\<not> isAlive (classifierSession active))
          in if \<not> ttlPassed \<and> \<not> sessionDead then Inr (s, None)
             else
               (let s1 = lease_log_event (Lease_expired (leaseId active) (classifierSession active) now)
                           (expire_active (leaseId active) s);
                    s2 = (if sessionDead
                          then lease_log_event (Classifier_dead (leaseId active) (classifierSession active)
                                 (lastHeartbeat active) now) s1
                          else s1)
                in case lease_getByIdOrThrow s2 (leaseId active) of
                     Inl e \<Rightarrow> Inl e | Inr l \<Rightarrow> Inr (s2, Some l))))"

definition reclaim ::
  "(string \<Rightarrow> bool) \<Rightarrow> (nat \<Rightarrow> timestamp) \<Rightarrow> string \<Rightarrow> bool \<Rightarrow> string option \<Rightarrow> lease_store
     \<Rightarrow> lease_error + lease_store \<times> classifier_lease" where
  "reclaim isAlive clock bySession ifDead reasonOpt s =
    (case getActiveLease s of
       None \<Rightarrow> Inl No_active_lease
     | Some active \<Rightarrow>
         if ifDead \<and> isAlive (classifierSession active) then Inl Lease_still_active
         else
           (let reason = or_default reasonOpt
                  (if ifDead then ''operator-reclaim --if-dead'' else ''operator-reclaim'');
                reclaimedAt = clock 0;
                s' = lease_log_event (Classifier_reclaimed (leaseId active) (classifierSession active)
                         bySession reason reclaimedAt)
                     (s\<lparr>leases := row_set
                         (\<lambda>l. leaseId l = leaseId active \<and> leaseState l = Active)
                         (\<lambda>l. l\<lparr>leaseState := Reclaimed, reclaimedBySession := Some bySession,
                                reclaimReason := Some reason\<rparr>) (leases s)\<rparr>)
            in case lease_getByIdOrThrow s' (leaseId active) of Inl e \<Rightarrow> Inl e | Inr l \<Rightarrow> Inr (s', l)))"

definition requireActiveHolder ::
  "(nat \<Rightarrow> timestamp) \<Rightarrow> string \<Rightarrow> string option \<Rightarrow> lease_store \<Rightarrow> lease_error + classifier_lease" where
  "requireActiveHolder clock session leaseOpt s =
    (case getActiveLease s of
       None \<Rightarrow> Inl No_active_lease
     | Some active \<Rightarrow>
         if classifierSession active \<noteq> session then Inl (Lease_held (classifierSession active))
         else if expiresAt active < clock 0 then Inl Lease_past_ttl
         else if leaseOpt \<noteq> None \<and> leaseOpt \<noteq> Some (leaseId active) then Inl Lease_mismatch
         else Inr active)"

text \<open>\<open>ORDER BY acquired_at DESC LIMIT ?\<close>; ties keep the order of the table.\<close>

definition list_leases :: "string option \<Rightarrow> int option \<Rightarrow> lease_store \<Rightarrow> classifier_lease list" where
  "list_leases session limitOpt s =
    sql_limit (or_default limitOpt 100)
      (sort_key (\<lambda>l. - acquiredAt l)
        (filter (\<lambda>l. truthy session \<longrightarrow> session = Some (classifierSession l)) (leases s)))"

section \<open>The lease machine\<close>

datatype lease_op =
    Op_acquire "nat \<Rightarrow> timestamp" string string
  | Op_heartbeat "nat \<Rightarrow> timestamp" string string
  | Op_evaluate "string \<Rightarrow> bool" "nat \<Rightarrow> timestamp"
  | Op_reclaim "string \<Rightarrow> bool" "nat \<Rightarrow> timestamp" string bool "string option"

fun lease_step :: "int \<Rightarrow> lease_op \<Rightarrow> lease_store \<Rightarrow> lease_error + lease_store" where
  "lease_step ttl (Op_acquire c i n) s = map_sum id fst (acquire ttl c i n s)"
| "lease_step ttl (Op_heartbeat c i n) s = map_sum id fst (heartbeat ttl c i n s)"
| "lease_step ttl (Op_evaluate a c) s = map_sum id fst (evaluateDeadness a c s)"
| "lease_step ttl (Op_reclaim a c n d r) s = map_sum id fst (reclaim a c n d r s)"

text \<open>The invariant: distinct ids, at most one active lease, and a reclaimer and a reason
  on exactly the reclaimed leases.\<close>

definition lease_row_ok :: "classifier_lease \<Rightarrow> bool" where
  "lease_row_ok l \<longleftrightarrow>
     (leaseState l = Reclaimed) = (reclaimedBySession l \<noteq> None) \<and>
     (leaseState l = Reclaimed) = (reclaimReason l \<noteq> None)"

definition lease_inv :: "lease_store \<Rightarrow> bool" where
  "lease_inv s \<longleftrightarrow>
     distinct (map leaseId (leases s)) \<and>
     length (filter (\<lambda>l. leaseState l = Active) (leases s)) \<le> 1 \<and>
     (\<forall>l \<in> set (leases s). lease_row_ok l)"

section \<open>Lemmas\<close>

lemma getActiveLease_Some:
  "getActiveLease s = Some l \<Longrightarrow> l \<in> set (leases s) \<and> leaseState l = Active"
  unfolding getActiveLease_def by (rule find_in_set)

lemma getActiveLease_None:
  "getActiveLease s = None \<longleftrightarrow> (\<forall>l \<in> set (leases s). leaseState l \<noteq> Active)"
  by (auto simp: getActiveLease_def find_None_iff)

lemma lease_inv_empty: "lease_inv \<lparr>leases = [], leaseEvents = []\<rparr>"
  by (simp add: lease_inv_def)

lemma lease_inv_log: "lease_inv (lease_log_event e s) = lease_inv s"
  by (simp add: lease_inv_def lease_log_event_def)

lemma leases_log [row_simps]: "leases (lease_log_event e s) = leases s"
  by (simp add: lease_log_event_def)

lemma lease_inv_row_set:
  assumes "lease_inv s"
    and "\<And>l. leaseId (f l) = leaseId l"
    and "\<And>l. p l \<Longrightarrow> leaseState (f l) = Active \<Longrightarrow> leaseState l = Active"
    and "\<And>l. lease_row_ok l \<Longrightarrow> p l \<Longrightarrow> lease_row_ok (f l)"
  shows "lease_inv (s\<lparr>leases := row_set p f (leases s)\<rparr>)"
proof -
  have "length (filter (\<lambda>l. leaseState l = Active) (row_set p f (leases s)))
      \<le> length (filter (\<lambda>l. leaseState l = Active) (leases s))"
    by (rule filter_row_set_le) (simp add: assms(3))
  then show ?thesis
    using assms(1,4) by (auto simp: lease_inv_def row_set_keys [where key = leaseId and f = f, OF assms(2)] set_row_set)
qed

lemma lease_inv_expire: "lease_inv s \<Longrightarrow> lease_inv (expire_active i s)"
  unfolding expire_active_def
  by (rule lease_inv_row_set) (auto simp: lease_row_ok_def)

lemma insertActiveLease_inv:
  "lease_inv s \<Longrightarrow> insertActiveLease ttl c i n s = Inr t \<Longrightarrow> lease_inv t"
  by (auto simp: insertActiveLease_def Let_def lease_inv_log row_insert_Some lease_inv_def
      lease_row_ok_def row_simps split: if_splits option.splits)

lemma acquire_inv: "lease_inv s \<Longrightarrow> acquire ttl c i n s = Inr (t, l) \<Longrightarrow> lease_inv t"
  by (auto simp: acquire_def replaceExpiredOwnLease_def Let_def
      split: option.splits if_splits sum.splits
      intro: insertActiveLease_inv lease_inv_log [THEN iffD2] lease_inv_expire)

lemma heartbeat_inv: "lease_inv s \<Longrightarrow> heartbeat ttl c i n s = Inr (t, l) \<Longrightarrow> lease_inv t"
  by (auto simp: heartbeat_def Let_def lease_row_ok_def split: option.splits if_splits sum.splits
      intro!: lease_inv_row_set)

lemma evaluateDeadness_inv:
  "lease_inv s \<Longrightarrow> evaluateDeadness a c s = Inr (t, l) \<Longrightarrow> lease_inv t"
  by (auto simp: evaluateDeadness_def Let_def lease_inv_log lease_inv_expire
      split: option.splits if_splits sum.splits)

lemma reclaim_inv: "lease_inv s \<Longrightarrow> reclaim a c n d r s = Inr (t, l) \<Longrightarrow> lease_inv t"
  by (auto simp: reclaim_def Let_def lease_inv_log lease_row_ok_def
      split: option.splits if_splits sum.splits intro!: lease_inv_row_set)

lemma lease_step_inv: "lease_inv s \<Longrightarrow> lease_step ttl op s = Inr t \<Longrightarrow> lease_inv t"
  by (cases op) (auto simp: map_sum_def split: sum.splits
      dest: acquire_inv heartbeat_inv evaluateDeadness_inv reclaim_inv)

interpretation lease: guarded_machine "lease_step ttl" lease_inv for ttl
  by unfold_locales (rule lease_step_inv)

text \<open>A lease whose id is taken and which nobody may use from time \<open>T\<close> on.\<close>

definition spent :: "string \<Rightarrow> timestamp \<Rightarrow> lease_store \<Rightarrow> bool" where
  "spent i T s \<longleftrightarrow> i \<in> leaseId ` set (leases s) \<and>
     (\<forall>l \<in> set (leases s). leaseId l = i \<longrightarrow> leaseState l \<noteq> Active \<or> expiresAt l < T)"

fun op_clock :: "lease_op \<Rightarrow> nat \<Rightarrow> timestamp" where
  "op_clock (Op_acquire c i n) = c"
| "op_clock (Op_heartbeat c i n) = c"
| "op_clock (Op_evaluate a c) = c"
| "op_clock (Op_reclaim a c n d r) = c"

lemma spent_log: "spent i T (lease_log_event e s) = spent i T s"
  by (simp add: spent_def lease_log_event_def)

lemma spent_row_set:
  assumes "spent i T s" and "\<And>l. leaseId (f l) = leaseId l"
    and "\<And>l. p l \<Longrightarrow> leaseId l = i \<Longrightarrow> leaseState l \<noteq> Active \<or> expiresAt l < T \<Longrightarrow>
      l \<in> set (leases s) \<Longrightarrow> leaseState (f l) \<noteq> Active \<or> expiresAt (f l) < T"
  shows "spent i T (s\<lparr>leases := row_set p f (leases s)\<rparr>)"
proof -
  have "leaseId ` set (row_set p f (leases s)) = leaseId ` set (leases s)"
    using row_set_keys [where key = leaseId and f = f and p = p, OF assms(2)]
    by (metis list.set_map)
  moreover have "leaseState m \<noteq> Active \<or> expiresAt m < T"
    if m: "m \<in> set (row_set p f (leases s))" "leaseId m = i" for m
  proof -
    from m(1) obtain r where r: "r \<in> set (leases s)" "m = (if p r then f r else r)"
      by (auto simp: set_row_set)
    with m(2) assms(2) have "leaseId r = i" by (simp split: if_splits)
    then show ?thesis
      using r assms(1) assms(3) [of r] by (simp add: spent_def split: if_splits)
  qed
  ultimately show ?thesis using assms(1) by (simp add: spent_def)
qed

lemma spent_expire: "spent i T s \<Longrightarrow> spent i T (expire_active j s)"
  unfolding expire_active_def by (rule spent_row_set) auto

lemma insertActiveLease_spent:
  "insertActiveLease ttl c j n s = Inr t \<Longrightarrow> spent i T s \<Longrightarrow> spent i T t"
  by (auto simp: insertActiveLease_def Let_def row_insert_Some spent_def lease_log_event_def
      split: if_splits option.splits)

lemma acquire_spent: "acquire ttl c j n s = Inr (t, l) \<Longrightarrow> spent i T s \<Longrightarrow> spent i T t"
  by (auto simp: acquire_def replaceExpiredOwnLease_def Let_def
      split: option.splits if_splits sum.splits
      intro: insertActiveLease_spent spent_log [THEN iffD2] spent_expire)

lemma getById_unique:
  "lease_inv s \<Longrightarrow> lease_getById s i = Some l \<Longrightarrow> l' \<in> set (leases s) \<Longrightarrow> leaseId l' = i \<Longrightarrow> l' = l"
  unfolding lease_inv_def lease_getById_def by (metis option.inject row_get_distinct)

lemma heartbeat_ok:
  assumes "heartbeat ttl c j n s = Inr (t, l)"
  obtains h where "lease_getById s j = Some h" "classifierSession h = n" "leaseState h = Active"
    "\<not> isPastTtl (c 0) h"
    "t = s\<lparr>leases := row_set (\<lambda>l. leaseId l = j)
       (\<lambda>l. l\<lparr>lastHeartbeat := c 1, expiresAt := c 1 + ttl\<rparr>) (leases s)\<rparr>"
  using assms
  by (auto simp: heartbeat_def Let_def split: option.splits if_splits sum.splits)

lemma heartbeat_spent:
  assumes "heartbeat ttl c j n s = Inr (t, l)" "lease_inv s" "T \<le> c 0" "spent i T s"
  shows "spent i T t"
proof -
  from assms(1) obtain h where h: "lease_getById s j = Some h" "leaseState h = Active"
      "\<not> isPastTtl (c 0) h"
      "t = s\<lparr>leases := row_set (\<lambda>l. leaseId l = j)
        (\<lambda>l. l\<lparr>lastHeartbeat := c 1, expiresAt := c 1 + ttl\<rparr>) (leases s)\<rparr>"
    by (rule heartbeat_ok)
  have hs: "h \<in> set (leases s)" "leaseId h = j"
    using row_get_Some [OF h(1) [unfolded lease_getById_def]] by simp_all
  have "j \<noteq> i"
    using assms(3,4) h(2,3) hs by (auto simp: spent_def isPastTtl_def)
  then show ?thesis
    unfolding h(4) by (intro spent_row_set assms(4)) auto
qed

lemma evaluateDeadness_spent:
  "evaluateDeadness a c s = Inr (t, l) \<Longrightarrow> spent i T s \<Longrightarrow> spent i T t"
  by (auto simp: evaluateDeadness_def Let_def spent_log spent_expire
      split: option.splits if_splits sum.splits)

lemma reclaim_spent: "reclaim a c n d r s = Inr (t, l) \<Longrightarrow> spent i T s \<Longrightarrow> spent i T t"
  by (auto simp: reclaim_def Let_def spent_log
      split: option.splits if_splits sum.splits intro!: spent_row_set)

lemma lease_step_spent:
  "lease_step ttl op s = Inr t \<Longrightarrow> lease_inv s \<Longrightarrow> T \<le> op_clock op 0 \<Longrightarrow> spent i T s \<Longrightarrow> spent i T t"
  by (cases op) (auto simp: map_sum_def split: sum.splits
      dest: acquire_spent heartbeat_spent evaluateDeadness_spent reclaim_spent)

lemma spent_refused:
  "spent i T s \<Longrightarrow> T \<le> c 0 \<Longrightarrow> \<exists>e. requireActiveHolder c n (Some i) s = Inl e"
  by (auto simp: requireActiveHolder_def spent_def split: option.split dest!: getActiveLease_Some)

section \<open>Properties\<close>

text \<open>C26: whatever sequence of acquires, heartbeats, deadness checks and reclaims is played on
  an empty table, at most one lease is active, lease ids are unique, and exactly the reclaimed
  leases name a reclaimer and a reason.\<close>

theorem lease_single_writer:
  "lease_inv (run_steps (lease_step ttl) ops \<lparr>leases = [], leaseEvents = []\<rparr>)"
  by (rule lease.run_keeps [OF lease_inv_empty])

text \<open>C39: a result bound to a lease that is no longer active, or whose TTL is past, is refused
  for ever: no later operation (whose clock does not run backwards) makes
  \<open>requireActiveHolder\<close> accept that lease id again, for any session.\<close>

theorem lease_spent_never_accepted:
  assumes "spent i T (run_steps (lease_step ttl) ops \<lparr>leases = [], leaseEvents = []\<rparr>)"
    and "\<forall>op \<in> set ops'. T \<le> op_clock op 0" and "T \<le> c 0"
  shows "\<exists>e. requireActiveHolder c n (Some i) (run_steps (lease_step ttl) ops'
    (run_steps (lease_step ttl) ops \<lparr>leases = [], leaseEvents = []\<rparr>)) = Inl e"
proof (rule spent_refused [where T = T and c = c])
  let ?s = "run_steps (lease_step ttl) ops \<lparr>leases = [], leaseEvents = []\<rparr>"
  show "spent i T (run_steps (lease_step ttl) ops' ?s)"
  proof (rule lease.run_stable [where P = "spent i T"])
    show "lease_inv ?s" by (rule lease.run_keeps [OF lease_inv_empty])
  qed (use assms lease_step_spent in blast)+
qed (rule assms(3))

theorem lease_spent_never_accepted_witness:
  "\<exists>e. requireActiveHolder (\<lambda>_. 30) ''a'' (Some ''l1'') (run_steps (lease_step 10)
    [Op_heartbeat (\<lambda>_. 20) ''l1'' ''a'', Op_acquire (\<lambda>_. 25) ''l2'' ''a'']
    (run_steps (lease_step 10) [Op_acquire (\<lambda>_. 0) ''l1'' ''a'']
       \<lparr>leases = [], leaseEvents = []\<rparr>)) = Inl e"
  by (rule lease_spent_never_accepted [where T = 20])
    (simp_all add: spent_def run_steps_simps attempt_step_def acquire_def getActiveLease_def
      insertActiveLease_def row_insert_def lease_log_event_def lease_getByIdOrThrow_def lease_getById_def row_simps)

text \<open>Only a reclaim takes a lease from a live holder before its TTL: every other accepted
  operation leaves the same lease active, with the same holder and acquisition time.\<close>

theorem lease_taken_only_by_reclaim:
  assumes "lease_step ttl op s = Inr t" and "getActiveLease s = Some l"
    and "case op of Op_reclaim a c n d r \<Rightarrow> False
       | Op_evaluate a c \<Rightarrow> a (classifierSession l) \<and> c 0 \<le> expiresAt l
       | _ \<Rightarrow> op_clock op 0 \<le> expiresAt l"
  shows "\<exists>l'. getActiveLease t = Some l' \<and> leaseId l' = leaseId l \<and>
    classifierSession l' = classifierSession l \<and> acquiredAt l' = acquiredAt l"
proof (cases op)
  case (Op_heartbeat c i n)
  then obtain l' where "heartbeat ttl c i n s = Inr (t, l')"
    using assms(1) by (auto simp: map_sum_def split: sum.splits)
  then obtain h where t: "t = s\<lparr>leases := row_set (\<lambda>l. leaseId l = i)
      (\<lambda>l. l\<lparr>lastHeartbeat := c 1, expiresAt := c 1 + ttl\<rparr>) (leases s)\<rparr>"
    by (rule heartbeat_ok)
  show ?thesis
    using assms(2) unfolding t by (simp add: getActiveLease_def find_row_set)
qed (use assms in \<open>auto simp: map_sum_def acquire_def evaluateDeadness_def isPastTtl_def
       split: sum.splits if_splits\<close>)

theorem lease_taken_only_by_reclaim_witness:
  "\<exists>l'. getActiveLease
      (run_steps (lease_step 10) [Op_acquire (\<lambda>_. 0) ''l1'' ''a'', Op_evaluate (\<lambda>_. True) (\<lambda>_. 10)]
         \<lparr>leases = [], leaseEvents = []\<rparr>) = Some l' \<and> leaseId l' = ''l1'' \<and>
      classifierSession l' = ''a'' \<and> acquiredAt l' = 0"
proof -
  let ?l = "\<lparr>leaseId = ''l1'', classifierSession = ''a'', acquiredAt = 0, expiresAt = 10,
    lastHeartbeat = 0, leaseState = Active, reclaimedBySession = None, reclaimReason = None\<rparr>"
  let ?s = "\<lparr>leases = [?l], leaseEvents = [Lease_acquired ''l1'' ''a'' 0 10]\<rparr>"
  have run: "run_steps (lease_step 10)
      [Op_acquire (\<lambda>_. 0) ''l1'' ''a'', Op_evaluate (\<lambda>_. True) (\<lambda>_. 10)]
      \<lparr>leases = [], leaseEvents = []\<rparr> = ?s"
    by (simp add: run_steps_simps attempt_step_def acquire_def getActiveLease_def
        evaluateDeadness_def insertActiveLease_def row_insert_def lease_log_event_def
        lease_getByIdOrThrow_def lease_getById_def row_simps)
  have "\<exists>l'. getActiveLease ?s = Some l' \<and> leaseId l' = leaseId ?l \<and>
      classifierSession l' = classifierSession ?l \<and> acquiredAt l' = acquiredAt ?l"
    by (rule lease_taken_only_by_reclaim [where op = "Op_evaluate (\<lambda>_. True) (\<lambda>_. 10)" and s = ?s
          and ttl = 10])
      (simp_all add: evaluateDeadness_def getActiveLease_def)
  then show ?thesis unfolding run by simp
qed

end
