(* ===== verification/Outbox.thy ===== *)
theory Outbox
  imports Prelude
begin

text \<open>
  The sender-side outbox (\<open>packages/daemon/src/domain/outbox-handler.ts\<close>): the durable receipt
  of every dispatched message, its delivery state machine, held ("retained") custody with its
  quota, and the claim that lets one drainer send a staged wake. The store is the table
  \<open>outbox_entries\<close> in rowid order with the columns of migrations 027, 067, 087, 100 and 140;
  \<open>now\<close> is the clock reading of the call and \<open>fresh\<close> the id \<open>newOutboxId\<close> draws.
\<close>

section \<open>State\<close>

definition WAKE_INTENT_PREFIX :: string where
  "WAKE_INTENT_PREFIX = ''wake-intent-''"

definition WATCHDOG_SENDER :: string where
  "WATCHDOG_SENDER = ''watchdog@system''"

datatype delivery_state = Pending | Sending | Delivered | Failed | Indeterminate | Retained | Retired

definition OUTBOX_DELIVERY_STATES :: "(string \<times> delivery_state) list" where
  "OUTBOX_DELIVERY_STATES =
    [(''pending'', Pending), (''sending'', Sending), (''delivered'', Delivered), (''failed'', Failed),
     (''indeterminate'', Indeterminate), (''retained'', Retained), (''retired'', Retired)]"

datatype outbox_error =
    Invalid_delivery_state
  | Delivery_identity_conflict
  | Delivery_already_attempted
  | Outbox_not_found
  | Retained_quota_full
  | Retirement_reason_required
  | Delivery_not_retained
  | Invalid_pagination

definition parseDeliveryState :: "string \<Rightarrow> outbox_error + delivery_state" where
  "parseDeliveryState raw = (case map_of OUTBOX_DELIVERY_STATES raw of
     None \<Rightarrow> Inl Invalid_delivery_state | Some d \<Rightarrow> Inr d)"

record guard_binding =
  gb_nodeId :: string
  gb_session :: string
  gb_occupant :: "string option"
  gb_pane :: "string option"

record expected_conversation =
  ec_nodeId :: string
  ec_sessionName :: string
  ec_runtime :: string
  ec_nativeId :: string

text \<open>What the watchdog keeps of a scheduled occurrence (\<open>watchdog-delivery-receipts.ts\<close>).\<close>

record watchdog_receipt =
  rt_attempts :: int
  rt_retryAt :: "timestamp option"
  rt_message :: string
  rt_nextAction :: "string option"
  rt_terminalReason :: "string option"
  rt_ended :: bool
  rt_error :: "string option"
  rt_heldIds :: "string list"

text \<open>The JSON receipt in \<open>guard_delivery\<close>: the member ids, the bound conversation, the watchdog's
  receipt, and the other keys, which this code copies without reading them.\<close>

record delivery_receipt =
  receipt_ids :: "string list"
  receipt_expected :: "expected_conversation option"
  receipt_watchdog :: "watchdog_receipt option"
  receipt_rest :: string

record outbox_entry =
  outboxId :: string
  senderSession :: string
  destinationSession :: string
  body :: string
  tags :: "string list option"
  urgency :: string
  tsDispatched :: timestamp
  deliveryState :: delivery_state
  deliveredAt :: "timestamp option"
  auditPointer :: "string option"
  identityProvenance :: "string option"
  identityPrincipal :: "string option"
  guardBinding :: "guard_binding option"
  guardDelivery :: "delivery_receipt option"
  retiredAt :: "timestamp option"
  retiredBy :: "string option"
  retirementReason :: "string option"

type_synonym outbox = "outbox_entry list"

record outbox_input =
  in_outboxId :: "string option"
  in_sender :: string
  in_destination :: string
  in_body :: string
  in_tags :: "string list option"
  in_urgency :: "string option"
  in_auditPointer :: "string option"
  in_provenance :: "string option"
  in_principal :: "string option"

section \<open>Reads\<close>

definition getEntry :: "outbox \<Rightarrow> string \<Rightarrow> outbox_entry option" where
  "getEntry s i = row_get outboxId i s"

definition getEntryOrThrow :: "outbox \<Rightarrow> string \<Rightarrow> outbox_error + outbox_entry" where
  "getEntryOrThrow s i = (case getEntry s i of None \<Rightarrow> Inl Outbox_not_found | Some e \<Rightarrow> Inr e)"

definition reread :: "outbox \<Rightarrow> string \<Rightarrow> outbox_error + outbox \<times> outbox_entry" where
  "reread s i = map_sum id (Pair s) (getEntryOrThrow s i)"

definition expectedIdentity :: "outbox \<Rightarrow> string \<Rightarrow> expected_conversation option" where
  "expectedIdentity s i = (case getEntry s i of
     None \<Rightarrow> None
   | Some e \<Rightarrow> (case guardDelivery e of None \<Rightarrow> None | Some r \<Rightarrow> receipt_expected r))"

definition held_for :: "string \<Rightarrow> outbox_entry \<Rightarrow> bool" where
  "held_for node e \<longleftrightarrow> deliveryState e = Retained \<and> map_option gb_nodeId (guardBinding e) = Some node"

definition retentionUsage :: "string \<Rightarrow> outbox \<Rightarrow> nat \<times> nat" where
  "retentionUsage node s =
    (let held = filter (held_for node) s in (length held, sum_list (map (\<lambda>e. byte_length (body e)) held)))"

record held_page =
  page_items :: "outbox_entry list"
  page_total :: nat
  page_truncated :: bool

definition heldForNode :: "string \<Rightarrow> int \<Rightarrow> int \<Rightarrow> outbox \<Rightarrow> outbox_error + held_page" where
  "heldForNode node limit offset s =
    (if limit < 1 \<or> limit > 1000 \<or> offset < 0 then Inl Invalid_pagination
     else
       (let total = row_count (held_for node) s;
            rows = take (nat limit) (drop (nat offset)
              (sort_key tsDispatched (sort_key outboxId (filter (held_for node) s))))
        in Inr \<lparr>page_items = rows, page_total = total,
                page_truncated = (nat offset + length rows < total)\<rparr>))"

definition newest_first :: "outbox \<Rightarrow> outbox" where
  "newest_first s = rev (sort_key tsDispatched s)"

definition listForSender :: "string list \<Rightarrow> int \<Rightarrow> outbox \<Rightarrow> outbox" where
  "listForSender addresses limit s =
    sql_limit limit (newest_first (filter (\<lambda>e. senderSession e \<in> set addresses) s))"

text \<open>\<open>LIKE '%@rig' ESCAPE\<close> with the wildcards of the rig name escaped: the text ends in \<open>@rig\<close>,
  without regard to the case of ASCII letters.\<close>

definition ascii_lower :: "char \<Rightarrow> char" where
  "ascii_lower c = (let n = of_char c :: nat in if 65 \<le> n \<and> n \<le> 90 then char_of (n + 32) else c)"

definition like_at_rig :: "string \<Rightarrow> string \<Rightarrow> bool" where
  "like_at_rig rig x = suffix (map ascii_lower (CHR ''@'' # rig)) (map ascii_lower x)"

definition listForRig :: "string \<Rightarrow> int \<Rightarrow> outbox \<Rightarrow> outbox" where
  "listForRig rig limit s =
    sql_limit limit (newest_first
      (filter (\<lambda>e. like_at_rig rig (senderSession e) \<or> like_at_rig rig (destinationSession e)) s))"

definition has_id_prefix :: "string \<Rightarrow> outbox_entry \<Rightarrow> bool" where
  "has_id_prefix p e = (take (length p) (outboxId e) = p)"

definition listPending :: "string \<Rightarrow> int \<Rightarrow> outbox \<Rightarrow> outbox" where
  "listPending p limit s =
    sql_limit limit (sort_key tsDispatched (filter (\<lambda>e. deliveryState e = Pending \<and> has_id_prefix p e) s))"

section \<open>Writes\<close>

definition new_entry :: "timestamp \<Rightarrow> string \<Rightarrow> outbox_input \<Rightarrow> outbox_entry" where
  "new_entry now i input =
    (let principal = (if in_provenance input = Some ''principal:v1'' then in_principal input else None);
         provenance = (if in_provenance input = Some ''principal:v1'' \<and> \<not> truthy principal
                       then Some ''transport:v1'' else in_provenance input)
     in \<lparr>outboxId = i, senderSession = in_sender input, destinationSession = in_destination input,
         body = in_body input, tags = in_tags input, urgency = or_default (in_urgency input) ''routine'',
         tsDispatched = now, deliveryState = Pending, deliveredAt = None,
         auditPointer = in_auditPointer input, identityProvenance = provenance,
         identityPrincipal = (if truthy principal then principal else None),
         guardBinding = None, guardDelivery = None, retiredAt = None, retiredBy = None,
         retirementReason = None\<rparr>)"

definition record_entry ::
  "timestamp \<Rightarrow> string \<Rightarrow> outbox_input \<Rightarrow> outbox \<Rightarrow> outbox_error + outbox \<times> outbox_entry" where
  "record_entry now fresh input s =
    (let i = or_default (in_outboxId input) fresh
     in case getEntry s i of
          Some e \<Rightarrow> Inr (s, e)
        | None \<Rightarrow> reread (s @ [new_entry now i input]) i)"

text \<open>\<open>bindExpectedIdentity\<close> and \<open>retain\<close> are given the id with the input.\<close>

definition same_message :: "outbox_entry \<Rightarrow> outbox_input \<Rightarrow> bool" where
  "same_message e input \<longleftrightarrow> senderSession e = in_sender input \<and>
     destinationSession e = in_destination input \<and> body e = in_body input"

definition bindExpectedIdentity ::
  "timestamp \<Rightarrow> string \<Rightarrow> outbox_input \<Rightarrow> expected_conversation \<Rightarrow> outbox \<Rightarrow> outbox_error + outbox" where
  "bindExpectedIdentity now i input expected s =
    (let prior = getEntry s i; bound = expectedIdentity s i
     in if (prior \<noteq> None \<and> \<not> same_message (the prior) input) \<or> (bound \<noteq> None \<and> bound \<noteq> Some expected)
        then Inl Delivery_identity_conflict
        else
          (case (if prior = None then map_sum id fst (record_entry now i (input\<lparr>in_outboxId := Some i\<rparr>) s)
                 else Inr s) of
             Inl e \<Rightarrow> Inl e
           | Inr s1 \<Rightarrow> Inr (row_set (\<lambda>e. outboxId e = i)
               (\<lambda>e. e\<lparr>guardDelivery := Some ((or_default (guardDelivery e)
                        \<lparr>receipt_ids = [i], receipt_expected = None, receipt_watchdog = None, receipt_rest = []\<rparr>)
                      \<lparr>receipt_expected := Some expected\<rparr>)\<rparr>) s1)))"

definition assertRetentionCapacity :: "string \<Rightarrow> string \<Rightarrow> outbox \<Rightarrow> bool" where
  "assertRetentionCapacity node text s =
    (let (count, bytes) = retentionUsage node s; size = byte_length text
     in \<not> (size > 1024 * 1024 \<or> count \<ge> 100 \<or> bytes + size > 8 * 1024 * 1024))"

definition supersede_reminders :: "timestamp \<Rightarrow> outbox_input \<Rightarrow> string \<Rightarrow> outbox \<Rightarrow> outbox" where
  "supersede_reminders now input node s =
    row_set (\<lambda>e. held_for node e \<and> senderSession e = WATCHDOG_SENDER \<and> auditPointer e = in_auditPointer input)
      (\<lambda>e. e\<lparr>deliveryState := Retired, retiredAt := Some now, retiredBy := Some WATCHDOG_SENDER,
             retirementReason := Some ''superseded by a newer reminder from the same watchdog job''\<rparr>) s"

definition hold_row :: "string \<Rightarrow> guard_binding \<Rightarrow> outbox \<Rightarrow> outbox" where
  "hold_row i binding s =
    row_set (\<lambda>e. outboxId e = i \<and> (deliveryState e = Pending \<or> deliveryState e = Sending))
      (\<lambda>e. e\<lparr>deliveryState := Retained, guardBinding := Some binding, deliveredAt := None\<rparr>) s"

definition superseded :: "timestamp \<Rightarrow> outbox_input \<Rightarrow> string \<Rightarrow> bool \<Rightarrow> bool \<Rightarrow> outbox \<Rightarrow> outbox" where
  "superseded now input node existing precommitted s =
    (if \<not> existing \<and> \<not> precommitted \<and> in_sender input = WATCHDOG_SENDER \<and> truthy (in_auditPointer input)
     then supersede_reminders now input node s else s)"

definition retain_new ::
  "timestamp \<Rightarrow> string \<Rightarrow> outbox_input \<Rightarrow> guard_binding \<Rightarrow> bool \<Rightarrow> bool \<Rightarrow> outbox
     \<Rightarrow> outbox_error + outbox \<times> outbox_entry" where
  "retain_new now i input binding existing precommitted s =
    (let s1 = superseded now input (gb_nodeId binding) existing precommitted s
     in if \<not> precommitted \<and> \<not> assertRetentionCapacity (gb_nodeId binding) (in_body input) s1
        then Inl Retained_quota_full
        else
          (case (if \<not> existing then map_sum id fst (record_entry now i (input\<lparr>in_outboxId := Some i\<rparr>) s1)
                 else Inr s1) of
             Inl e \<Rightarrow> Inl e
           | Inr s2 \<Rightarrow> reread (hold_row i binding s2) i))"

definition retain ::
  "timestamp \<Rightarrow> string \<Rightarrow> outbox_input \<Rightarrow> guard_binding \<Rightarrow> bool \<Rightarrow> outbox
     \<Rightarrow> outbox_error + outbox \<times> outbox_entry" where
  "retain now i input binding precommitted s =
    (case getEntry s i of
       Some e \<Rightarrow>
         if \<not> same_message e input \<or> (guardBinding e \<noteq> None \<and> guardBinding e \<noteq> Some binding)
         then Inl Delivery_identity_conflict
         else if deliveryState e = Retained \<or> deliveryState e = Retired then Inr (s, e)
         else if deliveryState e \<noteq> Pending \<and> deliveryState e \<noteq> Sending then Inl Delivery_already_attempted
         else retain_new now i input binding True precommitted s
     | None \<Rightarrow>
         if precommitted then Inl Outbox_not_found
         else retain_new now i input binding False precommitted s)"

definition retire ::
  "timestamp \<Rightarrow> string \<Rightarrow> string \<Rightarrow> string \<Rightarrow> outbox \<Rightarrow> outbox_error + outbox \<times> outbox_entry" where
  "retire now i actor reason s =
    (if trim actor = [] \<or> trim reason = [] then Inl Retirement_reason_required
     else case getEntryOrThrow s i of
         Inl e \<Rightarrow> Inl e
       | Inr e \<Rightarrow>
           if deliveryState e = Retired then Inr (s, e)
           else if deliveryState e \<noteq> Retained then Inl Delivery_not_retained
           else reread (row_set (\<lambda>e. outboxId e = i \<and> deliveryState e = Retained)
                  (\<lambda>e. e\<lparr>deliveryState := Retired, retiredAt := Some now, retiredBy := Some actor,
                         retirementReason := Some reason\<rparr>) s) i)"

text \<open>The compare-and-set shared by the four outcome writers: when no row is in the state the
  update requires, the current row is returned, and an unknown id is an error.\<close>

definition cas_update ::
  "string \<Rightarrow> (outbox_entry \<Rightarrow> bool) \<Rightarrow> (outbox_entry \<Rightarrow> outbox_entry) \<Rightarrow> outbox
     \<Rightarrow> outbox_error + outbox \<times> outbox_entry" where
  "cas_update i ready f s = reread (row_set (\<lambda>e. outboxId e = i \<and> ready e) f s) i"

definition markDelivered :: "timestamp \<Rightarrow> string \<Rightarrow> outbox \<Rightarrow> outbox_error + outbox \<times> outbox_entry" where
  "markDelivered now i = cas_update i (\<lambda>e. deliveryState e = Pending)
     (\<lambda>e. e\<lparr>deliveryState := Delivered, deliveredAt := Some now\<rparr>)"

definition markFailed :: "string \<Rightarrow> outbox \<Rightarrow> outbox_error + outbox \<times> outbox_entry" where
  "markFailed i = cas_update i (\<lambda>e. deliveryState e = Pending) (\<lambda>e. e\<lparr>deliveryState := Failed\<rparr>)"

definition markIndeterminate :: "string \<Rightarrow> outbox \<Rightarrow> outbox_error + outbox \<times> outbox_entry" where
  "markIndeterminate i =
     cas_update i (\<lambda>e. deliveryState e = Pending) (\<lambda>e. e\<lparr>deliveryState := Indeterminate\<rparr>)"

definition claimable :: "outbox_entry \<Rightarrow> bool" where
  "claimable e \<longleftrightarrow> deliveryState e \<in> {Pending, Failed, Indeterminate}"

definition claimForDelivery :: "string \<Rightarrow> outbox \<Rightarrow> outbox \<times> bool" where
  "claimForDelivery i s =
    (let p = (\<lambda>e. outboxId e = i \<and> claimable e)
     in (row_set p (\<lambda>e. e\<lparr>deliveryState := Sending\<rparr>) s, row_count p s = 1))"

text \<open>The four outcomes \<open>finalizeDelivery\<close> accepts.\<close>

datatype outcome = Out_delivered | Out_indeterminate | Out_failed | Out_retained

fun outcome_state :: "outcome \<Rightarrow> delivery_state" where
  "outcome_state Out_delivered = Delivered"
| "outcome_state Out_indeterminate = Indeterminate"
| "outcome_state Out_failed = Failed"
| "outcome_state Out_retained = Retained"

lemma outcome_state_simps [simp]:
  "outcome_state r = Delivered \<longleftrightarrow> r = Out_delivered" "outcome_state r \<noteq> Retired"
  "outcome_state r \<noteq> Sending" "outcome_state r \<noteq> Pending"
  by (cases r; simp)+

definition finalizeDelivery ::
  "timestamp \<Rightarrow> string \<Rightarrow> outcome \<Rightarrow> outbox \<Rightarrow> outbox_error + outbox \<times> outbox_entry" where
  "finalizeDelivery now i r = cas_update i (\<lambda>e. deliveryState e = Sending)
     (\<lambda>e. e\<lparr>deliveryState := outcome_state r,
            deliveredAt := (if r = Out_delivered then Some now else None)\<rparr>)"

definition abandoned :: "string \<Rightarrow> outbox_entry \<Rightarrow> bool" where
  "abandoned p e \<longleftrightarrow> deliveryState e = Sending \<and> has_id_prefix p e"

definition reconcileAbandonedSending :: "string \<Rightarrow> outbox \<Rightarrow> outbox \<times> nat" where
  "reconcileAbandonedSending p s =
    (row_set (abandoned p) (\<lambda>e. e\<lparr>deliveryState := Indeterminate\<rparr>) s, row_count (abandoned p) s)"

text \<open>The notice a seat's new occupant gets: how many messages are held, or nothing.\<close>

definition heldMessagesNotice :: "string \<Rightarrow> outbox \<Rightarrow> nat option" where
  "heldMessagesNotice node s = (let n = fst (retentionUsage node s) in if n = 0 then None else Some n)"

section \<open>The outbox machine\<close>

datatype outbox_op =
    Op_record timestamp string outbox_input
  | Op_bind timestamp string outbox_input expected_conversation
  | Op_retain timestamp string outbox_input guard_binding bool
  | Op_retire timestamp string string string
  | Op_mark_delivered timestamp string
  | Op_mark_failed string
  | Op_mark_indeterminate string
  | Op_claim string
  | Op_finalize timestamp string outcome
  | Op_reconcile string

fun outbox_step :: "outbox_op \<Rightarrow> outbox \<Rightarrow> outbox_error + outbox" where
  "outbox_step (Op_record n f i) s = map_sum id fst (record_entry n f i s)"
| "outbox_step (Op_bind n i m x) s = bindExpectedIdentity n i m x s"
| "outbox_step (Op_retain n i m b p) s = map_sum id fst (retain n i m b p s)"
| "outbox_step (Op_retire n i a r) s = map_sum id fst (retire n i a r s)"
| "outbox_step (Op_mark_delivered n i) s = map_sum id fst (markDelivered n i s)"
| "outbox_step (Op_mark_failed i) s = map_sum id fst (markFailed i s)"
| "outbox_step (Op_mark_indeterminate i) s = map_sum id fst (markIndeterminate i s)"
| "outbox_step (Op_claim i) s = Inr (fst (claimForDelivery i s))"
| "outbox_step (Op_finalize n i r) s = map_sum id fst (finalizeDelivery n i r s)"
| "outbox_step (Op_reconcile p) s = Inr (fst (reconcileAbandonedSending p s))"

section \<open>Custody\<close>

text \<open>What every write keeps of an entry: its content, and the absorbing delivery states.\<close>

definition same_content :: "outbox_entry \<Rightarrow> outbox_entry \<Rightarrow> bool" where
  "same_content e e' \<longleftrightarrow> outboxId e' = outboxId e \<and> senderSession e' = senderSession e \<and>
     destinationSession e' = destinationSession e \<and> body e' = body e \<and> tags e' = tags e \<and>
     urgency e' = urgency e \<and> tsDispatched e' = tsDispatched e \<and> auditPointer e' = auditPointer e \<and>
     identityProvenance e' = identityProvenance e \<and> identityPrincipal e' = identityPrincipal e"

definition custody :: "outbox_entry \<Rightarrow> outbox_entry \<Rightarrow> bool" where
  "custody e e' \<longleftrightarrow> same_content e e' \<and>
     (deliveryState e = Delivered \<longrightarrow> deliveryState e' = Delivered) \<and>
     (deliveryState e = Retired \<longrightarrow> deliveryState e' = Retired) \<and>
     (deliveryState e = Retained \<longrightarrow> deliveryState e' = Retained \<or> deliveryState e' = Retired)"

definition keeps :: "outbox \<Rightarrow> outbox \<Rightarrow> bool" where
  "keeps s t \<longleftrightarrow> (\<forall>i e. getEntry s i = Some e \<longrightarrow> (\<exists>e'. getEntry t i = Some e' \<and> custody e e'))"

lemma custody_refl: "custody e e"
  by (simp add: custody_def same_content_def)

lemma custody_trans: "custody e f \<Longrightarrow> custody f g \<Longrightarrow> custody e g"
  by (auto simp: custody_def same_content_def)

lemma keeps_refl: "keeps s s"
  by (auto simp: keeps_def intro: custody_refl)

lemma keeps_trans: "keeps s t \<Longrightarrow> keeps t u \<Longrightarrow> keeps s u"
  unfolding keeps_def by (meson custody_trans)

lemma getEntry_row_set:
  "(\<And>e. outboxId (f e) = outboxId e) \<Longrightarrow>
    getEntry (row_set p f s) i = map_option (\<lambda>e. if p e then f e else e) (getEntry s i)"
  unfolding getEntry_def by (rule row_get_set)

lemma keeps_row_set:
  assumes "\<And>e. p e \<Longrightarrow> custody e (f e)" and "\<And>e. outboxId (f e) = outboxId e"
  shows "keeps s (row_set p f s)"
  unfolding keeps_def using assms by (auto simp: getEntry_row_set intro: custody_refl)

lemma keeps_append: "keeps s (s @ [e])"
  by (auto simp: keeps_def getEntry_def row_simps intro: custody_refl)

lemma reread_Inr: "reread s i = Inr (t, e) \<longleftrightarrow> t = s \<and> getEntry s i = Some e"
  by (auto simp: reread_def getEntryOrThrow_def split: option.splits)

lemma getEntry_new: "getEntry s i = None \<Longrightarrow> outboxId e = i \<Longrightarrow> getEntry (s @ [e]) i = Some e"
  by (simp add: getEntry_def row_simps)

lemma new_entry_id [simp]: "outboxId (new_entry now i input) = i"
  by (simp add: new_entry_def Let_def)

lemma record_entry_eq:
  "record_entry now fresh input s =
    (let i = or_default (in_outboxId input) fresh in
     case getEntry s i of Some e \<Rightarrow> Inr (s, e)
     | None \<Rightarrow> Inr (s @ [new_entry now i input], new_entry now i input))"
  by (auto simp: record_entry_def Let_def reread_def getEntryOrThrow_def getEntry_new
      split: option.split)

lemma record_entry_keeps: "record_entry now fresh input s = Inr (t, e) \<Longrightarrow> keeps s t"
  by (auto simp: record_entry_eq Let_def split: option.splits intro: keeps_refl keeps_append)

lemma cas_update_keeps:
  assumes "cas_update i ready f s = Inr (t, e)"
    and "\<And>e. ready e \<Longrightarrow> custody e (f e)" and "\<And>e. outboxId (f e) = outboxId e"
  shows "keeps s t"
proof -
  have "t = row_set (\<lambda>e. outboxId e = i \<and> ready e) f s"
    using assms(1) by (auto simp: cas_update_def reread_Inr)
  then show ?thesis using assms(2,3) by (auto intro: keeps_row_set)
qed

lemma hold_row_keeps: "keeps s (hold_row i b s)"
  unfolding hold_row_def by (rule keeps_row_set) (auto simp: custody_def same_content_def)

lemma supersede_keeps: "keeps s (supersede_reminders now input node s)"
  unfolding supersede_reminders_def
  by (rule keeps_row_set) (auto simp: custody_def same_content_def held_for_def)

lemma superseded_keeps: "keeps s (superseded now input node ex pre s)"
  by (simp add: superseded_def supersede_keeps keeps_refl)

lemma retain_new_keeps:
  assumes "retain_new now i input b ex pre s = Inr (t, e)"
  shows "keeps s t"
proof -
  let ?s1 = "superseded now input (gb_nodeId b) ex pre s"
  obtain s2 where "keeps ?s1 s2" and "t = hold_row i b s2"
    using assms
    by (auto simp: retain_new_def reread_Inr Let_def
        split: if_splits sum.splits intro: record_entry_keeps keeps_refl)
  then show ?thesis
    using keeps_trans [OF keeps_trans [OF superseded_keeps] hold_row_keeps] by blast
qed

lemma retain_keeps: "retain now i input b pre s = Inr (t, e) \<Longrightarrow> keeps s t"
  by (auto simp: retain_def split: option.splits if_splits intro: keeps_refl retain_new_keeps)

lemma retire_keeps: "retire now i a r s = Inr (t, e) \<Longrightarrow> keeps s t"
  by (auto simp: retire_def reread_Inr split: if_splits sum.splits intro!: keeps_refl keeps_row_set)
    (auto simp: custody_def same_content_def)

lemma bind_keeps: "bindExpectedIdentity now i input x s = Inr t \<Longrightarrow> keeps s t"
  unfolding bindExpectedIdentity_def Let_def
  by (auto split: if_splits sum.splits
      intro!: keeps_trans [OF record_entry_keeps keeps_row_set] keeps_row_set)
    (auto simp: custody_def same_content_def)

lemmas outcome_writers = markDelivered_def markFailed_def markIndeterminate_def finalizeDelivery_def

lemma claim_keeps: "keeps s (fst (claimForDelivery i s))"
  by (auto simp: claimForDelivery_def Let_def claimable_def custody_def same_content_def
      intro!: keeps_row_set)

lemma reconcile_keeps: "keeps s (fst (reconcileAbandonedSending p s))"
  by (auto simp: reconcileAbandonedSending_def abandoned_def custody_def same_content_def
      intro!: keeps_row_set)

lemma outbox_step_keeps: "outbox_step op s = Inr t \<Longrightarrow> keeps s t"
  by (cases op)
    (auto simp: outcome_writers claim_keeps reconcile_keeps
      intro: record_entry_keeps retain_keeps retire_keeps bind_keeps
      elim!: cas_update_keeps, auto simp: custody_def same_content_def)

section \<open>The invariant\<close>

text \<open>Ids are unique; a delivery time goes with a delivery, the retirement fields with a
  retirement, and a seat binding with held or retired custody.\<close>

definition entry_ok :: "outbox_entry \<Rightarrow> bool" where
  "entry_ok e \<longleftrightarrow>
     (deliveredAt e \<noteq> None) = (deliveryState e = Delivered) \<and>
     (retiredAt e \<noteq> None) = (deliveryState e = Retired) \<and>
     (retiredBy e \<noteq> None) = (deliveryState e = Retired) \<and>
     (retirementReason e \<noteq> None) = (deliveryState e = Retired) \<and>
     (guardBinding e \<noteq> None \<longrightarrow> deliveryState e = Retained \<or> deliveryState e = Retired) \<and>
     (identityPrincipal e \<noteq> None \<longrightarrow> identityProvenance e = Some ''principal:v1'')"

definition outbox_inv :: "outbox \<Rightarrow> bool" where
  "outbox_inv s \<longleftrightarrow> distinct (map outboxId s) \<and> (\<forall>e \<in> set s. entry_ok e)"

lemma outbox_inv_Nil: "outbox_inv []"
  by (simp add: outbox_inv_def)

lemma outbox_inv_row_set:
  assumes "outbox_inv s" and "\<And>e. p e \<Longrightarrow> entry_ok e \<Longrightarrow> entry_ok (f e)"
    and "\<And>e. outboxId (f e) = outboxId e"
  shows "outbox_inv (row_set p f s)"
  using assms(1,2)
  by (auto simp: outbox_inv_def set_row_set row_set_keys [where key = outboxId and f = f, OF assms(3)])

lemma entry_ok_new: "entry_ok (new_entry now i input)"
  by (simp add: entry_ok_def new_entry_def Let_def)

lemma record_entry_inv:
  "record_entry now fresh input s = Inr (t, e) \<Longrightarrow> outbox_inv s \<Longrightarrow> outbox_inv t"
  by (auto simp: record_entry_eq Let_def outbox_inv_def entry_ok_new getEntry_def row_get_None
      split: option.splits)

lemma hold_row_inv: "outbox_inv s \<Longrightarrow> outbox_inv (hold_row i b s)"
  unfolding hold_row_def by (rule outbox_inv_row_set) (auto simp: entry_ok_def)

lemma supersede_inv: "outbox_inv s \<Longrightarrow> outbox_inv (supersede_reminders now input node s)"
  unfolding supersede_reminders_def
  by (rule outbox_inv_row_set) (auto simp: entry_ok_def held_for_def)

lemma superseded_inv: "outbox_inv s \<Longrightarrow> outbox_inv (superseded now input node ex pre s)"
  by (simp add: superseded_def supersede_inv)

lemma retain_new_inv:
  "retain_new now i input b ex pre s = Inr (t, e) \<Longrightarrow> outbox_inv s \<Longrightarrow> outbox_inv t"
  by (auto simp: retain_new_def reread_Inr Let_def split: if_splits sum.splits
      intro!: hold_row_inv elim!: record_entry_inv intro: superseded_inv)

lemma cas_update_inv:
  assumes "cas_update i ready f s = Inr (t, e)" and "outbox_inv s"
    and "\<And>e. ready e \<Longrightarrow> entry_ok e \<Longrightarrow> entry_ok (f e)" and "\<And>e. outboxId (f e) = outboxId e"
  shows "outbox_inv t"
  using assms by (auto simp: cas_update_def reread_Inr intro!: outbox_inv_row_set)

lemma retire_inv: "retire now i a r s = Inr (t, e) \<Longrightarrow> outbox_inv s \<Longrightarrow> outbox_inv t"
  by (auto simp: retire_def reread_Inr split: if_splits sum.splits intro!: outbox_inv_row_set)
    (auto simp: entry_ok_def)

lemma bind_inv: "bindExpectedIdentity now i input x s = Inr t \<Longrightarrow> outbox_inv s \<Longrightarrow> outbox_inv t"
  unfolding bindExpectedIdentity_def Let_def
  by (auto split: if_splits sum.splits intro!: outbox_inv_row_set elim!: record_entry_inv)
    (auto simp: entry_ok_def)

lemma outbox_step_inv: "outbox_inv s \<Longrightarrow> outbox_step op s = Inr t \<Longrightarrow> outbox_inv t"
  by (cases op)
    (auto simp: outcome_writers claimForDelivery_def reconcileAbandonedSending_def retain_def Let_def
        split: option.splits if_splits
        intro: record_entry_inv retain_new_inv retire_inv bind_inv
        intro!: outbox_inv_row_set elim!: cas_update_inv,
      auto simp: entry_ok_def claimable_def abandoned_def)

interpretation outbox: guarded_machine outbox_step outbox_inv
  by unfold_locales (rule outbox_step_inv)

interpretation outbox_record: idempotent_put getEntry
    "\<lambda>i (now, input). record_entry now i (input\<lparr>in_outboxId := Some i\<rparr>)"
proof unfold_locales
  fix s :: outbox and t k k' v and i :: "timestamp \<times> outbox_input"
  let ?put = "(\<lambda>(now, input). record_entry now k (input\<lparr>in_outboxId := Some k\<rparr>)) i s"
  show "getEntry s k = Some v \<Longrightarrow> ?put = Inr (s, v)"
    by (cases i) (simp add: record_entry_eq)
  show "getEntry s k = None \<Longrightarrow> ?put = Inr (t, v) \<Longrightarrow> getEntry t k = Some v"
    by (cases i) (auto simp: record_entry_eq getEntry_new)
  show "?put = Inr (t, v) \<Longrightarrow> k' \<noteq> k \<Longrightarrow> getEntry t k' = getEntry s k'"
    by (cases i) (auto simp: record_entry_eq getEntry_def row_simps split: option.splits)
qed

section \<open>The quota\<close>

definition within_quota :: "string \<Rightarrow> outbox \<Rightarrow> bool" where
  "within_quota node s \<longleftrightarrow>
     fst (retentionUsage node s) \<le> 100 \<and> snd (retentionUsage node s) \<le> 8 * 1024 * 1024"

definition usage_le :: "string \<Rightarrow> outbox \<Rightarrow> outbox \<Rightarrow> bool" where
  "usage_le node t s \<longleftrightarrow> fst (retentionUsage node t) \<le> fst (retentionUsage node s) \<and>
     snd (retentionUsage node t) \<le> snd (retentionUsage node s)"

lemma usage_le_refl: "usage_le node s s"
  by (simp add: usage_le_def)

lemma usage_le_quota: "usage_le node t s \<Longrightarrow> within_quota node s \<Longrightarrow> within_quota node t"
  by (auto simp: usage_le_def within_quota_def)

lemma usage_le_row_set:
  assumes "\<And>e. p e \<Longrightarrow> held_for node (f e) \<Longrightarrow> held_for node e \<and> body (f e) = body e"
  shows "usage_le node (row_set p f s) s"
  using sum_filter_row_set_le [where w = "\<lambda>e. byte_length (body e)" and q = "held_for node" and p = p
      and f = f and rows = s] filter_row_set_le [where q = "held_for node" and p = p and f = f and rows = s]
  using assms by (simp add: usage_le_def retentionUsage_def Let_def)

lemma usage_le_append_new: "usage_le node (s @ [new_entry now i input]) s"
  by (simp add: usage_le_def retentionUsage_def Let_def held_for_def new_entry_def)

lemma record_entry_usage: "record_entry now fresh input s = Inr (t, e) \<Longrightarrow> usage_le node t s"
  by (auto simp: record_entry_eq Let_def split: option.splits
      intro: usage_le_refl usage_le_append_new)

lemma hold_row_usage_other:
  "gb_nodeId b \<noteq> node \<Longrightarrow> usage_le node (hold_row i b s) s"
  unfolding hold_row_def by (rule usage_le_row_set) (simp add: held_for_def)

lemma hold_row_usage_one:
  assumes "outbox_inv s" and "getEntry s i = Some e" and "byte_length (body e) \<le> B"
  shows "fst (retentionUsage node (hold_row i b s)) \<le> fst (retentionUsage node s) + 1"
    and "snd (retentionUsage node (hold_row i b s)) \<le> snd (retentionUsage node s) + B"
proof -
  have d: "distinct (map outboxId s)" using assms(1) by (simp add: outbox_inv_def)
  have u: "r = e" if "r \<in> set s" "outboxId r = i" for r
    using assms(2) that row_get_distinct [OF d] by (auto simp: getEntry_def)
  let ?p = "\<lambda>e. outboxId e = i \<and> (deliveryState e = Pending \<or> deliveryState e = Sending)"
  let ?f = "\<lambda>e. e\<lparr>deliveryState := Retained, guardBinding := Some b, deliveredAt := None\<rparr>"
  have "sum_list (map (\<lambda>_. 1) (filter (held_for node) (row_set ?p ?f s)))
      \<le> sum_list (map (\<lambda>_. 1) (filter (held_for node) s)) + (1::nat)"
    by (rule sum_filter_row_set_one [OF d, where k = i]) auto
  then show "fst (retentionUsage node (hold_row i b s)) \<le> fst (retentionUsage node s) + 1"
    by (simp add: retentionUsage_def hold_row_def Let_def sum_list_triv)
  have "sum_list (map (\<lambda>e. byte_length (body e)) (filter (held_for node) (row_set ?p ?f s)))
      \<le> sum_list (map (\<lambda>e. byte_length (body e)) (filter (held_for node) s)) + B"
    by (rule sum_filter_row_set_one [OF d, where k = i]) (use u assms(3) in auto)
  then show "snd (retentionUsage node (hold_row i b s)) \<le> snd (retentionUsage node s) + B"
    by (simp add: retentionUsage_def hold_row_def Let_def)
qed

lemma supersede_usage: "usage_le node (supersede_reminders now input n s) s"
  unfolding supersede_reminders_def by (rule usage_le_row_set) (simp add: held_for_def)

text \<open>A new hold fits the quota it was checked against; other seats are not charged.\<close>

lemma retain_new_quota:
  assumes r: "retain_new now i input b ex False s = Inr (t, e)" and inv: "outbox_inv s"
    and q: "within_quota node s"
    and ex: "if ex then \<exists>x. getEntry s i = Some x \<and> body x = in_body input else getEntry s i = None"
  shows "within_quota node t"
proof -
  define s1 where "s1 = superseded now input (gb_nodeId b) ex False s"
  have inv1: "outbox_inv s1" using inv by (simp add: s1_def superseded_inv)
  have q1: "within_quota node s1"
    using q by (simp add: s1_def superseded_def usage_le_quota [OF supersede_usage])
  have ex1: "if ex then \<exists>x. getEntry s1 i = Some x \<and> body x = in_body input else getEntry s1 i = None"
    using ex by (auto simp: s1_def superseded_def supersede_reminders_def getEntry_row_set)
  have cap: "assertRetentionCapacity (gb_nodeId b) (in_body input) s1"
    using r by (auto simp: retain_new_def s1_def [symmetric] Let_def split: if_splits)
  have r': "(case (if \<not> ex then map_sum id fst (record_entry now i (input\<lparr>in_outboxId := Some i\<rparr>) s1)
      else Inr s1) of Inl e \<Rightarrow> Inl e | Inr s2 \<Rightarrow> reread (hold_row i b s2) i) = Inr (t, e)"
    using r [unfolded retain_new_def, folded s1_def, unfolded Let_def] cap by (simp only: simp_thms if_True if_False)
  have "\<exists>s2 x. t = hold_row i b s2 \<and> outbox_inv s2 \<and> (\<forall>n. usage_le n s2 s1) \<and>
      getEntry s2 i = Some x \<and> body x = in_body input"
  proof (cases ex)
    case True
    then show ?thesis
      using r' ex1 inv1 by (auto simp: reread_Inr intro: usage_le_refl)
  next
    case False
    let ?n = "new_entry now i (input\<lparr>in_outboxId := Some i\<rparr>)"
    have none: "getEntry s1 i = None" using ex1 False by simp
    have "t = hold_row i b (s1 @ [?n])"
      using r' False none by (auto simp: reread_Inr record_entry_eq Let_def)
    moreover have "outbox_inv (s1 @ [?n])"
      by (rule record_entry_inv [OF _ inv1, where e = ?n and now = now and fresh = i
            and input = "input\<lparr>in_outboxId := Some i\<rparr>"]) (simp add: record_entry_eq none)
    moreover have "body ?n = in_body input" by (simp add: new_entry_def Let_def)
    ultimately show ?thesis
      using none by (intro exI [of _ "s1 @ [?n]"] exI [of _ ?n])
        (simp add: usage_le_append_new getEntry_new)
  qed
  then obtain s2 x where s2: "t = hold_row i b s2" "outbox_inv s2" "\<And>n. usage_le n s2 s1"
      "getEntry s2 i = Some x" "body x = in_body input" by blast
  show ?thesis
  proof (cases "gb_nodeId b = node")
    case False
    then show ?thesis
      using s2 q1 by (auto intro: usage_le_quota hold_row_usage_other)
  next
    case True
    have "byte_length (body x) \<le> byte_length (in_body input)" by (simp add: s2(5))
    note u = hold_row_usage_one [OF s2(2,4) this, of node b]
    show ?thesis
      using u cap s2(3) [of node] True
      by (auto simp: s2(1) within_quota_def assertRetentionCapacity_def usage_le_def
          Let_def split: prod.splits)
  qed
qed

definition fresh_hold :: "outbox_op \<Rightarrow> bool" where
  "fresh_hold op \<longleftrightarrow> (case op of Op_retain _ _ _ _ precommitted \<Rightarrow> \<not> precommitted | _ \<Rightarrow> True)"

lemma cas_update_usage:
  assumes "cas_update i ready f s = Inr (t, e)"
    and "\<And>e. ready e \<Longrightarrow> e \<in> set s \<Longrightarrow> held_for node (f e) \<Longrightarrow> held_for node e \<and> body (f e) = body e"
  shows "usage_le node t s"
proof -
  have "t = row_set (\<lambda>e. (outboxId e = i \<and> ready e) \<and> e \<in> set s) f s"
    using assms(1) by (auto simp: cas_update_def reread_Inr row_set_def)
  then show ?thesis using assms(2) by (auto intro: usage_le_row_set)
qed

lemma finalize_usage:
  "finalizeDelivery now i r s = Inr (t, e) \<Longrightarrow> outbox_inv s \<Longrightarrow> usage_le node t s"
  unfolding finalizeDelivery_def
  by (erule cas_update_usage) (auto simp: held_for_def outbox_inv_def entry_ok_def)

lemma other_writes_usage:
  "markDelivered now i s = Inr (t, e) \<Longrightarrow> usage_le node t s"
  "markFailed i s = Inr (t, e) \<Longrightarrow> usage_le node t s"
  "markIndeterminate i s = Inr (t, e) \<Longrightarrow> usage_le node t s"
  "retire now i a r s = Inr (t, e) \<Longrightarrow> usage_le node t s"
  "bindExpectedIdentity now i input x s = Inr t \<Longrightarrow> usage_le node t s"
  "usage_le node (fst (claimForDelivery i s)) s"
  "usage_le node (fst (reconcileAbandonedSending p s)) s"
proof -
  show "markDelivered now i s = Inr (t, e) \<Longrightarrow> usage_le node t s"
    unfolding markDelivered_def by (erule cas_update_usage) (simp add: held_for_def)
  show "markFailed i s = Inr (t, e) \<Longrightarrow> usage_le node t s"
    unfolding markFailed_def by (erule cas_update_usage) (simp add: held_for_def)
  show "markIndeterminate i s = Inr (t, e) \<Longrightarrow> usage_le node t s"
    unfolding markIndeterminate_def by (erule cas_update_usage) (simp add: held_for_def)
  show "retire now i a r s = Inr (t, e) \<Longrightarrow> usage_le node t s"
    by (auto simp: retire_def reread_Inr held_for_def split: if_splits sum.splits
        intro!: usage_le_row_set usage_le_refl)
  show "usage_le node (fst (claimForDelivery i s)) s"
    by (auto simp: claimForDelivery_def Let_def held_for_def intro!: usage_le_row_set)
  show "usage_le node (fst (reconcileAbandonedSending p s)) s"
    by (auto simp: reconcileAbandonedSending_def held_for_def intro!: usage_le_row_set)
  assume b: "bindExpectedIdentity now i input x s = Inr t"
  define f where "f e = e\<lparr>guardDelivery := Some ((or_default (guardDelivery e)
      \<lparr>receipt_ids = [i], receipt_expected = None, receipt_watchdog = None, receipt_rest = []\<rparr>)
      \<lparr>receipt_expected := Some x\<rparr>)\<rparr>" for e :: outbox_entry
  obtain s1 where s1: "t = row_set (\<lambda>e. outboxId e = i) f s1" "usage_le node s1 s"
    using b unfolding bindExpectedIdentity_def Let_def f_def
    by (auto split: if_splits sum.splits intro: usage_le_refl record_entry_usage)
  have "usage_le node t s1"
    unfolding s1(1) by (rule usage_le_row_set) (simp add: f_def held_for_def)
  with s1(2) show "usage_le node t s" by (auto simp: usage_le_def)
qed

lemma retain_quota:
  assumes "retain now i input b False s = Inr (t, e)" "outbox_inv s" "within_quota node s"
  shows "within_quota node t"
proof (cases "getEntry s i")
  case None
  with assms(1) have "retain_new now i input b False False s = Inr (t, e)"
    by (simp add: retain_def)
  then show ?thesis using retain_new_quota [OF _ assms(2,3)] None by simp
next
  case (Some x)
  with assms(1) consider "t = s" |
      "retain_new now i input b True False s = Inr (t, e)" "body x = in_body input"
    by (auto simp: retain_def same_message_def split: if_splits)
  then show ?thesis
    using retain_new_quota [OF _ assms(2,3), where ex = True] Some assms(3) by cases auto
qed

lemma outbox_step_usage:
  "outbox_step op s = Inr t \<Longrightarrow> outbox_inv s \<Longrightarrow> (\<forall>n i m b p. op \<noteq> Op_retain n i m b p) \<Longrightarrow>
    usage_le node t s"
  by (cases op) (auto intro: other_writes_usage record_entry_usage finalize_usage)

lemma outbox_step_quota:
  assumes "outbox_step op s = Inr t" "outbox_inv s" "within_quota node s" "fresh_hold op"
  shows "within_quota node t"
proof (cases "\<exists>n i m b p. op = Op_retain n i m b p")
  case True
  then show ?thesis using assms by (auto simp: fresh_hold_def intro: retain_quota)
next
  case False
  then show ?thesis using assms usage_le_quota outbox_step_usage by metis
qed

section \<open>Claims\<close>

text \<open>The labels that settle a claim on \<open>i\<close>: its outcome, its being held, and the recovery of
  abandoned claims.\<close>

definition settles :: "string \<Rightarrow> outbox_op \<Rightarrow> bool" where
  "settles i op \<longleftrightarrow> (case op of Op_finalize _ j _ \<Rightarrow> j = i | Op_retain _ j _ _ _ \<Rightarrow> j = i
     | Op_reconcile p \<Rightarrow> take (length p) i = p | _ \<Rightarrow> False)"

definition in_flight :: "string \<Rightarrow> outbox \<Rightarrow> bool" where
  "in_flight i s \<longleftrightarrow> (\<exists>e. getEntry s i = Some e \<and> deliveryState e = Sending)"

lemma getEntry_unique:
  "outbox_inv s \<Longrightarrow> getEntry s i = Some e \<Longrightarrow> x \<in> set s \<Longrightarrow> outboxId x = i \<Longrightarrow> x = e"
  unfolding outbox_inv_def getEntry_def by (metis option.inject row_get_distinct)

lemma claim_in_flight:
  assumes "claimForDelivery i s = (t, True)" and "outbox_inv s"
  shows "in_flight i t"
proof -
  let ?p = "\<lambda>e. outboxId e = i \<and> claimable e"
  have t: "t = row_set ?p (\<lambda>e. e\<lparr>deliveryState := Sending\<rparr>) s" and c: "row_count ?p s = 1"
    using assms(1) by (simp_all add: claimForDelivery_def Let_def)
  from c have "row_count ?p s \<noteq> 0" by simp
  then obtain e where e: "e \<in> set s" "?p e"
    unfolding row_count_0 by blast
  have "getEntry s i = Some e"
    using row_get_distinct [of outboxId s e] assms(2) e by (simp add: getEntry_def outbox_inv_def)
  then show ?thesis using e(2) by (simp add: in_flight_def t getEntry_row_set)
qed

lemma in_flight_blocks_claim:
  assumes "in_flight i s" and "outbox_inv s"
  shows "\<not> snd (claimForDelivery i s)"
proof -
  from assms(1) obtain e where e: "getEntry s i = Some e" "deliveryState e = Sending"
    by (auto simp: in_flight_def)
  have "row_count (\<lambda>x. outboxId x = i \<and> claimable x) s = 0"
    unfolding row_count_0 using getEntry_unique [OF assms(2) e(1)] e(2)
    by (auto simp: claimable_def)
  then show ?thesis by (simp add: claimForDelivery_def Let_def)
qed

lemma in_flight_row_set:
  assumes "in_flight i s" and "\<And>e. outboxId (f e) = outboxId e"
    and "\<And>e. outboxId e = i \<Longrightarrow> p e \<Longrightarrow> deliveryState e = Sending \<Longrightarrow> deliveryState (f e) = Sending"
  shows "in_flight i (row_set p f s)"
proof -
  from assms(1) obtain e where e: "getEntry s i = Some e" "deliveryState e = Sending"
    by (auto simp: in_flight_def)
  have "outboxId e = i" by (rule row_get_key [OF e(1) [unfolded getEntry_def]])
  then have "p e \<Longrightarrow> deliveryState (f e) = Sending" using assms(3) e(2) by blast
  then show ?thesis
    using e by (simp add: in_flight_def getEntry_row_set [of f, OF assms(2)])
qed

lemma in_flight_record:
  "record_entry now fresh input s = Inr (t, e) \<Longrightarrow> in_flight i s \<Longrightarrow> in_flight i t"
  by (auto simp: record_entry_eq Let_def in_flight_def getEntry_def row_simps split: option.splits)

lemma in_flight_cas:
  assumes "cas_update j ready f s = Inr (t, e)" and "in_flight i s"
    and "\<And>e. outboxId (f e) = outboxId e"
    and "\<And>e. deliveryState e = Sending \<Longrightarrow> \<not> ready e \<or> j \<noteq> i"
  shows "in_flight i t"
  using assms by (auto simp: cas_update_def reread_Inr intro!: in_flight_row_set)

lemma in_flight_retain_new:
  assumes "retain_new now j input b ex pre s = Inr (t, e)" and "in_flight i s" and "j \<noteq> i"
  shows "in_flight i t"
proof -
  have "in_flight i (superseded now input (gb_nodeId b) ex pre s)"
    using assms(2) by (auto simp: superseded_def supersede_reminders_def held_for_def
        intro!: in_flight_row_set)
  then obtain s2 where "in_flight i s2" "t = hold_row j b s2"
    using assms(1) by (auto simp: retain_new_def Let_def reread_Inr
        split: if_splits sum.splits intro: in_flight_record)
  then show ?thesis
    using assms(3) by (auto simp: hold_row_def intro!: in_flight_row_set)
qed

lemma in_flight_bind:
  assumes "bindExpectedIdentity now j input x s = Inr t" and "in_flight i s"
  shows "in_flight i t"
proof -
  obtain s1 where "in_flight i s1" and "t = row_set (\<lambda>e. outboxId e = j)
      (\<lambda>e. e\<lparr>guardDelivery := Some ((or_default (guardDelivery e)
         \<lparr>receipt_ids = [j], receipt_expected = None, receipt_watchdog = None, receipt_rest = []\<rparr>)
         \<lparr>receipt_expected := Some x\<rparr>)\<rparr>) s1"
    using assms unfolding bindExpectedIdentity_def Let_def
    by (auto split: if_splits sum.splits intro: in_flight_record)
  then show ?thesis by (auto intro!: in_flight_row_set)
qed

lemma in_flight_step:
  assumes "outbox_step op s = Inr t" "in_flight i s" "\<not> settles i op"
  shows "in_flight i t"
proof (cases op)
  case (Op_retain now j input b pre)
  then show ?thesis
    using assms by (auto simp: settles_def retain_def split: option.splits if_splits
        intro: in_flight_retain_new)
next
  case (Op_retire now j a r)
  then show ?thesis
    using assms by (auto simp: retire_def reread_Inr split: if_splits sum.splits
        intro!: in_flight_row_set)
next
  case (Op_claim j)
  then show ?thesis
    using assms by (auto simp: claimForDelivery_def Let_def intro!: in_flight_row_set)
next
  case (Op_reconcile p)
  then show ?thesis
    using assms by (auto simp: reconcileAbandonedSending_def settles_def abandoned_def has_id_prefix_def
        intro!: in_flight_row_set)
qed (use assms in \<open>auto simp: outcome_writers settles_def
      intro: in_flight_record in_flight_bind elim!: in_flight_cas\<close>)

section \<open>Properties\<close>

text \<open>A concrete message for the witnesses.\<close>

definition example_input :: outbox_input where
  "example_input = \<lparr>in_outboxId = None, in_sender = ''a@r'', in_destination = ''b@r'', in_body = ''hello'',
    in_tags = None, in_urgency = None, in_auditPointer = None, in_provenance = None,
    in_principal = None\<rparr>"

text \<open>Whatever sequence of operations is played on an empty outbox, ids are unique, a
  delivery time is set exactly on delivered rows, the retirement fields exactly on retired rows,
  a seat binding only on held or retired rows, and a principal only beside \<open>principal:v1\<close>.\<close>

theorem outbox_invariant: "outbox_inv (run_steps outbox_step ops [])"
  by (rule outbox.run_keeps [OF outbox_inv_Nil])



text \<open>C37: from an empty outbox, and as long as holds go through the quota check (only
  precommitted wakes bypass it), no seat ever has more than 100 held messages or 8 MiB of held
  bodies, whatever else happens in between.\<close>

theorem outbox_quota:
  assumes "\<forall>op \<in> set ops. fresh_hold op"
  shows "within_quota node (run_steps outbox_step ops [])"
proof (rule outbox.run_stable [OF outbox_inv_Nil])
  show "within_quota node []" by (simp add: within_quota_def retentionUsage_def)
qed (use assms outbox_step_quota in blast)

theorem outbox_quota_witness:
  "within_quota ''n1'' (run_steps outbox_step
    [Op_retain 0 ''m1'' example_input
       \<lparr>gb_nodeId = ''n1'', gb_session = ''b@r'', gb_occupant = None, gb_pane = None\<rparr> False] [])"
  by (rule outbox_quota) (simp add: fresh_hold_def)



end
