(* ===== verification/Stream_Store.thy ===== *)
theory Stream_Store
  imports Rig_Events
begin

text \<open>
  The intake stream (\<open>packages/daemon/src/domain/stream-store.ts\<close>): an append-only table of
  items with a cap on the stored body, an idempotent emit, cursor pagination in the order
  \<open>(ts_emitted, stream_sort_key)\<close>, and a soft archive. The store is the table of migrations
  023, 067 and 130 in rowid order with the event log; the ids of \<open>ulid()\<close> are arguments.
\<close>

section \<open>The body cap\<close>

definition STREAM_BODY_CAP_BYTES :: nat where
  "STREAM_BODY_CAP_BYTES = 16 * 1024"

definition marker :: "nat \<Rightarrow> nat \<Rightarrow> string" where
  "marker original kept =
     CHR 0x0A # ''[truncated by OpenRig: kept '' @ nat_str kept @ '' of '' @ nat_str original @ '' bytes]''"

text \<open>The loop over the characters: it stops at the first one that does not fit in \<open>room\<close>.\<close>

fun keep_chars :: "int \<Rightarrow> nat \<Rightarrow> string \<Rightarrow> string" where
  "keep_chars room used [] = []"
| "keep_chars room used (c # cs) =
    (if int (used + utf8_width c) > room then [] else c # keep_chars room (used + utf8_width c) cs)"

definition capStreamBody :: "string \<Rightarrow> string \<times> (nat \<times> nat) option" where
  "capStreamBody text =
    (let originalBytes = byte_length text
     in if originalBytes \<le> STREAM_BODY_CAP_BYTES then (text, None)
        else
          (let room = int STREAM_BODY_CAP_BYTES
                 - int (byte_length (marker originalBytes STREAM_BODY_CAP_BYTES));
               kept = keep_chars room 0 text;
               used = byte_length kept
           in (kept @ marker originalBytes used, Some (used, originalBytes))))"

section \<open>State and operations\<close>

record stream_item =
  streamItemId :: string
  tsEmitted :: timestamp
  streamSortKey :: string
  si_sourceSession :: string
  si_body :: string
  si_format :: string
  hintType :: "string option"
  hintUrgency :: "string option"
  hintDestination :: "string option"
  hintTags :: "string list option"
  interrupt :: bool
  archivedAt :: "timestamp option"
  bodyTruncated :: "(nat \<times> nat) option"
  si_provenance :: "string option"

record stream_input =
  em_id :: "string option"
  em_source :: string
  em_body :: string
  em_format :: "string option"
  em_hintType :: "string option"
  em_hintUrgency :: "string option"
  em_hintDestination :: "string option"
  em_hintTags :: "string list option"
  em_interrupt :: bool
  em_provenance :: "string option"

record stream_store =
  items :: "stream_item list"
  streamEvents :: "rig_event list"

definition getItem :: "stream_store \<Rightarrow> string \<Rightarrow> stream_item option" where
  "getItem s i = row_get streamItemId i (items s)"

definition new_item :: "timestamp \<Rightarrow> string \<Rightarrow> string \<Rightarrow> stream_input \<Rightarrow> stream_item" where
  "new_item now i sortKey input =
    (let capped = capStreamBody (em_body input)
     in \<lparr>streamItemId = i, tsEmitted = now, streamSortKey = sortKey,
         si_sourceSession = em_source input, si_body = fst capped,
         si_format = or_default (em_format input) ''text'',
         hintType = em_hintType input, hintUrgency = em_hintUrgency input,
         hintDestination = em_hintDestination input, hintTags = em_hintTags input,
         interrupt = em_interrupt input, archivedAt = None, bodyTruncated = snd capped,
         si_provenance = em_provenance input\<rparr>)"

definition emit ::
  "timestamp \<Rightarrow> string \<Rightarrow> string \<Rightarrow> stream_input \<Rightarrow> stream_store \<Rightarrow> unit + stream_store \<times> stream_item" where
  "emit now fresh sortKey input s =
    (let i = or_default (em_id input) fresh
     in case getItem s i of
          Some item \<Rightarrow> Inr (s, item)
        | None \<Rightarrow>
            (let item = new_item now i sortKey input;
                 event = Stream_emitted i (em_source input) (em_hintDestination input)
                   (em_hintType input) (em_hintUrgency input) (em_interrupt input)
             in Inr (s\<lparr>items := items s @ [item], streamEvents := streamEvents s @ [event]\<rparr>, item)))"

record list_options =
  lo_limit :: "int option"
  afterSortKey :: "string option"
  lo_source :: "string option"
  lo_destination :: "string option"
  lo_hintTag :: "string option"
  lo_since :: "timestamp option"
  lo_until :: "timestamp option"
  includeArchived :: bool
  latest :: bool

datatype stream_error = Stream_cursor_expired string

definition position :: "stream_item \<Rightarrow> timestamp \<times> string" where
  "position i = (tsEmitted i, streamSortKey i)"

definition matches_opts :: "list_options \<Rightarrow> stream_item \<Rightarrow> bool" where
  "matches_opts opts i \<longleftrightarrow>
     (includeArchived opts \<or> archivedAt i = None) \<and>
     (truthy (lo_source opts) \<longrightarrow> lo_source opts = Some (si_sourceSession i)) \<and>
     (truthy (lo_destination opts) \<longrightarrow> lo_destination opts = hintDestination i) \<and>
     (truthy (lo_hintTag opts) \<longrightarrow> (\<exists>tags. hintTags i = Some tags \<and> the (lo_hintTag opts) \<in> set tags)) \<and>
     (case lo_since opts of None \<Rightarrow> True | Some t \<Rightarrow> tsEmitted i \<ge> t) \<and>
     (case lo_until opts of None \<Rightarrow> True | Some t \<Rightarrow> tsEmitted i \<le> t)"

definition anchor_of :: "list_options \<Rightarrow> stream_store \<Rightarrow> stream_error + (timestamp \<times> string) option" where
  "anchor_of opts s =
    (case afterSortKey opts of
       None \<Rightarrow> Inr None
     | Some k \<Rightarrow>
         if k = [] then Inr None
         else case find (\<lambda>i. streamSortKey i = k) (items s) of
             None \<Rightarrow> Inl (Stream_cursor_expired k)
           | Some i \<Rightarrow> Inr (Some (position i)))"

definition list_items :: "list_options \<Rightarrow> stream_store \<Rightarrow> stream_error + stream_item list" where
  "list_items opts s =
    (case anchor_of opts s of
       Inl e \<Rightarrow> Inl e
     | Inr anchor \<Rightarrow>
         (let limit = or_default (lo_limit opts) 100;
              selected = filter (\<lambda>i. case anchor of None \<Rightarrow> True | Some a \<Rightarrow> position i > a)
                (filter (matches_opts opts) (items s));
              rows = sort_key position selected
          in Inr (if latest opts then rev (sql_limit limit (rev rows)) else sql_limit limit rows)))"

definition archive :: "timestamp \<Rightarrow> string \<Rightarrow> stream_store \<Rightarrow> stream_store \<times> bool" where
  "archive now i s =
    (let p = (\<lambda>r. streamItemId r = i \<and> archivedAt r = None)
     in (s\<lparr>items := row_set p (\<lambda>r. r\<lparr>archivedAt := Some now\<rparr>) (items s)\<rparr>, row_count p (items s) > 0))"

section \<open>The cap holds\<close>

lemma keep_chars_prefix: "prefix (keep_chars room used s) s"
  by (induction s arbitrary: used) auto

lemma keep_chars_fits:
  "int used \<le> room \<Longrightarrow> int (used + byte_length (keep_chars room used s)) \<le> room"
  by (induction room used s rule: keep_chars.induct) (auto simp: add.assoc)

lemma byte_length_literals [simp]:
  "byte_length (marker n k) = 40 + length (nat_str k) + length (nat_str n)"
  by (simp add: marker_def utf8_width_def)

lemma byte_length_keep_le: "byte_length (keep_chars room used s) \<le> byte_length s"
  by (induction room used s rule: keep_chars.induct) auto

lemma capped_eq:
  "byte_length s > STREAM_BODY_CAP_BYTES \<Longrightarrow> capStreamBody s =
    (let kept = keep_chars (16384 - int (byte_length (marker (byte_length s) 16384))) 0 s
     in (kept @ marker (byte_length s) (byte_length kept), Some (byte_length kept, byte_length s)))"
  by (simp add: capStreamBody_def Let_def STREAM_BODY_CAP_BYTES_def)

lemma cap_bound:
  assumes "byte_length s < 10 ^ 100"
  shows "byte_length (fst (capStreamBody s)) \<le> STREAM_BODY_CAP_BYTES"
proof (cases "byte_length s \<le> STREAM_BODY_CAP_BYTES")
  case True
  then show ?thesis by (simp add: capStreamBody_def)
next
  case False
  let ?room = "16384 - int (byte_length (marker (byte_length s) 16384))"
  let ?kept = "keep_chars ?room 0 s"
  have n: "length (nat_str (byte_length s)) \<le> 100"
    by (rule length_nat_str_le) (use assms in auto)
  have c: "length (nat_str 16384) \<le> 5" by (rule length_nat_str_le) simp_all
  have fits: "int (byte_length ?kept) \<le> ?room"
    using keep_chars_fits [of 0 ?room s] n c by simp
  then have "byte_length ?kept \<le> 16384" by simp
  then have "length (nat_str (byte_length ?kept)) \<le> length (nat_str 16384)"
    by (rule length_nat_str_mono)
  with fits show ?thesis
    using False by (simp add: capped_eq Let_def STREAM_BODY_CAP_BYTES_def)
qed

lemma capStreamBody_kept:
  "byte_length s > STREAM_BODY_CAP_BYTES \<Longrightarrow>
    \<exists>kept n. prefix kept s \<and> n = byte_length kept \<and>
      capStreamBody s = (kept @ marker (byte_length s) n, Some (n, byte_length s))"
  using keep_chars_prefix by (auto simp: capped_eq Let_def)

section \<open>Cursor pagination\<close>

lemma sort_key_filter: "sort_key f (filter P xs) = filter P (sort_key f xs)"
  by (rule filter_sort [symmetric])

text \<open>In a strictly increasing list, the elements above the one at \<open>n\<close> are the rest.\<close>

lemma filter_above_nth:
  fixes f :: "'a \<Rightarrow> 'b::linorder"
  assumes "sorted (map f xs)" "distinct (map f xs)" "n < length xs"
  shows "filter (\<lambda>x. f x > f (xs ! n)) xs = drop (Suc n) xs"
  using assms
proof (induction xs arbitrary: n)
  case Nil
  then show ?case by simp
next
  case (Cons x xs)
  then have lt: "\<forall>y \<in> set xs. f x < f y" by (force simp: order_less_le)
  show ?case
  proof (cases n)
    case 0
    then show ?thesis using lt by simp
  next
    case (Suc m)
    then have m: "m < length xs" using Cons.prems by simp
    then have "\<not> f (xs ! m) < f x" using lt by (meson nth_mem order.asym)
    then show ?thesis using Cons.IH [of m] Cons.prems m Suc by simp
  qed
qed

lemma list_items_first:
  "afterSortKey opts = None \<Longrightarrow> \<not> latest opts \<Longrightarrow>
    list_items opts s = Inr (sql_limit (or_default (lo_limit opts) 100)
      (sort_key position (filter (matches_opts opts) (items s))))"
  by (simp add: list_items_def anchor_of_def Let_def)

lemma list_items_after:
  assumes keys: "distinct (map streamSortKey (items s))"
    and page: "rows = sort_key position (filter (matches_opts opts) (items s))"
    and n: "n < length rows" and ne: "streamSortKey (rows ! n) \<noteq> []" and dir: "\<not> latest opts"
  shows "list_items (opts\<lparr>afterSortKey := Some (streamSortKey (rows ! n))\<rparr>) s =
    Inr (sql_limit (or_default (lo_limit opts) 100) (drop (Suc n) rows))"
proof -
  let ?r = "rows ! n"
  have "?r \<in> set rows" using n by simp
  then have r: "?r \<in> set (items s)" by (simp add: page)
  have find: "find (\<lambda>i. streamSortKey i = streamSortKey ?r) (items s) = Some ?r"
    using row_get_distinct [OF keys r] by (simp add: row_get_def)
  have m: "matches_opts (opts\<lparr>afterSortKey := k\<rparr>) = matches_opts opts" for k
    by (simp add: matches_opts_def fun_eq_iff)
  have "inj_on streamSortKey (set (items s))" using keys by (simp add: distinct_map)
  then have "inj_on position (set rows)"
    by (auto simp: inj_on_def position_def page)
  moreover have "distinct rows" using keys by (simp add: page distinct_map)
  ultimately have d: "distinct (map position rows)" by (simp add: distinct_map)
  have "filter (\<lambda>i. position i > position ?r) rows = drop (Suc n) rows"
    by (rule filter_above_nth [OF _ d n]) (simp add: page)
  then show ?thesis
    using find ne dir by (simp add: list_items_def anchor_of_def Let_def m sort_key_filter page)
qed

section \<open>The stream machine\<close>

datatype stream_op = Op_emit timestamp string string stream_input | Op_archive timestamp string

fun stream_step :: "stream_op \<Rightarrow> stream_store \<Rightarrow> unit + stream_store" where
  "stream_step (Op_emit now i k input) s = map_sum id fst (emit now i k input s)"
| "stream_step (Op_archive now i) s = Inr (fst (archive now i s))"

text \<open>Distinct item ids and one \<open>stream.emitted\<close> event per item, in the order of the table.\<close>

fun emitted_id :: "rig_event \<Rightarrow> string option" where
  "emitted_id (Stream_emitted i _ _ _ _ _) = Some i"
| "emitted_id _ = None"

definition stream_inv :: "stream_store \<Rightarrow> bool" where
  "stream_inv s \<longleftrightarrow> distinct (map streamItemId (items s)) \<and>
     map emitted_id (streamEvents s) = map (Some \<circ> streamItemId) (items s)"

lemma getItem_append:
  "getItem (s\<lparr>items := items s @ [x], streamEvents := ev\<rparr>) i =
    (case getItem s i of None \<Rightarrow> if streamItemId x = i then Some x else None | Some r \<Rightarrow> Some r)"
  by (simp add: getItem_def row_simps split: option.split)

lemma new_item_id [simp]: "streamItemId (new_item now i k input) = i"
  by (simp add: new_item_def Let_def)

lemma archive_items:
  "map streamItemId (items (fst (archive now i s))) = map streamItemId (items s)"
  "streamEvents (fst (archive now i s)) = streamEvents s"
  by (simp_all add: archive_def Let_def row_set_keys)

lemma stream_step_inv: "stream_inv s \<Longrightarrow> stream_step op s = Inr t \<Longrightarrow> stream_inv t"
proof (cases op)
  case (Op_archive now i)
  assume h: "stream_inv s" "stream_step op s = Inr t"
  then have "map (Some \<circ> streamItemId) (items t) = map (Some \<circ> streamItemId) (items s)"
    using archive_items(1) [of now i s] Op_archive by (metis list.map_comp sum.inject(2) stream_step.simps(2))
  then show ?thesis
    using h Op_archive archive_items [of now i s] by (auto simp: stream_inv_def)
qed (auto simp: emit_def stream_inv_def getItem_def row_get_None Let_def split: option.splits)

interpretation stream: guarded_machine stream_step stream_inv
  by unfold_locales (rule stream_step_inv)

interpretation stream_emit: idempotent_put getItem
    "\<lambda>i (now, k, input). emit now i k (input\<lparr>em_id := Some i\<rparr>)"
  by unfold_locales
    (auto simp: emit_def getItem_append Let_def split: option.splits)

text \<open>What no operation undoes of an item: everything but the archive mark, which once set stays.\<close>

definition archived_form :: "stream_item \<Rightarrow> stream_item \<Rightarrow> bool" where
  "archived_form x y \<longleftrightarrow> y = x \<or> (archivedAt x = None \<and> (\<exists>t. y = x\<lparr>archivedAt := Some t\<rparr>))"

lemma archived_form_trans: "archived_form x y \<Longrightarrow> archived_form y z \<Longrightarrow> archived_form x z"
  by (auto simp: archived_form_def)

lemma stream_step_item:
  assumes "stream_step op s = Inr t" and "getItem s i = Some x"
  shows "\<exists>y. getItem t i = Some y \<and> archived_form x y"
proof (cases op)
  case (Op_emit now j k input)
  then show ?thesis
    using assms by (auto simp: emit_def getItem_append Let_def archived_form_def split: option.splits)
next
  case (Op_archive now j)
  then have t: "items t = row_set (\<lambda>r. streamItemId r = j \<and> archivedAt r = None)
      (\<lambda>r. r\<lparr>archivedAt := Some now\<rparr>) (items s)"
    using assms(1) by (auto simp: archive_def Let_def)
  then show ?thesis
    using assms(2) by (auto simp: getItem_def row_get_set archived_form_def)
qed

section \<open>Properties\<close>

text \<open>A stored body never exceeds the 16 KiB cap, marker included, whatever was emitted (bodies
  of fewer than \<open>10 ^ 100\<close> bytes); a body within the cap is stored as it is, and a longer one is
  stored as a prefix of itself, the marker, and the true number of bytes kept and emitted.\<close>

theorem stream_body_cap:
  assumes "byte_length s < 10 ^ 100"
  shows "byte_length (fst (capStreamBody s)) \<le> 16384 \<and>
    (if byte_length s \<le> 16384 then capStreamBody s = (s, None)
     else \<exists>kept. prefix kept s \<and> capStreamBody s =
       (kept @ marker (byte_length s) (byte_length kept), Some (byte_length kept, byte_length s)))"
  using cap_bound [OF assms] capStreamBody_kept [of s]
  by (auto simp: STREAM_BODY_CAP_BYTES_def capStreamBody_def)

theorem stream_body_cap_witness:
  "byte_length (fst (capStreamBody (replicate 20000 (CHR ''x'')))) \<le> 16384"
proof -
  have "byte_length (replicate n (CHR ''x'')) = n" for n
    by (induction n) (simp_all add: utf8_width_def)
  then have "byte_length (replicate 20000 (CHR ''x'')) < 10 ^ 100" by (simp only:) simp
  then show ?thesis using stream_body_cap by blast
qed

text \<open>Paging is exact: with distinct sort keys, the page after the n-th matching item is the
  next items of the full order, so following the cursor skips no item and repeats none.\<close>

theorem stream_cursor_pages:
  assumes "distinct (map streamSortKey (items s))" and "\<not> latest opts"
    and "n < length (sort_key position (filter (matches_opts opts) (items s)))"
    and "streamSortKey (sort_key position (filter (matches_opts opts) (items s)) ! n) \<noteq> []"
  shows "list_items (opts\<lparr>afterSortKey := Some (streamSortKey
      (sort_key position (filter (matches_opts opts) (items s)) ! n))\<rparr>) s =
    Inr (sql_limit (or_default (lo_limit opts) 100)
      (drop (Suc n) (sort_key position (filter (matches_opts opts) (items s)))))"
  by (rule list_items_after [OF assms(1) refl assms(3,4,2)])

text \<open>Concrete items for the witnesses.\<close>

definition example_emit :: stream_input where
  "example_emit = \<lparr>em_id = None, em_source = ''a@r'', em_body = ''x'', em_format = None,
    em_hintType = None, em_hintUrgency = None, em_hintDestination = None, em_hintTags = None,
    em_interrupt = False, em_provenance = None\<rparr>"

definition example_opts :: list_options where
  "example_opts = \<lparr>lo_limit = Some 1, afterSortKey = None, lo_source = None, lo_destination = None,
    lo_hintTag = None, lo_since = None, lo_until = None, includeArchived = False, latest = False\<rparr>"

theorem stream_cursor_pages_witness:
  "list_items (example_opts\<lparr>afterSortKey := Some ''k1''\<rparr>)
     \<lparr>items = [new_item 7 ''i2'' ''k2'' example_emit, new_item 7 ''i1'' ''k1'' example_emit],
       streamEvents = []\<rparr> = Inr [new_item 7 ''i2'' ''k2'' example_emit]"
proof -
  let ?a = "new_item 7 ''i1'' ''k1'' example_emit" and ?b = "new_item 7 ''i2'' ''k2'' example_emit"
  let ?s = "\<lparr>items = [?b, ?a], streamEvents = []\<rparr>"
  have ord: "position ?a < position ?b"
    by (simp add: position_def new_item_def Let_def less_prod_def)
  have "matches_opts example_opts = (\<lambda>i. archivedAt i = None)"
    by (simp add: matches_opts_def example_opts_def fun_eq_iff)
  moreover have "archivedAt ?a = None" "archivedAt ?b = None"
    by (simp_all add: new_item_def Let_def)
  moreover have "sort_key position [?b, ?a] = [?a, ?b]"
    using ord by simp
  ultimately have rows: "sort_key position (filter (matches_opts example_opts) (items ?s)) = [?a, ?b]"
    by simp
  have key: "streamSortKey ?a = ''k1''" "streamSortKey ?b = ''k2''"
    by (simp_all add: new_item_def Let_def)
  have "list_items (example_opts\<lparr>afterSortKey := Some (streamSortKey
      (sort_key position (filter (matches_opts example_opts) (items ?s)) ! 0))\<rparr>) ?s =
    Inr (sql_limit (or_default (lo_limit example_opts) 100)
      (drop (Suc 0) (sort_key position (filter (matches_opts example_opts) (items ?s)))))"
    by (rule stream_cursor_pages)
      (simp_all only: rows, simp_all add: key new_item_def Let_def, simp_all add: example_opts_def)
  then show ?thesis unfolding rows by (simp add: key sql_limit_def example_opts_def)
qed

text \<open>The stream is append-only: from an empty store, item ids stay unique, the log has exactly
  one \<open>stream.emitted\<close> per item, and no sequence of operations changes or removes an emitted
  item, apart from setting its archive mark once; emitting its id again returns it and writes
  nothing.\<close>

theorem stream_append_only:
  assumes "getItem (run_steps stream_step ops \<lparr>items = [], streamEvents = []\<rparr>) i = Some x"
  shows "stream_inv (run_steps stream_step (ops @ ops') \<lparr>items = [], streamEvents = []\<rparr>) \<and>
    (\<exists>y. archived_form x y \<and>
      emit now i k (input\<lparr>em_id := Some i\<rparr>)
        (run_steps stream_step (ops @ ops') \<lparr>items = [], streamEvents = []\<rparr>)
      = Inr (run_steps stream_step (ops @ ops') \<lparr>items = [], streamEvents = []\<rparr>, y))"
proof -
  let ?e = "\<lparr>items = [], streamEvents = []\<rparr>"
  have e: "stream_inv ?e" by (simp add: stream_inv_def)
  have "\<exists>y. getItem (run_steps stream_step ops' (run_steps stream_step ops ?e)) i = Some y \<and>
      archived_form x y"
  proof (rule stream.run_stable [OF stream.run_keeps [OF e]])
    show "\<exists>y. getItem (run_steps stream_step ops ?e) i = Some y \<and> archived_form x y"
      using assms by (simp add: archived_form_def)
  qed (meson archived_form_trans stream_step_item)
  then show ?thesis
    using stream.run_keeps [OF e] stream_emit.put_taken [where k = i and i = "(now, k, input)"]
    by (fastforce simp: run_steps_append)
qed

theorem stream_append_only_witness:
  "stream_inv (run_steps stream_step
     ([Op_emit 1 ''i1'' ''k1'' example_emit] @ [Op_archive 5 ''i1'', Op_emit 6 ''i1'' ''k2'' example_emit])
     \<lparr>items = [], streamEvents = []\<rparr>)"
proof -
  have "getItem (run_steps stream_step [Op_emit 1 ''i1'' ''k1'' example_emit]
      \<lparr>items = [], streamEvents = []\<rparr>) ''i1'' = Some (new_item 1 ''i1'' ''k1'' example_emit)"
    by (simp add: run_steps_simps attempt_step_def emit_def example_emit_def getItem_def row_simps Let_def)
  then show ?thesis by (rule stream_append_only [THEN conjunct1])
qed

end
