(* ===== verification/Workflow_Types.thy ===== *)
theory Workflow_Types
  imports Prelude
begin

text \<open>
  The language of workflow specifications (\<open>packages/daemon/src/domain/workflow-types.ts\<close>) and
  the \<open>member@<rig>\<close> form of a role's targets (\<open>workflow-rig-placeholder.ts\<close>). A JSON object used
  as a map is an association list in insertion order; \<open>undefined\<close> is \<open>None\<close>.
\<close>

section \<open>Specifications\<close>

datatype workflow_exit = Exit_handoff | Exit_waiting | Exit_done | Exit_failed

definition WORKFLOW_EXIT_KINDS :: "(string \<times> workflow_exit) list" where
  "WORKFLOW_EXIT_KINDS = [(''handoff'', Exit_handoff), (''waiting'', Exit_waiting),
     (''done'', Exit_done), (''failed'', Exit_failed)]"

definition completes :: "workflow_exit \<Rightarrow> bool" where
  "completes x \<longleftrightarrow> x \<in> {Exit_done, Exit_handoff}"

lemma completes_simps [simp]:
  "completes Exit_done" "completes Exit_handoff" "\<not> completes Exit_waiting" "\<not> completes Exit_failed"
  by (simp_all add: completes_def)

datatype agent_harness = Claude_code | Codex

record gate_spec =
  gate_target :: string
  gate_summary :: "string option"
  gate_evidence :: "string option"

record acceptance_spec =
  acc_candidate :: string
  acc_verdicts :: "string list"
  acc_evidence :: string

record role_spec =
  skill_refs :: "string list option"
  preferred_targets :: "string list option"

datatype hop_mode = Mode_require | Mode_forbid

record next_hop_spec =
  hop_mode :: "hop_mode option"
  suggested_roles :: "string list option"
  branch_on :: "(workflow_exit \<times> string) list option"

record step_spec =
  step_id :: string
  actor_role :: string
  step_objective :: "string option"
  allowed_exits :: "workflow_exit list option"
  re_present_after :: "int option"
  re_present_max :: "int option"
  next_hop :: "next_hop_spec option"
  harness :: "agent_harness option"
  host :: "string option"
  gate :: "gate_spec option"
  depends_on :: "string list option"
  acceptance :: "acceptance_spec option"

record workflow_invariants =
  continuation_required :: "bool option"
  inv_allowed_exits :: "workflow_exit list option"
  preserve_lineage :: "bool option"
  closure_required :: "bool option"

text \<open>\<open>max_hops\<close> may be a malformed value in a cached specification written before the parser
  checked it; only an integer is a number the guards compare.\<close>

datatype hops_value = Hops int | Hops_malformed

record loop_guards =
  max_hops :: "hops_value option"
  spawn_budget :: "int option"

datatype dial_position = Orchestrator | Human_only

record exception_routing_spec =
  er_default :: "dial_position option"
  orchestrator_role :: "string option"
  er_classes :: "(string \<times> dial_position) list option"

record workflow_spec =
  spec_id :: string
  spec_version :: string
  spec_objective :: "string option"
  context_refs :: "string list option"
  target_rig :: "string option"
  entry_role :: "string option"
  roles :: "(string \<times> role_spec) list"
  steps :: "step_spec list"
  invariants :: "workflow_invariants option"
  closure_messages :: bool
  loop_guards_of :: "loop_guards option"
  exception_routing :: "exception_routing_spec option"
  terminal_turn_rule :: "string option"

datatype instance_status = Inst_active | Inst_waiting | Inst_completed | Inst_failed | Inst_aborted

section \<open>Optional chaining\<close>

text \<open>\<open>step.next_hop?.on?.[exit]\<close>, \<open>step.next_hop?.suggested_roles ?? []\<close> and the like.\<close>

definition hop_on :: "step_spec \<Rightarrow> (workflow_exit \<times> string) list" where
  "hop_on st = (case next_hop st of None \<Rightarrow> [] | Some h \<Rightarrow> or_default (branch_on h) [])"

definition branch_target :: "step_spec \<Rightarrow> workflow_exit \<Rightarrow> string option" where
  "branch_target st x = map_of (hop_on st) x"

definition hop_roles :: "step_spec \<Rightarrow> string list" where
  "hop_roles st = (case next_hop st of None \<Rightarrow> [] | Some h \<Rightarrow> or_default (suggested_roles h) [])"

definition hop_mode_of :: "step_spec \<Rightarrow> hop_mode option" where
  "hop_mode_of st = (case next_hop st of None \<Rightarrow> None | Some h \<Rightarrow> hop_mode h)"

definition dependencies :: "step_spec \<Rightarrow> string list" where
  "dependencies st = or_default (depends_on st) []"

definition role_of :: "workflow_spec \<Rightarrow> string \<Rightarrow> role_spec option" where
  "role_of spec r = map_of (roles spec) r"

definition role_targets :: "workflow_spec \<Rightarrow> string \<Rightarrow> string list" where
  "role_targets spec r = (case role_of spec r of None \<Rightarrow> [] | Some x \<Rightarrow> or_default (preferred_targets x) [])"

section \<open>Rig-relative targets\<close>

definition RIG_PLACEHOLDER :: string where
  "RIG_PLACEHOLDER = ''{rig}''"

definition RIG_SUFFIX :: string where
  "RIG_SUFFIX = CHR ''@'' # RIG_PLACEHOLDER"

definition isRigRelativeTarget :: "string \<Rightarrow> bool" where
  "isRigRelativeTarget t = suffix RIG_SUFFIX t"

definition expandRigRelativeTarget :: "string \<Rightarrow> string option \<Rightarrow> string" where
  "expandRigRelativeTarget t boundRig =
    (case boundRig of
       None \<Rightarrow> t
     | Some rig \<Rightarrow> if \<not> isRigRelativeTarget t then t
                   else take (length t - length RIG_PLACEHOLDER) t @ rig)"

definition bindSpecToRig :: "workflow_spec \<Rightarrow> string option \<Rightarrow> workflow_spec" where
  "bindSpecToRig spec boundRig =
    (case boundRig of
       None \<Rightarrow> spec
     | Some _ \<Rightarrow>
         if \<not> (\<exists>(_, r) \<in> set (roles spec). \<exists>t \<in> set (or_default (preferred_targets r) []). isRigRelativeTarget t)
         then spec
         else spec\<lparr>roles := map (\<lambda>(name, r). (name,
                case preferred_targets r of
                  None \<Rightarrow> r
                | Some ts \<Rightarrow> r\<lparr>preferred_targets := Some (map (\<lambda>t. expandRigRelativeTarget t boundRig) ts)\<rparr>))
              (roles spec)\<rparr>)"

lemma expandRigRelativeTarget_member:
  "expandRigRelativeTarget (m @ RIG_SUFFIX) (Some rig) = m @ CHR ''@'' # rig"
  by (simp add: expandRigRelativeTarget_def isRigRelativeTarget_def RIG_SUFFIX_def RIG_PLACEHOLDER_def
      suffix_def)

lemma expandRigRelativeTarget_other:
  "\<not> isRigRelativeTarget t \<Longrightarrow> expandRigRelativeTarget t rig = t"
  by (simp add: expandRigRelativeTarget_def split: option.split)

lemma bind_role_targets:
  "role_targets (bindSpecToRig spec rig) r =
    map (\<lambda>t. expandRigRelativeTarget t rig) (role_targets spec r)"
proof (cases rig)
  case None
  then show ?thesis by (simp add: bindSpecToRig_def expandRigRelativeTarget_def)
next
  case (Some g)
  let ?uses = "\<exists>(_, r) \<in> set (roles spec). \<exists>t \<in> set (or_default (preferred_targets r) []). isRigRelativeTarget t"
  show ?thesis
  proof (cases ?uses)
    case False
    have "\<not> isRigRelativeTarget t" if "t \<in> set (role_targets spec r)" for t
    proof -
      from that obtain x where "map_of (roles spec) r = Some x"
          "t \<in> set (or_default (preferred_targets x) [])"
        unfolding role_targets_def role_of_def by (cases "map_of (roles spec) r") auto
      then show ?thesis using False by (auto dest: map_of_SomeD)
    qed
    then have "map (\<lambda>t. expandRigRelativeTarget t rig) (role_targets spec r) = role_targets spec r"
      by (intro map_idI expandRigRelativeTarget_other)
    then show ?thesis using False Some by (auto simp: bindSpecToRig_def)
  next
    case True
    let ?f = "\<lambda>r. case preferred_targets r of None \<Rightarrow> r
      | Some ts \<Rightarrow> r\<lparr>preferred_targets := Some (map (\<lambda>t. expandRigRelativeTarget t rig) ts)\<rparr>"
    have "roles (bindSpecToRig spec rig) = map (\<lambda>(n, r). (n, ?f r)) (roles spec)"
      using True unfolding Some bindSpecToRig_def by simp
    then have "role_of (bindSpecToRig spec rig) r = map_option ?f (role_of spec r)"
      by (simp add: role_of_def map_of_map)
    then show ?thesis by (auto simp: role_targets_def split: option.splits)
  qed
qed

end
