(* ===== verification/Workflow_Graph.thy ===== *)
theory Workflow_Graph
  imports Workflow_Types
begin

text \<open>
  The successor graph of a workflow: \<open>resolveNextStep\<close>, the single routing seam
  (\<open>workflow-projector.ts\<close>), and the two graph searches of \<open>workflow-validator.ts\<close>: the breadth
  first search for reachable steps and the three-colour depth first search for a cycle.
\<close>

section \<open>The routing seam\<close>

definition find_step :: "workflow_spec \<Rightarrow> string \<Rightarrow> step_spec option" where
  "find_step spec i = find (\<lambda>st. step_id st = i) (steps spec)"

fun first_suggested :: "workflow_spec \<Rightarrow> string list \<Rightarrow> step_spec option" where
  "first_suggested spec [] = None"
| "first_suggested spec (r # rs) =
    (case find (\<lambda>st. actor_role st = r) (steps spec) of
       Some target \<Rightarrow> Some target
     | None \<Rightarrow> first_suggested spec rs)"

definition resolveNextStep :: "workflow_spec \<Rightarrow> step_spec \<Rightarrow> workflow_exit option \<Rightarrow> step_spec option" where
  "resolveNextStep spec st recordedExit =
    (case (case recordedExit of None \<Rightarrow> None | Some x \<Rightarrow> branch_target st x) of
       Some mapped \<Rightarrow> find_step spec mapped
     | None \<Rightarrow>
         if hop_mode_of st = Some Mode_forbid then None
         else case first_suggested spec (hop_roles st) of
             Some target \<Rightarrow> Some target
           | None \<Rightarrow>
               if hop_mode_of st = Some Mode_require then None
               else case find_index (\<lambda>s. step_id s = step_id st) (steps spec) of
                   None \<Rightarrow> None
                 | Some idx \<Rightarrow> at (steps spec) (Suc idx))"

lemma first_suggested_in:
  "first_suggested spec rs = Some t \<Longrightarrow> t \<in> set (steps spec) \<and> actor_role t \<in> set rs"
  by (induction rs) (auto split: option.splits dest: find_in_set)

lemma resolveNextStep_in: "resolveNextStep spec st x = Some t \<Longrightarrow> t \<in> set (steps spec)"
  by (auto simp: resolveNextStep_def find_step_def split: option.splits if_splits
      dest: first_suggested_in find_in_set at_Some)

section \<open>Reachability\<close>

text \<open>The worklist loop: \<open>ids\<close> are the keys of \<open>stepById\<close>; an id outside them has no successors.\<close>

function bfs :: "string list \<Rightarrow> (string \<Rightarrow> string list) \<Rightarrow> string list \<Rightarrow> string list \<Rightarrow> string list" where
  "bfs ids succs [] reached = reached"
| "bfs ids succs (i # queue) reached =
    (if i \<in> set reached then bfs ids succs queue reached
     else bfs ids succs (queue @ (if i \<in> set ids then succs i else [])) (reached @ [i]))"
  by pat_completeness auto

lemma bfs_potential:
  assumes "i \<in> set ids" "i \<notin> set reached"
  shows "sum_list (map (\<lambda>x. length (succs x)) (filter (\<lambda>x. x \<noteq> i \<and> x \<notin> set reached) ids)) + length (succs i)
    \<le> sum_list (map (\<lambda>x. length (succs x)) (filter (\<lambda>x. x \<notin> set reached) ids))"
  using assms
proof (induction ids)
  case Nil
  then show ?case by simp
next
  case (Cons y ids)
  show ?case
  proof (cases "y = i")
    case True
    have "sum_list (map (\<lambda>x. length (succs x)) (filter (\<lambda>x. x \<noteq> i \<and> x \<notin> set reached) ids))
        \<le> sum_list (map (\<lambda>x. length (succs x)) (filter (\<lambda>x. x \<notin> set reached) ids))"
      by (induction ids) auto
    then show ?thesis using True Cons.prems(2) by simp
  next
    case False
    then show ?thesis using Cons by auto
  qed
qed

termination bfs
proof (relation "measures [\<lambda>(ids, succs, queue, reached).
      sum_list (map (\<lambda>x. length (succs x)) (filter (\<lambda>x. x \<notin> set reached) ids)) + length queue]")
  fix ids succs i queue reached
  assume h: "(i :: string) \<notin> set reached"
  show "((ids, succs, queue @ (if i \<in> set ids then succs i else []), reached @ [i]),
      ids, succs, i # queue, reached) \<in> measures [\<lambda>(ids, succs, queue, reached).
      sum_list (map (\<lambda>x. length (succs x)) (filter (\<lambda>x. x \<notin> set reached) ids)) + length queue]"
  proof (cases "i \<in> set ids")
    case True
    from bfs_potential [OF True h, of succs] show ?thesis using True by simp
  next
    case False
    then have "filter (\<lambda>x. x \<noteq> i \<and> x \<notin> set reached) ids = filter (\<lambda>x. x \<notin> set reached) ids"
      by (intro filter_cong) auto
    then show ?thesis using False by simp
  qed
qed simp_all

definition edges :: "string list \<Rightarrow> (string \<Rightarrow> string list) \<Rightarrow> (string \<times> string) set" where
  "edges ids succs = {(a, b). a \<in> set ids \<and> b \<in> set (succs a)}"

lemma bfs_contains: "set reached \<union> set queue \<subseteq> set (bfs ids succs queue reached)"
  by (induction ids succs queue reached rule: bfs.induct) auto

lemma bfs_closed:
  assumes "\<forall>(a, b) \<in> edges ids succs. a \<in> set reached \<longrightarrow> b \<in> set reached \<union> set queue"
  shows "\<forall>(a, b) \<in> edges ids succs. a \<in> set (bfs ids succs queue reached) \<longrightarrow>
    b \<in> set (bfs ids succs queue reached)"
  using assms
proof (induction ids succs queue reached rule: bfs.induct)
  case (1 ids succs reached)
  then show ?case by simp
next
  case (2 ids succs i queue reached)
  show ?case
  proof (cases "i \<in> set reached")
    case True
    moreover have "\<forall>(a, b) \<in> edges ids succs. a \<in> set reached \<longrightarrow> b \<in> set reached \<union> set queue"
      using 2(3) True by auto
    ultimately show ?thesis using 2(1) by simp
  next
    case False
    have "\<forall>(a, b) \<in> edges ids succs. a \<in> set (reached @ [i]) \<longrightarrow>
        b \<in> set (reached @ [i]) \<union> set (queue @ (if i \<in> set ids then succs i else []))"
      using 2(3) by (auto simp: edges_def)
    then show ?thesis using 2(2) False by simp
  qed
qed

lemma bfs_sound:
  "x \<in> set (bfs ids succs queue reached) \<Longrightarrow>
    x \<in> set reached \<or> (\<exists>q \<in> set queue. (q, x) \<in> (edges ids succs)\<^sup>*)"
proof (induction ids succs queue reached rule: bfs.induct)
  case (1 ids succs reached)
  then show ?case by simp
next
  case (2 ids succs i queue reached)
  show ?case
  proof (cases "i \<in> set reached")
    case True
    then show ?thesis using 2 by auto
  next
    case False
    then have "x \<in> set (reached @ [i]) \<or>
        (\<exists>q \<in> set (queue @ (if i \<in> set ids then succs i else [])). (q, x) \<in> (edges ids succs)\<^sup>*)"
      using 2(2,3) by simp
    then show ?thesis
      by (auto simp: edges_def split: if_splits intro: converse_rtrancl_into_rtrancl)
  qed
qed

theorem bfs_reachable:
  "x \<in> set (bfs ids succs [root] []) \<longleftrightarrow> (root, x) \<in> (edges ids succs)\<^sup>*"
proof
  assume "x \<in> set (bfs ids succs [root] [])"
  then show "(root, x) \<in> (edges ids succs)\<^sup>*" using bfs_sound by fastforce
next
  assume "(root, x) \<in> (edges ids succs)\<^sup>*"
  then show "x \<in> set (bfs ids succs [root] [])"
  proof (induction rule: rtrancl_induct)
    case base
    then show ?case using bfs_contains [of "[]" "[root]"] by auto
  next
    case (step y z)
    then show ?case using bfs_closed [of ids succs "[]" "[root]"] by auto
  qed
qed

section \<open>Cycles\<close>

datatype colour = Gray | Black

text \<open>
  \<open>dfs\<close> and its loop over the successors. \<open>stack\<close> holds the gray ids in the order they were
  entered (a call that finds no cycle pops what it pushed, so the stack is passed down only).
  The result is the cycle found, or the colours; \<open>None\<close> when the fuel, which bounds the depth of
  the recursion, is out.
\<close>

function dfs :: "nat \<Rightarrow> (string \<Rightarrow> string list) \<Rightarrow> string \<Rightarrow> (string \<rightharpoonup> colour) \<Rightarrow> string list
      \<Rightarrow> (string list + (string \<rightharpoonup> colour)) option"
  and visit :: "nat \<Rightarrow> (string \<Rightarrow> string list) \<Rightarrow> string list \<Rightarrow> (string \<rightharpoonup> colour) \<Rightarrow> string list
      \<Rightarrow> (string list + (string \<rightharpoonup> colour)) option" where
  "dfs 0 succs i colour stack = None"
| "dfs (Suc n) succs i colour stack =
    (case visit n succs (succs i) (colour(i \<mapsto> Gray)) (stack @ [i]) of
       None \<Rightarrow> None
     | Some (Inl path) \<Rightarrow> Some (Inl path)
     | Some (Inr colour') \<Rightarrow> Some (Inr (colour'(i \<mapsto> Black))))"
| "visit n succs [] colour stack = Some (Inr colour)"
| "visit n succs (s # ss) colour stack =
    (case colour s of
       Some Gray \<Rightarrow> Some (Inl (dropWhile (\<lambda>x. x \<noteq> s) stack @ [s]))
     | Some Black \<Rightarrow> visit n succs ss colour stack
     | None \<Rightarrow>
         (case dfs n succs s colour stack of
            None \<Rightarrow> None
          | Some (Inl path) \<Rightarrow> Some (Inl path)
          | Some (Inr colour') \<Rightarrow> visit n succs ss colour' stack))"
  by pat_completeness auto
termination dfs
  by (relation "measures [\<lambda>x. case x of Inl (n, _) \<Rightarrow> n | Inr (n, _) \<Rightarrow> n,
      \<lambda>x. case x of Inl _ \<Rightarrow> 0 | Inr (n, _, ss, _) \<Rightarrow> Suc (length ss)]") auto

fun from_roots :: "nat \<Rightarrow> (string \<Rightarrow> string list) \<Rightarrow> string list \<Rightarrow> (string \<rightharpoonup> colour)
    \<Rightarrow> string list option option" where
  "from_roots n succs [] colour = Some None"
| "from_roots n succs (r # rs) colour =
    (if colour r \<noteq> None then from_roots n succs rs colour
     else case dfs n succs r colour [] of
         None \<Rightarrow> None
       | Some (Inl path) \<Rightarrow> Some (Some path)
       | Some (Inr colour') \<Rightarrow> from_roots n succs rs colour')"

definition findCycle :: "nat \<Rightarrow> (string \<Rightarrow> string list) \<Rightarrow> string list \<Rightarrow> string list option option" where
  "findCycle fuel succs roots = from_roots fuel succs roots Map.empty"

definition arcs :: "(string \<Rightarrow> string list) \<Rightarrow> (string \<times> string) set" where
  "arcs succs = {(a, b). b \<in> set (succs a)}"

definition is_cycle :: "(string \<Rightarrow> string list) \<Rightarrow> string list \<Rightarrow> bool" where
  "is_cycle succs p \<longleftrightarrow> 2 \<le> length p \<and> hd p = last p \<and> successively (\<lambda>a b. b \<in> set (succs a)) p"

lemma successively_reach:
  "successively (\<lambda>a b. b \<in> set (succs a)) p \<Longrightarrow> x \<in> set p \<Longrightarrow> (hd p, x) \<in> (arcs succs)\<^sup>*"
proof (induction p)
  case Nil
  then show ?case by simp
next
  case (Cons a p)
  show ?case
  proof (cases "x = a \<or> p = []")
    case True
    then show ?thesis using Cons.prems by auto
  next
    case False
    then have "(a, hd p) \<in> arcs succs" and "(hd p, x) \<in> (arcs succs)\<^sup>*"
      using Cons by (auto simp: successively_Cons arcs_def)
    then show ?thesis by simp
  qed
qed

lemma is_cycle_trancl:
  assumes "is_cycle succs p"
  shows "(hd p, hd p) \<in> (arcs succs)\<^sup>+"
proof -
  obtain a b q where p: "p = a # b # q"
    using assms by (auto simp: is_cycle_def numeral_2_eq_2 Suc_le_length_iff)
  have "hd p = last p" and path: "successively (\<lambda>a b. b \<in> set (succs a)) p"
    using assms by (simp_all add: is_cycle_def)
  with path have l: "last (b # q) = a" and t: "successively (\<lambda>a b. b \<in> set (succs a)) (b # q)"
    by (simp_all add: p)
  have "(b, a) \<in> (arcs succs)\<^sup>*"
    using successively_reach [OF t, of a] last_in_set [of "b # q"] l by (metis list.sel(1) list.discI)
  moreover have "(a, b) \<in> arcs succs" using path by (simp add: arcs_def p)
  ultimately have "(a, a) \<in> (arcs succs)\<^sup>+" by (simp add: rtrancl_into_trancl2)
  then show ?thesis by (simp add: p)
qed

subsection \<open>What the colours mean\<close>

definition search_inv :: "(string \<Rightarrow> string list) \<Rightarrow> (string \<rightharpoonup> colour) \<Rightarrow> string list \<Rightarrow> bool" where
  "search_inv succs c stack \<longleftrightarrow> distinct stack \<and>
     successively (\<lambda>a b. b \<in> set (succs a)) stack \<and>
     (\<forall>x. c x = Some Gray \<longleftrightarrow> x \<in> set stack) \<and>
     (\<forall>x. c x = Some Black \<longrightarrow> (\<forall>y \<in> set (succs x). c y = Some Black) \<and> (x, x) \<notin> (arcs succs)\<^sup>+)"

lemma black_closed:
  assumes "search_inv succs c stack" and "(x, y) \<in> (arcs succs)\<^sup>*" and "c x = Some Black"
  shows "c y = Some Black"
  using assms(2,3)
proof (induction rule: rtrancl_induct)
  case base
  then show ?case .
next
  case (step y z)
  then show ?case using assms(1) by (auto simp: search_inv_def arcs_def)
qed

lemma search_enter:
  assumes "search_inv succs c stack" "c i = None" "stack \<noteq> [] \<Longrightarrow> i \<in> set (succs (last stack))"
  shows "search_inv succs (c(i \<mapsto> Gray)) (stack @ [i])"
proof -
  have "i \<notin> set stack"
    using assms(1,2) unfolding search_inv_def by (metis option.distinct(1))
  then show ?thesis using assms by (auto simp: search_inv_def successively_append_iff)
qed

lemma search_leave:
  assumes "search_inv succs c (stack @ [i])" and "\<forall>s \<in> set (succs i). c s = Some Black"
  shows "search_inv succs (c(i \<mapsto> Black)) stack"
proof -
  have gray: "c i = Some Gray" using assms(1) by (auto simp: search_inv_def)
  have "(i, i) \<notin> (arcs succs)\<^sup>+"
  proof
    assume "(i, i) \<in> (arcs succs)\<^sup>+"
    then obtain z where "(i, z) \<in> arcs succs" "(z, i) \<in> (arcs succs)\<^sup>*"
      by (meson tranclD)
    then have "c i = Some Black"
      using black_closed [OF assms(1)] assms(2) by (auto simp: arcs_def)
    with gray show False by simp
  qed
  then show ?thesis
    using assms gray by (auto simp: search_inv_def successively_append_iff)
qed

definition cycle_from :: "(string \<Rightarrow> string list) \<Rightarrow> string \<Rightarrow> string list \<Rightarrow> bool" where
  "cycle_from succs r p \<longleftrightarrow> is_cycle succs p \<and> (\<forall>x \<in> set p. (r, x) \<in> (arcs succs)\<^sup>*)"

lemma close_cycle:
  assumes "search_inv succs c stack" "s \<in> set stack" "s \<in> set (succs (last stack))"
  shows "cycle_from succs (hd stack) (dropWhile (\<lambda>x. x \<noteq> s) stack @ [s])"
proof -
  let ?d = "dropWhile (\<lambda>x. x \<noteq> s) stack"
  have path: "successively (\<lambda>a b. b \<in> set (succs a)) stack"
    using assms(1) by (simp add: search_inv_def)
  have split: "stack = takeWhile (\<lambda>x. x \<noteq> s) stack @ ?d" by simp
  have ne: "?d \<noteq> []" using assms(2) by (auto simp: dropWhile_eq_Nil_conv)
  have hd: "hd ?d = s" using hd_dropWhile [OF ne] by simp
  have last: "last ?d = last stack" by (metis split ne last_appendR)
  have "successively (\<lambda>a b. b \<in> set (succs a)) ?d"
    using path split by (metis successively_append_iff)
  then have "successively (\<lambda>a b. b \<in> set (succs a)) (?d @ [s])"
    using assms(3) last by (simp add: successively_append_iff)
  moreover have "2 \<le> length (?d @ [s])" using ne by (cases ?d) auto
  moreover have "\<forall>x \<in> set (?d @ [s]). (hd stack, x) \<in> (arcs succs)\<^sup>*"
    using successively_reach [OF path] assms(2) by (auto dest: set_dropWhileD)
  ultimately show ?thesis using hd ne by (simp add: cycle_from_def is_cycle_def)
qed

text \<open>The two results of the search: a cycle below the root of the stack, or colours that extend
  the given ones with everything visited black.\<close>

definition search_ok :: "(string \<Rightarrow> string list) \<Rightarrow> (string \<rightharpoonup> colour) \<Rightarrow> string list \<Rightarrow> string
    \<Rightarrow> string set \<Rightarrow> string list + (string \<rightharpoonup> colour) \<Rightarrow> bool" where
  "search_ok succs c stack root done r \<longleftrightarrow>
     (case r of
        Inl p \<Rightarrow> cycle_from succs root p
      | Inr c' \<Rightarrow> search_inv succs c' stack \<and>
          (\<forall>x. c x = Some Black \<longrightarrow> c' x = Some Black) \<and> (\<forall>x \<in> done. c' x = Some Black))"

lemma dfs_visit_ok:
  "search_inv succs c stack \<Longrightarrow> c i = None \<Longrightarrow> (stack \<noteq> [] \<longrightarrow> i \<in> set (succs (last stack))) \<Longrightarrow>
    dfs n succs i c stack = Some r \<Longrightarrow> search_ok succs c stack (hd (stack @ [i])) {i} r"
  "search_inv succs c stack \<Longrightarrow> stack \<noteq> [] \<Longrightarrow> set ss \<subseteq> set (succs (last stack)) \<Longrightarrow>
    visit n succs ss c stack = Some r \<Longrightarrow> search_ok succs c stack (hd stack) (set ss) r"
proof (induction n succs i c stack and n succs ss c stack arbitrary: r and r rule: dfs_visit.induct)
  case (1 succs i c stack)
  then show ?case by simp
next
  case (2 n succs i c stack)
  have enter: "search_inv succs (c(i \<mapsto> Gray)) (stack @ [i])"
    using 2(2-4) by (intro search_enter) auto
  from 2(5) obtain r' where v: "visit n succs (succs i) (c(i \<mapsto> Gray)) (stack @ [i]) = Some r'"
    by (auto split: option.splits)
  note ok = 2(1) [OF enter _ _ v, simplified]
  show ?case
  proof (cases r')
    case (Inl p)
    then show ?thesis using ok v 2(5) by (auto simp: search_ok_def)
  next
    case (Inr c')
    then have c': "search_inv succs c' (stack @ [i])" "\<forall>s \<in> set (succs i). c' s = Some Black"
        "\<forall>x. (c(i \<mapsto> Gray)) x = Some Black \<longrightarrow> c' x = Some Black"
      using ok by (auto simp: search_ok_def)
    have "r = Inr (c'(i \<mapsto> Black))" using v 2(5) Inr by simp
    then show ?thesis
      using search_leave [OF c'(1,2)] c'(3) by (simp add: search_ok_def)
  qed
next
  case (3 n succs c stack)
  then show ?case by (auto simp: search_ok_def)
next
  case (4 n succs s ss c stack)
  have s: "s \<in> set (succs (last stack))" and ss: "set ss \<subseteq> set (succs (last stack))"
    using 4(6) by auto
  show ?case
  proof (cases "c s")
    case None
    from 4(7) None obtain r' where d: "dfs n succs s c stack = Some r'"
      by (auto split: option.splits)
    have ok: "search_ok succs c stack (hd stack) {s} r'"
      using 4(1) [OF None 4(4) None _ d] s 4(5) by (simp add: hd_append)
    show ?thesis
    proof (cases r')
      case (Inl p)
      then show ?thesis using ok d 4(7) None by (auto simp: search_ok_def)
    next
      case (Inr c')
      then have c': "search_inv succs c' stack" "c' s = Some Black"
          "\<forall>x. c x = Some Black \<longrightarrow> c' x = Some Black"
        using ok by (auto simp: search_ok_def)
      have "visit n succs ss c' stack = Some r" using 4(7) None d Inr by simp
      from 4(2) [OF None _ _ c'(1) 4(5) ss this] d Inr
      have "search_ok succs c' stack (hd stack) (set ss) r" by simp
      then show ?thesis using c' by (auto simp: search_ok_def split: sum.splits)
    qed
  next
    case (Some col)
    show ?thesis
    proof (cases col)
      case Gray
      then have "s \<in> set stack" using 4(4) Some by (auto simp: search_inv_def)
      from close_cycle [OF 4(4) this s] show ?thesis
        using 4(7) Some Gray by (auto simp: search_ok_def)
    next
      case Black
      then have "visit n succs ss c stack = Some r" using 4(7) Some by simp
      from 4(3) [OF _ _ 4(4,5) ss this] Some Black
      have "search_ok succs c stack (hd stack) (set ss) r" by simp
      then show ?thesis using Some Black by (auto simp: search_ok_def split: sum.splits)
    qed
  qed
qed

lemma from_roots_ok:
  "search_inv succs c [] \<Longrightarrow> from_roots n succs rs c = Some r \<Longrightarrow>
    (case r of Some p \<Rightarrow> \<exists>root \<in> set rs. cycle_from succs root p
     | None \<Rightarrow> \<exists>c'. search_inv succs c' [] \<and> (\<forall>x. c x = Some Black \<longrightarrow> c' x = Some Black) \<and>
         (\<forall>x \<in> set rs. c' x = Some Black))"
proof (induction rs arbitrary: c)
  case Nil
  then show ?case by auto
next
  case (Cons i rs)
  show ?case
  proof (cases "c i")
    case (Some col)
    then have black: "c i = Some Black"
      using Cons.prems(1) by (cases col) (auto simp: search_inv_def)
    have "from_roots n succs rs c = Some r" using Cons.prems(2) Some by simp
    from Cons.IH [OF Cons.prems(1) this] black show ?thesis
      by (auto split: option.splits)
  next
    case None
    then obtain r' where d: "dfs n succs i c [] = Some r'"
      using Cons.prems(2) by (auto split: option.splits)
    have ok: "search_ok succs c [] i {i} r'"
      using dfs_visit_ok(1) [OF Cons.prems(1) None _ d] by simp
    show ?thesis
    proof (cases r')
      case (Inl p)
      then show ?thesis using ok d None Cons.prems(2) by (auto simp: search_ok_def)
    next
      case (Inr c')
      then have c': "search_inv succs c' []" "\<forall>x. c x = Some Black \<longrightarrow> c' x = Some Black"
          "c' i = Some Black" using ok by (auto simp: search_ok_def)
      have "from_roots n succs rs c' = Some r" using Cons.prems(2) None d Inr by simp
      from Cons.IH [OF c'(1) this] c'(2,3) show ?thesis
        by (auto split: option.splits)
    qed
  qed
qed

subsection \<open>Enough fuel\<close>

definition free :: "string set \<Rightarrow> (string \<rightharpoonup> colour) \<Rightarrow> nat" where
  "free U c = card {x \<in> U. c x = None}"

lemma free_mono:
  "finite U \<Longrightarrow> dom c \<subseteq> dom c' \<Longrightarrow> free U c' \<le> free U c"
  unfolding free_def by (rule card_mono) auto

lemma free_enter:
  assumes "finite U" "i \<in> U" "c i = None"
  shows "free U c = Suc (free U (c(i \<mapsto> col)))"
proof -
  have "{x \<in> U. c x = None} = insert i {x \<in> U. (c(i \<mapsto> col)) x = None}"
    using assms(2,3) by auto
  then show ?thesis using assms(1) by (simp add: free_def)
qed

lemma dfs_visit_dom:
  "dfs n succs i c stack = Some (Inr c') \<Longrightarrow> dom c \<subseteq> dom c'"
  "visit n succs ss c stack = Some (Inr c') \<Longrightarrow> dom c \<subseteq> dom c'"
proof (induction n succs i c stack and n succs ss c stack arbitrary: c' and c' rule: dfs_visit.induct)
  case (2 n succs i c stack)
  then obtain d where d: "visit n succs (succs i) (c(i \<mapsto> Gray)) (stack @ [i]) = Some (Inr d)"
      "c' = d(i \<mapsto> Black)"
    by (auto split: option.splits sum.splits)
  from 2(1) [OF d(1)] have "dom (c(i \<mapsto> Gray)) \<subseteq> dom d" .
  then show ?case by (auto simp: d(2) subset_iff)
next
  case (4 n succs s ss c stack)
  then show ?case by (fastforce split: option.splits sum.splits colour.splits)
qed simp_all

lemma dfs_visit_fuel:
  "finite U \<Longrightarrow> \<forall>x \<in> U. set (succs x) \<subseteq> U \<Longrightarrow> i \<in> U \<Longrightarrow> c i = None \<Longrightarrow> free U c \<le> n \<Longrightarrow>
    dfs n succs i c stack \<noteq> None"
  "finite U \<Longrightarrow> \<forall>x \<in> U. set (succs x) \<subseteq> U \<Longrightarrow> set ss \<subseteq> U \<Longrightarrow> free U c \<le> n \<Longrightarrow>
    visit n succs ss c stack \<noteq> None"
proof (induction n succs i c stack and n succs ss c stack rule: dfs_visit.induct)
  case (1 succs i c stack)
  then show ?case using free_enter [of U i c Gray] by simp
next
  case (2 n succs i c stack)
  have "free U (c(i \<mapsto> Gray)) \<le> n"
    using free_enter [where U = U and i = i and c = c and col = Gray] 2(2,4-6) by simp
  then have "visit n succs (succs i) (c(i \<mapsto> Gray)) (stack @ [i]) \<noteq> None"
    using 2(1) 2(2-4) by blast
  then show ?case by (auto split: option.splits sum.splits)
next
  case (3 n succs c stack)
  then show ?case by simp
next
  case (4 n succs s ss c stack)
  have "s \<in> U" "set ss \<subseteq> U" using 4(6) by auto
  show ?case
  proof (cases "c s")
    case None
    then have d: "dfs n succs s c stack \<noteq> None"
      using 4(1) [OF None 4(4,5) \<open>s \<in> U\<close> None 4(7)] by simp
    then obtain r where r: "dfs n succs s c stack = Some r" by auto
    show ?thesis
    proof (cases r)
      case (Inl p)
      then show ?thesis using None r by simp
    next
      case (Inr c')
      have "free U c' \<le> n"
        using free_mono [OF 4(4)] dfs_visit_dom(1) [of n succs s c stack c'] r Inr 4(7)
        by (metis order_trans)
      then show ?thesis
        using 4(2) [OF None r Inr 4(4,5) \<open>set ss \<subseteq> U\<close>] None r Inr by simp
    qed
  next
    case (Some col)
    then show ?thesis using 4(3) [OF Some _ 4(4,5) \<open>set ss \<subseteq> U\<close> 4(7)] by (cases col) auto
  qed
qed

lemma from_roots_fuel:
  assumes "finite U" "\<forall>x \<in> U. set (succs x) \<subseteq> U" "set rs \<subseteq> U" "card U \<le> n"
  shows "from_roots n succs rs c \<noteq> None"
  using assms(3)
proof (induction rs arbitrary: c)
  case Nil
  then show ?case by simp
next
  case (Cons i rs)
  have "free U d \<le> n" for d :: "string \<rightharpoonup> colour"
    using assms(1,4) card_mono [of U "{x \<in> U. d x = None}"] by (fastforce simp: free_def)
  then have d: "c i = None \<Longrightarrow> dfs n succs i c [] \<noteq> None"
    using dfs_visit_fuel(1) [OF assms(1,2), of i c] Cons.prems by simp
  have ih: "from_roots n succs rs e \<noteq> None" for e
    using Cons by simp
  show ?case
  proof (cases "c i")
    case None
    with d obtain r where "dfs n succs i c [] = Some r" by auto
    then show ?thesis using None ih by (cases r) simp_all
  qed (use ih in simp)
qed

text \<open>The search always returns; it finds a cycle exactly when one is reachable from a root, and
  what it finds is one.\<close>

lemma findCycle_spec:
  assumes "finite U" "\<forall>x \<in> U. set (succs x) \<subseteq> U" "set roots \<subseteq> U" "card U \<le> fuel"
  shows "\<exists>r. findCycle fuel succs roots = Some r \<and>
    (case r of Some p \<Rightarrow> \<exists>root \<in> set roots. cycle_from succs root p
     | None \<Rightarrow> \<forall>root \<in> set roots. \<forall>x. (root, x) \<in> (arcs succs)\<^sup>* \<longrightarrow> (x, x) \<notin> (arcs succs)\<^sup>+)"
proof -
  obtain r where r: "from_roots fuel succs roots Map.empty = Some r"
    using from_roots_fuel [OF assms, of Map.empty] by auto
  have "search_inv succs Map.empty []" by (simp add: search_inv_def)
  note ok = from_roots_ok [OF this r]
  show ?thesis
  proof (cases r)
    case None
    then obtain c' where c': "search_inv succs c' []" "\<forall>x \<in> set roots. c' x = Some Black"
      using ok by auto
    have "(x, x) \<notin> (arcs succs)\<^sup>+" if "root \<in> set roots" "(root, x) \<in> (arcs succs)\<^sup>*" for root x
      using black_closed [OF c'(1) that(2)] c' that(1) by (auto simp: search_inv_def)
    then show ?thesis using r None by (auto simp: findCycle_def)
  next
    case (Some p)
    then show ?thesis using ok r by (auto simp: findCycle_def)
  qed
qed

lemma findCycle_None_iff:
  assumes "finite U" "\<forall>x \<in> U. set (succs x) \<subseteq> U" "set roots \<subseteq> U" "card U \<le> fuel"
  shows "findCycle fuel succs roots = Some None \<longleftrightarrow>
    (\<forall>root \<in> set roots. \<forall>x. (root, x) \<in> (arcs succs)\<^sup>* \<longrightarrow> (x, x) \<notin> (arcs succs)\<^sup>+)"
proof -
  obtain r where r: "findCycle fuel succs roots = Some r"
    and ok: "case r of Some p \<Rightarrow> \<exists>root \<in> set roots. cycle_from succs root p
     | None \<Rightarrow> \<forall>root \<in> set roots. \<forall>x. (root, x) \<in> (arcs succs)\<^sup>* \<longrightarrow> (x, x) \<notin> (arcs succs)\<^sup>+"
    using findCycle_spec [OF assms] by blast
  show ?thesis
  proof (cases r)
    case None
    then show ?thesis using r ok by simp
  next
    case (Some p)
    then obtain root where "root \<in> set roots" "cycle_from succs root p" using ok by auto
    moreover from this have "hd p \<in> set p" by (cases p) (auto simp: cycle_from_def is_cycle_def)
    ultimately show ?thesis
      using r Some is_cycle_trancl [of succs p] by (auto simp: cycle_from_def)
  qed
qed

end
