(* ===== verification/Workflow_Validator.thy ===== *)
theory Workflow_Validator
  imports Workflow_Graph Human_Route
begin

text \<open>
  The workflow validator (\<open>packages/daemon/src/domain/workflow-validator.ts\<close>). An issue is its
  code with what it names (step index, role, step id, exit); the message text is not modelled.
  The checks run in the code's order. The two injected probes are arguments: seat liveness, and
  membership in the hosts registry. The last section states what an accepted specification is,
  in terms of relations, and proves that \<open>validate\<close> accepts exactly those.
\<close>

section \<open>Issues\<close>

datatype issue =
    Entry_role_not_declared string
  | Entry_role_mismatch string
  | Step_id_missing nat
  | Step_id_duplicate nat
  | Step_actor_role_missing nat
  | Step_actor_role_not_declared nat
  | Step_exit_not_allowed nat workflow_exit
  | Waiting_re_presentation_unreachable nat
  | Dependency_self_reference nat
  | Dependency_step_not_found nat string
  | Next_hop_role_not_declared nat string
  | Next_hop_role_has_no_step nat string
  | Branch_target_not_found nat workflow_exit string
  | Step_cannot_finish nat
  | Dependency_cycle "string list"
  | Cycle_without_max_hops "string list"
  | Graph_fuel_exhausted
  | Step_unreachable string
  | Host_not_registered nat string
  | Gate_human_fields_missing nat
  | Gate_target_unresolved nat
  | Gate_handler_no_targets nat
  | Declared_not_enforced_v1 string
  | Role_no_live_preferred_target string

fun is_error :: "issue \<Rightarrow> bool" where
  "is_error (Gate_handler_no_targets _) = False"
| "is_error (Declared_not_enforced_v1 _) = False"
| "is_error (Role_no_live_preferred_target _) = False"
| "is_error _ = True"

definition declared_roles :: "workflow_spec \<Rightarrow> string list" where
  "declared_roles spec = map fst (roles spec)"

text \<open>\<open>steps.forEach((step, idx) => ...)\<close>, each call giving the issues it pushes.\<close>

definition for_each_step :: "workflow_spec \<Rightarrow> (step_spec \<Rightarrow> nat \<Rightarrow> issue list) \<Rightarrow> issue list" where
  "for_each_step spec f = concat (map (\<lambda>(idx, st). f st idx) (List.enumerate 0 (steps spec)))"

section \<open>The checks\<close>

definition check_entry :: "workflow_spec \<Rightarrow> issue list" where
  "check_entry spec =
    (case entry_role spec of
       None \<Rightarrow> []
     | Some r \<Rightarrow>
         if r = [] then []
         else (if r \<notin> set (declared_roles spec) then [Entry_role_not_declared r] else []) @
              (case steps spec of
                 [] \<Rightarrow> []
               | st # _ \<Rightarrow> if actor_role st \<noteq> [] \<and> r \<noteq> actor_role st then [Entry_role_mismatch r] else []))"

definition step_exits :: "step_spec \<Rightarrow> workflow_exit list" where
  "step_exits st = or_default (allowed_exits st) []"

definition check_exits :: "workflow_spec \<Rightarrow> step_spec \<Rightarrow> nat \<Rightarrow> issue list" where
  "check_exits spec st idx =
    (case (case invariants spec of None \<Rightarrow> None | Some i \<Rightarrow> inv_allowed_exits i) of
       None \<Rightarrow> []
     | Some allowed \<Rightarrow> map (Step_exit_not_allowed idx) (filter (\<lambda>x. x \<notin> set allowed) (step_exits st)))"

definition check_waiting :: "step_spec \<Rightarrow> nat \<Rightarrow> issue list" where
  "check_waiting st idx =
    (if re_present_after st \<noteq> None \<and> step_exits st \<noteq> [] \<and> Exit_waiting \<notin> set (step_exits st)
     then [Waiting_re_presentation_unreachable idx] else []) @
    (if re_present_after st \<noteq> None \<and> truthy (branch_target st Exit_waiting)
     then [Waiting_re_presentation_unreachable idx] else [])"

definition check_dependencies :: "workflow_spec \<Rightarrow> step_spec \<Rightarrow> nat \<Rightarrow> issue list" where
  "check_dependencies spec st idx =
    concat (map (\<lambda>d. if d = step_id st then [Dependency_self_reference idx]
       else if d \<notin> step_id ` set (steps spec) then [Dependency_step_not_found idx d] else [])
      (dependencies st))"

text \<open>The first pass over the steps. \<open>seen\<close> are the ids of the steps before this one.\<close>

definition check_step :: "workflow_spec \<Rightarrow> step_spec \<Rightarrow> nat \<Rightarrow> issue list" where
  "check_step spec st idx =
    (if step_id st = [] then [Step_id_missing idx]
     else
       (let seen = set (map step_id (take idx (steps spec)))
        in (if step_id st \<in> seen then [Step_id_duplicate idx] else []) @
           (if actor_role st = [] then [Step_actor_role_missing idx]
            else if actor_role st \<notin> set (declared_roles spec) then [Step_actor_role_not_declared idx] else []) @
           check_exits spec st idx @ check_waiting st idx @ check_dependencies spec st idx))"

definition check_suggested :: "workflow_spec \<Rightarrow> step_spec \<Rightarrow> nat \<Rightarrow> issue list" where
  "check_suggested spec st idx =
    concat (map (\<lambda>r. if r \<notin> set (declared_roles spec) then [Next_hop_role_not_declared idx r]
       else if r \<notin> actor_role ` set (steps spec) then [Next_hop_role_has_no_step idx r] else [])
      (hop_roles st))"

definition check_branches :: "workflow_spec \<Rightarrow> step_spec \<Rightarrow> nat \<Rightarrow> issue list" where
  "check_branches spec st idx =
    concat (map (\<lambda>(x, t). if t \<noteq> [] \<and> t \<notin> step_id ` set (steps spec)
       then [Branch_target_not_found idx x t] else []) (hop_on st))"

definition dependencyGraph :: "workflow_spec \<Rightarrow> bool" where
  "dependencyGraph spec = (\<exists>st \<in> set (steps spec). depends_on st \<noteq> None)"

definition check_can_finish :: "workflow_spec \<Rightarrow> step_spec \<Rightarrow> nat \<Rightarrow> issue list" where
  "check_can_finish spec st idx =
    (if step_id st = [] \<or> step_exits st = [] \<or> Exit_done \<in> set (step_exits st) then []
     else if \<exists>x \<in> set (step_exits st). branch_target st x \<noteq> None then []
     else if Exit_handoff \<in> set (step_exits st) \<and>
        (dependencyGraph spec \<or> resolveNextStep spec st (Some Exit_handoff) \<noteq> None) then []
     else [Step_cannot_finish idx])"

subsection \<open>The graph checks\<close>

definition stepById :: "workflow_spec \<Rightarrow> string \<Rightarrow> step_spec option" where
  "stepById spec = map_of (rev (map (\<lambda>st. (step_id st, st)) (steps spec)))"

definition step_keys :: "workflow_spec \<Rightarrow> string list" where
  "step_keys spec = rev (remdups (rev (map step_id (steps spec))))"

fun add_branches :: "workflow_spec \<Rightarrow> (workflow_exit \<times> string) list \<Rightarrow> string list \<Rightarrow> string list" where
  "add_branches spec [] out = out"
| "add_branches spec ((x, t) # rest) out =
    add_branches spec rest
      (if t \<noteq> [] \<and> stepById spec t \<noteq> None \<and> t \<notin> set out then out @ [t] else out)"

definition successorsOf :: "workflow_spec \<Rightarrow> step_spec \<Rightarrow> string list" where
  "successorsOf spec st =
    add_branches spec (hop_on st)
      (if dependencyGraph spec
       then map step_id (filter (\<lambda>c. step_id st \<in> set (dependencies c)) (steps spec))
       else (case resolveNextStep spec st None of None \<Rightarrow> [] | Some n \<Rightarrow> [step_id n]))"

definition routing_succs :: "workflow_spec \<Rightarrow> string \<Rightarrow> string list" where
  "routing_succs spec i = (case stepById spec i of None \<Rightarrow> [] | Some st \<Rightarrow> successorsOf spec st)"

definition prerequisite_succs :: "workflow_spec \<Rightarrow> string \<Rightarrow> string list" where
  "prerequisite_succs spec i = (case stepById spec i of None \<Rightarrow> [] | Some st \<Rightarrow> dependencies st)"

definition enforceableMaxHops :: "workflow_spec \<Rightarrow> bool" where
  "enforceableMaxHops spec =
    (case loop_guards_of spec of
       None \<Rightarrow> False
     | Some g \<Rightarrow> (case max_hops g of Some (Hops n) \<Rightarrow> n \<ge> 1 | _ \<Rightarrow> False))"

text \<open>Fuel for the searches: more than the number of distinct ids they can meet.\<close>

definition graph_fuel :: "workflow_spec \<Rightarrow> nat" where
  "graph_fuel spec = length (steps spec) + sum_list (map (\<lambda>st. length (dependencies st)) (steps spec))"

definition check_graph :: "workflow_spec \<Rightarrow> issue list" where
  "check_graph spec =
    (if steps spec = [] \<or> (\<exists>st \<in> set (steps spec). step_id st = []) then []
     else
       (let root = step_id (hd (steps spec));
            reachable = bfs (step_keys spec) (routing_succs spec) [root] [];
            fuel = graph_fuel spec
        in case (if dependencyGraph spec then findCycle fuel (prerequisite_succs spec) (step_keys spec)
                 else Some None) of
             None \<Rightarrow> [Graph_fuel_exhausted]
           | Some dependencyCycle \<Rightarrow>
               (case findCycle fuel (routing_succs spec) [root] of
                  None \<Rightarrow> [Graph_fuel_exhausted]
                | Some cyclePath \<Rightarrow>
                    (case dependencyCycle of None \<Rightarrow> [] | Some p \<Rightarrow> [Dependency_cycle p]) @
                    (case cyclePath of
                       None \<Rightarrow> []
                     | Some p \<Rightarrow> if dependencyCycle = None \<and> \<not> enforceableMaxHops spec
                                then [Cycle_without_max_hops p] else []) @
                    map (\<lambda>st. Step_unreachable (step_id st))
                      (filter (\<lambda>st. step_id st \<notin> set reachable) (steps spec)))))"

subsection \<open>Hosts, gates, advisories, seats\<close>

definition check_host :: "(string \<Rightarrow> bool) option \<Rightarrow> step_spec \<Rightarrow> nat \<Rightarrow> issue list" where
  "check_host registered st idx =
    (case (registered, host st) of
       (Some reg, Some h) \<Rightarrow> if h \<noteq> [] \<and> h \<noteq> ''local'' \<and> \<not> reg h then [Host_not_registered idx h] else []
     | _ \<Rightarrow> [])"

definition check_gate :: "workflow_spec \<Rightarrow> step_spec \<Rightarrow> nat \<Rightarrow> issue list" where
  "check_gate spec st idx =
    (case gate st of
       None \<Rightarrow> []
     | Some g \<Rightarrow>
         if isHumanSeatSession (gate_target g) then
           (if \<not> truthy (gate_summary g) \<or> \<not> truthy (gate_evidence g)
            then [Gate_human_fields_missing idx] else [])
         else if gate_target g \<notin> set (declared_roles spec) then [Gate_target_unresolved idx]
         else if role_targets spec (gate_target g) = [] then [Gate_handler_no_targets idx] else [])"

definition advisories :: "workflow_spec \<Rightarrow> issue list" where
  "advisories spec =
    (case invariants spec of
       None \<Rightarrow> []
     | Some i \<Rightarrow>
         (if continuation_required i \<noteq> None then [Declared_not_enforced_v1 ''invariants.continuation_required''] else []) @
         (if preserve_lineage i \<noteq> None then [Declared_not_enforced_v1 ''invariants.preserve_lineage''] else []) @
         (if closure_required i \<noteq> None then [Declared_not_enforced_v1 ''invariants.closure_required''] else [])) @
    (if closure_messages spec then [Declared_not_enforced_v1 ''closure.{success,degraded,failed}''] else []) @
    (case loop_guards_of spec of
       None \<Rightarrow> []
     | Some g \<Rightarrow> if spawn_budget g \<noteq> None then [Declared_not_enforced_v1 ''loop_guards.spawn_budget''] else []) @
    (if \<exists>(_, r) \<in> set (roles spec). or_default (skill_refs r) [] \<noteq> []
     then [Declared_not_enforced_v1 ''skill_refs''] else [])"

definition check_seats :: "(string \<Rightarrow> bool) option \<Rightarrow> workflow_spec \<Rightarrow> issue list" where
  "check_seats seatAlive spec =
    (case seatAlive of
       None \<Rightarrow> []
     | Some alive \<Rightarrow>
         concat (map (\<lambda>(name, r).
           (let targets = filter (\<lambda>t. \<not> isRigRelativeTarget t) (or_default (preferred_targets r) [])
            in if targets \<noteq> [] \<and> \<not> (\<exists>t \<in> set targets. alive t)
               then [Role_no_live_preferred_target name] else [])) (roles spec)))"

definition validate_issues ::
  "(string \<Rightarrow> bool) option \<Rightarrow> (string \<Rightarrow> bool) option \<Rightarrow> workflow_spec \<Rightarrow> issue list" where
  "validate_issues seatAlive registered spec =
     check_entry spec @
     for_each_step spec (check_step spec) @
     for_each_step spec (check_suggested spec) @
     for_each_step spec (check_branches spec) @
     for_each_step spec (check_can_finish spec) @
     check_graph spec @
     for_each_step spec (check_host registered) @
     for_each_step spec (check_gate spec) @
     advisories spec @
     check_seats seatAlive spec"

record validation_result =
  result_ok :: bool
  result_issues :: "issue list"
  result_stepCount :: nat

definition validate ::
  "(string \<Rightarrow> bool) option \<Rightarrow> (string \<Rightarrow> bool) option \<Rightarrow> workflow_spec \<Rightarrow> validation_result" where
  "validate seatAlive registered spec =
    (let issues = validate_issues seatAlive registered spec
     in \<lparr>result_ok = (filter is_error issues = []), result_issues = issues,
         result_stepCount = length (steps spec)\<rparr>)"

section \<open>What an accepted specification is\<close>

text \<open>The prerequisite relation and the routing relation, without any search.\<close>

definition prereq_rel :: "workflow_spec \<Rightarrow> (string \<times> string) set" where
  "prereq_rel spec = {(a, b). \<exists>st \<in> set (steps spec). step_id st = a \<and> b \<in> set (dependencies st)}"

definition routes :: "workflow_spec \<Rightarrow> step_spec \<Rightarrow> string \<Rightarrow> bool" where
  "routes spec st b \<longleftrightarrow>
     (if dependencyGraph spec
      then \<exists>c \<in> set (steps spec). step_id c = b \<and> step_id st \<in> set (dependencies c)
      else \<exists>n. resolveNextStep spec st None = Some n \<and> step_id n = b) \<or>
     (\<exists>x. (x, b) \<in> set (hop_on st) \<and> b \<noteq> [] \<and> b \<in> step_id ` set (steps spec))"

definition routing_rel :: "workflow_spec \<Rightarrow> (string \<times> string) set" where
  "routing_rel spec = {(a, b). \<exists>st \<in> set (steps spec). step_id st = a \<and> routes spec st b}"

definition can_finish :: "workflow_spec \<Rightarrow> step_spec \<Rightarrow> bool" where
  "can_finish spec st \<longleftrightarrow> step_exits st = [] \<or> Exit_done \<in> set (step_exits st) \<or>
     (\<exists>x \<in> set (step_exits st). branch_target st x \<noteq> None) \<or>
     (Exit_handoff \<in> set (step_exits st) \<and>
        (dependencyGraph spec \<or> resolveNextStep spec st (Some Exit_handoff) \<noteq> None))"

definition step_wf :: "workflow_spec \<Rightarrow> (string \<Rightarrow> bool) option \<Rightarrow> step_spec \<Rightarrow> bool" where
  "step_wf spec registered st \<longleftrightarrow>
     step_id st \<noteq> [] \<and>
     actor_role st \<noteq> [] \<and> actor_role st \<in> set (declared_roles spec) \<and>
     (\<forall>i a. invariants spec = Some i \<longrightarrow> inv_allowed_exits i = Some a \<longrightarrow> set (step_exits st) \<subseteq> set a) \<and>
     (re_present_after st \<noteq> None \<longrightarrow>
        (step_exits st = [] \<or> Exit_waiting \<in> set (step_exits st)) \<and>
        \<not> truthy (branch_target st Exit_waiting)) \<and>
     (\<forall>d \<in> set (dependencies st). d \<noteq> step_id st \<and> d \<in> step_id ` set (steps spec)) \<and>
     (\<forall>r \<in> set (hop_roles st). r \<in> set (declared_roles spec) \<and> r \<in> actor_role ` set (steps spec)) \<and>
     (\<forall>(x, t) \<in> set (hop_on st). t = [] \<or> t \<in> step_id ` set (steps spec)) \<and>
     can_finish spec st \<and>
     (\<forall>reg h. registered = Some reg \<longrightarrow> host st = Some h \<longrightarrow> h = [] \<or> h = ''local'' \<or> reg h) \<and>
     (\<forall>g. gate st = Some g \<longrightarrow>
        (if isHumanSeatSession (gate_target g) then truthy (gate_summary g) \<and> truthy (gate_evidence g)
         else gate_target g \<in> set (declared_roles spec)))"

definition spec_wf :: "workflow_spec \<Rightarrow> (string \<Rightarrow> bool) option \<Rightarrow> bool" where
  "spec_wf spec registered \<longleftrightarrow>
     (\<forall>r. entry_role spec = Some r \<longrightarrow> r \<noteq> [] \<longrightarrow> r \<in> set (declared_roles spec) \<and>
        (steps spec \<noteq> [] \<longrightarrow> actor_role (hd (steps spec)) = r)) \<and>
     distinct (map step_id (steps spec)) \<and>
     (\<forall>st \<in> set (steps spec). step_wf spec registered st) \<and>
     acyclic (prereq_rel spec) \<and>
     (\<forall>st \<in> set (steps spec). (step_id (hd (steps spec)), step_id st) \<in> (routing_rel spec)\<^sup>*) \<and>
     (acyclic (routing_rel spec) \<or> enforceableMaxHops spec)"

section \<open>Each check against its clause\<close>

abbreviation clean :: "issue list \<Rightarrow> bool" where
  "clean is \<equiv> filter is_error is = []"

lemma clean_append: "clean (xs @ ys) \<longleftrightarrow> clean xs \<and> clean ys"
  by simp

lemma clean_concat_map: "clean (concat (map f xs)) \<longleftrightarrow> (\<forall>x \<in> set xs. clean (f x))"
  by (induction xs) auto

lemma clean_if: "clean (if b then [i] else []) \<longleftrightarrow> (b \<longrightarrow> \<not> is_error i)"
  by simp

lemma clean_for_each:
  "clean (for_each_step spec f) \<longleftrightarrow> (\<forall>idx < length (steps spec). clean (f (steps spec ! idx) idx))"
proof -
  have "set (List.enumerate 0 (steps spec)) = {(i, steps spec ! i) | i. i < length (steps spec)}"
    by (auto simp: in_set_enumerate_eq)
  then show ?thesis unfolding for_each_step_def clean_concat_map by auto
qed

lemma clean_for_each_step:
  "clean (for_each_step spec f) \<longleftrightarrow> (\<forall>st \<in> set (steps spec). P st)"
  if "\<And>st idx. clean (f st idx) \<longleftrightarrow> P st"
  unfolding clean_for_each that by (auto simp: all_set_conv_all_nth)

lemma check_suggested_clean:
  "clean (check_suggested spec st idx) \<longleftrightarrow>
    (\<forall>r \<in> set (hop_roles st). r \<in> set (declared_roles spec) \<and> r \<in> actor_role ` set (steps spec))"
  unfolding check_suggested_def clean_concat_map by auto

lemma check_branches_clean:
  "clean (check_branches spec st idx) \<longleftrightarrow>
    (\<forall>(x, t) \<in> set (hop_on st). t = [] \<or> t \<in> step_id ` set (steps spec))"
  unfolding check_branches_def clean_concat_map by (intro ball_cong refl) (auto split: if_splits)

lemma check_can_finish_clean:
  "clean (check_can_finish spec st idx) \<longleftrightarrow> step_id st = [] \<or> can_finish spec st"
  by (auto simp: check_can_finish_def can_finish_def)

lemma check_host_clean:
  "clean (check_host registered st idx) \<longleftrightarrow>
    (\<forall>reg h. registered = Some reg \<longrightarrow> host st = Some h \<longrightarrow> h = [] \<or> h = ''local'' \<or> reg h)"
  by (auto simp: check_host_def split: option.split)

lemma check_gate_clean:
  "clean (check_gate spec st idx) \<longleftrightarrow>
    (\<forall>g. gate st = Some g \<longrightarrow>
        (if isHumanSeatSession (gate_target g) then truthy (gate_summary g) \<and> truthy (gate_evidence g)
         else gate_target g \<in> set (declared_roles spec)))"
  by (auto simp: check_gate_def split: option.split)

lemma advisories_clean: "clean (advisories spec)"
  by (auto simp: advisories_def split: option.split)

lemma check_seats_clean: "clean (check_seats seatAlive spec)"
  by (auto simp: check_seats_def clean_concat_map Let_def split: option.split)

lemma check_entry_clean:
  assumes "\<forall>st \<in> set (steps spec). actor_role st \<noteq> []"
  shows "clean (check_entry spec) \<longleftrightarrow>
    (\<forall>r. entry_role spec = Some r \<longrightarrow> r \<noteq> [] \<longrightarrow> r \<in> set (declared_roles spec) \<and>
        (steps spec \<noteq> [] \<longrightarrow> actor_role (hd (steps spec)) = r))"
  using assms by (auto simp: check_entry_def split: option.split list.split)

lemma check_waiting_clean:
  "clean (check_waiting st idx) \<longleftrightarrow>
    (re_present_after st \<noteq> None \<longrightarrow>
        (step_exits st = [] \<or> Exit_waiting \<in> set (step_exits st)) \<and>
        \<not> truthy (branch_target st Exit_waiting))"
  by (auto simp: check_waiting_def)

lemma check_exits_clean:
  "clean (check_exits spec st idx) \<longleftrightarrow>
    (\<forall>i a. invariants spec = Some i \<longrightarrow> inv_allowed_exits i = Some a \<longrightarrow> set (step_exits st) \<subseteq> set a)"
proof -
  have "clean (map (Step_exit_not_allowed idx) (filter (\<lambda>x. x \<notin> set a) xs)) \<longleftrightarrow> set xs \<subseteq> set a"
    for a xs by (induction xs) auto
  then show ?thesis
    by (cases "invariants spec"; cases "inv_allowed_exits (the (invariants spec))")
      (auto simp: check_exits_def)
qed

lemma check_dependencies_clean:
  "clean (check_dependencies spec st idx) \<longleftrightarrow>
    (\<forall>d \<in> set (dependencies st). d \<noteq> step_id st \<and> d \<in> step_id ` set (steps spec))"
  unfolding check_dependencies_def clean_concat_map by auto

lemma check_step_clean:
  "clean (check_step spec st idx) \<longleftrightarrow> step_id st \<noteq> [] \<and>
    step_id st \<notin> set (map step_id (take idx (steps spec))) \<and>
    actor_role st \<noteq> [] \<and> actor_role st \<in> set (declared_roles spec) \<and>
    clean (check_exits spec st idx) \<and> clean (check_waiting st idx) \<and>
    clean (check_dependencies spec st idx)"
  unfolding check_step_def Let_def by (simp split: if_splits)

lemma distinct_conv_take:
  "distinct xs \<longleftrightarrow> (\<forall>i < length xs. xs ! i \<notin> set (take i xs))"
proof (induction xs rule: rev_induct)
  case Nil
  then show ?case by simp
next
  case (snoc x xs)
  then show ?case by (auto simp: nth_append less_Suc_eq)
qed

lemma set_step_keys: "set (step_keys spec) = step_id ` set (steps spec)"
  by (simp add: step_keys_def)

lemma stepById_distinct:
  assumes "distinct (map step_id (steps spec))"
  shows "stepById spec i = Some st \<longleftrightarrow> st \<in> set (steps spec) \<and> step_id st = i"
proof -
  have "distinct (map fst (rev (map (\<lambda>st. (step_id st, st)) (steps spec))))"
    using assms by (simp add: rev_map [symmetric] comp_def)
  then show ?thesis by (auto simp: stepById_def map_of_eq_Some_iff)
qed

lemma stepById_None: "stepById spec i = None \<longleftrightarrow> i \<notin> step_id ` set (steps spec)"
  by (simp add: stepById_def map_of_eq_None_iff image_image)

lemma set_add_branches:
  "set (add_branches spec bs out) =
    set out \<union> {t. \<exists>x. (x, t) \<in> set bs \<and> t \<noteq> [] \<and> t \<in> step_id ` set (steps spec)}"
  by (induction spec bs out rule: add_branches.induct) (auto simp: stepById_None)

lemma set_successorsOf: "set (successorsOf spec st) = {b. routes spec st b}"
  by (cases "resolveNextStep spec st None")
    (auto simp: successorsOf_def set_add_branches routes_def)

lemma routes_target: "routes spec st b \<Longrightarrow> b \<in> step_id ` set (steps spec)"
  by (auto simp: routes_def split: if_splits dest: resolveNextStep_in)

lemma set_routing_succs:
  assumes "distinct (map step_id (steps spec))"
  shows "set (routing_succs spec i) = {b. (i, b) \<in> routing_rel spec}"
proof (cases "stepById spec i")
  case None
  then have "i \<notin> step_id ` set (steps spec)" by (rule stepById_None [THEN iffD1])
  then have "(i, b) \<notin> routing_rel spec" for b by (auto simp: routing_rel_def)
  moreover have "routing_succs spec i = []" using None by (simp add: routing_succs_def)
  ultimately show ?thesis by simp
next
  case (Some st)
  then have st: "st \<in> set (steps spec)" "step_id st = i"
    using stepById_distinct [OF assms] by auto
  from stepById_distinct [OF assms, of i] Some
  have uniq: "st' \<in> set (steps spec) \<Longrightarrow> step_id st' = i \<Longrightarrow> st' = st" for st'
    by (metis option.inject)
  have "(i, b) \<in> routing_rel spec \<longleftrightarrow> routes spec st b" for b
    unfolding routing_rel_def using st uniq by blast
  then show ?thesis
    by (simp add: routing_succs_def Some set_successorsOf)
qed

lemma set_prerequisite_succs:
  assumes "distinct (map step_id (steps spec))"
  shows "set (prerequisite_succs spec i) = {b. (i, b) \<in> prereq_rel spec}"
proof (cases "stepById spec i")
  case None
  then have "i \<notin> step_id ` set (steps spec)" by (rule stepById_None [THEN iffD1])
  then have "(i, b) \<notin> prereq_rel spec" for b by (auto simp: prereq_rel_def)
  moreover have "prerequisite_succs spec i = []" using None by (simp add: prerequisite_succs_def)
  ultimately show ?thesis by simp
next
  case (Some st)
  then have st: "st \<in> set (steps spec)" "step_id st = i"
    using stepById_distinct [OF assms] by auto
  from stepById_distinct [OF assms, of i] Some
  have uniq: "st' \<in> set (steps spec) \<Longrightarrow> step_id st' = i \<Longrightarrow> st' = st" for st'
    by (metis option.inject)
  have "(i, b) \<in> prereq_rel spec \<longleftrightarrow> b \<in> set (dependencies st)" for b
    unfolding prereq_rel_def using st uniq by blast
  then show ?thesis
    by (simp add: prerequisite_succs_def Some)
qed

lemma arcs_routing:
  assumes "distinct (map step_id (steps spec))"
  shows "arcs (routing_succs spec) = routing_rel spec"
    and "edges (step_keys spec) (routing_succs spec) = routing_rel spec"
  by (auto simp: arcs_def edges_def set_routing_succs [OF assms] set_step_keys routing_rel_def)

lemma arcs_prereq:
  assumes "distinct (map step_id (steps spec))"
  shows "arcs (prerequisite_succs spec) = prereq_rel spec"
  by (auto simp: arcs_def set_prerequisite_succs [OF assms])

lemma card_ids: "card (step_id ` set (steps spec)) \<le> graph_fuel spec"
  by (metis card_image_le card_length finite_set le_add1 graph_fuel_def order_trans)

lemma routing_closed:
  assumes "distinct (map step_id (steps spec))"
  shows "\<forall>x \<in> step_id ` set (steps spec). set (routing_succs spec x) \<subseteq> step_id ` set (steps spec)"
  using routes_target by (auto simp: set_routing_succs [OF assms] routing_rel_def)

lemma routing_search:
  assumes "distinct (map step_id (steps spec))" "steps spec \<noteq> []"
  shows "findCycle (graph_fuel spec) (routing_succs spec) [step_id (hd (steps spec))] \<noteq> None"
    and "findCycle (graph_fuel spec) (routing_succs spec) [step_id (hd (steps spec))] = Some None \<longleftrightarrow>
      (\<forall>x. (step_id (hd (steps spec)), x) \<in> (routing_rel spec)\<^sup>* \<longrightarrow> (x, x) \<notin> (routing_rel spec)\<^sup>+)"
proof -
  have roots: "set [step_id (hd (steps spec))] \<subseteq> step_id ` set (steps spec)"
    using assms(2) by simp
  show "findCycle (graph_fuel spec) (routing_succs spec) [step_id (hd (steps spec))] \<noteq> None"
    using findCycle_spec [OF _ routing_closed [OF assms(1)] roots card_ids] by auto
  show "findCycle (graph_fuel spec) (routing_succs spec) [step_id (hd (steps spec))] = Some None \<longleftrightarrow>
      (\<forall>x. (step_id (hd (steps spec)), x) \<in> (routing_rel spec)\<^sup>* \<longrightarrow> (x, x) \<notin> (routing_rel spec)\<^sup>+)"
    using findCycle_None_iff [OF _ routing_closed [OF assms(1)] roots card_ids]
    by (simp add: arcs_routing [OF assms(1)])
qed

lemma prereq_range_acyclic:
  assumes "\<forall>i \<in> step_id ` set (steps spec). \<forall>x. (i, x) \<in> (prereq_rel spec)\<^sup>* \<longrightarrow> (x, x) \<notin> (prereq_rel spec)\<^sup>+"
  shows "acyclic (prereq_rel spec)"
  unfolding acyclic_def
proof (intro allI notI)
  fix x assume c: "(x, x) \<in> (prereq_rel spec)\<^sup>+"
  then obtain y where "(x, y) \<in> prereq_rel spec" by (meson tranclD)
  then have "x \<in> step_id ` set (steps spec)" by (auto simp: prereq_rel_def)
  with assms c show False by blast
qed

lemma prereq_search:
  assumes d: "distinct (map step_id (steps spec))"
    and deps: "\<forall>st \<in> set (steps spec). set (dependencies st) \<subseteq> step_id ` set (steps spec)"
  shows "findCycle (graph_fuel spec) (prerequisite_succs spec) (step_keys spec) \<noteq> None"
    and "findCycle (graph_fuel spec) (prerequisite_succs spec) (step_keys spec) = Some None \<longleftrightarrow>
      acyclic (prereq_rel spec)"
proof -
  have closed: "\<forall>x \<in> step_id ` set (steps spec).
      set (prerequisite_succs spec x) \<subseteq> step_id ` set (steps spec)"
    using deps by (auto simp: set_prerequisite_succs [OF d] prereq_rel_def)
  have roots: "set (step_keys spec) \<subseteq> step_id ` set (steps spec)" by (simp add: set_step_keys)
  show "findCycle (graph_fuel spec) (prerequisite_succs spec) (step_keys spec) \<noteq> None"
    using findCycle_spec [OF _ closed roots card_ids] by auto
  have "acyclic (prereq_rel spec) \<longleftrightarrow> (\<forall>root \<in> set (step_keys spec). \<forall>x.
      (root, x) \<in> (prereq_rel spec)\<^sup>* \<longrightarrow> (x, x) \<notin> (prereq_rel spec)\<^sup>+)"
    using prereq_range_acyclic [of spec] by (auto simp: acyclic_def set_step_keys)
  then show "findCycle (graph_fuel spec) (prerequisite_succs spec) (step_keys spec) = Some None \<longleftrightarrow>
      acyclic (prereq_rel spec)"
    using findCycle_None_iff [OF _ closed roots card_ids] by (simp add: arcs_prereq [OF d])
qed

lemma no_graph_acyclic: "\<not> dependencyGraph spec \<Longrightarrow> acyclic (prereq_rel spec)"
  by (auto simp: dependencyGraph_def prereq_rel_def dependencies_def acyclic_def)

lemma check_graph_clean:
  assumes d: "distinct (map step_id (steps spec))"
    and ids: "\<forall>st \<in> set (steps spec). step_id st \<noteq> []"
    and deps: "\<forall>st \<in> set (steps spec). set (dependencies st) \<subseteq> step_id ` set (steps spec)"
  shows "clean (check_graph spec) \<longleftrightarrow>
    acyclic (prereq_rel spec) \<and>
    (\<forall>st \<in> set (steps spec). (step_id (hd (steps spec)), step_id st) \<in> (routing_rel spec)\<^sup>*) \<and>
    (acyclic (routing_rel spec) \<or> enforceableMaxHops spec)"
proof (cases "steps spec = []")
  case True
  then show ?thesis by (simp add: check_graph_def prereq_rel_def routing_rel_def acyclic_def)
next
  case False
  let ?root = "step_id (hd (steps spec))"
  obtain dep where dep: "(if dependencyGraph spec
      then findCycle (graph_fuel spec) (prerequisite_succs spec) (step_keys spec) else Some None) = Some dep"
    using prereq_search(1) [OF d deps] by (cases "dependencyGraph spec") auto
  have dep_iff: "dep = None \<longleftrightarrow> acyclic (prereq_rel spec)"
    using prereq_search(2) [OF d deps] dep no_graph_acyclic by (auto split: if_splits)
  obtain cyc where cyc: "findCycle (graph_fuel spec) (routing_succs spec) [?root] = Some cyc"
    using routing_search(1) [OF d False] by auto
  have cyc_iff: "cyc = None \<longleftrightarrow>
      (\<forall>x. (?root, x) \<in> (routing_rel spec)\<^sup>* \<longrightarrow> (x, x) \<notin> (routing_rel spec)\<^sup>+)"
    using routing_search(2) [OF d False] cyc by simp
  have reach: "\<And>x. x \<in> set (bfs (step_keys spec) (routing_succs spec) [?root] []) \<longleftrightarrow>
      (?root, x) \<in> (routing_rel spec)\<^sup>*"
    by (simp only: bfs_reachable arcs_routing [OF d])
  have cyc_all: "cyc = None \<longleftrightarrow> acyclic (routing_rel spec)"
    if r: "\<forall>st \<in> set (steps spec). (?root, step_id st) \<in> (routing_rel spec)\<^sup>*"
  proof
    assume "cyc = None"
    show "acyclic (routing_rel spec)"
      unfolding acyclic_def
    proof (intro allI notI)
      fix x assume c: "(x, x) \<in> (routing_rel spec)\<^sup>+"
      then obtain y where "(x, y) \<in> routing_rel spec" by (meson tranclD)
      then have "(?root, x) \<in> (routing_rel spec)\<^sup>*" using r by (auto simp: routing_rel_def)
      with c \<open>cyc = None\<close> cyc_iff show False by blast
    qed
  qed (auto simp: cyc_iff acyclic_def)
  have nonempty: "\<not> (\<exists>st \<in> set (steps spec). step_id st = [])" using ids by simp
  have unreach: "clean (map (\<lambda>st. Step_unreachable (step_id st))
      (filter (\<lambda>st. step_id st \<notin> set (bfs (step_keys spec) (routing_succs spec) [?root] [])) (steps spec)))
    \<longleftrightarrow> (\<forall>st \<in> set (steps spec). (?root, step_id st) \<in> (routing_rel spec)\<^sup>*)"
    unfolding reach by (auto simp: filter_empty_conv)
  have "clean (check_graph spec) \<longleftrightarrow> dep = None \<and> (cyc = None \<or> enforceableMaxHops spec) \<and>
    (\<forall>st \<in> set (steps spec). (?root, step_id st) \<in> (routing_rel spec)\<^sup>*)"
    using False nonempty unfolding check_graph_def Let_def dep cyc
    by (simp only: if_False option.case clean_append unreach simp_thms)
      (auto split: option.split)
  then show ?thesis using dep_iff cyc_all by blast
qed

definition step_part :: "workflow_spec \<Rightarrow> step_spec \<Rightarrow> bool" where
  "step_part spec st \<longleftrightarrow> step_id st \<noteq> [] \<and> actor_role st \<noteq> [] \<and>
     actor_role st \<in> set (declared_roles spec) \<and> clean (check_exits spec st 0) \<and>
     clean (check_waiting st 0) \<and> clean (check_dependencies spec st 0)"

lemma check_steps_clean:
  "clean (for_each_step spec (check_step spec)) \<longleftrightarrow>
    distinct (map step_id (steps spec)) \<and> (\<forall>st \<in> set (steps spec). step_part spec st)"
proof -
  have "clean (check_step spec st idx) \<longleftrightarrow>
      step_part spec st \<and> step_id st \<notin> set (take idx (map step_id (steps spec)))" for st idx
    unfolding check_step_clean step_part_def check_exits_clean check_waiting_clean
      check_dependencies_clean take_map by blast
  then show ?thesis
    unfolding clean_for_each distinct_conv_take all_set_conv_all_nth by auto
qed

lemma validate_ok_parts:
  "result_ok (validate seatAlive registered spec) \<longleftrightarrow>
    clean (check_entry spec) \<and> clean (for_each_step spec (check_step spec)) \<and>
    clean (for_each_step spec (check_suggested spec)) \<and> clean (for_each_step spec (check_branches spec)) \<and>
    clean (for_each_step spec (check_can_finish spec)) \<and> clean (check_graph spec) \<and>
    clean (for_each_step spec (check_host registered)) \<and> clean (for_each_step spec (check_gate spec))"
  by (simp add: validate_def Let_def validate_issues_def advisories_clean check_seats_clean)

lemma step_wf_parts:
  "(\<forall>st \<in> set (steps spec). step_wf spec registered st) \<longleftrightarrow>
    (\<forall>st \<in> set (steps spec). step_part spec st) \<and>
    clean (for_each_step spec (check_suggested spec)) \<and> clean (for_each_step spec (check_branches spec)) \<and>
    clean (for_each_step spec (check_can_finish spec)) \<and>
    clean (for_each_step spec (check_host registered)) \<and> clean (for_each_step spec (check_gate spec))"
  unfolding clean_for_each_step [OF check_suggested_clean] clean_for_each_step [OF check_branches_clean]
    clean_for_each_step [OF check_can_finish_clean] clean_for_each_step [OF check_host_clean]
    clean_for_each_step [OF check_gate_clean] step_part_def check_exits_clean check_waiting_clean
    check_dependencies_clean step_wf_def ball_conj_distrib [symmetric]
  by (intro ball_cong refl iffI; elim conjE; intro conjI; (assumption | simp))

section \<open>Properties\<close>

text \<open>C23: the validator accepts exactly the well-formed specifications: unique non-empty step ids,
  declared roles, an entry role that is the first step's, exits within the invariant, live edges
  and prerequisites, a way to finish every step, prerequisites without a cycle, every step
  reachable from the first one, and a routing cycle only under an enforceable \<open>max_hops\<close>. In
  particular the depth first search of the code is complete and its fuel suffices.\<close>

theorem validate_ok_iff:
  "result_ok (validate seatAlive registered spec) = spec_wf spec registered"
proof (cases "distinct (map step_id (steps spec)) \<and> (\<forall>st \<in> set (steps spec). step_part spec st)")
  case False
  then show ?thesis
    unfolding validate_ok_parts check_steps_clean spec_wf_def step_wf_parts by blast
next
  case True
  then have d: "distinct (map step_id (steps spec))"
    and ids: "\<forall>st \<in> set (steps spec). step_id st \<noteq> []"
    and actor: "\<forall>st \<in> set (steps spec). actor_role st \<noteq> []"
    and deps: "\<forall>st \<in> set (steps spec). set (dependencies st) \<subseteq> step_id ` set (steps spec)"
    by (auto simp: step_part_def check_dependencies_clean)
  show ?thesis
    unfolding validate_ok_parts check_steps_clean spec_wf_def step_wf_parts
      check_graph_clean [OF d ids deps] check_entry_clean [OF actor] using True by blast
qed

end
