(* ===== verification/Role_Resolver.thy ===== *)
theory Role_Resolver
  imports Workflow_Types
begin

text \<open>
  Role to seat selection (\<open>packages/daemon/src/domain/workflow-role-resolver.ts\<close>): the gates in
  their pinned order, then the least unclaimed backlog, then the coordinate by code point. The
  code promises that the order of the candidates never matters; the last section proves it by
  giving the selected seat as a function of the set of candidates.
\<close>

record seat_facts =
  logicalId :: string
  seat_role :: "string option"
  is_agent :: bool
  lifecycleState :: string
  runtime :: "string option"
  pendingWorkCount :: int
  coordinate :: "string option"
  rawSessionName :: "string option"

datatype disqualifier =
    Role_not_declared
  | Not_live string
  | Coordinate_underivable
  | Adopted_seat_not_role_resolvable_v1
  | Runtime_mismatch "string option" string

record candidate_verdict =
  v_coordinate :: "string option"
  v_logicalId :: string
  v_disqualifier :: disqualifier
  v_role :: "string option"
  v_lifecycle :: string
  v_runtime :: "string option"
  v_pending :: int

definition verdictOf :: "seat_facts \<Rightarrow> disqualifier \<Rightarrow> candidate_verdict" where
  "verdictOf c d = \<lparr>v_coordinate = coordinate c, v_logicalId = logicalId c, v_disqualifier = d,
     v_role = seat_role c, v_lifecycle = lifecycleState c, v_runtime = runtime c,
     v_pending = pendingWorkCount c\<rparr>"

text \<open>The gates on an agent seat: the first that refuses it, or none.\<close>

definition disqualify :: "string \<Rightarrow> string option \<Rightarrow> seat_facts \<Rightarrow> disqualifier option" where
  "disqualify role pin c =
    (if seat_role c \<noteq> Some role then Some Role_not_declared
     else if lifecycleState c \<noteq> ''running'' then Some (Not_live (lifecycleState c))
     else if coordinate c = None then Some Coordinate_underivable
     else if rawSessionName c \<noteq> None \<and> rawSessionName c \<noteq> coordinate c
       then Some Adopted_seat_not_role_resolvable_v1
     else if pin \<noteq> None \<and> runtime c \<noteq> pin then Some (Runtime_mismatch (runtime c) (the pin))
     else None)"

text \<open>The loop: disqualified verdicts and qualified seats, each in input order.\<close>

fun judge :: "string \<Rightarrow> string option \<Rightarrow> seat_facts list \<Rightarrow> candidate_verdict list \<times> seat_facts list" where
  "judge role pin [] = ([], [])"
| "judge role pin (c # cs) =
    (let (bad, good) = judge role pin cs
     in if \<not> is_agent c then (bad, good)
        else case disqualify role pin c of
            Some d \<Rightarrow> (verdictOf c d # bad, good)
          | None \<Rightarrow> (bad, c # good))"

definition rank :: "seat_facts \<Rightarrow> int \<times> string" where
  "rank c = (pendingWorkCount c, the (coordinate c))"

record role_selection =
  sel_seat :: "string option"
  sel_disqualified :: "candidate_verdict list"
  sel_qualified :: "(string \<times> string \<times> int) list"

definition selectRoleSeat :: "string \<Rightarrow> string option \<Rightarrow> seat_facts list \<Rightarrow> role_selection" where
  "selectRoleSeat role pin candidates =
    (let (bad, good) = judge role pin candidates;
         ranked = sort_key rank good
     in \<lparr>sel_seat = (case ranked of [] \<Rightarrow> None | c # _ \<Rightarrow> coordinate c),
         sel_disqualified = bad,
         sel_qualified = map (\<lambda>c. (the (coordinate c), logicalId c, pendingWorkCount c)) ranked\<rparr>)"

section \<open>Lemmas\<close>

definition qualifies :: "string \<Rightarrow> string option \<Rightarrow> seat_facts \<Rightarrow> bool" where
  "qualifies role pin c \<longleftrightarrow> is_agent c \<and> seat_role c = Some role \<and> lifecycleState c = ''running'' \<and>
     coordinate c \<noteq> None \<and> (rawSessionName c = None \<or> rawSessionName c = coordinate c) \<and>
     (pin = None \<or> runtime c = pin)"

lemma disqualify_None: "is_agent c \<and> disqualify role pin c = None \<longleftrightarrow> qualifies role pin c"
  by (auto simp: disqualify_def qualifies_def)

lemma judge_filter:
  "judge role pin cs =
    (map (\<lambda>c. verdictOf c (the (disqualify role pin c)))
       (filter (\<lambda>c. is_agent c \<and> disqualify role pin c \<noteq> None) cs),
     filter (qualifies role pin) cs)"
proof (induction cs)
  case Nil
  then show ?case by simp
next
  case (Cons c cs)
  then show ?case
    using disqualify_None [of c role pin] by (auto split: option.splits)
qed

lemma qualifies_coordinate: "qualifies role pin c \<Longrightarrow> coordinate c = Some (snd (rank c))"
  by (auto simp: qualifies_def rank_def)

lemma hd_sort_key_Min:
  fixes f :: "'a \<Rightarrow> 'b::linorder"
  assumes "xs \<noteq> []"
  shows "f (hd (sort_key f xs)) = Min (f ` set xs)"
proof -
  obtain y ys where y: "sort_key f xs = y # ys"
    using assms by (metis list.exhaust length_0_conv length_sort)
  have "sorted (map f (y # ys))" by (metis sorted_sort_key y)
  then have "\<forall>x \<in> set (y # ys). f y \<le> f x" by auto
  moreover have s: "set (y # ys) = set xs" by (metis set_sort y)
  moreover have "y \<in> set xs" by (metis s list.set_intros(1))
  ultimately have "Min (f ` set xs) = f y"
    by (intro Min_eqI) auto
  then show ?thesis by (simp add: y)
qed

section \<open>Properties\<close>

text \<open>The selected seat is the one with the least rank (pending work first, then the coordinate by
  code point) among the seats that pass every gate, and none when no seat does: it depends on
  the set of candidates only, never on their order or repetition; and every agent seat that is
  not qualified is reported with its facts.\<close>

theorem role_selection_spec:
  "sel_seat (selectRoleSeat role pin cs) =
     (if \<exists>c \<in> set cs. qualifies role pin c
      then Some (snd (Min (rank ` {c \<in> set cs. qualifies role pin c}))) else None)
   \<and> v_logicalId ` set (sel_disqualified (selectRoleSeat role pin cs)) =
     logicalId ` {c \<in> set cs. is_agent c \<and> \<not> qualifies role pin c}"
proof
  let ?good = "filter (qualifies role pin) cs"
  show "sel_seat (selectRoleSeat role pin cs) =
     (if \<exists>c \<in> set cs. qualifies role pin c
      then Some (snd (Min (rank ` {c \<in> set cs. qualifies role pin c}))) else None)"
  proof (cases "?good = []")
    case True
    then show ?thesis
      by (auto simp: selectRoleSeat_def judge_filter Let_def filter_empty_conv)
  next
    case False
    let ?r = "sort_key rank ?good"
    have ne: "?r \<noteq> []" using False by (metis length_0_conv length_sort)
    then have "qualifies role pin (hd ?r)"
      using hd_in_set [OF ne] by simp
    then have "coordinate (hd ?r) = Some (snd (rank (hd ?r)))" by (rule qualifies_coordinate)
    then have "sel_seat (selectRoleSeat role pin cs) = Some (snd (Min (rank ` set ?good)))"
      using ne hd_sort_key_Min [OF False, of rank]
      by (cases ?r) (simp_all add: selectRoleSeat_def judge_filter Let_def)
    moreover have "\<exists>c \<in> set cs. qualifies role pin c"
      using False by (auto simp: filter_empty_conv)
    ultimately show ?thesis by simp
  qed
next
  show "v_logicalId ` set (sel_disqualified (selectRoleSeat role pin cs)) =
     logicalId ` {c \<in> set cs. is_agent c \<and> \<not> qualifies role pin c}"
    using disqualify_None [of _ role pin]
    by (force simp: selectRoleSeat_def judge_filter Let_def verdictOf_def image_image)
qed

end
