(* ===== verification/Workflow_Deadline.thy ===== *)
theory Workflow_Deadline
  imports Workflow_Types
begin

text \<open>
  The step-deadline evaluator and the hop guard
  (\<open>packages/daemon/src/domain/workflow-deadline.ts\<close>): a pure verdict from the instance, its
  frontier packets and the clock. Packet states are the queue's state names.
\<close>

record deadline_instance =
  di_instanceId :: string
  di_status :: instance_status
  di_frontier :: "string list"
  di_currentStep :: "string option"

record deadline_packet =
  dp_qitemId :: string
  dp_state :: string
  dp_destination :: string
  dp_created :: timestamp
  dp_claimed :: "timestamp option"
  dp_closureRequired :: "timestamp option"

definition WORKFLOW_STEP_STUCK_THRESHOLD_SECONDS :: int where
  "WORKFLOW_STEP_STUCK_THRESHOLD_SECONDS = 4 * 60 * 60"

datatype deadline_state = Healthy | Overdue_claimed | Overdue_unclaimed

datatype anchor_kind = Anchor_closure_required_at | Anchor_claimed_at | Anchor_created_at

record deadline_evidence =
  ev_instanceId :: string
  ev_stepId :: "string option"
  ev_packetId :: string
  ev_owner :: string
  ev_packetState :: string
  ev_anchor :: anchor_kind
  ev_anchorAt :: timestamp
  ev_overdueBy :: int
  ev_age :: int
  ev_claimedAt :: "timestamp option"

record deadline_verdict =
  dv_state :: deadline_state
  dv_evidence :: "deadline_evidence option"

definition buildEvidence ::
  "deadline_instance \<Rightarrow> deadline_packet \<Rightarrow> timestamp \<Rightarrow> anchor_kind \<Rightarrow> timestamp \<Rightarrow> timestamp \<Rightarrow> deadline_evidence" where
  "buildEvidence inst packet now anchor anchorAt deadline =
    \<lparr>ev_instanceId = di_instanceId inst, ev_stepId = di_currentStep inst, ev_packetId = dp_qitemId packet,
     ev_owner = dp_destination packet, ev_packetState = dp_state packet, ev_anchor = anchor,
     ev_anchorAt = anchorAt, ev_overdueBy = max 0 ((now - deadline) div 1000),
     ev_age = max 0 ((now - dp_created packet) div 1000), ev_claimedAt = dp_claimed packet\<rparr>"

definition threshold_ms :: int where
  "threshold_ms = WORKFLOW_STEP_STUCK_THRESHOLD_SECONDS * 1000"

text \<open>The anchor of a claimed packet and the deadline it gives.\<close>

definition claimed_anchor :: "deadline_packet \<Rightarrow> anchor_kind \<times> timestamp \<times> timestamp" where
  "claimed_anchor p =
    (case dp_closureRequired p of
       Some t \<Rightarrow> (Anchor_closure_required_at, t, t)
     | None \<Rightarrow>
         (case dp_claimed p of
            Some t \<Rightarrow> (Anchor_claimed_at, t, t + threshold_ms)
          | None \<Rightarrow> (Anchor_created_at, dp_created p, dp_created p + threshold_ms)))"

fun scan_packets :: "deadline_instance \<Rightarrow> timestamp \<Rightarrow> deadline_packet option list \<Rightarrow> deadline_verdict" where
  "scan_packets inst now [] = \<lparr>dv_state = Healthy, dv_evidence = None\<rparr>"
| "scan_packets inst now (None # ps) = scan_packets inst now ps"
| "scan_packets inst now (Some p # ps) =
    (if dp_qitemId p \<notin> set (di_frontier inst) then scan_packets inst now ps
     else if dp_state p = ''in-progress'' then
       (let (anchor, anchorAt, deadline) = claimed_anchor p
        in if now \<ge> deadline
           then \<lparr>dv_state = Overdue_claimed, dv_evidence = Some (buildEvidence inst p now anchor anchorAt deadline)\<rparr>
           else scan_packets inst now ps)
     else if dp_state p = ''pending'' then
       (let deadline = dp_created p + threshold_ms
        in if now \<ge> deadline
           then \<lparr>dv_state = Overdue_unclaimed,
                 dv_evidence = Some (buildEvidence inst p now Anchor_created_at (dp_created p) deadline)\<rparr>
           else scan_packets inst now ps)
     else scan_packets inst now ps)"

definition evaluateStepDeadline ::
  "deadline_instance \<Rightarrow> deadline_packet option list \<Rightarrow> timestamp \<Rightarrow> deadline_verdict" where
  "evaluateStepDeadline inst packets now =
    (if di_status inst \<noteq> Inst_active \<and> di_status inst \<noteq> Inst_waiting
     then \<lparr>dv_state = Healthy, dv_evidence = None\<rparr>
     else scan_packets inst now packets)"

definition MAX_HOPS_BASELINE_V1 :: int where
  "MAX_HOPS_BASELINE_V1 = 0"

definition spec_max_hops :: "workflow_spec \<Rightarrow> hops_value option" where
  "spec_max_hops spec = (case loop_guards_of spec of None \<Rightarrow> None | Some g \<Rightarrow> max_hops g)"

definition exceedsMaxHops :: "int \<Rightarrow> int \<Rightarrow> hops_value option \<Rightarrow> bool" where
  "exceedsMaxHops hopCount baseline maxHops =
    (case maxHops of
       Some (Hops n) \<Rightarrow> if n < 1 then False else hopCount + 1 - baseline > n
     | _ \<Rightarrow> False)"

section \<open>Lemmas\<close>

text \<open>When a packet on the frontier falls due: never, unless it is claimed or pending.\<close>

definition due_at :: "deadline_packet \<Rightarrow> timestamp option" where
  "due_at p =
    (if dp_state p = ''in-progress''
     then Some (case dp_closureRequired p of Some t \<Rightarrow> t
       | None \<Rightarrow> or_default (dp_claimed p) (dp_created p) + 14400000)
     else if dp_state p = ''pending'' then Some (dp_created p + 14400000) else None)"

definition overdue :: "deadline_instance \<Rightarrow> timestamp \<Rightarrow> deadline_packet option \<Rightarrow> bool" where
  "overdue inst now x \<longleftrightarrow>
     (case x of None \<Rightarrow> False
      | Some p \<Rightarrow> dp_qitemId p \<in> set (di_frontier inst) \<and>
          (case due_at p of None \<Rightarrow> False | Some t \<Rightarrow> t \<le> now))"

lemma threshold_ms_eq: "threshold_ms = 14400000"
  by (simp add: threshold_ms_def WORKFLOW_STEP_STUCK_THRESHOLD_SECONDS_def)

lemma claimed_anchor_due:
  "dp_state p = ''in-progress'' \<Longrightarrow> due_at p = Some (snd (snd (claimed_anchor p)))"
  by (simp add: due_at_def claimed_anchor_def threshold_ms_eq split: option.split)

lemma scan_skip: "\<not> overdue inst now (Some p) \<Longrightarrow> scan_packets inst now (Some p # ps) = scan_packets inst now ps"
  using claimed_anchor_due [of p]
  by (auto simp: overdue_def due_at_def threshold_ms_eq Let_def split: prod.split)

lemma scan_hit:
  assumes "overdue inst now (Some p)"
  shows "dv_state (scan_packets inst now (Some p # ps))
      = (if dp_state p = ''in-progress'' then Overdue_claimed else Overdue_unclaimed)"
    and "map_option (\<lambda>e. (ev_packetId e, ev_overdueBy e)) (dv_evidence (scan_packets inst now (Some p # ps)))
      = Some (dp_qitemId p, (now - the (due_at p)) div 1000)"
proof -
  obtain t where t: "due_at p = Some t" "t \<le> now" "dp_qitemId p \<in> set (di_frontier inst)"
    using assms by (auto simp: overdue_def split: option.splits)
  show "dv_state (scan_packets inst now (Some p # ps))
      = (if dp_state p = ''in-progress'' then Overdue_claimed else Overdue_unclaimed)"
    using t claimed_anchor_due [of p]
    by (auto simp: due_at_def threshold_ms_eq Let_def split: prod.split if_splits)
  show "map_option (\<lambda>e. (ev_packetId e, ev_overdueBy e)) (dv_evidence (scan_packets inst now (Some p # ps)))
      = Some (dp_qitemId p, (now - the (due_at p)) div 1000)"
    using t claimed_anchor_due [of p]
    by (cases "dp_state p = ''in-progress''")
      (auto simp: due_at_def threshold_ms_eq Let_def buildEvidence_def pos_imp_zdiv_nonneg_iff
        split: prod.split if_splits)
qed

lemma scan_first_overdue:
  "(let v = scan_packets inst now ps; first = Option.bind (find (overdue inst now) ps) id
    in dv_state v = (case first of None \<Rightarrow> Healthy
         | Some p \<Rightarrow> if dp_state p = ''in-progress'' then Overdue_claimed else Overdue_unclaimed) \<and>
       map_option (\<lambda>e. (ev_packetId e, ev_overdueBy e)) (dv_evidence v) =
         map_option (\<lambda>p. (dp_qitemId p, (now - the (due_at p)) div 1000)) first)"
proof (induction ps)
  case Nil
  then show ?case by simp
next
  case (Cons x ps)
  show ?case
  proof (cases x)
    case None
    then show ?thesis using Cons by (simp add: overdue_def)
  next
    case (Some p)
    show ?thesis
    proof (cases "overdue inst now x")
      case True
      then show ?thesis using scan_hit [of inst now p ps] by (simp add: Some Let_def del: scan_packets.simps)
    next
      case False
      then show ?thesis
        using Cons scan_skip [of inst now p ps] by (simp add: Some Let_def del: scan_packets.simps)
    qed
  qed
qed

section \<open>Properties\<close>

text \<open>The verdict is exactly the deadline model: a live instance is overdue when some packet on its
  frontier is past its anchor (the recorded closure deadline, else four hours after the claim, else
  four hours after creation), the first such packet is the one reported, with the whole seconds it
  is late; blocked and closed packets, packets off the frontier, and finished instances are
  healthy.\<close>

theorem deadline_verdict_spec:
  "(let v = evaluateStepDeadline inst packets now;
        first = (if di_status inst \<in> {Inst_active, Inst_waiting}
                 then Option.bind (find (overdue inst now) packets) id else None)
    in dv_state v = (case first of None \<Rightarrow> Healthy
         | Some p \<Rightarrow> if dp_state p = ''in-progress'' then Overdue_claimed else Overdue_unclaimed) \<and>
       map_option (\<lambda>e. (ev_packetId e, ev_overdueBy e)) (dv_evidence v) =
         map_option (\<lambda>p. (dp_qitemId p, (now - the (due_at p)) div 1000)) first)"
  using scan_first_overdue [of inst now packets]
  by (simp add: evaluateStepDeadline_def Let_def)

text \<open>A hop guard trips exactly when it is a positive integer and one more hop would leave the
  window of that many hops since the baseline; a malformed or absent guard never trips.\<close>

theorem exceedsMaxHops_spec:
  "exceedsMaxHops hopCount baseline guard =
     (\<exists>n \<ge> 1. guard = Some (Hops n) \<and> n \<le> hopCount - baseline)"
  by (auto simp: exceedsMaxHops_def split: option.split hops_value.split)

end
