(* ===== verification/Workflow_Exception.thy ===== *)
theory Workflow_Exception
  imports Workflow_Deadline
begin

text \<open>
  The exception taxonomy (\<open>packages/daemon/src/domain/workflow-exception.ts\<close>), the maturity dial
  that maps a class to a destination (\<open>workflow-exception-router.ts\<close>) and the choice of a human
  destination (\<open>workflow-human-destination.ts\<close>, with \<open>resolveDefaultPerson\<close> of
  \<open>gateway/participants.ts\<close> over an already read participants file). The reason of an exception is
  kept as the data its text is made of.
\<close>

section \<open>Classification\<close>

datatype exception_class = Unmapped_failed | Stuck_overdue | Human_gate_trip

fun class_name :: "exception_class \<Rightarrow> string" where
  "class_name Unmapped_failed = ''unmapped_failed''"
| "class_name Stuck_overdue = ''stuck_overdue''"
| "class_name Human_gate_trip = ''human_gate_trip''"

record exception_identity =
  ei_workflow :: string
  ei_instance :: string
  ei_step :: "string option"
  ei_class :: exception_class
  ei_occurrence :: string

datatype exception_reason =
    Reason_failed "string option"
  | Reason_overdue deadline_state deadline_evidence
  | Reason_gate string "string option"

record workflow_exception =
  ex_identity :: exception_identity
  ex_reason :: exception_reason
  ex_evidence :: "deadline_evidence option"

record failure_view =
  fv_instance :: string
  fv_workflow :: string
  fv_step :: "string option"
  fv_packet :: string
  fv_reason :: "string option"

definition classifyFailureOccurrence :: "failure_view \<Rightarrow> workflow_exception" where
  "classifyFailureOccurrence view =
    \<lparr>ex_identity = \<lparr>ei_workflow = fv_workflow view, ei_instance = fv_instance view,
       ei_step = fv_step view, ei_class = Unmapped_failed, ei_occurrence = fv_packet view\<rparr>,
     ex_reason = Reason_failed (if truthy (fv_reason view) then fv_reason view else None),
     ex_evidence = None\<rparr>"

definition classifyFailedInstance :: "instance_status \<Rightarrow> failure_view \<Rightarrow> workflow_exception option" where
  "classifyFailedInstance status view =
    (if status \<noteq> Inst_failed then None else Some (classifyFailureOccurrence view))"

definition classifyDeadlineVerdict :: "string \<Rightarrow> deadline_verdict \<Rightarrow> workflow_exception option" where
  "classifyDeadlineVerdict workflow verdict =
    (if dv_state verdict = Healthy then None
     else case dv_evidence verdict of
         None \<Rightarrow> None
       | Some e \<Rightarrow> Some
           \<lparr>ex_identity = \<lparr>ei_workflow = workflow, ei_instance = ev_instanceId e, ei_step = ev_stepId e,
              ei_class = Stuck_overdue, ei_occurrence = ev_packetId e\<rparr>,
            ex_reason = Reason_overdue (dv_state verdict) e, ex_evidence = Some e\<rparr>)"

datatype gate_kind = Gate_human | Gate_handler_role

definition classifyGateTrip ::
  "string \<Rightarrow> string \<Rightarrow> string \<Rightarrow> gate_kind \<Rightarrow> string \<Rightarrow> string option \<Rightarrow> workflow_exception option" where
  "classifyGateTrip workflow inst gatedStep kind packet parkOn =
    (if kind \<noteq> Gate_human then None
     else Some
       \<lparr>ex_identity = \<lparr>ei_workflow = workflow, ei_instance = inst, ei_step = Some gatedStep,
          ei_class = Human_gate_trip, ei_occurrence = packet\<rparr>,
        ex_reason = Reason_gate gatedStep (if truthy parkOn then parkOn else None), ex_evidence = None\<rparr>)"

definition workflowExceptionTags :: "exception_identity \<Rightarrow> string list" where
  "workflowExceptionTags i =
    [''workflow-exception'', ''workflow:'' @ ei_workflow i, ''instance:'' @ ei_instance i] @
    (if truthy (ei_step i) then [''step:'' @ the (ei_step i)] else []) @
    [''exception:'' @ class_name (ei_class i), ''occurrence:'' @ ei_occurrence i]"

definition occurrenceDedupKey :: "exception_identity \<Rightarrow> string" where
  "occurrenceDedupKey i =
    ei_instance i @ ''|'' @ or_default (ei_step i) [] @ ''|'' @ class_name (ei_class i) @ ''|'' @ ei_occurrence i"

section \<open>The human destination\<close>

record human_entity =
  entityId :: string
  address :: string

datatype human_error = Human_unavailable | Registry_unavailable | Human_unregistered | Human_ambiguous | Human_missing

text \<open>\<open>side\<close> is the participants file's default, \<open>None\<close> when the file is unreadable or names none.\<close>

definition resolveDefaultPerson :: "string option \<Rightarrow> human_entity list \<Rightarrow> human_entity option" where
  "resolveDefaultPerson side entities =
    (case (if truthy side then find (\<lambda>e. Some (entityId e) = side) entities else None) of
       Some chosen \<Rightarrow> Some chosen
     | None \<Rightarrow> (case entities of [e] \<Rightarrow> Some e | _ \<Rightarrow> None))"

text \<open>\<open>identity_of\<close> is the person a session name addresses, as \<open>parseSessionName\<close> reads it.\<close>

definition resolveRegisteredHumanAddress ::
  "(string \<Rightarrow> string option) \<Rightarrow> string \<Rightarrow> human_entity list \<Rightarrow> string option" where
  "resolveRegisteredHumanAddress identity_of ref entities =
    (if ref = [] then None
     else case identity_of ref of
         None \<Rightarrow> None
       | Some i \<Rightarrow> if i = [] then None else map_option address (find (\<lambda>e. entityId e = i) entities))"

text \<open>The two reads, with \<open>None\<close> when one throws; a loaded registry is its entities or a failure.\<close>

definition resolveWorkflowHumanDestination ::
  "(string \<Rightarrow> string option) \<Rightarrow> string option \<Rightarrow> (string option \<times> human_entity list option) option
     \<Rightarrow> human_error + string" where
  "resolveWorkflowHumanDestination identity_of side reads =
    (case reads of
       None \<Rightarrow> Inl Human_unavailable
     | Some (_, None) \<Rightarrow> Inl Registry_unavailable
     | Some (selected, Some entities) \<Rightarrow>
         if \<not> blank selected then
           (case resolveRegisteredHumanAddress identity_of (trim (the selected)) entities of
              Some a \<Rightarrow> if a \<noteq> [] then Inr a else Inl Human_unregistered
            | None \<Rightarrow> Inl Human_unregistered)
         else
           (case resolveDefaultPerson side entities of
              Some e \<Rightarrow> Inr (address e)
            | None \<Rightarrow> Inl (if entities \<noteq> [] then Human_ambiguous else Human_missing)))"

section \<open>The dial\<close>

definition WORKFLOW_EXCEPTION_ORCHESTRATOR_TIER :: string where
  "WORKFLOW_EXCEPTION_ORCHESTRATOR_TIER = ''mode2''"

definition WORKFLOW_EXCEPTION_HUMAN_TIER :: string where
  "WORKFLOW_EXCEPTION_HUMAN_TIER = ''human-gate''"

datatype resolved_via = Class_intrinsic | Class_declared | Workflow_declared | Host_default | Engine_default

datatype route_position = Pos_orchestrator | Pos_human_only | Pos_fallback

record exception_route =
  route_position_of :: route_position
  route_destination :: string
  route_tier :: string
  humanRouted :: bool
  resolvedVia :: resolved_via

definition class_position :: "workflow_spec \<Rightarrow> exception_class \<Rightarrow> dial_position option" where
  "class_position spec c =
    (case exception_routing spec of
       None \<Rightarrow> None
     | Some r \<Rightarrow> (case er_classes r of None \<Rightarrow> None | Some m \<Rightarrow> map_of m (class_name c)))"

definition default_position :: "workflow_spec \<Rightarrow> dial_position option" where
  "default_position spec = (case exception_routing spec of None \<Rightarrow> None | Some r \<Rightarrow> er_default r)"

definition exceptionPolicy ::
  "exception_class \<Rightarrow> workflow_spec \<Rightarrow> dial_position option \<Rightarrow> dial_position \<times> resolved_via" where
  "exceptionPolicy c spec hostDefault =
    (if c = Human_gate_trip then (Human_only, Class_intrinsic)
     else case class_position spec c of
         Some p \<Rightarrow> (p, Class_declared)
       | None \<Rightarrow>
           (case default_position spec of
              Some p \<Rightarrow> (p, Workflow_declared)
            | None \<Rightarrow>
                (case hostDefault of
                   Some p \<Rightarrow> (p, Host_default)
                 | None \<Rightarrow> (Orchestrator, Engine_default))))"

definition orchestrator_target :: "workflow_spec \<Rightarrow> (string \<Rightarrow> string option) \<Rightarrow> string option" where
  "orchestrator_target spec resolveRoleTarget =
    (case exception_routing spec of
       None \<Rightarrow> None
     | Some r \<Rightarrow> if truthy (orchestrator_role r) then resolveRoleTarget (the (orchestrator_role r)) else None)"

text \<open>\<open>human\<close> is the lazily resolved human destination.\<close>

definition resolveExceptionRoute ::
  "exception_class \<Rightarrow> workflow_spec \<Rightarrow> dial_position option \<Rightarrow> (string \<Rightarrow> string option)
     \<Rightarrow> human_error + string \<Rightarrow> human_error + exception_route" where
  "resolveExceptionRoute c spec hostDefault resolveRoleTarget human =
    (let (pos, via) = exceptionPolicy c spec hostDefault;
         to_human = (\<lambda>position. case human of
             Inl e \<Rightarrow> Inl e
           | Inr a \<Rightarrow> Inr \<lparr>route_position_of = position, route_destination = a,
               route_tier = WORKFLOW_EXCEPTION_HUMAN_TIER, humanRouted = True, resolvedVia = via\<rparr>)
     in if pos = Human_only then to_human Pos_human_only
        else (let target = orchestrator_target spec resolveRoleTarget
              in if \<not> truthy target then to_human Pos_fallback
                 else Inr \<lparr>route_position_of = Pos_orchestrator, route_destination = the target,
                   route_tier = WORKFLOW_EXCEPTION_ORCHESTRATOR_TIER, humanRouted = False, resolvedVia = via\<rparr>))"

lemma dial_not_human: "p \<noteq> Human_only \<longleftrightarrow> p = Orchestrator"
  by (cases p) simp_all

section \<open>Properties\<close>

text \<open>The dial splits the tiers: an exception goes to a human, with the human-gate tier, exactly
  when its class is a human gate trip, the first declared position on the chain class, workflow,
  host says \<open>human_only\<close>, or the orchestrator role has no target; otherwise it goes to that target
  with the ordinary tier and the human configuration is never consulted. It fails exactly when a
  human is needed and none can be chosen.\<close>

theorem exception_route_spec:
  "resolveExceptionRoute c spec hostDefault roleTarget human =
    (let pos = (if c = Human_gate_trip then Human_only
         else or_default (nullish (class_position spec c)
            (nullish (default_position spec) hostDefault)) Orchestrator);
         via = snd (exceptionPolicy c spec hostDefault);
         direct = (pos = Orchestrator \<and> truthy (orchestrator_target spec roleTarget))
     in if direct
        then Inr \<lparr>route_position_of = Pos_orchestrator,
               route_destination = the (orchestrator_target spec roleTarget), route_tier = ''mode2'',
               humanRouted = False, resolvedVia = via\<rparr>
        else map_sum id (\<lambda>a. \<lparr>route_position_of = (if pos = Human_only then Pos_human_only else Pos_fallback),
               route_destination = a, route_tier = ''human-gate'', humanRouted = True, resolvedVia = via\<rparr>) human)"
  by (auto simp: resolveExceptionRoute_def exceptionPolicy_def WORKFLOW_EXCEPTION_HUMAN_TIER_def
      WORKFLOW_EXCEPTION_ORCHESTRATOR_TIER_def Let_def dial_not_human split: option.splits sum.splits)

lemma bar_split:
  "CHR ''|'' \<notin> set a \<Longrightarrow> CHR ''|'' \<notin> set b \<Longrightarrow>
    a @ CHR ''|'' # x = b @ CHR ''|'' # y \<longleftrightarrow> a = b \<and> x = y"
proof (induction a arbitrary: b)
  case Nil
  then show ?case by (cases b) auto
next
  case (Cons c a)
  then show ?case by (cases b) auto
qed

lemma class_name_bar: "CHR ''|'' \<notin> set (class_name c)"
  by (cases c) simp_all

lemma class_name_inj: "class_name c = class_name d \<longleftrightarrow> c = d"
  by (cases c; cases d) simp_all

text \<open>The dedup key identifies the episode: two exceptions have the same key exactly when they
  have the same instance, step, class and packet (ids that contain no bar, and no empty step id).\<close>

theorem occurrence_key_exact:
  assumes "CHR ''|'' \<notin> set (ei_instance i)" "CHR ''|'' \<notin> set (ei_instance j)"
    and "CHR ''|'' \<notin> set (or_default (ei_step i) [])" "CHR ''|'' \<notin> set (or_default (ei_step j) [])"
    and "ei_step i \<noteq> Some []" "ei_step j \<noteq> Some []"
  shows "occurrenceDedupKey i = occurrenceDedupKey j \<longleftrightarrow>
    ei_instance i = ei_instance j \<and> ei_step i = ei_step j \<and> ei_class i = ei_class j \<and>
    ei_occurrence i = ei_occurrence j"
proof -
  have "occurrenceDedupKey i = occurrenceDedupKey j \<longleftrightarrow>
      ei_instance i = ei_instance j \<and> or_default (ei_step i) [] = or_default (ei_step j) [] \<and>
      ei_class i = ei_class j \<and> ei_occurrence i = ei_occurrence j"
    by (simp add: occurrenceDedupKey_def bar_split assms(1-4) class_name_bar class_name_inj)
  then show ?thesis
    using assms(5,6) by (cases "ei_step i"; cases "ei_step j") auto
qed

theorem occurrence_key_exact_witness:
  "occurrenceDedupKey \<lparr>ei_workflow = ''w'', ei_instance = ''i1'', ei_step = Some ''a'',
      ei_class = Stuck_overdue, ei_occurrence = ''q1''\<rparr> \<noteq>
   occurrenceDedupKey \<lparr>ei_workflow = ''w'', ei_instance = ''i1'', ei_step = Some ''a'',
      ei_class = Stuck_overdue, ei_occurrence = ''q2''\<rparr>"
  by (subst occurrence_key_exact) simp_all

end
