(* ===== verification/Workflow_Scope.thy ===== *)
theory Workflow_Scope
  imports Prelude
begin

text \<open>
  The scope of a workflow instance (\<open>packages/daemon/src/domain/workflow-scope.ts\<close>): the project,
  mission and slice it works for and its free-form tags, parsed from untyped request fields and
  printed as the tags of every packet; and the gate predicate over those tags
  (\<open>gate-predicate.ts\<close>). A request value is a string or something else; \<open>None\<close> is null or absent.
\<close>

section \<open>Normalising\<close>

datatype scope_key = Key_project | Key_mission | Key_slice

fun key_name :: "scope_key \<Rightarrow> string" where
  "key_name Key_project = ''project''"
| "key_name Key_mission = ''mission''"
| "key_name Key_slice = ''slice''"

definition SCOPE_KEYS :: "scope_key list" where
  "SCOPE_KEYS = [Key_project, Key_mission, Key_slice]"

datatype scope_value = Sv_string string | Sv_other

datatype scope_error =
    Scope_id_invalid scope_key
  | Scope_tag_invalid
  | Scope_tag_contradiction
  | Scope_tag_duplicate_key
  | Scope_tag_reserved

record workflow_scope =
  sc_ids :: "scope_key \<rightharpoonup> string"
  sc_tags :: "string list"
  stepSlices :: "(string \<times> string) list"

definition alnum :: "char \<Rightarrow> bool" where
  "alnum c = (let n = of_char c :: nat in
     (65 \<le> n \<and> n \<le> 90) \<or> (97 \<le> n \<and> n \<le> 122) \<or> (48 \<le> n \<and> n \<le> 57))"

definition id_char :: "char \<Rightarrow> bool" where
  "id_char c \<longleftrightarrow> alnum c \<or> c \<in> {CHR ''.'', CHR ''_'', CHR ''-''}"

text \<open>The patterns \<open>PROJECT_ID\<close> and \<open>NODE_ID\<close>: a letter or digit, then up to n more characters.\<close>

definition id_shape :: "nat \<Rightarrow> string \<Rightarrow> bool" where
  "id_shape n s = (case s of [] \<Rightarrow> False | c # cs \<Rightarrow> alnum c \<and> list_all id_char cs \<and> length cs \<le> n)"

definition isProjectId :: "string \<Rightarrow> bool" where
  "isProjectId = id_shape 63"

definition isNodeId :: "string \<Rightarrow> bool" where
  "isNodeId = id_shape 127"

fun key_pattern :: "scope_key \<Rightarrow> string \<Rightarrow> bool" where
  "key_pattern Key_project = isProjectId"
| "key_pattern Key_mission = isNodeId"
| "key_pattern Key_slice = isNodeId"

definition RESERVED_TAGS :: "string list" where
  "RESERVED_TAGS = [''workflow'', ''handoff'', ''gate'', ''entry'', ''resume'', ''re-route'', ''workflow-exception'']"

definition RESERVED_PREFIXES :: "string list" where
  "RESERVED_PREFIXES = [''workflow:'', ''instance:'', ''step:'', ''exception:'', ''occurrence:'', ''recovery-for:'']"

definition reserved_tag :: "string \<Rightarrow> bool" where
  "reserved_tag t \<longleftrightarrow> t \<in> set RESERVED_TAGS \<or> (\<exists>p \<in> set RESERVED_PREFIXES. prefix p t)"

definition key_prefix :: "scope_key \<Rightarrow> string" where
  "key_prefix k = key_name k @ '':''"

definition split_char :: "char \<Rightarrow> bool" where
  "split_char c \<longleftrightarrow> js_space c \<or> c = CHR '',''"

text \<open>The first loop: the flag values.\<close>

fun scope_flags :: "(scope_key \<Rightarrow> scope_value option) \<Rightarrow> scope_key list \<Rightarrow> (scope_key \<rightharpoonup> string)
    \<Rightarrow> scope_error + (scope_key \<rightharpoonup> string)" where
  "scope_flags input [] ids = Inr ids"
| "scope_flags input (k # ks) ids =
    (case input k of
       None \<Rightarrow> scope_flags input ks ids
     | Some Sv_other \<Rightarrow> Inl (Scope_id_invalid k)
     | Some (Sv_string v) \<Rightarrow>
         if \<not> key_pattern k v then Inl (Scope_id_invalid k) else scope_flags input ks (ids(k \<mapsto> v)))"

text \<open>The second loop: the tags, against the flags and the ids read so far.\<close>

definition scope_tag_step :: "(scope_key \<rightharpoonup> string) \<Rightarrow> string \<Rightarrow> (scope_key \<rightharpoonup> string) \<Rightarrow> string list
    \<Rightarrow> scope_error + (scope_key \<rightharpoonup> string) \<times> string list" where
  "scope_tag_step flagged raw ids tags =
    (let tag = trim raw in
     if tag = [] then Inr (ids, tags)
     else if \<exists>c \<in> set tag. split_char c then Inl Scope_tag_invalid
     else case find (\<lambda>k. prefix (key_prefix k) tag) SCOPE_KEYS of
         Some key \<Rightarrow>
           (let value = drop (length (key_prefix key)) tag in
            if \<not> key_pattern key value then Inl Scope_tag_invalid
            else if flagged key \<noteq> None \<and> flagged key \<noteq> Some value then Inl Scope_tag_contradiction
            else if ids key \<noteq> None \<and> ids key \<noteq> Some value then Inl Scope_tag_duplicate_key
            else Inr (ids(key \<mapsto> value), tags))
       | None \<Rightarrow>
           if reserved_tag tag then Inl Scope_tag_reserved
           else Inr (ids, if tag \<in> set tags then tags else tags @ [tag]))"

fun scope_tag_loop :: "(scope_key \<rightharpoonup> string) \<Rightarrow> scope_value list \<Rightarrow> (scope_key \<rightharpoonup> string) \<Rightarrow> string list
    \<Rightarrow> scope_error + (scope_key \<rightharpoonup> string) \<times> string list" where
  "scope_tag_loop flagged [] ids tags = Inr (ids, tags)"
| "scope_tag_loop flagged (Sv_other # rest) ids tags = Inl Scope_tag_invalid"
| "scope_tag_loop flagged (Sv_string raw # rest) ids tags =
    (case scope_tag_step flagged raw ids tags of
       Inl e \<Rightarrow> Inl e
     | Inr (ids', tags') \<Rightarrow> scope_tag_loop flagged rest ids' tags')"

text \<open>\<open>tags\<close> is absent, not an array (\<open>Inl\<close>), or an array of values.\<close>

definition normalizeWorkflowScope ::
  "(scope_key \<Rightarrow> scope_value option) \<Rightarrow> (unit + scope_value list) option \<Rightarrow> (string \<times> string) list
     \<Rightarrow> scope_error + workflow_scope option" where
  "normalizeWorkflowScope input tags slices =
    (case scope_flags input SCOPE_KEYS Map.empty of
       Inl e \<Rightarrow> Inl e
     | Inr flagged \<Rightarrow>
         (case or_default tags (Inr []) of
            Inl _ \<Rightarrow> Inl Scope_tag_invalid
          | Inr raws \<Rightarrow>
              (case scope_tag_loop flagged raws flagged [] of
                 Inl e \<Rightarrow> Inl e
               | Inr (ids, free) \<Rightarrow>
                   if (\<forall>k \<in> set SCOPE_KEYS. ids k = None) \<and> free = [] \<and> slices = [] then Inr None
                   else Inr (Some \<lparr>sc_ids = ids, sc_tags = free, stepSlices = slices\<rparr>))))"

section \<open>Printing\<close>

definition key_tag :: "scope_key \<Rightarrow> string option \<Rightarrow> string list" where
  "key_tag k v = (if truthy v then [key_prefix k @ the v] else [])"

fun add_new :: "string list \<Rightarrow> string list \<Rightarrow> string list" where
  "add_new [] out = out"
| "add_new (t # ts) out = add_new ts (if t \<in> set out then out else out @ [t])"

definition workflowScopeTags :: "workflow_scope option \<Rightarrow> string option \<Rightarrow> string list" where
  "workflowScopeTags scope stepSlice =
    (let ids = (case scope of None \<Rightarrow> Map.empty | Some s \<Rightarrow> sc_ids s);
         slice = nullish (ids Key_slice) stepSlice
     in add_new (case scope of None \<Rightarrow> [] | Some s \<Rightarrow> sc_tags s)
          (key_tag Key_project (ids Key_project) @ key_tag Key_mission (ids Key_mission) @
           key_tag Key_slice slice))"

definition packetScopeTags :: "workflow_scope option \<Rightarrow> string option \<Rightarrow> string list" where
  "packetScopeTags scope stepId =
    workflowScopeTags scope
      (case scope of
         None \<Rightarrow> None
       | Some s \<Rightarrow> if truthy stepId then map_of (stepSlices s) (the stepId) else None)"

definition lifecycleScope :: "string \<Rightarrow> string \<Rightarrow> (string \<times> string) list \<Rightarrow> scope_error + workflow_scope option" where
  "lifecycleScope project mission slices =
    normalizeWorkflowScope
      (\<lambda>k. case k of
         Key_project \<Rightarrow> if isProjectId project then Some (Sv_string project) else None
       | Key_mission \<Rightarrow> if isNodeId mission then Some (Sv_string mission) else None
       | Key_slice \<Rightarrow> None) None slices"

section \<open>The gate predicate\<close>

definition GATE_TAG_PREFIX :: string where
  "GATE_TAG_PREFIX = ''gate:''"

definition HUMAN_GATE_TIER :: string where
  "HUMAN_GATE_TIER = ''human-gate''"

definition isGateTag :: "string \<Rightarrow> bool" where
  "isGateTag t \<longleftrightarrow> prefix GATE_TAG_PREFIX t \<and> length t > length GATE_TAG_PREFIX"

fun gate_role_loop :: "string list \<Rightarrow> string list \<Rightarrow> string list" where
  "gate_role_loop [] found = found"
| "gate_role_loop (t # ts) found =
    gate_role_loop ts
      (if isGateTag t \<and> drop (length GATE_TAG_PREFIX) t \<notin> set found
       then found @ [drop (length GATE_TAG_PREFIX) t] else found)"

definition gateRolesOf :: "string list option \<Rightarrow> string list" where
  "gateRolesOf tags = (case tags of None \<Rightarrow> [] | Some ts \<Rightarrow> gate_role_loop ts [])"

definition qitemIsGated :: "string list option \<Rightarrow> string option \<Rightarrow> bool" where
  "qitemIsGated tags tier \<longleftrightarrow> gateRolesOf tags \<noteq> [] \<or> tier = Some HUMAN_GATE_TIER"

definition effectiveGateRoles :: "string list option \<Rightarrow> string option \<Rightarrow> string list" where
  "effectiveGateRoles tags tier =
    (let found = gateRolesOf tags
     in if tier = Some HUMAN_GATE_TIER \<and> ''human'' \<notin> set found then found @ [''human''] else found)"

section \<open>Lemmas\<close>

lemma gate_role_loop_set:
  "set (gate_role_loop ts found) = set found \<union> {r. r \<noteq> [] \<and> GATE_TAG_PREFIX @ r \<in> set ts}"
proof (induction ts arbitrary: found)
  case Nil
  then show ?case by simp
next
  case (Cons t ts)
  show ?case
  proof (cases "isGateTag t")
    case True
    then obtain r where "t = GATE_TAG_PREFIX @ r" "r \<noteq> []"
      by (auto simp: isGateTag_def prefix_def)
    then show ?thesis using Cons True by auto
  next
    case False
    then have "r \<noteq> [] \<Longrightarrow> t \<noteq> GATE_TAG_PREFIX @ r" for r by (auto simp: isGateTag_def)
    then show ?thesis using Cons False by auto
  qed
qed

lemma gate_role_loop_distinct: "distinct found \<Longrightarrow> distinct (gate_role_loop ts found)"
  by (induction ts arbitrary: found) auto

text \<open>What a normalised scope satisfies.\<close>

definition free_tag :: "string \<Rightarrow> bool" where
  "free_tag t \<longleftrightarrow> t \<noteq> [] \<and> (\<forall>c \<in> set t. \<not> split_char c) \<and>
     (\<forall>k \<in> set SCOPE_KEYS. \<not> prefix (key_prefix k) t) \<and> \<not> reserved_tag t"

definition scope_ok :: "workflow_scope \<Rightarrow> bool" where
  "scope_ok s \<longleftrightarrow> (\<forall>k v. sc_ids s k = Some v \<longrightarrow> key_pattern k v) \<and>
     distinct (sc_tags s) \<and> (\<forall>t \<in> set (sc_tags s). free_tag t) \<and>
     (sc_ids s \<noteq> Map.empty \<or> sc_tags s \<noteq> [] \<or> stepSlices s \<noteq> [])"

lemma scope_flags_ok:
  "scope_flags input ks ids = Inr ids' \<Longrightarrow> \<forall>k v. ids k = Some v \<longrightarrow> key_pattern k v \<Longrightarrow>
    ids' k = Some v \<Longrightarrow> key_pattern k v"
  by (induction input ks ids rule: scope_flags.induct)
    (auto split: option.splits scope_value.splits if_splits)

definition parsed_ok :: "(scope_key \<rightharpoonup> string) \<Rightarrow> string list \<Rightarrow> bool" where
  "parsed_ok ids tags \<longleftrightarrow> (\<forall>k v. ids k = Some v \<longrightarrow> key_pattern k v) \<and>
     distinct tags \<and> (\<forall>t \<in> set tags. free_tag t)"

lemma scope_tag_step_ok:
  "scope_tag_step flagged raw ids tags = Inr (ids', tags') \<Longrightarrow> parsed_ok ids tags \<Longrightarrow> parsed_ok ids' tags'"
  by (auto simp: scope_tag_step_def parsed_ok_def Let_def free_tag_def find_None_iff
      split: if_splits option.splits)

lemma scope_tag_loop_ok:
  "scope_tag_loop flagged raws ids tags = Inr (ids', tags') \<Longrightarrow> parsed_ok ids tags \<Longrightarrow> parsed_ok ids' tags'"
  by (induction flagged raws ids tags rule: scope_tag_loop.induct)
    (auto split: sum.splits dest: scope_tag_step_ok)

lemma normalize_ok:
  assumes n: "normalizeWorkflowScope input tags slices = Inr (Some s)"
  shows "scope_ok s"
proof -
  obtain flagged where f: "scope_flags input SCOPE_KEYS Map.empty = Inr flagged"
    using n by (cases "scope_flags input SCOPE_KEYS Map.empty") (auto simp: normalizeWorkflowScope_def)
  obtain raws where r: "or_default tags (Inr []) = Inr raws"
    using n by (cases "or_default tags (Inr [])") (auto simp: normalizeWorkflowScope_def f)
  obtain ids free where l: "scope_tag_loop flagged raws flagged [] = Inr (ids, free)"
    using n by (cases "scope_tag_loop flagged raws flagged []") (auto simp: normalizeWorkflowScope_def f r)
  have ne: "\<not> ((\<forall>k \<in> set SCOPE_KEYS. ids k = None) \<and> free = [] \<and> slices = [])"
    and s: "s = \<lparr>sc_ids = ids, sc_tags = free, stepSlices = slices\<rparr>"
    using n by (simp_all add: normalizeWorkflowScope_def f r l split: if_splits)
  have "parsed_ok flagged []"
    using scope_flags_ok [OF f] by (auto simp: parsed_ok_def)
  with l have "parsed_ok ids free" by (rule scope_tag_loop_ok)
  moreover have "ids \<noteq> Map.empty \<or> free \<noteq> [] \<or> slices \<noteq> []" using ne by auto
  ultimately show ?thesis by (simp add: s scope_ok_def parsed_ok_def)
qed

section \<open>Reading the printed tags back\<close>

lemma id_char_not_split: "id_char c \<Longrightarrow> \<not> split_char c"
  by (auto simp: id_char_def alnum_def split_char_def js_space_def Let_def)

lemma trim_no_split: "(\<forall>c \<in> set t. \<not> split_char c) \<Longrightarrow> trim t = t"
proof -
  assume h: "\<forall>c \<in> set t. \<not> split_char c"
  have "dropWhile js_space xs = xs" if "set xs \<subseteq> set t" for xs
    using that h by (cases xs) (auto simp: split_char_def)
  then show ?thesis by (simp add: trim_def)
qed

lemma key_pattern_shape: "key_pattern k v \<Longrightarrow> v \<noteq> [] \<and> (\<forall>c \<in> set v. id_char c)"
  by (cases k; cases v) (auto simp: isProjectId_def isNodeId_def id_shape_def id_char_def list_all_iff)

lemma find_key_tag: "find (\<lambda>k'. prefix (key_prefix k') (key_prefix k @ v)) SCOPE_KEYS = Some k"
  by (cases k) (simp_all add: SCOPE_KEYS_def key_prefix_def)

lemma step_key_tag:
  assumes "key_pattern k v" and "ids k = None \<or> ids k = Some v" and "flagged k = None"
  shows "scope_tag_step flagged (key_prefix k @ v) ids tags = Inr (ids(k \<mapsto> v), tags)"
proof -
  have "\<forall>c \<in> set (key_prefix k). \<not> split_char c"
    by (cases k) (auto simp: key_prefix_def split_char_def js_space_def)
  then have ns: "\<forall>c \<in> set (key_prefix k @ v). \<not> split_char c"
    using key_pattern_shape [OF assms(1)] id_char_not_split by auto
  have "key_prefix k @ v \<noteq> []" by (cases k) (simp_all add: key_prefix_def)
  then show ?thesis
    using ns assms by (auto simp: scope_tag_step_def Let_def trim_no_split find_key_tag)
qed

lemma step_free_tag:
  assumes "free_tag t"
  shows "scope_tag_step flagged t ids tags = Inr (ids, if t \<in> set tags then tags else tags @ [t])"
proof -
  have "find (\<lambda>k. prefix (key_prefix k) t) SCOPE_KEYS = None"
    using assms by (auto simp: free_tag_def find_None_iff)
  then show ?thesis
    using assms by (auto simp: scope_tag_step_def Let_def trim_no_split free_tag_def)
qed

lemma loop_free_tags:
  "\<forall>t \<in> set ts. free_tag t \<Longrightarrow> distinct (tags @ ts) \<Longrightarrow>
    scope_tag_loop flagged (map Sv_string ts) ids tags = Inr (ids, tags @ ts)"
proof (induction ts arbitrary: tags)
  case Nil
  then show ?case by simp
next
  case (Cons t ts)
  then show ?case using Cons.IH [of "tags @ [t]"] by (simp add: step_free_tag)
qed

lemma add_new_disjoint: "distinct ts \<Longrightarrow> set ts \<inter> set out = {} \<Longrightarrow> add_new ts out = out @ ts"
proof (induction ts arbitrary: out)
  case Nil
  then show ?case by simp
next
  case (Cons t ts)
  then show ?case using Cons.IH [of "out @ [t]"] by simp
qed

definition id_tags :: "(scope_key \<rightharpoonup> string) \<Rightarrow> string list" where
  "id_tags ids = key_tag Key_project (ids Key_project) @ key_tag Key_mission (ids Key_mission) @
     key_tag Key_slice (ids Key_slice)"

lemma loop_append:
  "scope_tag_loop flagged (xs @ ys) ids tags =
    (case scope_tag_loop flagged xs ids tags of Inl e \<Rightarrow> Inl e
     | Inr (ids', tags') \<Rightarrow> scope_tag_loop flagged ys ids' tags')"
  by (induction flagged xs ids tags rule: scope_tag_loop.induct) (auto split: sum.splits)

lemma loop_key_tag:
  assumes "\<And>v. w = Some v \<Longrightarrow> key_pattern k v" and "ids k = None" and "flagged k = None"
  shows "scope_tag_loop flagged (map Sv_string (key_tag k w)) ids tags = Inr (ids(k := w), tags)"
proof (cases w)
  case None
  then show ?thesis using assms(2) by (simp add: key_tag_def fun_upd_idem)
next
  case (Some v)
  then have "v \<noteq> []" using key_pattern_shape [of k v] assms(1) by blast
  then show ?thesis using Some assms step_key_tag [of k v ids flagged tags] by (simp add: key_tag_def)
qed

lemma loop_id_tags:
  assumes "\<forall>k v. ids k = Some v \<longrightarrow> key_pattern k v"
  shows "scope_tag_loop Map.empty (map Sv_string (id_tags ids)) Map.empty [] = Inr (ids, [])"
proof -
  have "ids = Map.empty(Key_project := ids Key_project, Key_mission := ids Key_mission,
      Key_slice := ids Key_slice)"
  proof
    fix k show "ids k = (Map.empty(Key_project := ids Key_project, Key_mission := ids Key_mission,
      Key_slice := ids Key_slice)) k" by (cases k) simp_all
  qed
  moreover have "scope_tag_loop Map.empty (map Sv_string (id_tags ids)) Map.empty [] =
      Inr (Map.empty(Key_project := ids Key_project, Key_mission := ids Key_mission,
        Key_slice := ids Key_slice), [])"
  proof -
    note tag = loop_key_tag [where flagged = Map.empty and tags = "[]"]
    have 1: "scope_tag_loop Map.empty (map Sv_string (key_tag Key_project (ids Key_project))) Map.empty []
        = Inr (Map.empty(Key_project := ids Key_project), [])"
      by (rule tag) (use assms in \<open>auto simp del: key_pattern.simps\<close>)
    have 2: "scope_tag_loop Map.empty (map Sv_string (key_tag Key_mission (ids Key_mission)))
        (Map.empty(Key_project := ids Key_project)) []
        = Inr (Map.empty(Key_project := ids Key_project, Key_mission := ids Key_mission), [])"
      by (rule tag) (use assms in \<open>auto simp del: key_pattern.simps\<close>)
    have 3: "scope_tag_loop Map.empty (map Sv_string (key_tag Key_slice (ids Key_slice)))
        (Map.empty(Key_project := ids Key_project, Key_mission := ids Key_mission)) []
        = Inr (Map.empty(Key_project := ids Key_project, Key_mission := ids Key_mission,
          Key_slice := ids Key_slice), [])"
      by (rule tag) (use assms in \<open>auto simp del: key_pattern.simps\<close>)
    show ?thesis by (simp only: id_tags_def map_append loop_append 1 2 3 sum.case prod.case)
  qed
  ultimately show ?thesis by simp
qed

lemma printed_tags:
  assumes "scope_ok s"
  shows "workflowScopeTags (Some s) None = id_tags (sc_ids s) @ sc_tags s"
proof -
  have "\<not> free_tag t" if "t \<in> set (id_tags (sc_ids s))" for t
    using that by (auto simp: id_tags_def key_tag_def free_tag_def SCOPE_KEYS_def split: if_splits)
  then have "set (sc_tags s) \<inter> set (id_tags (sc_ids s)) = {}"
    using assms by (auto simp: scope_ok_def)
  then show ?thesis
    using assms add_new_disjoint [of "sc_tags s"]
    by (simp add: workflowScopeTags_def id_tags_def scope_ok_def Let_def)
qed

section \<open>Properties\<close>

text \<open>Printing and parsing a scope is a round trip: the tags stamped on a packet of an accepted
  scope, given back as request tags, are accepted and normalise to the same project, mission,
  slice and free tags; so no stamped tag is reserved, malformed, repeated or contradictory.\<close>

theorem scope_tags_roundtrip:
  assumes "normalizeWorkflowScope input tags slices = Inr (Some s)"
    and "sc_ids s \<noteq> Map.empty \<or> sc_tags s \<noteq> []"
  shows "normalizeWorkflowScope (\<lambda>_. None)
      (Some (Inr (map Sv_string (workflowScopeTags (Some s) None)))) (stepSlices s) = Inr (Some s)"
proof -
  have ok: "scope_ok s" by (rule normalize_ok [OF assms(1)])
  have flags: "scope_flags (\<lambda>_. None) SCOPE_KEYS Map.empty = Inr Map.empty"
    by (simp add: SCOPE_KEYS_def)
  have loop: "scope_tag_loop Map.empty (map Sv_string (workflowScopeTags (Some s) None)) Map.empty []
      = Inr (sc_ids s, sc_tags s)"
    using ok by (simp add: printed_tags loop_append loop_id_tags loop_free_tags scope_ok_def)
  have "\<not> ((\<forall>k \<in> set SCOPE_KEYS. sc_ids s k = None) \<and> sc_tags s = [] \<and> stepSlices s = [])"
  proof
    assume h: "(\<forall>k \<in> set SCOPE_KEYS. sc_ids s k = None) \<and> sc_tags s = [] \<and> stepSlices s = []"
    have "sc_ids s k = None" for k using h by (cases k) (simp_all add: SCOPE_KEYS_def)
    then show False using h assms(2) by (auto simp: fun_eq_iff)
  qed
  then show ?thesis by (simp add: normalizeWorkflowScope_def flags loop)
qed

theorem scope_tags_roundtrip_witness:
  "normalizeWorkflowScope (\<lambda>_. None)
     (Some (Inr (map Sv_string (workflowScopeTags (Some
        \<lparr>sc_ids = [Key_project \<mapsto> ''p1''], sc_tags = [''blue''], stepSlices = []\<rparr>) None)))) []
   = Inr (Some \<lparr>sc_ids = [Key_project \<mapsto> ''p1''], sc_tags = [''blue''], stepSlices = []\<rparr>)"
proof -
  let ?s = "\<lparr>sc_ids = [Key_project \<mapsto> ''p1''], sc_tags = [''blue''], stepSlices = []\<rparr>"
  have "normalizeWorkflowScope (\<lambda>_. None)
      (Some (Inr [Sv_string '' blue '', Sv_string ''project:p1'', Sv_string ''blue''])) [] = Inr (Some ?s)"
    by (simp add: normalizeWorkflowScope_def SCOPE_KEYS_def scope_tag_step_def trim_def js_space_def
        split_char_def key_prefix_def reserved_tag_def RESERVED_TAGS_def RESERVED_PREFIXES_def
        isProjectId_def id_shape_def alnum_def id_char_def Let_def)
  then have "normalizeWorkflowScope (\<lambda>_. None)
      (Some (Inr (map Sv_string (workflowScopeTags (Some ?s) None)))) (stepSlices ?s) = Inr (Some ?s)"
    by (rule scope_tags_roundtrip) simp
  then show ?thesis by simp
qed

text \<open>The effective gate roles of a queue item are, without repetition, the roles of its well-formed
  \<open>gate:<role>\<close> tags plus \<open>human\<close> for the human-gate tier, and the item is gate work exactly when
  there is one.\<close>

theorem gate_roles_spec:
  "distinct (effectiveGateRoles tags tier) \<and>
   set (effectiveGateRoles tags tier) =
     {r. r \<noteq> [] \<and> ''gate:'' @ r \<in> set (or_default tags [])} \<union> (if tier = Some ''human-gate'' then {''human''} else {}) \<and>
   qitemIsGated tags tier = (effectiveGateRoles tags tier \<noteq> [])"
proof -
  have "distinct (gateRolesOf tags)"
    by (simp add: gateRolesOf_def gate_role_loop_distinct split: option.split)
  moreover have roles: "set (gateRolesOf tags) = {r. r \<noteq> [] \<and> ''gate:'' @ r \<in> set (or_default tags [])}"
    by (cases tags) (auto simp: gateRolesOf_def gate_role_loop_set GATE_TAG_PREFIX_def)
  moreover have "''gate:human'' \<in> set (or_default tags []) \<Longrightarrow> ''human'' \<in> set (gateRolesOf tags)"
    unfolding roles by simp
  then have "''gate:human'' \<in> set (or_default tags []) \<Longrightarrow> gateRolesOf tags \<noteq> []" by force
  ultimately show ?thesis
    by (simp add: effectiveGateRoles_def qitemIsGated_def HUMAN_GATE_TIER_def Let_def insert_absorb)
qed

end
