(* ===== verification/Session_Name.thy ===== *)
theory Session_Name
  imports Human_Route
begin

text \<open>
  Session names (\<open>packages/daemon/src/domain/session-name.ts\<close>): deriving the canonical
  \<open>pod-member@rig\<close> form and the legacy \<open>rNN-suffix\<close> form, validating them, and the one parser that
  classifies a reference. In a regular expression \<open>.\<close> is any character but a line end.
\<close>

definition digit :: "char \<Rightarrow> bool" where
  "digit c = (let n = of_char c :: nat in 48 \<le> n \<and> n \<le> 57)"

definition line_end :: "char \<Rightarrow> bool" where
  "line_end c = (c = CHR 0x0A \<or> c = CHR 0x0D)"

text \<open>\<open>LEGACY_SESSION_NAME_PATTERN\<close> and \<open>MANAGED_STEM_PATTERN\<close>.\<close>

definition legacy_name :: "string \<Rightarrow> bool" where
  "legacy_name s = (case s of
     r # a # b # d # rest \<Rightarrow> r = CHR ''r'' \<and> digit a \<and> digit b \<and> d = CHR ''-'' \<and> rest \<noteq> []
       \<and> \<not> list_ex line_end rest
   | _ \<Rightarrow> False)"

definition managed_stem :: "string \<Rightarrow> bool" where
  "managed_stem s = (case s of
     r # a # b # rest \<Rightarrow> r = CHR ''r'' \<and> digit a \<and> digit b \<and> (rest = [] \<or> hd rest = CHR ''-'')
   | _ \<Rightarrow> False)"

definition allowed_char :: "char \<Rightarrow> bool" where
  "allowed_char c = (seat_char c \<or> c = CHR ''@'')"

definition allowed_chars :: "string \<Rightarrow> bool" where
  "allowed_chars s = (s \<noteq> [] \<and> list_all allowed_char s)"

definition deriveCanonicalSessionName :: "string \<Rightarrow> string \<Rightarrow> string \<Rightarrow> string" where
  "deriveCanonicalSessionName pod member rig = pod @ ''-'' @ member @ ''@'' @ rig"

definition deriveSessionName :: "string \<Rightarrow> string \<Rightarrow> string" where
  "deriveSessionName rig logicalId =
     (let stem = (if managed_stem rig then rig else ''r00-'' @ rig);
          safeId = map (\<lambda>c. if c = CHR ''.'' then CHR ''_'' else c) logicalId
      in stem @ ''-'' @ safeId)"

definition validateSessionName :: "string \<Rightarrow> bool" where
  "validateSessionName name =
     (if name = [] \<or> \<not> allowed_chars name then False
      else if CHR ''@'' \<in> set name then True else legacy_name name)"

datatype name_error = Component_empty string | Component_char string char | Component_at string

definition validateSessionNameChars :: "string \<Rightarrow> string \<Rightarrow> name_error option" where
  "validateSessionNameChars v label =
     (if v = [] then Some (Component_empty label)
      else map_option (Component_char label) (find (\<lambda>c. \<not> allowed_char c) v))"

text \<open>The pod and the member are also refused an \<open>@\<close>; the rig is not.\<close>

definition component_errors :: "bool \<Rightarrow> string \<Rightarrow> string \<Rightarrow> name_error list" where
  "component_errors refuse_at v label =
     (if v = [] then [Component_empty label]
      else (case validateSessionNameChars v label of None \<Rightarrow> [] | Some e \<Rightarrow> [e]) @
           (if refuse_at \<and> CHR ''@'' \<in> set v then [Component_at label] else []))"

definition validateSessionComponents :: "string \<Rightarrow> string \<Rightarrow> string \<Rightarrow> name_error list" where
  "validateSessionComponents pod member rig =
     component_errors True pod ''pod name'' @ component_errors True member ''member name'' @
     component_errors False rig ''rig name''"

definition tmuxRenamedSession :: "string \<Rightarrow> string option" where
  "tmuxRenamedSession s =
     (if CHR ''.'' \<notin> set s then None
      else Some (map (\<lambda>c. if c = CHR ''.'' then CHR ''_'' else c) s))"

section \<open>Parsing\<close>

datatype parsed_name =
    Canonical (parsed_member: string) (parsed_rig: string)
  | Legacy string
  | External (parsed_local: string) (parsed_domain: string)
  | Malformed string

definition before_at :: "string \<Rightarrow> string" where
  "before_at s = takeWhile (\<lambda>c. c \<noteq> CHR ''@'') s"

definition from_at :: "string \<Rightarrow> string" where
  "from_at s = dropWhile (\<lambda>c. c \<noteq> CHR ''@'') s"

text \<open>\<open>VIRTUAL_DOMAIN_SESSION_REF_PATTERN\<close>: the part before the domain has no \<open>@\<close>.\<close>

definition virtual_ref :: "string \<Rightarrow> bool" where
  "virtual_ref s =
     (before_at s \<noteq> [] \<and> list_all (\<lambda>c. seat_char c \<or> c = CHR '':'') (before_at s) \<and> from_at s = ''@external'')"

definition isHumanSeatSessionRef :: "string \<Rightarrow> bool" where
  "isHumanSeatSessionRef s = (isHumanSeatSession s \<or> virtual_ref s)"

definition parseSessionName :: "string \<Rightarrow> parsed_name" where
  "parseSessionName raw =
     (if virtual_ref raw then External (before_at raw) (tl (from_at raw))
      else if before_at raw \<noteq> [] \<and> length (from_at raw) > 1 then Canonical (before_at raw) (tl (from_at raw))
      else if CHR ''@'' \<notin> set raw \<and> legacy_name raw then Legacy raw
      else Malformed raw)"

definition sessionMemberLabel :: "string \<Rightarrow> string" where
  "sessionMemberLabel s = (if CHR ''@'' \<in> set s then before_at s else s)"

definition sessionRigOf :: "string \<Rightarrow> string option" where
  "sessionRigOf s = (case parseSessionName s of Canonical _ rig \<Rightarrow> Some rig | _ \<Rightarrow> None)"

text \<open>The person an address may name: the local part of a virtual address, the member of a canonical one.\<close>

definition human_identity :: "string \<Rightarrow> string option" where
  "human_identity ref = (case parseSessionName ref of
     External l _ \<Rightarrow> Some l | Canonical m _ \<Rightarrow> Some m | _ \<Rightarrow> None)"

section \<open>Facts\<close>

lemma at_split [simp]:
  "CHR ''@'' \<notin> set n \<Longrightarrow> before_at (n @ CHR ''@'' # h) = n"
  "CHR ''@'' \<notin> set n \<Longrightarrow> from_at (n @ CHR ''@'' # h) = CHR ''@'' # h"
  by (simp_all add: before_at_def from_at_def takeWhile_at)

lemma before_from_at: "before_at s @ from_at s = s"
  by (simp add: before_at_def from_at_def)

lemma from_at_cases: "from_at s = [] \<or> (\<exists>h. from_at s = CHR ''@'' # h)"
  by (induction s) (auto simp: from_at_def)

lemma parse_canonical:
  assumes "CHR ''@'' \<notin> set n" "n \<noteq> []" "rig \<noteq> []" "rig \<noteq> ''external''"
  shows "parseSessionName (n @ CHR ''@'' # rig) = Canonical n rig"
  using assms by (cases rig) (auto simp: parseSessionName_def virtual_ref_def)

lemma find_refused: "find (\<lambda>c. \<not> allowed_char c) v = None \<longleftrightarrow> list_all allowed_char v"
  by (auto simp: find_None_iff list_all_iff)

lemma component_errors_Nil:
  "component_errors a v l = [] \<longleftrightarrow> v \<noteq> [] \<and> list_all allowed_char v \<and> (a \<longrightarrow> CHR ''@'' \<notin> set v)"
  unfolding component_errors_def validateSessionNameChars_def
  by (simp add: find_refused [symmetric] split: option.split)

text \<open>C40: deriving, validating and parsing agree: when the three components are accepted, the derived
  canonical name is a valid session name and parses back to exactly the pod-qualified member and
  the rig, whatever further \<open>@\<close> the rig contains; the one exception is the reserved rig name
  \<open>external\<close>, which the parser reads as a virtual address.\<close>

theorem session_name_roundtrip:
  assumes "validateSessionComponents pod member rig = []" and "rig \<noteq> ''external''"
  shows "validateSessionName (deriveCanonicalSessionName pod member rig)
    \<and> parseSessionName (deriveCanonicalSessionName pod member rig) = Canonical (pod @ ''-'' @ member) rig
    \<and> sessionRigOf (deriveCanonicalSessionName pod member rig) = Some rig"
proof -
  from assms(1) have c: "pod \<noteq> []" "rig \<noteq> []" "CHR ''@'' \<notin> set (pod @ ''-'' @ member)"
    "list_all allowed_char (pod @ ''-'' @ member @ ''@'' @ rig)"
    by (auto simp: validateSessionComponents_def component_errors_Nil allowed_char_def seat_char_def)
  have p: "parseSessionName (deriveCanonicalSessionName pod member rig) = Canonical (pod @ ''-'' @ member) rig"
    using parse_canonical [OF c(3) _ c(2) assms(2)] by (simp add: deriveCanonicalSessionName_def)
  with c show ?thesis
    by (simp add: sessionRigOf_def validateSessionName_def allowed_chars_def deriveCanonicalSessionName_def)
qed

theorem session_name_roundtrip_witness:
  "parseSessionName ''dev-impl@acme'' = Canonical ''dev-impl'' ''acme''"
  using session_name_roundtrip [of "''dev''" "''impl''" "''acme''"]
  by (simp add: validateSessionComponents_def component_errors_def validateSessionNameChars_def
      allowed_char_def seat_char_def deriveCanonicalSessionName_def)

end
