(* ===== verification/Effects.thy ===== *)
theory Effects
  imports Prelude
begin

text \<open>
  Operations that may throw: the result is \<open>Inl\<close> the error or \<open>Inr\<close> the value. \<open>try_bind\<close> is
  sequencing, \<open>try_fold\<close> a loop whose body may throw, \<open>first_refusal\<close> a run of
  \<open>if (...) throw ...\<close> guards in source order.
\<close>

named_theorems effect_simps

definition try_bind :: "('e + 'a) \<Rightarrow> ('a \<Rightarrow> 'e + 'b) \<Rightarrow> 'e + 'b" where
  "try_bind m f = (case m of Inl e \<Rightarrow> Inl e | Inr x \<Rightarrow> f x)"

lemma try_bind_simps [simp]: "try_bind (Inl e) f = Inl e" "try_bind (Inr x) f = f x"
  by (simp_all add: try_bind_def)

lemma try_bind_Inr [effect_simps]: "try_bind m f = Inr y \<longleftrightarrow> (\<exists>x. m = Inr x \<and> f x = Inr y)"
  by (cases m) simp_all

lemma try_bind_Inl: "try_bind m f = Inl e \<longleftrightarrow> m = Inl e \<or> (\<exists>x. m = Inr x \<and> f x = Inl e)"
  by (cases m) simp_all

lemma try_bind_cong [fundef_cong]:
  "m = m' \<Longrightarrow> (\<And>x. m' = Inr x \<Longrightarrow> f x = g x) \<Longrightarrow> try_bind m f = try_bind m' g"
  by (cases m') simp_all

lemma map_sum_Inr [effect_simps]: "map_sum id f x = Inr y \<longleftrightarrow> (\<exists>v. x = Inr v \<and> y = f v)"
  by (cases x) auto

fun try_fold :: "('a \<Rightarrow> 's \<Rightarrow> 'e + 's) \<Rightarrow> 'a list \<Rightarrow> 's \<Rightarrow> 'e + 's" where
  "try_fold f [] s = Inr s"
| "try_fold f (x # xs) s = try_bind (f x s) (try_fold f xs)"

text \<open>A loop invariant indexed by the elements still to come.\<close>

lemma try_fold_invariant:
  assumes "try_fold f xs s = Inr t" and "I xs s"
    and "\<And>y ys u v. set (y # ys) \<subseteq> set xs \<Longrightarrow> I (y # ys) u \<Longrightarrow> f y u = Inr v \<Longrightarrow> I ys v"
  shows "I [] t"
  using assms
proof (induction xs arbitrary: s)
  case Nil
  then show ?case by simp
next
  case (Cons x xs)
  from Cons.prems(1) obtain u where u: "f x s = Inr u" "try_fold f xs u = Inr t"
    by (auto simp: effect_simps)
  have "I xs u" by (rule Cons.prems(3) [of x xs s u]) (use Cons.prems(2) u in auto)
  with u(2) show ?case
    by (rule Cons.IH) (use Cons.prems(3) in \<open>meson order_trans set_subset_Cons\<close>)
qed

fun first_refusal :: "(bool \<times> 'e) list \<Rightarrow> 'e option" where
  "first_refusal [] = None"
| "first_refusal ((c, e) # gs) = (if c then Some e else first_refusal gs)"

lemma first_refusal_append [simp]:
  "first_refusal (gs @ hs) = (case first_refusal gs of None \<Rightarrow> first_refusal hs | Some e \<Rightarrow> Some e)"
  by (induction gs rule: first_refusal.induct) simp_all

lemma first_refusal_None [effect_simps]: "first_refusal gs = None \<longleftrightarrow> (\<forall>(c, e) \<in> set gs. \<not> c)"
  by (induction gs rule: first_refusal.induct) auto

definition unless_refused :: "(bool \<times> 'e) list \<Rightarrow> ('e + 'a) \<Rightarrow> 'e + 'a" where
  "unless_refused gs m = (case first_refusal gs of Some e \<Rightarrow> Inl e | None \<Rightarrow> m)"

lemma unless_refused_Nil [simp]: "unless_refused [] m = m"
  by (simp add: unless_refused_def)

lemma unless_refused_Cons [simp]:
  "unless_refused ((c, e) # gs) m = (if c then Inl e else unless_refused gs m)"
  by (simp add: unless_refused_def)

lemma unless_refused_Inr [effect_simps]:
  "unless_refused gs m = Inr x \<longleftrightarrow> (\<forall>(c, e) \<in> set gs. \<not> c) \<and> m = Inr x"
  using first_refusal_None [of gs] by (cases "first_refusal gs") (auto simp: unless_refused_def)

end
