(* ===== verification/Human_Questions.thy ===== *)
theory Human_Questions
  imports Effects
begin

text \<open>
  Structured questions a decision may carry (\<open>packages/daemon/src/domain/human-questions.ts\<close>): the
  validator of an authored JSON value and the questions still waiting for an answer. A JSON object
  is its members in order; reading a missing member, or a member of something that is no object,
  gives \<open>undefined\<close>, which is \<open>None\<close>. Errors keep the positions the message names, from 1.
\<close>

datatype json =
    J_null | J_bool bool | J_number int | J_string string | J_array "json list"
  | J_object "(string \<times> json) list"

definition member_of :: "json \<Rightarrow> string \<Rightarrow> json option" where
  "member_of j k = (case j of J_object ms \<Rightarrow> map_of ms k | _ \<Rightarrow> None)"

record question_option =
  opt_id :: string
  opt_label :: string
  opt_recommended :: bool

record human_question =
  hq_id :: string
  hq_question :: string
  hq_options :: "question_option list"

definition MAX_HUMAN_QUESTIONS :: nat where "MAX_HUMAN_QUESTIONS = 4"
definition MIN_OPTIONS :: nat where "MIN_OPTIONS = 2"
definition MAX_OPTIONS :: nat where "MAX_OPTIONS = 4"
definition MAX_OPTION_LABEL :: nat where "MAX_OPTION_LABEL = 75"
definition MAX_QUESTION_TEXT :: nat where "MAX_QUESTION_TEXT = 500"

definition question_id_char :: "char \<Rightarrow> bool" where
  "question_id_char c = (let n = of_char c :: nat in
     (48 \<le> n \<and> n \<le> 57) \<or> (65 \<le> n \<and> n \<le> 90) \<or> (97 \<le> n \<and> n \<le> 122) \<or> n = 95 \<or> n = 45)"

definition id_pattern :: "string \<Rightarrow> bool" where
  "id_pattern s = (1 \<le> length s \<and> length s \<le> 40 \<and> list_all question_id_char s)"

datatype questions_error =
    Not_an_array | Wrong_question_count nat
  | Question_id_invalid nat | Question_id_duplicate nat | Question_text_missing nat
  | Question_text_long nat | Wrong_option_count nat
  | Option_id_invalid nat nat | Option_id_duplicate nat nat | Option_label_missing nat nat
  | Option_label_long nat nat | Recommended_not_boolean nat nat | Too_many_recommended nat

definition string_of :: "json option \<Rightarrow> string option" where
  "string_of j = (case j of Some (J_string s) \<Rightarrow> Some s | _ \<Rightarrow> None)"

definition recommended_of :: "json option \<Rightarrow> bool option" where
  "recommended_of j = (case j of None \<Rightarrow> Some False | Some J_null \<Rightarrow> Some False
     | Some (J_bool b) \<Rightarrow> Some b | _ \<Rightarrow> None)"

text \<open>One option: \<open>q\<close> and \<open>n\<close> are its positions, \<open>seen\<close> the ids of the options before it.\<close>

definition parse_option :: "nat \<Rightarrow> nat \<Rightarrow> string list \<Rightarrow> json \<Rightarrow> questions_error + question_option" where
  "parse_option q n seen raw =
    (let i = string_of (member_of raw ''id''); label = string_of (member_of raw ''label'');
         recommended = recommended_of (member_of raw ''recommended'')
     in unless_refused
          [(i = None \<or> \<not> id_pattern (the i), Option_id_invalid q n),
           (the i \<in> set seen, Option_id_duplicate q n),
           (label = None \<or> trim (the label) = [], Option_label_missing q n),
           (length (the label) > MAX_OPTION_LABEL, Option_label_long q n),
           (recommended = None, Recommended_not_boolean q n)]
          (Inr \<lparr>opt_id = the i, opt_label = the label, opt_recommended = the recommended\<rparr>))"

fun parse_options :: "nat \<Rightarrow> nat \<Rightarrow> string list \<Rightarrow> json list \<Rightarrow> questions_error + question_option list" where
  "parse_options q n seen [] = Inr []"
| "parse_options q n seen (raw # raws) =
     try_bind (parse_option q n seen raw)
       (\<lambda>opt. map_sum id ((#) opt) (parse_options q (Suc n) (opt_id opt # seen) raws))"

definition parse_question :: "nat \<Rightarrow> string list \<Rightarrow> json \<Rightarrow> questions_error + human_question" where
  "parse_question q seen raw =
    (let i = string_of (member_of raw ''id''); text = string_of (member_of raw ''question'');
         options = (case member_of raw ''options'' of Some (J_array xs) \<Rightarrow> Some xs | _ \<Rightarrow> None)
     in unless_refused
          [(i = None \<or> \<not> id_pattern (the i), Question_id_invalid q),
           (the i \<in> set seen, Question_id_duplicate q),
           (text = None \<or> trim (the text) = [], Question_text_missing q),
           (length (the text) > MAX_QUESTION_TEXT, Question_text_long q),
           (options = None \<or> length (the options) < MIN_OPTIONS \<or> length (the options) > MAX_OPTIONS,
              Wrong_option_count q)]
          (try_bind (parse_options q 1 [] (the options)) (\<lambda>opts.
             if length (filter opt_recommended opts) > 1 then Inl (Too_many_recommended q)
             else Inr \<lparr>hq_id = the i, hq_question = the text, hq_options = opts\<rparr>)))"

fun parse_questions :: "nat \<Rightarrow> string list \<Rightarrow> json list \<Rightarrow> questions_error + human_question list" where
  "parse_questions q seen [] = Inr []"
| "parse_questions q seen (raw # raws) =
     try_bind (parse_question q seen raw)
       (\<lambda>hq. map_sum id ((#) hq) (parse_questions (Suc q) (hq_id hq # seen) raws))"

definition parseHumanQuestions :: "json \<Rightarrow> questions_error + human_question list" where
  "parseHumanQuestions v = (case v of
     J_array xs \<Rightarrow>
       if length xs < 1 \<or> length xs > MAX_HUMAN_QUESTIONS then Inl (Wrong_question_count (length xs))
       else parse_questions 1 [] xs
   | _ \<Rightarrow> Inl Not_an_array)"

text \<open>Answers by question id, as own members of an object; the answer itself is opaque here.\<close>

definition unansweredQuestions :: "human_question list \<Rightarrow> (string \<times> 'a) list \<Rightarrow> human_question list" where
  "unansweredQuestions questions answers = filter (\<lambda>q. map_of answers (hq_id q) = None) questions"

section \<open>What is accepted\<close>

text \<open>The stored form of a question: its known members, \<open>recommended\<close> only when true.\<close>

definition option_json :: "question_option \<Rightarrow> json" where
  "option_json opt = J_object ([(''id'', J_string (opt_id opt)), (''label'', J_string (opt_label opt))] @
     (if opt_recommended opt then [(''recommended'', J_bool True)] else []))"

definition question_json :: "human_question \<Rightarrow> json" where
  "question_json hq = J_object [(''id'', J_string (hq_id hq)), (''question'', J_string (hq_question hq)),
     (''options'', J_array (map option_json (hq_options hq)))]"

definition option_ok :: "question_option \<Rightarrow> bool" where
  "option_ok opt \<longleftrightarrow> id_pattern (opt_id opt) \<and> trim (opt_label opt) \<noteq> [] \<and> length (opt_label opt) \<le> 75"

definition question_ok :: "human_question \<Rightarrow> bool" where
  "question_ok hq \<longleftrightarrow> id_pattern (hq_id hq) \<and> trim (hq_question hq) \<noteq> [] \<and> length (hq_question hq) \<le> 500
     \<and> 2 \<le> length (hq_options hq) \<and> length (hq_options hq) \<le> 4
     \<and> list_all option_ok (hq_options hq) \<and> distinct (map opt_id (hq_options hq))
     \<and> length (filter opt_recommended (hq_options hq)) \<le> 1"

definition questions_ok :: "human_question list \<Rightarrow> bool" where
  "questions_ok qs \<longleftrightarrow> 1 \<le> length qs \<and> length qs \<le> 4 \<and> list_all question_ok qs \<and> distinct (map hq_id qs)"

lemmas question_limits = MAX_HUMAN_QUESTIONS_def MIN_OPTIONS_def MAX_OPTIONS_def MAX_OPTION_LABEL_def
  MAX_QUESTION_TEXT_def

lemma parse_option_ok:
  "parse_option q n seen raw = Inr opt \<Longrightarrow> option_ok opt \<and> opt_id opt \<notin> set seen"
  by (auto simp: parse_option_def Let_def option_ok_def question_limits split: if_splits)

lemma parse_options_ok:
  "parse_options q n seen raws = Inr opts \<Longrightarrow>
     list_all option_ok opts \<and> distinct (map opt_id opts) \<and> opt_id ` set opts \<inter> set seen = {}
     \<and> length opts = length raws"
proof (induction raws arbitrary: n seen opts)
  case Nil
  then show ?case by simp
next
  case (Cons raw raws)
  then obtain opt opts' where 1: "parse_option q n seen raw = Inr opt"
      "parse_options q (Suc n) (opt_id opt # seen) raws = Inr opts'" "opts = opt # opts'"
    by (auto simp: effect_simps)
  from Cons.IH [OF 1(2)] parse_option_ok [OF 1(1)] 1(3) show ?case by auto
qed

lemma parse_question_ok:
  assumes "parse_question q seen raw = Inr hq"
  shows "question_ok hq \<and> hq_id hq \<notin> set seen"
proof -
  from assms obtain opts raws where "parse_options q 1 [] raws = Inr opts" "hq_options hq = opts"
      "2 \<le> length raws" "length raws \<le> 4" "length (filter opt_recommended opts) \<le> 1"
      "id_pattern (hq_id hq)" "hq_id hq \<notin> set seen" "trim (hq_question hq) \<noteq> []" "length (hq_question hq) \<le> 500"
    by (auto simp: parse_question_def Let_def question_limits effect_simps split: if_splits)
  then show ?thesis
    using parse_options_ok [of q 1 "[]" raws opts] by (simp add: question_ok_def)
qed

lemma parse_questions_ok:
  "parse_questions q seen raws = Inr qs \<Longrightarrow>
     list_all question_ok qs \<and> distinct (map hq_id qs) \<and> hq_id ` set qs \<inter> set seen = {} \<and> length qs = length raws"
proof (induction raws arbitrary: q seen qs)
  case Nil
  then show ?case by simp
next
  case (Cons raw raws)
  then obtain hq qs' where 1: "parse_question q seen raw = Inr hq"
      "parse_questions (Suc q) (hq_id hq # seen) raws = Inr qs'" "qs = hq # qs'"
    by (auto simp: effect_simps)
  from Cons.IH [OF 1(2)] parse_question_ok [OF 1(1)] 1(3) show ?case by auto
qed

lemma parse_option_json:
  "option_ok opt \<Longrightarrow> opt_id opt \<notin> set seen \<Longrightarrow> parse_option q n seen (option_json opt) = Inr opt"
  by (auto simp: parse_option_def Let_def option_ok_def option_json_def member_of_def string_of_def
      recommended_of_def question_limits)

lemma parse_options_json:
  "list_all option_ok opts \<Longrightarrow> distinct (map opt_id opts) \<Longrightarrow> opt_id ` set opts \<inter> set seen = {} \<Longrightarrow>
     parse_options q n seen (map option_json opts) = Inr opts"
  by (induction opts arbitrary: n seen) (auto simp: parse_option_json)

lemma parse_question_json:
  "question_ok hq \<Longrightarrow> hq_id hq \<notin> set seen \<Longrightarrow> parse_question q seen (question_json hq) = Inr hq"
  by (auto simp: parse_question_def Let_def question_ok_def question_json_def member_of_def string_of_def
      question_limits parse_options_json)

lemma parse_questions_json:
  "list_all question_ok qs \<Longrightarrow> distinct (map hq_id qs) \<Longrightarrow> hq_id ` set qs \<inter> set seen = {} \<Longrightarrow>
     parse_questions q seen (map question_json qs) = Inr qs"
  by (induction qs arbitrary: q seen) (auto simp: parse_question_json)

lemma parseHumanQuestions_ok: "parseHumanQuestions v = Inr qs \<Longrightarrow> questions_ok qs"
  by (auto simp: parseHumanQuestions_def questions_ok_def question_limits
      Suc_le_eq dest!: parse_questions_ok split: json.splits if_splits)

lemma parseHumanQuestions_json:
  "questions_ok qs \<Longrightarrow> parseHumanQuestions (J_array (map question_json qs)) = Inr qs"
  by (auto simp: parseHumanQuestions_def questions_ok_def question_limits parse_questions_json)

text \<open>The questions a decision stores are exactly the well-formed ones: what the validator
  accepts has 1 to 4 questions with distinct ids, each with 2 to 4 distinctly named options, a
  label within the button limit and at most one recommendation; and every such list is what the
  validator makes of its own stored form, so nothing stored is ever refused or changed when read
  back.\<close>

theorem human_questions_exact:
  "(questions_ok qs \<longleftrightarrow> (\<exists>v. parseHumanQuestions v = Inr qs))
   \<and> (questions_ok qs \<longleftrightarrow> parseHumanQuestions (J_array (map question_json qs)) = Inr qs)"
  using parseHumanQuestions_ok parseHumanQuestions_json by blast+

end
