(* ===== verification/Queue_Types.thy ===== *)
theory Queue_Types
  imports Effects Hot_Potato Session_Name Human_Questions Outbox Rig_Events
begin

text \<open>
  The tables behind the queue (\<open>packages/daemon/src/domain/queue-repository.ts\<close>) and its predicates:
  \<open>queue_items\<close>, \<open>queue_transitions\<close> (\<open>queue-transition-log.ts\<close>), \<open>queue_transition_wakes\<close>
  (\<open>queue-wake-repository.ts\<close>) and \<open>watchdog_jobs\<close> (\<open>watchdog-jobs-repository.ts\<close>), with the outbox
  and the persisted events written in the same transactions. What the daemon injects (rig
  validation, the human registry, the transport, the clock of the log) is the record \<open>queue_env\<close>.
\<close>

section \<open>States\<close>

datatype queue_state =
    Q_pending | Q_in_progress | Q_done | Q_blocked | Q_failed | Q_denied | Q_canceled | Q_handed_off

fun state_name :: "queue_state \<Rightarrow> string" where
  "state_name Q_pending = ''pending''"
| "state_name Q_in_progress = ''in-progress''"
| "state_name Q_done = ''done''"
| "state_name Q_blocked = ''blocked''"
| "state_name Q_failed = ''failed''"
| "state_name Q_denied = ''denied''"
| "state_name Q_canceled = ''canceled''"
| "state_name Q_handed_off = ''handed-off''"

definition QUEUE_STATES :: "queue_state list" where
  "QUEUE_STATES = [Q_pending, Q_in_progress, Q_done, Q_blocked, Q_failed, Q_denied, Q_canceled, Q_handed_off]"

definition parse_state :: "string \<Rightarrow> queue_state option" where
  "parse_state s = find (\<lambda>q. state_name q = s) QUEUE_STATES"

definition TERMINAL_QUEUE_STATES :: "queue_state list" where
  "TERMINAL_QUEUE_STATES = [Q_done, Q_handed_off]"

definition isTerminalState :: "queue_state \<Rightarrow> bool" where
  "isTerminalState q \<longleftrightarrow> q \<in> set TERMINAL_QUEUE_STATES"

definition ACTIVE_QUEUE_STATES :: "queue_state list" where
  "ACTIVE_QUEUE_STATES = [Q_pending, Q_in_progress, Q_blocked]"

definition isBlockerLive :: "queue_state \<Rightarrow> bool" where
  "isBlockerLive q \<longleftrightarrow> q \<in> set ACTIVE_QUEUE_STATES"

definition guarded_terminal :: "queue_state \<Rightarrow> bool" where
  "guarded_terminal q \<longleftrightarrow> q \<in> {Q_done, Q_canceled, Q_handed_off}"

lemmas state_sets = isTerminalState_def TERMINAL_QUEUE_STATES_def isBlockerLive_def
  ACTIVE_QUEUE_STATES_def guarded_terminal_def

lemma state_name_inj [simp]: "state_name a = state_name b \<longleftrightarrow> a = b"
  by (cases a; cases b; simp)

lemma parse_state_Some [simp]: "parse_state s = Some q \<longleftrightarrow> s = state_name q"
  by (cases q) (auto simp: parse_state_def QUEUE_STATES_def)

lemma live_iff [simp]:
  "isBlockerLive Q_pending" "isBlockerLive Q_in_progress" "isBlockerLive Q_blocked"
  "\<not> isBlockerLive Q_done" "\<not> isBlockerLive Q_failed" "\<not> isBlockerLive Q_denied"
  "\<not> isBlockerLive Q_canceled" "\<not> isBlockerLive Q_handed_off"
  by (simp_all add: state_sets)

section \<open>Rows\<close>

datatype human_intent = Intent_decision | Intent_update

record queue_item =
  q_id :: string
  q_created :: timestamp
  q_updated :: timestamp
  q_source :: string
  q_dest :: string
  q_state :: queue_state
  q_priority :: string
  q_tier :: "string option"
  q_tags :: "string list option"
  q_blockedOn :: "string option"
  q_handedOffTo :: "string option"
  q_handedOffFrom :: "string option"
  q_expiresAt :: "string option"
  q_chain :: "string list option"
  q_body :: string
  q_humanIntent :: "human_intent option"
  q_humanDetail :: "string option"
  q_replyTo :: "string option"
  q_questions :: "human_question list option"
  q_summary :: "string option"
  q_evidence :: "string option"
  q_closureReason :: "string option"
  q_closureTarget :: "string option"
  q_closureRequiredAt :: "timestamp option"
  q_claimedAt :: "timestamp option"
  q_nudgeAttempt :: "timestamp option"
  q_nudgeResult :: "string option"
  q_resolution :: "string option"
  q_targetRepo :: "string option"
  q_mintedBy :: "string option"
  q_claimedBy :: "string option"

datatype notify_level = Level_record | Level_notice | Level_alert

record transition =
  t_id :: nat
  t_qitem :: string
  t_ts :: timestamp
  t_state :: queue_state
  t_note :: "string option"
  t_actor :: string
  t_closureReason :: "string option"
  t_closureTarget :: "string option"
  t_provenance :: "string option"
  t_principal :: "string option"
  t_notification :: "(string \<times> notify_level) option"

datatype wake_kind = Wake_watchdog | Wake_timer | Wake_blocker
datatype wake_phase = Armed | Fired

record wake =
  w_transition :: nat
  w_qitem :: string
  w_phase :: wake_phase
  w_kind :: wake_kind
  w_ref :: string
  w_delivery :: "string option"

text \<open>
  A job's specification text: the JSON packet of a repeating wait, or any other text. Evidence is
  compared for equality only.
\<close>

type_synonym evidence = string

record wait_state =
  ws_qitem :: string
  ws_blocker :: "string option"
  ws_blockerTransition :: "nat option"
  ws_evidence :: "evidence option"
  ws_initial :: int
  ws_max :: int
  ws_eventPending :: bool
  ws_attention :: "string option"
  ws_notice :: "string option"

datatype job_spec =
    Wait_spec (spec_session: string) (spec_message: string) (spec_wait: wait_state)
  | Reminder_spec (spec_session: string) (spec_message: string)
  | Other_spec string

datatype job_state = Job_active | Job_stopped | Job_terminal

record watchdog_job =
  j_id :: string
  j_policy :: string
  j_spec :: job_spec
  j_target :: string
  j_interval :: int
  j_lastEvaluation :: "timestamp option"
  j_state :: job_state
  j_registeredBy :: string
  j_registeredAt :: timestamp
  j_terminalReason :: "string option"
  j_generation :: "string option"

record queue_db =
  d_items :: "queue_item list"
  d_log :: "transition list"
  d_wakes :: "wake list"
  d_jobs :: "watchdog_job list"
  d_outbox :: outbox
  d_events :: "rig_event list"

definition empty_db :: queue_db where
  "empty_db = \<lparr>d_items = [], d_log = [], d_wakes = [], d_jobs = [], d_outbox = [], d_events = []\<rparr>"

section \<open>The environment\<close>

text \<open>
  A loaded human registry gives its entities, or that nobody is registered, or a failure. A person
  posts plain asks when their primary connector is a relay, or their Slack preset is every ask.
\<close>

record person =
  p_entity :: string
  p_address :: string
  p_relay_primary :: bool
  p_every_ask :: bool

datatype registry = Registry "person list" | No_humans | Registry_broken

record queue_env =
  e_validateRig :: "string \<Rightarrow> bool"
  e_registry :: registry
  e_sharedChannels :: "string list"
  e_frontier :: "(string \<Rightarrow> bool) option"
  e_generation :: "string \<Rightarrow> string option"
  e_addresses :: "string \<Rightarrow> string list"
  e_attention :: "evidence \<Rightarrow> string option"
  e_outbox :: bool
  e_retentionTarget :: "string \<Rightarrow> bool \<Rightarrow> bool \<Rightarrow> guard_binding option"
  e_draftNode :: "string \<Rightarrow> string option"
  e_deliveryTarget :: "string \<Rightarrow> guard_binding option"
  e_envelope :: "string \<Rightarrow> string \<Rightarrow> string \<Rightarrow> string option \<Rightarrow> string"
  e_urgentLine :: "string \<Rightarrow> string \<Rightarrow> string"
  e_nudgeText :: "string \<Rightarrow> string option \<Rightarrow> string"
  e_message :: "outbox_error \<Rightarrow> string"
  e_iso :: "timestamp \<Rightarrow> string"
  e_tick :: "nat \<Rightarrow> timestamp"

section \<open>Predicates\<close>

definition hasLiveHumanGate :: "queue_item \<Rightarrow> bool" where
  "hasLiveHumanGate i =
     (if q_humanIntent i = Some Intent_update then False
      else if q_state i = Q_blocked \<and> truthy (q_blockedOn i) \<and> isHumanSeatSessionRef (the (q_blockedOn i)) then True
      else isBlockerLive (q_state i) \<and> isHumanSeatSessionRef (q_dest i))"

definition TYPED_GATE_BLOCKER_PREFIXES :: "string list" where
  "TYPED_GATE_BLOCKER_PREFIXES = [''fold:'', ''auth:'', ''external:'']"

definition starts_with :: "string \<Rightarrow> string \<Rightarrow> bool" where
  "starts_with p s \<longleftrightarrow> take (length p) s = p"

definition typedGateBlockerPrefix :: "string \<Rightarrow> string option" where
  "typedGateBlockerPrefix v = find (\<lambda>p. starts_with p v) TYPED_GATE_BLOCKER_PREFIXES"

definition isTypedGateBlocker :: "string \<Rightarrow> bool" where
  "isTypedGateBlocker v = (case typedGateBlockerPrefix v of
     None \<Rightarrow> False | Some p \<Rightarrow> trim (drop (length p) v) \<noteq> [])"

text \<open>A nudge result is read as \<open>claimed\<close> when the row is claimed and the wire never confirmed.\<close>

definition presentedNudgeResult :: "string option \<Rightarrow> timestamp option \<Rightarrow> string option" where
  "presentedNudgeResult wire claimedAt =
     (case (claimedAt, wire) of
        (Some _, Some r) \<Rightarrow>
          if r = ''delivered-ack-pending'' \<or> starts_with ''indeterminate:'' r then Some ''claimed'' else Some r
      | _ \<Rightarrow> wire)"

definition WAKE_NOT_RETAINED :: string where
  "WAKE_NOT_RETAINED = ''failed:wake not retained: ''"

definition sideEffectProvenance :: "string option \<Rightarrow> string option" where
  "sideEffectProvenance p = (if p = Some ''principal:v1'' then Some ''transport:v1'' else p)"

definition HUMAN_ALERT_TAG :: string where
  "HUMAN_ALERT_TAG = ''human-alert''"

definition withHumanAlertTag :: "string list option \<Rightarrow> bool option \<Rightarrow> string list option" where
  "withHumanAlertTag ts alert =
     (let rest = filter (\<lambda>t. t \<noteq> HUMAN_ALERT_TAG) (or_default ts [])
      in if alert = Some True then Some (rest @ [HUMAN_ALERT_TAG])
         else map_option (\<lambda>_. rest) ts)"

subsection \<open>People\<close>

definition registered_address :: "string option \<Rightarrow> person list \<Rightarrow> string option" where
  "registered_address ref people =
     (case ref of
        None \<Rightarrow> None
      | Some r \<Rightarrow>
          if r = [] then None
          else case human_identity r of
              None \<Rightarrow> None
            | Some i \<Rightarrow> if i = [] then None else map_option p_address (find (\<lambda>p. p_entity p = i) people))"

definition registeredPeople :: "registry \<Rightarrow> person list option" where
  "registeredPeople r = (case r of Registry ps \<Rightarrow> Some ps | No_humans \<Rightarrow> Some [] | Registry_broken \<Rightarrow> None)"

definition isPersonAddress :: "queue_env \<Rightarrow> string \<Rightarrow> bool" where
  "isPersonAddress env dest =
     (if isHumanSeatSessionRef dest then True
      else case e_registry env of Registry ps \<Rightarrow> registered_address (Some dest) ps \<noteq> None | _ \<Rightarrow> False)"

definition ends_with :: "string \<Rightarrow> string \<Rightarrow> bool" where
  "ends_with suf s \<longleftrightarrow> length suf \<le> length s \<and> drop (length s - length suf) s = suf"

record notify_input =
  n_create :: bool
  n_dest :: string
  n_prevState :: "queue_state option"
  n_prevBlockedOn :: "string option"
  n_nextState :: queue_state
  n_nextBlockedOn :: "string option"
  n_resolved :: bool
  n_intent :: "human_intent option"
  n_alert :: "bool option"
  n_gateway :: bool

definition classifyOwnerNotification :: "queue_env \<Rightarrow> notify_input \<Rightarrow> (string \<times> notify_level) option" where
  "classifyOwnerNotification env inp =
     (if n_resolved inp then Some (''human-decision-resolved'', Level_notice)
      else case registeredPeople (e_registry env) of
        None \<Rightarrow> None
      | Some people \<Rightarrow>
          let blockedHuman = registered_address (n_nextBlockedOn inp) people;
              previousBlockedHuman = registered_address (n_prevBlockedOn inp) people;
              destinationHuman = registered_address (Some (n_dest inp)) people
          in if n_nextState inp = Q_blocked \<and> blockedHuman \<noteq> None \<and>
                (n_prevState inp \<noteq> Some Q_blocked \<or> previousBlockedHuman \<noteq> blockedHuman)
             then Some (''human-required'', Level_alert)
             else if n_create inp \<and> destinationHuman \<noteq> None then
               (if n_gateway inp then Some (''human-required'', Level_record)
                else
                  let posts = (n_alert inp = Some True \<or>
                        (case find (\<lambda>p. Some (p_address p) = destinationHuman) people of
                           None \<Rightarrow> True | Some p \<Rightarrow> p_relay_primary p \<or> p_every_ask p))
                  in if n_intent inp = Some Intent_update then Some (''human-update'', Level_notice)
                     else Some (''human-required'', if posts then Level_alert else Level_record))
             else if n_create inp \<and> ends_with ''@external'' (n_dest inp) \<and> n_dest inp \<in> set (e_sharedChannels env)
             then Some (''human-update'', Level_notice)
             else None)"

end
