(* ===== verification/Queue_Wakes.thy ===== *)
theory Queue_Wakes
  imports Queue_Types
begin

text \<open>
  What every queue write goes through: the append-only transition log (\<open>queue-transition-log.ts\<close>),
  the wakes bound to transitions and their live status (\<open>queue-wake-repository.ts\<close>), the repeating
  wait (\<open>queue-wait-backoff.ts\<close>) on its watchdog job (\<open>watchdog-jobs-repository.ts\<close>), and the
  durable wake intents staged into the outbox. The archive of closed transitions is part of the
  log, so ids number it from 1.
\<close>

datatype queue_error =
    Qitem_not_found
  | Qitem_already_terminal
  | Destination_refused
  | Human_route_error human_route_error
  | Invalid_human_notification
  | Reply_to_requires_update
  | Reply_to_not_found
  | Invalid_human_questions "questions_error option"
  | Qitem_id_reuse
  | Primary_key_conflict
  | Closure_error closure_error
  | Claim_destination_mismatch
  | Qitem_not_claimable
  | Qitem_not_in_progress
  | Deadline_unrepresentable
  | State_or_note_required
  | Note_append_fields_not_admitted
  | Invalid_state
  | Wake_not_admitted | Wake_ambiguous | Wake_after_invalid | Wake_message_not_admitted
  | Wake_max_invalid | Wake_message_invalid
  | Terminal_reopen_requires_ack | Terminal_reopen_target_invalid | Reopen_note_required
  | Reopen_not_applicable
  | Workflow_frontier_packet
  | Summary_evidence_not_persistable
  | Closure_fields_not_admitted | Supersede_target_missing | Blocked_on_not_admitted
  | Blocker_not_found | Blocker_not_live | Blocker_malformed
  | Wake_watchdog_not_live | Wake_watchdog_target_mismatch | Wake_self_blocker
  | Job_target_invalid | Job_interval_invalid | Job_id_taken | Job_not_found
  | Cross_host_close_conflict
  | Wake_intent_store_unavailable | Terminal_close_without_wake_intent
  | Outbox_error outbox_error

definition getById :: "queue_db \<Rightarrow> string \<Rightarrow> queue_item option" where
  "getById db i = row_get q_id i (d_items db)"

definition getByIdOrThrow :: "queue_db \<Rightarrow> string \<Rightarrow> queue_error + queue_item" where
  "getByIdOrThrow db i = (case getById db i of None \<Rightarrow> Inl Qitem_not_found | Some r \<Rightarrow> Inr r)"

definition update_row :: "string \<Rightarrow> (queue_item \<Rightarrow> queue_item) \<Rightarrow> queue_db \<Rightarrow> queue_db" where
  "update_row i f db = db\<lparr>d_items := row_set (\<lambda>r. q_id r = i) f (d_items db)\<rparr>"

definition persist_event :: "rig_event \<Rightarrow> queue_db \<Rightarrow> queue_db" where
  "persist_event ev db = db\<lparr>d_events := d_events db @ [ev]\<rparr>"

section \<open>The transition log\<close>

record transition_input =
  ti_qitem :: string
  ti_state :: queue_state
  ti_actor :: string
  ti_note :: "string option"
  ti_reason :: "string option"
  ti_target :: "string option"
  ti_provenance :: "string option"
  ti_principal :: "string option"
  ti_notification :: "(string \<times> notify_level) option"

definition plain_transition :: "string \<Rightarrow> queue_state \<Rightarrow> string \<Rightarrow> string option \<Rightarrow> transition_input" where
  "plain_transition i st actor note = \<lparr>ti_qitem = i, ti_state = st, ti_actor = actor, ti_note = note,
     ti_reason = None, ti_target = None, ti_provenance = None, ti_principal = None, ti_notification = None\<rparr>"

definition new_transition :: "queue_env \<Rightarrow> queue_db \<Rightarrow> transition_input \<Rightarrow> transition" where
  "new_transition env db inp =
     (let principal = (if ti_provenance inp = Some ''principal:v1'' then ti_principal inp else None);
          provenance = (if ti_provenance inp = Some ''principal:v1'' \<and> \<not> truthy principal
                        then Some ''transport:v1'' else ti_provenance inp)
      in \<lparr>t_id = Suc (length (d_log db)), t_qitem = ti_qitem inp, t_ts = e_tick env (length (d_log db)),
          t_state = ti_state inp, t_note = ti_note inp, t_actor = ti_actor inp,
          t_closureReason = ti_reason inp, t_closureTarget = ti_target inp, t_provenance = provenance,
          t_principal = (if truthy principal then principal else None),
          t_notification = ti_notification inp\<rparr>)"

definition append_transition :: "queue_env \<Rightarrow> transition_input \<Rightarrow> queue_db \<Rightarrow> queue_db" where
  "append_transition env inp db = db\<lparr>d_log := d_log db @ [new_transition env db inp]\<rparr>"

text \<open>The id of the transition just appended.\<close>

definition last_transition_id :: "queue_db \<Rightarrow> nat" where
  "last_transition_id db = length (d_log db)"

definition listForQitem :: "queue_db \<Rightarrow> string \<Rightarrow> transition list" where
  "listForQitem db i = filter (\<lambda>t. t_qitem t = i) (d_log db)"

definition CONTINUATION_MARKER :: string where
  "CONTINUATION_MARKER = ''continuation: ''"

definition currentParkContinuation :: "queue_db \<Rightarrow> string \<Rightarrow> string option" where
  "currentParkContinuation db i =
     (let park = takeWhile (\<lambda>t. t_state t = Q_blocked) (rev (listForQitem db i))
      in map_option (\<lambda>t. drop (length CONTINUATION_MARKER) (the (t_note t)))
           (find (\<lambda>t. t_note t \<noteq> None \<and> starts_with CONTINUATION_MARKER (the (t_note t))) park))"

text \<open>The park gate a claim left as an audit pointer: only on the very last transition.\<close>

definition retainedClaimBlocker :: "queue_db \<Rightarrow> string \<Rightarrow> string option" where
  "retainedClaimBlocker db i =
     (case rev (listForQitem db i) of
        t # _ \<Rightarrow> if t_state t = Q_in_progress \<and> t_closureReason t = None then t_closureTarget t else None
      | [] \<Rightarrow> None)"

text \<open>The latest transition that is not bookkeeping (\<open>queue-waiting.ts\<close>): one by another actor or one that
  changed the state, and not the receipt of a fired wake.\<close>

definition MACHINE_ACTORS :: "string list" where
  "MACHINE_ACTORS = [''watchdog@system'', ''wake-ladder@system'', ''daemon@kernel'', ''daemon@system'']"

fun with_previous :: "queue_state option \<Rightarrow> transition list \<Rightarrow> (transition \<times> queue_state option) list" where
  "with_previous p [] = []"
| "with_previous p (t # ts) = (t, p) # with_previous (Some (t_state t)) ts"

definition lastMeaningfulTransition :: "queue_db \<Rightarrow> string \<Rightarrow> (nat \<times> timestamp) option" where
  "lastMeaningfulTransition db i =
     map_option (\<lambda>(t, _). (t_id t, t_ts t))
       (find (\<lambda>(t, prev). (t_actor t \<notin> set MACHINE_ACTORS \<or> Some (t_state t) \<noteq> prev) \<and>
            \<not> list_ex (\<lambda>w. w_transition w = t_id t \<and> w_phase w = Fired) (d_wakes db))
          (rev (with_previous None (listForQitem db i))))"

section \<open>Jobs\<close>

definition getJob :: "queue_db \<Rightarrow> string \<Rightarrow> watchdog_job option" where
  "getJob db i = row_get j_id i (d_jobs db)"

definition update_job :: "string \<Rightarrow> (watchdog_job \<Rightarrow> watchdog_job) \<Rightarrow> queue_db \<Rightarrow> queue_db" where
  "update_job i f db = db\<lparr>d_jobs := row_set (\<lambda>j. j_id j = i) f (d_jobs db)\<rparr>"

text \<open>\<open>register\<close> for the policy a park uses, \<open>periodic-reminder\<close>, followed by the first evaluation
  both callers seed with the registration time.\<close>

definition register_reminder ::
  "queue_env \<Rightarrow> timestamp \<Rightarrow> string \<Rightarrow> job_spec \<Rightarrow> string \<Rightarrow> int \<Rightarrow> string \<Rightarrow> queue_db \<Rightarrow> queue_error + queue_db" where
  "register_reminder env now jobId spec target interval actor db =
     unless_refused
       [(interval \<le> 0, Job_interval_invalid),
        (target = [] \<or> CHR ''@'' \<notin> set target, Job_target_invalid),
        (getJob db jobId \<noteq> None, Job_id_taken)]
       (Inr (db\<lparr>d_jobs := d_jobs db @ [\<lparr>j_id = jobId, j_policy = ''periodic-reminder'', j_spec = spec,
          j_target = target, j_interval = interval, j_lastEvaluation = Some now, j_state = Job_active,
          j_registeredBy = actor, j_registeredAt = now, j_terminalReason = None,
          j_generation = e_generation env actor\<rparr>]\<rparr>))"

definition updateSchedule :: "string \<Rightarrow> job_spec \<Rightarrow> int \<Rightarrow> timestamp option \<Rightarrow> queue_db \<Rightarrow> queue_db" where
  "updateSchedule i spec interval evaluated =
     update_job i (\<lambda>j. if j_state j = Job_active
       then j\<lparr>j_spec := spec, j_interval := interval, j_lastEvaluation := evaluated\<rparr> else j)"

definition markTerminal :: "string \<Rightarrow> string \<Rightarrow> queue_db \<Rightarrow> queue_db" where
  "markTerminal i reason = update_job i (\<lambda>j. j\<lparr>j_state := Job_terminal, j_terminalReason := Some reason\<rparr>)"

text \<open>A job whose packet names an item is a repeating wait.\<close>

definition readWait :: "job_spec \<Rightarrow> wait_state option" where
  "readWait spec = (case spec of Wait_spec _ _ w \<Rightarrow> if ws_qitem w \<noteq> [] then Some w else None | _ \<Rightarrow> None)"

definition isQueueWait :: "job_spec \<Rightarrow> bool" where
  "isQueueWait spec \<longleftrightarrow> readWait spec \<noteq> None"

definition isRepeatingTimer :: "queue_db \<Rightarrow> string \<Rightarrow> bool" where
  "isRepeatingTimer db ref = (case getJob db ref of
     Some j \<Rightarrow> j_state j = Job_active \<and> isQueueWait (j_spec j) | None \<Rightarrow> False)"

section \<open>Park wakes\<close>

definition record_wake :: "wake \<Rightarrow> queue_db \<Rightarrow> queue_db" where
  "record_wake w db = db\<lparr>d_wakes := d_wakes db @ [w]\<rparr>"

text \<open>Select the matching wake with the greatest transition id; ids grow along the table.\<close>

definition latest_wake :: "(wake \<Rightarrow> bool) \<Rightarrow> queue_db \<Rightarrow> wake option" where
  "latest_wake p db = find p (rev (d_wakes db))"

definition latest_armed :: "queue_db \<Rightarrow> string \<Rightarrow> wake option" where
  "latest_armed db i = latest_wake (\<lambda>w. w_qitem w = i \<and> w_phase w = Armed) db"

definition wake_live :: "queue_db \<Rightarrow> wake_kind \<Rightarrow> string \<Rightarrow> bool" where
  "wake_live db kind ref =
     (if kind = Wake_blocker
      then (case getById db ref of Some r \<Rightarrow> isBlockerLive (q_state r) | None \<Rightarrow> False)
      else (case getJob db ref of Some j \<Rightarrow> j_state j = Job_active | None \<Rightarrow> False))"

definition USAGE_LIMIT_BLOCKER_TAG :: string where
  "USAGE_LIMIT_BLOCKER_TAG = ''usage-limit-blocker''"

definition isUsageLimitBlocker :: "queue_db \<Rightarrow> string \<Rightarrow> bool" where
  "isUsageLimitBlocker db i = (case getById db i of
     Some r \<Rightarrow> USAGE_LIMIT_BLOCKER_TAG \<in> set (or_default (q_tags r) []) | None \<Rightarrow> False)"

definition timerExpiresAt :: "timestamp \<Rightarrow> int \<Rightarrow> timestamp" where
  "timerExpiresAt registeredAt intervalSeconds = registeredAt + intervalSeconds * 1000"

definition timerExpiry :: "queue_db \<Rightarrow> string \<Rightarrow> timestamp option" where
  "timerExpiry db ref = map_option (\<lambda>j. timerExpiresAt (j_registeredAt j) (j_interval j)) (getJob db ref)"

definition usageLimitBlockerExpiry :: "queue_db \<Rightarrow> string \<Rightarrow> timestamp option" where
  "usageLimitBlockerExpiry db i =
     (case latest_wake (\<lambda>w. w_qitem w = i \<and> w_phase w = Armed \<and> w_kind w = Wake_timer) db of
        Some w \<Rightarrow> timerExpiry db (w_ref w) | None \<Rightarrow> None)"

definition wakeExpiry :: "queue_db \<Rightarrow> string \<Rightarrow> wake_kind \<Rightarrow> string \<Rightarrow> timestamp option" where
  "wakeExpiry db i kind ref =
     (if kind = Wake_timer \<and> isUsageLimitBlocker db i then timerExpiry db ref
      else if kind = Wake_blocker \<and> isUsageLimitBlocker db ref then usageLimitBlockerExpiry db ref
      else None)"

record wake_status =
  st_kind :: wake_kind
  st_ref :: string
  st_phase :: wake_phase
  st_live :: bool
  st_delivery :: "string option"
  st_unconsumed :: bool
  st_sweepOwned :: bool
  st_expiresAt :: "timestamp option"

definition getStatus :: "queue_db \<Rightarrow> string \<Rightarrow> wake_status option" where
  "getStatus db i =
     (case latest_armed db i of
        None \<Rightarrow> None
      | Some armed \<Rightarrow>
          let ref = w_ref armed; kind = w_kind armed;
              fired = latest_wake (\<lambda>w. w_qitem w = i \<and> w_phase w = Fired \<and> w_ref w = ref
                         \<and> w_transition w > w_transition armed) db;
              repeating = isRepeatingTimer db ref;
              delivery = (case fired of None \<Rightarrow> None | Some f \<Rightarrow> w_delivery f);
              heldBack = (delivery = Some ''retained'' \<and> \<not> repeating)
          in Some \<lparr>st_kind = kind, st_ref = ref, st_phase = (if fired \<noteq> None then Fired else Armed),
               st_live = (if fired \<noteq> None \<and> \<not> repeating \<and> \<not> heldBack then False else wake_live db kind ref),
               st_delivery = delivery,
               st_unconsumed = (fired \<noteq> None \<and> \<not> heldBack \<and>
                  (case getById db i of Some r \<Rightarrow> q_state r = Q_blocked | None \<Rightarrow> False)),
               st_sweepOwned = repeating, st_expiresAt = wakeExpiry db i kind ref\<rparr>)"

text \<open>Whether a fired receipt uses up an attachment: a retained attempt never does, a failed one only on a
  one-shot timer.\<close>

definition consumes :: "bool \<Rightarrow> wake \<Rightarrow> bool" where
  "consumes repeating f =
     (w_delivery f \<noteq> Some ''retained'' \<and>
      (\<not> repeating \<or> (case w_delivery f of None \<Rightarrow> True
         | Some d \<Rightarrow> d \<noteq> ''failed'' \<and> \<not> starts_with ''failed:'' d)))"

definition attached_live :: "queue_db \<Rightarrow> string \<Rightarrow> queue_item \<Rightarrow> bool" where
  "attached_live db job r =
     (q_state r = Q_blocked \<and>
      (case latest_armed db (q_id r) of
         None \<Rightarrow> False
       | Some w \<Rightarrow> w_ref w = job \<and> w_kind w = Wake_watchdog \<and>
           \<not> list_ex (\<lambda>f. w_qitem f = q_id r \<and> w_phase f = Fired \<and> w_ref f = w_ref w
                \<and> w_transition f > w_transition w \<and> consumes (isRepeatingTimer db job) f) (d_wakes db)))"

definition findLiveQitemsByAttachedWatchdog :: "queue_db \<Rightarrow> string \<Rightarrow> string list" where
  "findLiveQitemsByAttachedWatchdog db job = map q_id (filter (attached_live db job) (d_items db))"

definition findQitemsByGeneratedTimer :: "queue_db \<Rightarrow> string \<Rightarrow> (string \<times> queue_state) list" where
  "findQitemsByGeneratedTimer db job =
     map (\<lambda>r. (q_id r, q_state r)) (filter (\<lambda>r. list_ex (\<lambda>w. w_qitem w = q_id r \<and> w_phase w = Armed
        \<and> w_ref w = job \<and> w_kind w = Wake_timer) (d_wakes db)) (d_items db))"

definition findCurrentQitemsByGeneratedTimer :: "queue_db \<Rightarrow> string \<Rightarrow> (string \<times> queue_state) list" where
  "findCurrentQitemsByGeneratedTimer db job =
     filter (\<lambda>(i, st). st = Q_blocked \<and> map_option st_ref (getStatus db i) = Some job)
       (findQitemsByGeneratedTimer db job)"

definition resolveWatchdogPreDeliveryTerminalReason :: "queue_db \<Rightarrow> string \<Rightarrow> string option" where
  "resolveWatchdogPreDeliveryTerminalReason db job =
     (if findQitemsByGeneratedTimer db job = [] \<or> findCurrentQitemsByGeneratedTimer db job \<noteq> [] then None
      else if findLiveQitemsByAttachedWatchdog db job \<noteq> [] then None
      else Some ''park_timer_target_terminal'')"

definition currentParkTimerIds :: "queue_db \<Rightarrow> string list" where
  "currentParkTimerIds db =
     map w_ref (filter (\<lambda>w. w_phase w = Armed \<and> w_kind w = Wake_timer \<and>
        (case getById db (w_qitem w) of None \<Rightarrow> False
         | Some r \<Rightarrow> q_state r = Q_blocked \<and>
             (case getJob db (w_ref w) of None \<Rightarrow> False
              | Some j \<Rightarrow> j_state j = Job_active \<and> j_target j = q_dest r)) \<and>
        latest_armed db (w_qitem w) = Some w) (d_wakes db))"

text \<open>Only a timer the park itself generated is retired, and only while no other row is attached to it.\<close>

definition retireParkGeneratedTimer :: "string \<Rightarrow> string \<Rightarrow> queue_db \<Rightarrow> queue_db" where
  "retireParkGeneratedTimer i reason db =
     (case getStatus db i of
        None \<Rightarrow> db
      | Some st \<Rightarrow>
          if st_kind st \<noteq> Wake_timer \<or> \<not> st_live st then db
          else if findLiveQitemsByAttachedWatchdog db (st_ref st) \<noteq> [] then db
          else markTerminal (st_ref st) reason db)"

section \<open>The repeating wait\<close>

definition blockerTransition :: "queue_db \<Rightarrow> string option \<Rightarrow> nat option" where
  "blockerTransition db blocker =
     (case blocker of
        Some b \<Rightarrow> if starts_with ''qitem-'' b then map_option fst (lastMeaningfulTransition db b) else None
      | None \<Rightarrow> None)"

record wait_input =
  wi_previousJob :: "string option"
  wi_qitem :: string
  wi_blocker :: "string option"
  wi_evidence :: "evidence option"
  wi_initial :: int
  wi_max :: int
  wi_message :: string
  wi_owner :: string
  wi_actor :: string

text \<open>The result is the job's id. \<open>Other\<close> attention revisions stay absent.\<close>

definition armQueueWait ::
  "queue_env \<Rightarrow> timestamp \<Rightarrow> string \<Rightarrow> wait_input \<Rightarrow> queue_db \<Rightarrow> queue_error + queue_db \<times> string" where
  "armQueueWait env now freshJob inp db =
     (let prior = (case wi_previousJob inp of Some p \<Rightarrow> if p \<noteq> [] then getJob db p else None | None \<Rightarrow> None);
          old = (case prior of Some j \<Rightarrow> if j_state j = Job_active then readWait (j_spec j) else None | None \<Rightarrow> None);
          ev = nullish (wi_evidence inp) (case old of None \<Rightarrow> None | Some w \<Rightarrow> ws_evidence w);
          st = \<lparr>ws_qitem = wi_qitem inp, ws_blocker = wi_blocker inp,
                ws_blockerTransition = blockerTransition db (wi_blocker inp), ws_evidence = ev,
                ws_initial = wi_initial inp, ws_max = wi_max inp, ws_eventPending = False,
                ws_attention = (case ev of None \<Rightarrow> None | Some e \<Rightarrow> e_attention env e), ws_notice = None\<rparr>;
          unchanged = (case old of None \<Rightarrow> False
            | Some w \<Rightarrow> w\<lparr>ws_eventPending := False, ws_notice := None\<rparr> = st);
          spec = Wait_spec (wi_owner inp) (wi_message inp) (if unchanged then the old else st)
      in case (prior, old) of
           (Some j, Some _) \<Rightarrow>
             if j_target j = wi_owner inp
             then Inr (updateSchedule (j_id j) spec (if unchanged then j_interval j else wi_initial inp)
                         (if unchanged then j_lastEvaluation j else Some now) db, j_id j)
             else map_sum id (\<lambda>d. (d, freshJob))
               (register_reminder env now freshJob spec (wi_owner inp) (wi_initial inp) (wi_actor inp) db)
         | _ \<Rightarrow> map_sum id (\<lambda>d. (d, freshJob))
               (register_reminder env now freshJob spec (wi_owner inp) (wi_initial inp) (wi_actor inp) db))"

text \<open>The epoch makes the moved wait due at once.\<close>

definition retargetQueueWait :: "string \<Rightarrow> string \<Rightarrow> queue_db \<Rightarrow> queue_db \<times> bool" where
  "retargetQueueWait job blocker db =
     (case getJob db job of
        None \<Rightarrow> (db, False)
      | Some j \<Rightarrow>
          (case (j_spec j, readWait (j_spec j)) of
             (Wait_spec sess msg _, Some w) \<Rightarrow>
               (updateSchedule job
                  (Wait_spec sess msg (w\<lparr>ws_blocker := Some blocker,
                     ws_blockerTransition := blockerTransition db (Some blocker),
                     ws_eventPending := True, ws_notice := None\<rparr>))
                  (ws_initial w) (Some 0) db, True)
           | _ \<Rightarrow> (db, False)))"

text \<open>After a delivery: an event wake restarts the initial interval, an unchanged timer wake doubles it up
  to the ceiling. \<open>notice\<close> is the receipt of this delivery.\<close>

definition backOffQueueWait :: "timestamp \<Rightarrow> string \<Rightarrow> string option \<Rightarrow> queue_db \<Rightarrow> queue_db \<times> bool" where
  "backOffQueueWait now job notice db =
     (case getJob db job of
        None \<Rightarrow> (db, False)
      | Some j \<Rightarrow>
          (case (j_spec j, readWait (j_spec j)) of
             (Wait_spec sess msg _, Some w) \<Rightarrow>
               let delay = (if ws_eventPending w then ws_initial w else min (j_interval j * 2) (ws_max w))
               in (updateSchedule job
                     (Wait_spec sess msg (w\<lparr>ws_notice := nullish notice (ws_notice w), ws_eventPending := False\<rparr>))
                     delay (Some now) db, True)
           | _ \<Rightarrow> (db, False)))"

end
