(* ===== verification/Queue_Create.thy ===== *)
theory Queue_Create
  imports Queue_Wakes
begin

text \<open>
  Creating and handing off (\<open>queue-repository.ts\<close>): the durable wake intent, \<open>create\<close> with its
  idempotent retry, the one propagation site of a closed blocker, and the three handoff verbs. A
  function is one transaction: \<open>Inl\<close> is the thrown error and leaves the tables as they were. \<open>now\<close>
  is the time of the call, \<open>fresh\<close> the id it mints; delivery after the commit is not modelled.
\<close>

section \<open>Wake intents\<close>

definition WAKE_TRIGGER_OPENRIG_TAG :: string where
  "WAKE_TRIGGER_OPENRIG_TAG = ''queue:wake-trigger:openrig''"

definition AUTO_UNPARK_WAKE_TAG :: string where
  "AUTO_UNPARK_WAKE_TAG = ''queue:auto-unpark:blocker''"

definition AUTO_UNPARK_BLOCKER_TAG_PREFIX :: string where
  "AUTO_UNPARK_BLOCKER_TAG_PREFIX = ''queue:auto-unpark:blocker-ref:''"

definition OPENRIG_SENDER :: string where
  "OPENRIG_SENDER = ''daemon@kernel''"

definition isOpenRigSender :: "string \<Rightarrow> bool" where
  "isOpenRigSender s \<longleftrightarrow> s = OPENRIG_SENDER \<or> starts_with ''system:'' s"

record wake_admission =
  wa_openrig :: bool
  wa_urgent :: bool
  wa_urgentBy :: "string option"

definition wakeAdmission :: "queue_db \<Rightarrow> string \<Rightarrow> bool \<Rightarrow> wake_admission" where
  "wakeAdmission db i openrig =
     (let row = getById db i;
          urgent = (case row of None \<Rightarrow> False | Some r \<Rightarrow> q_priority r = ''urgent'' \<or> q_priority r = ''critical'')
      in \<lparr>wa_openrig = openrig, wa_urgent = urgent,
          wa_urgentBy = (if urgent then Some (if openrig then ''OpenRig'' else q_source (the row)) else None)\<rparr>)"

record intent_input =
  wk_outboxId :: string
  wk_pointer :: string
  wk_replyTo :: "string option"
  wk_from :: string
  wk_to :: string
  wk_provenance :: "string option"
  wk_body :: string
  wk_tags :: "string list option"

definition wake_record :: "queue_env \<Rightarrow> intent_input \<Rightarrow> wake_admission \<Rightarrow> outbox_input" where
  "wake_record env inp adm =
     (let frozen = e_envelope env (wk_from inp) (wk_to inp) (wk_body inp) (wk_replyTo inp)
      in \<lparr>in_outboxId = Some (wk_outboxId inp), in_sender = wk_from inp, in_destination = wk_to inp,
          in_body = (if truthy (wa_urgentBy adm) then e_urgentLine env frozen (the (wa_urgentBy adm)) else frozen),
          in_tags = wk_tags inp, in_urgency = (if wa_urgent adm then Some ''urgent'' else None),
          in_auditPointer = Some (wk_pointer inp), in_provenance = wk_provenance inp, in_principal = None\<rparr>)"

definition bind_guard :: "string \<Rightarrow> guard_binding option \<Rightarrow> outbox \<Rightarrow> outbox" where
  "bind_guard i binding s = (case binding of None \<Rightarrow> s
     | Some b \<Rightarrow> row_set (\<lambda>e. outboxId e = i \<and> guardBinding e = None) (\<lambda>e. e\<lparr>guardBinding := Some b\<rparr>) s)"

definition stage_outbox :: "queue_env \<Rightarrow> timestamp \<Rightarrow> intent_input \<Rightarrow> wake_admission \<Rightarrow> outbox \<Rightarrow> outbox_error + outbox" where
  "stage_outbox env now inp adm s =
     (let entry = wake_record env inp adm; i = wk_outboxId inp;
          frozen = e_envelope env (wk_from inp) (wk_to inp) (wk_body inp) (wk_replyTo inp)
      in case e_retentionTarget env (wk_to inp) (wa_openrig adm) (wa_urgent adm) of
           Some target \<Rightarrow> map_sum id fst (retain now i entry target False s)
         | None \<Rightarrow>
             try_bind (case e_draftNode env (wk_to inp) of
                 Some node \<Rightarrow> if assertRetentionCapacity node frozen s then Inr () else Inl Retained_quota_full
               | None \<Rightarrow> Inr ())
             (\<lambda>_. try_bind (record_entry now i entry s)
             (\<lambda>(s', _). Inr (bind_guard i (e_deliveryTarget env (wk_to inp)) s'))))"

definition recordWakeIntent :: "queue_env \<Rightarrow> timestamp \<Rightarrow> intent_input \<Rightarrow> queue_db \<Rightarrow> outbox_error + queue_db" where
  "recordWakeIntent env now inp db =
     (if \<not> e_outbox env then Inr db
      else map_sum id (\<lambda>s. db\<lparr>d_outbox := s\<rparr>)
        (stage_outbox env now inp
          (wakeAdmission db (wk_pointer inp) (WAKE_TRIGGER_OPENRIG_TAG \<in> set (or_default (wk_tags inp) [])))
          (d_outbox db)))"

definition stageWakeIntent ::
  "queue_env \<Rightarrow> timestamp \<Rightarrow> string \<Rightarrow> string \<Rightarrow> string \<Rightarrow> string option \<Rightarrow> bool option \<Rightarrow> bool
     \<Rightarrow> queue_db \<Rightarrow> outbox_error + queue_db" where
  "stageWakeIntent env now successorId from to prov nudge openrig db =
     (if nudge = Some False then Inr db
      else
        (let successor = getById db successorId;
             handedFrom = (case successor of None \<Rightarrow> None | Some r \<Rightarrow> q_handedOffFrom r);
             returns = (if truthy handedFrom then [''queue:return:'' @ the handedFrom] else []);
             triggers = (if openrig then [WAKE_TRIGGER_OPENRIG_TAG] else [])
         in recordWakeIntent env now
              \<lparr>wk_outboxId = WAKE_INTENT_PREFIX @ successorId, wk_pointer = successorId,
               wk_replyTo = Some successorId, wk_from = from, wk_to = to, wk_provenance = prov,
               wk_body = e_nudgeText env successorId (case successor of None \<Rightarrow> None | Some r \<Rightarrow> q_summary r),
               wk_tags = (if returns @ triggers = [] then None else Some (returns @ triggers))\<rparr> db))"

definition recordNudgeAttempt :: "timestamp \<Rightarrow> string \<Rightarrow> string \<Rightarrow> queue_db \<Rightarrow> queue_db" where
  "recordNudgeAttempt now i result =
     update_row i (\<lambda>r. r\<lparr>q_nudgeAttempt := Some now, q_nudgeResult := Some result\<rparr>)"

definition wake_not_retained :: "queue_env \<Rightarrow> timestamp \<Rightarrow> string \<Rightarrow> outbox_error \<Rightarrow> queue_db \<Rightarrow> queue_db" where
  "wake_not_retained env now i e = recordNudgeAttempt now i (WAKE_NOT_RETAINED @ e_message env e)"

definition stageHandoffWake ::
  "queue_env \<Rightarrow> timestamp \<Rightarrow> string \<Rightarrow> string \<Rightarrow> string \<Rightarrow> string option \<Rightarrow> bool option
     \<Rightarrow> queue_db \<Rightarrow> queue_error + queue_db" where
  "stageHandoffWake env now successorId from to prov nudge db =
     (case stageWakeIntent env now successorId from to prov nudge False db of
        Inr db' \<Rightarrow> Inr db'
      | Inl e \<Rightarrow> if e = Retained_quota_full then Inr (wake_not_retained env now successorId e db)
                else Inl (Outbox_error e))"

definition stageAutoUnparkWakeIntent ::
  "queue_env \<Rightarrow> timestamp \<Rightarrow> string \<Rightarrow> string \<Rightarrow> string \<Rightarrow> string option \<Rightarrow> string \<Rightarrow> nat
     \<Rightarrow> queue_db \<Rightarrow> queue_error + queue_db" where
  "stageAutoUnparkWakeIntent env now i dest from prov blocker transitionId db =
     map_sum Outbox_error id (recordWakeIntent env now
       \<lparr>wk_outboxId = WAKE_INTENT_PREFIX @ ''blocker-'' @ nat_str transitionId, wk_pointer = i,
        wk_replyTo = None, wk_from = from, wk_to = dest, wk_provenance = prov,
        wk_body = ''Blocker '' @ blocker @ '' resolved; parked qitem '' @ i @
          '' is pending. Resume the recorded continuation and update the row.'',
        wk_tags = Some [AUTO_UNPARK_WAKE_TAG, WAKE_TRIGGER_OPENRIG_TAG,
          AUTO_UNPARK_BLOCKER_TAG_PREFIX @ blocker, ''queue:return:'' @ blocker]\<rparr> db)"

definition assertTerminalClosureHasIntent ::
  "queue_env \<Rightarrow> string \<Rightarrow> string \<Rightarrow> bool option \<Rightarrow> queue_db \<Rightarrow> queue_error + queue_db" where
  "assertTerminalClosureHasIntent env source successorId nudge db =
     (if nudge = Some False then Inr db
      else if \<not> e_outbox env then Inl Wake_intent_store_unavailable
      else case getById db source of
          None \<Rightarrow> Inr db
        | Some src \<Rightarrow>
            if \<not> isTerminalState (q_state src) then Inr db
            else if getEntry (d_outbox db) (WAKE_INTENT_PREFIX @ successorId) = None \<and>
              \<not> (case getById db successorId of None \<Rightarrow> False
                 | Some r \<Rightarrow> (case q_nudgeResult r of None \<Rightarrow> False | Some t \<Rightarrow> starts_with WAKE_NOT_RETAINED t))
            then Inl Terminal_close_without_wake_intent
            else Inr db)"

section \<open>Create\<close>

text \<open>Fields the routes pass unchecked are JSON values; \<open>null\<close> and absent are both absent.\<close>

record create_input =
  c_id :: "string option"
  c_source :: string
  c_dest :: string
  c_body :: string
  c_priority :: "string option"
  c_tier :: "string option"
  c_tags :: "string list option"
  c_expiresAt :: "string option"
  c_chain :: "string list option"
  c_handedOffFrom :: "string option"
  c_targetRepo :: "string option"
  c_intent :: "string option"
  c_alert :: "json option"
  c_detail :: "json option"
  c_replyTo :: "string option"
  c_inboundReplyTo :: "string option"
  c_gateway :: bool
  c_questions :: "json option"
  c_summary :: "string option"
  c_evidence :: "string option"
  c_nudge :: "bool option"
  c_provenance :: "string option"
  c_principal :: "string option"
  c_openrig :: bool

definition present :: "json option \<Rightarrow> json option" where
  "present j = (if j = Some J_null then None else j)"

definition parse_intent :: "string option \<Rightarrow> human_intent option" where
  "parse_intent v = (if v = Some ''decision'' then Some Intent_decision
     else if v = Some ''update'' then Some Intent_update else None)"

definition alert_of :: "json option \<Rightarrow> bool option" where
  "alert_of j = (case j of Some (J_bool b) \<Rightarrow> Some b | _ \<Rightarrow> None)"

text \<open>The guards of \<open>assertHumanAlert\<close>, \<open>validateReplyTo\<close> and \<open>createInTransactionalContext\<close>, in order.\<close>

definition human_alert_guards :: "queue_env \<Rightarrow> json option \<Rightarrow> string \<Rightarrow> human_intent option \<Rightarrow> (bool \<times> queue_error) list" where
  "human_alert_guards env alert dest intent =
     [(present alert \<noteq> None \<and> alert_of alert = None, Invalid_human_notification),
      (alert_of alert = Some True \<and> (\<not> isPersonAddress env dest \<or> intent = Some Intent_update),
         Invalid_human_notification)]"

definition create_guards :: "queue_env \<Rightarrow> create_input \<Rightarrow> queue_db \<Rightarrow> (bool \<times> queue_error) list" where
  "create_guards env inp db =
     (let intent = parse_intent (c_intent inp); detail = present (c_detail inp);
          human = isHumanSeatSessionRef (c_dest inp)
      in [(c_intent inp \<noteq> None \<and> intent = None, Invalid_human_notification),
          (detail \<noteq> None \<and> (case string_of detail of None \<Rightarrow> True | Some t \<Rightarrow> trim t = []), Invalid_human_notification),
          ((c_intent inp \<noteq> None \<or> detail \<noteq> None) \<and> \<not> human, Invalid_human_notification),
          (c_replyTo inp \<noteq> None \<and> intent \<noteq> Some Intent_update, Reply_to_requires_update),
          (c_replyTo inp \<noteq> None \<and> getById db (the (c_replyTo inp)) = None, Reply_to_not_found),
          (present (c_questions inp) \<noteq> None \<and> \<not> human, Invalid_human_questions None),
          (present (c_questions inp) \<noteq> None \<and> intent = Some Intent_update, Invalid_human_questions None)])"

definition parsed_questions :: "create_input \<Rightarrow> queue_error + human_question list option" where
  "parsed_questions inp = (case present (c_questions inp) of
     None \<Rightarrow> Inr None
   | Some v \<Rightarrow> map_sum (\<lambda>e. Invalid_human_questions (Some e)) Some (parseHumanQuestions v))"

definition created_row :: "queue_env \<Rightarrow> timestamp \<Rightarrow> string \<Rightarrow> create_input \<Rightarrow> human_question list option \<Rightarrow> queue_db \<Rightarrow> queue_item" where
  "created_row env now i inp questions db =
     \<lparr>q_id = i, q_created = now, q_updated = now, q_source = c_source inp, q_dest = c_dest inp,
      q_state = Q_pending, q_priority = or_default (c_priority inp) ''routine'', q_tier = c_tier inp,
      q_tags = withHumanAlertTag (c_tags inp) (alert_of (c_alert inp)), q_blockedOn = None,
      q_handedOffTo = None, q_handedOffFrom = c_handedOffFrom inp, q_expiresAt = c_expiresAt inp,
      q_chain = c_chain inp, q_body = c_body inp, q_humanIntent = parse_intent (c_intent inp),
      q_humanDetail = string_of (present (c_detail inp)),
      q_replyTo = nullish (c_replyTo inp) (case c_inboundReplyTo inp of
          Some r \<Rightarrow> if getById db r \<noteq> None \<or> r = i then Some r else None | None \<Rightarrow> None),
      q_questions = questions, q_summary = c_summary inp, q_evidence = c_evidence inp,
      q_closureReason = None, q_closureTarget = None, q_closureRequiredAt = None, q_claimedAt = None,
      q_nudgeAttempt = None, q_nudgeResult = None, q_resolution = None, q_targetRepo = c_targetRepo inp,
      q_mintedBy = e_generation env (c_source inp), q_claimedBy = None\<rparr>"

definition insert_row :: "queue_item \<Rightarrow> queue_db \<Rightarrow> queue_error + queue_db" where
  "insert_row r db = (case row_insert q_id r (d_items db) of
     None \<Rightarrow> Inl Primary_key_conflict | Some rows \<Rightarrow> Inr (db\<lparr>d_items := rows\<rparr>))"

definition create_notification :: "queue_env \<Rightarrow> string \<Rightarrow> human_intent option \<Rightarrow> bool option \<Rightarrow> bool \<Rightarrow> (string \<times> notify_level) option" where
  "create_notification env dest intent alert gateway =
     classifyOwnerNotification env \<lparr>n_create = True, n_dest = dest, n_prevState = None, n_prevBlockedOn = None,
       n_nextState = Q_pending, n_nextBlockedOn = None, n_resolved = False, n_intent = intent,
       n_alert = alert, n_gateway = gateway\<rparr>"

definition createInTransactionalContext ::
  "queue_env \<Rightarrow> timestamp \<Rightarrow> string \<Rightarrow> create_input \<Rightarrow> queue_db \<Rightarrow> queue_error + queue_db \<times> string" where
  "createInTransactionalContext env now fresh inp db =
     (case validateHumanRoute (c_tier inp) (c_dest inp) (c_summary inp) (c_evidence inp) of
        Inl e \<Rightarrow> Inl (Human_route_error e)
      | Inr _ \<Rightarrow>
          unless_refused (create_guards env inp db)
          (try_bind (parsed_questions inp) (\<lambda>questions.
           unless_refused (human_alert_guards env (c_alert inp) (c_dest inp) (parse_intent (c_intent inp)))
           (let i = or_default (c_id inp) fresh;
                intent = parse_intent (c_intent inp);
                priority = or_default (c_priority inp) ''routine''
            in try_bind (insert_row (created_row env now i inp questions db) db) (\<lambda>db1.
               Inr (persist_event (Queue_created i (c_source inp) (c_dest inp) priority (c_tier inp) (c_summary inp))
                     (append_transition env ((plain_transition i Q_pending (c_source inp) (Some ''created''))
                       \<lparr>ti_provenance := c_provenance inp, ti_principal := c_principal inp,
                        ti_notification := create_notification env (c_dest inp) intent
                          (alert_of (c_alert inp)) (c_gateway inp)\<rparr>) db1), i))))))"

definition createWithinTransaction ::
  "queue_env \<Rightarrow> timestamp \<Rightarrow> string \<Rightarrow> create_input \<Rightarrow> queue_db \<Rightarrow> queue_error + queue_db \<times> string" where
  "createWithinTransaction env now fresh inp db =
     (if \<not> e_validateRig env (c_dest inp) then Inl Destination_refused
      else createInTransactionalContext env now fresh inp db)"

text \<open>Staging a create's wake never loses the row: the refusal is recorded on it.\<close>

definition create_staged ::
  "queue_env \<Rightarrow> timestamp \<Rightarrow> string \<Rightarrow> create_input \<Rightarrow> queue_db \<Rightarrow> queue_error + queue_db \<times> string" where
  "create_staged env now fresh inp db =
     try_bind (createInTransactionalContext env now fresh inp db) (\<lambda>(db1, i).
       if \<not> e_outbox env \<or> c_nudge inp = Some False then Inr (db1, i)
       else
         (let wakeFrom = (if c_openrig inp \<and> \<not> isOpenRigSender (c_source inp) then OPENRIG_SENDER else c_source inp)
          in case stageWakeIntent env now i wakeFrom (c_dest inp) (sideEffectProvenance (c_provenance inp))
                    (c_nudge inp) (c_openrig inp) db1 of
               Inr db2 \<Rightarrow> Inr (db2, i)
             | Inl e \<Rightarrow> Inr (wake_not_retained env now i e db1, i)))"

text \<open>The result carries whether the retry's different body was not saved.\<close>

definition create ::
  "queue_env \<Rightarrow> timestamp \<Rightarrow> string \<Rightarrow> create_input \<Rightarrow> queue_db \<Rightarrow> queue_error + queue_db \<times> (queue_item \<times> bool)" where
  "create env now fresh inp db =
     (if \<not> e_validateRig env (c_dest inp) then Inl Destination_refused
      else case create_staged env now fresh inp db of
          Inr (db', i) \<Rightarrow> map_sum id (\<lambda>r. (db', (r, False))) (getByIdOrThrow db' i)
        | Inl Primary_key_conflict \<Rightarrow>
            (case (if truthy (c_id inp) then getById db (the (c_id inp)) else None) of
               None \<Rightarrow> Inl Primary_key_conflict
             | Some existing \<Rightarrow>
                 if q_dest existing = c_dest inp \<and> q_source existing = c_source inp
                 then Inr (db, (existing, q_body existing \<noteq> c_body inp))
                 else Inl Qitem_id_reuse)
        | Inl e \<Rightarrow> Inl e)"

section \<open>Propagation of a closed blocker\<close>

definition summary_of :: "queue_db \<Rightarrow> string \<Rightarrow> string option" where
  "summary_of db i = (case getById db i of None \<Rightarrow> None | Some r \<Rightarrow> q_summary r)"

definition handoff_successors :: "queue_db \<Rightarrow> string \<Rightarrow> queue_item list" where
  "handoff_successors db source =
     filter (\<lambda>s. q_handedOffFrom s = Some source \<and>
        q_dest s = or_default (case getById db source of None \<Rightarrow> None | Some c \<Rightarrow> q_handedOffTo c) [])
       (d_items db)"

text \<open>The successor that takes the blocker's place, when there is exactly one and it is live.\<close>

definition new_blocker :: "queue_db \<Rightarrow> string \<Rightarrow> queue_state \<Rightarrow> string \<Rightarrow> queue_item option" where
  "new_blocker db source terminal waiting =
     (if terminal \<noteq> Q_handed_off then None
      else case handoff_successors db source of
          [s] \<Rightarrow> if isBlockerLive (q_state s) \<and> q_dest s \<noteq> waiting then Some s else None
        | _ \<Rightarrow> None)"

definition rebind_waiter ::
  "queue_env \<Rightarrow> timestamp \<Rightarrow> string \<Rightarrow> string \<Rightarrow> string option \<Rightarrow> queue_item \<Rightarrow> string \<Rightarrow> queue_db \<Rightarrow> queue_db" where
  "rebind_waiter env now source actor prov successor i db =
     (let oldWake = getStatus db i;
          db1 = update_row i (\<lambda>r. r\<lparr>q_blockedOn := Some (q_id successor), q_updated := now\<rparr>) db;
          db2 = append_transition env ((plain_transition i Q_blocked actor
                  (Some (''blocker custody moved from '' @ source @ '' to '' @ q_id successor)))
                  \<lparr>ti_provenance := prov\<rparr>) db1;
          rebound = last_transition_id db2;
          (db3, retained) = (case oldWake of
             Some st \<Rightarrow> if st_kind st = Wake_timer then retargetQueueWait (st_ref st) (q_id successor) db2 else (db2, False)
           | None \<Rightarrow> (db2, False));
          db4 = (if retained then db3 else retireParkGeneratedTimer i ''blocker_custody_moved'' db3);
          db5 = record_wake \<lparr>w_transition = rebound, w_qitem = i, w_phase = Armed,
                  w_kind = (if retained then Wake_timer else Wake_blocker),
                  w_ref = (if retained then st_ref (the oldWake) else q_id successor), w_delivery = None\<rparr> db4
      in persist_event (Queue_updated i ''blocked'' ''blocked'' None None actor (summary_of db5 i)) db5)"

definition unpark_waiter ::
  "queue_env \<Rightarrow> timestamp \<Rightarrow> string \<Rightarrow> queue_state \<Rightarrow> string \<Rightarrow> string option \<Rightarrow> string \<Rightarrow> string
     \<Rightarrow> queue_db \<Rightarrow> queue_error + queue_db" where
  "unpark_waiter env now source terminal actor prov i dest db =
     (let db1 = update_row i (\<lambda>r. r\<lparr>q_state := Q_pending, q_blockedOn := None, q_updated := now\<rparr>) db;
          db2 = append_transition env (plain_transition i Q_pending actor
                  (Some (''auto-unparked: blocker '' @ source @ '' reached terminal state '' @ [CHR 0x27]
                    @ state_name terminal @ [CHR 0x27]))) db1;
          resumed = last_transition_id db2;
          db3 = retireParkGeneratedTimer i ''park_ended:auto-unparked'' db2
      in try_bind (stageAutoUnparkWakeIntent env now i dest actor prov source resumed db3) (\<lambda>db4.
           Inr (persist_event (Queue_updated i ''blocked'' ''pending'' None None actor (summary_of db4 i)) db4)))"

definition propagate_one ::
  "queue_env \<Rightarrow> timestamp \<Rightarrow> string \<Rightarrow> queue_state \<Rightarrow> string \<Rightarrow> string option \<Rightarrow> string \<times> string
     \<Rightarrow> queue_db \<Rightarrow> queue_error + queue_db" where
  "propagate_one env now source terminal actor prov waiter db =
     (case new_blocker db source terminal (snd waiter) of
        Some s \<Rightarrow> Inr (rebind_waiter env now source actor prov s (fst waiter) db)
      | None \<Rightarrow> unpark_waiter env now source terminal actor prov (fst waiter) (snd waiter) db)"

definition waiters :: "queue_db \<Rightarrow> string \<Rightarrow> (string \<times> string) list" where
  "waiters db source = map (\<lambda>r. (q_id r, q_dest r))
     (filter (\<lambda>r. q_blockedOn r = Some source \<and> q_state r = Q_blocked) (d_items db))"

definition propagateBlockerCompletion ::
  "queue_env \<Rightarrow> timestamp \<Rightarrow> string \<Rightarrow> queue_state \<Rightarrow> string \<Rightarrow> string option \<Rightarrow> queue_db \<Rightarrow> queue_error + queue_db" where
  "propagateBlockerCompletion env now source terminal actor prov db =
     try_fold (propagate_one env now source terminal actor prov) (waiters db source) db"

section \<open>Handing off\<close>

definition RUNNER_PERMISSION_TAG :: string where
  "RUNNER_PERMISSION_TAG = ''runner-permission''"

definition tagValue :: "queue_item \<Rightarrow> string \<Rightarrow> string option" where
  "tagValue r p = map_option (drop (length p)) (find (starts_with p) (or_default (q_tags r) []))"

definition runnerPermissionOrigin :: "queue_item \<Rightarrow> (string \<times> string) option" where
  "runnerPermissionOrigin r =
     (if RUNNER_PERMISSION_TAG \<notin> set (or_default (q_tags r) []) then None
      else
        (let node = tagValue r ''permission-node:''; gen = tagValue r ''permission-generation:''
         in if truthy node \<and> truthy gen then Some (the node, the gen) else None))"

text \<open>At most eleven rows along \<open>handed_off_from\<close>.\<close>

fun permission_chain :: "nat \<Rightarrow> queue_db \<Rightarrow> queue_item option \<Rightarrow> human_question list option" where
  "permission_chain 0 db current = None"
| "permission_chain (Suc n) db None = None"
| "permission_chain (Suc n) db (Some r) =
     (if runnerPermissionOrigin r = None then None
      else if or_default (q_questions r) [] \<noteq> [] then q_questions r
      else permission_chain n db (if truthy (q_handedOffFrom r) then getById db (the (q_handedOffFrom r)) else None))"

definition permissionQuestionsFor :: "queue_db \<Rightarrow> queue_item \<Rightarrow> human_question list option" where
  "permissionQuestionsFor db r = permission_chain 11 db (Some r)"

text \<open>The options a person's successor row carries, read before the successor is inserted: the chain runs
  over earlier rows only.\<close>

definition carried_questions :: "queue_env \<Rightarrow> queue_db \<Rightarrow> queue_item \<Rightarrow> string \<Rightarrow> human_question list option" where
  "carried_questions env db source toSession =
     (if runnerPermissionOrigin source = None \<or> \<not> isPersonAddress env toSession then None
      else permissionQuestionsFor db source)"

record handoff_input =
  h_id :: string
  h_from :: string
  h_to :: string
  h_body :: "string option"
  h_note :: "string option"
  h_priority :: "string option"
  h_tier :: "string option"
  h_tags :: "string list option"
  h_nudge :: "bool option"
  h_targetRepo :: "string option option"
  h_summary :: "string option"
  h_evidence :: "string option"
  h_provenance :: "string option"
  h_principal :: "string option"
  h_alert :: "json option"

definition successor_row ::
  "queue_env \<Rightarrow> timestamp \<Rightarrow> string \<Rightarrow> handoff_input \<Rightarrow> queue_item \<Rightarrow> human_question list option \<Rightarrow> queue_item" where
  "successor_row env now fresh inp source carried =
     \<lparr>q_id = fresh, q_created = now, q_updated = now, q_source = h_from inp, q_dest = h_to inp,
      q_state = Q_pending, q_priority = or_default (h_priority inp) (q_priority source),
      q_tier = nullish (h_tier inp) (q_tier source),
      q_tags = withHumanAlertTag (nullish (h_tags inp) (q_tags source)) (alert_of (h_alert inp)),
      q_blockedOn = None, q_handedOffTo = None, q_handedOffFrom = Some (q_id source), q_expiresAt = None,
      q_chain = Some (or_default (q_chain source) [] @ [q_id source]),
      q_body = or_default (h_body inp) (q_body source),
      q_humanIntent = (if carried = None then None else Some Intent_decision), q_humanDetail = None,
      q_replyTo = None, q_questions = carried, q_summary = h_summary inp, q_evidence = h_evidence inp,
      q_closureReason = None, q_closureTarget = None, q_closureRequiredAt = None, q_claimedAt = None,
      q_nudgeAttempt = None, q_nudgeResult = None, q_resolution = None,
      q_targetRepo = (case h_targetRepo inp of None \<Rightarrow> q_targetRepo source | Some t \<Rightarrow> t),
      q_mintedBy = e_generation env (h_from inp), q_claimedBy = None\<rparr>"

definition close_source ::
  "queue_env \<Rightarrow> timestamp \<Rightarrow> string \<Rightarrow> queue_state \<Rightarrow> string \<Rightarrow> string \<Rightarrow> transition_input \<Rightarrow> queue_db \<Rightarrow> queue_db" where
  "close_source env now i terminal toSession target transition db =
     retireParkGeneratedTimer i (''park_ended:'' @ state_name terminal)
       (append_transition env (transition\<lparr>ti_reason := Some ''handed_off_to'', ti_target := Some target\<rparr>)
         (update_row i (\<lambda>r. r\<lparr>q_state := terminal, q_updated := now, q_handedOffTo := Some toSession,
            q_closureReason := Some ''handed_off_to'', q_closureTarget := Some target\<rparr>) db))"

text \<open>\<open>handoff\<close> and \<open>handoffAndComplete\<close> differ in the terminal state, the notes, and the stamp of the
  successor's transition, which only \<open>handoff\<close> writes.\<close>

definition handoff_body ::
  "queue_env \<Rightarrow> timestamp \<Rightarrow> string \<Rightarrow> queue_state \<Rightarrow> string \<Rightarrow> string \<Rightarrow> bool \<Rightarrow> handoff_input \<Rightarrow> queue_item
     \<Rightarrow> queue_db \<Rightarrow> queue_error + queue_db" where
  "handoff_body env now fresh terminal closeNote openNote stamped inp source db =
     (let carried = carried_questions env db source (h_to inp);
          row = successor_row env now fresh inp source carried;
          stamp = (\<lambda>t. t\<lparr>ti_provenance := h_provenance inp, ti_principal := h_principal inp\<rparr>);
          alert = (case present (h_alert inp) of None \<Rightarrow> if carried = None then None else Some True
             | a \<Rightarrow> alert_of a);
          prov = sideEffectProvenance (h_provenance inp);
          db1 = close_source env now (q_id source) terminal (h_to inp) (h_to inp)
                  (stamp (plain_transition (q_id source) terminal (h_from inp)
                     (Some (or_default (h_note inp) closeNote)))) db
      in try_bind (insert_row row db1) (\<lambda>db2.
         try_bind (stageHandoffWake env now fresh (h_from inp) (h_to inp) prov (h_nudge inp)
           (append_transition env
             ((if stamped then stamp else id) ((plain_transition fresh Q_pending (h_from inp)
                 (Some (openNote @ '' from '' @ q_id source)))
                \<lparr>ti_notification := create_notification env (h_to inp) None alert False\<rparr>)) db2)) (\<lambda>db3.
         try_bind (propagateBlockerCompletion env now (q_id source) terminal (h_from inp) prov
           (persist_event (Queue_handed_off (q_id source) (h_from inp) (h_to inp) (q_summary source)) db3)) (\<lambda>db4.
         assertTerminalClosureHasIntent env (q_id source) fresh (h_nudge inp)
           (persist_event (Queue_created fresh (h_from inp) (h_to inp) (q_priority row) (q_tier row)
              (h_summary inp)) db4)))))"

definition handoff_guards :: "queue_env \<Rightarrow> handoff_input \<Rightarrow> queue_item \<Rightarrow> (bool \<times> queue_error) list" where
  "handoff_guards env inp source =
     [(isTerminalState (q_state source), Qitem_already_terminal),
      (\<not> e_validateRig env (h_to inp), Destination_refused)]
     @ human_alert_guards env (h_alert inp) (h_to inp) None"

definition handoff_with ::
  "queue_state \<Rightarrow> string \<Rightarrow> string \<Rightarrow> bool \<Rightarrow> queue_env \<Rightarrow> timestamp \<Rightarrow> string \<Rightarrow> handoff_input
     \<Rightarrow> queue_db \<Rightarrow> queue_error + queue_db" where
  "handoff_with terminal closeNote openNote stamped env now fresh inp db =
     (case getById db (h_id inp) of
        None \<Rightarrow> Inl Qitem_not_found
      | Some source \<Rightarrow>
          unless_refused (handoff_guards env inp source)
          (case validateHumanRoute (nullish (h_tier inp) (q_tier source)) (h_to inp) (h_summary inp) (h_evidence inp) of
             Inl e \<Rightarrow> Inl (Human_route_error e)
           | Inr _ \<Rightarrow> handoff_body env now fresh terminal closeNote openNote stamped inp source db))"

definition handoff :: "queue_env \<Rightarrow> timestamp \<Rightarrow> string \<Rightarrow> handoff_input \<Rightarrow> queue_db \<Rightarrow> queue_error + queue_db" where
  "handoff env now fresh inp db =
     handoff_with Q_handed_off (''handed off to '' @ h_to inp) ''handoff'' True env now fresh inp db"

definition handoffAndComplete :: "queue_env \<Rightarrow> timestamp \<Rightarrow> string \<Rightarrow> handoff_input \<Rightarrow> queue_db \<Rightarrow> queue_error + queue_db" where
  "handoffAndComplete env now fresh inp db =
     handoff_with Q_done (''handoff-and-complete to '' @ h_to inp) ''handoff-and-complete'' False env now fresh inp db"

record cross_host_input =
  x_id :: string
  x_from :: string
  x_to :: string
  x_target :: string
  x_done :: bool
  x_note :: "string option"
  x_provenance :: "string option"

text \<open>The flag says that an earlier close was absorbed.\<close>

definition closeCrossHostHandoffSource ::
  "queue_env \<Rightarrow> timestamp \<Rightarrow> cross_host_input \<Rightarrow> queue_db \<Rightarrow> queue_error + queue_db \<times> bool" where
  "closeCrossHostHandoffSource env now inp db =
     (case getById db (x_id inp) of
        None \<Rightarrow> Inl Qitem_not_found
      | Some source \<Rightarrow>
          if isTerminalState (q_state source) then
            (if q_closureTarget source = Some (x_target inp) then Inr (db, True) else Inl Cross_host_close_conflict)
          else
            (let terminal = (if x_done inp then Q_done else Q_handed_off)
             in map_sum id (\<lambda>d. (d, False))
               (propagateBlockerCompletion env now (x_id inp) terminal (x_from inp)
                 (sideEffectProvenance (x_provenance inp))
                 (persist_event (Queue_handed_off (x_id inp) (x_from inp) (x_to inp) (q_summary source))
                   (close_source env now (x_id inp) terminal (x_to inp) (x_target inp)
                     ((plain_transition (x_id inp) terminal (x_from inp)
                        (Some (or_default (x_note inp) (''cross-host handoff to '' @ x_to inp))))
                       \<lparr>ti_provenance := x_provenance inp\<rparr>) db)))))"

end
