(* ===== verification/Queue_Update.thy ===== *)
theory Queue_Update
  imports Queue_Create
begin

text \<open>
  The other writers of \<open>queue-repository.ts\<close>: \<open>claim\<close>, \<open>unclaim\<close>, the general \<open>update\<close> with its
  guards in source order, the fallback route, and the two ways a seat swap moves claims.
\<close>

section \<open>Claim and unclaim\<close>

definition claim ::
  "queue_env \<Rightarrow> timestamp \<Rightarrow> string \<Rightarrow> string \<Rightarrow> string option \<Rightarrow> string option \<Rightarrow> queue_db \<Rightarrow> queue_error + queue_db" where
  "claim env now i session prov grantee db =
     (case getById db i of
        None \<Rightarrow> Inl Qitem_not_found
      | Some r \<Rightarrow>
          unless_refused
            [(q_dest r \<notin> set (e_addresses env session), Claim_destination_mismatch),
             (q_state r \<noteq> Q_pending \<and> q_state r \<noteq> Q_blocked, Qitem_not_claimable)]
            (case computeClosureRequiredAt now (q_tier r) of
               Inl _ \<Rightarrow> Inl Deadline_unrepresentable
             | Inr deadline \<Rightarrow>
                 Inr (persist_event (Queue_claimed i session now deadline (q_summary r))
                   (retireParkGeneratedTimer i ''park_ended:claimed''
                     (append_transition env ((plain_transition i Q_in_progress session (Some ''claimed''))
                        \<lparr>ti_target := (if q_state r = Q_blocked then q_blockedOn r else None),
                         ti_provenance := prov, ti_principal := grantee\<rparr>)
                       (update_row i (\<lambda>q. q\<lparr>q_state := Q_in_progress, q_updated := now, q_claimedAt := Some now,
                          q_closureRequiredAt := deadline, q_claimedBy := e_generation env session,
                          q_blockedOn := None\<rparr>) db))))))"

definition unclaim ::
  "queue_env \<Rightarrow> timestamp \<Rightarrow> string \<Rightarrow> string \<Rightarrow> string \<Rightarrow> string option \<Rightarrow> string option \<Rightarrow> queue_db \<Rightarrow> queue_error + queue_db" where
  "unclaim env now i session reason prov grantee db =
     (case getById db i of
        None \<Rightarrow> Inl Qitem_not_found
      | Some r \<Rightarrow>
          if q_state r \<noteq> Q_in_progress then Inl Qitem_not_in_progress
          else Inr (persist_event (Queue_unclaimed i session reason (q_summary r))
                 (append_transition env ((plain_transition i Q_pending session (Some (''unclaimed: '' @ reason)))
                    \<lparr>ti_provenance := prov, ti_principal := grantee\<rparr>)
                   (update_row i (\<lambda>q. q\<lparr>q_state := Q_pending, q_updated := now, q_claimedAt := None,
                      q_closureRequiredAt := None, q_claimedBy := None\<rparr>) db))))"

section \<open>Seat swaps\<close>

definition claimed_rows :: "queue_db \<Rightarrow> string \<Rightarrow> string list" where
  "claimed_rows db gen = map q_id (filter (\<lambda>r. q_state r = Q_in_progress \<and> q_claimedBy r = Some gen) (d_items db))"

definition releaseClaimsByGeneration :: "queue_env \<Rightarrow> timestamp \<Rightarrow> string \<Rightarrow> queue_db \<Rightarrow> queue_db \<times> nat" where
  "releaseClaimsByGeneration env now gen db =
     (if gen = [] then (db, 0)
      else (fold (\<lambda>i d. append_transition env
              (plain_transition i Q_pending ''system'' (Some ''released: claimant generation retired (seat handover)''))
              (update_row i (\<lambda>q. q\<lparr>q_state := Q_pending, q_updated := now, q_claimedAt := None,
                 q_closureRequiredAt := None, q_claimedBy := None\<rparr>) d)) (claimed_rows db gen) db,
            length (claimed_rows db gen)))"

definition transferClaimsByGeneration ::
  "queue_env \<Rightarrow> timestamp \<Rightarrow> string \<Rightarrow> string \<Rightarrow> string \<Rightarrow> queue_db \<Rightarrow> queue_db \<times> nat" where
  "transferClaimsByGeneration env now from to note db =
     (if from = [] \<or> to = [] then (db, 0)
      else (fold (\<lambda>i d. append_transition env (plain_transition i Q_in_progress ''system'' (Some note))
              (update_row i (\<lambda>q. q\<lparr>q_claimedBy := Some to, q_updated := now\<rparr>) d)) (claimed_rows db from) db,
            length (claimed_rows db from)))"

section \<open>Fallback\<close>

definition FALLBACK_ACTOR :: string where
  "FALLBACK_ACTOR = ''system:queue-fallback''"

text \<open>The arrow of the note, as its three UTF-8 bytes.\<close>

definition fallback_note :: "string \<Rightarrow> string \<Rightarrow> string \<Rightarrow> string" where
  "fallback_note from to reason = ''fallback-routed: '' @ from @ '' '' @ [CHR 0xE2, CHR 0x86, CHR 0x92] @ '' '' @
     to @ '' ('' @ reason @ '')''"

text \<open>Newest first: the note of the last reroute, and whether a close after it may have appended an outcome.\<close>

fun last_reroute :: "bool \<Rightarrow> bool \<Rightarrow> transition list \<Rightarrow> (string \<times> bool) option" where
  "last_reroute newerClosed mayFollow [] = None"
| "last_reroute newerClosed mayFollow (t # ts) =
     (let mayFollow' = (mayFollow \<or> (newerClosed \<and> isBlockerLive (t_state t)))
      in if t_provenance t = None \<and> t_actor t = FALLBACK_ACTOR \<and>
            (case t_note t of None \<Rightarrow> False | Some n \<Rightarrow> starts_with ''fallback-routed: '' n)
         then Some (the (t_note t), mayFollow')
         else last_reroute (\<not> isBlockerLive (t_state t)) mayFollow' ts)"

definition line_starts_here :: "string \<Rightarrow> string \<Rightarrow> nat \<Rightarrow> bool" where
  "line_starts_here printed resolution i =
     (starts_with ''fallback: '' (drop i resolution) \<and> (i = 0 \<or> resolution ! (i - 1) = CHR 0x0A) \<and>
      ends_with ('' ('' @ drop (i + 10) resolution @ '')'') printed)"

definition fallbackLineStart :: "queue_db \<Rightarrow> string \<Rightarrow> string \<Rightarrow> nat option" where
  "fallbackLineStart db i resolution =
     (case last_reroute False False (rev (listForQitem db i)) of
        None \<Rightarrow> None
      | Some (printed, outcomeMayFollow) \<Rightarrow>
          if outcomeMayFollow then (if line_starts_here printed resolution 0 then Some 0 else None)
          else find (line_starts_here printed resolution) [0..<length resolution])"

definition fallback_resolution :: "queue_db \<Rightarrow> queue_item \<Rightarrow> string \<Rightarrow> string" where
  "fallback_resolution db r reason =
     (let start = (if truthy (q_resolution r) then fallbackLineStart db (q_id r) (the (q_resolution r)) else None);
          kept = (if truthy (q_resolution r) \<and> start \<noteq> None
                  then Some (take (the start - 1) (the (q_resolution r))) else q_resolution r)
      in (if truthy kept then the kept @ [CHR 0x0A] else []) @ ''fallback: '' @ reason)"

definition routeToFallback :: "queue_env \<Rightarrow> timestamp \<Rightarrow> string \<Rightarrow> string \<Rightarrow> string \<Rightarrow> queue_db \<Rightarrow> queue_error + queue_db" where
  "routeToFallback env now i dest reason db =
     (case getById db i of
        None \<Rightarrow> Inl Qitem_not_found
      | Some r \<Rightarrow>
          let resolution = fallback_resolution db r reason;
              chain = or_default (q_chain r) [] @ [''fallback-from:'' @ q_dest r];
              db1 = update_row i (\<lambda>q. q\<lparr>q_dest := dest, q_updated := now, q_chain := Some chain,
                      q_resolution := Some resolution\<rparr>) db;
              repeating = (case getStatus db1 i of None \<Rightarrow> False
                | Some st \<Rightarrow> st_kind st = Wake_timer \<and>
                    (case getJob db1 (st_ref st) of None \<Rightarrow> False | Some j \<Rightarrow> isQueueWait (j_spec j)));
              db2 = (if repeating then db1 else retireParkGeneratedTimer i ''park_rerouted'' db1)
          in Inr (persist_event (Qitem_fallback_routed i (q_dest r) dest reason)
               (append_transition env ((plain_transition i (q_state r) FALLBACK_ACTOR
                   (Some (fallback_note (q_dest r) dest reason)))
                  \<lparr>ti_target := (if q_state r = Q_in_progress then retainedClaimBlocker db2 i else None)\<rparr>) db2)))"

section \<open>Update\<close>

text \<open>A revised deadline that parses to a time, or does not; a delay that is an integer, or is not.\<close>

datatype deadline_input = Deadline_at timestamp | Deadline_invalid
datatype seconds_input = Seconds int | Seconds_malformed

fun at_least :: "seconds_input \<Rightarrow> int \<Rightarrow> bool" where
  "at_least (Seconds n) k = (k \<le> n)"
| "at_least Seconds_malformed k = False"

record update_input =
  u_id :: string
  u_actor :: string
  u_state :: "string option"
  u_deadline :: "deadline_input option"
  u_reopen :: bool
  u_workflow :: bool
  u_note :: "string option"
  u_reason :: "string option"
  u_target :: "string option"
  u_resolution :: "string option"
  u_handedOffTo :: "string option"
  u_blockedOn :: "string option"
  u_wakeWatchdog :: "string option"
  u_wakeAfter :: "seconds_input option"
  u_wakeMax :: "seconds_input option"
  u_wakeEvidence :: "evidence option"
  u_wakeMessage :: "string option"
  u_summary :: "string option"
  u_evidence :: "string option"
  u_provenance :: "string option"
  u_principal :: "string option"
  u_resolved :: bool

definition has_note :: "update_input \<Rightarrow> bool" where
  "has_note inp \<longleftrightarrow> \<not> blank (u_note inp)"

definition has_summary :: "update_input \<Rightarrow> bool" where
  "has_summary inp \<longleftrightarrow> \<not> blank (u_summary inp)"

subsection \<open>The state-preserving append\<close>

definition reestimate_guards :: "update_input \<Rightarrow> queue_item \<Rightarrow> (bool \<times> queue_error) list" where
  "reestimate_guards inp r =
     [(u_deadline inp \<noteq> None \<and> (q_state r \<noteq> Q_in_progress \<or>
         (u_state inp \<noteq> None \<and> u_state inp \<noteq> Some ''in-progress'')), Qitem_not_in_progress),
      (u_deadline inp = Some Deadline_invalid, Note_append_fields_not_admitted)]"

definition preserves_state :: "update_input \<Rightarrow> queue_item \<Rightarrow> bool" where
  "preserves_state inp r =
     (u_state inp = None \<or>
      (guarded_terminal (q_state r) \<and> u_state inp = Some (state_name (q_state r))) \<or>
      (u_deadline inp \<noteq> None \<and> u_state inp = Some (state_name (q_state r))))"

definition append_disallowed :: "update_input \<Rightarrow> bool" where
  "append_disallowed inp =
     (u_reopen inp \<or> u_reason inp \<noteq> None \<or> u_target inp \<noteq> None \<or> u_handedOffTo inp \<noteq> None
      \<or> u_blockedOn inp \<noteq> None \<or> u_wakeWatchdog inp \<noteq> None \<or> u_wakeAfter inp \<noteq> None
      \<or> u_wakeMax inp \<noteq> None \<or> u_wakeEvidence inp \<noteq> None \<or> u_wakeMessage inp \<noteq> None
      \<or> u_evidence inp \<noteq> None \<or> (u_state inp \<noteq> None \<and> u_summary inp \<noteq> None)
      \<or> (u_summary inp \<noteq> None \<and> \<not> has_summary inp))"

definition append_guards :: "update_input \<Rightarrow> (bool \<times> queue_error) list" where
  "append_guards inp =
     [(u_state inp = None \<and> \<not> has_note inp \<and> \<not> has_summary inp \<and> u_deadline inp = None, State_or_note_required),
      (append_disallowed inp \<and> u_state inp = Some ''done'' \<and> u_reason inp = Some ''blocked_on'',
         Closure_error (Invalid_closure_reason DONE_CLOSURE_REASONS)),
      (append_disallowed inp, Note_append_fields_not_admitted)]"

fun contains :: "string \<Rightarrow> string \<Rightarrow> bool" where
  "contains p [] = (p = [])"
| "contains p (c # s) = (starts_with p (c # s) \<or> contains p s)"

definition append_note :: "queue_env \<Rightarrow> update_input \<Rightarrow> queue_item \<Rightarrow> string option" where
  "append_note env inp r =
     (let base = (if has_summary inp
            then Some (if has_note inp
                 then (if contains ''(summary updated)'' (the (u_note inp)) then the (u_note inp)
                       else the (u_note inp) @ '' (summary updated)'')
                 else ''summary updated'')
            else u_note inp)
      in case u_deadline inp of
           Some (Deadline_at d) \<Rightarrow>
             (let receipt = ''closure deadline re-estimated: '' @
                    (case q_closureRequiredAt r of None \<Rightarrow> ''(none)'' | Some t \<Rightarrow> e_iso env t) @ '' -> '' @
                    e_iso env d @ ''; accepted by '' @ u_actor inp
              in Some (if has_note inp \<or> has_summary inp then the base @ [CHR 0x0A] @ receipt else receipt))
         | _ \<Rightarrow> base)"

definition append_update :: "queue_env \<Rightarrow> update_input \<Rightarrow> queue_item \<Rightarrow> queue_db \<Rightarrow> queue_error + queue_db" where
  "append_update env inp r db =
     unless_refused (append_guards inp)
     (let i = u_id inp;
          db1 = (if has_summary inp then update_row i (\<lambda>q. q\<lparr>q_summary := u_summary inp\<rparr>) db else db);
          db2 = (case u_deadline inp of
             Some (Deadline_at d) \<Rightarrow> update_row i (\<lambda>q. q\<lparr>q_closureRequiredAt := Some d\<rparr>) db1 | _ \<Rightarrow> db1)
      in Inr (persist_event (Queue_updated i (state_name (q_state r)) (state_name (q_state r)) None None (u_actor inp)
                (if has_summary inp then u_summary inp else q_summary r))
           (append_transition env ((plain_transition i (q_state r) (u_actor inp) (append_note env inp r))
              \<lparr>ti_target := (if q_state r = Q_in_progress then retainedClaimBlocker db2 i else None),
               ti_provenance := u_provenance inp, ti_principal := u_principal inp\<rparr>) db2)))"

subsection \<open>The guards of a state write\<close>

definition wake_guards :: "update_input \<Rightarrow> queue_state \<Rightarrow> (bool \<times> queue_error) list" where
  "wake_guards inp st =
     [((u_wakeWatchdog inp \<noteq> None \<or> u_wakeAfter inp \<noteq> None) \<and> st \<noteq> Q_blocked, Wake_not_admitted),
      (u_wakeWatchdog inp \<noteq> None \<and> u_wakeAfter inp \<noteq> None, Wake_ambiguous),
      (u_wakeAfter inp \<noteq> None \<and> \<not> at_least (the (u_wakeAfter inp)) 1, Wake_after_invalid),
      (u_wakeMessage inp \<noteq> None \<and> u_wakeAfter inp = None, Wake_message_not_admitted),
      (u_wakeMax inp \<noteq> None \<and> (case u_wakeAfter inp of
          Some (Seconds n) \<Rightarrow> \<not> at_least (the (u_wakeMax inp)) n | _ \<Rightarrow> True), Wake_max_invalid),
      (u_wakeMessage inp \<noteq> None \<and> trim (the (u_wakeMessage inp)) = [], Wake_message_invalid)]"

definition is_reopen :: "queue_item \<Rightarrow> queue_state \<Rightarrow> bool" where
  "is_reopen r st \<longleftrightarrow> guarded_terminal (q_state r) \<and> st \<noteq> q_state r"

definition reopen_guards :: "update_input \<Rightarrow> queue_item \<Rightarrow> queue_state \<Rightarrow> (bool \<times> queue_error) list" where
  "reopen_guards inp r st =
     [(is_reopen r st \<and> \<not> u_reopen inp, Terminal_reopen_requires_ack),
      (is_reopen r st \<and> \<not> isBlockerLive st, Terminal_reopen_target_invalid),
      (is_reopen r st \<and> \<not> has_note inp, Reopen_note_required),
      (u_reopen inp \<and> \<not> is_reopen r st, Reopen_not_applicable)]"

definition frontier_guards :: "queue_env \<Rightarrow> update_input \<Rightarrow> queue_state \<Rightarrow> (bool \<times> queue_error) list" where
  "frontier_guards env inp st =
     [(isTerminalState st \<and> \<not> u_workflow inp \<and>
         (case e_frontier env of None \<Rightarrow> False | Some live \<Rightarrow> live (u_id inp)), Workflow_frontier_packet)]"

definition effective_blocker :: "update_input \<Rightarrow> queue_item \<Rightarrow> queue_state \<Rightarrow> queue_db \<Rightarrow> string option" where
  "effective_blocker inp r st db =
     nullish (u_blockedOn inp) (nullish (q_blockedOn r)
       (if st = Q_blocked \<and> q_state r = Q_in_progress \<and> u_blockedOn inp = None \<and> q_blockedOn r = None
        then retainedClaimBlocker db (u_id inp) else None))"

definition is_human_park :: "queue_env \<Rightarrow> queue_state \<Rightarrow> string option \<Rightarrow> bool" where
  "is_human_park env st blocker \<longleftrightarrow> st = Q_blocked \<and> truthy blocker \<and> isPersonAddress env (the blocker)"

definition park_guards ::
  "queue_env \<Rightarrow> update_input \<Rightarrow> queue_item \<Rightarrow> queue_state \<Rightarrow> string option \<Rightarrow> queue_db \<Rightarrow> (bool \<times> queue_error) list" where
  "park_guards env inp r st blocker db =
     [(st = Q_blocked \<and> truthy blocker \<and>
         (case getById db (the blocker) of None \<Rightarrow> False | Some b \<Rightarrow> q_humanIntent b = Some Intent_update),
         Invalid_human_notification),
      (q_humanIntent r = Some Intent_update \<and> st = Q_blocked \<and> isHumanSeatSessionRef (or_default blocker []),
         Invalid_human_notification),
      (\<not> is_human_park env st blocker \<and> (u_summary inp \<noteq> None \<or> (u_evidence inp \<noteq> None \<and> st \<noteq> Q_done)),
         Summary_evidence_not_persistable)]"

definition field_guards :: "update_input \<Rightarrow> queue_state \<Rightarrow> (bool \<times> queue_error) list" where
  "field_guards inp st =
     (let isParkRecord = (st = Q_blocked \<and> u_reason inp = Some ''blocked_on'');
          isHandoffClose = (st = Q_handed_off \<and> u_reason inp = Some ''handed_off_to'');
          isSupersedeCancel = (st = Q_canceled \<and> u_reason inp = Some ''superseded'')
      in [(st \<noteq> Q_done \<and> \<not> isParkRecord \<and> \<not> isHandoffClose \<and> \<not> isSupersedeCancel \<and>
             (u_reason inp \<noteq> None \<or> u_target inp \<noteq> None), Closure_fields_not_admitted),
          (isSupersedeCancel \<and> \<not> truthy (u_target inp), Supersede_target_missing),
          (u_blockedOn inp \<noteq> None \<and> st \<noteq> Q_blocked, Blocked_on_not_admitted)])"

definition blocker_guards :: "queue_env \<Rightarrow> queue_state \<Rightarrow> string option \<Rightarrow> queue_db \<Rightarrow> (bool \<times> queue_error) list" where
  "blocker_guards env st blocker db =
     (case blocker of
        None \<Rightarrow> []
      | Some b \<Rightarrow>
          if st \<noteq> Q_blocked \<or> is_human_park env st blocker then []
          else if starts_with ''qitem-'' b
          then [(getById db b = None, Blocker_not_found),
                (\<not> isBlockerLive (q_state (the (getById db b))), Blocker_not_live)]
          else [(typedGateBlockerPrefix b \<noteq> None \<and> \<not> isTypedGateBlocker b, Blocker_malformed)])"

definition update_guards ::
  "queue_env \<Rightarrow> update_input \<Rightarrow> queue_item \<Rightarrow> queue_state \<Rightarrow> string option \<Rightarrow> queue_db \<Rightarrow> (bool \<times> queue_error) list" where
  "update_guards env inp r st blocker db =
     frontier_guards env inp st @ park_guards env inp r st blocker db @ field_guards inp st @
     blocker_guards env st blocker db"

subsection \<open>The wake of a park\<close>

definition default_wait_message :: "string \<Rightarrow> string" where
  "default_wait_message i = ''Resume parked qitem '' @ i @ '' and inspect current evidence.''"

definition defaultParkWakeMessage :: "string \<Rightarrow> string" where
  "defaultParkWakeMessage i = ''Wake timer fired for parked qitem '' @ i @
     ''. Resume the recorded continuation and update the row.''"

fun seconds_of :: "seconds_input \<Rightarrow> int" where
  "seconds_of (Seconds n) = n"
| "seconds_of Seconds_malformed = 0"

definition arm_wake ::
  "queue_env \<Rightarrow> timestamp \<Rightarrow> string \<Rightarrow> update_input \<Rightarrow> queue_item \<Rightarrow> queue_state \<Rightarrow> string option
     \<Rightarrow> queue_db \<Rightarrow> queue_error + queue_db \<times> (wake_kind \<times> string) option" where
  "arm_wake env now freshJob inp r st blocker db =
     (case u_wakeWatchdog inp of
        Some w \<Rightarrow>
          (case getJob db w of
             None \<Rightarrow> Inl Wake_watchdog_not_live
           | Some j \<Rightarrow>
               if j_state j \<noteq> Job_active then Inl Wake_watchdog_not_live
               else if j_target j \<noteq> q_dest r then Inl Wake_watchdog_target_mismatch
               else Inr (db, Some (Wake_watchdog, j_id j)))
      | None \<Rightarrow>
          (case (u_wakeAfter inp, u_wakeMax inp) of
             (Some after, Some mx) \<Rightarrow>
               if blocker = Some (u_id inp) then Inl Wake_self_blocker
               else
                 (let previous = (case getStatus db (u_id inp) of None \<Rightarrow> None
                    | Some ws \<Rightarrow> if st_kind ws = Wake_timer \<and> findLiveQitemsByAttachedWatchdog db (st_ref ws) = []
                               then Some (st_ref ws) else None)
                  in map_sum id (\<lambda>(d, j). (d, Some (Wake_timer, j)))
                    (armQueueWait env now freshJob
                      \<lparr>wi_previousJob = previous, wi_qitem = u_id inp, wi_blocker = blocker,
                       wi_evidence = u_wakeEvidence inp, wi_initial = seconds_of after, wi_max = seconds_of mx,
                       wi_message = or_default (u_wakeMessage inp) (default_wait_message (u_id inp)),
                       wi_owner = q_dest r, wi_actor = u_actor inp\<rparr> db))
           | (Some after, None) \<Rightarrow>
               map_sum id (\<lambda>d. (d, Some (Wake_timer, freshJob)))
                 (register_reminder env now freshJob
                   (Reminder_spec (q_dest r) (or_default (u_wakeMessage inp) (defaultParkWakeMessage (q_id r))))
                   (q_dest r) (seconds_of after) (u_actor inp) db)
           | (None, _) \<Rightarrow>
               Inr (db, case blocker of
                 Some b \<Rightarrow> if st = Q_blocked \<and> starts_with ''qitem-'' b then Some (Wake_blocker, b) else None
               | None \<Rightarrow> None)))"

subsection \<open>The write\<close>

definition next_resolution :: "update_input \<Rightarrow> queue_item \<Rightarrow> queue_state \<Rightarrow> string option" where
  "next_resolution inp r st =
     (if \<not> blank (u_resolution inp) \<and> isBlockerLive (q_state r) \<and> \<not> isBlockerLive st
      then Some (if truthy (q_resolution r) then the (q_resolution r) @ [CHR 0x0A] @ the (u_resolution inp)
                 else the (u_resolution inp))
      else q_resolution r)"

definition written_row :: "timestamp \<Rightarrow> update_input \<Rightarrow> queue_item \<Rightarrow> queue_state \<Rightarrow> string option \<Rightarrow> bool \<Rightarrow> queue_item \<Rightarrow> queue_item" where
  "written_row now inp r st blocker human q =
     q\<lparr>q_state := st, q_updated := now,
       q_closureReason := nullish (u_reason inp) (q_closureReason q),
       q_closureTarget := nullish (u_target inp) (q_closureTarget q),
       q_handedOffTo := nullish (u_handedOffTo inp) (q_handedOffTo q),
       q_blockedOn := (if st = Q_blocked then blocker else None),
       q_resolution := next_resolution inp r st,
       q_summary := (if human then nullish (u_summary inp) (q_summary q) else q_summary q),
       q_evidence := (if human \<or> st = Q_done then nullish (u_evidence inp) (q_evidence q) else q_evidence q)\<rparr>"

definition update_notification :: "queue_env \<Rightarrow> update_input \<Rightarrow> queue_item \<Rightarrow> queue_state \<Rightarrow> string option \<Rightarrow> (string \<times> notify_level) option" where
  "update_notification env inp r st blocker =
     classifyOwnerNotification env \<lparr>n_create = False, n_dest = q_dest r, n_prevState = Some (q_state r),
       n_prevBlockedOn = q_blockedOn r, n_nextState = st, n_nextBlockedOn = (if st = Q_blocked then blocker else None),
       n_resolved = u_resolved inp, n_intent = None, n_alert = None, n_gateway = False\<rparr>"

definition settle_wake :: "string \<Rightarrow> queue_state \<Rightarrow> queue_state \<Rightarrow> (wake_kind \<times> string) option \<Rightarrow> nat \<Rightarrow> queue_db \<Rightarrow> queue_db" where
  "settle_wake i fromState st parkWake transitionId db =
     (case parkWake of
        Some (kind, ref) \<Rightarrow>
          record_wake \<lparr>w_transition = transitionId, w_qitem = i, w_phase = Armed, w_kind = kind, w_ref = ref,
              w_delivery = None\<rparr>
            (if map_option st_ref (getStatus db i) \<noteq> Some ref
             then retireParkGeneratedTimer i ''park_superseded'' db else db)
      | None \<Rightarrow>
          if fromState = Q_blocked \<and> st \<noteq> Q_blocked
          then retireParkGeneratedTimer i (''park_ended:'' @ state_name st) db else db)"

definition write_update ::
  "queue_env \<Rightarrow> timestamp \<Rightarrow> update_input \<Rightarrow> queue_item \<Rightarrow> queue_state \<Rightarrow> string option \<Rightarrow> (wake_kind \<times> string) option
     \<Rightarrow> queue_db \<Rightarrow> queue_error + queue_db" where
  "write_update env now inp r st blocker parkWake db =
     (let i = u_id inp; human = is_human_park env st blocker;
          note = (if is_reopen r st then Some (''reopen acknowledged: '' @ or_default (u_note inp) []) else u_note inp);
          db1 = append_transition env ((plain_transition i st (u_actor inp) note)
                  \<lparr>ti_reason := u_reason inp, ti_target := u_target inp, ti_provenance := u_provenance inp,
                   ti_principal := u_principal inp, ti_notification := update_notification env inp r st blocker\<rparr>)
                (update_row i (written_row now inp r st blocker human) db);
          db2 = settle_wake i (q_state r) st parkWake (last_transition_id db1) db1
      in try_bind (if isBlockerLive st then Inr db2
                   else propagateBlockerCompletion env now i st (u_actor inp)
                          (sideEffectProvenance (u_provenance inp)) db2) (\<lambda>db3.
         Inr (persist_event (Queue_updated i (state_name (q_state r)) (state_name st) (u_reason inp) (u_target inp)
                (u_actor inp) (if human then nullish (u_summary inp) (q_summary r) else q_summary r)) db3)))"

definition state_update ::
  "queue_env \<Rightarrow> timestamp \<Rightarrow> string \<Rightarrow> update_input \<Rightarrow> queue_item \<Rightarrow> queue_state \<Rightarrow> queue_db \<Rightarrow> queue_error + queue_db" where
  "state_update env now freshJob inp r st db =
     unless_refused (wake_guards inp st @ reopen_guards inp r st)
     (case validateClosure \<lparr>cr_state = state_name st, cr_reason = u_reason inp, cr_target = u_target inp\<rparr> of
        Inl e \<Rightarrow> Inl (Closure_error e)
      | Inr _ \<Rightarrow>
          (let blocker = effective_blocker inp r st db
           in unless_refused (update_guards env inp r st blocker db)
              (case (if is_human_park env st blocker
                     then validateHumanPark blocker (nullish (u_summary inp) (q_summary r))
                            (nullish (u_evidence inp) (q_evidence r))
                     else Inr False) of
                 Inl e \<Rightarrow> Inl (Human_route_error e)
               | Inr _ \<Rightarrow>
                   try_bind (arm_wake env now freshJob inp r st blocker db) (\<lambda>(db', parkWake).
                     write_update env now inp r st blocker parkWake db'))))"

definition update :: "queue_env \<Rightarrow> timestamp \<Rightarrow> string \<Rightarrow> update_input \<Rightarrow> queue_db \<Rightarrow> queue_error + queue_db" where
  "update env now freshJob inp db =
     (case getById db (u_id inp) of
        None \<Rightarrow> Inl Qitem_not_found
      | Some r \<Rightarrow>
          unless_refused (reestimate_guards inp r)
          (if preserves_state inp r then append_update env inp r db
           else case parse_state (the (u_state inp)) of
               None \<Rightarrow> Inl Invalid_state
             | Some st \<Rightarrow> state_update env now freshJob inp r st db))"

end
