(* ===== verification/Queue_Invariant.thy ===== *)
theory Queue_Invariant
  imports Queue_Update "HOL-Library.Sublist"
begin

text \<open>
  What every queue write keeps: unique ids, a log whose last entry for a row is the row's state, a
  closure reason on every done row, and no row parked on an item that is closed or missing. The
  writes that close a row break the last one until the propagation loop has run, so it is stated
  with the rows still to be processed.
\<close>

named_theorems frame_simps

section \<open>Frames\<close>

lemma update_row_frame [frame_simps]:
  "d_items (update_row i f db) = row_set (\<lambda>r. q_id r = i) f (d_items db)"
  "d_log (update_row i f db) = d_log db" "d_events (update_row i f db) = d_events db"
  "d_wakes (update_row i f db) = d_wakes db" "d_jobs (update_row i f db) = d_jobs db"
  "d_outbox (update_row i f db) = d_outbox db"
  by (simp_all add: update_row_def)

lemma append_frame [frame_simps]:
  "d_items (append_transition env t db) = d_items db"
  "d_log (append_transition env t db) = d_log db @ [new_transition env db t]"
  "d_events (append_transition env t db) = d_events db" "d_wakes (append_transition env t db) = d_wakes db"
  "d_jobs (append_transition env t db) = d_jobs db" "d_outbox (append_transition env t db) = d_outbox db"
  by (simp_all add: append_transition_def)

lemma event_frame [frame_simps]:
  "d_items (persist_event ev db) = d_items db" "d_log (persist_event ev db) = d_log db"
  "d_events (persist_event ev db) = d_events db @ [ev]" "d_wakes (persist_event ev db) = d_wakes db"
  "d_jobs (persist_event ev db) = d_jobs db" "d_outbox (persist_event ev db) = d_outbox db"
  by (simp_all add: persist_event_def)

lemma wake_frame [frame_simps]:
  "d_items (record_wake w db) = d_items db" "d_log (record_wake w db) = d_log db"
  "d_events (record_wake w db) = d_events db" "d_outbox (record_wake w db) = d_outbox db"
  "d_jobs (record_wake w db) = d_jobs db" "d_wakes (record_wake w db) = d_wakes db @ [w]"
  by (simp_all add: record_wake_def)

lemma job_frame [frame_simps]:
  "d_items (update_job j f db) = d_items db" "d_log (update_job j f db) = d_log db"
  "d_events (update_job j f db) = d_events db" "d_outbox (update_job j f db) = d_outbox db"
  "d_wakes (update_job j f db) = d_wakes db" "d_jobs (update_job j f db) = row_set (\<lambda>x. j_id x = j) f (d_jobs db)"
  by (simp_all add: update_job_def)

text \<open>A database that differs at most in its jobs.\<close>

definition jobs_only :: "queue_db \<Rightarrow> queue_db \<Rightarrow> bool" where
  "jobs_only db db' \<longleftrightarrow> d_items db' = d_items db \<and> d_log db' = d_log db \<and> d_events db' = d_events db
     \<and> d_wakes db' = d_wakes db \<and> d_outbox db' = d_outbox db"

lemma jobs_only_refl [simp]: "jobs_only db db"
  by (simp add: jobs_only_def)

lemma jobs_only_update_job: "jobs_only db (update_job j f db)"
  by (simp add: jobs_only_def frame_simps)

lemma jobs_only_retire: "jobs_only db (retireParkGeneratedTimer i reason db)"
  by (simp add: retireParkGeneratedTimer_def markTerminal_def jobs_only_update_job split: option.split)

lemma jobs_only_retarget: "jobs_only db (fst (retargetQueueWait j b db))"
  by (simp add: retargetQueueWait_def updateSchedule_def jobs_only_update_job split: option.split job_spec.split)

lemma jobs_only_register: "register_reminder env now j spec t n a db = Inr db' \<Longrightarrow> jobs_only db db'"
  by (auto simp: register_reminder_def jobs_only_def split: if_splits)

lemma jobs_only_arm: "armQueueWait env now j inp db = Inr (db', k) \<Longrightarrow> jobs_only db db'"
  by (auto simp: armQueueWait_def Let_def updateSchedule_def jobs_only_update_job effect_simps
      intro: jobs_only_register split: option.splits if_splits)

lemma jobs_only_arm_wake: "arm_wake env now j inp r st b db = Inr (db', w) \<Longrightarrow> jobs_only db db'"
  by (auto simp: arm_wake_def Let_def effect_simps
      intro: jobs_only_register jobs_only_arm split: option.splits if_splits)

lemma retire_frame [frame_simps]:
  "d_items (retireParkGeneratedTimer i reason db) = d_items db"
  "d_log (retireParkGeneratedTimer i reason db) = d_log db"
  "d_events (retireParkGeneratedTimer i reason db) = d_events db"
  "d_wakes (retireParkGeneratedTimer i reason db) = d_wakes db"
  "d_outbox (retireParkGeneratedTimer i reason db) = d_outbox db"
  using jobs_only_retire [of db i reason] by (simp_all add: jobs_only_def)

lemma retarget_frame [frame_simps]:
  "d_items (fst (retargetQueueWait j b db)) = d_items db" "d_log (fst (retargetQueueWait j b db)) = d_log db"
  "d_events (fst (retargetQueueWait j b db)) = d_events db" "d_wakes (fst (retargetQueueWait j b db)) = d_wakes db"
  "d_outbox (fst (retargetQueueWait j b db)) = d_outbox db"
  using jobs_only_retarget [of db j b] by (simp_all add: jobs_only_def)

lemma intent_frame:
  "recordWakeIntent env now inp db = Inr db' \<Longrightarrow> db' = db\<lparr>d_outbox := d_outbox db'\<rparr>"
  by (auto simp: recordWakeIntent_def effect_simps split: if_splits)

lemma stage_frame:
  "stageWakeIntent env now i a b p n o' db = Inr db' \<Longrightarrow> db' = db\<lparr>d_outbox := d_outbox db'\<rparr>"
  by (auto simp: stageWakeIntent_def Let_def split: if_splits dest: intent_frame)

text \<open>What staging a wake may change beside the outbox: the nudge fields of the row.\<close>

definition nudged :: "string \<Rightarrow> queue_item list \<Rightarrow> queue_item list \<Rightarrow> bool" where
  "nudged i rows rows' \<longleftrightarrow> rows' = rows \<or>
     (\<exists>a t. rows' = row_set (\<lambda>r. q_id r = i) (\<lambda>r. r\<lparr>q_nudgeAttempt := a, q_nudgeResult := t\<rparr>) rows)"

definition staged :: "string \<Rightarrow> queue_db \<Rightarrow> queue_db \<Rightarrow> bool" where
  "staged i db db' \<longleftrightarrow> nudged i (d_items db) (d_items db') \<and> d_log db' = d_log db \<and> d_events db' = d_events db
     \<and> d_wakes db' = d_wakes db \<and> d_jobs db' = d_jobs db"

lemma staged_outbox: "db' = db\<lparr>d_outbox := d_outbox db'\<rparr> \<Longrightarrow> staged i db db'"
  by (drule arg_cong [where f = "\<lambda>d. (d_items d, d_log d, d_events d, d_wakes d, d_jobs d)"])
     (simp add: staged_def nudged_def)

lemma staged_nudge: "staged i db (recordNudgeAttempt now i t db)"
  by (auto simp: staged_def nudged_def recordNudgeAttempt_def frame_simps)

lemma staged_handoff: "stageHandoffWake env now i a b p n db = Inr db' \<Longrightarrow> staged i db db'"
  by (auto simp: stageHandoffWake_def wake_not_retained_def staged_nudge
      intro: staged_outbox [OF stage_frame] split: sum.splits if_splits)

lemma unpark_stage_frame:
  "stageAutoUnparkWakeIntent env now i d f p b t db = Inr db' \<Longrightarrow> db' = db\<lparr>d_outbox := d_outbox db'\<rparr>"
  by (cases "recordWakeIntent env now
       \<lparr>wk_outboxId = WAKE_INTENT_PREFIX @ ''blocker-'' @ nat_str t, wk_pointer = i,
        wk_replyTo = None, wk_from = f, wk_to = d, wk_provenance = p,
        wk_body = ''Blocker '' @ b @ '' resolved; parked qitem '' @ i @
          '' is pending. Resume the recorded continuation and update the row.'',
        wk_tags = Some [AUTO_UNPARK_WAKE_TAG, WAKE_TRIGGER_OPENRIG_TAG,
          AUTO_UNPARK_BLOCKER_TAG_PREFIX @ b, ''queue:return:'' @ b]\<rparr> db")
     (auto simp: stageAutoUnparkWakeIntent_def dest: intent_frame)

section \<open>The invariant\<close>

definition last_state :: "transition list \<Rightarrow> string \<Rightarrow> queue_state option" where
  "last_state log i = map_option t_state (find (\<lambda>t. t_qitem t = i) (rev log))"

lemma last_state_append [simp]:
  "last_state (log @ [t]) i = (if t_qitem t = i then Some (t_state t) else last_state log i)"
  by (simp add: last_state_def)

lemma new_transition_fields [simp]:
  "t_qitem (new_transition env db t) = ti_qitem t" "t_state (new_transition env db t) = ti_state t"
  "t_id (new_transition env db t) = Suc (length (d_log db))"
  by (simp_all add: new_transition_def Let_def)

definition closed_ok :: "queue_item \<Rightarrow> bool" where
  "closed_ok r \<longleftrightarrow> (q_state r = Q_done \<longrightarrow> (\<exists>x. q_closureReason r = Some x \<and> x \<in> set DONE_CLOSURE_REASONS
     \<and> (requires_target x \<longrightarrow> q_closureTarget r \<noteq> None)))"

definition rows_ok :: "queue_db \<Rightarrow> bool" where
  "rows_ok db \<longleftrightarrow> distinct (map q_id (d_items db)) \<and> map t_id (d_log db) = [1..<Suc (length (d_log db))]
     \<and> (\<forall>r \<in> set (d_items db). last_state (d_log db) (q_id r) = Some (q_state r) \<and> closed_ok r)"

definition live_ids :: "queue_db \<Rightarrow> string set" where
  "live_ids db = q_id ` {r \<in> set (d_items db). isBlockerLive (q_state r)}"

lemma live_idsI: "r \<in> set (d_items db) \<Longrightarrow> q_id r = i \<Longrightarrow> isBlockerLive (q_state r) \<Longrightarrow> i \<in> live_ids db"
  by (auto simp: live_ids_def)

text \<open>The gate of a parked row that must be an open item: a qitem id that is no person's address.\<close>

definition item_gate :: "queue_env \<Rightarrow> string option \<Rightarrow> bool" where
  "item_gate env b \<longleftrightarrow> (case b of None \<Rightarrow> False | Some i \<Rightarrow> starts_with ''qitem-'' i \<and> \<not> isPersonAddress env i)"

definition gate_ok :: "queue_env \<Rightarrow> string set \<Rightarrow> queue_item \<Rightarrow> bool" where
  "gate_ok env live r \<longleftrightarrow> (q_state r = Q_blocked \<longrightarrow> item_gate env (q_blockedOn r) \<longrightarrow> the (q_blockedOn r) \<in> live)"

definition waits_ok :: "queue_env \<Rightarrow> string set \<Rightarrow> queue_db \<Rightarrow> bool" where
  "waits_ok env W db \<longleftrightarrow> (\<forall>r \<in> set (d_items db). q_id r \<notin> W \<longrightarrow> gate_ok env (live_ids db) r)"

definition queue_inv :: "queue_env \<Rightarrow> queue_db \<Rightarrow> bool" where
  "queue_inv env db \<longleftrightarrow> rows_ok db \<and> waits_ok env {} db"

lemma queue_inv_empty: "queue_inv env empty_db"
  by (simp add: queue_inv_def empty_db_def rows_ok_def waits_ok_def)

lemma waits_ok_mono: "waits_ok env W db \<Longrightarrow> W \<subseteq> V \<Longrightarrow> waits_ok env V db"
  by (auto simp: waits_ok_def)

lemma gate_ok_mono: "gate_ok env L r \<Longrightarrow> L \<subseteq> M \<Longrightarrow> gate_ok env M r"
  by (auto simp: gate_ok_def)

text \<open>Only the log and the core of the rows count.\<close>

definition core :: "queue_item \<Rightarrow> string \<times> queue_state \<times> string option \<times> string option \<times> string option" where
  "core r = (q_id r, q_state r, q_blockedOn r, q_closureReason r, q_closureTarget r)"

lemma core_eq: "core r = core r' \<longleftrightarrow> q_id r = q_id r' \<and> q_state r = q_state r' \<and> q_blockedOn r = q_blockedOn r'
    \<and> q_closureReason r = q_closureReason r' \<and> q_closureTarget r = q_closureTarget r'"
  by (simp add: core_def)

lemma core_ball:
  assumes "map core rows' = map core rows" and "\<And>r r'. core r = core r' \<Longrightarrow> P r \<longleftrightarrow> P r'"
  shows "(\<forall>r \<in> set rows'. P r) \<longleftrightarrow> (\<forall>r \<in> set rows. P r)"
proof -
  have "core ` set rows' = core ` set rows"
    using arg_cong [OF assms(1), of set] by simp
  then show ?thesis using assms(2) by (metis (no_types, lifting) image_iff)
qed

lemma core_ids: "map core rows' = map core rows \<Longrightarrow> map q_id rows' = map q_id rows"
  by (drule arg_cong [where f = "map fst"]) (simp add: core_def o_def)

lemma rows_ok_cong:
  assumes "map core (d_items db') = map core (d_items db)" "d_log db' = d_log db"
  shows "rows_ok db' \<longleftrightarrow> rows_ok db"
proof -
  have "(\<forall>r \<in> set (d_items db'). last_state (d_log db) (q_id r) = Some (q_state r) \<and> closed_ok r)
      \<longleftrightarrow> (\<forall>r \<in> set (d_items db). last_state (d_log db) (q_id r) = Some (q_state r) \<and> closed_ok r)"
    by (rule core_ball [OF assms(1)]) (simp add: core_eq closed_ok_def)
  then show ?thesis using core_ids [OF assms(1)] assms(2) by (simp add: rows_ok_def)
qed

lemma live_ids_core: "live_ids db = fst ` {c \<in> core ` set (d_items db). isBlockerLive (fst (snd c))}"
  by (force simp: live_ids_def core_def)

lemma live_ids_cong:
  "map core (d_items db') = map core (d_items db) \<Longrightarrow> live_ids db' = live_ids db"
  by (drule arg_cong [where f = set]) (simp add: live_ids_core)

lemma waits_ok_cong:
  assumes "map core (d_items db') = map core (d_items db)"
  shows "waits_ok env W db' \<longleftrightarrow> waits_ok env W db"
  unfolding waits_ok_def live_ids_cong [OF assms]
  by (rule core_ball [OF assms]) (simp add: core_eq gate_ok_def)

text \<open>An update that keeps the core.\<close>

definition quiet :: "(queue_item \<Rightarrow> queue_item) \<Rightarrow> bool" where
  "quiet f \<longleftrightarrow> (\<forall>r. core (f r) = core r)"

lemma quiet_core: "quiet f \<Longrightarrow> map core (row_set p f rows) = map core rows"
  by (induction rows) (simp_all add: row_set_def quiet_def)

lemma staged_core: "staged i db db' \<Longrightarrow> map core (d_items db') = map core (d_items db) \<and> d_log db' = d_log db"
  by (auto simp: staged_def nudged_def intro!: quiet_core) (simp add: quiet_def core_def)

section \<open>State writes\<close>

text \<open>A write of row \<open>i\<close> in state \<open>st\<close>, with its transition.\<close>

definition state_write :: "queue_env \<Rightarrow> string \<Rightarrow> queue_state \<Rightarrow> queue_db \<Rightarrow> queue_db \<Rightarrow> bool" where
  "state_write env i st db db' \<longleftrightarrow>
     (\<exists>f t e. map core (d_items db') = map core (row_set (\<lambda>r. q_id r = i) f (d_items db))
        \<and> d_log db' = d_log db @ [new_transition env e t] \<and> d_log e = d_log db
        \<and> ti_qitem t = i \<and> ti_state t = st
        \<and> (\<forall>r \<in> set (d_items db). q_id r = i \<longrightarrow> q_id (f r) = i \<and> q_state (f r) = st \<and> closed_ok (f r)
             \<and> (st = Q_blocked \<longrightarrow> item_gate env (q_blockedOn (f r)) \<longrightarrow> the (q_blockedOn (f r)) \<in> live_ids db)))"

lemma row_set_ids: "(\<And>r. r \<in> set rows \<Longrightarrow> p r \<Longrightarrow> q_id (f r) = q_id r) \<Longrightarrow> map q_id (row_set p f rows) = map q_id rows"
  by (induction rows) (auto simp: row_set_def)

lemma state_write_rows_ok:
  assumes "state_write env i st db db'" "rows_ok db"
  shows "rows_ok db'"
proof -
  from assms(1) obtain f t e where
    c: "map core (d_items db') = map core (row_set (\<lambda>r. q_id r = i) f (d_items db))"
    and l: "d_log db' = d_log db @ [new_transition env e t]" "d_log e = d_log db" "ti_qitem t = i" "ti_state t = st"
    and f: "\<And>r. r \<in> set (d_items db) \<Longrightarrow> q_id r = i \<Longrightarrow> q_id (f r) = i \<and> q_state (f r) = st \<and> closed_ok (f r)"
    unfolding state_write_def by blast
  define db1 where "db1 = db'\<lparr>d_items := row_set (\<lambda>r. q_id r = i) f (d_items db)\<rparr>"
  have ids: "map q_id (d_items db1) = map q_id (d_items db)"
    by (simp add: db1_def row_set_ids f)
  have "last_state (d_log db') (q_id r) = Some (q_state r) \<and> closed_ok r" if "r \<in> set (d_items db1)" for r
  proof -
    from that obtain r' where r': "r' \<in> set (d_items db)" "r = (if q_id r' = i then f r' else r')"
      by (auto simp: db1_def row_set_def)
    then show ?thesis using assms(2) f l by (auto simp: rows_ok_def)
  qed
  moreover have "map t_id (d_log db') = [1..<Suc (length (d_log db'))]"
    using assms(2) l by (simp add: rows_ok_def)
  ultimately have "rows_ok db1"
    using assms(2) ids by (simp add: rows_ok_def db1_def)
  then show ?thesis using rows_ok_cong [of db' db1] c by (simp add: db1_def)
qed

text \<open>The rows after a state write, up to their cores.\<close>

lemma state_write_rows:
  assumes "state_write env i st db db'" "r \<in> set (d_items db')"
  obtains r' where "r' \<in> set (d_items db)" "q_id r' \<noteq> i" "core r = core r'"
  | r' where "r' \<in> set (d_items db)" "q_id r' = i" "q_id r = i" "q_state r = st"
      "st = Q_blocked \<Longrightarrow> item_gate env (q_blockedOn r) \<Longrightarrow> the (q_blockedOn r) \<in> live_ids db"
proof -
  from assms(1) obtain f where
    c: "map core (d_items db') = map core (row_set (\<lambda>r. q_id r = i) f (d_items db))"
    and f: "\<And>r. r \<in> set (d_items db) \<Longrightarrow> q_id r = i \<Longrightarrow> q_id (f r) = i \<and> q_state (f r) = st
      \<and> (st = Q_blocked \<longrightarrow> item_gate env (q_blockedOn (f r)) \<longrightarrow> the (q_blockedOn (f r)) \<in> live_ids db)"
    unfolding state_write_def by blast
  have "core r \<in> core ` set (row_set (\<lambda>r. q_id r = i) f (d_items db))"
    using arg_cong [OF c, of set] assms(2) by auto
  then obtain r' where r': "r' \<in> set (d_items db)" "core r = core (if q_id r' = i then f r' else r')"
    by (auto simp: row_set_def)
  show thesis
  proof (cases "q_id r' = i")
    case True
    with r' f [OF r'(1) True] show thesis by (intro that(2) [OF r'(1) True]) (auto simp: core_eq)
  next
    case False
    with r' show thesis by (intro that(1) [OF r'(1) False]) simp
  qed
qed

lemma state_write_rows_conv:
  assumes "state_write env i st db db'" "r' \<in> set (d_items db)"
  obtains r where "r \<in> set (d_items db')" "q_id r' \<noteq> i" "core r = core r'"
  | r where "r \<in> set (d_items db')" "q_id r' = i" "q_id r = i" "q_state r = st"
proof -
  from assms(1) obtain f where
    c: "map core (d_items db') = map core (row_set (\<lambda>r. q_id r = i) f (d_items db))"
    and f: "\<And>r. r \<in> set (d_items db) \<Longrightarrow> q_id r = i \<Longrightarrow> q_id (f r) = i \<and> q_state (f r) = st"
    unfolding state_write_def by blast
  have "core (if q_id r' = i then f r' else r') \<in> core ` set (d_items db')"
    using arg_cong [OF c, of set] assms(2) by (auto simp: row_set_def)
  then obtain r where r: "r \<in> set (d_items db')" "core r = core (if q_id r' = i then f r' else r')"
    by (metis imageE)
  show thesis
  proof (cases "q_id r' = i")
    case True
    with r f [OF assms(2) True] show thesis by (intro that(2) [OF r(1) True]) (auto simp: core_eq)
  next
    case False
    with r show thesis by (intro that(1) [OF r(1) False]) simp
  qed
qed

lemma state_write_live:
  assumes "state_write env i st db db'"
  shows "live_ids db - {i} \<subseteq> live_ids db'" "isBlockerLive st \<Longrightarrow> live_ids db \<subseteq> live_ids db'"
proof -
  have "x \<in> live_ids db'" if "x \<in> live_ids db" "x \<noteq> i \<or> isBlockerLive st" for x
  proof -
    from that(1) obtain r' where r': "r' \<in> set (d_items db)" "q_id r' = x" "isBlockerLive (q_state r')"
      by (auto simp: live_ids_def)
    show ?thesis using assms r'(1)
      by (cases rule: state_write_rows_conv) (use r' that(2) in \<open>auto simp: core_eq intro: live_idsI\<close>)
  qed
  then show "live_ids db - {i} \<subseteq> live_ids db'" "isBlockerLive st \<Longrightarrow> live_ids db \<subseteq> live_ids db'"
    by auto
qed

lemma state_write_open:
  assumes w: "state_write env i st db db'" and live: "live_ids db \<subseteq> live_ids db'" and "waits_ok env W db"
  shows "waits_ok env (W - {i}) db'"
  unfolding waits_ok_def
proof (intro ballI impI)
  fix r assume r: "r \<in> set (d_items db')" "q_id r \<notin> W - {i}"
  from w r(1) show "gate_ok env (live_ids db') r"
  proof (cases rule: state_write_rows)
    case (1 r')
    with r(2) assms(3) have "gate_ok env (live_ids db) r'" by (auto simp: waits_ok_def core_eq)
    with 1(3) live show ?thesis by (auto simp: gate_ok_def core_eq)
  next
    case (2 r')
    with live show ?thesis by (auto simp: gate_ok_def)
  qed
qed

lemma state_write_close:
  assumes w: "state_write env i st db db'" and "\<not> isBlockerLive st" "waits_ok env W db"
  shows "waits_ok env (W \<union> fst ` set (waiters db' i)) db'"
  unfolding waits_ok_def
proof (intro ballI impI)
  fix r assume r: "r \<in> set (d_items db')" "q_id r \<notin> W \<union> fst ` set (waiters db' i)"
  then have not: "\<not> (q_blockedOn r = Some i \<and> q_state r = Q_blocked)"
    by (auto simp: waiters_def image_iff)
  from w r(1) show "gate_ok env (live_ids db') r"
  proof (cases rule: state_write_rows)
    case (1 r')
    with r(2) assms(3) have "gate_ok env (live_ids db) r'" by (auto simp: waits_ok_def core_eq)
    with 1(3) not state_write_live(1) [OF w] show ?thesis
      by (cases "q_blockedOn r'") (auto simp: gate_ok_def core_eq item_gate_def)
  next
    case (2 r')
    with assms(2) show ?thesis by (auto simp: gate_ok_def)
  qed
qed

section \<open>Propagation\<close>

lemma closed_ok_open [simp]: "q_state r \<noteq> Q_done \<Longrightarrow> closed_ok r"
  by (simp add: closed_ok_def)

lemma new_blocker_live:
  assumes "new_blocker db source st dest = Some s"
  shows "q_id s \<in> live_ids db"
proof -
  from assms have *: "handoff_successors db source = [s]" "isBlockerLive (q_state s)"
    by (auto simp: new_blocker_def split: if_splits list.splits)
  have "s \<in> set (handoff_successors db source)" unfolding * by simp
  with *(2) show ?thesis by (auto simp: handoff_successors_def intro: live_idsI)
qed

lemma rebind_write:
  assumes live: "q_id s \<in> live_ids db"
    and blocked: "\<And>r. r \<in> set (d_items db) \<Longrightarrow> q_id r = i \<Longrightarrow> q_state r = Q_blocked"
  shows "state_write env i Q_blocked db (rebind_waiter env now source actor prov s i db)"
  unfolding state_write_def
proof (intro exI conjI ballI impI)
  let ?f = "\<lambda>r. r\<lparr>q_blockedOn := Some (q_id s), q_updated := now\<rparr>"
  let ?t = "(plain_transition i Q_blocked actor
      (Some (''blocker custody moved from '' @ source @ '' to '' @ q_id s)))\<lparr>ti_provenance := prov\<rparr>"
  show "map core (d_items (rebind_waiter env now source actor prov s i db))
      = map core (row_set (\<lambda>r. q_id r = i) ?f (d_items db))"
    by (simp add: rebind_waiter_def Let_def frame_simps case_prod_beta split: option.split)
  show "d_log (rebind_waiter env now source actor prov s i db)
      = d_log db @ [new_transition env (update_row i ?f db) ?t]"
    by (simp add: rebind_waiter_def Let_def frame_simps case_prod_beta split: option.split)
  fix r assume "r \<in> set (d_items db)" "q_id r = i"
  from blocked [OF this] show "q_state (?f r) = Q_blocked" "closed_ok (?f r)" by simp_all
qed (use live in \<open>simp_all add: frame_simps plain_transition_def\<close>)

lemma unpark_write:
  assumes "unpark_waiter env now source terminal actor prov i dest db = Inr db'"
  shows "state_write env i Q_pending db db'"
proof -
  let ?f = "\<lambda>r. r\<lparr>q_state := Q_pending, q_blockedOn := None, q_updated := now\<rparr>"
  let ?t = "plain_transition i Q_pending actor (Some (''auto-unparked: blocker '' @ source
      @ '' reached terminal state '' @ [CHR 0x27] @ state_name terminal @ [CHR 0x27]))"
  from assms obtain db4 where
    4: "stageAutoUnparkWakeIntent env now i dest actor prov source (Suc (length (d_log db)))
         (retireParkGeneratedTimer i ''park_ended:auto-unparked''
           (append_transition env ?t (update_row i ?f db))) = Inr db4"
    and db': "d_items db' = d_items db4" "d_log db' = d_log db4"
    by (auto simp: unpark_waiter_def Let_def effect_simps frame_simps last_transition_id_def)
  have frame: "d_items db4 = row_set (\<lambda>r. q_id r = i) ?f (d_items db)"
    "d_log db4 = d_log db @ [new_transition env (update_row i ?f db) ?t]"
    using arg_cong [OF unpark_stage_frame [OF 4], of d_items] arg_cong [OF unpark_stage_frame [OF 4], of d_log]
    by (simp_all add: frame_simps)
  show ?thesis unfolding state_write_def
    by (rule exI [where x = ?f], rule exI [where x = ?t], rule exI [where x = "update_row i ?f db"])
       (simp add: db' frame frame_simps plain_transition_def)
qed

lemma state_write_other:
  assumes "state_write env i st db db'" "w \<noteq> i" "\<And>r. r \<in> set (d_items db) \<Longrightarrow> q_id r = w \<Longrightarrow> q_state r = s"
  shows "\<And>r. r \<in> set (d_items db') \<Longrightarrow> q_id r = w \<Longrightarrow> q_state r = s"
proof -
  fix r assume r: "r \<in> set (d_items db')" "q_id r = w"
  from assms(1) r(1) show "q_state r = s"
    by (cases rule: state_write_rows) (use r(2) assms(2,3) in \<open>auto simp: core_eq\<close>)
qed

lemma propagate_one_write:
  assumes "propagate_one env now source terminal actor prov (i, dest) db = Inr db'"
    and "\<And>r. r \<in> set (d_items db) \<Longrightarrow> q_id r = i \<Longrightarrow> q_state r = Q_blocked"
  shows "\<exists>st. isBlockerLive st \<and> state_write env i st db db'"
proof (cases "new_blocker db source terminal dest")
  case None
  with assms(1) have "state_write env i Q_pending db db'"
    by (auto simp: propagate_one_def intro: unpark_write)
  then show ?thesis by (intro exI [of _ Q_pending]) simp
next
  case (Some s)
  with assms have "state_write env i Q_blocked db db'"
    by (auto simp: propagate_one_def intro: rebind_write new_blocker_live)
  then show ?thesis by (intro exI [of _ Q_blocked]) simp
qed

text \<open>The loop: while \<open>xs\<close> are still to come, only they may wait on the closed item.\<close>

definition closing :: "queue_env \<Rightarrow> (string \<times> string) list \<Rightarrow> queue_db \<Rightarrow> bool" where
  "closing env xs db \<longleftrightarrow> rows_ok db \<and> waits_ok env (fst ` set xs) db \<and> distinct (map fst xs)
     \<and> (\<forall>w \<in> fst ` set xs. \<forall>r \<in> set (d_items db). q_id r = w \<longrightarrow> q_state r = Q_blocked)"

lemma propagate_one_closing:
  assumes "closing env (x # xs) db" "propagate_one env now source terminal actor prov x db = Inr db'"
  shows "closing env xs db'"
proof -
  obtain i dest where x: "x = (i, dest)" by (cases x)
  from assms(1) x have ok: "rows_ok db" "waits_ok env (insert i (fst ` set xs)) db" "i \<notin> fst ` set xs"
    "distinct (map fst xs)"
    and blocked: "\<And>w r. w \<in> insert i (fst ` set xs) \<Longrightarrow> r \<in> set (d_items db) \<Longrightarrow> q_id r = w \<Longrightarrow> q_state r = Q_blocked"
    by (auto simp: closing_def)
  obtain st where st: "isBlockerLive st" "state_write env i st db db'"
    using propagate_one_write [OF assms(2) [unfolded x]] blocked [of i] by auto
  have "waits_ok env (fst ` set xs) db'"
    using state_write_open [OF st(2) state_write_live(2) [OF st(2,1)] ok(2)] ok(3) by simp
  moreover have "q_state r = Q_blocked" if "w \<in> fst ` set xs" "r \<in> set (d_items db')" "q_id r = w" for w r
    by (rule state_write_other [OF st(2) _ _ that(2,3)]) (use that(1) ok(3) blocked in auto)
  ultimately show ?thesis
    using state_write_rows_ok [OF st(2) ok(1)] ok(4) by (auto simp: closing_def)
qed

lemma waiters_blocked:
  assumes "rows_ok db" "waits_ok env (fst ` set (waiters db i)) db"
  shows "closing env (waiters db i) db"
proof -
  have ids: "map fst (waiters db i) = map q_id (filter (\<lambda>r. q_blockedOn r = Some i \<and> q_state r = Q_blocked) (d_items db))"
    by (simp add: waiters_def o_def)
  have d: "distinct (map q_id (d_items db))" using assms(1) by (simp add: rows_ok_def)
  have "q_state r = Q_blocked" if r: "r \<in> set (d_items db)" "q_id r \<in> fst ` set (waiters db i)" for r
  proof -
    from r(2) obtain r' where "r' \<in> set (d_items db)" "q_id r' = q_id r" "q_state r' = Q_blocked"
      by (auto simp: waiters_def)
    moreover from this r(1) d have "r' = r" by (metis distinct_map inj_onD)
    ultimately show ?thesis by simp
  qed
  with assms d show ?thesis
    by (auto simp: closing_def ids distinct_map_filter)
qed

lemma propagate_inv:
  assumes "propagateBlockerCompletion env now i terminal actor prov db = Inr db'"
    and "rows_ok db" "waits_ok env (fst ` set (waiters db i)) db"
  shows "queue_inv env db'"
proof -
  have "closing env [] db'"
    by (rule try_fold_invariant [OF assms(1) [unfolded propagateBlockerCompletion_def], where I = "closing env"])
       (use waiters_blocked [OF assms(2,3)] propagate_one_closing in blast)+
  then show ?thesis by (simp add: closing_def queue_inv_def)
qed

lemma waiting_core: "fst ` set (waiters db i)
    = fst ` {c \<in> core ` set (d_items db). fst (snd (snd c)) = Some i \<and> fst (snd c) = Q_blocked}"
  by (force simp: waiters_def core_def)

section \<open>Kinds of writes\<close>

text \<open>A write that keeps every state, gate and closure, and the log.\<close>

definition same_core :: "queue_db \<Rightarrow> queue_db \<Rightarrow> bool" where
  "same_core db db' \<longleftrightarrow> map core (d_items db') = map core (d_items db) \<and> d_log db' = d_log db"

lemma same_core_refl [simp]: "same_core db db"
  by (simp add: same_core_def)

lemma same_core_trans: "same_core a b \<Longrightarrow> same_core b c \<Longrightarrow> same_core a c"
  by (simp add: same_core_def)

lemma same_core_staged: "staged i db db' \<Longrightarrow> same_core db db'"
  using staged_core by (simp add: same_core_def)

lemma same_core_jobs: "jobs_only db db' \<Longrightarrow> same_core db db'"
  by (simp add: same_core_def jobs_only_def)

lemma same_core_event [simp]: "same_core db (persist_event ev db)"
  by (simp add: same_core_def frame_simps)

lemma same_core_inv:
  assumes "same_core db db'"
  shows "rows_ok db' = rows_ok db" "waits_ok env W db' = waits_ok env W db"
    "queue_inv env db' = queue_inv env db" "fst ` set (waiters db' i) = fst ` set (waiters db i)"
proof -
  have "map core (d_items db') = map core (d_items db)" "d_log db' = d_log db"
    using assms by (simp_all add: same_core_def)
  note c = this
  from c show "rows_ok db' = rows_ok db" by (rule rows_ok_cong)
  from c(1) show "waits_ok env W db' = waits_ok env W db" for W by (rule waits_ok_cong)
  with \<open>rows_ok db' = rows_ok db\<close> show "queue_inv env db' = queue_inv env db" by (simp add: queue_inv_def)
  show "fst ` set (waiters db' i) = fst ` set (waiters db i)"
    using arg_cong [OF c(1), of set] by (simp add: waiting_core)
qed

lemma state_write_then:
  "state_write env i st db db' \<Longrightarrow> same_core db' db'' \<Longrightarrow> state_write env i st db db''"
  by (auto simp: state_write_def same_core_def)

text \<open>A new pending row, with its first transition.\<close>

definition row_added :: "queue_env \<Rightarrow> queue_item \<Rightarrow> queue_db \<Rightarrow> queue_db \<Rightarrow> bool" where
  "row_added env r db db' \<longleftrightarrow> q_state r = Q_pending \<and> q_id r \<notin> q_id ` set (d_items db) \<and>
     map core (d_items db') = map core (d_items db @ [r]) \<and>
     (\<exists>t e. d_log db' = d_log db @ [new_transition env e t] \<and> d_log e = d_log db
        \<and> ti_qitem t = q_id r \<and> ti_state t = Q_pending)"

lemma row_added_then: "row_added env r db db' \<Longrightarrow> same_core db' db'' \<Longrightarrow> row_added env r db db''"
  by (auto simp: row_added_def same_core_def)

lemma row_added_inv:
  assumes "row_added env r db db'"
  shows "rows_ok db \<Longrightarrow> rows_ok db'" "waits_ok env W db \<Longrightarrow> waits_ok env W db'"
    "fst ` set (waiters db' i) = fst ` set (waiters db i)"
proof -
  from assms obtain t e where
    r: "q_state r = Q_pending" "q_id r \<notin> q_id ` set (d_items db)"
    and c: "map core (d_items db') = map core (d_items db @ [r])"
    and l: "d_log db' = d_log db @ [new_transition env e t]" "d_log e = d_log db" "ti_qitem t = q_id r" "ti_state t = Q_pending"
    by (auto simp: row_added_def)
  define db1 where "db1 = db'\<lparr>d_items := d_items db @ [r]\<rparr>"
  have same: "same_core db1 db'" by (simp add: same_core_def db1_def c)
  show "rows_ok db'" if "rows_ok db"
  proof -
    have "rows_ok db1" using that r l by (auto simp: rows_ok_def db1_def)
    then show ?thesis using same_core_inv(1) [OF same] by simp
  qed
  show "waits_ok env W db'" if "waits_ok env W db"
  proof -
    have "live_ids db \<subseteq> live_ids db1" by (auto simp: live_ids_def db1_def)
    then have "waits_ok env W db1" using that r
      by (auto simp: waits_ok_def db1_def gate_ok_def)
    then show ?thesis using same_core_inv(2) [OF same] by simp
  qed
  show "fst ` set (waiters db' i) = fst ` set (waiters db i)"
    using same_core_inv(4) [OF same] r by (simp add: waiters_def db1_def)
qed

text \<open>A transition that keeps its row's state, and any write that leaves its row open, keep the invariant; a
  write that closes its row does once the propagation has run.\<close>

lemma state_write_keep:
  assumes w: "state_write env i st db db'" and "\<And>r. r \<in> set (d_items db) \<Longrightarrow> q_id r = i \<Longrightarrow> q_state r = st"
  shows "live_ids db \<subseteq> live_ids db'"
proof
  fix x assume "x \<in> live_ids db"
  then obtain r' where r': "r' \<in> set (d_items db)" "q_id r' = x" "isBlockerLive (q_state r')"
    by (auto simp: live_ids_def)
  from w r'(1) show "x \<in> live_ids db'"
    by (cases rule: state_write_rows_conv) (use r' assms(2) in \<open>auto simp: core_eq intro: live_idsI\<close>)
qed

lemma live_write_inv:
  assumes "state_write env i st db db'" "live_ids db \<subseteq> live_ids db'" "queue_inv env db"
  shows "queue_inv env db'"
  using state_write_rows_ok [OF assms(1)] state_write_open [OF assms(1,2), of "{}"] assms(3)
  by (simp add: queue_inv_def)

lemma open_write_inv:
  "state_write env i st db db' \<Longrightarrow> isBlockerLive st \<Longrightarrow> queue_inv env db \<Longrightarrow> queue_inv env db'"
  using live_write_inv state_write_live(2) by blast

lemma closing_write:
  assumes "state_write env i st db db'" "\<not> isBlockerLive st" "queue_inv env db"
  shows "rows_ok db'" "waits_ok env (fst ` set (waiters db' i)) db'"
  using state_write_rows_ok [OF assms(1)] state_write_close [OF assms(1,2), of "{}"] assms(3)
  by (simp_all add: queue_inv_def)

lemma closed_write_inv:
  assumes "state_write env i st db db1" "\<not> isBlockerLive st" "queue_inv env db"
    and "propagateBlockerCompletion env now i terminal actor prov db1 = Inr db'"
  shows "queue_inv env db'"
  using propagate_inv [OF assms(4)] closing_write [OF assms(1-3)] by simp

text \<open>How a write is recognised: one row update and one transition on it.\<close>

lemma state_writeI:
  assumes "d_items db' = row_set (\<lambda>r. q_id r = i) f (d_items db)"
    and "d_log db' = d_log db @ [new_transition env e t]" "d_log e = d_log db" "ti_qitem t = i" "ti_state t = st"
    and "\<And>r. r \<in> set (d_items db) \<Longrightarrow> q_id r = i \<Longrightarrow> q_id (f r) = i \<and> q_state (f r) = st \<and> closed_ok (f r)
       \<and> (st = Q_blocked \<longrightarrow> item_gate env (q_blockedOn (f r)) \<longrightarrow> the (q_blockedOn (f r)) \<in> live_ids db)"
  shows "state_write env i st db db'"
  unfolding state_write_def
  by (rule exI [of _ f], rule exI [of _ t], rule exI [of _ e]) (simp add: assms)

text \<open>The only row with an id.\<close>

lemma the_row:
  assumes "rows_ok db" "getById db i = Some q" "r \<in> set (d_items db)" "q_id r = i"
  shows "r = q"
  using assms by (auto simp: rows_ok_def getById_def dest!: row_get_Some) (metis distinct_map inj_onD)

lemma getById_Some: "getById db i = Some q \<Longrightarrow> q \<in> set (d_items db) \<and> q_id q = i"
  by (auto simp: getById_def dest: row_get_Some)

lemma getById_live: "getById db i = Some q \<Longrightarrow> isBlockerLive (q_state q) \<Longrightarrow> i \<in> live_ids db"
  by (auto dest: getById_Some intro: live_idsI)

text \<open>What a row meets in an invariant state.\<close>

lemma inv_row:
  assumes "queue_inv env db" "r \<in> set (d_items db)"
  shows "closed_ok r" "last_state (d_log db) (q_id r) = Some (q_state r)"
    "q_state r = Q_blocked \<Longrightarrow> item_gate env (q_blockedOn r) \<Longrightarrow> the (q_blockedOn r) \<in> live_ids db"
  using assms by (auto simp: queue_inv_def rows_ok_def waits_ok_def gate_ok_def)

end
