(* ===== verification/Queue_Steps.thy ===== *)
theory Queue_Steps
  imports Queue_Invariant
begin

text \<open>
  The queue as one machine: an operation per writer of the repository, with the time and the fresh
  ids it used, and the lemmas that say what kind of write each of them is.
\<close>

datatype queue_op =
    Op_create timestamp string create_input
  | Op_handoff timestamp string handoff_input
  | Op_handoff_complete timestamp string handoff_input
  | Op_cross_host timestamp cross_host_input
  | Op_claim timestamp string string "string option" "string option"
  | Op_unclaim timestamp string string string "string option" "string option"
  | Op_update timestamp string update_input
  | Op_fallback timestamp string string string
  | Op_release timestamp string
  | Op_transfer timestamp string string string
  | Op_nudge timestamp string string

definition queue_step :: "queue_env \<Rightarrow> queue_op \<Rightarrow> queue_db \<Rightarrow> queue_error + queue_db" where
  "queue_step env op db = (case op of
     Op_create now fresh inp \<Rightarrow> map_sum id fst (create env now fresh inp db)
   | Op_handoff now fresh inp \<Rightarrow> handoff env now fresh inp db
   | Op_handoff_complete now fresh inp \<Rightarrow> handoffAndComplete env now fresh inp db
   | Op_cross_host now inp \<Rightarrow> map_sum id fst (closeCrossHostHandoffSource env now inp db)
   | Op_claim now i session prov grantee \<Rightarrow> claim env now i session prov grantee db
   | Op_unclaim now i session reason prov grantee \<Rightarrow> unclaim env now i session reason prov grantee db
   | Op_update now job inp \<Rightarrow> update env now job inp db
   | Op_fallback now i dest reason \<Rightarrow> routeToFallback env now i dest reason db
   | Op_release now gen \<Rightarrow> Inr (fst (releaseClaimsByGeneration env now gen db))
   | Op_transfer now from to note \<Rightarrow> Inr (fst (transferClaimsByGeneration env now from to note db))
   | Op_nudge now i result \<Rightarrow> Inr (recordNudgeAttempt now i result db))"

section \<open>Small writes\<close>

text \<open>Rows of an id in a state.\<close>

definition in_state :: "queue_state \<Rightarrow> string \<Rightarrow> queue_db \<Rightarrow> bool" where
  "in_state st i db \<longleftrightarrow> (\<forall>r \<in> set (d_items db). q_id r = i \<longrightarrow> q_state r = st)"

lemma in_state_write: "state_write env i st db db' \<Longrightarrow> in_state st i db'"
  unfolding in_state_def by (auto elim!: state_write_rows simp: core_eq)

lemma in_state_other: "state_write env i st db db' \<Longrightarrow> w \<noteq> i \<Longrightarrow> in_state s w db \<Longrightarrow> in_state s w db'"
  unfolding in_state_def using state_write_other [of env i st db db' w s] by blast

lemma in_state_keep: "state_write env i st db db' \<Longrightarrow> in_state st w db \<Longrightarrow> in_state st w db'"
  by (cases "w = i") (auto intro: in_state_write in_state_other)

lemma keep_write_inv: "state_write env i st db db' \<Longrightarrow> in_state st i db \<Longrightarrow> queue_inv env db \<Longrightarrow> queue_inv env db'"
  using live_write_inv state_write_keep unfolding in_state_def by blast

lemma getById_in_state: "queue_inv env db \<Longrightarrow> getById db i = Some r \<Longrightarrow> in_state (q_state r) i db"
  by (auto simp: in_state_def queue_inv_def dest: the_row)

text \<open>A finished row only stays or reopens; a canceled one may also still be handed off.\<close>

definition allowed_edge :: "queue_state \<Rightarrow> queue_state \<Rightarrow> bool" where
  "allowed_edge s t \<longleftrightarrow> t = s \<or> isBlockerLive t \<or> \<not> guarded_terminal s \<or> (s = Q_canceled \<and> isTerminalState t)"

lemma live_edge [simp]: "isBlockerLive t \<Longrightarrow> allowed_edge s t" "allowed_edge s s"
  by (simp_all add: allowed_edge_def)

lemma open_edge: "\<not> isTerminalState s \<Longrightarrow> isTerminalState t \<Longrightarrow> allowed_edge s t"
  by (cases s) (simp_all add: allowed_edge_def state_sets)

text \<open>A writer is a run of small writes: the rest stays, a row changes state along a promised edge, a row
  appears.\<close>

inductive micro :: "queue_env \<Rightarrow> queue_db \<Rightarrow> queue_db \<Rightarrow> bool" for env where
  same: "same_core db db' \<Longrightarrow> micro env db db'"
| change: "state_write env i t db db' \<Longrightarrow> in_state s i db \<Longrightarrow> i \<in> q_id ` set (d_items db) \<Longrightarrow> allowed_edge s t
    \<Longrightarrow> micro env db db'"
| add: "row_added env r db db' \<Longrightarrow> micro env db db'"

abbreviation micro_run :: "queue_env \<Rightarrow> queue_db \<Rightarrow> queue_db \<Rightarrow> bool" where
  "micro_run env \<equiv> (micro env)\<^sup>*\<^sup>*"

lemma same_run [intro]: "same_core db db' \<Longrightarrow> micro_run env db db'"
  by (blast intro: micro.same)

lemma write_run:
  "state_write env i t db db' \<Longrightarrow> in_state s i db \<Longrightarrow> i \<in> q_id ` set (d_items db) \<Longrightarrow> allowed_edge s t
    \<Longrightarrow> micro_run env db db'"
  by (blast intro: micro.change)

lemma add_run: "row_added env r db db' \<Longrightarrow> micro_run env db db'"
  by (blast intro: micro.add)

lemma state_write_ids: "state_write env i t db db' \<Longrightarrow> map q_id (d_items db') = map q_id (d_items db)"
  unfolding state_write_def by (auto dest!: core_ids intro!: row_set_ids)

lemma getById_found: "i \<in> q_id ` set (d_items db) \<longleftrightarrow> getById db i \<noteq> None"
  by (simp add: getById_def row_get_None)

lemma state_found:
  "i \<in> q_id ` set (d_items db) \<Longrightarrow> in_state s i db \<Longrightarrow> map_option q_state (getById db i) = Some s"
  by (auto simp: getById_found in_state_def dest: getById_Some)

lemma state_of_rows:
  assumes "map core (d_items db) = map core rows"
  shows "map_option q_state (getById db i) = map_option q_state (find (\<lambda>r. q_id r = i) rows)"
proof -
  have "map_option q_state (find (\<lambda>r. q_id r = i) rs) = map_option (fst \<circ> snd) (find (\<lambda>c. fst c = i) (map core rs))"
    for rs by (induction rs) (auto simp: core_def)
  with assms show ?thesis by (simp add: getById_def row_get_def)
qed

lemma state_of_same: "same_core db db' \<Longrightarrow> map_option q_state (getById db' i) = map_option q_state (getById db i)"
  using state_of_rows [of db' "d_items db"] state_of_rows [of db "d_items db"] by (simp add: same_core_def)

lemma state_of_write:
  assumes "state_write env i t db db'" "i \<in> q_id ` set (d_items db)"
  shows "map_option q_state (getById db' j) = (if j = i then Some t else map_option q_state (getById db j))"
proof (cases "j = i")
  case True
  have "i \<in> q_id ` set (d_items db')"
    using assms(2) arg_cong [OF state_write_ids [OF assms(1)], of set] by simp
  with True in_state_write [OF assms(1)] state_found show ?thesis by auto
next
  case False
  from assms(1) obtain f where c: "map core (d_items db') = map core (row_set (\<lambda>r. q_id r = i) f (d_items db))"
    and f: "\<And>r. r \<in> set (d_items db) \<Longrightarrow> q_id r = i \<Longrightarrow> q_id (f r) = i"
    unfolding state_write_def by blast
  have "find (\<lambda>r. q_id r = j) (row_set (\<lambda>r. q_id r = i) f rows) = find (\<lambda>r. q_id r = j) rows"
    if "\<And>r. r \<in> set rows \<Longrightarrow> q_id r = i \<Longrightarrow> q_id (f r) = i" for rows
    using that False by (induction rows) (auto simp: row_set_def)
  from this [OF f] False state_of_rows [OF c] show ?thesis
    by (simp add: getById_def row_get_def)
qed

lemma state_of_added:
  assumes "row_added env r db db'"
  shows "getById db (q_id r) = None"
    "map_option q_state (getById db' j) = (if j = q_id r then Some Q_pending else map_option q_state (getById db j))"
proof -
  from assms have c: "map core (d_items db') = map core (d_items db @ [r])" and new: "q_id r \<notin> q_id ` set (d_items db)"
    and st: "q_state r = Q_pending"
    by (auto simp: row_added_def)
  from new show none: "getById db (q_id r) = None" by (simp add: getById_def row_get_None)
  show "map_option q_state (getById db' j) = (if j = q_id r then Some Q_pending else map_option q_state (getById db j))"
    using none st state_of_rows [OF c, of j]
    by (cases "find (\<lambda>r. q_id r = j) (d_items db)") (auto simp: getById_def row_get_def find_append)
qed

text \<open>What every writer is shown to do: keep the invariant, by a run of small writes.\<close>

definition writes_to :: "queue_env \<Rightarrow> queue_db \<Rightarrow> queue_db \<Rightarrow> bool" where
  "writes_to env db db' \<longleftrightarrow> queue_inv env db' \<and> micro_run env db db'"

lemma writes_to_trans: "writes_to env a b \<Longrightarrow> writes_to env b c \<Longrightarrow> writes_to env a c"
  by (auto simp: writes_to_def intro: rtranclp_trans)

lemma writes_to_same: "queue_inv env db \<Longrightarrow> same_core db db' \<Longrightarrow> writes_to env db db'"
  using same_core_inv(3) by (auto simp: writes_to_def)

lemma writes_to_then: "writes_to env db db' \<Longrightarrow> same_core db' db'' \<Longrightarrow> writes_to env db db''"
  using writes_to_same writes_to_trans unfolding writes_to_def by blast

lemma writes_to_added: "queue_inv env db \<Longrightarrow> row_added env r db db' \<Longrightarrow> writes_to env db db'"
  using row_added_inv by (auto simp: writes_to_def queue_inv_def intro: add_run)

text \<open>A write on a row that was read.\<close>

lemma read_write_run:
  assumes "queue_inv env db" "getById db i = Some r" "state_write env i t db db'" "allowed_edge (q_state r) t"
  shows "micro_run env db db'"
  by (rule write_run [OF assms(3) getById_in_state [OF assms(1,2)] _ assms(4)]) (simp add: getById_found assms(2))

lemma writes_to_open:
  assumes "queue_inv env db" "getById db i = Some r" "state_write env i t db db'" "isBlockerLive t"
  shows "writes_to env db db'"
  using assms open_write_inv [OF assms(3,4,1)] read_write_run [OF assms(1-3)] by (simp add: writes_to_def)

lemma writes_to_keep:
  assumes "queue_inv env db" "getById db i = Some r" "state_write env i (q_state r) db db'"
  shows "writes_to env db db'"
  using assms keep_write_inv [OF assms(3) getById_in_state [OF assms(1,2)] assms(1)] read_write_run [OF assms]
  by (simp add: writes_to_def)

lemma propagate_run:
  assumes "propagateBlockerCompletion env now i terminal actor prov db = Inr db'"
    and "rows_ok db" "waits_ok env (fst ` set (waiters db i)) db"
  shows "micro_run env db db'"
proof -
  let ?J = "\<lambda>xs d. closing env xs d \<and> fst ` set xs \<subseteq> q_id ` set (d_items d) \<and> micro_run env db d"
  have "?J [] db'"
  proof (rule try_fold_invariant [OF assms(1) [unfolded propagateBlockerCompletion_def], where I = ?J])
    show "?J (waiters db i) db"
      using waiters_blocked [OF assms(2,3)] by (auto simp: waiters_def)
  next
    fix y ys u v
    assume J: "?J (y # ys) u" and step: "propagate_one env now i terminal actor prov y u = Inr v"
    have blocked: "in_state Q_blocked (fst y) u" "fst y \<in> q_id ` set (d_items u)"
      using J by (auto simp: closing_def in_state_def)
    obtain st where w: "isBlockerLive st" "state_write env (fst y) st u v"
      using propagate_one_write [of env now i terminal actor prov "fst y" "snd y" u v] step blocked(1)
      by (auto simp: in_state_def)
    have "micro_run env u v" using write_run [OF w(2) blocked] w(1) by simp
    with J propagate_one_closing [OF _ step] arg_cong [OF state_write_ids [OF w(2)], of set]
    show "?J ys v" by (auto intro: rtranclp_trans)
  qed
  then show ?thesis by simp
qed

lemma closed_write_run:
  assumes "queue_inv env db" "getById db i = Some r" "state_write env i t db db1" "allowed_edge (q_state r) t"
    and "\<not> isBlockerLive t" "propagateBlockerCompletion env now i terminal actor prov db1 = Inr db'"
  shows "micro_run env db db'"
  using read_write_run [OF assms(1-4)] propagate_run [OF assms(6)] closing_write [OF assms(3,5,1)]
  by (auto intro: rtranclp_trans)

lemma writes_to_closed:
  assumes "queue_inv env db" "getById db i = Some r" "state_write env i t db db1" "allowed_edge (q_state r) t"
    and "\<not> isBlockerLive t" "propagateBlockerCompletion env now i terminal actor prov db1 = Inr db'"
  shows "writes_to env db db'"
  using closed_write_inv [OF assms(3,5,1,6)] closed_write_run [OF assms] by (simp add: writes_to_def)

section \<open>Creating\<close>

lemma insert_row_Inr: "insert_row r db = Inr db' \<longleftrightarrow> q_id r \<notin> q_id ` set (d_items db) \<and> db' = db\<lparr>d_items := d_items db @ [r]\<rparr>"
  by (auto simp: insert_row_def row_insert_Some split: option.splits)
     (auto simp: row_insert_def split: if_splits)

lemma created_row_fields [simp]:
  "q_id (created_row env now i inp qs db) = i" "q_state (created_row env now i inp qs db) = Q_pending"
  "q_source (created_row env now i inp qs db) = c_source inp" "q_dest (created_row env now i inp qs db) = c_dest inp"
  "q_body (created_row env now i inp qs db) = c_body inp"
  by (simp_all add: created_row_def)

lemma row_addedI:
  assumes "q_state r = Q_pending" "q_id r \<notin> q_id ` set (d_items db)"
    and "d_items db' = d_items db @ [r]" "d_log db' = d_log db @ [new_transition env e t]" "d_log e = d_log db"
    and "ti_qitem t = q_id r" "ti_state t = Q_pending"
  shows "row_added env r db db'"
  unfolding row_added_def using assms by auto

lemma create_adds:
  assumes "createInTransactionalContext env now fresh inp db = Inr (db', i)"
  shows "i = or_default (c_id inp) fresh \<and> (\<exists>qs. row_added env (created_row env now i inp qs db) db db'
     \<and> d_items db' = d_items db @ [created_row env now i inp qs db])"
proof -
  from assms obtain qs where *: "i = or_default (c_id inp) fresh" "q_id (created_row env now i inp qs db) \<notin> q_id ` set (d_items db)"
    "db' = persist_event (Queue_created i (c_source inp) (c_dest inp) (or_default (c_priority inp) ''routine'') (c_tier inp) (c_summary inp))
        (append_transition env ((plain_transition i Q_pending (c_source inp) (Some ''created''))
          \<lparr>ti_provenance := c_provenance inp, ti_principal := c_principal inp,
           ti_notification := create_notification env (c_dest inp) (parse_intent (c_intent inp))
             (alert_of (c_alert inp)) (c_gateway inp)\<rparr>)
          (db\<lparr>d_items := d_items db @ [created_row env now i inp qs db]\<rparr>))"
    by (auto simp: createInTransactionalContext_def Let_def effect_simps insert_row_Inr split: sum.splits)
  have "row_added env (created_row env now i inp qs db) db db'"
    using *
    by - (rule row_addedI [where e = "db\<lparr>d_items := d_items db @ [created_row env now i inp qs db]\<rparr>"],
          (simp add: frame_simps plain_transition_def)+)
  with * show ?thesis by (auto simp: frame_simps)
qed

text \<open>Staging the wake of a fresh row can only stamp that row.\<close>

lemma nudged_new:
  assumes "nudged i (rows @ [r]) rows'" "i \<notin> q_id ` set rows" "q_id r = i" "q_nudgeAttempt r = None" "q_nudgeResult r = None"
  shows "\<exists>a n. rows' = rows @ [r\<lparr>q_nudgeAttempt := a, q_nudgeResult := n\<rparr>]"
proof -
  have keep: "row_set (\<lambda>r. q_id r = i) f rows = rows" for f
    using assms(2) by (intro row_set_other) auto
  have id: "r = r\<lparr>q_nudgeAttempt := None, q_nudgeResult := None\<rparr>" using assms(4,5) by simp
  from assms(1) consider "rows' = rows @ [r]"
    | a n where "rows' = row_set (\<lambda>r. q_id r = i) (\<lambda>r. r\<lparr>q_nudgeAttempt := a, q_nudgeResult := n\<rparr>) (rows @ [r])"
    unfolding nudged_def by blast
  then show ?thesis
  proof cases
    case 1
    with id show ?thesis by metis
  next
    case (2 a n)
    then have "rows' = rows @ [r\<lparr>q_nudgeAttempt := a, q_nudgeResult := n\<rparr>]"
      using keep assms(3) by (simp add: row_set_def)
    then show ?thesis by blast
  qed
qed

lemma create_staged_adds:
  assumes "create_staged env now fresh inp db = Inr (db', i)"
  obtains qs a n db1 where "i = or_default (c_id inp) fresh"
    "createInTransactionalContext env now fresh inp db = Inr (db1, i)"
    "row_added env (created_row env now i inp qs db) db db'"
    "d_items db' = d_items db @ [(created_row env now i inp qs db)\<lparr>q_nudgeAttempt := a, q_nudgeResult := n\<rparr>]"
proof -
  from assms obtain db1 where 1: "createInTransactionalContext env now fresh inp db = Inr (db1, i)"
    by (auto simp: create_staged_def effect_simps split: if_splits sum.splits)
  let ?from = "if c_openrig inp \<and> \<not> isOpenRigSender (c_source inp) then OPENRIG_SENDER else c_source inp"
  have st: "staged i db1 db'"
  proof (cases "\<not> e_outbox env \<or> c_nudge inp = Some False")
    case True
    with assms 1 show ?thesis by (simp add: create_staged_def staged_def nudged_def)
  next
    case False
    with assms 1 show ?thesis
      by (cases "stageWakeIntent env now i ?from (c_dest inp) (sideEffectProvenance (c_provenance inp))
             (c_nudge inp) (c_openrig inp) db1")
         (auto simp: create_staged_def Let_def wake_not_retained_def staged_nudge intro: staged_outbox [OF stage_frame])
  qed
  from create_adds [OF 1] obtain qs where i: "i = or_default (c_id inp) fresh"
    and added: "row_added env (created_row env now i inp qs db) db db1"
    and items: "d_items db1 = d_items db @ [created_row env now i inp qs db]" by auto
  have "\<exists>a n. d_items db' = d_items db @ [(created_row env now i inp qs db)\<lparr>q_nudgeAttempt := a, q_nudgeResult := n\<rparr>]"
    using st items added by (intro nudged_new [where i = i]) (simp_all add: staged_def row_added_def created_row_def)
  with that i 1 row_added_then [OF added same_core_staged [OF st]] show thesis by blast
qed

lemma create_Inr:
  assumes "create env now fresh inp db = Inr (db', r, flag)"
  obtains qs a n db1 i where "i = or_default (c_id inp) fresh"
      "createInTransactionalContext env now fresh inp db = Inr (db1, i)"
      "row_added env (created_row env now i inp qs db) db db'" "getById db' i = Some r" "flag = False"
      "d_items db' = d_items db @ [(created_row env now i inp qs db)\<lparr>q_nudgeAttempt := a, q_nudgeResult := n\<rparr>]"
  | "db' = db" "c_id inp = Some (q_id r)" "getById db (q_id r) = Some r" "q_dest r = c_dest inp" "q_source r = c_source inp"
      "flag = (q_body r \<noteq> c_body inp)" "createInTransactionalContext env now fresh inp db = Inl Primary_key_conflict"
proof (cases "create_staged env now fresh inp db")
  case (Inr x)
  then obtain db1 i where x: "create_staged env now fresh inp db = Inr (db1, i)" by (cases x) auto
  with assms have eq: "db' = db1" "getById db' i = Some r" "flag = False"
    by (auto simp: create_def getByIdOrThrow_def effect_simps split: if_splits option.splits)
  from x show thesis
    by (rule create_staged_adds) (use that(1) eq in blast)
next
  case (Inl e)
  with assms have "db' = db \<and> truthy (c_id inp) \<and> getById db (the (c_id inp)) = Some r \<and> q_dest r = c_dest inp
      \<and> q_source r = c_source inp \<and> flag = (q_body r \<noteq> c_body inp) \<and> e = Primary_key_conflict"
    by (cases e) (auto simp: create_def split: if_splits option.splits)
  moreover from this have "c_id inp = Some (q_id r)"
    by (auto dest!: truthy_Some getById_Some)
  moreover from Inl calculation have "createInTransactionalContext env now fresh inp db = Inl Primary_key_conflict"
    by (auto simp: create_staged_def try_bind_Inl split: if_splits sum.splits)
  ultimately show thesis using that(2) by auto
qed

lemma create_writes:
  assumes "queue_inv env db" "create env now fresh inp db = Inr (db', r, flag)"
  shows "writes_to env db db'"
  using assms(2)
proof (cases rule: create_Inr)
  case (1 qs a n db1 i)
  with writes_to_added [OF assms(1)] show ?thesis by blast
next
  case 2
  with writes_to_same [OF assms(1)] show ?thesis by simp
qed

section \<open>Handing off\<close>

lemma handed_off_closed [simp]: "closed_ok (r\<lparr>q_state := s, q_updated := now, q_handedOffTo := x,
    q_closureReason := Some ''handed_off_to'', q_closureTarget := Some t\<rparr>)"
  by (simp add: closed_ok_def DONE_CLOSURE_REASONS_simps isClosureReason_def CLOSURE_REASONS_def)

lemma close_source_write:
  assumes "ti_qitem t = i" "ti_state t = st" "st \<noteq> Q_blocked"
  shows "state_write env i st db (close_source env now i st to target t db)"
  using assms
  by - (rule state_writeI [where f = "\<lambda>r. r\<lparr>q_state := st, q_updated := now, q_handedOffTo := Some to,
            q_closureReason := Some ''handed_off_to'', q_closureTarget := Some target\<rparr>"
          and e = "update_row i (\<lambda>r. r\<lparr>q_state := st, q_updated := now, q_handedOffTo := Some to,
            q_closureReason := Some ''handed_off_to'', q_closureTarget := Some target\<rparr>) db"],
        (simp add: close_source_def frame_simps)+)

lemma successor_fields [simp]:
  "q_id (successor_row env now i inp src qs) = i" "q_state (successor_row env now i inp src qs) = Q_pending"
  "q_handedOffFrom (successor_row env now i inp src qs) = Some (q_id src)"
  "q_dest (successor_row env now i inp src qs) = h_to inp"
  "q_blockedOn (successor_row env now i inp src qs) = None"
  "q_source (successor_row env now i inp src qs) = h_from inp"
  "q_chain (successor_row env now i inp src qs) = Some (or_default (q_chain src) [] @ [q_id src])"
  by (simp_all add: successor_row_def)

lemma assert_same: "assertTerminalClosureHasIntent env i j n db = Inr db' \<Longrightarrow> db' = db"
  by (auto simp: assertTerminalClosureHasIntent_def split: if_splits option.splits)

text \<open>The stages of a handoff: the source closes, the successor appears, the waiters move.\<close>

lemma handoff_body_stages:
  assumes "handoff_body env now fresh terminal cn on stamped inp src db = Inr db'" "terminal \<noteq> Q_blocked"
  obtains db1 db2 db4 qs where "state_write env (q_id src) terminal db db1"
    and "row_added env (successor_row env now fresh inp src qs) db1 db2"
    and "propagateBlockerCompletion env now (q_id src) terminal (h_from inp)
       (sideEffectProvenance (h_provenance inp)) db2 = Inr db4"
    and "same_core db4 db'" "d_jobs db' = d_jobs db4" "d_outbox db' = d_outbox db4"
    and "assertTerminalClosureHasIntent env (q_id src) fresh (h_nudge inp) db' = Inr db'"
    and "d_items db1 = row_set (\<lambda>r. q_id r = q_id src) (\<lambda>r. r\<lparr>q_state := terminal, q_updated := now,
       q_handedOffTo := Some (h_to inp), q_closureReason := Some ''handed_off_to'',
       q_closureTarget := Some (h_to inp)\<rparr>) (d_items db)"
    and "\<exists>a n. d_items db2 = d_items db1 @
       [(successor_row env now fresh inp src qs)\<lparr>q_nudgeAttempt := a, q_nudgeResult := n\<rparr>]"
    and "d_items db' = d_items db4"
proof -
  let ?qs = "carried_questions env db src (h_to inp)"
  let ?row = "successor_row env now fresh inp src ?qs"
  define db1 where "db1 = close_source env now (q_id src) terminal (h_to inp) (h_to inp)
    ((plain_transition (q_id src) terminal (h_from inp) (Some (or_default (h_note inp) cn)))
       \<lparr>ti_provenance := h_provenance inp, ti_principal := h_principal inp\<rparr>) db"
  from assms(1) obtain dbr db3 db4 t where
    r: "insert_row ?row db1 = Inr dbr"
    and s: "stageHandoffWake env now fresh (h_from inp) (h_to inp) (sideEffectProvenance (h_provenance inp))
      (h_nudge inp) (append_transition env t dbr) = Inr db3"
    and t: "ti_qitem t = fresh" "ti_state t = Q_pending"
    and p: "propagateBlockerCompletion env now (q_id src) terminal (h_from inp) (sideEffectProvenance (h_provenance inp))
       (persist_event (Queue_handed_off (q_id src) (h_from inp) (h_to inp) (q_summary src)) db3) = Inr db4"
    and a: "assertTerminalClosureHasIntent env (q_id src) fresh (h_nudge inp)
           (persist_event (Queue_created fresh (h_from inp) (h_to inp) (q_priority ?row) (q_tier ?row)
              (h_summary inp)) db4) = Inr db'"
    by (auto simp: handoff_body_def Let_def effect_simps db1_def plain_transition_def)
  from r have new: "fresh \<notin> q_id ` set (d_items db1)" "dbr = db1\<lparr>d_items := d_items db1 @ [?row]\<rparr>"
    by (auto simp: insert_row_Inr)
  have w: "state_write env (q_id src) terminal db db1"
    unfolding db1_def by (rule close_source_write) (simp_all add: plain_transition_def assms(2))
  have "row_added env ?row db1 (append_transition env t dbr)"
    using new t by - (rule row_addedI [where e = dbr and t = t], (simp add: frame_simps)+)
  then have added: "row_added env ?row db1
      (persist_event (Queue_handed_off (q_id src) (h_from inp) (h_to inp) (q_summary src)) db3)"
    using same_core_staged [OF staged_handoff [OF s]] same_core_trans same_core_event by (metis row_added_then)
  have "nudged fresh (d_items dbr) (d_items db3)" using staged_handoff [OF s] by (simp add: staged_def frame_simps)
  with new have two: "\<exists>a n. d_items db3 = d_items db1 @ [?row\<lparr>q_nudgeAttempt := a, q_nudgeResult := n\<rparr>]"
    by (intro nudged_new) (simp_all add: successor_row_def)
  have one: "d_items db1 = row_set (\<lambda>r. q_id r = q_id src) (\<lambda>r. r\<lparr>q_state := terminal, q_updated := now,
       q_handedOffTo := Some (h_to inp), q_closureReason := Some ''handed_off_to'',
       q_closureTarget := Some (h_to inp)\<rparr>) (d_items db)"
    by (simp add: db1_def close_source_def frame_simps)
  note db' = assert_same [OF a]
  show thesis
    by (rule that [OF w added p]) (use a one two in \<open>simp_all add: db' frame_simps\<close>)
qed

lemma handoff_with_Inr:
  assumes "handoff_with terminal cn on stamped env now fresh inp db = Inr db'"
  obtains src where "getById db (h_id inp) = Some src" "q_id src = h_id inp" "\<not> isTerminalState (q_state src)"
    "e_validateRig env (h_to inp)"
    "handoff_body env now fresh terminal cn on stamped inp src db = Inr db'"
  using assms
  by (auto simp: handoff_with_def handoff_guards_def effect_simps dest: getById_Some split: option.splits sum.splits if_splits)

lemma handoff_with_writes:
  assumes "queue_inv env db" "handoff_with terminal cn on stamped env now fresh inp db = Inr db'"
    and "isTerminalState terminal"
  shows "writes_to env db db'"
proof -
  have closed: "\<not> isBlockerLive terminal" "terminal \<noteq> Q_blocked" using assms(3) by (auto simp: state_sets)
  from assms(2) obtain src where src: "getById db (h_id inp) = Some src" "q_id src = h_id inp" "\<not> isTerminalState (q_state src)"
    "handoff_body env now fresh terminal cn on stamped inp src db = Inr db'"
    by (rule handoff_with_Inr)
  from src(4) closed(2) obtain db1 db2 db4 qs where s: "state_write env (q_id src) terminal db db1"
    "row_added env (successor_row env now fresh inp src qs) db1 db2"
    "propagateBlockerCompletion env now (q_id src) terminal (h_from inp)
       (sideEffectProvenance (h_provenance inp)) db2 = Inr db4" "same_core db4 db'"
    by (rule handoff_body_stages)
  have ok: "rows_ok db2" "waits_ok env (fst ` set (waiters db2 (q_id src))) db2"
    using row_added_inv [OF s(2)] closing_write [OF s(1) closed(1) assms(1)] by metis+
  have "micro_run env db db1"
    by (rule read_write_run [OF assms(1) src(1)]) (use s(1) src(2,3) open_edge assms(3) in auto)
  moreover have "micro_run env db1 db2" by (rule add_run [OF s(2)])
  moreover note propagate_run [OF s(3) ok]
  ultimately have "micro_run env db db4" by (meson rtranclp_trans)
  with propagate_inv [OF s(3) ok] s(4) show ?thesis
    using writes_to_then unfolding writes_to_def by blast
qed

lemma cross_host_Inr:
  assumes "closeCrossHostHandoffSource env now inp db = Inr (db', absorbed)"
  obtains "absorbed" "db' = db"
  | src st db1 where "\<not> absorbed" "getById db (x_id inp) = Some src" "\<not> isTerminalState (q_state src)"
      "st = (if x_done inp then Q_done else Q_handed_off)" "state_write env (x_id inp) st db db1"
      "propagateBlockerCompletion env now (x_id inp) st (x_from inp) (sideEffectProvenance (x_provenance inp)) db1 = Inr db'"
proof -
  let ?st = "if x_done inp then Q_done else Q_handed_off"
  let ?t = "(plain_transition (x_id inp) ?st (x_from inp)
      (Some (or_default (x_note inp) (''cross-host handoff to '' @ x_to inp))))\<lparr>ti_provenance := x_provenance inp\<rparr>"
  from assms obtain src where src: "getById db (x_id inp) = Some src"
    by (auto simp: closeCrossHostHandoffSource_def split: option.splits)
  let ?d = "persist_event (Queue_handed_off (x_id inp) (x_from inp) (x_to inp) (q_summary src))
      (close_source env now (x_id inp) ?st (x_to inp) (x_target inp) ?t db)"
  have "state_write env (x_id inp) ?st db (close_source env now (x_id inp) ?st (x_to inp) (x_target inp) ?t db)"
    by (rule close_source_write) (simp_all add: plain_transition_def)
  then have w: "state_write env (x_id inp) ?st db ?d" by (rule state_write_then) simp
  show thesis
  proof (cases "isTerminalState (q_state src)")
    case True
    with assms src that(1) show thesis by (auto simp: closeCrossHostHandoffSource_def split: if_splits)
  next
    case False
    with assms src have "\<not> absorbed \<and> propagateBlockerCompletion env now (x_id inp) ?st (x_from inp)
        (sideEffectProvenance (x_provenance inp)) ?d = Inr db'"
      by (simp add: closeCrossHostHandoffSource_def Let_def map_sum_Inr)
    with that(2) [OF _ src False refl w] show thesis by blast
  qed
qed

lemma cross_host_writes:
  assumes "queue_inv env db" "closeCrossHostHandoffSource env now inp db = Inr (db', absorbed)"
  shows "writes_to env db db'"
  using assms(2)
proof (cases rule: cross_host_Inr)
  case 1
  with writes_to_same [OF assms(1)] show ?thesis by simp
next
  case (2 src st db1)
  from 2(4) have "isTerminalState st" "\<not> isBlockerLive st" by (simp_all add: state_sets)
  with 2 writes_to_closed [OF assms(1)] open_edge show ?thesis by metis
qed

section \<open>Claims\<close>

lemma claim_Inr:
  assumes "claim env now i session prov grantee db = Inr db'"
  obtains r deadline where "getById db i = Some r" "q_dest r \<in> set (e_addresses env session)"
    "q_state r = Q_pending \<or> q_state r = Q_blocked" "computeClosureRequiredAt now (q_tier r) = Inr deadline"
    "db' = persist_event (Queue_claimed i session now deadline (q_summary r))
                   (retireParkGeneratedTimer i ''park_ended:claimed''
                     (append_transition env ((plain_transition i Q_in_progress session (Some ''claimed''))
                        \<lparr>ti_target := (if q_state r = Q_blocked then q_blockedOn r else None),
                         ti_provenance := prov, ti_principal := grantee\<rparr>)
                       (update_row i (\<lambda>q. q\<lparr>q_state := Q_in_progress, q_updated := now, q_claimedAt := Some now,
                          q_closureRequiredAt := deadline, q_claimedBy := e_generation env session,
                          q_blockedOn := None\<rparr>) db)))"
  using assms by (auto simp: claim_def split: option.splits sum.splits if_splits)

lemma claim_write:
  assumes "claim env now i session prov grantee db = Inr db'"
  shows "state_write env i Q_in_progress db db'"
  using assms
proof (rule claim_Inr)
  fix r deadline
  let ?f = "\<lambda>q. q\<lparr>q_state := Q_in_progress, q_updated := now, q_claimedAt := Some now,
     q_closureRequiredAt := deadline, q_claimedBy := e_generation env session, q_blockedOn := None\<rparr>"
  assume "db' = persist_event (Queue_claimed i session now deadline (q_summary r))
                   (retireParkGeneratedTimer i ''park_ended:claimed''
                     (append_transition env ((plain_transition i Q_in_progress session (Some ''claimed''))
                        \<lparr>ti_target := (if q_state r = Q_blocked then q_blockedOn r else None),
                         ti_provenance := prov, ti_principal := grantee\<rparr>)
                       (update_row i ?f db)))"
  then show "state_write env i Q_in_progress db db'"
    by - (rule state_writeI [where f = ?f and e = "update_row i ?f db"], (simp add: frame_simps plain_transition_def)+)
qed

lemma unclaim_write:
  assumes "unclaim env now i session reason prov grantee db = Inr db'"
  shows "state_write env i Q_pending db db'"
proof -
  let ?f = "\<lambda>q. q\<lparr>q_state := Q_pending, q_updated := now, q_claimedAt := None,
     q_closureRequiredAt := None, q_claimedBy := None\<rparr>"
  from assms obtain ev where "db' = persist_event ev
       (append_transition env ((plain_transition i Q_pending session (Some (''unclaimed: '' @ reason)))
          \<lparr>ti_provenance := prov, ti_principal := grantee\<rparr>) (update_row i ?f db))"
    by (auto simp: unclaim_def split: option.splits if_splits)
  then show ?thesis
    by - (rule state_writeI [where f = ?f and e = "update_row i ?f db"], (simp add: frame_simps plain_transition_def)+)
qed

lemma claim_writes:
  assumes "queue_inv env db" "claim env now i session prov grantee db = Inr db'"
  shows "writes_to env db db'"
  using assms(2)
  by (rule claim_Inr) (use writes_to_open [OF assms(1)] claim_write [OF assms(2)] in auto)

lemma unclaim_writes:
  assumes "queue_inv env db" "unclaim env now i session reason prov grantee db = Inr db'"
  shows "writes_to env db db'"
proof -
  from assms(2) obtain r where "getById db i = Some r" by (auto simp: unclaim_def split: option.splits)
  from writes_to_open [OF assms(1) this unclaim_write [OF assms(2)]] show ?thesis by simp
qed

text \<open>The loop over a generation's claims.\<close>

lemma claimed_rows_state:
  assumes inv: "queue_inv env db"
  shows "distinct (claimed_rows db gen)"
    "i \<in> set (claimed_rows db gen) \<Longrightarrow> in_state Q_in_progress i db \<and> i \<in> q_id ` set (d_items db)"
proof -
  have d: "distinct (map q_id (d_items db))" using inv by (simp add: queue_inv_def rows_ok_def)
  then show "distinct (claimed_rows db gen)" by (simp add: claimed_rows_def distinct_map_filter)
  assume "i \<in> set (claimed_rows db gen)"
  then obtain r where "r \<in> set (d_items db)" "q_id r = i" "q_state r = Q_in_progress"
    by (auto simp: claimed_rows_def)
  with d show "in_state Q_in_progress i db \<and> i \<in> q_id ` set (d_items db)"
    unfolding in_state_def by (metis distinct_map inj_onD image_eqI)
qed

lemma claims_fold_writes:
  assumes step: "\<And>i d. in_state Q_in_progress i d \<Longrightarrow> state_write env i t d (g i d)" and live: "isBlockerLive t"
  shows "queue_inv env db \<Longrightarrow> distinct xs
    \<Longrightarrow> (\<And>i. i \<in> set xs \<Longrightarrow> in_state Q_in_progress i db \<and> i \<in> q_id ` set (d_items db))
    \<Longrightarrow> writes_to env db (fold g xs db)"
proof (induction xs arbitrary: db)
  case Nil
  then show ?case using writes_to_same by simp
next
  case (Cons i xs)
  then have i: "in_state Q_in_progress i db" "i \<in> q_id ` set (d_items db)" by simp_all
  note w = step [OF i(1)]
  obtain r where "getById db i = Some r" using i(2) by (auto simp: getById_found)
  note one = writes_to_open [OF Cons.prems(1) this w live]
  have "writes_to env (g i db) (fold g xs (g i db))"
  proof (rule Cons.IH)
    show "queue_inv env (g i db)" using one by (simp add: writes_to_def)
    show "distinct xs" using Cons.prems(2) by simp
    fix j assume j: "j \<in> set xs"
    then have "j \<noteq> i" using Cons.prems(2) by auto
    with j Cons.prems(3) in_state_other [OF w] arg_cong [OF state_write_ids [OF w], of set]
    show "in_state Q_in_progress j (g i db) \<and> j \<in> q_id ` set (d_items (g i db))" by auto
  qed
  with one show ?case by (auto intro: writes_to_trans)
qed

lemma release_writes:
  assumes "queue_inv env db"
  shows "writes_to env db (fst (releaseClaimsByGeneration env now gen db))"
proof -
  let ?f = "\<lambda>q. q\<lparr>q_state := Q_pending, q_updated := now, q_claimedAt := None,
     q_closureRequiredAt := None, q_claimedBy := None\<rparr>"
  let ?g = "\<lambda>i d. append_transition env
     (plain_transition i Q_pending ''system'' (Some ''released: claimant generation retired (seat handover)''))
     (update_row i ?f d)"
  have step: "state_write env i Q_pending d (?g i d)" for i d
    by (rule state_writeI [where f = ?f and e = "update_row i ?f d"], (simp add: frame_simps plain_transition_def)+)
  show ?thesis
    using claims_fold_writes [OF step live_iff(1) assms] claimed_rows_state [OF assms] writes_to_same [OF assms]
    by (simp add: releaseClaimsByGeneration_def)
qed

lemma transfer_writes:
  assumes "queue_inv env db"
  shows "writes_to env db (fst (transferClaimsByGeneration env now from to note db))"
proof -
  let ?f = "\<lambda>q. q\<lparr>q_claimedBy := Some to, q_updated := now\<rparr>"
  let ?g = "\<lambda>i d. append_transition env (plain_transition i Q_in_progress ''system'' (Some note)) (update_row i ?f d)"
  have step: "state_write env i Q_in_progress d (?g i d)" if "in_state Q_in_progress i d" for i d
    using that
    by - (rule state_writeI [where f = ?f and e = "update_row i ?f d"],
          (simp add: frame_simps plain_transition_def in_state_def)+)
  show ?thesis
    using claims_fold_writes [OF step live_iff(2) assms] claimed_rows_state [OF assms] writes_to_same [OF assms]
    by (simp add: transferClaimsByGeneration_def)
qed

section \<open>Fallback and notes\<close>

lemma same_core_row: "quiet f \<Longrightarrow> same_core db (update_row i f db)"
  by (simp add: same_core_def frame_simps quiet_core)

lemma same_core_retire [simp]: "same_core db (retireParkGeneratedTimer i reason db)"
  by (rule same_core_jobs) (rule jobs_only_retire)

text \<open>A transition that keeps its row's state, after writes that keep the cores.\<close>

lemma note_write:
  assumes "queue_inv env db" "getById db i = Some r" "same_core db d2" "ti_qitem t = i" "ti_state t = q_state r"
  shows "state_write env i (q_state r) db (append_transition env t d2)"
  unfolding state_write_def
proof (rule exI [of _ "\<lambda>q. q"], rule exI [of _ t], rule exI [of _ d2], intro conjI ballI impI)
  show "map core (d_items (append_transition env t d2)) = map core (row_set (\<lambda>r. q_id r = i) (\<lambda>q. q) (d_items db))"
    using assms(3) by (simp add: frame_simps same_core_def row_set_def)
  fix q assume q: "q \<in> set (d_items db)" "q_id q = i"
  with the_row [OF _ assms(2)] assms(1) have "q = r" by (auto simp: queue_inv_def)
  with q show "q_state q = q_state r" "closed_ok q"
    "q_state r = Q_blocked \<Longrightarrow> item_gate env (q_blockedOn q) \<Longrightarrow> the (q_blockedOn q) \<in> live_ids db"
    using inv_row [OF assms(1) q(1)] by auto
qed (use assms(3-5) in \<open>simp_all add: frame_simps same_core_def\<close>)

lemma note_writes:
  assumes "queue_inv env db" "getById db i = Some r" "same_core db d2" "ti_qitem t = i" "ti_state t = q_state r"
  shows "writes_to env db (persist_event ev (append_transition env t d2))"
  by (rule writes_to_then [OF writes_to_keep [OF assms(1,2) note_write [OF assms]]]) simp

lemma fallback_writes:
  assumes "queue_inv env db" "routeToFallback env now i dest reason db = Inr db'"
  shows "writes_to env db db'"
proof -
  from assms(2) obtain r where r: "getById db i = Some r" by (auto simp: routeToFallback_def split: option.splits)
  define db1 where "db1 = update_row i (\<lambda>q. q\<lparr>q_dest := dest, q_updated := now,
      q_chain := Some (or_default (q_chain r) [] @ [''fallback-from:'' @ q_dest r]),
      q_resolution := Some (fallback_resolution db r reason)\<rparr>) db"
  have "same_core db db1" unfolding db1_def by (rule same_core_row) (simp add: quiet_def core_def)
  moreover have "\<exists>b. routeToFallback env now i dest reason db = Inr (persist_event (Qitem_fallback_routed i (q_dest r) dest reason) (append_transition env
      ((plain_transition i (q_state r) FALLBACK_ACTOR (Some (fallback_note (q_dest r) dest reason)))\<lparr>ti_target :=
         (if q_state r = Q_in_progress then retainedClaimBlocker
            (if b then db1 else retireParkGeneratedTimer i ''park_rerouted'' db1) i else None)\<rparr>)
      (if b then db1 else retireParkGeneratedTimer i ''park_rerouted'' db1)))"
    unfolding routeToFallback_def Let_def r option.case db1_def by (rule exI, rule refl)
  ultimately show ?thesis
    using note_writes [OF assms(1) r] same_core_trans [OF _ same_core_retire] assms(2) by (auto simp: plain_transition_def)
qed

lemma append_Inr:
  assumes "append_update env inp r db = Inr db'"
  obtains d2 t ev where "same_core db d2" "ti_qitem t = u_id inp" "ti_state t = q_state r"
    "db' = persist_event ev (append_transition env t d2)"
proof -
  let ?db1 = "if has_summary inp then update_row (u_id inp) (\<lambda>q. q\<lparr>q_summary := u_summary inp\<rparr>) db else db"
  let ?db2 = "case u_deadline inp of
             Some (Deadline_at d) \<Rightarrow> update_row (u_id inp) (\<lambda>q. q\<lparr>q_closureRequiredAt := Some d\<rparr>) ?db1 | _ \<Rightarrow> ?db1"
  have q: "quiet (\<lambda>q. q\<lparr>q_summary := s\<rparr>)" "quiet (\<lambda>q. q\<lparr>q_closureRequiredAt := d\<rparr>)" for s d
    by (simp_all add: quiet_def core_def)
  have "same_core db ?db1" by (simp add: same_core_row q)
  moreover have "same_core ?db1 ?db2"
    by (cases "u_deadline inp"; cases "the (u_deadline inp)") (simp_all add: same_core_row q)
  ultimately have "same_core db ?db2" by (rule same_core_trans)
  moreover from assms obtain ev t where "db' = persist_event ev (append_transition env t ?db2)"
    "ti_qitem t = u_id inp" "ti_state t = q_state r"
    unfolding append_update_def Let_def unless_refused_Inr by (auto simp: plain_transition_def)
  ultimately show thesis using that by blast
qed

lemma append_writes:
  assumes "queue_inv env db" "getById db (u_id inp) = Some r" "append_update env inp r db = Inr db'"
  shows "writes_to env db db'"
  using assms(3)
  by (rule append_Inr) (use note_writes [OF assms(1,2)] in auto)

lemma append_keeps_state:
  assumes "queue_inv env db" "getById db (u_id inp) = Some r" "append_update env inp r db = Inr db'"
  shows "map_option q_state (getById db' i) = map_option q_state (getById db i)"
  using assms(3)
proof (rule append_Inr)
  fix d2 t ev
  assume "same_core db d2" "ti_qitem t = u_id inp" "ti_state t = q_state r"
    and db': "db' = persist_event ev (append_transition env t d2)"
  from state_of_write [OF note_write [OF assms(1,2) this(1-3)], of i] assms(2) db'
  show ?thesis by (auto simp: getById_found state_of_same [OF same_core_event])
qed

section \<open>State writes by update\<close>

lemma same_core_wake [simp]: "same_core db (record_wake w db)"
  by (simp add: same_core_def frame_simps)

lemma same_core_settle: "same_core db (settle_wake i from st w n db)"
  by (auto simp: settle_wake_def intro: same_core_trans [OF same_core_retire same_core_wake] split: option.split)

lemma state_update_Inr:
  assumes "state_update env now job inp r st db = Inr db'"
  obtains db0 w ok where
    "\<forall>(c, e) \<in> set (wake_guards inp st). \<not> c" "\<forall>(c, e) \<in> set (reopen_guards inp r st). \<not> c"
    "validateClosure \<lparr>cr_state = state_name st, cr_reason = u_reason inp, cr_target = u_target inp\<rparr> = Inr ok"
    "\<forall>(c, e) \<in> set (update_guards env inp r st (effective_blocker inp r st db) db). \<not> c"
    "arm_wake env now job inp r st (effective_blocker inp r st db) db = Inr (db0, w)"
    "write_update env now inp r st (effective_blocker inp r st db) w db0 = Inr db'"
  using assms
  unfolding state_update_def Let_def unless_refused_Inr
  by (auto simp: effect_simps simp del: unless_refused_Cons split: sum.splits)

lemma blocker_guards_live:
  assumes "\<forall>(c, e) \<in> set (blocker_guards env Q_blocked b db). \<not> c" "item_gate env b"
  shows "the b \<in> live_ids db"
proof -
  from assms(2) obtain i where b: "b = Some i" "starts_with ''qitem-'' i" "\<not> isPersonAddress env i"
    by (auto simp: item_gate_def split: option.splits)
  then have "\<not> is_human_park env Q_blocked b" by (simp add: is_human_park_def)
  with assms(1) b have "getById db i \<noteq> None" "isBlockerLive (q_state (the (getById db i)))"
    by (simp_all add: blocker_guards_def)
  with b getById_live show ?thesis by auto
qed

lemma written_closed:
  assumes "validateClosure \<lparr>cr_state = state_name st, cr_reason = u_reason inp, cr_target = u_target inp\<rparr> = Inr ok"
  shows "closed_ok (written_row now inp r st b h q)"
proof (cases "st = Q_done")
  case True
  from assms have "ok_reason ok = u_reason inp" "ok_target ok = u_target inp"
    by (auto dest: validateClosure_fields)
  moreover obtain x where "ok_reason ok = Some x" "x \<in> set DONE_CLOSURE_REASONS"
    "requires_target x \<Longrightarrow> truthy (ok_target ok)"
    by (rule validateClosure_done [OF assms]) (use True in auto)
  ultimately have "u_reason inp = Some x" "x \<in> set DONE_CLOSURE_REASONS" "requires_target x \<Longrightarrow> truthy (u_target inp)"
    by simp_all
  then show ?thesis by (cases "u_target inp") (auto simp: closed_ok_def written_row_def)
qed (simp add: written_row_def closed_ok_def)

text \<open>The write before the propagation.\<close>

lemma write_update_Inr:
  assumes "write_update env now inp r st b w db = Inr db'"
  obtains t db2 db3 where
    "ti_qitem t = u_id inp" "ti_state t = st" "ti_actor t = u_actor inp"
    "db2 = settle_wake (u_id inp) (q_state r) st w (Suc (length (d_log db)))
       (append_transition env t (update_row (u_id inp) (written_row now inp r st b (is_human_park env st b)) db))"
    "(if isBlockerLive st then Inr db2
      else propagateBlockerCompletion env now (u_id inp) st (u_actor inp)
             (sideEffectProvenance (u_provenance inp)) db2) = Inr db3"
    "\<exists>ev. db' = persist_event ev db3"
proof -
  from assms show thesis
    unfolding write_update_def Let_def try_bind_Inr
    by (elim exE conjE, intro that)
       (auto simp: plain_transition_def last_transition_id_def frame_simps)
qed

lemma reopen_edge:
  "\<forall>(c, e) \<in> set (reopen_guards inp r st). \<not> c \<Longrightarrow> allowed_edge (q_state r) st"
  by (auto simp: reopen_guards_def is_reopen_def allowed_edge_def)

text \<open>The stages of a state write: the wake is armed, the row changes, the waiters move.\<close>

lemma state_update_stages:
  assumes "state_update env now job inp r st db = Inr db'"
  obtains db0 db2 db3 where "same_core db db0" "state_write env (u_id inp) st db0 db2" "allowed_edge (q_state r) st"
    "(if isBlockerLive st then Inr db2 else propagateBlockerCompletion env now (u_id inp) st (u_actor inp)
             (sideEffectProvenance (u_provenance inp)) db2) = Inr db3" "same_core db3 db'"
  using assms
proof (rule state_update_Inr)
  let ?b = "effective_blocker inp r st db"
  fix db0 w ok
  assume v: "validateClosure \<lparr>cr_state = state_name st, cr_reason = u_reason inp, cr_target = u_target inp\<rparr> = Inr ok"
    and o: "\<forall>(c, e) \<in> set (reopen_guards inp r st). \<not> c"
    and g: "\<forall>(c, e) \<in> set (update_guards env inp r st ?b db). \<not> c"
    and a: "arm_wake env now job inp r st ?b db = Inr (db0, w)"
    and u: "write_update env now inp r st ?b w db0 = Inr db'"
  let ?i = "u_id inp" and ?f = "written_row now inp r st ?b (is_human_park env st ?b)"
  note same = same_core_jobs [OF jobs_only_arm_wake [OF a]]
  have live0: "live_ids db0 = live_ids db"
    using same by (intro live_ids_cong) (simp add: same_core_def)
  from u obtain t db2 db3 where
    t: "ti_qitem t = ?i" "ti_state t = st"
    and db2: "db2 = settle_wake ?i (q_state r) st w (Suc (length (d_log db0))) (append_transition env t (update_row ?i ?f db0))"
    and p: "(if isBlockerLive st then Inr db2 else propagateBlockerCompletion env now ?i st (u_actor inp)
             (sideEffectProvenance (u_provenance inp)) db2) = Inr db3"
    and db': "\<exists>ev. db' = persist_event ev db3"
    by (rule write_update_Inr)
  have "state_write env ?i st db0 (append_transition env t (update_row ?i ?f db0))"
  proof (rule state_writeI [where f = ?f and t = t and e = "update_row ?i ?f db0"])
    fix q assume q: "q \<in> set (d_items db0)" "q_id q = ?i"
    have "the ?b \<in> live_ids db0" if "st = Q_blocked" "item_gate env ?b"
      using blocker_guards_live [OF _ that(2)] g that(1) live0 by (simp add: update_guards_def)
    then show "q_id (?f q) = ?i \<and> q_state (?f q) = st \<and> closed_ok (?f q)
       \<and> (st = Q_blocked \<longrightarrow> item_gate env (q_blockedOn (?f q)) \<longrightarrow> the (q_blockedOn (?f q)) \<in> live_ids db0)"
      using q(2) written_closed [OF v] by (simp add: written_row_def)
  qed (use t in \<open>simp_all add: frame_simps\<close>)
  then have "state_write env ?i st db0 db2"
    unfolding db2 by (rule state_write_then) (rule same_core_settle)
  from that [OF same this reopen_edge [OF o] p] db' show thesis by auto
qed

lemma state_update_writes:
  assumes inv: "queue_inv env db" and r: "getById db (u_id inp) = Some r"
    and u: "state_update env now job inp r st db = Inr db'"
  shows "writes_to env db db'"
proof -
  from u obtain db0 db2 db3 where s: "same_core db db0" "state_write env (u_id inp) st db0 db2" "allowed_edge (q_state r) st"
    "(if isBlockerLive st then Inr db2 else propagateBlockerCompletion env now (u_id inp) st (u_actor inp)
             (sideEffectProvenance (u_provenance inp)) db2) = Inr db3" "same_core db3 db'"
    by (rule state_update_stages)
  obtain r0 where r0: "getById db0 (u_id inp) = Some r0" "q_state r0 = q_state r"
    using state_of_same [OF s(1), of "u_id inp"] r by auto
  have inv0: "queue_inv env db0" using same_core_inv(3) [OF s(1)] inv by simp
  have "writes_to env db0 db3"
  proof (cases "isBlockerLive st")
    case True
    with s(4) writes_to_open [OF inv0 r0(1) s(2)] show ?thesis by simp
  next
    case False
    with s(4) have "propagateBlockerCompletion env now (u_id inp) st (u_actor inp)
             (sideEffectProvenance (u_provenance inp)) db2 = Inr db3" by simp
    from writes_to_closed [OF inv0 r0(1) s(2) _ False this] s(3) r0(2) show ?thesis by simp
  qed
  with writes_to_same [OF inv s(1)] s(5) show ?thesis
    by (blast intro: writes_to_trans writes_to_then)
qed

lemma update_Inr:
  assumes "update env now job inp db = Inr db'"
  obtains r where "getById db (u_id inp) = Some r" "preserves_state inp r" "append_update env inp r db = Inr db'"
  | r st where "getById db (u_id inp) = Some r" "\<not> preserves_state inp r" "u_state inp = Some (state_name st)"
      "state_update env now job inp r st db = Inr db'"
proof -
  from assms obtain r where r: "getById db (u_id inp) = Some r"
    and u: "(if preserves_state inp r then append_update env inp r db
       else case parse_state (the (u_state inp)) of None \<Rightarrow> Inl Invalid_state
         | Some st \<Rightarrow> state_update env now job inp r st db) = Inr db'"
    by (auto simp: update_def unless_refused_Inr simp del: unless_refused_Cons split: option.splits)
  show thesis
  proof (cases "preserves_state inp r")
    case True
    with r u that(1) show thesis by simp
  next
    case False
    then have "u_state inp \<noteq> None" by (simp add: preserves_state_def)
    with False u obtain st where "u_state inp = Some (state_name st)" "state_update env now job inp r st db = Inr db'"
      by (auto split: option.splits)
    with r False that(2) show thesis by blast
  qed
qed

lemma update_writes:
  assumes "queue_inv env db" "update env now job inp db = Inr db'"
  shows "writes_to env db db'"
  using assms(2)
proof (cases rule: update_Inr)
  case (1 r)
  then show ?thesis by (intro append_writes [OF assms(1)])
next
  case (2 r st)
  then show ?thesis by (intro state_update_writes [OF assms(1)])
qed

section \<open>The machine\<close>

lemma queue_step_writes:
  assumes "queue_inv env db" "queue_step env op db = Inr db'"
  shows "writes_to env db db'"
proof (cases op)
  case (Op_create now fresh inp)
  with assms create_writes show ?thesis by (auto simp: queue_step_def)
next
  case (Op_cross_host now inp)
  with assms cross_host_writes show ?thesis by (auto simp: queue_step_def)
next
  case (Op_nudge now i result)
  with assms writes_to_same [OF assms(1) same_core_staged [OF staged_nudge]] show ?thesis by (auto simp: queue_step_def)
qed (use assms in \<open>auto simp: queue_step_def handoff_def handoffAndComplete_def state_sets
       intro: handoff_with_writes claim_writes unclaim_writes update_writes fallback_writes release_writes transfer_writes\<close>)

interpretation queue: guarded_machine "queue_step env" "queue_inv env" for env
  by unfold_locales (use queue_step_writes in \<open>simp add: writes_to_def\<close>)

end
