(* ===== verification/Queue_Lifecycle.thy ===== *)
theory Queue_Lifecycle
  imports Queue_Steps
begin

text \<open>
  What the repository promises of a row's life, and that every writer keeps it. A writer is a run of
  small writes (a row appears, a row changes state, the rest stays), and such a run refines an
  abstract machine that knows only each row's state and the list of states written.
\<close>

section \<open>The abstract machine\<close>

type_synonym life = "(string \<Rightarrow> queue_state option) \<times> (string \<times> queue_state) list"

inductive life_step :: "life \<Rightarrow> life \<Rightarrow> bool" where
  appear: "m i = None \<Longrightarrow> life_step (m, l) (m(i \<mapsto> Q_pending), l @ [(i, Q_pending)])"
| move: "m i = Some s \<Longrightarrow> allowed_edge s t \<Longrightarrow> life_step (m, l) (m(i \<mapsto> t), l @ [(i, t)])"

inductive_cases life_stepE: "life_step a b"

definition life_of :: "queue_db \<Rightarrow> life" where
  "life_of db = (\<lambda>i. map_option q_state (getById db i), map (\<lambda>t. (t_qitem t, t_state t)) (d_log db))"

section \<open>Refinement\<close>

lemma micro_refines:
  assumes "micro env db db'"
  shows "life_step\<^sup>*\<^sup>* (life_of db) (life_of db')"
  using assms
proof cases
  case same
  then have "life_of db' = life_of db"
    using state_of_same [OF same] by (simp add: life_of_def same_core_def)
  then show ?thesis by simp
next
  case (change i t s)
  then have "life_of db' = ((fst (life_of db))(i \<mapsto> t), snd (life_of db) @ [(i, t)])"
    using state_of_write [OF change(1,3)] by (auto simp: life_of_def state_write_def)
  moreover have "fst (life_of db) i = Some s"
    using state_found [OF change(3,2)] by (simp add: life_of_def)
  ultimately show ?thesis
    using life_step.move [of "fst (life_of db)" i s t "snd (life_of db)"] change(4) by auto
next
  case (add r)
  then have "life_of db' = ((fst (life_of db))(q_id r \<mapsto> Q_pending), snd (life_of db) @ [(q_id r, Q_pending)])"
    using state_of_added(2) [OF add] by (auto simp: life_of_def row_added_def)
  moreover have "fst (life_of db) (q_id r) = None"
    using state_of_added(1) [OF add] by (simp add: life_of_def)
  ultimately show ?thesis
    using life_step.appear [of "fst (life_of db)" "q_id r" "snd (life_of db)"] by auto
qed

lemma micro_run_refines: "micro_run env db db' \<Longrightarrow> life_step\<^sup>*\<^sup>* (life_of db) (life_of db')"
  by (induction rule: rtranclp_induct) (auto dest: micro_refines)

section \<open>Runs\<close>

lemma run_inv: "queue_inv env (run_steps (queue_step env) ops empty_db)"
  by (rule queue.run_keeps) (rule queue_inv_empty)

lemma run_micro: "queue_inv env db \<Longrightarrow> micro_run env db (run_steps (queue_step env) ops db)"
  by (erule queue.run_stable) (use queue_step_writes in \<open>auto simp: writes_to_def intro: rtranclp_trans\<close>)

lemma life_of_empty: "life_of empty_db = (\<lambda>_. None, [])"
  by (simp add: life_of_def empty_db_def getById_def row_get_def fun_eq_iff)

text \<open>What the abstract machine keeps: the map is the end of the list, and the list follows the edges.\<close>

definition life_history :: "string \<Rightarrow> (string \<times> queue_state) list \<Rightarrow> queue_state list" where
  "life_history i l = map snd (filter (\<lambda>e. fst e = i) l)"

lemma life_history_simps [simp]:
  "life_history i [] = []"
  "life_history i (l @ [(j, s)]) = (if j = i then life_history i l @ [s] else life_history i l)"
  by (simp_all add: life_history_def)

definition life_ok :: "life \<Rightarrow> bool" where
  "life_ok ml \<longleftrightarrow> (\<forall>i. let h = life_history i (snd ml) in
     fst ml i = (if h = [] then None else Some (last h)) \<and> successively allowed_edge h
       \<and> (h \<noteq> [] \<longrightarrow> hd h = Q_pending))"

lemma life_ok_step: "life_step a b \<Longrightarrow> life_ok a \<Longrightarrow> life_ok b"
proof (induction rule: life_step.induct)
  case (appear m i l)
  have "life_history i l = []"
  proof (rule ccontr)
    assume "life_history i l \<noteq> []"
    with appear.prems appear.hyps show False by (auto simp: life_ok_def Let_def dest: spec [of _ i])
  qed
  with appear.prems show ?case by (auto simp: life_ok_def Let_def)
next
  case (move m i s t l)
  then have "life_history i l \<noteq> []" "last (life_history i l) = s"
    by (auto simp: life_ok_def Let_def split: if_splits dest!: spec [of _ i])
  with move show ?case
    by (auto simp: life_ok_def Let_def successively_append_iff hd_append)
qed

lemma life_ok_run: "life_step\<^sup>*\<^sup>* a b \<Longrightarrow> life_ok a \<Longrightarrow> life_ok b"
  by (induction rule: rtranclp_induct) (auto dest: life_ok_step)

lemma life_ok_empty: "life_ok (\<lambda>_. None, [])"
  by (simp add: life_ok_def)

lemma life_history_log: "life_history i (snd (life_of db)) = map t_state (listForQitem db i)"
  by (simp add: life_history_def life_of_def listForQitem_def filter_map o_def)

text \<open>Logs and tables only grow.\<close>

lemma micro_grows:
  assumes "micro env db db'"
  shows "prefix (d_log db) (d_log db') \<and> prefix (map q_id (d_items db)) (map q_id (d_items db'))"
  using assms
proof cases
  case same
  then have "map q_id (d_items db') = map q_id (d_items db)" by (auto simp: same_core_def intro: core_ids)
  with same show ?thesis by (simp add: same_core_def)
next
  case (change i t s)
  then show ?thesis using state_write_ids [OF change(1)] by (auto simp: state_write_def)
next
  case (add r)
  then have "map q_id (d_items db') = map q_id (d_items db @ [r])"
    by (intro core_ids) (simp add: row_added_def)
  with add show ?thesis by (auto simp: row_added_def)
qed

lemma micro_run_grows: "micro_run env db db' \<Longrightarrow>
    prefix (d_log db) (d_log db') \<and> prefix (map q_id (d_items db)) (map q_id (d_items db'))"
  by (induction rule: rtranclp_induct) (auto dest!: micro_grows intro: prefix_order.trans)

section \<open>Properties\<close>

text \<open>C8: the queue repository refines the life cycle it promises: whatever sequence of creates,
  handoffs, claims, updates, fallbacks and seat swaps is attempted on an empty queue, refused ones
  included, the state of every row and the list of states written are reached by the abstract machine
  in which a row appears as pending and then moves only along allowed edges: a done or handed-off row
  stays or reopens to an active state, a canceled one may also be handed off.\<close>

theorem queue_refines_life:
  "life_step\<^sup>*\<^sup>* (life_of empty_db) (life_of (run_steps (queue_step env) ops empty_db))"
  by (rule micro_run_refines) (rule run_micro [OF queue_inv_empty])


text \<open>The log is append-only and no row is ever removed: continuing any run only extends the
  transition log and the table of rows, and transitions are numbered from one without gaps.\<close>

theorem queue_append_only:
  fixes env :: queue_env and ops :: "queue_op list" and more :: "queue_op list"
  defines "db \<equiv> run_steps (queue_step env) ops empty_db" and "db' \<equiv> run_steps (queue_step env) (ops @ more) empty_db"
  shows "prefix (d_log db) (d_log db') \<and> prefix (map q_id (d_items db)) (map q_id (d_items db'))
    \<and> map t_id (d_log db) = [1..<Suc (length (d_log db))] \<and> distinct (map q_id (d_items db))"
proof -
  have inv: "queue_inv env db" unfolding db_def by (rule run_inv)
  from micro_run_grows [OF run_micro [OF this]] inv show ?thesis
    by (simp add: db_def db'_def run_steps_append queue_inv_def rows_ok_def)
qed

end
