(* ===== verification/Queue_Properties.thy ===== *)
theory Queue_Properties
  imports Queue_Lifecycle
begin

text \<open>
  What the queue guarantees, over runs of its operations from an empty table and for single
  operations on any invariant state.
\<close>

section \<open>The outbox under a queue write\<close>

lemma retain_found: "retain now i inp b False s = Inr (t, e) \<Longrightarrow> getEntry t i \<noteq> None"
  by (auto simp: retain_def retain_new_def Let_def reread_Inr split: option.splits if_splits sum.splits)

lemma record_entry_found: "record_entry now f (inp\<lparr>in_outboxId := Some i\<rparr>) s = Inr (t, e) \<Longrightarrow> getEntry t i \<noteq> None"
  by (auto simp: record_entry_def Let_def reread_Inr split: option.splits)

lemma bind_guard_keeps: "keeps s (bind_guard i b s)"
  unfolding bind_guard_def
  by (cases b) (auto simp: keeps_refl custody_def same_content_def intro: keeps_row_set)

lemma wake_record_id: "wake_record env inp adm = (wake_record env inp adm)\<lparr>in_outboxId := Some (wk_outboxId inp)\<rparr>"
  by (simp add: wake_record_def Let_def)

lemma keeps_found: "keeps s t \<Longrightarrow> getEntry s i \<noteq> None \<Longrightarrow> getEntry t i \<noteq> None"
  by (auto simp: keeps_def)

lemma stage_outbox_Inr:
  assumes "stage_outbox env now inp adm s = Inr t"
  shows "keeps s t \<and> getEntry t (wk_outboxId inp) \<noteq> None"
proof (cases "e_retentionTarget env (wk_to inp) (wa_openrig adm) (wa_urgent adm)")
  case (Some target)
  with assms obtain e where "retain now (wk_outboxId inp) (wake_record env inp adm) target False s = Inr (t, e)"
    by (auto simp: stage_outbox_def Let_def)
  then show ?thesis using retain_found retain_keeps by blast
next
  case None
  with assms obtain u e where u: "record_entry now (wk_outboxId inp) (wake_record env inp adm) s = Inr (u, e)"
    and t: "t = bind_guard (wk_outboxId inp) (e_deliveryTarget env (wk_to inp)) u"
    by (auto simp: stage_outbox_def Let_def effect_simps split: option.splits if_splits)
  have "getEntry u (wk_outboxId inp) \<noteq> None"
    using u by (subst (asm) wake_record_id) (rule record_entry_found)
  moreover note bind = bind_guard_keeps [of u "wk_outboxId inp" "e_deliveryTarget env (wk_to inp)"]
  ultimately show ?thesis
    using keeps_trans [OF record_entry_keeps [OF u] bind] keeps_found [OF bind] t by blast
qed

lemma recordWakeIntent_Inr:
  assumes "recordWakeIntent env now inp db = Inr db'"
  shows "keeps (d_outbox db) (d_outbox db') \<and> (e_outbox env \<longrightarrow> getEntry (d_outbox db') (wk_outboxId inp) \<noteq> None)"
  using assms stage_outbox_Inr
  by (fastforce simp: recordWakeIntent_def effect_simps intro: keeps_refl split: if_splits)

section \<open>Rows that a propagation leaves alone\<close>

lemma getById_row_set:
  assumes "d_items db' = row_set (\<lambda>r. q_id r = i) f (d_items db)" "\<And>r. q_id (f r) = q_id r"
  shows "getById db' j = (if j = i then map_option f (getById db i) else getById db j)"
  using row_get_set [of q_id f j "\<lambda>r. q_id r = i" "d_items db"] assms
  by (cases "getById db j") (auto simp: getById_def dest: row_get_Some)

lemma rebind_rows:
  "d_items (rebind_waiter env now source actor prov s i db)
     = row_set (\<lambda>r. q_id r = i) (\<lambda>r. r\<lparr>q_blockedOn := Some (q_id s), q_updated := now\<rparr>) (d_items db)"
  "d_outbox (rebind_waiter env now source actor prov s i db) = d_outbox db"
  by (simp_all add: rebind_waiter_def Let_def frame_simps case_prod_beta split: option.split)

lemma unpark_rows:
  assumes "unpark_waiter env now source terminal actor prov i dest db = Inr db'"
  shows "d_items db' = row_set (\<lambda>r. q_id r = i)
      (\<lambda>r. r\<lparr>q_state := Q_pending, q_blockedOn := None, q_updated := now\<rparr>) (d_items db)"
    "keeps (d_outbox db) (d_outbox db')"
proof -
  let ?d = "retireParkGeneratedTimer i ''park_ended:auto-unparked''
           (append_transition env (plain_transition i Q_pending actor (Some (''auto-unparked: blocker '' @ source
      @ '' reached terminal state '' @ [CHR 0x27] @ state_name terminal @ [CHR 0x27])))
             (update_row i (\<lambda>r. r\<lparr>q_state := Q_pending, q_blockedOn := None, q_updated := now\<rparr>) db))"
  from assms obtain db4 where
    4: "stageAutoUnparkWakeIntent env now i dest actor prov source (Suc (length (d_log db))) ?d = Inr db4"
    and db': "d_items db' = d_items db4" "d_outbox db' = d_outbox db4"
    by (auto simp: unpark_waiter_def Let_def effect_simps frame_simps last_transition_id_def)
  show "d_items db' = row_set (\<lambda>r. q_id r = i)
      (\<lambda>r. r\<lparr>q_state := Q_pending, q_blockedOn := None, q_updated := now\<rparr>) (d_items db)"
    using arg_cong [OF unpark_stage_frame [OF 4], of d_items] by (simp add: db' frame_simps)
  from 4 obtain inp where "recordWakeIntent env now inp ?d = Inr db4"
    unfolding stageAutoUnparkWakeIntent_def by (auto simp: map_sum_def split: sum.splits)
  from recordWakeIntent_Inr [OF this] show "keeps (d_outbox db) (d_outbox db')"
    by (simp add: db' frame_simps)
qed

lemma propagate_one_rows:
  assumes "propagate_one env now source terminal actor prov (i, dest) db = Inr db'"
  obtains s where "new_blocker db source terminal dest = Some s" "keeps (d_outbox db) (d_outbox db')"
      "d_items db' = row_set (\<lambda>r. q_id r = i) (\<lambda>r. r\<lparr>q_blockedOn := Some (q_id s), q_updated := now\<rparr>) (d_items db)"
  | "keeps (d_outbox db) (d_outbox db')" "d_items db' = row_set (\<lambda>r. q_id r = i)
      (\<lambda>r. r\<lparr>q_state := Q_pending, q_blockedOn := None, q_updated := now\<rparr>) (d_items db)"
proof (cases "new_blocker db source terminal dest")
  case None
  with assms unpark_rows that(2) show thesis by (simp add: propagate_one_def)
next
  case (Some s)
  with assms have "db' = rebind_waiter env now source actor prov s i db" by (simp add: propagate_one_def)
  with that(1) [OF Some] show thesis by (simp add: rebind_rows keeps_refl)
qed

text \<open>Rows that do not wait, and the staged wakes, survive a propagation.\<close>

lemma propagate_others:
  assumes "propagateBlockerCompletion env now source terminal actor prov db = Inr db'"
    and "j \<notin> fst ` set (waiters db source)"
  shows "getById db' j = getById db j \<and> keeps (d_outbox db) (d_outbox db')"
proof -
  let ?J = "\<lambda>(xs :: (string \<times> string) list) d. j \<notin> fst ` set xs \<and> getById d j = getById db j \<and> keeps (d_outbox db) (d_outbox d)"
  have "?J [] db'"
  proof (rule try_fold_invariant [OF assms(1) [unfolded propagateBlockerCompletion_def], where I = ?J])
    show "?J (waiters db source) db" using assms(2) keeps_refl by blast
  next
    fix y ys u v
    assume J: "?J (y # ys) u" and step: "propagate_one env now source terminal actor prov y u = Inr v"
    obtain i dest where y: "y = (i, dest)" by (cases y)
    from step [unfolded y] show "?J ys v"
      by (cases rule: propagate_one_rows)
         (use J y getById_row_set keeps_trans in \<open>auto; metis\<close>)+
  qed
  then show ?thesis by simp
qed

text \<open>After a propagation nobody waits on the closed row: each waiter is pending again, or parked on the row
  that took its place.\<close>

definition resumed :: "string \<Rightarrow> queue_item \<Rightarrow> bool" where
  "resumed i r \<longleftrightarrow> (q_state r = Q_pending \<and> q_blockedOn r = None) \<or>
     (q_state r = Q_blocked \<and> (\<exists>s. q_blockedOn r = Some s \<and> s \<noteq> i))"

text \<open>One waiter, as a row update.\<close>

lemma propagate_one_resumes:
  assumes "propagate_one env now i terminal actor prov (w, dest) db = Inr db'"
    and "in_state terminal i db" "\<not> isBlockerLive terminal"
  obtains f where "d_items db' = row_set (\<lambda>r. q_id r = w) f (d_items db)" "\<And>r. q_id (f r) = q_id r"
    "\<And>r. q_state r = Q_blocked \<Longrightarrow> resumed i (f r)"
  using assms(1)
proof (cases rule: propagate_one_rows)
  case (1 s)
  from new_blocker_live [OF 1(1)] assms(2,3) have "q_id s \<noteq> i"
    by (auto simp: live_ids_def in_state_def)
  with that [OF 1(3)] show thesis by (simp add: resumed_def)
next
  case 2
  from that [OF 2(2)] show thesis by (simp add: resumed_def)
qed

definition resuming :: "string \<Rightarrow> queue_state \<Rightarrow> string set \<Rightarrow> (string \<times> string) list \<Rightarrow> queue_db \<Rightarrow> bool" where
  "resuming i terminal W xs d \<longleftrightarrow> i \<notin> fst ` set xs \<and> distinct (map fst xs) \<and> in_state terminal i d
     \<and> W \<subseteq> q_id ` set (d_items d) \<and> fst ` set (waiters d i) \<subseteq> fst ` set xs
     \<and> (\<forall>x \<in> fst ` set xs. in_state Q_blocked x d)
     \<and> (\<forall>w \<in> W - fst ` set xs. \<exists>r. getById d w = Some r \<and> resumed i r)"

lemma resuming_step:
  assumes J: "resuming i terminal W ((w, dest) # ys) u" and W: "w \<in> W"
    and f: "d_items v = row_set (\<lambda>r. q_id r = w) f (d_items u)" "\<And>r. q_id (f r) = q_id r"
      "\<And>r. q_state r = Q_blocked \<Longrightarrow> resumed i (f r)"
  shows "resuming i terminal W ys v"
proof -
  from J have w: "w \<noteq> i" "w \<notin> fst ` set ys" "in_state Q_blocked w u" by (auto simp: resuming_def)
  have rows: "\<exists>r0 \<in> set (d_items u). q_id r0 = q_id r \<and> (r = f r0 \<and> q_id r = w \<or> r = r0 \<and> q_id r \<noteq> w)"
    if "r \<in> set (d_items v)" for r
    using that f(1,2) by (auto simp: row_set_def)
  have other: "in_state s x v" if "in_state s x u" "x \<noteq> w" for s x
    unfolding in_state_def
  proof (intro ballI impI)
    fix r assume "r \<in> set (d_items v)" "q_id r = x"
    with rows [of r] that show "q_state r = s" by (auto simp: in_state_def)
  qed
  have "q_id r \<in> fst ` set ys" if r: "r \<in> set (d_items v)" "q_state r = Q_blocked" "q_blockedOn r = Some i" for r
  proof -
    obtain r0 where r0: "r0 \<in> set (d_items u)" "q_id r0 = q_id r" "r = f r0 \<and> q_id r = w \<or> r = r0 \<and> q_id r \<noteq> w"
      using rows [OF r(1)] by blast
    have "q_id r \<noteq> w"
    proof
      assume "q_id r = w"
      with r0 w(3) have "q_state r0 = Q_blocked" "r = f r0" by (auto simp: in_state_def)
      then have "resumed i r" using f(3) by blast
      with r(2,3) show False by (auto simp: resumed_def)
    qed
    with r0(1,3) have "r \<in> set (d_items u)" by blast
    with r(2,3) have "(q_id r, q_dest r) \<in> set (waiters u i)" by (simp add: waiters_def)
    then have "q_id r \<in> fst ` set (waiters u i)" by force
    with J \<open>q_id r \<noteq> w\<close> show ?thesis by (auto simp: resuming_def)
  qed
  then have "fst ` set (waiters v i) \<subseteq> fst ` set ys" by (auto simp: waiters_def)
  moreover have "\<exists>r. getById v x = Some r \<and> resumed i r" if x: "x \<in> W - fst ` set ys" for x
  proof (cases "x = w")
    case True
    have "w \<in> q_id ` set (d_items u)" using J W unfolding resuming_def by blast
    then obtain r0 where r0: "getById u w = Some r0" by (auto simp: getById_found)
    with w(3) have "q_state r0 = Q_blocked" by (auto simp: in_state_def dest: getById_Some)
    with True r0 getById_row_set [OF f(1,2), of x] f(3) show ?thesis by simp
  next
    case False
    with x J getById_row_set [OF f(1,2), of x] show ?thesis by (auto simp: resuming_def)
  qed
  moreover have "W \<subseteq> q_id ` set (d_items v)"
  proof -
    have "map q_id (d_items v) = map q_id (d_items u)" unfolding f(1) by (rule row_set_ids) (rule f(2))
    from arg_cong [OF this, of set] J show ?thesis unfolding resuming_def by simp
  qed
  moreover have "in_state Q_blocked x v" if "x \<in> fst ` set ys" for x
    by (rule other) (use that J w(2) in \<open>auto simp: resuming_def\<close>)
  moreover have "in_state terminal i v"
    by (rule other) (use J w(1) in \<open>auto simp: resuming_def\<close>)
  ultimately show ?thesis using J by (simp add: resuming_def)
qed

lemma propagate_resumes:
  assumes "propagateBlockerCompletion env now i terminal actor prov db = Inr db'"
    and "in_state terminal i db" "\<not> isBlockerLive terminal" "distinct (map q_id (d_items db))"
  shows "waiters db' i = [] \<and> (\<forall>w \<in> fst ` set (waiters db i). \<exists>r. getById db' w = Some r \<and> resumed i r)"
proof -
  let ?W = "fst ` set (waiters db i)"
  have blocked: "in_state Q_blocked x db" if "x \<in> ?W" for x
    unfolding in_state_def
  proof (intro ballI impI)
    fix r assume "r \<in> set (d_items db)" "q_id r = x"
    moreover from that obtain r' where "r' \<in> set (d_items db)" "q_id r' = x" "q_state r' = Q_blocked"
      by (auto simp: waiters_def)
    ultimately show "q_state r = Q_blocked" using assms(4) by (metis distinct_map inj_onD)
  qed
  have "resuming i terminal ?W [] db'"
  proof (rule try_fold_invariant [OF assms(1) [unfolded propagateBlockerCompletion_def], where I = "resuming i terminal ?W"])
    have "i \<notin> ?W" using assms(2,3) by (auto simp: waiters_def in_state_def)
    moreover have "distinct (map fst (waiters db i))"
      using assms(4) by (simp add: waiters_def o_def distinct_map_filter)
    moreover have "?W \<subseteq> q_id ` set (d_items db)" by (auto simp: waiters_def)
    ultimately show "resuming i terminal ?W (waiters db i) db"
      using assms(2) blocked by (simp add: resuming_def)
  next
    fix y ys u v
    assume y: "set (y # ys) \<subseteq> set (waiters db i)" and J: "resuming i terminal ?W (y # ys) u"
      and step: "propagate_one env now i terminal actor prov y u = Inr v"
    obtain w dest where w: "y = (w, dest)" by (cases y)
    have t: "in_state terminal i u" using J by (simp add: resuming_def)
    obtain f where f: "d_items v = row_set (\<lambda>r. q_id r = w) f (d_items u)"
      "\<And>r. q_id (f r) = q_id r" "\<And>r. q_state r = Q_blocked \<Longrightarrow> resumed i (f r)"
      by (rule propagate_one_resumes [OF step [unfolded w] t assms(3)]) (rule that; assumption)
    have "w \<in> ?W" using y w by force
    from resuming_step [OF J [unfolded w] this f] show "resuming i terminal ?W ys v" .
  qed
  then show ?thesis by (simp add: resuming_def)
qed

section \<open>Closing\<close>

lemma same_core_getById: "same_core db db' \<Longrightarrow> map_option core (getById db' j) = map_option core (getById db j)"
proof -
  assume s: "same_core db db'"
  have "map_option core (find (\<lambda>r. q_id r = j) rs) = find (\<lambda>c. fst c = j) (map core rs)" for rs
    by (induction rs) (auto simp: core_def)
  with s show ?thesis by (simp add: getById_def row_get_def same_core_def)
qed

lemma resumed_core: "core r = core r' \<Longrightarrow> resumed i r \<longleftrightarrow> resumed i r'"
  by (simp add: core_eq resumed_def)

lemma in_state_core: "same_core db db' \<Longrightarrow> in_state s i db' \<longleftrightarrow> in_state s i db"
  unfolding in_state_def same_core_def by (rule core_ball) (auto simp: core_eq)

lemma in_state_added: "row_added env r db db' \<Longrightarrow> in_state s j db \<Longrightarrow> j \<noteq> q_id r \<Longrightarrow> in_state s j db'"
proof -
  assume a: "row_added env r db db'" and s: "in_state s j db" "j \<noteq> q_id r"
  let ?d = "db'\<lparr>d_items := d_items db @ [r]\<rparr>"
  from a have "same_core ?d db'" by (simp add: row_added_def same_core_def)
  moreover from s have "in_state s j ?d" by (simp add: in_state_def)
  ultimately show ?thesis by (simp add: in_state_core)
qed

definition waiters_resumed :: "string \<Rightarrow> queue_db \<Rightarrow> queue_db \<Rightarrow> bool" where
  "waiters_resumed i db db' \<longleftrightarrow> waiters db' i = [] \<and>
     (\<forall>w. w \<noteq> i \<longrightarrow> w \<in> fst ` set (waiters db i) \<longrightarrow> (\<exists>r. getById db' w = Some r \<and> resumed i r))"

lemma waiters_resumedI:
  assumes "same_core db db0" "state_write env i t db0 db1" "\<not> isBlockerLive t"
    and "rows_ok db2" "in_state t i db2" "fst ` set (waiters db2 i) = fst ` set (waiters db1 i)"
    and p: "propagateBlockerCompletion env now i t actor prov db2 = Inr db3" and s: "same_core db3 db'"
  shows "waiters_resumed i db db'"
  unfolding waiters_resumed_def
proof (intro conjI allI impI)
  have "distinct (map q_id (d_items db2))" using assms(4) by (simp add: rows_ok_def)
  note fin = propagate_resumes [OF p assms(5,3) this]
  from fin show "waiters db' i = []" using same_core_inv(4) [OF s, of i] by simp
  fix w assume w: "w \<noteq> i" "w \<in> fst ` set (waiters db i)"
  then have "w \<in> fst ` set (waiters db0 i)" using same_core_inv(4) [OF assms(1), of i] by simp
  then obtain r' where r': "r' \<in> set (d_items db0)" "q_id r' = w" "q_state r' = Q_blocked" "q_blockedOn r' = Some i"
    by (auto simp: waiters_def)
  from assms(2) r'(1) have "w \<in> fst ` set (waiters db1 i)"
  proof (cases rule: state_write_rows_conv)
    case (1 r)
    with r' have "q_id r = w" "q_blockedOn r = Some i" "q_state r = Q_blocked" by (simp_all add: core_eq)
    with 1(1) show ?thesis by (force simp: waiters_def)
  next
    case (2 r)
    with r' w show ?thesis by simp
  qed
  with fin assms(6) obtain r where "getById db3 w = Some r" "resumed i r" by auto
  moreover from this same_core_getById [OF s, of w] obtain r' where "getById db' w = Some r'" "core r' = core r"
    by auto
  ultimately show "\<exists>r. getById db' w = Some r \<and> resumed i r"
    using resumed_core by blast
qed

text \<open>The row an operation closes, when it closes one.\<close>

definition closes :: "queue_op \<Rightarrow> string option" where
  "closes op = (case op of
     Op_update now job inp \<Rightarrow> Some (u_id inp)
   | Op_handoff now fresh inp \<Rightarrow> Some (h_id inp)
   | Op_handoff_complete now fresh inp \<Rightarrow> Some (h_id inp)
   | Op_cross_host now inp \<Rightarrow> Some (x_id inp)
   | _ \<Rightarrow> None)"

lemma handoff_with_resumes:
  assumes "queue_inv env db" "handoff_with terminal cn on stamped env now fresh inp db = Inr db'"
    and "\<not> isBlockerLive terminal"
  shows "waiters_resumed (h_id inp) db db'"
proof -
  have b: "terminal \<noteq> Q_blocked" using assms(3) by auto
  from assms(2) obtain src where src: "getById db (h_id inp) = Some src" "q_id src = h_id inp"
    "handoff_body env now fresh terminal cn on stamped inp src db = Inr db'"
    by (rule handoff_with_Inr)
  from src(3) b obtain db1 db2 db4 qs where s: "state_write env (q_id src) terminal db db1"
    "row_added env (successor_row env now fresh inp src qs) db1 db2"
    "propagateBlockerCompletion env now (q_id src) terminal (h_from inp)
       (sideEffectProvenance (h_provenance inp)) db2 = Inr db4" "same_core db4 db'"
    by (rule handoff_body_stages)
  note a = row_added_inv [OF s(2)] and c = closing_write [OF s(1) assms(3,1)]
  have "q_id src \<in> q_id ` set (d_items db1)"
    using arg_cong [OF state_write_ids [OF s(1)], of set] src(1)
    by (simp add: src(2)) (simp add: getById_found)
  then have "q_id src \<noteq> fresh" using s(2) by (auto simp: row_added_def)
  then have "in_state terminal (q_id src) db2"
    using in_state_added [OF s(2) in_state_write [OF s(1)]] by simp
  from waiters_resumedI [OF same_core_refl s(1) assms(3) a(1) [OF c(1)] this a(3) s(3,4)] src(2) show ?thesis by simp
qed

lemma cross_host_resumes:
  assumes "queue_inv env db" "closeCrossHostHandoffSource env now inp db = Inr (db', absorbed)" "\<not> absorbed"
  shows "waiters_resumed (x_id inp) db db'"
  using assms(2)
proof (cases rule: cross_host_Inr)
  case 1
  with assms(3) show ?thesis by simp
next
  case (2 src st db1)
  from 2(4) have st: "\<not> isBlockerLive st" by simp
  from waiters_resumedI [OF same_core_refl 2(5) st closing_write(1) [OF 2(5) st assms(1)] in_state_write [OF 2(5)] refl 2(6)]
  show ?thesis by simp
qed

lemma update_resumes:
  assumes "queue_inv env db" "update env now job inp db = Inr db'" "getById db (u_id inp) = Some b" "isBlockerLive (q_state b)"
    and "getById db' (u_id inp) = Some c" "\<not> isBlockerLive (q_state c)"
  shows "waiters_resumed (u_id inp) db db'"
  using assms(2)
proof (cases rule: update_Inr)
  case (1 r)
  then have "r = b" using assms(3) by simp
  from append_keeps_state [OF assms(1) 1(1,3), of "u_id inp"] assms(3-6) show ?thesis by simp
next
  case (2 r st)
  from 2(4) obtain db0 db2 db3 where s: "same_core db db0" "state_write env (u_id inp) st db0 db2"
    "(if isBlockerLive st then Inr db2 else propagateBlockerCompletion env now (u_id inp) st (u_actor inp)
             (sideEffectProvenance (u_provenance inp)) db2) = Inr db3" "same_core db3 db'"
    by (rule state_update_stages)
  have inv0: "queue_inv env db0" using same_core_inv(3) [OF s(1)] assms(1) by simp
  show ?thesis
  proof (cases "isBlockerLive st")
    case True
    with s(3) have "db3 = db2" by simp
    with s(4) have "state_write env (u_id inp) st db0 db'" using state_write_then [OF s(2)] by simp
    from in_state_write [OF this] getById_Some [OF assms(5)] True assms(6) show ?thesis by (auto simp: in_state_def)
  next
    case False
    with s(3) have "propagateBlockerCompletion env now (u_id inp) st (u_actor inp)
             (sideEffectProvenance (u_provenance inp)) db2 = Inr db3" by simp
    from waiters_resumedI [OF s(1,2) False closing_write(1) [OF s(2) False inv0] in_state_write [OF s(2)] refl this s(4)]
    show ?thesis .
  qed
qed

section \<open>Parked and finished rows\<close>

lemma live_idsE: "i \<in> live_ids db \<Longrightarrow> rows_ok db \<Longrightarrow> \<exists>b. getById db i = Some b \<and> isBlockerLive (q_state b)"
  by (auto simp: live_ids_def rows_ok_def getById_def row_get_distinct)

text \<open>C1: no row is ever stranded on a dead blocker: in every reachable queue, a blocked row whose gate is
  an item id (and no person's address) names an item that exists and is still open. Parks refuse
  missing and closed blockers, and every writer that closes an item moves or releases its waiters in
  the same transaction.\<close>

theorem queue_parks_live:
  assumes "r \<in> set (d_items (run_steps (queue_step env) ops empty_db))"
    and "q_state r = Q_blocked" "q_blockedOn r = Some i" "starts_with ''qitem-'' i" "\<not> isPersonAddress env i"
  shows "\<exists>b. getById (run_steps (queue_step env) ops empty_db) i = Some b \<and> isBlockerLive (q_state b)"
proof -
  note inv = run_inv [of env ops]
  from assms(3-5) have "item_gate env (q_blockedOn r)" by (simp add: item_gate_def)
  from inv_row(3) [OF inv assms(1,2) this] assms(3) inv show ?thesis
    by (auto simp: queue_inv_def dest: live_idsE)
qed

text \<open>C25: every finished row says why: in every reachable queue a done row carries an admitted closure
  reason other than \<open>blocked_on\<close>, and a target when the reason is a handoff or an escalation,
  whichever of the five writers that can close a row closed it.\<close>

theorem queue_done_says_why:
  assumes "r \<in> set (d_items (run_steps (queue_step env) ops empty_db))" "q_state r = Q_done"
  shows "\<exists>x. q_closureReason r = Some x \<and> isClosureReason x \<and> x \<noteq> ''blocked_on''
    \<and> (q_closureTarget r = None \<longrightarrow> x \<noteq> ''handed_off_to'' \<and> x \<noteq> ''escalation'')"
proof -
  from inv_row(1) [OF run_inv assms(1)] assms(2) obtain x where
    x: "q_closureReason r = Some x" "x \<in> set DONE_CLOSURE_REASONS" "requires_target x \<longrightarrow> q_closureTarget r \<noteq> None"
    unfolding closed_ok_def by blast
  show ?thesis
    by (rule exI [of _ x]; cases "q_closureTarget r")
       (use x in \<open>auto simp: DONE_CLOSURE_REASONS_simps requires_target_def\<close>)
qed


section \<open>Handing off\<close>

lemma fresh_not_waiting: "row_added env r db db' \<Longrightarrow> q_id r \<notin> fst ` set (waiters db' i)"
proof -
  assume a: "row_added env r db db'"
  have "fst ` set (waiters db' i) = fst ` set (waiters db i)" by (rule row_added_inv(3) [OF a])
  moreover have "fst ` set (waiters db i) \<subseteq> q_id ` set (d_items db)" by (auto simp: waiters_def)
  ultimately show ?thesis using a by (auto simp: row_added_def)
qed

lemma getById_appended:
  "d_items db' = d_items db @ [r] \<Longrightarrow> q_id r \<notin> q_id ` set (d_items db)
    \<Longrightarrow> getById db' j = (if j = q_id r then Some r else getById db j)"
  using row_get_None [of q_id "q_id r" "d_items db"]
  by (cases "j = q_id r") (auto simp: getById_def row_simps split: option.split)


end
