(* ===== verification/Queue_Guards.thy ===== *)
theory Queue_Guards
  imports Queue_Properties
begin

text \<open>
  What the guards of single queue operations enforce: reopening, the workflow frontier, claims,
  retried creates, and the wake guard of a handoff.
\<close>

section \<open>Update\<close>

lemma update_state_write:
  assumes "update env now job inp db = Inr db'" "getById db (u_id inp) = Some r" "u_state inp = Some (state_name st)"
    and "st \<noteq> q_state r"
  shows "state_update env now job inp r st db = Inr db'"
  using assms(1)
proof (cases rule: update_Inr)
  case (1 q)
  with assms(2-4) show ?thesis by (simp add: preserves_state_def)
next
  case (2 q s)
  with assms(2,3) show ?thesis by simp
qed

text \<open>A finished row only reopens on purpose: an update that moves a done, canceled or handed-off row to
  another state is refused unless it carries the reopen flag and a non-blank note and asks for an
  active state, and then it writes exactly one transition, whose note starts with the acknowledgement.\<close>

theorem update_reopen_acknowledged:
  assumes "getById db (u_id inp) = Some r" "guarded_terminal (q_state r)"
    and "u_state inp = Some (state_name st)" "st \<noteq> q_state r" "update env now job inp db = Inr db'"
  shows "u_reopen inp \<and> \<not> blank (u_note inp) \<and> isBlockerLive st
    \<and> (\<exists>t. d_log db' = d_log db @ [t] \<and> t_qitem t = u_id inp \<and> t_state t = st \<and> t_actor t = u_actor inp
         \<and> t_note t = Some (''reopen acknowledged: '' @ the (u_note inp)))"
proof -
  from update_state_write [OF assms(5,1,3,4)] show ?thesis
  proof (rule state_update_Inr)
    let ?b = "effective_blocker inp r st db"
    fix db0 w ok
    assume g: "\<forall>(c, e) \<in> set (reopen_guards inp r st). \<not> c"
      and a: "arm_wake env now job inp r st ?b db = Inr (db0, w)"
      and u: "write_update env now inp r st ?b w db0 = Inr db'"
    have re: "is_reopen r st" using assms(2,4) by (simp add: is_reopen_def)
    with g have guards: "u_reopen inp" "\<not> blank (u_note inp)" "isBlockerLive st"
      by (simp_all add: reopen_guards_def has_note_def)
    then obtain n where n: "u_note inp = Some n" by (cases "u_note inp") simp_all
    have log0: "d_log db0 = d_log db" using jobs_only_arm_wake [OF a] by (simp add: jobs_only_def)
    from u guards(3) have "\<exists>t. d_log db' = d_log db0 @ [t] \<and> t_qitem t = u_id inp \<and> t_state t = st
        \<and> t_actor t = u_actor inp \<and> t_note t = Some (''reopen acknowledged: '' @ n)"
      unfolding write_update_def Let_def
      by (auto simp: re n frame_simps settle_wake_def new_transition_def Let_def plain_transition_def split: option.splits)
    with guards n log0 show ?thesis by simp
  qed
qed

text \<open>C31: the general update never strands a workflow: while a row is the live frontier packet of a workflow
  instance, no update that is not a workflow verb can take it to done or handed-off; it is refused
  with nothing written.\<close>

theorem update_keeps_frontier:
  assumes "e_frontier env = Some live" "live (u_id inp)" "\<not> u_workflow inp" "getById db (u_id inp) = Some r"
    and "u_state inp = Some (state_name st)" "isTerminalState st" "st \<noteq> q_state r"
  shows "\<exists>e. update env now job inp db = Inl e"
proof (cases "update env now job inp db")
  case (Inr db')
  from update_state_write [OF Inr assms(4,5,7)] show ?thesis
    by (rule state_update_Inr) (use assms(1-3,6) in \<open>simp add: update_guards_def frontier_guards_def\<close>)
qed simp

section \<open>Claims\<close>

lemma getById_update_row:
  assumes "\<And>q. q_id (f q) = q_id q"
  shows "getById (update_row i f db) j = (if j = i then map_option f (getById db i) else getById db j)"
  by (rule getById_row_set) (simp_all add: frame_simps assms)

lemma getById_frame [frame_simps]:
  "getById (append_transition env t db) j = getById db j" "getById (persist_event ev db) j = getById db j"
  "getById (retireParkGeneratedTimer i reason db) j = getById db j" "getById (record_wake w db) j = getById db j"
  by (simp_all add: getById_def frame_simps)

text \<open>C30: a claim is exclusive and goes to the addressee: it succeeds only for a session that one of the
  row's addresses resolves to, only on a pending or blocked row; the row is then in progress, gateless,
  and stamped with the claimant's generation and deadline, and every further claim of it, by anyone,
  is refused until some other write.\<close>

theorem claim_exclusive:
  assumes "claim env now i session prov grantee db = Inr db'"
  shows "\<exists>r r'. getById db i = Some r \<and> q_dest r \<in> set (e_addresses env session)
    \<and> q_state r \<in> {Q_pending, Q_blocked}
    \<and> getById db' i = Some r' \<and> q_state r' = Q_in_progress \<and> q_blockedOn r' = None \<and> q_claimedAt r' = Some now
    \<and> q_claimedBy r' = e_generation env session \<and> Inr (q_closureRequiredAt r') = computeClosureRequiredAt now (q_tier r)
    \<and> claim env now2 i session2 prov2 grantee2 db' \<in> {Inl Claim_destination_mismatch, Inl Qitem_not_claimable}"
  using assms
proof (rule claim_Inr)
  fix r deadline
  let ?f = "\<lambda>q. q\<lparr>q_state := Q_in_progress, q_updated := now, q_claimedAt := Some now,
     q_closureRequiredAt := deadline, q_claimedBy := e_generation env session, q_blockedOn := None\<rparr>"
  assume r: "getById db i = Some r" "q_dest r \<in> set (e_addresses env session)"
    "q_state r = Q_pending \<or> q_state r = Q_blocked" "computeClosureRequiredAt now (q_tier r) = Inr deadline"
    and db': "db' = persist_event (Queue_claimed i session now deadline (q_summary r))
                   (retireParkGeneratedTimer i ''park_ended:claimed''
                     (append_transition env ((plain_transition i Q_in_progress session (Some ''claimed''))
                        \<lparr>ti_target := (if q_state r = Q_blocked then q_blockedOn r else None),
                         ti_provenance := prov, ti_principal := grantee\<rparr>)
                       (update_row i ?f db)))"
  have "getById db' i = Some (?f r)"
    by (simp add: db' frame_simps getById_update_row r(1))
  then show ?thesis using r by (auto simp: claim_def)
qed

text \<open>A claim does not lose the gate it lifts: after a blocked row is claimed, parking it again without
  naming a blocker waits on the blocker the row had before the claim, read back from the claim's own
  transition.\<close>

theorem claim_remembers_gate:
  assumes "claim env now i session prov grantee db = Inr db'" "getById db i = Some r" "q_state r = Q_blocked"
    and "getById db' i = Some r'" "u_id inp = i" "u_blockedOn inp = None"
  shows "effective_blocker inp r' Q_blocked db' = q_blockedOn r"
  using assms(1)
proof (rule claim_Inr)
  fix q deadline
  let ?f = "\<lambda>q. q\<lparr>q_state := Q_in_progress, q_updated := now, q_claimedAt := Some now,
     q_closureRequiredAt := deadline, q_claimedBy := e_generation env session, q_blockedOn := None\<rparr>"
  assume q: "getById db i = Some q"
    and db': "db' = persist_event (Queue_claimed i session now deadline (q_summary q))
                   (retireParkGeneratedTimer i ''park_ended:claimed''
                     (append_transition env ((plain_transition i Q_in_progress session (Some ''claimed''))
                        \<lparr>ti_target := (if q_state q = Q_blocked then q_blockedOn q else None),
                         ti_provenance := prov, ti_principal := grantee\<rparr>)
                       (update_row i ?f db)))"
  have r': "r' = ?f r" using assms(2,4) by (simp add: db' frame_simps getById_update_row)
  have "retainedClaimBlocker db' i = q_blockedOn r"
    using q assms(2,3)
    by (simp add: db' retainedClaimBlocker_def listForQitem_def frame_simps new_transition_def Let_def plain_transition_def)
  then show ?thesis using assms(5,6) by (simp add: effective_blocker_def r')
qed

section \<open>Retried creates\<close>

lemma guards_reached:
  assumes "createInTransactionalContext env now fresh inp db = Inl Primary_key_conflict
    \<or> (\<exists>x. createInTransactionalContext env now fresh inp db = Inr x)"
  shows "\<exists>x. validateHumanRoute (c_tier inp) (c_dest inp) (c_summary inp) (c_evidence inp) = Inr x"
    "first_refusal (create_guards env inp db) = None" "\<exists>qs. parsed_questions inp = Inr qs"
    "first_refusal (human_alert_guards env (c_alert inp) (c_dest inp) (parse_intent (c_intent inp))) = None"
proof -
  have refuse: "first_refusal gs = None" if "unless_refused gs m = Inl Primary_key_conflict \<or> (\<exists>x. unless_refused gs m = Inr x)"
    "\<forall>(c, e) \<in> set gs. e \<noteq> Primary_key_conflict" for gs and m :: "queue_error + queue_db \<times> string"
  proof (cases "first_refusal gs")
    case (Some e)
    have "first_refusal gs = Some e \<Longrightarrow> \<exists>c. (c, e) \<in> set gs" for e
      by (induction gs rule: first_refusal.induct) (auto split: if_splits)
    with Some that show ?thesis by (fastforce simp: unless_refused_def)
  qed
  obtain x where x: "validateHumanRoute (c_tier inp) (c_dest inp) (c_summary inp) (c_evidence inp) = Inr x"
    using assms by (auto simp: createInTransactionalContext_def split: sum.splits)
  then show "\<exists>x. validateHumanRoute (c_tier inp) (c_dest inp) (c_summary inp) (c_evidence inp) = Inr x" by blast
  show g: "first_refusal (create_guards env inp db) = None"
    by (rule refuse) (use assms x in \<open>simp_all add: createInTransactionalContext_def create_guards_def Let_def\<close>)
  obtain qs where qs: "parsed_questions inp = Inr qs"
    using assms x g by (cases "parsed_questions inp")
      (auto simp: createInTransactionalContext_def unless_refused_def parsed_questions_def map_sum_def split: option.splits sum.splits)
  then show "\<exists>qs. parsed_questions inp = Inr qs" by blast
  show "first_refusal (human_alert_guards env (c_alert inp) (c_dest inp) (parse_intent (c_intent inp))) = None"
    by (rule refuse) (use assms x g qs in
      \<open>simp_all add: createInTransactionalContext_def unless_refused_def [of "create_guards env inp db"] human_alert_guards_def Let_def\<close>)
qed

lemma create_context_conflict:
  assumes ok: "createInTransactionalContext env now fresh inp db = Inl Primary_key_conflict
      \<or> (\<exists>x. createInTransactionalContext env now fresh inp db = Inr x)"
    and found: "getById d (or_default (c_id inp) fresh2) \<noteq> None"
    and reply: "\<And>j. getById db j \<noteq> None \<Longrightarrow> getById d j \<noteq> None"
  shows "createInTransactionalContext env now2 fresh2 inp d = Inl Primary_key_conflict"
proof -
  note g = guards_reached [OF ok]
  have "\<forall>(c, e) \<in> set (create_guards env inp d). \<not> c"
    using g(2) reply [of "the (c_replyTo inp)"] unfolding first_refusal_None
    by (auto simp: create_guards_def Let_def)
  then have none: "first_refusal (create_guards env inp d) = None" by (simp only: first_refusal_None)
  from g(1,3) obtain x qs where x: "validateHumanRoute (c_tier inp) (c_dest inp) (c_summary inp) (c_evidence inp) = Inr x"
    "parsed_questions inp = Inr qs" by blast
  have "insert_row (created_row env now2 (or_default (c_id inp) fresh2) inp qs d) d = Inl Primary_key_conflict"
    using found unfolding getById_found [symmetric] by (simp add: insert_row_def row_insert_def)
  with x none g(4) show ?thesis
    by (simp add: createInTransactionalContext_def unless_refused_def Let_def)
qed

text \<open>C32: a create with its own id is idempotent: repeating a create that succeeded, with the same input, at
  any later time and whatever fresh id is offered, writes nothing and returns the stored row, flagged
  exactly when the stored body differs from the one sent.\<close>

theorem create_retry:
  assumes "create env now fresh inp db = Inr (db', r, flag)" "c_id inp = Some i" "i \<noteq> []"
  shows "create env now2 fresh2 inp db' = Inr (db', r, q_body r \<noteq> c_body inp)
    \<and> q_id r = i \<and> flag = (q_body r \<noteq> c_body inp)"
proof -
  have v: "e_validateRig env (c_dest inp)" using assms(1) by (simp add: create_def split: if_splits)
  have retry: "create env now2 fresh2 inp db' = Inr (db', r, q_body r \<noteq> c_body inp)"
    if "createInTransactionalContext env now2 fresh2 inp db' = Inl Primary_key_conflict"
      "getById db' i = Some r" "q_dest r = c_dest inp" "q_source r = c_source inp"
    using that v assms(2,3) by (simp add: create_def create_staged_def)
  from assms(1) show ?thesis
  proof (cases rule: create_Inr)
    case (1 qs a n db1 j)
    let ?row = "(created_row env now j inp qs db)\<lparr>q_nudgeAttempt := a, q_nudgeResult := n\<rparr>"
    have j: "j = i" using 1(1) assms(2) by simp
    have get: "getById db' k = (if k = i then Some ?row else getById db k)" for k
      using getById_appended [OF 1(6), of k] 1(3) j by (simp add: row_added_def)
    with 1(4) j have r: "r = ?row" by simp
    have "createInTransactionalContext env now2 fresh2 inp db' = Inl Primary_key_conflict"
      by (rule create_context_conflict [of env now fresh inp db]) (use 1(2) get assms(2) in auto)
    with retry 1(4) j r 1(5) show ?thesis by simp
  next
    case 2
    have "createInTransactionalContext env now2 fresh2 inp db' = Inl Primary_key_conflict"
      by (rule create_context_conflict [of env now fresh inp db]) (use 2 in auto)
    with retry 2 assms(2) show ?thesis by simp
  qed
qed

section \<open>The wake guard of a handoff\<close>

lemma propagate_error:
  "propagateBlockerCompletion env now i t actor prov db = Inl e \<Longrightarrow> \<exists>x. e = Outbox_error x"
proof -
  have one: "propagate_one env now i t actor prov w d = Inl e \<Longrightarrow> \<exists>x. e = Outbox_error x" for w d
    by (auto simp: propagate_one_def unpark_waiter_def Let_def try_bind_Inl stageAutoUnparkWakeIntent_def map_sum_def
        split: option.splits sum.splits)
  have "try_fold (propagate_one env now i t actor prov) ws d = Inl e \<Longrightarrow> \<exists>x. e = Outbox_error x" for ws d
    by (induction ws arbitrary: d) (auto simp: try_bind_Inl dest: one)
  then show "propagateBlockerCompletion env now i t actor prov db = Inl e \<Longrightarrow> ?thesis"
    by (simp add: propagateBlockerCompletion_def)
qed

text \<open>A staged wake is there when the guard looks for it.\<close>

definition wake_recorded :: "string \<Rightarrow> queue_db \<Rightarrow> bool" where
  "wake_recorded fresh db \<longleftrightarrow> getEntry (d_outbox db) (WAKE_INTENT_PREFIX @ fresh) \<noteq> None \<or>
     (\<exists>r n. getById db fresh = Some r \<and> q_nudgeResult r = Some n \<and> starts_with WAKE_NOT_RETAINED n)"

lemma staged_recorded:
  assumes "stageHandoffWake env now fresh a b p nudge db = Inr db'" "e_outbox env" "nudge \<noteq> Some False"
    and "getById db fresh \<noteq> None"
  shows "wake_recorded fresh db'"
proof (cases "stageWakeIntent env now fresh a b p nudge False db")
  case (Inr d)
  then obtain inp where "recordWakeIntent env now inp db = Inr d" "wk_outboxId inp = WAKE_INTENT_PREFIX @ fresh"
    using assms(3) by (auto simp: stageWakeIntent_def Let_def)
  with recordWakeIntent_Inr assms(1,2) Inr show ?thesis
    by (fastforce simp: stageHandoffWake_def wake_recorded_def)
next
  case (Inl e)
  then have "db' = recordNudgeAttempt now fresh (WAKE_NOT_RETAINED @ e_message env e) db"
    using assms(1) by (simp add: stageHandoffWake_def wake_not_retained_def split: if_splits)
  then show ?thesis
    using assms(4) by (auto simp: wake_recorded_def recordNudgeAttempt_def getById_update_row starts_with_def)
qed

lemma handoff_body_guarded:
  assumes "e_outbox env" "isTerminalState terminal" "terminal \<noteq> Q_blocked"
  shows "handoff_body env now fresh terminal cn on stamped inp src db \<noteq> Inl Terminal_close_without_wake_intent"
proof
  let ?qs = "carried_questions env db src (h_to inp)"
  let ?row = "successor_row env now fresh inp src ?qs"
  define db1 where "db1 = close_source env now (q_id src) terminal (h_to inp) (h_to inp)
    ((plain_transition (q_id src) terminal (h_from inp) (Some (or_default (h_note inp) cn)))
       \<lparr>ti_provenance := h_provenance inp, ti_principal := h_principal inp\<rparr>) db"
  assume bad: "handoff_body env now fresh terminal cn on stamped inp src db = Inl Terminal_close_without_wake_intent"
  have stage_error: "stageHandoffWake env now i a b p n d = Inl e \<Longrightarrow> \<exists>x. e = Outbox_error x" for i a b p n d e
    by (auto simp: stageHandoffWake_def split: sum.splits if_splits)
  from bad obtain dbr db3 db4 t ev where
    r: "insert_row ?row db1 = Inr dbr"
    and s: "stageHandoffWake env now fresh (h_from inp) (h_to inp) (sideEffectProvenance (h_provenance inp))
      (h_nudge inp) (append_transition env t dbr) = Inr db3"
    and t: "ti_qitem t = fresh" "ti_state t = Q_pending"
    and p: "propagateBlockerCompletion env now (q_id src) terminal (h_from inp) (sideEffectProvenance (h_provenance inp))
       (persist_event (Queue_handed_off (q_id src) (h_from inp) (h_to inp) (q_summary src)) db3) = Inr db4"
    and a: "assertTerminalClosureHasIntent env (q_id src) fresh (h_nudge inp) (persist_event ev db4)
      = Inl Terminal_close_without_wake_intent"
    unfolding handoff_body_def Let_def try_bind_Inl db1_def [symmetric]
    by (auto simp: insert_row_def plain_transition_def dest: stage_error propagate_error split: option.splits)
  from r have new: "fresh \<notin> q_id ` set (d_items db1)" "dbr = db1\<lparr>d_items := d_items db1 @ [?row]\<rparr>"
    by (auto simp: insert_row_Inr)
  let ?d = "persist_event (Queue_handed_off (q_id src) (h_from inp) (h_to inp) (q_summary src)) db3"
  have added: "row_added env ?row db1 (append_transition env t dbr)"
    using new t by - (rule row_addedI [where e = dbr and t = t], (simp add: frame_simps)+)
  then have "row_added env ?row db1 ?d"
    using same_core_staged [OF staged_handoff [OF s]] same_core_trans same_core_event by (metis row_added_then)
  from fresh_not_waiting [OF this, of "q_id src"] propagate_others [OF p, of fresh]
  have keep: "getById db4 fresh = getById db3 fresh" "keeps (d_outbox db3) (d_outbox db4)"
    by (simp_all add: frame_simps)
  have nudge: "h_nudge inp \<noteq> Some False" using a by (auto simp: assertTerminalClosureHasIntent_def)
  have "getById (append_transition env t dbr) fresh \<noteq> None"
    unfolding getById_found [symmetric] using new(2) by (simp add: frame_simps)
  from staged_recorded [OF s assms(1) nudge this] keep have "wake_recorded fresh db4"
    by (auto simp: wake_recorded_def dest: keeps_found)
  with a assms(1) nudge show False
    by (auto simp: assertTerminalClosureHasIntent_def wake_recorded_def frame_simps split: option.splits if_splits)
qed


end
