(* ===== verification/Inbox.thy ===== *)
theory Inbox
  imports Queue_Lifecycle
begin

text \<open>
  The inbox (\<open>packages/daemon/src/domain/inbox-handler.ts\<close>): a mailbox beside the queue. A sender
  drops an entry; its addressee absorbs it, which creates a queue row in the same transaction, or denies
  it. The state is the table of migrations 026 and 067 in rowid order and the queue's tables; ids and
  clock are arguments. Both lists are given as the entries they return.
\<close>

section \<open>State\<close>

datatype inbox_state = Inbox_pending | Inbox_absorbed_state | Inbox_denied_state

record inbox_entry =
  inboxId :: string
  ib_dest :: string
  ib_sender :: string
  ib_body :: string
  ib_tags :: "string list option"
  ib_urgency :: string
  ib_dropped :: timestamp
  ib_state :: inbox_state
  ib_absorbedAt :: "timestamp option"
  ib_absorbedQitem :: "string option"
  ib_deniedAt :: "timestamp option"
  ib_deniedReason :: "string option"
  ib_audit :: "string option"
  ib_provenance :: "string option"

record drop_input =
  dr_id :: "string option"
  dr_dest :: string
  dr_sender :: string
  dr_body :: string
  dr_tags :: "string list option"
  dr_urgency :: "string option"
  dr_audit :: "string option"
  dr_provenance :: "string option"

record inbox_db =
  ib_rows :: "inbox_entry list"
  ib_queue :: queue_db

datatype inbox_error =
    Inbox_not_found | Absorb_destination_mismatch | Inbox_already_denied
  | Deny_destination_mismatch | Inbox_not_pending | Inbox_queue_error queue_error

section \<open>Operations\<close>

definition inbox_get :: "inbox_db \<Rightarrow> string \<Rightarrow> inbox_entry option" where
  "inbox_get s i = row_get inboxId i (ib_rows s)"

definition inbox_get_or_throw :: "inbox_db \<Rightarrow> string \<Rightarrow> inbox_error + inbox_entry" where
  "inbox_get_or_throw s i = (case inbox_get s i of None \<Rightarrow> Inl Inbox_not_found | Some e \<Rightarrow> Inr e)"

definition dropped_entry :: "timestamp \<Rightarrow> string \<Rightarrow> drop_input \<Rightarrow> inbox_entry" where
  "dropped_entry now i inp =
     \<lparr>inboxId = i, ib_dest = dr_dest inp, ib_sender = dr_sender inp, ib_body = dr_body inp, ib_tags = dr_tags inp,
      ib_urgency = or_default (dr_urgency inp) ''routine'', ib_dropped = now, ib_state = Inbox_pending,
      ib_absorbedAt = None, ib_absorbedQitem = None, ib_deniedAt = None, ib_deniedReason = None,
      ib_audit = dr_audit inp, ib_provenance = dr_provenance inp\<rparr>"

definition inbox_drop :: "timestamp \<Rightarrow> string \<Rightarrow> drop_input \<Rightarrow> inbox_db \<Rightarrow> inbox_error + inbox_db \<times> inbox_entry" where
  "inbox_drop now fresh inp s =
     (let i = or_default (dr_id inp) fresh
      in case inbox_get s i of
           Some e \<Rightarrow> Inr (s, e)
         | None \<Rightarrow>
             (let t = s\<lparr>ib_rows := ib_rows s @ [dropped_entry now i inp]\<rparr>
              in map_sum id (\<lambda>e. (t, e)) (inbox_get_or_throw t i)))"

definition absorb_priority :: "string \<Rightarrow> string" where
  "absorb_priority u = (if u = ''critical'' then ''critical''
     else if u = ''urgent'' then ''urgent'' else ''routine'')"

definition absorb_create :: "inbox_entry \<Rightarrow> string option \<Rightarrow> create_input" where
  "absorb_create e prov =
     \<lparr>c_id = None, c_source = ib_sender e, c_dest = ib_dest e, c_body = ib_body e,
      c_priority = Some (absorb_priority (ib_urgency e)), c_tier = None, c_tags = ib_tags e, c_expiresAt = None,
      c_chain = None, c_handedOffFrom = None, c_targetRepo = None, c_intent = None, c_alert = None,
      c_detail = None, c_replyTo = None, c_inboundReplyTo = None, c_gateway = False, c_questions = None,
      c_summary = None, c_evidence = None, c_nudge = Some False, c_provenance = prov, c_principal = None,
      c_openrig = False\<rparr>"

definition absorbed_entry :: "timestamp \<Rightarrow> string \<Rightarrow> inbox_entry \<Rightarrow> inbox_entry" where
  "absorbed_entry now q e =
     e\<lparr>ib_state := Inbox_absorbed_state, ib_absorbedAt := Some now, ib_absorbedQitem := Some q\<rparr>"

text \<open>The result of an absorb is the entry and its queue id, which for an entry absorbed before is the stored one.\<close>

definition inbox_absorb ::
  "queue_env \<Rightarrow> timestamp \<Rightarrow> string \<Rightarrow> string \<Rightarrow> string \<Rightarrow> string option \<Rightarrow> inbox_db
     \<Rightarrow> inbox_error + inbox_db \<times> inbox_entry \<times> string option" where
  "inbox_absorb env now fresh i receiver prov s =
     (case inbox_get s i of
        None \<Rightarrow> Inl Inbox_not_found
      | Some e \<Rightarrow>
          if ib_dest e \<noteq> receiver then Inl Absorb_destination_mismatch
          else if ib_state e = Inbox_absorbed_state then Inr (s, e, ib_absorbedQitem e)
          else if ib_state e = Inbox_denied_state then Inl Inbox_already_denied
          else case createWithinTransaction env now fresh (absorb_create e prov) (ib_queue s) of
              Inl err \<Rightarrow> Inl (Inbox_queue_error err)
            | Inr (db, q) \<Rightarrow>
                (let t = s\<lparr>ib_rows := row_set (\<lambda>r. inboxId r = i) (absorbed_entry now q) (ib_rows s),
                           ib_queue := persist_event (Inbox_absorbed i (ib_dest e) (ib_sender e) q) db\<rparr>
                 in map_sum id (\<lambda>e'. (t, e', Some q)) (inbox_get_or_throw t i)))"

definition denied_entry :: "timestamp \<Rightarrow> string \<Rightarrow> inbox_entry \<Rightarrow> inbox_entry" where
  "denied_entry now reason e =
     e\<lparr>ib_state := Inbox_denied_state, ib_deniedAt := Some now, ib_deniedReason := Some reason\<rparr>"

definition inbox_deny ::
  "timestamp \<Rightarrow> string \<Rightarrow> string \<Rightarrow> string \<Rightarrow> inbox_db \<Rightarrow> inbox_error + inbox_db \<times> inbox_entry" where
  "inbox_deny now i receiver reason s =
     (case inbox_get s i of
        None \<Rightarrow> Inl Inbox_not_found
      | Some e \<Rightarrow>
          unless_refused
            [(ib_dest e \<noteq> receiver, Deny_destination_mismatch), (ib_state e \<noteq> Inbox_pending, Inbox_not_pending)]
            (let t = s\<lparr>ib_rows := row_set (\<lambda>r. inboxId r = i) (denied_entry now reason) (ib_rows s),
                       ib_queue := persist_event (Inbox_denied i (ib_dest e) (ib_sender e) reason) (ib_queue s)\<rparr>
             in map_sum id (\<lambda>e'. (t, e')) (inbox_get_or_throw t i)))"

definition inbox_listPending :: "inbox_db \<Rightarrow> string \<Rightarrow> inbox_entry list" where
  "inbox_listPending s dest = sort_key ib_dropped (filter (\<lambda>e. ib_dest e = dest \<and> ib_state e = Inbox_pending) (ib_rows s))"

text \<open>Newest first, later rows before earlier ones of the same time.\<close>

definition inbox_listForDestination :: "inbox_db \<Rightarrow> string \<Rightarrow> int option \<Rightarrow> inbox_entry list" where
  "inbox_listForDestination s dest limit =
     sql_limit (or_default limit 100) (rev (sort_key ib_dropped (filter (\<lambda>e. ib_dest e = dest) (ib_rows s))))"

section \<open>The inbox with the queue behind it\<close>

datatype inbox_op =
    Inbox_drop timestamp string drop_input
  | Inbox_absorb timestamp string string string "string option"
  | Inbox_deny timestamp string string string
  | Inbox_queue queue_op

definition inbox_step :: "queue_env \<Rightarrow> inbox_op \<Rightarrow> inbox_db \<Rightarrow> inbox_error + inbox_db" where
  "inbox_step env op s = (case op of
     Inbox_drop now fresh inp \<Rightarrow> map_sum id fst (inbox_drop now fresh inp s)
   | Inbox_absorb now fresh i receiver prov \<Rightarrow> map_sum id fst (inbox_absorb env now fresh i receiver prov s)
   | Inbox_deny now i receiver reason \<Rightarrow> map_sum id fst (inbox_deny now i receiver reason s)
   | Inbox_queue qop \<Rightarrow> (case queue_step env qop (ib_queue s) of
        Inl e \<Rightarrow> Inl (Inbox_queue_error e) | Inr db \<Rightarrow> Inr (s\<lparr>ib_queue := db\<rparr>)))"

definition empty_inbox :: inbox_db where
  "empty_inbox = \<lparr>ib_rows = [], ib_queue = empty_db\<rparr>"

text \<open>The queue row of an absorbed entry: the row exists and its history begins with the sender's create.\<close>

definition promoted :: "queue_db \<Rightarrow> inbox_entry \<Rightarrow> string \<Rightarrow> bool" where
  "promoted db e q \<longleftrightarrow> getById db q \<noteq> None \<and>
     (\<exists>t ts. listForQitem db q = t # ts \<and> t_state t = Q_pending \<and> t_actor t = ib_sender e)"

definition inbox_entry_ok :: "queue_db \<Rightarrow> inbox_entry \<Rightarrow> bool" where
  "inbox_entry_ok db e \<longleftrightarrow> (case ib_state e of
     Inbox_pending \<Rightarrow> ib_absorbedAt e = None \<and> ib_absorbedQitem e = None \<and> ib_deniedAt e = None \<and> ib_deniedReason e = None
   | Inbox_absorbed_state \<Rightarrow> ib_absorbedAt e \<noteq> None \<and> ib_deniedAt e = None \<and> ib_deniedReason e = None
       \<and> (\<exists>q. ib_absorbedQitem e = Some q \<and> promoted db e q)
   | Inbox_denied_state \<Rightarrow> ib_deniedAt e \<noteq> None \<and> ib_deniedReason e \<noteq> None \<and> ib_absorbedAt e = None
       \<and> ib_absorbedQitem e = None)"

definition promotions :: "inbox_entry list \<Rightarrow> string list" where
  "promotions rows = List.map_filter ib_absorbedQitem rows"

definition inbox_inv :: "queue_env \<Rightarrow> inbox_db \<Rightarrow> bool" where
  "inbox_inv env s \<longleftrightarrow> queue_inv env (ib_queue s) \<and> life_ok (life_of (ib_queue s))
     \<and> distinct (map inboxId (ib_rows s)) \<and> list_all (inbox_entry_ok (ib_queue s)) (ib_rows s)
     \<and> distinct (promotions (ib_rows s))"

lemma inbox_inv_empty: "inbox_inv env empty_inbox"
  by (simp add: inbox_inv_def empty_inbox_def queue_inv_empty life_of_empty life_ok_empty promotions_def map_filter_simps)

section \<open>The queue under the entries\<close>

text \<open>Whatever the queue does, the promoted rows stay promoted.\<close>

lemma promoted_grows:
  assumes "micro_run env db db'" "promoted db e q"
  shows "promoted db' e q"
proof -
  from micro_run_grows [OF assms(1)] obtain xs ys where
    g: "d_log db' = d_log db @ xs" "map q_id (d_items db') = map q_id (d_items db) @ ys"
    by (auto simp: prefix_def)
  have "q \<in> q_id ` set (d_items db)" using assms(2) unfolding promoted_def getById_found by blast
  then have "q \<in> q_id ` set (d_items db')" using arg_cong [OF g(2), of set] by auto
  moreover from assms(2) obtain t ts where
    t: "listForQitem db q = t # ts" "t_state t = Q_pending" "t_actor t = ib_sender e"
    unfolding promoted_def by blast
  moreover have "listForQitem db' q = t # ts @ listForQitem (db\<lparr>d_log := xs\<rparr>) q"
    using t(1) by (simp add: g(1) listForQitem_def)
  ultimately show ?thesis unfolding promoted_def getById_found by blast
qed

lemma inbox_entry_ok_grows: "micro_run env db db' \<Longrightarrow> inbox_entry_ok db e \<Longrightarrow> inbox_entry_ok db' e"
  by (cases "ib_state e") (auto simp: inbox_entry_ok_def dest: promoted_grows)

lemma promoted_event [simp]: "promoted (persist_event ev db) e q = promoted db e q"
  by (simp add: promoted_def frame_simps listForQitem_def getById_def)

lemma inbox_entry_ok_event [simp]: "inbox_entry_ok (persist_event ev db) e = inbox_entry_ok db e"
  by (cases "ib_state e") (simp_all add: inbox_entry_ok_def)

lemma promotion_exists:
  assumes "list_all (inbox_entry_ok db) rows" "q \<in> set (promotions rows)"
  shows "getById db q \<noteq> None"
proof -
  from assms(2) obtain e where e: "e \<in> set rows" "ib_absorbedQitem e = Some q"
    by (auto simp: promotions_def map_filter_def)
  with assms(1) have "inbox_entry_ok db e" by (auto simp: list_all_iff)
  with e(2) show ?thesis by (cases "ib_state e") (auto simp: inbox_entry_ok_def promoted_def)
qed

lemma queue_grows_inv:
  assumes "inbox_inv env s" "writes_to env (ib_queue s) db'"
  shows "inbox_inv env (s\<lparr>ib_queue := db'\<rparr>)"
  using assms life_ok_run [OF micro_run_refines] inbox_entry_ok_grows
  by (auto simp: inbox_inv_def writes_to_def list_all_iff)

lemma event_inv:
  assumes "inbox_inv env (s\<lparr>ib_queue := db\<rparr>)"
  shows "inbox_inv env (s\<lparr>ib_queue := persist_event ev db\<rparr>)"
  using queue_grows_inv [OF assms, of "persist_event ev db"] writes_to_same [OF _ same_core_event] assms
  by (simp add: inbox_inv_def)

section \<open>Every step keeps the invariant\<close>

lemma inbox_get_row:
  "ib_rows t = row_set (\<lambda>r. inboxId r = i) f (ib_rows s) \<Longrightarrow> (\<And>r. inboxId (f r) = inboxId r) \<Longrightarrow>
     inbox_get t j = (if j = i then map_option f (inbox_get s i) else inbox_get s j)"
  by (cases "inbox_get s j") (auto simp: inbox_get_def row_get_set dest: row_get_key)

lemma inbox_drop_Inr:
  assumes "inbox_drop now fresh inp s = Inr (t, e)"
  obtains "t = s" "inbox_get s (or_default (dr_id inp) fresh) = Some e"
  | "inbox_get s (or_default (dr_id inp) fresh) = None" "e = dropped_entry now (or_default (dr_id inp) fresh) inp"
    "t = s\<lparr>ib_rows := ib_rows s @ [e]\<rparr>"
  using assms
  by (auto simp: inbox_drop_def inbox_get_or_throw_def Let_def inbox_get_def row_simps dropped_entry_def
      split: option.splits)

lemma drop_inv:
  assumes "inbox_inv env s" "inbox_drop now fresh inp s = Inr (t, e)"
  shows "inbox_inv env t"
  using assms(2)
proof (cases rule: inbox_drop_Inr)
  case 2
  then have "inboxId e \<notin> inboxId ` set (ib_rows s)" by (simp add: inbox_get_def row_get_None dropped_entry_def)
  moreover have "inbox_entry_ok (ib_queue s) e" "ib_absorbedQitem e = None" using 2 by (simp_all add: inbox_entry_ok_def dropped_entry_def)
  ultimately show ?thesis
    using assms(1) 2(3) by (simp add: inbox_inv_def promotions_def map_filter_def)
qed (use assms(1) in simp)

text \<open>Rewriting one entry, whose new form is sound, keeps the rows sound.\<close>

lemma rewrite_entry_inv:
  assumes inv: "inbox_inv env s" and e: "inbox_get s i = Some e"
    and f: "\<And>r. inboxId (f r) = inboxId r" "inbox_entry_ok (ib_queue s) (f e)"
    and old: "ib_absorbedQitem e = None"
    and new: "case ib_absorbedQitem (f e) of None \<Rightarrow> True | Some q \<Rightarrow> q \<notin> set (promotions (ib_rows s))"
  shows "inbox_inv env (s\<lparr>ib_rows := row_set (\<lambda>r. inboxId r = i) f (ib_rows s)\<rparr>)"
proof -
  have mem: "e \<in> set (ib_rows s)" "inboxId e = i" using e by (auto simp: inbox_get_def dest: row_get_Some)
  then obtain as bs where rows: "ib_rows s = as @ e # bs" by (auto simp: in_set_conv_decomp)
  from inv have "distinct (map inboxId (as @ e # bs))" by (simp add: inbox_inv_def rows)
  then have "i \<notin> inboxId ` (set as \<union> set bs)" using mem(2) by auto
  then have "row_set (\<lambda>r. inboxId r = i) f as = as" "row_set (\<lambda>r. inboxId r = i) f bs = bs"
    by (auto intro!: row_set_other)
  then have rows': "row_set (\<lambda>r. inboxId r = i) f (as @ e # bs) = as @ f e # bs"
    using mem(2) by (simp add: row_set_def)
  have "promotions (ib_rows s) = promotions as @ promotions bs"
    using old by (simp add: rows promotions_def map_filter_def)
  moreover have "distinct (promotions (as @ f e # bs))"
    using inv new calculation by (auto simp: inbox_inv_def promotions_def map_filter_def split: option.splits)
  ultimately show ?thesis
    using inv f by (simp add: inbox_inv_def rows rows')
qed

text \<open>The row a create makes: fresh before, with the creator's transition as its whole history.\<close>

lemma create_log:
  assumes "createInTransactionalContext env now fresh inp db = Inr (db', i)"
  shows "\<exists>t. d_log db' = d_log db @ [t] \<and> t_qitem t = i \<and> t_state t = Q_pending \<and> t_actor t = c_source inp"
  using assms
  by (auto simp: createInTransactionalContext_def Let_def effect_simps insert_row_Inr frame_simps new_transition_def
      plain_transition_def split: sum.splits)

lemma no_row_no_log:
  assumes "life_ok (life_of db)" "getById db i = None"
  shows "listForQitem db i = []"
proof (rule ccontr)
  assume n: "listForQitem db i \<noteq> []"
  have "fst (life_of db) i = (let h = life_history i (snd (life_of db)) in if h = [] then None else Some (last h))"
    using assms(1) by (simp add: life_ok_def Let_def)
  with n assms(2) show False unfolding life_history_log by (simp add: life_of_def)
qed

lemma inbox_fields: "s\<lparr>ib_queue := db, ib_rows := rows\<rparr> = s\<lparr>ib_rows := rows, ib_queue := db\<rparr>"
  by (cases s) simp

lemma absorb_Inr:
  assumes "inbox_absorb env now fresh i receiver prov s = Inr (t, e', q)"
  obtains "t = s" "inbox_get s i = Some e'" "ib_state e' = Inbox_absorbed_state" "q = ib_absorbedQitem e'" "ib_dest e' = receiver"
  | e db where "inbox_get s i = Some e" "ib_dest e = receiver" "ib_state e = Inbox_pending" "q = Some fresh"
      "createInTransactionalContext env now fresh (absorb_create e prov) (ib_queue s) = Inr (db, fresh)"
      "e' = absorbed_entry now fresh e" "inbox_get t i = Some e'"
      "t = s\<lparr>ib_rows := row_set (\<lambda>r. inboxId r = i) (absorbed_entry now fresh) (ib_rows s),
             ib_queue := persist_event (Inbox_absorbed i (ib_dest e) (ib_sender e) fresh) db\<rparr>"
proof (cases "inbox_get s i")
  case None
  with assms show thesis by (simp add: inbox_absorb_def)
next
  case (Some e)
  show thesis
  proof (cases "ib_state e = Inbox_pending")
    case False
    with assms Some that(1) show thesis
      by (cases "ib_state e") (auto simp: inbox_absorb_def split: if_splits)
  next
    case True
    with assms Some obtain db x where
      c: "createInTransactionalContext env now fresh (absorb_create e prov) (ib_queue s) = Inr (db, x)"
      and d: "ib_dest e = receiver" and r: "inbox_get_or_throw t i = Inr e'" "q = Some x"
      and t: "t = s\<lparr>ib_rows := row_set (\<lambda>r. inboxId r = i) (absorbed_entry now x) (ib_rows s),
             ib_queue := persist_event (Inbox_absorbed i (ib_dest e) (ib_sender e) x) db\<rparr>"
      by (auto simp: inbox_absorb_def createWithinTransaction_def Let_def map_sum_Inr split: if_splits sum.splits)
    have x: "x = fresh" using create_adds [OF c] by (simp add: absorb_create_def)
    have "inbox_get t i = Some (absorbed_entry now x e)"
      using inbox_get_row [of t i "absorbed_entry now x" s i] Some by (simp add: t absorbed_entry_def)
    with that(2) Some d True r c t x show thesis by (simp add: inbox_get_or_throw_def)
  qed
qed

lemma absorb_inv:
  assumes inv: "inbox_inv env s" and a: "inbox_absorb env now fresh i receiver prov s = Inr (t, e', q)"
  shows "inbox_inv env t"
  using a
proof (cases rule: absorb_Inr)
  case 1
  with inv show ?thesis by simp
next
  case (2 e db)
  from create_adds [OF 2(5)] obtain row where add: "row_added env row (ib_queue s) db" "q_id row = fresh"
    by auto
  have new: "getById (ib_queue s) fresh = None"
    using add unfolding row_added_def getById_found by blast
  have w: "writes_to env (ib_queue s) db" using inv add(1) by (auto simp: inbox_inv_def intro: writes_to_added)
  have "promoted db (absorbed_entry now fresh e) fresh"
  proof -
    from create_log [OF 2(5)] obtain l where l: "d_log db = d_log (ib_queue s) @ [l]" "t_qitem l = fresh"
      "t_state l = Q_pending" "t_actor l = ib_sender e" by (auto simp: absorb_create_def)
    have "listForQitem (ib_queue s) fresh = []" using inv new by (simp add: inbox_inv_def no_row_no_log)
    with l have "listForQitem db fresh = [l]" by (simp add: listForQitem_def)
    moreover have "getById db fresh \<noteq> None"
      using state_of_added(2) [OF add(1), of fresh] add(2) by auto
    ultimately show ?thesis using l by (simp add: promoted_def absorbed_entry_def)
  qed
  moreover have "inbox_entry_ok (ib_queue s) e"
    using inv 2(1) by (auto simp: inbox_inv_def inbox_get_def list_all_iff dest: row_get_Some)
  ultimately have ok: "inbox_entry_ok db (absorbed_entry now fresh e)" "ib_absorbedQitem e = None"
    using 2(3) by (simp_all add: inbox_entry_ok_def absorbed_entry_def)
  have "fresh \<notin> set (promotions (ib_rows s))"
    using promotion_exists [of "ib_queue s" "ib_rows s" fresh] inv new by (auto simp: inbox_inv_def)
  with rewrite_entry_inv [OF queue_grows_inv [OF inv w], of i e "absorbed_entry now fresh"] ok 2(1)
  have "inbox_inv env (s\<lparr>ib_queue := db, ib_rows := row_set (\<lambda>r. inboxId r = i) (absorbed_entry now fresh) (ib_rows s)\<rparr>)"
    by (simp add: inbox_get_def absorbed_entry_def)
  from event_inv [where s = "s\<lparr>ib_rows := row_set (\<lambda>r. inboxId r = i) (absorbed_entry now fresh) (ib_rows s)\<rparr>"
    and db = db] this
  show ?thesis by (simp add: 2(8) inbox_fields)
qed

lemma deny_Inr:
  assumes "inbox_deny now i receiver reason s = Inr (t, e')"
  obtains e where "inbox_get s i = Some e" "ib_dest e = receiver" "ib_state e = Inbox_pending"
    "t = s\<lparr>ib_rows := row_set (\<lambda>r. inboxId r = i) (denied_entry now reason) (ib_rows s),
           ib_queue := persist_event (Inbox_denied i (ib_dest e) (ib_sender e) reason) (ib_queue s)\<rparr>"
  using assms by (auto simp: inbox_deny_def Let_def map_sum_Inr split: option.splits if_splits)

lemma deny_inv:
  assumes inv: "inbox_inv env s" and "inbox_deny now i receiver reason s = Inr (t, e')"
  shows "inbox_inv env t"
  using assms(2)
proof (rule deny_Inr)
  fix e
  assume e: "inbox_get s i = Some e" "ib_state e = Inbox_pending"
    and t: "t = s\<lparr>ib_rows := row_set (\<lambda>r. inboxId r = i) (denied_entry now reason) (ib_rows s),
           ib_queue := persist_event (Inbox_denied i (ib_dest e) (ib_sender e) reason) (ib_queue s)\<rparr>"
  have "inbox_entry_ok (ib_queue s) e"
    using inv e(1) by (auto simp: inbox_inv_def inbox_get_def list_all_iff dest: row_get_Some)
  then have "inbox_entry_ok (ib_queue s) (denied_entry now reason e)" "ib_absorbedQitem e = None"
    using e(2) by (simp_all add: inbox_entry_ok_def denied_entry_def)
  with rewrite_entry_inv [OF inv e(1), of "denied_entry now reason"]
  have "inbox_inv env (s\<lparr>ib_rows := row_set (\<lambda>r. inboxId r = i) (denied_entry now reason) (ib_rows s)\<rparr>)"
    by (simp add: denied_entry_def)
  with event_inv [where s = "s\<lparr>ib_rows := row_set (\<lambda>r. inboxId r = i) (denied_entry now reason) (ib_rows s)\<rparr>"
    and db = "ib_queue s" and ev = "Inbox_denied i (ib_dest e) (ib_sender e) reason"]
  show "inbox_inv env t" by (simp add: t)
qed

lemma inbox_inv_queue: "inbox_inv env s \<Longrightarrow> queue_inv env (ib_queue s)"
  by (simp add: inbox_inv_def)

lemma inbox_step_inv: "inbox_inv env s \<Longrightarrow> inbox_step env op s = Inr t \<Longrightarrow> inbox_inv env t"
  by (cases op)
     (auto simp: inbox_step_def split: sum.splits
       intro: inbox_inv_queue drop_inv absorb_inv deny_inv queue_grows_inv queue_step_writes)

interpretation inbox: guarded_machine "inbox_step env" "inbox_inv env" for env
  by unfold_locales (rule inbox_step_inv)


text \<open>The drop is the mailbox's idempotent write.\<close>

interpretation inbox_drop: idempotent_put inbox_get "\<lambda>i (now, inp). inbox_drop now i (inp\<lparr>dr_id := Some i\<rparr>)"
  by unfold_locales
     (auto simp: inbox_drop_def inbox_get_or_throw_def Let_def inbox_get_def row_simps map_sum_Inr dropped_entry_def
      split: option.splits prod.splits)

text \<open>A decided entry is never touched again.\<close>

lemma inbox_step_decided:
  assumes "inbox_get s i = Some e" "ib_state e \<noteq> Inbox_pending" "inbox_step env op s = Inr t"
  shows "inbox_get t i = Some e"
proof (cases op)
  case (Inbox_drop now fresh inp)
  with assms(3) obtain e' where "inbox_drop now fresh inp s = Inr (t, e')" by (auto simp: inbox_step_def)
  then show ?thesis
    by (cases rule: inbox_drop_Inr) (use assms(1) in \<open>auto simp: inbox_get_def row_simps\<close>)
next
  case (Inbox_absorb now fresh j receiver prov)
  with assms(3) obtain e' q where "inbox_absorb env now fresh j receiver prov s = Inr (t, e', q)"
    by (auto simp: inbox_step_def)
  then show ?thesis
  proof (cases rule: absorb_Inr)
    case (2 e0 db)
    with assms inbox_get_row [of t j "absorbed_entry now fresh" s i] show ?thesis
      by (auto simp: absorbed_entry_def)
  qed (use assms(1) in simp)
next
  case (Inbox_deny now j receiver reason)
  with assms(3) obtain e' where "inbox_deny now j receiver reason s = Inr (t, e')" by (auto simp: inbox_step_def)
  then show ?thesis
    by (rule deny_Inr)
       (use assms inbox_get_row [of t j "denied_entry now reason" s i] in \<open>auto simp: denied_entry_def\<close>)
next
  case (Inbox_queue qop)
  with assms show ?thesis by (auto simp: inbox_step_def inbox_get_def split: sum.splits)
qed

section \<open>Properties\<close>

text \<open>The mailbox promotes each entry at most once, and never half: after any run of drops, absorbs,
  denials and queue operations, every entry is exactly pending, absorbed or denied with the fields of
  that state and no others; an absorbed entry names a queue row that exists and whose history begins
  with a pending row created by the entry's sender; and no two entries share a queue row.\<close>

theorem inbox_promotes_once:
  fixes env :: queue_env and ops :: "inbox_op list"
  defines "s \<equiv> run_steps (inbox_step env) ops empty_inbox"
  shows "list_all (inbox_entry_ok (ib_queue s)) (ib_rows s) \<and> distinct (promotions (ib_rows s))
    \<and> distinct (map inboxId (ib_rows s))"
proof -
  have "inbox_inv env s" unfolding s_def by (rule inbox.run_keeps) (rule inbox_inv_empty)
  then show ?thesis by (simp add: inbox_inv_def)
qed

text \<open>C36: a decision on an entry is final: once absorbed or denied, the entry reads the same, field by field,
  after any further operations by anyone, drops that reuse its id included.\<close>

theorem inbox_decision_final:
  assumes "inbox_get (run_steps (inbox_step env) ops empty_inbox) i = Some e" "ib_state e \<noteq> Inbox_pending"
  shows "inbox_get (run_steps (inbox_step env) (ops @ ops') empty_inbox) i = Some e"
  unfolding run_steps_append
proof (rule inbox.run_stable)
  show "inbox_inv env (run_steps (inbox_step env) ops empty_inbox)" by (rule inbox.run_keeps) (rule inbox_inv_empty)
qed (use assms inbox_step_decided in blast)+

text \<open>An absorb moves the message into the queue unchanged and is idempotent: absorbing a pending entry
  appends exactly one pending row with the entry's sender, addressee, body and tags (the reserved alert
  tag apart) and the priority of its urgency; and absorbing it again, by the addressee at any time and whatever fresh id is offered,
  writes nothing and returns the same row id.\<close>

theorem inbox_absorb_once:
  assumes "inbox_get s i = Some e" "ib_state e = Inbox_pending" "inbox_absorb env now fresh i receiver prov s = Inr (t, e', q)"
  shows "(\<exists>r. d_items (ib_queue t) = d_items (ib_queue s) @ [r] \<and> q = Some (q_id r) \<and> q_state r = Q_pending
      \<and> q_source r = ib_sender e \<and> q_dest r = receiver \<and> q_body r = ib_body e \<and> q_tags r = withHumanAlertTag (ib_tags e) None
      \<and> q_priority r = absorb_priority (ib_urgency e))
    \<and> inbox_absorb env now2 fresh2 i receiver prov2 t = Inr (t, e', q)"
  using assms(3)
proof (cases rule: absorb_Inr)
  case 1
  with assms(1,2) show ?thesis by simp
next
  case (2 e0 db)
  with assms(1) have e0: "e0 = e" by simp
  from create_adds [OF 2(5)] obtain qs where
    "d_items db = d_items (ib_queue s) @ [created_row env now fresh (absorb_create e prov) qs (ib_queue s)]"
    by (auto simp: e0)
  moreover have "inbox_absorb env now2 fresh2 i receiver prov2 t = Inr (t, e', q)"
    using 2 by (simp add: inbox_absorb_def absorbed_entry_def)
  ultimately show ?thesis
    using 2(2,4,8) by (simp add: e0 frame_simps absorb_create_def created_row_def alert_of_def)
qed

end
