(* ===== verification/Queue_Witnesses.thy ===== *)
theory Queue_Witnesses
  imports Queue_Guards Inbox
begin

text \<open>
  A small queue on which the properties with hypotheses are exercised: two seats, a worker's item and
  the item it waits on; and a message in the inbox.
\<close>

definition demo_env :: queue_env where
  "demo_env = \<lparr>e_validateRig = (\<lambda>_. True), e_registry = No_humans, e_sharedChannels = [],
     e_frontier = Some (\<lambda>i. i = ''qitem-b''), e_generation = (\<lambda>s. Some (''gen-'' @ s)), e_addresses = (\<lambda>s. [s]),
     e_attention = (\<lambda>_. None), e_outbox = True, e_retentionTarget = (\<lambda>_ _ _. None), e_draftNode = (\<lambda>_. None),
     e_deliveryTarget = (\<lambda>_. None), e_envelope = (\<lambda>_ _ text _. text), e_urgentLine = (\<lambda>text _. text),
     e_nudgeText = (\<lambda>i _. i), e_message = (\<lambda>_. []), e_iso = (\<lambda>_. []), e_tick = int\<rparr>"

definition demo_item :: "string \<Rightarrow> string \<Rightarrow> create_input" where
  "demo_item i dest = \<lparr>c_id = Some i, c_source = ''lead@r'', c_dest = dest, c_body = ''work'', c_priority = None,
     c_tier = None, c_tags = None, c_expiresAt = None, c_chain = None, c_handedOffFrom = None, c_targetRepo = None,
     c_intent = None, c_alert = None, c_detail = None, c_replyTo = None, c_inboundReplyTo = None, c_gateway = False,
     c_questions = None, c_summary = None, c_evidence = None, c_nudge = None, c_provenance = None,
     c_principal = None, c_openrig = False\<rparr>"

definition demo_update :: "string \<Rightarrow> queue_state \<Rightarrow> update_input" where
  "demo_update i st = \<lparr>u_id = i, u_actor = ''a@r'', u_state = Some (state_name st), u_deadline = None, u_reopen = False,
     u_workflow = True, u_note = None, u_reason = None, u_target = None, u_resolution = None, u_handedOffTo = None,
     u_blockedOn = None, u_wakeWatchdog = None, u_wakeAfter = None, u_wakeMax = None, u_wakeEvidence = None,
     u_wakeMessage = None, u_summary = None, u_evidence = None, u_provenance = None, u_principal = None,
     u_resolved = False\<rparr>"

definition demo_handoff :: handoff_input where
  "demo_handoff = \<lparr>h_id = ''qitem-b'', h_from = ''b@r'', h_to = ''c@r'', h_body = None, h_note = None, h_priority = None,
     h_tier = None, h_tags = None, h_nudge = None, h_targetRepo = None, h_summary = None, h_evidence = None,
     h_provenance = None, h_principal = None, h_alert = None\<rparr>"

text \<open>The worker's item is parked on the other one.\<close>

definition demo_ops :: "queue_op list" where
  "demo_ops = [Op_create 1 [] (demo_item ''qitem-a'' ''a@r''), Op_create 2 [] (demo_item ''qitem-b'' ''b@r''),
     Op_update 3 [] ((demo_update ''qitem-a'' Q_blocked)\<lparr>u_blockedOn := Some ''qitem-b''\<rparr>)]"

definition demo_done :: "queue_op" where
  "demo_done = Op_update 4 [] ((demo_update ''qitem-b'' Q_done)\<lparr>u_reason := Some ''no-follow-on''\<rparr>)"

definition demo_db :: queue_db where
  "demo_db = run_steps (queue_step demo_env) demo_ops empty_db"

definition demo_closed :: queue_db where
  "demo_closed = projr (queue_step demo_env demo_done demo_db)"

definition demo_reopen :: update_input where
  "demo_reopen = (demo_update ''qitem-b'' Q_pending)\<lparr>u_reopen := True, u_note := Some ''again''\<rparr>"

lemma run_demo: "run_steps (queue_step demo_env) (demo_ops @ [demo_done]) empty_db = demo_closed"
  "run_steps (queue_step demo_env) demo_ops empty_db = demo_db"
  "queue_step demo_env demo_done demo_db = Inr demo_closed"
proof -
  have "\<not> isl (queue_step demo_env demo_done demo_db)" by code_simp
  then show cl: "queue_step demo_env demo_done demo_db = Inr demo_closed"
    by (simp add: demo_closed_def)
  show "run_steps (queue_step demo_env) demo_ops empty_db = demo_db" by (simp add: demo_db_def)
  then show "run_steps (queue_step demo_env) (demo_ops @ [demo_done]) empty_db = demo_closed"
    by (simp add: run_steps_append run_steps_simps attempt_step_def cl)
qed

text \<open>Rows by their state, gate and addressee.\<close>

lemma demo_rows:
  "map_option (\<lambda>r. (q_state r, q_blockedOn r, q_dest r)) (getById demo_db ''qitem-a'') = Some (Q_blocked, Some ''qitem-b'', ''a@r'')"
  "map_option (\<lambda>r. (q_state r, q_blockedOn r, q_dest r)) (getById demo_db ''qitem-b'') = Some (Q_pending, None, ''b@r'')"
  "map_option q_state (getById demo_closed ''qitem-b'') = Some Q_done"
  by code_simp+

lemma demo_rowE:
  obtains a b c where "getById demo_db ''qitem-a'' = Some a" "q_state a = Q_blocked" "q_blockedOn a = Some ''qitem-b''"
    "getById demo_db ''qitem-b'' = Some b" "q_state b = Q_pending"
    "getById demo_closed ''qitem-b'' = Some c" "q_state c = Q_done"
  using demo_rows by (auto simp: map_option_eq_Some)

text \<open>An operation whose evaluation gives a result.\<close>

lemma Inr_projr: "\<not> isl x \<Longrightarrow> x = Inr (projr x)"
  by simp

section \<open>The witnesses\<close>

theorem queue_parks_live_witness: "\<exists>b. getById demo_db ''qitem-b'' = Some b \<and> isBlockerLive (q_state b)"
proof (rule demo_rowE)
  fix a assume a: "getById demo_db ''qitem-a'' = Some a" "q_state a = Q_blocked" "q_blockedOn a = Some ''qitem-b''"
  have "a \<in> set (d_items demo_db)" using getById_Some [OF a(1)] by simp
  moreover have "starts_with ''qitem-'' ''qitem-b''" "\<not> isPersonAddress demo_env ''qitem-b''" by code_simp+
  ultimately show ?thesis
    using queue_parks_live [of a demo_env demo_ops "''qitem-b''"] a by (simp add: run_demo)
qed

theorem queue_done_says_why_witness:
  "\<exists>r \<in> set (d_items demo_closed). \<exists>x. q_closureReason r = Some x \<and> isClosureReason x \<and> x \<noteq> ''blocked_on''
    \<and> (q_closureTarget r = None \<longrightarrow> x \<noteq> ''handed_off_to'' \<and> x \<noteq> ''escalation'')"
proof (rule demo_rowE)
  fix c assume c: "getById demo_closed ''qitem-b'' = Some c" "q_state c = Q_done"
  have "c \<in> set (d_items demo_closed)" using getById_Some [OF c(1)] by simp
  with queue_done_says_why [of c demo_env "demo_ops @ [demo_done]"] c(2) show ?thesis
    by (metis run_demo(1))
qed


theorem update_reopen_acknowledged_witness:
  "\<exists>db' t. update demo_env 5 [] demo_reopen demo_closed = Inr db' \<and> d_log db' = d_log demo_closed @ [t]
     \<and> t_note t = Some ''reopen acknowledged: again''"
proof (rule demo_rowE)
  fix c assume c: "getById demo_closed ''qitem-b'' = Some c" "q_state c = Q_done"
  have u: "update demo_env 5 [] demo_reopen demo_closed = Inr (projr (update demo_env 5 [] demo_reopen demo_closed))"
    by (rule Inr_projr) code_simp
  have "guarded_terminal Q_done" by code_simp
  with c update_reopen_acknowledged [of demo_closed demo_reopen c Q_pending, OF _ _ _ _ u] show ?thesis
    by (subst u) (auto simp: demo_reopen_def demo_update_def)
qed

theorem update_keeps_frontier_witness:
  "\<exists>e. update demo_env 4 [] ((demo_update ''qitem-b'' Q_done)\<lparr>u_reason := Some ''no-follow-on'', u_workflow := False\<rparr>) demo_db = Inl e"
proof (rule demo_rowE)
  fix b assume b: "getById demo_db ''qitem-b'' = Some b" "q_state b = Q_pending"
  have "isTerminalState Q_done" by code_simp
  with b update_keeps_frontier [of demo_env "\<lambda>i. i = ''qitem-b''" "(demo_update ''qitem-b'' Q_done)\<lparr>u_reason := Some ''no-follow-on'', u_workflow := False\<rparr>"
      demo_db b Q_done 4 "[]"] show ?thesis by (simp add: demo_update_def demo_env_def)
qed

lemma demo_claim: "claim demo_env 5 ''qitem-a'' ''a@r'' None None demo_db
    = Inr (projr (claim demo_env 5 ''qitem-a'' ''a@r'' None None demo_db))"
  by (rule Inr_projr) code_simp

theorem claim_exclusive_witness:
  "claim demo_env 6 ''qitem-a'' ''a@r'' None None (projr (claim demo_env 5 ''qitem-a'' ''a@r'' None None demo_db))
     \<in> {Inl Claim_destination_mismatch, Inl Qitem_not_claimable}"
  using claim_exclusive [OF demo_claim, of 6 "''a@r''" None None] by blast

theorem claim_remembers_gate_witness:
  "\<exists>r. getById (projr (claim demo_env 5 ''qitem-a'' ''a@r'' None None demo_db)) ''qitem-a'' = Some r
     \<and> effective_blocker (demo_update ''qitem-a'' Q_blocked) r Q_blocked
         (projr (claim demo_env 5 ''qitem-a'' ''a@r'' None None demo_db)) = Some ''qitem-b''"
proof (rule demo_rowE)
  fix a assume a: "getById demo_db ''qitem-a'' = Some a" "q_state a = Q_blocked" "q_blockedOn a = Some ''qitem-b''"
  have "getById (projr (claim demo_env 5 ''qitem-a'' ''a@r'' None None demo_db)) ''qitem-a'' \<noteq> None" by code_simp
  then obtain r where r: "getById (projr (claim demo_env 5 ''qitem-a'' ''a@r'' None None demo_db)) ''qitem-a'' = Some r"
    by blast
  from claim_remembers_gate [OF demo_claim a(1,2) r, of "demo_update ''qitem-a'' Q_blocked"] a(3) r show ?thesis
    by (simp add: demo_update_def)
qed

theorem create_retry_witness:
  "\<exists>db r flag. create demo_env 1 [] (demo_item ''qitem-a'' ''a@r'') empty_db = Inr (db, r, flag)
     \<and> create demo_env 2 ''qitem-x'' (demo_item ''qitem-a'' ''a@r'') db = Inr (db, r, q_body r \<noteq> ''work'')"
proof -
  have "\<not> isl (create demo_env 1 [] (demo_item ''qitem-a'' ''a@r'') empty_db)" by code_simp
  then obtain db r flag where "create demo_env 1 [] (demo_item ''qitem-a'' ''a@r'') empty_db = Inr (db, r, flag)"
    by (metis Inr_projr prod_cases3)
  with create_retry [OF this, of "''qitem-a''" 2 "''qitem-x''"] show ?thesis by (auto simp: demo_item_def)
qed



text \<open>A message dropped and absorbed.\<close>

definition demo_drop :: inbox_op where
  "demo_drop = Inbox_drop 1 [] \<lparr>dr_id = Some ''m'', dr_dest = ''a@r'', dr_sender = ''b@r'', dr_body = ''hello'',
     dr_tags = None, dr_urgency = Some ''urgent'', dr_audit = None, dr_provenance = None\<rparr>"

definition demo_mail :: inbox_db where
  "demo_mail = run_steps (inbox_step demo_env) [demo_drop] empty_inbox"

lemma demo_absorb: "inbox_absorb demo_env 2 ''qitem-m'' ''m'' ''a@r'' None demo_mail
    = Inr (projr (inbox_absorb demo_env 2 ''qitem-m'' ''m'' ''a@r'' None demo_mail))"
  by (rule Inr_projr) code_simp

lemma demo_mail_pending: "map_option ib_state (inbox_get demo_mail ''m'') = Some Inbox_pending"
  by code_simp

theorem inbox_absorb_once_witness:
  "\<exists>t e q. inbox_absorb demo_env 2 ''qitem-m'' ''m'' ''a@r'' None demo_mail = Inr (t, e, q)
     \<and> inbox_absorb demo_env 9 ''other'' ''m'' ''a@r'' None t = Inr (t, e, q)"
proof -
  obtain e where "inbox_get demo_mail ''m'' = Some e" "ib_state e = Inbox_pending"
    using demo_mail_pending by (auto simp: map_option_eq_Some)
  moreover obtain t e' q where "inbox_absorb demo_env 2 ''qitem-m'' ''m'' ''a@r'' None demo_mail = Inr (t, e', q)"
    using demo_absorb by (metis prod_cases3)
  ultimately show ?thesis using inbox_absorb_once by blast
qed

theorem inbox_decision_final_witness:
  "\<exists>e. inbox_get (run_steps (inbox_step demo_env) ([demo_drop, Inbox_absorb 2 ''qitem-m'' ''m'' ''a@r'' None]
       @ [Inbox_deny 3 ''m'' ''a@r'' ''late'', demo_drop]) empty_inbox) ''m'' = Some e \<and> ib_state e = Inbox_absorbed_state"
proof -
  let ?ops = "[demo_drop, Inbox_absorb 2 ''qitem-m'' ''m'' ''a@r'' None]"
  have "map_option ib_state (inbox_get (run_steps (inbox_step demo_env) ?ops empty_inbox) ''m'') = Some Inbox_absorbed_state"
    by code_simp
  then obtain e where "inbox_get (run_steps (inbox_step demo_env) ?ops empty_inbox) ''m'' = Some e"
    "ib_state e = Inbox_absorbed_state" by (auto simp: map_option_eq_Some)
  with inbox_decision_final [of demo_env ?ops "''m''" e "[Inbox_deny 3 ''m'' ''a@r'' ''late'', demo_drop]"]
  show ?thesis by simp
qed

end
