(* ===== verification/Workflow_Store.thy ===== *)
theory Workflow_Store
  imports Queue_Lifecycle Workflow_Scope Workflow_Exception Workflow_Graph Role_Resolver
begin

text \<open>
  The tables behind a running workflow: \<open>workflow_instances\<close>, \<open>workflow_frontier_bindings\<close> and
  \<open>workflow_failure_occurrences\<close> (\<open>workflow-instance-store.ts\<close>), the append-only
  \<open>workflow_step_trails\<close> (\<open>workflow-step-trail-log.ts\<close>), the keepalive jobs armed beside them
  (\<open>workflow-keepalive-arming.ts\<close>) and the frontier predicate the queue is given
  (\<open>workflow-frontier-guard.ts\<close>). The schema is the current one (every migrated column is there);
  the column \<open>fallback_synthesis\<close>, which no code writes, is left out. Ids and clock are arguments.
\<close>

section \<open>Rows\<close>

type_synonym json_object = "(string \<times> json) list"

record lifecycle_binding =
  lc_operation :: string
  lc_digest :: string
  lc_binding :: json_object

text \<open>What a verb leaves in \<open>last_continuation_decision_json\<close>: a serial projection, a graph projection, an
  abort, the resume of an occurrence.\<close>

datatype decision =
    Decided workflow_exit (dec_actor: string) (dec_closed: string) (dec_next: "string option")
      (dec_note: "string option") (dec_blocked: "string option") (dec_step: string)
      (dec_branch: "string option")
  | Decided_graph workflow_exit (dec_actor: string) (dec_closed: string) (dec_step: string)
      (dec_packets: "string list")
  | Decided_abort (dec_actor: string) (dec_reason: string) (dec_packets: "string list")
  | Decided_resume (dec_occurrence: string) (dec_redrive: string) (dec_actor: string)
      (dec_text: "string option")

record workflow_instance =
  inst_id :: string
  inst_workflow :: string
  inst_workflowVersion :: string
  inst_createdBy :: string
  inst_createdAt :: timestamp
  inst_status :: instance_status
  inst_frontier :: "string list"
  inst_step :: "string option"
  inst_hops :: int
  inst_decision :: "decision option"
  inst_completedAt :: "timestamp option"
  inst_version :: int
  inst_resumes :: int
  inst_baseline :: int
  inst_rig :: "string option"
  inst_scope :: "workflow_scope option"
  inst_lifecycle :: "lifecycle_binding option"

record frontier_binding =
  fb_instance :: string
  fb_packet :: string
  fb_step :: string
  fb_drive :: int
  fb_hops :: int
  fb_base :: int
  fb_created :: timestamp

record failure_occurrence =
  fo_id :: string
  fo_instance :: string
  fo_packet :: string
  fo_step :: string
  fo_drive :: int
  fo_hops :: int
  fo_base :: int
  fo_reason :: "string option"
  fo_resolved :: bool
  fo_redrive :: "string option"
  fo_decision :: "string option"
  fo_failedAt :: timestamp
  fo_resolvedAt :: "timestamp option"

record step_trail =
  tr_instance :: string
  tr_step :: string
  tr_role :: string
  tr_closedAt :: timestamp
  tr_exit :: workflow_exit
  tr_evidence :: "json_object option"
  tr_actor :: string
  tr_next :: "string option"
  tr_prior :: string

record workflow_db =
  wf_queue :: queue_db
  wf_instances :: "workflow_instance list"
  wf_bindings :: "frontier_binding list"
  wf_failures :: "failure_occurrence list"
  wf_trail :: "step_trail list"

definition empty_workflows :: workflow_db where
  "empty_workflows = \<lparr>wf_queue = empty_db, wf_instances = [], wf_bindings = [], wf_failures = [], wf_trail = []\<rparr>"

section \<open>Errors and the environment\<close>

datatype workflow_error =
    Instance_not_found | Instance_version_conflict | Failure_not_unresolved | Constraint_failed
  | Instance_not_active | Packet_not_on_frontier | Spec_not_cached | Packet_not_found
  | Current_step_unknown | Exit_not_allowed | Lifecycle_receipt_required | Acceptance_required
  | Acceptance_mismatch | Binding_indeterminate | Branch_target_missing | No_next_step
  | Next_owner_unresolved | Bound_rig_not_found | Harness_pin_unsatisfied
  | Gate_fields_missing | Gate_owner_unresolved | Gate_target_unknown | Gate_handler_unresolved
  | Lifecycle_identity_invalid | Lifecycle_conflict | Lifecycle_replay_indeterminate
  | Scope_refused scope_error | Spec_unreadable | Spec_invalid | Spec_no_steps | Host_remote_unsupported
  | Bound_rig_unknown | Bound_rig_role_uncovered | Entry_owner_unresolved
  | Abort_reason_required | Instance_not_abortable | Instance_not_failed | Resume_step_unrecoverable
  | Resume_step_missing | Occurrence_replay_conflict | Occurrence_replay_indeterminate
  | Occurrence_required | Instance_not_resumable | Frontier_packet_required
  | Human_destination_error human_error | Queue_failed queue_error

text \<open>
  What the workflow domain reads besides its tables: the cached specifications and their reader, the
  runtime column of a session's node, the seats of a rig, the host registry, the exception dial and the
  human destination. The texts of packets and messages are parameters: they embed guidance files read
  at the moment, and no decision reads them.
\<close>

record workflow_env =
  v_queue :: queue_env
  v_cache :: "string \<Rightarrow> string \<Rightarrow> workflow_spec option"
  v_read :: "string \<Rightarrow> workflow_spec option"
  v_put :: "workflow_spec \<Rightarrow> workflow_spec option"
  v_runtime :: "string \<Rightarrow> string option"
  v_seats :: "string \<Rightarrow> seat_facts list option"
  v_rigs :: "string \<Rightarrow> bool"
  v_declares :: "string \<Rightarrow> string \<Rightarrow> bool"
  v_seatAlive :: "string \<Rightarrow> bool"
  v_hosts :: "string \<Rightarrow> bool"
  v_dial :: "dial_position option"
  v_human :: "human_error + string"
  v_watchdog :: bool
  v_evidence :: "json_object \<Rightarrow> evidence"
  v_reasonText :: "workflow_exception \<Rightarrow> string"
  v_handoffText :: "workflow_instance \<Rightarrow> step_spec \<Rightarrow> step_spec \<Rightarrow> string \<Rightarrow> string option \<Rightarrow> string \<Rightarrow> string"
  v_waitText :: "workflow_instance \<Rightarrow> step_spec \<Rightarrow> string \<Rightarrow> string"
  v_exceptionText :: "workflow_exception \<Rightarrow> workflow_instance \<Rightarrow> step_spec \<Rightarrow> string option \<Rightarrow> string"
  v_entryText :: "workflow_instance \<Rightarrow> step_spec \<Rightarrow> string \<Rightarrow> string \<Rightarrow> string"
  v_resumeText :: "workflow_instance \<Rightarrow> step_spec \<Rightarrow> string \<Rightarrow> string option \<Rightarrow> string \<Rightarrow> string"
  v_routeText :: "workflow_instance \<Rightarrow> queue_item \<Rightarrow> string \<Rightarrow> string"

text \<open>The specification an instance sees, with its rig-relative targets bound.\<close>

definition getForInstance :: "workflow_env \<Rightarrow> workflow_instance \<Rightarrow> workflow_spec option" where
  "getForInstance env inst =
     map_option (\<lambda>s. bindSpecToRig s (inst_rig inst)) (v_cache env (inst_workflow inst) (inst_workflowVersion inst))"

section \<open>Instances\<close>

definition getInstance :: "workflow_db \<Rightarrow> string \<Rightarrow> workflow_instance option" where
  "getInstance s i = row_get inst_id i (wf_instances s)"

definition getInstanceOrThrow :: "workflow_db \<Rightarrow> string \<Rightarrow> workflow_error + workflow_instance" where
  "getInstanceOrThrow s i = (case getInstance s i of None \<Rightarrow> Inl Instance_not_found | Some x \<Rightarrow> Inr x)"

definition getByLifecycleOperationKey :: "workflow_db \<Rightarrow> string \<Rightarrow> workflow_instance option" where
  "getByLifecycleOperationKey s key =
     find (\<lambda>x. map_option lc_operation (inst_lifecycle x) = Some key) (wf_instances s)"

record instance_input =
  ni_workflow :: string
  ni_version :: string
  ni_createdBy :: string
  ni_frontier :: "string list"
  ni_step :: "string option"
  ni_rig :: "string option"
  ni_scope :: "workflow_scope option"
  ni_lifecycle :: "lifecycle_binding option"

definition new_instance :: "timestamp \<Rightarrow> string \<Rightarrow> instance_input \<Rightarrow> workflow_instance" where
  "new_instance now i inp =
     \<lparr>inst_id = i, inst_workflow = ni_workflow inp, inst_workflowVersion = ni_version inp,
      inst_createdBy = ni_createdBy inp, inst_createdAt = now, inst_status = Inst_active,
      inst_frontier = ni_frontier inp, inst_step = ni_step inp, inst_hops = 0, inst_decision = None,
      inst_completedAt = None, inst_version = 0, inst_resumes = 0, inst_baseline = 0, inst_rig = ni_rig inp,
      inst_scope = ni_scope inp, inst_lifecycle = ni_lifecycle inp\<rparr>"

text \<open>The id is the primary key; a lifecycle operation key is unique among the instances that have one.\<close>

definition create_instance ::
  "timestamp \<Rightarrow> string \<Rightarrow> instance_input \<Rightarrow> workflow_db \<Rightarrow> workflow_error + workflow_db \<times> workflow_instance" where
  "create_instance now i inp s =
     (let taken = (case ni_lifecycle inp of None \<Rightarrow> False
                   | Some l \<Rightarrow> getByLifecycleOperationKey s (lc_operation l) \<noteq> None)
      in case row_insert inst_id (new_instance now i inp) (wf_instances s) of
           None \<Rightarrow> Inl Constraint_failed
         | Some rows \<Rightarrow> if taken then Inl Constraint_failed
                        else Inr (s\<lparr>wf_instances := rows\<rparr>, new_instance now i inp))"

text \<open>\<open>currentStepId\<close> of an update: keep, clear, or set.\<close>

datatype step_update = Preserve_step | Clear_step | Set_step string

record frontier_update =
  fu_bump :: bool
  fu_decision :: "decision option"
  fu_completedAt :: "timestamp option"
  fu_step :: step_update
  fu_expected :: int
  fu_resume :: "(int \<times> int) option"

definition updated_instance :: "string list \<Rightarrow> instance_status \<Rightarrow> frontier_update \<Rightarrow> workflow_instance \<Rightarrow> workflow_instance" where
  "updated_instance nextFrontier nextStatus u x =
     x\<lparr>inst_version := inst_version x + 1,
       inst_hops := (if fu_bump u then inst_hops x + 1 else inst_hops x),
       inst_resumes := (case fu_resume u of None \<Rightarrow> inst_resumes x | Some (n, _) \<Rightarrow> n),
       inst_baseline := (case fu_resume u of None \<Rightarrow> inst_baseline x | Some (_, b) \<Rightarrow> b),
       inst_step := (case fu_step u of Preserve_step \<Rightarrow> inst_step x | Clear_step \<Rightarrow> None | Set_step i \<Rightarrow> Some i),
       inst_status := nextStatus, inst_frontier := nextFrontier,
       inst_decision := nullish (fu_decision u) (inst_decision x),
       inst_completedAt := (if nextStatus \<in> {Inst_active, Inst_waiting} then None
                            else nullish (fu_completedAt u) (inst_completedAt x))\<rparr>"

text \<open>Every caller passes the version it read; no row at that version is a conflict.\<close>

definition updateFrontier ::
  "string \<Rightarrow> string list \<Rightarrow> instance_status \<Rightarrow> frontier_update \<Rightarrow> workflow_db \<Rightarrow> workflow_error + workflow_db" where
  "updateFrontier i nextFrontier nextStatus u s =
     (let at_version = (\<lambda>x. inst_id x = i \<and> inst_version x = fu_expected u)
      in if row_count at_version (wf_instances s) = 0 then Inl Instance_version_conflict
         else Inr (s\<lparr>wf_instances := row_set at_version (updated_instance nextFrontier nextStatus u) (wf_instances s)\<rparr>))"

definition listByStatus :: "workflow_db \<Rightarrow> instance_status \<Rightarrow> workflow_instance list" where
  "listByStatus s st = sort_key inst_createdAt (filter (\<lambda>x. inst_status x = st) (wf_instances s))"

definition listAll :: "workflow_db \<Rightarrow> workflow_instance list" where
  "listAll s = sort_key inst_createdAt (wf_instances s)"

section \<open>Bindings and failures\<close>

definition bindFrontierPacket :: "frontier_binding \<Rightarrow> workflow_db \<Rightarrow> workflow_error + workflow_db" where
  "bindFrontierPacket b s =
     (case row_insert fb_packet b (wf_bindings s) of
        None \<Rightarrow> Inl Constraint_failed | Some rows \<Rightarrow> Inr (s\<lparr>wf_bindings := rows\<rparr>))"

definition removeFrontierBinding :: "string \<Rightarrow> string \<Rightarrow> workflow_db \<Rightarrow> workflow_db" where
  "removeFrontierBinding i packet s =
     s\<lparr>wf_bindings := filter (\<lambda>b. \<not> (fb_instance b = i \<and> fb_packet b = packet)) (wf_bindings s)\<rparr>"

definition getFrontierBinding :: "workflow_db \<Rightarrow> string \<Rightarrow> string \<Rightarrow> frontier_binding option" where
  "getFrontierBinding s i packet = find (\<lambda>b. fb_instance b = i \<and> fb_packet b = packet) (wf_bindings s)"

definition listFrontierBindings :: "workflow_db \<Rightarrow> string \<Rightarrow> frontier_binding list" where
  "listFrontierBindings s i =
     sort_key (\<lambda>b. (fb_created b, fb_packet b)) (filter (\<lambda>b. fb_instance b = i) (wf_bindings s))"

definition recordFailureOccurrence :: "failure_occurrence \<Rightarrow> workflow_db \<Rightarrow> workflow_error + workflow_db" where
  "recordFailureOccurrence oc s =
     (case row_insert fo_id oc (wf_failures s) of
        None \<Rightarrow> Inl Constraint_failed | Some rows \<Rightarrow> Inr (s\<lparr>wf_failures := rows\<rparr>))"

text \<open>A filter on the status is its resolved flag.\<close>

definition listFailureOccurrences :: "workflow_db \<Rightarrow> string \<Rightarrow> bool option \<Rightarrow> failure_occurrence list" where
  "listFailureOccurrences s i resolved =
     sort_key (\<lambda>oc. (fo_failedAt oc, fo_id oc))
       (filter (\<lambda>oc. fo_instance oc = i \<and> (case resolved of None \<Rightarrow> True | Some b \<Rightarrow> fo_resolved oc = b)) (wf_failures s))"

definition resolveFailureOccurrence ::
  "timestamp \<Rightarrow> string \<Rightarrow> string \<Rightarrow> string \<Rightarrow> string option \<Rightarrow> workflow_db \<Rightarrow> workflow_error + workflow_db" where
  "resolveFailureOccurrence now i occurrence redrive decision s =
     (let open_row = (\<lambda>oc. fo_instance oc = i \<and> fo_id oc = occurrence \<and> \<not> fo_resolved oc)
      in if row_count open_row (wf_failures s) = 0 then Inl Failure_not_unresolved
         else Inr (s\<lparr>wf_failures := row_set open_row
                (\<lambda>oc. oc\<lparr>fo_resolved := True, fo_redrive := Some redrive, fo_decision := decision,
                       fo_resolvedAt := Some now\<rparr>) (wf_failures s)\<rparr>))"

section \<open>The trail\<close>

definition record_trail :: "step_trail \<Rightarrow> workflow_db \<Rightarrow> workflow_db" where
  "record_trail t s = s\<lparr>wf_trail := wf_trail s @ [t]\<rparr>"

definition trail_of :: "workflow_db \<Rightarrow> string \<Rightarrow> step_trail list" where
  "trail_of s i = filter (\<lambda>t. tr_instance t = i) (wf_trail s)"

text \<open>Newest first, later rows before earlier ones of the same time.\<close>

definition listForInstance :: "workflow_db \<Rightarrow> string \<Rightarrow> int \<Rightarrow> step_trail list" where
  "listForInstance s i limit = sql_limit limit (rev (sort_key tr_closedAt (trail_of s i)))"

definition countForInstance :: "workflow_db \<Rightarrow> string \<Rightarrow> nat" where
  "countForInstance s i = length (trail_of s i)"

section \<open>The frontier predicate\<close>

text \<open>The \<open>LIKE\<close> probe for the quoted id in the serialized frontier, which for a generated id is membership.\<close>

definition frontier_packet :: "workflow_db \<Rightarrow> string \<Rightarrow> bool" where
  "frontier_packet s packet \<longleftrightarrow>
     list_ex (\<lambda>x. inst_status x \<in> {Inst_active, Inst_waiting} \<and> packet \<in> set (inst_frontier x)) (wf_instances s)"

definition queue_env_of :: "workflow_env \<Rightarrow> workflow_db \<Rightarrow> queue_env" where
  "queue_env_of env s = (v_queue env)\<lparr>e_frontier := Some (frontier_packet s)\<rparr>"

definition on_queue ::
  "workflow_env \<Rightarrow> (queue_env \<Rightarrow> queue_db \<Rightarrow> queue_error + queue_db) \<Rightarrow> workflow_db \<Rightarrow> workflow_error + workflow_db" where
  "on_queue env f s = (case f (queue_env_of env s) (wf_queue s) of
     Inl e \<Rightarrow> Inl (Queue_failed e) | Inr db \<Rightarrow> Inr (s\<lparr>wf_queue := db\<rparr>))"

definition log_event :: "rig_event \<Rightarrow> workflow_db \<Rightarrow> workflow_db" where
  "log_event ev s = s\<lparr>wf_queue := persist_event ev (wf_queue s)\<rparr>"

section \<open>Keepalive jobs\<close>

definition WORKFLOW_KEEPALIVE_AUTO_INTERVAL_SECONDS :: int where
  "WORKFLOW_KEEPALIVE_AUTO_INTERVAL_SECONDS = 15 * 60"

definition lines_text :: "string list \<Rightarrow> string" where
  "lines_text ls = concat (map (\<lambda>l. l @ [CHR 0x0A]) ls)"

definition buildKeepaliveSpecYaml :: "string \<Rightarrow> string \<Rightarrow> string option \<Rightarrow> string" where
  "buildKeepaliveSpecYaml i target packet = lines_text
     ([''policy: workflow-keepalive'', ''target:'', ''  session: '' @ target, ''context:'',
       ''  workflow_instance_id: '' @ i] @
      (if truthy packet then [''  workflow_packet_id: '' @ the packet] else []) @ [''  deadline_gated: true''])"

text \<open>The first line of a text that, its indentation dropped, names a packet: the value up to white space.\<close>

definition packet_value :: "string \<Rightarrow> string option" where
  "packet_value s =
     (let rest = dropWhile js_space s; key = ''workflow_packet_id:'';
          v = takeWhile (\<lambda>c. \<not> js_space c) (dropWhile js_space (drop (length key) rest))
      in if starts_with key rest \<and> v \<noteq> [] then Some v else None)"

fun packet_line :: "bool \<Rightarrow> string \<Rightarrow> string option" where
  "packet_line at_start [] = None"
| "packet_line at_start (c # s) =
     (case (if at_start then packet_value (c # s) else None) of
        Some v \<Rightarrow> Some v | None \<Rightarrow> packet_line (c = CHR 0x0A) s)"

text \<open>Jobs of this policy carry their text; the others are never looked at.\<close>

definition job_text :: "watchdog_job \<Rightarrow> string" where
  "job_text j = (case j_spec j of Other_spec t \<Rightarrow> t | _ \<Rightarrow> [])"

definition keepalive_of :: "string \<Rightarrow> watchdog_job \<Rightarrow> bool" where
  "keepalive_of i j \<longleftrightarrow> j_policy j = ''workflow-keepalive'' \<and> contains (''workflow_instance_id: '' @ i) (job_text j)"

definition listActive :: "queue_db \<Rightarrow> watchdog_job list" where
  "listActive db = sort_key j_registeredAt (filter (\<lambda>j. j_state j = Job_active) (d_jobs db))"

definition findArmedKeepaliveJob :: "queue_db \<Rightarrow> string \<Rightarrow> string option \<Rightarrow> watchdog_job option" where
  "findArmedKeepaliveJob db i packet =
     find (\<lambda>j. keepalive_of i j \<and> packet_line True (job_text j) = (if truthy packet then packet else None)) (listActive db)"

definition ensureWorkflowKeepaliveArmed ::
  "workflow_env \<Rightarrow> timestamp \<Rightarrow> string \<Rightarrow> string \<Rightarrow> string \<Rightarrow> string \<Rightarrow> string option
     \<Rightarrow> queue_db \<Rightarrow> queue_error + queue_db" where
  "ensureWorkflowKeepaliveArmed env now job i target actor packet db =
     (if \<not> v_watchdog env \<or> findArmedKeepaliveJob db i packet \<noteq> None then Inr db
      else unless_refused
        [(target = [] \<or> CHR ''@'' \<notin> set target, Job_target_invalid), (getJob db job \<noteq> None, Job_id_taken)]
        (Inr (db\<lparr>d_jobs := d_jobs db @ [\<lparr>j_id = job, j_policy = ''workflow-keepalive'',
           j_spec = Other_spec (buildKeepaliveSpecYaml i target packet), j_target = target,
           j_interval = WORKFLOW_KEEPALIVE_AUTO_INTERVAL_SECONDS, j_lastEvaluation = None, j_state = Job_active,
           j_registeredBy = actor, j_registeredAt = now, j_terminalReason = None,
           j_generation = e_generation (v_queue env) actor\<rparr>]\<rparr>)))"

definition disarmWorkflowKeepalive :: "workflow_env \<Rightarrow> string \<Rightarrow> string \<Rightarrow> string option \<Rightarrow> queue_db \<Rightarrow> queue_db" where
  "disarmWorkflowKeepalive env i reason packet db =
     (if \<not> v_watchdog env then db
      else case findArmedKeepaliveJob db i packet of
          None \<Rightarrow> db | Some j \<Rightarrow> markTerminal (j_id j) reason db)"

definition disarmAllWorkflowKeepalives :: "workflow_env \<Rightarrow> string \<Rightarrow> string \<Rightarrow> queue_db \<Rightarrow> queue_db" where
  "disarmAllWorkflowKeepalives env i reason db =
     (if \<not> v_watchdog env then db
      else fold (\<lambda>j. markTerminal (j_id j) reason) (filter (keepalive_of i) (listActive db)) db)"

end
