(* ===== verification/Workflow_Routing.thy ===== *)
theory Workflow_Routing
  imports Workflow_Store Workflow_Validator Workflow_Deadline
begin

text \<open>
  The decisions of the workflow projector (\<open>packages/daemon/src/domain/workflow-projector.ts\<close>) that
  read and do not write: who owns a step, what a gate compiles to, how an exit closes a packet, whether
  an acceptance payload matches, whether a repeated wait is the one already recorded.
\<close>

section \<open>Owners\<close>

fun harness_name :: "agent_harness \<Rightarrow> string" where
  "harness_name Claude_code = ''claude-code''"
| "harness_name Codex = ''codex''"

definition harness_pin :: "step_spec \<Rightarrow> string option" where
  "harness_pin st = map_option harness_name (harness st)"

text \<open>An empty rig name is no binding.\<close>

definition role_context :: "string option \<Rightarrow> string option" where
  "role_context rig = (if truthy rig then rig else None)"

definition resolveRoleOnBoundRig ::
  "workflow_env \<Rightarrow> string \<Rightarrow> string option \<Rightarrow> string \<Rightarrow> workflow_error + string" where
  "resolveRoleOnBoundRig env role pin rig =
     (case v_seats env rig of
        None \<Rightarrow> Inl Bound_rig_not_found
      | Some seats \<Rightarrow>
          (let seat = sel_seat (selectRoleSeat role pin seats)
           in if truthy seat then Inr (the seat) else Inl Next_owner_unresolved))"

definition tryResolveRoleByCapability :: "workflow_env \<Rightarrow> string option \<Rightarrow> string \<Rightarrow> string option" where
  "tryResolveRoleByCapability env ctx role =
     (case ctx of
        None \<Rightarrow> None
      | Some rig \<Rightarrow> (case v_seats env rig of
          None \<Rightarrow> None | Some seats \<Rightarrow> sel_seat (selectRoleSeat role None seats)))"

definition resolveDefaultOwner ::
  "workflow_env \<Rightarrow> workflow_spec \<Rightarrow> step_spec \<Rightarrow> string option \<Rightarrow> workflow_error + string option" where
  "resolveDefaultOwner env spec st ctx =
     (let targets = role_targets spec (actor_role st)
      in if targets = [] \<and> ctx \<noteq> None
         then map_sum id Some (resolveRoleOnBoundRig env (actor_role st) (harness_pin st) (the ctx))
         else if harness st = None then Inr (at targets 0)
         else case find (\<lambda>t. v_runtime env t = harness_pin st) targets of
             Some t \<Rightarrow> Inr (Some t)
           | None \<Rightarrow> Inl Harness_pin_unsatisfied)"

definition reconcileExplicitOwnerHarness :: "workflow_env \<Rightarrow> step_spec \<Rightarrow> string \<Rightarrow> workflow_error + unit" where
  "reconcileExplicitOwnerHarness env st owner =
     (if harness st \<noteq> None \<and> v_runtime env owner \<noteq> harness_pin st then Inl Harness_pin_unsatisfied else Inr ())"

text \<open>An owner that must be there: none, or an empty name, is the error the caller gives.\<close>

definition owner_or :: "workflow_error \<Rightarrow> workflow_error + string option \<Rightarrow> workflow_error + string" where
  "owner_or e r = try_bind r (\<lambda>x. if truthy x then Inr (the x) else Inl e)"

section \<open>Gates\<close>

record gate_result =
  gc_destination :: string
  gc_summary :: "string option"
  gc_evidence :: "string option"
  gc_kind :: gate_kind
  gc_parkOn :: "string option"

definition handler_gate :: "gate_spec \<Rightarrow> string \<Rightarrow> gate_result" where
  "handler_gate g seat = \<lparr>gc_destination = seat, gc_summary = gate_summary g, gc_evidence = gate_evidence g,
     gc_kind = Gate_handler_role, gc_parkOn = None\<rparr>"

definition compileGate ::
  "workflow_env \<Rightarrow> workflow_spec \<Rightarrow> step_spec \<Rightarrow> gate_spec \<Rightarrow> string option \<Rightarrow> workflow_error + gate_result" where
  "compileGate env spec st g ctx =
     (if isHumanSeatSession (gate_target g)
      then (if \<not> truthy (gate_summary g) \<or> \<not> truthy (gate_evidence g) then Inl Gate_fields_missing
            else try_bind (owner_or Gate_owner_unresolved (resolveDefaultOwner env spec st ctx)) (\<lambda>owner.
              Inr \<lparr>gc_destination = owner, gc_summary = gate_summary g, gc_evidence = gate_evidence g,
                   gc_kind = Gate_human, gc_parkOn = Some (gate_target g)\<rparr>))
      else case role_of spec (gate_target g) of
          None \<Rightarrow> Inl Gate_target_unknown
        | Some _ \<Rightarrow>
            (case role_targets spec (gate_target g) of
               [] \<Rightarrow> (case ctx of
                   Some rig \<Rightarrow> map_sum id (handler_gate g)
                     (resolveRoleOnBoundRig env (gate_target g) (harness_pin st) rig)
                 | None \<Rightarrow> Inl Gate_handler_unresolved)
             | t # ts \<Rightarrow>
                 (if harness st = None then Inr (handler_gate g t)
                  else (case List.find (\<lambda>x. v_runtime env x = harness_pin st) (t # ts) of
                      Some x \<Rightarrow> Inr (handler_gate g x)
                    | None \<Rightarrow> Inl Harness_pin_unsatisfied))))"

section \<open>Closing a packet\<close>

record project_input =
  pi_instance :: string
  pi_packet :: string
  pi_exit :: workflow_exit
  pi_note :: "string option"
  pi_blockedOn :: "string option"
  pi_evidence :: "json_object option"
  pi_actor :: string
  pi_provenance :: "string option"
  pi_nextOwner :: "string option"

record queue_closure =
  qc_state :: queue_state
  qc_reason :: string
  qc_target :: "string option"
  qc_handedOffTo :: "string option"
  qc_blockedOn :: "string option"
  qc_note :: string

definition EXTERNAL_GATE :: string where
  "EXTERNAL_GATE = ''external-gate''"

definition workflowExitToQueueClosure ::
  "workflow_exit \<Rightarrow> string option \<Rightarrow> string option \<Rightarrow> string option \<Rightarrow> workflow_error + queue_closure" where
  "workflowExitToQueueClosure x note blockedOn nextOwner =
     (case x of
        Exit_handoff \<Rightarrow>
          if \<not> truthy nextOwner then Inl Next_owner_unresolved
          else Inr \<lparr>qc_state = Q_handed_off, qc_reason = ''handed_off_to'', qc_target = nextOwner,
                    qc_handedOffTo = nextOwner, qc_blockedOn = None, qc_note = ''workflow handoff to '' @ the nextOwner\<rparr>
      | Exit_waiting \<Rightarrow>
          (let blocker = or_default blockedOn EXTERNAL_GATE
           in Inr \<lparr>qc_state = Q_blocked, qc_reason = ''blocked_on'', qc_target = Some blocker, qc_handedOffTo = None,
                   qc_blockedOn = Some blocker, qc_note = ''workflow waiting on '' @ blocker\<rparr>)
      | Exit_done \<Rightarrow>
          Inr \<lparr>qc_state = Q_done, qc_reason = ''no-follow-on'', qc_target = None, qc_handedOffTo = None,
               qc_blockedOn = None,
               qc_note = (if truthy note then ''workflow done: '' @ the note else ''workflow done'')\<rparr>
      | Exit_failed \<Rightarrow>
          Inr \<lparr>qc_state = Q_done, qc_reason = ''denied'', qc_target = Some (or_default note ''workflow_step_failed''),
               qc_handedOffTo = None, qc_blockedOn = None,
               qc_note = (if truthy note then ''workflow failed: '' @ the note else ''workflow failed'')\<rparr>)"

section \<open>Receipts and acceptance\<close>

text \<open>\<open>binding?.graphSource?.requiredSteps\<close>, its strings.\<close>

definition requiredLifecycleSteps :: "lifecycle_binding option \<Rightarrow> string list" where
  "requiredLifecycleSteps l =
     (case (case l of None \<Rightarrow> None | Some b \<Rightarrow> map_of (lc_binding b) ''graphSource'') of
        None \<Rightarrow> []
      | Some graph \<Rightarrow>
          (case member_of graph ''requiredSteps'' of
             Some (J_array xs) \<Rightarrow> List.map_filter (\<lambda>x. case x of J_string i \<Rightarrow> Some i | _ \<Rightarrow> None) xs
           | _ \<Rightarrow> []))"

definition evidence_member :: "json_object option \<Rightarrow> string \<Rightarrow> json option" where
  "evidence_member ev k = (case ev of None \<Rightarrow> None | Some ms \<Rightarrow> map_of ms k)"

definition has_receipt :: "json_object option \<Rightarrow> bool" where
  "has_receipt ev = (case evidence_member ev ''evidence_ref'' of Some (J_string r) \<Rightarrow> trim r \<noteq> [] | _ \<Rightarrow> False)"

definition validateAcceptance :: "step_spec \<Rightarrow> project_input \<Rightarrow> workflow_error + unit" where
  "validateAcceptance st inp =
     (case acceptance st of
        None \<Rightarrow> Inr ()
      | Some a \<Rightarrow>
          if pi_exit inp = Exit_waiting then Inr ()
          else case evidence_member (pi_evidence inp) ''acceptance'' of
              Some (J_object p) \<Rightarrow>
                if map_of p ''candidate'' = Some (J_string (acc_candidate a))
                  \<and> (\<exists>v \<in> set (acc_verdicts a). map_of p ''verdict'' = Some (J_string v))
                  \<and> map_of p ''evidence_ref'' = Some (J_string (acc_evidence a))
                then Inr () else Inl Acceptance_mismatch
            | _ \<Rightarrow> Inl Acceptance_required)"

section \<open>A repeated wait\<close>

text \<open>Deep equality of JSON values: the order of an object's members does not matter.\<close>

fun isDeepEqual :: "json \<Rightarrow> json \<Rightarrow> bool" where
  "isDeepEqual J_null b = (b = J_null)"
| "isDeepEqual (J_bool x) b = (b = J_bool x)"
| "isDeepEqual (J_number x) b = (b = J_number x)"
| "isDeepEqual (J_string x) b = (b = J_string x)"
| "isDeepEqual (J_array xs) b = (case b of J_array ys \<Rightarrow> list_all2 isDeepEqual xs ys | _ \<Rightarrow> False)"
| "isDeepEqual (J_object ms) b = (case b of
     J_object ns \<Rightarrow> length ms = length ns \<and>
       list_all (\<lambda>(k, v). case map_of ns k of None \<Rightarrow> False | Some w \<Rightarrow> isDeepEqual v w) ms
   | _ \<Rightarrow> False)"

definition evidence_equal :: "json_object option \<Rightarrow> json_object option \<Rightarrow> bool" where
  "evidence_equal a b = (case (a, b) of
     (None, None) \<Rightarrow> True | (Some x, Some y) \<Rightarrow> isDeepEqual (J_object x) (J_object y) | _ \<Rightarrow> False)"

text \<open>The fields of a stored projection that the comparison reads: exit, packet, step, actor, note, blocker.
  A graph projection stores neither note nor blocker.\<close>

definition stored_projection :: "decision \<Rightarrow> (workflow_exit \<times> string \<times> string \<times> string \<times> string option \<times> string option) option" where
  "stored_projection d = (case d of
     Decided x actor closed next note blocked step branch \<Rightarrow> Some (x, closed, step, actor, note, blocked)
   | Decided_graph x actor closed step packets \<Rightarrow> Some (x, closed, step, actor, None, None)
   | _ \<Rightarrow> None)"

definition same_wait :: "project_input \<Rightarrow> string \<Rightarrow> decision \<Rightarrow> bool" where
  "same_wait inp step d = (case stored_projection d of
     None \<Rightarrow> False
   | Some (x, closed, stored, actor, note, blocked) \<Rightarrow>
       x = Exit_waiting \<and> closed = pi_packet inp \<and> stored = step \<and> actor = pi_actor inp \<and> note = pi_note inp \<and>
       or_default blocked EXTERNAL_GATE = or_default (pi_blockedOn inp) EXTERNAL_GATE)"

definition matchesStoredWaitingDecision :: "workflow_db \<Rightarrow> workflow_instance \<Rightarrow> project_input \<Rightarrow> string \<Rightarrow> bool" where
  "matchesStoredWaitingDecision s inst inp step =
     (case inst_decision inst of
        None \<Rightarrow> False
      | Some d \<Rightarrow>
          same_wait inp step d \<and>
          (case find (\<lambda>t. tr_prior t = pi_packet inp \<and> tr_exit t = Exit_waiting) (listForInstance s (inst_id inst) 50) of
             None \<Rightarrow> False
           | Some t \<Rightarrow> evidence_equal (tr_evidence t) (pi_evidence inp)))"

section \<open>The current step\<close>

definition resolveCurrentStep :: "workflow_spec \<Rightarrow> workflow_instance \<Rightarrow> step_spec option" where
  "resolveCurrentStep spec inst =
     (if truthy (inst_step inst) then find_step spec (the (inst_step inst)) else at (steps spec) 0)"

text \<open>The step of a frontier packet: its binding's, or the instance's when it is alone.\<close>

definition step_of_packet :: "workflow_spec \<Rightarrow> workflow_instance \<Rightarrow> frontier_binding option \<Rightarrow> step_spec option" where
  "step_of_packet spec inst binding =
     (case binding of
        Some b \<Rightarrow> find_step spec (fb_step b)
      | None \<Rightarrow> if length (inst_frontier inst) = 1 then resolveCurrentStep spec inst else None)"

definition unanswered_gate :: "project_input \<Rightarrow> step_spec \<Rightarrow> queue_item \<Rightarrow> string option" where
  "unanswered_gate inp st packet =
     (case gate st of
        None \<Rightarrow> None
      | Some g \<Rightarrow>
          if pi_exit inp \<in> {Exit_done, Exit_handoff} \<and> isHumanSeatSession (gate_target g)
            \<and> q_state packet = Q_blocked \<and> q_blockedOn packet = Some (gate_target g)
          then Some (''Packet '' @ pi_packet inp @ '' is still blocked on '' @ gate_target g
                 @ ''; advancing past an unanswered human gate. This transition does not record their consent.'')
          else None)"

end
