(* ===== verification/Workflow_Projector.thy ===== *)
theory Workflow_Projector
  imports Workflow_Routing
begin

text \<open>
  The transactional scribe (\<open>packages/daemon/src/domain/workflow-projector.ts\<close>): closing a frontier
  packet, projecting the next ones, the trail, the frontier, the keepalives and the events in one
  transaction, on the serial path and on the dependency graph path. A refusal writes nothing. The
  test-only hold inside the transaction and the delivery after commit are not modelled.
\<close>

section \<open>Queue rows the workflow writes\<close>

definition packet_create :: "string \<Rightarrow> string \<Rightarrow> string \<Rightarrow> string \<Rightarrow> string list \<Rightarrow> string option \<Rightarrow> create_input" where
  "packet_create i source dest txt labels prov =
     \<lparr>c_id = Some i, c_source = source, c_dest = dest, c_body = txt, c_priority = Some ''routine'',
      c_tier = Some ''mode2'', c_tags = Some labels, c_expiresAt = None, c_chain = None, c_handedOffFrom = None,
      c_targetRepo = None, c_intent = None, c_alert = None, c_detail = None, c_replyTo = None,
      c_inboundReplyTo = None, c_gateway = False, c_questions = None, c_summary = None, c_evidence = None,
      c_nudge = None, c_provenance = prov, c_principal = None, c_openrig = False\<rparr>"

definition packet_update :: "string \<Rightarrow> string \<Rightarrow> queue_state \<Rightarrow> string \<Rightarrow> string option \<Rightarrow> update_input" where
  "packet_update i actor st why prov =
     \<lparr>u_id = i, u_actor = actor, u_state = Some (state_name st), u_deadline = None, u_reopen = False,
      u_workflow = False, u_note = Some why, u_reason = None, u_target = None, u_resolution = None,
      u_handedOffTo = None, u_blockedOn = None, u_wakeWatchdog = None, u_wakeAfter = None, u_wakeMax = None,
      u_wakeEvidence = None, u_wakeMessage = None, u_summary = None, u_evidence = None, u_provenance = prov,
      u_principal = None, u_resolved = False\<rparr>"

text \<open>Create and stage the durable wake; park on a person; the final check that a closed packet's successor
  has its wake.\<close>

definition queue_create :: "workflow_env \<Rightarrow> timestamp \<Rightarrow> create_input \<Rightarrow> workflow_db \<Rightarrow> workflow_error + workflow_db" where
  "queue_create env now inp = on_queue env (\<lambda>e db. map_sum id fst (createWithinTransaction e now [] inp db))"

definition queue_update :: "workflow_env \<Rightarrow> timestamp \<Rightarrow> string \<Rightarrow> update_input \<Rightarrow> workflow_db \<Rightarrow> workflow_error + workflow_db" where
  "queue_update env now job inp = on_queue env (\<lambda>e. update e now job inp)"

definition stage_wake ::
  "workflow_env \<Rightarrow> timestamp \<Rightarrow> string \<Rightarrow> string \<Rightarrow> string \<Rightarrow> string option \<Rightarrow> workflow_db \<Rightarrow> workflow_error + workflow_db" where
  "stage_wake env now i from dest prov = on_queue env (\<lambda>e. stageHandoffWake e now i from dest prov None)"

definition create_woken ::
  "workflow_env \<Rightarrow> timestamp \<Rightarrow> create_input \<Rightarrow> workflow_db \<Rightarrow> workflow_error + workflow_db" where
  "create_woken env now inp s =
     try_bind (queue_create env now inp s)
       (stage_wake env now (the (c_id inp)) (c_source inp) (c_dest inp) (c_provenance inp))"

definition park_on_person ::
  "workflow_env \<Rightarrow> timestamp \<Rightarrow> string \<Rightarrow> string \<Rightarrow> string option \<Rightarrow> string option \<Rightarrow> workflow_db \<Rightarrow> workflow_error + workflow_db" where
  "park_on_person env now i actor prov parkOn s =
     (if \<not> truthy parkOn then Inr s
      else queue_update env now []
        ((packet_update i actor Q_blocked (''workflow gate: parked on '' @ the parkOn @ '' pending sign-off'') prov)
          \<lparr>u_reason := Some ''blocked_on'', u_target := parkOn, u_blockedOn := parkOn\<rparr>) s)"

definition assert_woken :: "workflow_env \<Rightarrow> string \<Rightarrow> string \<Rightarrow> workflow_db \<Rightarrow> workflow_error + workflow_db" where
  "assert_woken env source successor = on_queue env (\<lambda>e. assertTerminalClosureHasIntent e source successor None)"

definition close_packet ::
  "workflow_env \<Rightarrow> timestamp \<Rightarrow> string \<Rightarrow> project_input \<Rightarrow> workflow_instance \<Rightarrow> step_spec \<Rightarrow> string option
     \<Rightarrow> queue_closure \<Rightarrow> bool \<Rightarrow> workflow_db \<Rightarrow> workflow_error + workflow_db" where
  "close_packet env now job inp inst st advisory closure re_present =
     queue_update env now job
       ((packet_update (pi_packet inp) (pi_actor inp) (qc_state closure)
           (case advisory of None \<Rightarrow> qc_note closure | Some a \<Rightarrow> qc_note closure @ ''; '' @ a) (pi_provenance inp))
         \<lparr>u_workflow := True, u_reason := Some (qc_reason closure), u_target := qc_target closure,
          u_handedOffTo := qc_handedOffTo closure, u_blockedOn := qc_blockedOn closure,
          u_wakeMax := (if re_present then map_option Seconds (re_present_max st) else None),
          u_wakeEvidence := map_option (v_evidence env) (pi_evidence inp),
          u_wakeAfter := (if re_present then map_option Seconds (re_present_after st) else None),
          u_wakeMessage := (if re_present \<and> re_present_after st \<noteq> None
                            then Some (v_waitText env inst st (pi_packet inp)) else None)\<rparr>)"

section \<open>The exception of a failed step\<close>

text \<open>Fresh ids of one projection: packets by position, the exception item, jobs by position.\<close>

record fresh_ids =
  id_packet :: "nat \<Rightarrow> string"
  id_exception :: string
  id_park_job :: string
  id_job :: "nat \<Rightarrow> string"

definition exception_create ::
  "workflow_env \<Rightarrow> fresh_ids \<Rightarrow> project_input \<Rightarrow> workflow_instance \<Rightarrow> step_spec \<Rightarrow> workflow_exception \<Rightarrow> string option
     \<Rightarrow> string \<Rightarrow> string \<Rightarrow> bool \<Rightarrow> create_input" where
  "exception_create env ids inp inst st ex occurrence dest tier toPerson =
     (packet_create (id_exception ids) (pi_actor inp) dest (v_exceptionText env ex inst st occurrence)
        (workflowExceptionTags (ex_identity ex) @ packetScopeTags (inst_scope inst) (Some (step_id st)))
        (pi_provenance inp))
       \<lparr>c_priority := Some ''urgent'', c_tier := Some tier, c_summary := Some (v_reasonText env ex),
        c_evidence := Some (''rig workflow trace '' @ inst_id inst), c_chain := Some [pi_packet inp],
        c_alert := (if toPerson then Some (J_bool True) else None)\<rparr>"

definition exception_route_of :: "workflow_env \<Rightarrow> workflow_spec \<Rightarrow> workflow_instance \<Rightarrow> workflow_exception \<Rightarrow> human_error + exception_route" where
  "exception_route_of env spec inst ex =
     resolveExceptionRoute (ei_class (ex_identity ex)) spec (v_dial env)
       (\<lambda>role. case role_targets spec role of
          t # _ \<Rightarrow> Some t
        | [] \<Rightarrow> tryResolveRoleByCapability env (role_context (inst_rig inst)) role)
       (v_human env)"

text \<open>Only an agent rig that is not there falls back to the person.\<close>

definition admitFailureException ::
  "workflow_env \<Rightarrow> timestamp \<Rightarrow> fresh_ids \<Rightarrow> project_input \<Rightarrow> workflow_instance \<Rightarrow> workflow_spec \<Rightarrow> step_spec
     \<Rightarrow> string option \<Rightarrow> string option \<Rightarrow> workflow_db \<Rightarrow> workflow_error + workflow_db" where
  "admitFailureException env now ids inp inst spec st reason occurrence s =
     (let ex = classifyFailureOccurrence \<lparr>fv_instance = inst_id inst, fv_workflow = inst_workflow inst,
                 fv_step = Some (step_id st), fv_packet = pi_packet inp, fv_reason = reason\<rparr>;
          item = exception_create env ids inp inst st ex occurrence
      in case exception_route_of env spec inst ex of
           Inl e \<Rightarrow> Inl (Human_destination_error e)
         | Inr route \<Rightarrow>
             (case queue_create env now (item (route_destination route) (route_tier route) (humanRouted route)) s of
                Inr s1 \<Rightarrow> stage_wake env now (id_exception ids) (pi_actor inp) (route_destination route) (pi_provenance inp) s1
              | Inl e \<Rightarrow>
                  if e \<noteq> Queue_failed Destination_refused \<or> humanRouted route then Inl e
                  else case v_human env of
                      Inl h \<Rightarrow> Inl (Human_destination_error h)
                    | Inr person \<Rightarrow>
                        try_bind (queue_create env now (item person ''human-gate'' True) s)
                          (stage_wake env now (id_exception ids) (pi_actor inp) person (pi_provenance inp))))"

section \<open>Entering a projection\<close>

record project_result =
  pr_closed :: string
  pr_exit :: workflow_exit
  pr_packets :: "(string \<times> string \<times> string) list"
  pr_absorbed :: bool

definition absorbed_result :: "project_input \<Rightarrow> project_result" where
  "absorbed_result inp = \<lparr>pr_closed = pi_packet inp, pr_exit = Exit_waiting, pr_packets = [], pr_absorbed = True\<rparr>"

text \<open>Everything checked before the first write, in order.\<close>

definition project_entry ::
  "workflow_env \<Rightarrow> project_input \<Rightarrow> workflow_db
     \<Rightarrow> workflow_error + workflow_instance \<times> workflow_spec \<times> queue_item \<times> frontier_binding option \<times> step_spec" where
  "project_entry env inp s =
     try_bind (getInstanceOrThrow s (pi_instance inp)) (\<lambda>inst.
       unless_refused
         [(inst_status inst \<noteq> Inst_active \<and> inst_status inst \<noteq> Inst_waiting, Instance_not_active),
          (pi_packet inp \<notin> set (inst_frontier inst), Packet_not_on_frontier)]
       (case getForInstance env inst of
          None \<Rightarrow> Inl Spec_not_cached
        | Some spec \<Rightarrow>
            (case getById (wf_queue s) (pi_packet inp) of
               None \<Rightarrow> Inl Packet_not_found
             | Some packet \<Rightarrow>
                 (let binding = getFrontierBinding s (inst_id inst) (pi_packet inp)
                  in case step_of_packet spec inst binding of
                       None \<Rightarrow> Inl Current_step_unknown
                     | Some st \<Rightarrow>
                         unless_refused
                           [(or_default (allowed_exits st) [] \<noteq> [] \<and> pi_exit inp \<notin> set (or_default (allowed_exits st) []),
                               Exit_not_allowed),
                            (step_id st \<in> set (requiredLifecycleSteps (inst_lifecycle inst)) \<and>
                               pi_exit inp \<in> {Exit_done, Exit_handoff} \<and> \<not> has_receipt (pi_evidence inp),
                               Lifecycle_receipt_required)]
                         (try_bind (validateAcceptance st inp) (\<lambda>_. Inr (inst, spec, packet, binding, st)))))))"

section \<open>The serial path\<close>

definition spread :: "json_object option \<Rightarrow> string \<Rightarrow> json \<Rightarrow> json_object" where
  "spread ev k v =
     (let ms = or_default ev []
      in if k \<in> fst ` set ms then map (\<lambda>(a, b). if a = k then (k, v) else (a, b)) ms else ms @ [(k, v)])"

fun hops_json :: "hops_value option \<Rightarrow> json" where
  "hops_json (Some (Hops n)) = J_number n"
| "hops_json _ = J_null"

fun int_str :: "int \<Rightarrow> string" where
  "int_str n = (if n < 0 then CHR ''-'' # nat_str (nat (- n)) else nat_str (nat n))"

declare int_str.simps [simp del]

text \<open>The guard evidence and note of a projection the hop guard turns into a failure.\<close>

definition hops_note :: "int \<Rightarrow> hops_value option \<Rightarrow> string" where
  "hops_note hops mx = ''max_hops_exceeded: hop '' @ int_str (hops + 1) @ '' would exceed loop_guards.max_hops=''
     @ (case mx of Some (Hops n) \<Rightarrow> int_str n | _ \<Rightarrow> ''undefined'')"

definition hops_evidence :: "json_object option \<Rightarrow> int \<Rightarrow> hops_value option \<Rightarrow> json_object" where
  "hops_evidence ev hops mx = spread ev ''max_hops_guard''
     (J_object [(''code'', J_string ''max_hops_exceeded''), (''maxHops'', hops_json mx),
                (''hopCount'', J_number hops), (''attemptedHop'', J_number (hops + 1))])"

fun exit_name :: "workflow_exit \<Rightarrow> string" where
  "exit_name Exit_handoff = ''handoff''"
| "exit_name Exit_waiting = ''waiting''"
| "exit_name Exit_done = ''done''"
| "exit_name Exit_failed = ''failed''"

definition owner_evidence ::
  "workflow_spec \<Rightarrow> workflow_instance \<Rightarrow> project_input \<Rightarrow> step_spec \<Rightarrow> gate_result option \<Rightarrow> string \<Rightarrow> json" where
  "owner_evidence spec inst inp nxt gt owner = J_object
     ([(''mode'', J_string (if gt \<noteq> None then ''gate'' else if truthy (pi_nextOwner inp) then ''explicit''
          else if role_targets spec (actor_role nxt) \<noteq> [] then ''preferred_targets'' else ''role'')),
       (''role'', J_string (actor_role nxt))] @
      (if truthy (inst_rig inst) then [(''boundRig'', J_string (the (inst_rig inst)))] else []) @
      [(''seat'', J_string owner)])"

text \<open>The owner of the next step and its gate: a gate's destination, the caller's choice, the role's.\<close>

definition next_owner ::
  "workflow_env \<Rightarrow> workflow_spec \<Rightarrow> workflow_instance \<Rightarrow> string option \<Rightarrow> step_spec \<Rightarrow> workflow_error + string \<times> gate_result option" where
  "next_owner env spec inst explicit nxt =
     (let ctx = role_context (inst_rig inst)
      in case gate nxt of
           Some g \<Rightarrow> map_sum id (\<lambda>c. (gc_destination c, Some c)) (compileGate env spec nxt g ctx)
         | None \<Rightarrow>
             if truthy explicit
             then map_sum id (\<lambda>_. (the explicit, None)) (reconcileExplicitOwnerHarness env nxt (the explicit))
             else map_sum id (\<lambda>own. (own, None)) (owner_or Next_owner_unresolved (resolveDefaultOwner env spec nxt ctx)))"

definition base_tags :: "string \<Rightarrow> workflow_spec \<Rightarrow> workflow_instance \<Rightarrow> string list" where
  "base_tags kind spec inst = [''workflow'', kind, ''workflow:'' @ spec_id spec, ''instance:'' @ inst_id inst]"

definition gate_tags :: "exception_identity option \<Rightarrow> string list" where
  "gate_tags i = (case i of None \<Rightarrow> []
     | Some x \<Rightarrow> filter (\<lambda>t. \<not> starts_with ''workflow:'' t \<and> \<not> starts_with ''instance:'' t) (workflowExceptionTags x))"

definition gate_exception :: "string \<Rightarrow> string \<Rightarrow> string \<Rightarrow> string \<Rightarrow> gate_result option \<Rightarrow> exception_identity option" where
  "gate_exception workflow inst step packet gt =
     (case gt of None \<Rightarrow> None
      | Some c \<Rightarrow> map_option ex_identity (classifyGateTrip workflow inst step (gc_kind c) packet (gc_parkOn c)))"

definition next_create ::
  "workflow_env \<Rightarrow> workflow_spec \<Rightarrow> workflow_instance \<Rightarrow> project_input \<Rightarrow> step_spec \<Rightarrow> step_spec \<Rightarrow> string option
     \<Rightarrow> gate_result option \<Rightarrow> string \<Rightarrow> string \<Rightarrow> string list \<Rightarrow> create_input" where
  "next_create env spec inst inp st nxt why gt packet owner labels =
     (packet_create packet (pi_actor inp) owner (v_handoffText env inst st nxt packet why owner) labels (pi_provenance inp))
       \<lparr>c_summary := (case gt of None \<Rightarrow> None | Some c \<Rightarrow> gc_summary c),
        c_evidence := (case gt of None \<Rightarrow> None | Some c \<Rightarrow> gc_evidence c), c_chain := Some [pi_packet inp]\<rparr>"

definition parked_on :: "gate_result option \<Rightarrow> string option" where
  "parked_on gt = (case gt of None \<Rightarrow> None | Some c \<Rightarrow> gc_parkOn c)"

text \<open>The status, completion time and current step after a serial close.\<close>

definition serial_status :: "bool \<Rightarrow> gate_result option \<Rightarrow> workflow_exit \<Rightarrow> string list \<Rightarrow> instance_status" where
  "serial_status routed gt x frontier =
     (if routed then (if gt \<noteq> None then Inst_waiting else Inst_active)
      else if x = Exit_waiting then Inst_waiting
      else if x = Exit_failed then Inst_failed
      else if frontier = [] then Inst_completed else Inst_active)"

definition serial_frontier :: "workflow_instance \<Rightarrow> string \<Rightarrow> string option \<Rightarrow> workflow_exit \<Rightarrow> string list" where
  "serial_frontier inst packet nextPacket x =
     (let remaining = filter (\<lambda>i. i \<noteq> packet) (inst_frontier inst)
      in case nextPacket of
           Some n \<Rightarrow> remaining @ [n]
         | None \<Rightarrow> if x = Exit_waiting then remaining @ [packet] else remaining)"

definition terminal_status :: "instance_status \<Rightarrow> bool" where
  "terminal_status st \<longleftrightarrow> st \<in> {Inst_completed, Inst_failed}"

text \<open>The next step of a route with its owner and its gate; its packet and wake, and its person when gated.\<close>

type_synonym routed_step = "step_spec \<times> string \<times> gate_result option"

definition serial_next ::
  "workflow_env \<Rightarrow> timestamp \<Rightarrow> fresh_ids \<Rightarrow> project_input \<Rightarrow> workflow_instance \<Rightarrow> workflow_spec \<Rightarrow> step_spec
     \<Rightarrow> string option \<Rightarrow> routed_step option \<Rightarrow> workflow_db \<Rightarrow> workflow_error + workflow_db" where
  "serial_next env now ids inp inst spec st why nxt s =
     (case nxt of
        None \<Rightarrow> Inr s
      | Some (t, owner, gt) \<Rightarrow>
          (let fresh = id_packet ids 0
           in try_bind (create_woken env now (next_create env spec inst inp st t why gt fresh owner
                (base_tags (if gt \<noteq> None then ''gate'' else ''handoff'') spec inst @
                 gate_tags (gate_exception (inst_workflow inst) (inst_id inst) (step_id t) fresh gt) @
                 packetScopeTags (inst_scope inst) (Some (step_id t)))) s)
              (park_on_person env now fresh (pi_actor inp) (pi_provenance inp) (parked_on gt))))"

definition serial_entry :: "timestamp \<Rightarrow> project_input \<Rightarrow> workflow_instance \<Rightarrow> step_spec \<Rightarrow> workflow_exit \<Rightarrow> json_object option
     \<Rightarrow> string option \<Rightarrow> step_trail" where
  "serial_entry now inp inst st x ev nextPacket = \<lparr>tr_instance = inst_id inst, tr_step = step_id st, tr_role = actor_role st,
     tr_closedAt = now, tr_exit = x, tr_evidence = ev, tr_actor = pi_actor inp, tr_next = nextPacket, tr_prior = pi_packet inp\<rparr>"

definition serial_update ::
  "timestamp \<Rightarrow> fresh_ids \<Rightarrow> project_input \<Rightarrow> workflow_instance \<Rightarrow> step_spec \<Rightarrow> workflow_exit \<Rightarrow> string option \<Rightarrow> bool
     \<Rightarrow> routed_step option \<Rightarrow> instance_status \<Rightarrow> frontier_update" where
  "serial_update now ids inp inst st x why branched nxt status =
     \<lparr>fu_bump = nxt \<noteq> None,
      fu_decision = Some (Decided x (pi_actor inp) (pi_packet inp) (map_option (\<lambda>_. id_packet ids 0) nxt) why
        (pi_blockedOn inp) (step_id st) (if branched then map_option (\<lambda>(t, _). step_id t) nxt else None)),
      fu_completedAt = (if terminal_status status then Some now else None),
      fu_step = (case nxt of Some (t, _) \<Rightarrow> Set_step (step_id t)
                 | None \<Rightarrow> if x = Exit_waiting then Preserve_step else Clear_step),
      fu_expected = inst_version inst, fu_resume = None\<rparr>"

text \<open>The instance's keepalive: re-armed for the next owner, disarmed at the end.\<close>

definition serial_keepalive ::
  "workflow_env \<Rightarrow> timestamp \<Rightarrow> fresh_ids \<Rightarrow> project_input \<Rightarrow> workflow_instance \<Rightarrow> routed_step option \<Rightarrow> instance_status
     \<Rightarrow> queue_env \<Rightarrow> queue_db \<Rightarrow> queue_error + queue_db" where
  "serial_keepalive env now ids inp inst nxt status e db =
     (case nxt of
        Some (t, owner, gt) \<Rightarrow>
          ensureWorkflowKeepaliveArmed env now (id_job ids 0) (inst_id inst) owner (pi_actor inp) None db
      | None \<Rightarrow>
          if terminal_status status
          then Inr (disarmWorkflowKeepalive env (inst_id inst)
                 (if status = Inst_completed then ''workflow_completed'' else ''workflow_failed'') None db)
          else Inr db)"

text \<open>The events of a close, and on failure the exception item with them.\<close>

definition serial_events ::
  "workflow_env \<Rightarrow> timestamp \<Rightarrow> fresh_ids \<Rightarrow> project_input \<Rightarrow> workflow_instance \<Rightarrow> workflow_spec \<Rightarrow> step_spec \<Rightarrow> workflow_exit
     \<Rightarrow> string option \<Rightarrow> routed_step option \<Rightarrow> instance_status \<Rightarrow> workflow_db \<Rightarrow> workflow_error + workflow_db" where
  "serial_events env now ids inp inst spec st x why nxt status s =
     (let s1 = log_event (Workflow_step_closed (inst_id inst) (step_id st) (exit_name x) (pi_actor inp) (pi_packet inp)) s;
          s2 = (case nxt of None \<Rightarrow> s1
                | Some (t, owner, gt) \<Rightarrow>
                    log_event (Workflow_next_qitem_projected (inst_id inst) (id_packet ids 0) owner (step_id t)) s1)
      in if status = Inst_completed then Inr (log_event (Workflow_completed (inst_id inst) (inst_workflow inst)) s2)
         else if status = Inst_failed
         then admitFailureException env now ids inp inst spec st why None
                (log_event (Workflow_failed (inst_id inst) (inst_workflow inst) (or_default why ''workflow_step_failed'')) s2)
         else Inr s2)"

text \<open>The transaction of the serial path, in the order of its writes.\<close>

definition serial_writes ::
  "workflow_env \<Rightarrow> timestamp \<Rightarrow> fresh_ids \<Rightarrow> project_input \<Rightarrow> workflow_instance \<Rightarrow> workflow_spec \<Rightarrow> queue_item \<Rightarrow> step_spec
     \<Rightarrow> workflow_exit \<Rightarrow> string option \<Rightarrow> json_object option \<Rightarrow> bool \<Rightarrow> routed_step option
     \<Rightarrow> workflow_db \<Rightarrow> workflow_error + workflow_db" where
  "serial_writes env now ids inp inst spec packet st x why ev branched nxt s =
     (let nextPacket = map_option (\<lambda>_. id_packet ids 0) nxt;
          frontier = serial_frontier inst (pi_packet inp) nextPacket x;
          status = serial_status (nxt \<noteq> None) (case nxt of None \<Rightarrow> None | Some (_, _, g) \<Rightarrow> g) x frontier
      in try_bind (workflowExitToQueueClosure x why (pi_blockedOn inp) (map_option (\<lambda>(_, owner, _). owner) nxt)) (\<lambda>closure.
         try_bind (close_packet env now (id_park_job ids) inp inst st (unanswered_gate inp st packet) closure
                     (x = Exit_waiting \<and> nxt = None) s) (\<lambda>s1.
         try_bind (serial_next env now ids inp inst spec st why nxt s1) (\<lambda>s2.
         try_bind (updateFrontier (inst_id inst) frontier status (serial_update now ids inp inst st x why branched nxt status)
                     (record_trail (serial_entry now inp inst st x ev nextPacket) s2)) (\<lambda>s3.
         try_bind (on_queue env (serial_keepalive env now ids inp inst nxt status) s3) (\<lambda>s4.
         try_bind (serial_events env now ids inp inst spec st x why nxt status s4) (\<lambda>s5.
           if nxt \<noteq> None then assert_woken env (pi_packet inp) (id_packet ids 0) s5
           else if status = Inst_failed then assert_woken env (pi_packet inp) (id_exception ids) s5
           else Inr s5)))))))"

definition project_serial ::
  "workflow_env \<Rightarrow> timestamp \<Rightarrow> fresh_ids \<Rightarrow> project_input \<Rightarrow> workflow_instance \<Rightarrow> workflow_spec \<Rightarrow> queue_item
     \<Rightarrow> step_spec \<Rightarrow> workflow_db \<Rightarrow> workflow_error + workflow_db \<times> project_result" where
  "project_serial env now ids inp inst spec packet st s =
     (let target = branch_target st (pi_exit inp);
          found = resolveNextStep spec st (Some (pi_exit inp));
          willRoute = (target \<noteq> None \<or> pi_exit inp = Exit_handoff);
          mx = spec_max_hops spec;
          tripped = (willRoute \<and> exceedsMaxHops (inst_hops inst) (inst_baseline inst) mx);
          x = (if tripped then Exit_failed else pi_exit inp);
          why = (if tripped then Some (hops_note (inst_hops inst) mx) else pi_note inp);
          routed = (willRoute \<and> \<not> tripped);
          guarded = (if tripped then Some (hops_evidence (pi_evidence inp) (inst_hops inst) mx) else pi_evidence inp);
          branched = (if routed \<and> target \<noteq> None
            then Some (spread guarded ''branch_taken'' (J_object [(''exit'', J_string (exit_name (pi_exit inp))),
                   (''target'', J_string (step_id (the found)))])) else guarded);
          finish = (\<lambda>ev nxt. try_bind (serial_writes env now ids inp inst spec packet st x why ev (target \<noteq> None) nxt s) (\<lambda>s1.
            Inr (s1, \<lparr>pr_closed = pi_packet inp, pr_exit = x,
              pr_packets = (case nxt of None \<Rightarrow> [] | Some (t, owner, _) \<Rightarrow> [(id_packet ids 0, owner, step_id t)]),
              pr_absorbed = False\<rparr>)))
      in if target \<noteq> None \<and> found = None then Inl Branch_target_missing
         else if pi_exit inp = Exit_waiting \<and> inst_status inst = Inst_waiting
           \<and> matchesStoredWaitingDecision s inst inp (step_id st)
         then Inr (s, absorbed_result inp)
         else if \<not> routed then finish branched None
         else (case found of
                 None \<Rightarrow> Inl No_next_step
               | Some t \<Rightarrow>
                   try_bind (next_owner env spec inst (pi_nextOwner inp) t) (\<lambda>(owner, gt).
                     finish (Some (spread branched ''owner_resolution'' (owner_evidence spec inst inp t gt owner)))
                       (Some (t, owner, gt)))))"

end
