(* ===== verification/Workflow_Dependency.thy ===== *)
theory Workflow_Dependency
  imports Workflow_Projector
begin

text \<open>
  The second executor of \<open>workflow-projector.ts\<close>, \<open>projectDependencyGraph\<close>: a specification that declares
  \<open>depends_on\<close> has many live packets, each with its own binding. A close may start every step whose
  prerequisites are now complete, or none. Then \<open>projectStep\<close>, which picks the executor.
\<close>

section \<open>Completions\<close>

text \<open>A completion's rank is its place in the trail: append order, not the clock. Zero is none.\<close>

definition latestCompletion :: "step_trail list \<Rightarrow> string \<Rightarrow> nat" where
  "latestCompletion ts i =
     fold (\<lambda>(k, t) r. if tr_step t = i \<and> completes (tr_exit t) then Suc k else r) (List.enumerate 0 ts) 0"

definition completion_ranks :: "step_trail list \<Rightarrow> workflow_exit \<Rightarrow> string \<Rightarrow> string \<Rightarrow> nat" where
  "completion_ranks ts x step =
     (if completes x then (latestCompletion ts)(step := Suc (length ts)) else latestCompletion ts)"

text \<open>A step counts as complete when it closed after the last completion of each of its prerequisites.\<close>

definition prerequisites :: "workflow_spec \<Rightarrow> string \<Rightarrow> string list" where
  "prerequisites spec i = (case find_step spec i of None \<Rightarrow> [] | Some st \<Rightarrow> dependencies st)"

definition completed_in :: "workflow_spec \<Rightarrow> (string \<Rightarrow> nat) \<Rightarrow> string \<Rightarrow> bool" where
  "completed_in spec rk i \<longleftrightarrow> 0 < rk i \<and> (\<forall>d \<in> set (prerequisites spec i). rk d < rk i)"

definition ready :: "workflow_spec \<Rightarrow> (string \<Rightarrow> nat) \<Rightarrow> string set \<Rightarrow> string set \<Rightarrow> string \<Rightarrow> step_spec \<Rightarrow> bool" where
  "ready spec rk live failed current c \<longleftrightarrow>
     dependencies c \<noteq> [] \<and> current \<in> set (dependencies c) \<and>
     (\<forall>d \<in> set (dependencies c). completed_in spec rk d) \<and>
     \<not> (completed_in spec rk (step_id c) \<or> step_id c \<in> live \<or> step_id c \<in> failed)"

definition graph_next :: "workflow_spec \<Rightarrow> workflow_instance \<Rightarrow> step_spec \<Rightarrow> workflow_exit \<Rightarrow> workflow_db \<Rightarrow> workflow_error + step_spec list" where
  "graph_next spec inst st x s =
     (if truthy (branch_target st x)
      then (case find_step spec (the (branch_target st x)) of None \<Rightarrow> Inl Branch_target_missing | Some t \<Rightarrow> Inr [t])
      else if completes x
      then Inr (filter (ready spec (completion_ranks (trail_of s (inst_id inst)) x (step_id st))
                          (fb_step ` set (listFrontierBindings s (inst_id inst)))
                          (fo_step ` set (listFailureOccurrences s (inst_id inst) (Some False)))
                          (step_id st)) (steps spec))
      else Inr [])"

section \<open>The successors\<close>

record graph_plan =
  gp_step :: step_spec
  gp_gate :: "gate_result option"
  gp_owner :: string
  gp_packet :: string

fun graph_plans ::
  "workflow_env \<Rightarrow> fresh_ids \<Rightarrow> workflow_spec \<Rightarrow> workflow_instance \<Rightarrow> nat \<Rightarrow> step_spec list \<Rightarrow> workflow_error + graph_plan list" where
  "graph_plans env ids spec inst k [] = Inr []"
| "graph_plans env ids spec inst k (st # sts) =
     try_bind (next_owner env spec inst None st) (\<lambda>(owner, gt).
       if owner = [] then Inl Next_owner_unresolved
       else try_bind (graph_plans env ids spec inst (Suc k) sts) (\<lambda>ps.
         Inr (\<lparr>gp_step = st, gp_gate = gt, gp_owner = owner, gp_packet = id_packet ids k\<rparr> # ps)))"

text \<open>What a graph close writes on its own packet: a handoff to none or to many is a completion.\<close>

definition graph_closure ::
  "project_input \<Rightarrow> step_spec \<Rightarrow> workflow_exit \<Rightarrow> string option \<Rightarrow> graph_plan list \<Rightarrow> workflow_error + queue_closure" where
  "graph_closure inp st x note plans =
     (if x = Exit_handoff \<and> length plans \<noteq> 1
      then Inr \<lparr>qc_state = Q_done, qc_reason = ''no-follow-on'', qc_target = None, qc_handedOffTo = None,
                qc_blockedOn = None, qc_note = ''workflow graph: '' @ pi_actor inp @ '' completed '' @ step_id st @ ''; ''
                  @ nat_str (length plans) @ '' successors projected transactionally''\<rparr>
      else workflowExitToQueueClosure x note (pi_blockedOn inp)
             (case plans of [p] \<Rightarrow> Some (gp_owner p) | _ \<Rightarrow> None))"

definition plan_tags :: "workflow_spec \<Rightarrow> workflow_instance \<Rightarrow> graph_plan \<Rightarrow> string list" where
  "plan_tags spec inst p = base_tags (if gp_gate p \<noteq> None then ''gate'' else ''handoff'') spec inst
     @ [''step:'' @ step_id (gp_step p)] @ packetScopeTags (inst_scope inst) (Some (step_id (gp_step p)))"

text \<open>One successor: its row and wake, its gate's person, its binding with one hop more, its keepalive.\<close>

definition project_plan ::
  "workflow_env \<Rightarrow> timestamp \<Rightarrow> fresh_ids \<Rightarrow> workflow_spec \<Rightarrow> workflow_instance \<Rightarrow> project_input \<Rightarrow> step_spec
     \<Rightarrow> string option \<Rightarrow> frontier_binding \<Rightarrow> bool \<Rightarrow> nat \<Rightarrow> graph_plan \<Rightarrow> workflow_db \<Rightarrow> workflow_error + workflow_db" where
  "project_plan env now ids spec inst inp st note b fans k p s =
     try_bind (create_woken env now
         (next_create env spec inst inp st (gp_step p) note (gp_gate p) (gp_packet p) (gp_owner p) (plan_tags spec inst p)) s) (\<lambda>s1.
     try_bind (park_on_person env now (gp_packet p) (pi_actor inp) (pi_provenance inp) (parked_on (gp_gate p)) s1) (\<lambda>s2.
     try_bind (bindFrontierPacket \<lparr>fb_instance = inst_id inst, fb_packet = gp_packet p, fb_step = step_id (gp_step p),
         fb_drive = fb_drive b + (if fans then 1 else 0), fb_hops = fb_hops b + 1, fb_base = fb_base b,
         fb_created = now\<rparr> s2) (\<lambda>s3.
     try_bind (on_queue env (\<lambda>_. ensureWorkflowKeepaliveArmed env now (id_job ids k) (inst_id inst) (gp_owner p)
         (pi_actor inp) (Some (gp_packet p))) s3) (\<lambda>s4.
       Inr (log_event (Workflow_next_qitem_projected (inst_id inst) (gp_packet p) (gp_owner p) (step_id (gp_step p))) s4)))))"

fun project_plans ::
  "workflow_env \<Rightarrow> timestamp \<Rightarrow> fresh_ids \<Rightarrow> workflow_spec \<Rightarrow> workflow_instance \<Rightarrow> project_input \<Rightarrow> step_spec
     \<Rightarrow> string option \<Rightarrow> frontier_binding \<Rightarrow> bool \<Rightarrow> nat \<Rightarrow> graph_plan list \<Rightarrow> workflow_db \<Rightarrow> workflow_error + workflow_db" where
  "project_plans env now ids spec inst inp st note b fans k [] s = Inr s"
| "project_plans env now ids spec inst inp st note b fans k (p # ps) s =
     try_bind (project_plan env now ids spec inst inp st note b fans k p s)
       (project_plans env now ids spec inst inp st note b fans (Suc k) ps)"

section \<open>The close\<close>

definition graph_frontier :: "workflow_instance \<Rightarrow> string \<Rightarrow> workflow_exit \<Rightarrow> graph_plan list \<Rightarrow> string list" where
  "graph_frontier inst packet x plans =
     filter (\<lambda>i. i \<noteq> packet) (inst_frontier inst) @ (if x = Exit_waiting then [packet] else map gp_packet plans)"

definition unresolved_count :: "workflow_db \<Rightarrow> string \<Rightarrow> nat" where
  "unresolved_count s i = length (listFailureOccurrences s i (Some False))"

definition packet_blocked :: "workflow_db \<Rightarrow> string \<Rightarrow> bool" where
  "packet_blocked s i = (case getById (wf_queue s) i of None \<Rightarrow> False | Some q \<Rightarrow> q_state q = Q_blocked)"

definition graph_status :: "workflow_db \<Rightarrow> string \<Rightarrow> string list \<Rightarrow> instance_status" where
  "graph_status s i frontier =
     (if frontier \<noteq> [] then (if list_all (packet_blocked s) frontier then Inst_waiting else Inst_active)
      else if 0 < unresolved_count s i then Inst_failed else Inst_completed)"

definition singleton_step :: "workflow_db \<Rightarrow> string \<Rightarrow> step_update" where
  "singleton_step s i = (case listFrontierBindings s i of [b] \<Rightarrow> Set_step (fb_step b) | _ \<Rightarrow> Clear_step)"

definition release_packet :: "workflow_env \<Rightarrow> workflow_instance \<Rightarrow> string \<Rightarrow> workflow_exit \<Rightarrow> workflow_db \<Rightarrow> workflow_db" where
  "release_packet env inst packet x s =
     (if x = Exit_waiting then s
      else (removeFrontierBinding (inst_id inst) packet s)
        \<lparr>wf_queue := disarmWorkflowKeepalive env (inst_id inst) (''workflow_packet_'' @ exit_name x) (Some packet) (wf_queue s)\<rparr>)"

definition packets_json :: "graph_plan list \<Rightarrow> json" where
  "packets_json plans = J_array (map (\<lambda>p. J_string (gp_packet p)) plans)"

text \<open>The last writes: status and frontier, the trail row, the events.\<close>

definition graph_settle ::
  "timestamp \<Rightarrow> project_input \<Rightarrow> workflow_instance \<Rightarrow> step_spec \<Rightarrow> workflow_exit \<Rightarrow> string option \<Rightarrow> json_object option
     \<Rightarrow> graph_plan list \<Rightarrow> workflow_db \<Rightarrow> workflow_error + workflow_db" where
  "graph_settle now inp inst st x note ev plans s =
     (let i = inst_id inst; packets = map gp_packet plans;
          frontier = graph_frontier inst (pi_packet inp) x plans;
          status = graph_status s i frontier
      in try_bind (updateFrontier i frontier status
            \<lparr>fu_bump = plans \<noteq> [],
             fu_decision = Some (Decided_graph x (pi_actor inp) (pi_packet inp) (step_id st) packets),
             fu_completedAt = (if terminal_status status then Some now else None),
             fu_step = singleton_step s i, fu_expected = inst_version inst, fu_resume = None\<rparr> s) (\<lambda>s1.
         let s2 = record_trail \<lparr>tr_instance = i, tr_step = step_id st, tr_role = actor_role st, tr_closedAt = now, tr_exit = x,
                    tr_evidence = Some (spread ev ''next_qitem_ids'' (packets_json plans)), tr_actor = pi_actor inp,
                    tr_next = at packets 0, tr_prior = pi_packet inp\<rparr> s1;
             s3 = log_event (Workflow_step_closed i (step_id st) (exit_name x) (pi_actor inp) (pi_packet inp)) s2
         in Inr (if status = Inst_completed then log_event (Workflow_completed i (inst_workflow inst)) s3
                 else if status = Inst_failed
                 then log_event (Workflow_failed i (inst_workflow inst) (or_default note ''workflow_step_failed'')) s3
                 else s3)))"

text \<open>An unmapped failure is one resumable occurrence, named by its packet, and one attention item.\<close>

definition graph_failure ::
  "workflow_env \<Rightarrow> timestamp \<Rightarrow> fresh_ids \<Rightarrow> project_input \<Rightarrow> workflow_instance \<Rightarrow> workflow_spec \<Rightarrow> frontier_binding
     \<Rightarrow> step_spec \<Rightarrow> string option \<Rightarrow> workflow_db \<Rightarrow> workflow_error + workflow_db" where
  "graph_failure env now ids inp inst spec b st why s =
     try_bind (recordFailureOccurrence \<lparr>fo_id = pi_packet inp, fo_instance = inst_id inst,
         fo_packet = pi_packet inp, fo_step = step_id st, fo_drive = fb_drive b, fo_hops = fb_hops b,
         fo_base = fb_base b, fo_reason = why, fo_resolved = False, fo_redrive = None,
         fo_decision = None, fo_failedAt = now, fo_resolvedAt = None\<rparr> s)
       (admitFailureException env now ids inp inst spec st why (Some (pi_packet inp)))"

text \<open>The transaction of the graph path, in the order of its writes.\<close>

definition graph_writes ::
  "workflow_env \<Rightarrow> timestamp \<Rightarrow> fresh_ids \<Rightarrow> project_input \<Rightarrow> workflow_instance \<Rightarrow> workflow_spec \<Rightarrow> queue_item
     \<Rightarrow> frontier_binding \<Rightarrow> step_spec \<Rightarrow> workflow_exit \<Rightarrow> string option \<Rightarrow> json_object option \<Rightarrow> bool \<Rightarrow> graph_plan list
     \<Rightarrow> workflow_db \<Rightarrow> workflow_error + workflow_db" where
  "graph_writes env now ids inp inst spec packet b st x why ev fails plans s =
     try_bind (graph_closure inp st x why plans) (\<lambda>closure.
     try_bind (close_packet env now (id_park_job ids) inp inst st (unanswered_gate inp st packet) closure
                 (x = Exit_waiting \<and> plans = []) s) (\<lambda>s1.
     try_bind (project_plans env now ids spec inst inp st why b (1 < length plans) 0 plans
                 (release_packet env inst (pi_packet inp) x s1)) (\<lambda>s2.
     try_bind (if fails then graph_failure env now ids inp inst spec b st why s2 else Inr s2) (\<lambda>s3.
     try_bind (graph_settle now inp inst st x why ev plans s3) (\<lambda>s4.
       if fails then assert_woken env (pi_packet inp) (id_exception ids) s4 else Inr s4)))))"

definition project_graph ::
  "workflow_env \<Rightarrow> timestamp \<Rightarrow> fresh_ids \<Rightarrow> project_input \<Rightarrow> workflow_instance \<Rightarrow> workflow_spec \<Rightarrow> queue_item
     \<Rightarrow> frontier_binding \<Rightarrow> step_spec \<Rightarrow> workflow_db \<Rightarrow> workflow_error + workflow_db \<times> project_result" where
  "project_graph env now ids inp inst spec packet b st s =
     (if pi_exit inp = Exit_waiting \<and> inst_status inst = Inst_waiting \<and> matchesStoredWaitingDecision s inst inp (step_id st)
      then Inr (s, absorbed_result inp)
      else try_bind (graph_next spec inst st (pi_exit inp) s) (\<lambda>nexts.
        let mx = spec_max_hops spec;
            tripped = (nexts \<noteq> [] \<and> exceedsMaxHops (fb_hops b) (fb_base b) mx);
            x = (if tripped then Exit_failed else pi_exit inp);
            why = (if tripped then Some (hops_note (fb_hops b) mx) else pi_note inp);
            ev = (if tripped then Some (hops_evidence (pi_evidence inp) (fb_hops b) mx) else pi_evidence inp);
            fails = (x = Exit_failed \<and> (\<not> truthy (branch_target st (pi_exit inp)) \<or> tripped))
        in try_bind (graph_plans env ids spec inst 0 (if tripped then [] else nexts)) (\<lambda>plans.
           try_bind (graph_writes env now ids inp inst spec packet b st x why ev fails plans s) (\<lambda>s1.
             Inr (s1, \<lparr>pr_closed = pi_packet inp, pr_exit = x,
               pr_packets = map (\<lambda>p. (gp_packet p, gp_owner p, step_id (gp_step p))) plans, pr_absorbed = False\<rparr>)))))"

section \<open>Choosing the executor\<close>

definition project ::
  "workflow_env \<Rightarrow> timestamp \<Rightarrow> fresh_ids \<Rightarrow> project_input \<Rightarrow> workflow_db \<Rightarrow> workflow_error + workflow_db \<times> project_result" where
  "project env now ids inp s =
     try_bind (project_entry env inp s) (\<lambda>(inst, spec, packet, binding, st).
       if dependencyGraph spec
       then (case binding of
               None \<Rightarrow> Inl Binding_indeterminate
             | Some b \<Rightarrow> project_graph env now ids inp inst spec packet b st s)
       else project_serial env now ids inp inst spec packet st s)"

end
