(* ===== verification/Workflow_Runtime.thy ===== *)
theory Workflow_Runtime
  imports Workflow_Dependency Workflow_Deadline
begin

text \<open>
  The verbs of \<open>packages/daemon/src/domain/workflow-runtime.ts\<close>: instantiate, project, route, resume, abort
  and the reconciliation of overdue exceptions, each one transaction over the tables of
  \<open>Workflow_Store\<close>. Advisory texts and the delivery after commit are not modelled.
\<close>

section \<open>Instantiate\<close>

record lifecycle_source =
  ls_spec :: workflow_spec
  ls_project :: string
  ls_mission :: string
  ls_slices :: "(string \<times> string) list"

record scope_input =
  si_ids :: "scope_key \<Rightarrow> scope_value option"
  si_tags :: "(unit + scope_value list) option"
  si_slices :: "(string \<times> string) list"

record instantiate_input =
  ii_path :: string
  ii_createdBy :: string
  ii_entryOwner :: "string option"
  ii_targetRig :: "string option"
  ii_scope :: scope_input
  ii_lifecycle :: "lifecycle_binding option"
  ii_compiled :: "lifecycle_source option"

record instantiate_result =
  ir_instance :: string
  ir_entry :: string
  ir_owner :: string
  ir_replayed :: bool

definition initial_digest :: "lifecycle_binding \<Rightarrow> json" where
  "initial_digest l = (case map_of (lc_binding l) ''initialInputDigest'' of
     None \<Rightarrow> J_string (lc_digest l) | Some J_null \<Rightarrow> J_string (lc_digest l) | Some v \<Rightarrow> v)"

definition entry_of_binding :: "lifecycle_binding \<Rightarrow> string option" where
  "entry_of_binding l = (case map_of (lc_binding l) ''entryQitemId'' of Some (J_string i) \<Rightarrow> Some i | _ \<Rightarrow> None)"

text \<open>An operation key already bound: the same bytes replay the stored outcome, other bytes are refused.\<close>

definition replay_lifecycle ::
  "workflow_env \<Rightarrow> workflow_instance \<Rightarrow> string \<Rightarrow> workflow_db \<Rightarrow> workflow_error + instantiate_result" where
  "replay_lifecycle env x digest s =
     (case inst_lifecycle x of
        None \<Rightarrow> Inl Lifecycle_replay_indeterminate
      | Some l \<Rightarrow>
          if initial_digest l \<noteq> J_string digest then Inl Lifecycle_conflict
          else case (getForInstance env x, entry_of_binding l) of
              (Some spec, Some i) \<Rightarrow>
                (if i = [] then Inl Lifecycle_replay_indeterminate
                 else case getById (wf_queue s) i of
                     None \<Rightarrow> Inl Lifecycle_replay_indeterminate
                   | Some q \<Rightarrow> Inr \<lparr>ir_instance = inst_id x, ir_entry = i, ir_owner = q_dest q, ir_replayed = True\<rparr>)
            | _ \<Rightarrow> Inl Lifecycle_replay_indeterminate)"

definition instantiate_scope :: "instantiate_input \<Rightarrow> workflow_error + workflow_scope option" where
  "instantiate_scope inp =
     (case (case ii_compiled inp of
              Some c \<Rightarrow> lifecycleScope (ls_project c) (ls_mission c) (ls_slices c)
            | None \<Rightarrow> normalizeWorkflowScope (si_ids (ii_scope inp)) (si_tags (ii_scope inp)) (si_slices (ii_scope inp))) of
        Inl e \<Rightarrow> Inl (Scope_refused e) | Inr x \<Rightarrow> Inr x)"

definition instantiate_spec :: "workflow_env \<Rightarrow> instantiate_input \<Rightarrow> workflow_error + workflow_spec" where
  "instantiate_spec env inp =
     (case (case ii_compiled inp of Some c \<Rightarrow> v_put env (ls_spec c) | None \<Rightarrow> v_read env (ii_path inp)) of
        None \<Rightarrow> Inl Spec_unreadable
      | Some spec \<Rightarrow>
          unless_refused
            [(\<not> result_ok (validate (Some (v_seatAlive env)) (Some (v_hosts env)) spec), Spec_invalid),
             (steps spec = [], Spec_no_steps),
             (\<exists>st \<in> set (steps spec). truthy (host st) \<and> host st \<noteq> Some ''local'', Host_remote_unsupported)]
            (Inr spec))"

text \<open>The operator's rig must exist; the specification's default binds when it exists.\<close>

definition bound_rig :: "workflow_env \<Rightarrow> string option \<Rightarrow> workflow_spec \<Rightarrow> workflow_error + string option" where
  "bound_rig env target spec =
     (case target of
        Some rig \<Rightarrow> if v_rigs env rig then Inr (Some rig) else Inl Bound_rig_unknown
      | None \<Rightarrow> Inr (case target_rig spec of None \<Rightarrow> None | Some rig \<Rightarrow> if v_rigs env rig then Some rig else None))"

definition static_pin ::
  "workflow_env \<Rightarrow> workflow_spec \<Rightarrow> string option \<Rightarrow> string option \<Rightarrow> nat \<Rightarrow> step_spec \<Rightarrow> workflow_error + unit" where
  "static_pin env spec rig entryOwner k st =
     (if harness st = None then Inr ()
      else case gate st of
          Some g \<Rightarrow>
            (if rig \<noteq> None \<and>
                role_targets spec (if isHumanSeatSession (gate_target g) then actor_role st else gate_target g) = []
             then Inr () else map_sum id (\<lambda>_. ()) (compileGate env spec st g None))
        | None \<Rightarrow>
            if k = 0 \<and> truthy entryOwner then Inr ()
            else if rig \<noteq> None \<and> role_targets spec (actor_role st) = [] then Inr ()
            else map_sum id (\<lambda>_. ()) (resolveDefaultOwner env spec st None))"

fun static_pins ::
  "workflow_env \<Rightarrow> workflow_spec \<Rightarrow> string option \<Rightarrow> string option \<Rightarrow> nat \<Rightarrow> step_spec list \<Rightarrow> workflow_error + unit" where
  "static_pins env spec rig entryOwner k [] = Inr ()"
| "static_pins env spec rig entryOwner k (st # sts) =
     try_bind (static_pin env spec rig entryOwner k st) (\<lambda>_. static_pins env spec rig entryOwner (Suc k) sts)"

text \<open>The roles a bound rig has to declare: a step's, and its handler gate's, when they name no target.\<close>

definition roles_to_cover :: "workflow_spec \<Rightarrow> step_spec \<Rightarrow> string list" where
  "roles_to_cover spec st =
     (if role_targets spec (actor_role st) = [] then [actor_role st] else []) @
     (case gate st of None \<Rightarrow> []
      | Some g \<Rightarrow> if \<not> isHumanSeatSession (gate_target g) \<and> role_targets spec (gate_target g) = []
                then [gate_target g] else [])"

definition uncovered :: "workflow_env \<Rightarrow> workflow_spec \<Rightarrow> string option \<Rightarrow> bool" where
  "uncovered env spec rig = (case rig of None \<Rightarrow> False
     | Some r \<Rightarrow> \<exists>st \<in> set (steps spec). \<exists>role \<in> set (roles_to_cover spec st). \<not> v_declares env r role)"

definition entry_owner ::
  "workflow_env \<Rightarrow> workflow_spec \<Rightarrow> step_spec \<Rightarrow> string option \<Rightarrow> string option \<Rightarrow> workflow_error + string \<times> gate_result option" where
  "entry_owner env spec st explicit rig =
     (let ctx = role_context rig;
          r = (case gate st of
                 Some g \<Rightarrow> map_sum id (\<lambda>c. (Some (gc_destination c), Some c)) (compileGate env spec st g ctx)
               | None \<Rightarrow>
                   if truthy explicit
                   then map_sum id (\<lambda>_. (explicit, None)) (reconcileExplicitOwnerHarness env st (the explicit))
                   else map_sum id (\<lambda>own. (own, None)) (resolveDefaultOwner env spec st ctx))
      in case r of
           Inl e \<Rightarrow> Inl (if e = Next_owner_unresolved then Entry_owner_unresolved else e)
         | Inr (own, gt) \<Rightarrow> if truthy own then Inr (the own, gt) else Inl Entry_owner_unresolved)"

definition entry_create ::
  "workflow_env \<Rightarrow> workflow_spec \<Rightarrow> workflow_instance \<Rightarrow> step_spec \<Rightarrow> string \<Rightarrow> string \<Rightarrow> string \<Rightarrow> gate_result option \<Rightarrow> create_input" where
  "entry_create env spec inst st packet creator owner gt =
     (packet_create packet creator owner (v_entryText env inst st packet owner)
        (base_tags (if gt \<noteq> None then ''gate'' else ''entry'') spec inst
          @ gate_tags (gate_exception (spec_id spec) (inst_id inst) (step_id st) packet gt)
          @ packetScopeTags (inst_scope inst) (Some (step_id st))) None)
       \<lparr>c_summary := (case gt of None \<Rightarrow> None | Some c \<Rightarrow> gc_summary c),
        c_evidence := (case gt of None \<Rightarrow> None | Some c \<Rightarrow> gc_evidence c)\<rparr>"

definition idle_update :: "int \<Rightarrow> frontier_update" where
  "idle_update version = \<lparr>fu_bump = False, fu_decision = None, fu_completedAt = None, fu_step = Preserve_step,
     fu_expected = version, fu_resume = None\<rparr>"

record entry_ids =
  ei_instance :: string
  ei_packet :: string
  ei_job :: string

definition lifecycle_with_entry :: "string \<Rightarrow> lifecycle_binding \<Rightarrow> lifecycle_binding" where
  "lifecycle_with_entry packet l = l\<lparr>lc_binding := spread (Some (lc_binding l)) ''entryQitemId'' (J_string packet)\<rparr>"

definition bind_packet :: "timestamp \<Rightarrow> string \<Rightarrow> string \<Rightarrow> string \<Rightarrow> int \<Rightarrow> int \<Rightarrow> int \<Rightarrow> workflow_db \<Rightarrow> workflow_error + workflow_db" where
  "bind_packet now i packet step drive hops base =
     bindFrontierPacket \<lparr>fb_instance = i, fb_packet = packet, fb_step = step, fb_drive = drive, fb_hops = hops,
       fb_base = base, fb_created = now\<rparr>"

definition arm_keepalive ::
  "workflow_env \<Rightarrow> timestamp \<Rightarrow> string \<Rightarrow> string \<Rightarrow> string \<Rightarrow> string \<Rightarrow> string option \<Rightarrow> workflow_db \<Rightarrow> workflow_error + workflow_db" where
  "arm_keepalive env now job i target actor packet =
     on_queue env (\<lambda>_. ensureWorkflowKeepaliveArmed env now job i target actor packet)"

definition start_instance ::
  "workflow_env \<Rightarrow> timestamp \<Rightarrow> entry_ids \<Rightarrow> instantiate_input \<Rightarrow> workflow_scope option \<Rightarrow> workflow_spec \<Rightarrow> step_spec
     \<Rightarrow> string option \<Rightarrow> string \<Rightarrow> gate_result option \<Rightarrow> workflow_db \<Rightarrow> workflow_error + workflow_db" where
  "start_instance env now ids inp scope spec st rig owner gt s =
     (let packet = ei_packet ids; creator = ii_createdBy inp; addressed = dependencyGraph spec
      in try_bind (create_instance now (ei_instance ids)
             \<lparr>ni_workflow = spec_id spec, ni_version = spec_version spec, ni_createdBy = creator, ni_frontier = [],
              ni_step = Some (step_id st), ni_rig = rig, ni_scope = scope,
              ni_lifecycle = map_option (lifecycle_with_entry packet) (ii_lifecycle inp)\<rparr> s) (\<lambda>(s1, inst).
         try_bind (queue_create env now (entry_create env spec inst st packet creator owner gt) s1) (\<lambda>s2.
         try_bind (if addressed then bind_packet now (inst_id inst) packet (step_id st) 0 0 0 s2 else Inr s2) (\<lambda>s3.
         try_bind (park_on_person env now packet creator None (parked_on gt) s3) (\<lambda>s4.
         try_bind (updateFrontier (inst_id inst) [packet] (if gt \<noteq> None then Inst_waiting else Inst_active)
             (idle_update (inst_version inst)) s4) (\<lambda>s5.
         try_bind (arm_keepalive env now (ei_job ids) (inst_id inst) owner creator (if addressed then Some packet else None) s5)
           (\<lambda>s6. Inr (log_event (Workflow_instantiated (inst_id inst) (spec_id spec) (spec_version spec) creator) s6))))))))"

definition instantiate ::
  "workflow_env \<Rightarrow> timestamp \<Rightarrow> entry_ids \<Rightarrow> instantiate_input \<Rightarrow> workflow_db
     \<Rightarrow> workflow_error + workflow_db \<times> instantiate_result" where
  "instantiate env now ids inp s =
     (let prior = (case ii_lifecycle inp of None \<Rightarrow> None | Some l \<Rightarrow> getByLifecycleOperationKey s (lc_operation l));
          malformed = (case ii_lifecycle inp of None \<Rightarrow> False | Some l \<Rightarrow> lc_operation l = [] \<or> lc_digest l = [])
      in if malformed then Inl Lifecycle_identity_invalid
         else case prior of
             Some x \<Rightarrow> map_sum id (\<lambda>r. (s, r)) (replay_lifecycle env x (lc_digest (the (ii_lifecycle inp))) s)
           | None \<Rightarrow>
               try_bind (instantiate_scope inp) (\<lambda>scope.
               try_bind (instantiate_spec env inp) (\<lambda>raw.
               try_bind (bound_rig env (ii_targetRig inp) raw) (\<lambda>rig.
               let spec = bindSpecToRig raw rig; st = hd (steps spec)
               in try_bind (static_pins env spec rig (ii_entryOwner inp) 0 (steps spec)) (\<lambda>_.
                  if uncovered env spec rig then Inl Bound_rig_role_uncovered
                  else try_bind (entry_owner env spec st (ii_entryOwner inp) rig) (\<lambda>(owner, gt).
                       try_bind (start_instance env now ids inp scope spec st rig owner gt s) (\<lambda>s1.
                         Inr (s1, \<lparr>ir_instance = ei_instance ids, ir_entry = ei_packet ids, ir_owner = owner,
                           ir_replayed = False\<rparr>))))))))"

section \<open>Exceptions that are over\<close>

definition tagged :: "string list \<Rightarrow> queue_item \<Rightarrow> bool" where
  "tagged ts q = (case q_tags q of None \<Rightarrow> False | Some have \<Rightarrow> set ts \<subseteq> set have)"

definition live_tagged :: "string list \<Rightarrow> queue_db \<Rightarrow> queue_item list" where
  "live_tagged ts db = filter (\<lambda>q. q_state q \<in> set ACTIVE_QUEUE_STATES \<and> tagged ts q) (d_items db)"

definition resolve_item ::
  "workflow_env \<Rightarrow> timestamp \<Rightarrow> string \<Rightarrow> string option \<Rightarrow> string \<Rightarrow> string \<Rightarrow> workflow_db \<Rightarrow> workflow_error + workflow_db" where
  "resolve_item env now actor prov why i =
     queue_update env now [] ((packet_update i actor Q_done why prov)\<lparr>u_reason := Some ''no-follow-on''\<rparr>)"

fun resolve_items ::
  "workflow_env \<Rightarrow> timestamp \<Rightarrow> string \<Rightarrow> string option \<Rightarrow> string \<Rightarrow> string list \<Rightarrow> workflow_db \<Rightarrow> workflow_error + workflow_db" where
  "resolve_items env now actor prov why [] s = Inr s"
| "resolve_items env now actor prov why (i # is) s =
     try_bind (resolve_item env now actor prov why i s) (resolve_items env now actor prov why is)"

definition closeFailureExceptions ::
  "workflow_env \<Rightarrow> timestamp \<Rightarrow> string \<Rightarrow> string \<Rightarrow> string \<Rightarrow> string \<Rightarrow> string option \<Rightarrow> string option
     \<Rightarrow> workflow_db \<Rightarrow> workflow_error + workflow_db" where
  "closeFailureExceptions env now i packet step actor prov decided s =
     resolve_items env now actor prov
       (''workflow resume: occurrence resolved by '' @ actor @ '' redriving step '' @ step
         @ (if truthy decided then '' - '' @ the decided else []))
       (map q_id (live_tagged [''workflow-exception'', ''instance:'' @ i, ''occurrence:'' @ packet] (wf_queue s))) s"

text \<open>The value of the one tag with a prefix.\<close>

definition one_tag :: "string \<Rightarrow> string list \<Rightarrow> string option" where
  "one_tag p ts = (case filter (starts_with p) ts of [t] \<Rightarrow> Some (drop (length p) t) | _ \<Rightarrow> None)"

definition deadline_view :: "queue_item \<Rightarrow> deadline_packet" where
  "deadline_view q = \<lparr>dp_qitemId = q_id q, dp_state = state_name (q_state q), dp_destination = q_dest q,
     dp_created = q_created q, dp_claimed = q_claimedAt q, dp_closureRequired = q_closureRequiredAt q\<rparr>"

definition packet_verdict :: "workflow_db \<Rightarrow> workflow_instance \<Rightarrow> queue_item \<Rightarrow> timestamp \<Rightarrow> deadline_verdict" where
  "packet_verdict s x q now =
     evaluateStepDeadline \<lparr>di_instanceId = inst_id x, di_status = inst_status x, di_frontier = [q_id q],
       di_currentStep = (case getFrontierBinding s (inst_id x) (q_id q) of Some b \<Rightarrow> Some (fb_step b) | None \<Rightarrow> inst_step x)\<rparr>
       [Some (deadline_view q)] now"

text \<open>An overdue exception is over when its packet left the frontier, or is on it and on time. A row
  whose tags do not identify its packet stays.\<close>

definition overdue_resolved :: "workflow_db \<Rightarrow> timestamp \<Rightarrow> queue_item \<Rightarrow> (workflow_instance \<times> queue_item \<times> bool) option" where
  "overdue_resolved s now row =
     (let ts = or_default (q_tags row) [] in
      case (one_tag ''instance:'' ts, one_tag ''occurrence:'' ts) of
        (Some i, Some p) \<Rightarrow>
          (if i = [] \<or> p = [] then None
           else case (getInstance s i, getById (wf_queue s) p) of
               (Some x, Some q) \<Rightarrow>
                 (let live = (p \<in> set (inst_frontier x) \<and> (inst_status x = Inst_active \<or> inst_status x = Inst_waiting))
                  in if one_tag ''workflow:'' ts \<noteq> Some (inst_workflow x)
                        \<or> \<not> tagged [''instance:'' @ i, ''workflow:'' @ inst_workflow x] q
                        \<or> live \<and> dv_state (packet_verdict s x q now) \<noteq> Healthy
                     then None else Some (x, q, live))
             | _ \<Rightarrow> None)
      | _ \<Rightarrow> None)"

definition resolved_note :: "workflow_instance \<Rightarrow> queue_item \<Rightarrow> bool \<Rightarrow> string" where
  "resolved_note x q live = ''workflow overdue occurrence resolved: instance '' @ inst_id x @ '', packet '' @ q_id q @ ''; ''
     @ (if live then ''packet is '' @ state_name (q_state q) @ '' and no longer overdue''
        else ''packet is no longer an active frontier obligation'')"

fun reconcile_rows ::
  "workflow_env \<Rightarrow> timestamp \<Rightarrow> queue_item list \<Rightarrow> nat \<Rightarrow> workflow_db \<Rightarrow> workflow_error + workflow_db \<times> nat" where
  "reconcile_rows env now [] closed s = Inr (s, closed)"
| "reconcile_rows env now (row # rows) closed s =
     (case overdue_resolved s now row of
        None \<Rightarrow> reconcile_rows env now rows closed s
      | Some (x, q, live) \<Rightarrow>
          try_bind (resolve_item env now (inst_createdBy x) None (resolved_note x q live) (q_id row) s)
            (reconcile_rows env now rows (Suc closed)))"

definition reconcileStuckExceptions ::
  "workflow_env \<Rightarrow> timestamp \<Rightarrow> string option \<Rightarrow> workflow_db \<Rightarrow> workflow_error + workflow_db \<times> nat" where
  "reconcileStuckExceptions env now only s =
     reconcile_rows env now
       (live_tagged ([''workflow-exception'', ''exception:stuck_overdue''] @
          (case only of None \<Rightarrow> [] | Some i \<Rightarrow> [''instance:'' @ i])) (wf_queue s)) 0 s"

text \<open>\<open>project\<close> of the runtime: the projection commits, then the reconciliation runs in its own
  transaction; when that one fails the caller gets its error and the projection stays.\<close>

definition runtime_project ::
  "workflow_env \<Rightarrow> timestamp \<Rightarrow> fresh_ids \<Rightarrow> project_input \<Rightarrow> workflow_db
     \<Rightarrow> workflow_db \<times> (workflow_error + project_result)" where
  "runtime_project env now ids inp s =
     (case project env now ids inp s of
        Inl e \<Rightarrow> (s, Inl e)
      | Inr (s1, r) \<Rightarrow>
          (case reconcileStuckExceptions env now (Some (pi_instance inp)) s1 of
             Inl e \<Rightarrow> (s1, Inl e) | Inr (s2, _) \<Rightarrow> (s2, Inr r)))"

section \<open>Abort\<close>

record abort_input =
  ai_instance :: string
  ai_reason :: string
  ai_actor :: string
  ai_provenance :: "string option"

definition bound_step :: "frontier_binding list \<Rightarrow> workflow_instance \<Rightarrow> string \<Rightarrow> string option" where
  "bound_step bs x packet =
     (case find (\<lambda>b. fb_packet b = packet) bs of
        Some b \<Rightarrow> Some (fb_step b)
      | None \<Rightarrow> if length (inst_frontier x) = 1 then inst_step x else None)"

definition abort_packet ::
  "workflow_env \<Rightarrow> timestamp \<Rightarrow> abort_input \<Rightarrow> workflow_instance \<Rightarrow> workflow_spec option \<Rightarrow> frontier_binding list \<Rightarrow> string
     \<Rightarrow> workflow_db \<Rightarrow> workflow_error + workflow_db" where
  "abort_packet env now inp x spec bs packet s =
     (if getById (wf_queue s) packet = None then Inl Packet_not_found
      else if \<not> truthy (bound_step bs x packet) then Inl Binding_indeterminate
      else let step = the (bound_step bs x packet)
        in try_bind (queue_update env now [] ((packet_update packet (ai_actor inp) Q_canceled
               (''workflow abort by '' @ ai_actor inp @ '': '' @ ai_reason inp) (ai_provenance inp))\<lparr>u_workflow := True\<rparr>) s) (\<lambda>s1.
             Inr (removeFrontierBinding (inst_id x) packet (record_trail \<lparr>tr_instance = inst_id x, tr_step = step,
               tr_role = (case Option.bind spec (\<lambda>sp. find_step sp step) of Some st \<Rightarrow> actor_role st | None \<Rightarrow> ''unknown''),
               tr_closedAt = now, tr_exit = Exit_failed,
               tr_evidence = Some [(''abort'', J_object [(''reason'', J_string (ai_reason inp)),
                  (''actorSession'', J_string (ai_actor inp))])],
               tr_actor = ai_actor inp, tr_next = None, tr_prior = packet\<rparr> s1))))"

fun abort_packets ::
  "workflow_env \<Rightarrow> timestamp \<Rightarrow> abort_input \<Rightarrow> workflow_instance \<Rightarrow> workflow_spec option \<Rightarrow> frontier_binding list \<Rightarrow> string list
     \<Rightarrow> workflow_db \<Rightarrow> workflow_error + workflow_db" where
  "abort_packets env now inp x spec bs [] s = Inr s"
| "abort_packets env now inp x spec bs (p # ps) s =
     try_bind (abort_packet env now inp x spec bs p s) (abort_packets env now inp x spec bs ps)"

definition abort :: "workflow_env \<Rightarrow> timestamp \<Rightarrow> abort_input \<Rightarrow> workflow_db \<Rightarrow> workflow_error + workflow_db" where
  "abort env now inp s =
     (if trim (ai_reason inp) = [] then Inl Abort_reason_required
      else try_bind (getInstanceOrThrow s (ai_instance inp)) (\<lambda>x.
        if inst_status x = Inst_completed \<or> inst_status x = Inst_aborted then Inl Instance_not_abortable
        else try_bind (abort_packets env now inp x (getForInstance env x) (listFrontierBindings s (inst_id x)) (inst_frontier x) s) (\<lambda>s1.
             try_bind (updateFrontier (inst_id x) [] Inst_aborted
               ((idle_update (inst_version x))\<lparr>fu_step := Clear_step, fu_completedAt := Some now,
                  fu_decision := Some (Decided_abort (ai_actor inp) (ai_reason inp) (inst_frontier x))\<rparr>) s1) (\<lambda>s2.
               Inr (log_event (Workflow_failed (inst_id x) (inst_workflow x) (''aborted: '' @ ai_reason inp))
                 (s2\<lparr>wf_queue := disarmAllWorkflowKeepalives env (inst_id x) (''workflow_aborted: '' @ ai_reason inp) (wf_queue s2)\<rparr>))))))"

section \<open>Resume\<close>

record resume_input =
  ri_instance :: string
  ri_occurrence :: "string option"
  ri_decision :: "string option"
  ri_actor :: string
  ri_provenance :: "string option"

record resume_ids =
  rd_packet :: string
  rd_job :: string

record resume_result =
  rr_step :: string
  rr_packet :: string
  rr_owner :: string
  rr_count :: int
  rr_absorbed :: bool

definition redrive_create ::
  "workflow_env \<Rightarrow> workflow_instance \<Rightarrow> step_spec \<Rightarrow> resume_input \<Rightarrow> string \<Rightarrow> string \<Rightarrow> string list \<Rightarrow> string list option \<Rightarrow> create_input" where
  "redrive_create env x st inp packet owner extra failed =
     (packet_create packet (ri_actor inp) owner (v_resumeText env x st packet (ri_decision inp) owner)
       ([''workflow'', ''resume'', ''workflow:'' @ inst_workflow x, ''instance:'' @ inst_id x] @ extra
          @ packetScopeTags (inst_scope x) (Some (step_id st))) (ri_provenance inp))\<lparr>c_chain := failed\<rparr>"

definition dec_failed :: "decision option \<Rightarrow> (string \<times> string) option" where
  "dec_failed d = (case d of
     Some (Decided _ _ closed _ _ _ step _) \<Rightarrow> Some (step, closed)
   | Some (Decided_graph _ _ closed step _) \<Rightarrow> Some (step, closed)
   | _ \<Rightarrow> None)"

definition resume_owner :: "workflow_env \<Rightarrow> workflow_spec \<Rightarrow> workflow_instance \<Rightarrow> step_spec \<Rightarrow> workflow_error + string" where
  "resume_owner env spec x st = owner_or Next_owner_unresolved (resolveDefaultOwner env spec st (role_context (inst_rig x)))"

definition resume_event :: "workflow_instance \<Rightarrow> string \<Rightarrow> string option \<Rightarrow> resume_input \<Rightarrow> rig_event" where
  "resume_event x step occ inp =
     Workflow_resumed (inst_id x) (inst_workflow x) step occ (ri_actor inp) (ri_decision inp) (inst_resumes x + 1)"

text \<open>The serial resume: the whole instance from its recorded failure.\<close>

definition resume_serial ::
  "workflow_env \<Rightarrow> timestamp \<Rightarrow> resume_ids \<Rightarrow> resume_input \<Rightarrow> workflow_db \<Rightarrow> workflow_error + workflow_db \<times> resume_result" where
  "resume_serial env now ids inp s =
     try_bind (getInstanceOrThrow s (ri_instance inp)) (\<lambda>x.
       if inst_status x \<noteq> Inst_failed then Inl Instance_not_failed
       else case getForInstance env x of
           None \<Rightarrow> Inl Spec_not_cached
         | Some spec \<Rightarrow>
             (case dec_failed (inst_decision x) of
                None \<Rightarrow> Inl Resume_step_unrecoverable
              | Some (failedStep, failed) \<Rightarrow>
                  if failedStep = [] then Inl Resume_step_unrecoverable
                  else case find_step spec failedStep of
                      None \<Rightarrow> Inl Resume_step_missing
                    | Some st \<Rightarrow>
                        try_bind (resume_owner env spec x st) (\<lambda>owner.
                        try_bind (create_woken env now (redrive_create env x st inp (rd_packet ids) owner []
                            (if failed = [] then None else Some [failed])) s) (\<lambda>s1.
                        try_bind (if failed = [] then Inr s1
                                  else closeFailureExceptions env now (inst_id x) failed (step_id st) (ri_actor inp)
                                         (ri_provenance inp) (ri_decision inp) s1) (\<lambda>s2.
                        try_bind (updateFrontier (inst_id x) [rd_packet ids] Inst_active
                            ((idle_update (inst_version x))\<lparr>fu_step := Set_step (step_id st),
                               fu_resume := Some (inst_resumes x + 1, inst_hops x)\<rparr>) s2) (\<lambda>s3.
                        try_bind (arm_keepalive env now (rd_job ids) (inst_id x) owner (ri_actor inp) None s3) (\<lambda>s4.
                          Inr (log_event (resume_event x (step_id st) None inp) s4,
                            \<lparr>rr_step = step_id st, rr_packet = rd_packet ids, rr_owner = owner, rr_count = inst_resumes x + 1,
                             rr_absorbed = False\<rparr>))))))))"

text \<open>The resume of one failed branch. Which occurrence: the named one, or the only one unresolved; a
  resolved one replays when the decision is the same.\<close>

definition select_occurrence ::
  "resume_input \<Rightarrow> failure_occurrence list \<Rightarrow> workflow_error + failure_occurrence" where
  "select_occurrence inp occs =
     (if truthy (ri_occurrence inp)
      then (case find (\<lambda>oc. Some (fo_id oc) = ri_occurrence inp) occs of
              None \<Rightarrow> Inl Failure_not_unresolved
            | Some oc \<Rightarrow> if fo_resolved oc then Inl Failure_not_unresolved else Inr oc)
      else (case filter (\<lambda>oc. \<not> fo_resolved oc) occs of [oc] \<Rightarrow> Inr oc | _ \<Rightarrow> Inl Occurrence_required))"

definition resumed_occurrence :: "resume_input \<Rightarrow> failure_occurrence list \<Rightarrow> failure_occurrence option" where
  "resumed_occurrence inp occs =
     (if truthy (ri_occurrence inp)
      then (case find (\<lambda>oc. Some (fo_id oc) = ri_occurrence inp) occs of
              Some oc \<Rightarrow> if fo_resolved oc \<and> truthy (fo_redrive oc) then Some oc else None
            | None \<Rightarrow> None)
      else None)"

definition replay_resume ::
  "resume_input \<Rightarrow> failure_occurrence \<Rightarrow> workflow_db \<Rightarrow> workflow_error + workflow_db \<times> resume_result" where
  "replay_resume inp oc s =
     (if fo_decision oc \<noteq> ri_decision inp then Inl Occurrence_replay_conflict
      else case getById (wf_queue s) (the (fo_redrive oc)) of
          None \<Rightarrow> Inl Occurrence_replay_indeterminate
        | Some q \<Rightarrow> try_bind (getInstanceOrThrow s (ri_instance inp)) (\<lambda>x.
            Inr (s, \<lparr>rr_step = fo_step oc, rr_packet = the (fo_redrive oc), rr_owner = q_dest q,
                     rr_count = inst_resumes x, rr_absorbed = True\<rparr>)))"

definition redrive ::
  "workflow_env \<Rightarrow> timestamp \<Rightarrow> resume_ids \<Rightarrow> resume_input \<Rightarrow> failure_occurrence \<Rightarrow> workflow_db
     \<Rightarrow> workflow_error + workflow_db \<times> resume_result" where
  "redrive env now ids inp oc s =
     try_bind (getInstanceOrThrow s (ri_instance inp)) (\<lambda>x.
       if inst_status x = Inst_completed \<or> inst_status x = Inst_aborted then Inl Instance_not_resumable
       else case getForInstance env x of
           None \<Rightarrow> Inl Spec_not_cached
         | Some spec \<Rightarrow>
             (case find_step spec (fo_step oc) of
                None \<Rightarrow> Inl Resume_step_missing
              | Some st \<Rightarrow>
                  try_bind (resume_owner env spec x st) (\<lambda>owner.
                  try_bind (create_woken env now (redrive_create env x st inp (rd_packet ids) owner
                      [''occurrence:'' @ fo_id oc] (Some [fo_packet oc])) s) (\<lambda>s1.
                  try_bind (bind_packet now (inst_id x) (rd_packet ids) (fo_step oc) (fo_drive oc + 1) (fo_hops oc) (fo_hops oc) s1) (\<lambda>s2.
                  try_bind (resolveFailureOccurrence now (inst_id x) (fo_id oc) (rd_packet ids) (ri_decision inp) s2) (\<lambda>s3.
                  try_bind (closeFailureExceptions env now (inst_id x) (fo_packet oc) (step_id st) (ri_actor inp)
                      (ri_provenance inp) (ri_decision inp) s3) (\<lambda>s4.
                  try_bind (updateFrontier (inst_id x) (inst_frontier x @ [rd_packet ids]) Inst_active
                      ((idle_update (inst_version x))\<lparr>fu_step := singleton_step s4 (inst_id x),
                         fu_resume := Some (inst_resumes x + 1, inst_hops x),
                         fu_decision := Some (Decided_resume (fo_id oc) (rd_packet ids) (ri_actor inp) (ri_decision inp))\<rparr>) s4) (\<lambda>s5.
                  try_bind (arm_keepalive env now (rd_job ids) (inst_id x) owner (ri_actor inp) (Some (rd_packet ids)) s5) (\<lambda>s6.
                    Inr (log_event (resume_event x (step_id st) (Some (fo_id oc)) inp) s6,
                      \<lparr>rr_step = step_id st, rr_packet = rd_packet ids, rr_owner = owner, rr_count = inst_resumes x + 1,
                       rr_absorbed = False\<rparr>))))))))))"

definition resumeFailureOccurrence ::
  "workflow_env \<Rightarrow> timestamp \<Rightarrow> resume_ids \<Rightarrow> resume_input \<Rightarrow> workflow_db \<Rightarrow> workflow_error + workflow_db \<times> resume_result" where
  "resumeFailureOccurrence env now ids inp s =
     (let occs = listFailureOccurrences s (ri_instance inp) None
      in case resumed_occurrence inp occs of
           Some oc \<Rightarrow> replay_resume inp oc s
         | None \<Rightarrow> try_bind (select_occurrence inp occs) (\<lambda>oc. redrive env now ids inp oc s))"

definition resume ::
  "workflow_env \<Rightarrow> timestamp \<Rightarrow> resume_ids \<Rightarrow> resume_input \<Rightarrow> workflow_db \<Rightarrow> workflow_error + workflow_db \<times> resume_result" where
  "resume env now ids inp s =
     (if truthy (ri_occurrence inp) \<or> listFailureOccurrences s (ri_instance inp) None \<noteq> []
      then resumeFailureOccurrence env now ids inp s else resume_serial env now ids inp s)"

section \<open>Route\<close>

record route_input =
  rt_instance :: string
  rt_packet :: "string option"
  rt_to :: string
  rt_actor :: string
  rt_provenance :: "string option"
  rt_reason :: "string option"

record route_ids =
  ro_packet :: string
  ro_park_job :: string
  ro_job :: string

definition routed_packet :: "route_input \<Rightarrow> workflow_instance \<Rightarrow> workflow_error + string" where
  "routed_packet inp x =
     try_bind (if truthy (rt_packet inp) then Inr (the (rt_packet inp))
               else (case inst_frontier x of
                       [] \<Rightarrow> Inl Packet_not_found
                     | [p] \<Rightarrow> if p = [] then Inl Packet_not_found else Inr p
                     | _ \<Rightarrow> Inl Frontier_packet_required))
       (\<lambda>p. if p \<notin> set (inst_frontier x) then Inl Packet_not_on_frontier else Inr p)"

definition route_create :: "workflow_env \<Rightarrow> workflow_instance \<Rightarrow> route_input \<Rightarrow> queue_item \<Rightarrow> string \<Rightarrow> create_input" where
  "route_create env x inp old packet =
     (packet_create packet (rt_actor inp) (rt_to inp) (v_routeText env x old packet)
        (add_new (or_default (q_tags old) [] @ [''workflow'', ''re-route'', ''workflow:'' @ inst_workflow x,
           ''instance:'' @ inst_id x]) []) (rt_provenance inp))
       \<lparr>c_priority := Some (q_priority old), c_tier := Some (or_default (q_tier old) ''mode2''),
        c_chain := Some [q_id old], c_summary := q_summary old, c_evidence := q_evidence old,
        c_targetRepo := q_targetRepo old,
        c_alert := (if tagged [HUMAN_ALERT_TAG] old \<and> isPersonAddress (v_queue env) (rt_to inp)
                    then Some (J_bool True) else None)\<rparr>"

definition repark ::
  "workflow_env \<Rightarrow> timestamp \<Rightarrow> route_ids \<Rightarrow> route_input \<Rightarrow> workflow_instance \<Rightarrow> step_spec option \<Rightarrow> queue_item
     \<Rightarrow> workflow_db \<Rightarrow> workflow_error + workflow_db" where
  "repark env now ids inp x st old s =
     (if \<not> (q_state old = Q_blocked \<and> truthy (q_blockedOn old)) then Inr s
      else let blocker = the (q_blockedOn old); after = Option.bind st re_present_after
        in queue_update env now (ro_park_job ids)
          ((packet_update (ro_packet ids) (rt_actor inp) Q_blocked (''workflow route: park preserved ('' @ blocker @ '')'')
              (rt_provenance inp))
            \<lparr>u_reason := Some ''blocked_on'', u_target := Some blocker, u_blockedOn := Some blocker,
             u_wakeAfter := map_option Seconds after, u_wakeMax := map_option Seconds (Option.bind st re_present_max),
             u_wakeMessage := (if after \<noteq> None then Some (v_waitText env x (the st) (ro_packet ids)) else None)\<rparr>) s)"

definition rebind :: "timestamp \<Rightarrow> workflow_instance \<Rightarrow> string \<Rightarrow> string \<Rightarrow> frontier_binding option \<Rightarrow> workflow_db \<Rightarrow> workflow_error + workflow_db" where
  "rebind now x old packet binding s =
     (case binding of
        None \<Rightarrow> Inr s
      | Some b \<Rightarrow> bind_packet now (inst_id x) packet (fb_step b) (fb_drive b) (fb_hops b) (fb_base b)
                  (removeFrontierBinding (inst_id x) old s))"

definition route_step :: "workflow_db \<Rightarrow> string \<Rightarrow> step_update" where
  "route_step s i = (case listFrontierBindings s i of [] \<Rightarrow> Preserve_step | [b] \<Rightarrow> Set_step (fb_step b) | _ \<Rightarrow> Clear_step)"

definition route_keepalive ::
  "workflow_env \<Rightarrow> timestamp \<Rightarrow> route_ids \<Rightarrow> route_input \<Rightarrow> string \<Rightarrow> string \<Rightarrow> bool \<Rightarrow> queue_env \<Rightarrow> queue_db \<Rightarrow> queue_error + queue_db" where
  "route_keepalive env now ids inp i old addressed e db =
     ensureWorkflowKeepaliveArmed env now (ro_job ids) i (rt_to inp) (rt_actor inp)
       (if addressed then Some (ro_packet ids) else None)
       (disarmWorkflowKeepalive env i (''workflow route: re-targeted to '' @ rt_to inp) (if addressed then Some old else None) db)"

definition route_close :: "workflow_env \<Rightarrow> timestamp \<Rightarrow> route_input \<Rightarrow> string option \<Rightarrow> queue_item \<Rightarrow> workflow_db \<Rightarrow> workflow_error + workflow_db" where
  "route_close env now inp step old =
     queue_update env now [] ((packet_update (q_id old) (rt_actor inp) Q_handed_off
         (''workflow route: '' @ rt_actor inp @ '' re-routed step '' @ or_default step ''?'' @ '' from '' @ q_dest old @ '' to ''
            @ rt_to inp @ (if truthy (rt_reason inp) then '' - '' @ the (rt_reason inp) else [])) (rt_provenance inp))
       \<lparr>u_workflow := True, u_reason := Some ''handed_off_to'', u_target := Some (rt_to inp), u_handedOffTo := Some (rt_to inp)\<rparr>)"

definition route ::
  "workflow_env \<Rightarrow> timestamp \<Rightarrow> route_ids \<Rightarrow> route_input \<Rightarrow> workflow_db \<Rightarrow> workflow_error + workflow_db \<times> string" where
  "route env now ids inp s =
     try_bind (getInstanceOrThrow s (rt_instance inp)) (\<lambda>x.
       if inst_status x \<noteq> Inst_active \<and> inst_status x \<noteq> Inst_waiting then Inl Instance_not_active
       else try_bind (routed_packet inp x) (\<lambda>p.
         case getById (wf_queue s) p of
           None \<Rightarrow> Inl Packet_not_found
         | Some old \<Rightarrow>
             (let binding = getFrontierBinding s (inst_id x) p;
                  step = (case binding of Some b \<Rightarrow> Some (fb_step b)
                          | None \<Rightarrow> if length (inst_frontier x) = 1 then inst_step x else None);
                  spec = getForInstance env x;
                  st = (if truthy step then Option.bind spec (\<lambda>sp. find_step sp (the step)) else None)
              in try_bind (case st of None \<Rightarrow> Inr () | Some t \<Rightarrow> reconcileExplicitOwnerHarness env t (rt_to inp)) (\<lambda>_.
                 try_bind (route_close env now inp step old s) (\<lambda>s1.
                 try_bind (create_woken env now (route_create env x inp old (ro_packet ids)) s1) (\<lambda>s2.
                 try_bind (repark env now ids inp x st old s2) (\<lambda>s3.
                 try_bind (rebind now x p (ro_packet ids) binding s3) (\<lambda>s4.
                 try_bind (updateFrontier (inst_id x) (map (\<lambda>i. if i = p then ro_packet ids else i) (inst_frontier x)) (inst_status x)
                     ((idle_update (inst_version x))\<lparr>fu_step := route_step s4 (inst_id x)\<rparr>) s4) (\<lambda>s5.
                 try_bind (on_queue env (route_keepalive env now ids inp (inst_id x) p (binding \<noteq> None)) s5) (\<lambda>s6.
                 try_bind (assert_woken env p (ro_packet ids)
                     (log_event (Routing_table_changed (or_default (nullish (inst_rig x) (Option.bind spec target_rig)) [])
                        (inst_id x) step (q_dest old) (rt_to inp)) s6)) (\<lambda>s7.
                   Inr (s7, ro_packet ids))))))))))))"

end
