(* ===== verification/Workflow_Flow.thy ===== *)
theory Workflow_Flow
  imports Workflow_Validator Workflow_Deadline
begin

text \<open>
  What the workflow engine promises, as an abstract machine over packets: a run has a frontier of live
  packets, a verb may only close one, replace one or put a new one there, and every close is an entry of
  an append-only trail. The machine keeps no queue rows (only which packet ids exist), no texts, no
  clock. \<open>Workflow_Refines\<close> proves that the engine of \<open>workflow-projector.ts\<close> and
  \<open>workflow-runtime.ts\<close> takes only these steps; here are the invariants of the machine itself.
\<close>

section \<open>State\<close>

record run =
  rn_spec :: "string \<times> string"
  rn_status :: instance_status
  rn_frontier :: "string list"
  rn_step :: "string option"
  rn_failed :: "(string \<times> string) option"
  rn_hops :: int
  rn_base :: int
  rn_resumes :: int

record bound =
  bd_step :: string
  bd_hops :: int
  bd_base :: int

record occurrence =
  oc_run :: string
  oc_step :: string
  oc_resolved :: bool

record closing_entry =
  en_run :: string
  en_step :: string
  en_exit :: workflow_exit
  en_packet :: string

record flow =
  fl_rows :: "string set"
  fl_runs :: "string \<Rightarrow> run option"
  fl_binds :: "string \<Rightarrow> string \<Rightarrow> bound option"
  fl_fails :: "string \<Rightarrow> occurrence option"
  fl_trail :: "closing_entry list"

definition empty_flow :: flow where
  "empty_flow = \<lparr>fl_rows = {}, fl_runs = Map.empty, fl_binds = (\<lambda>_ _. None), fl_fails = Map.empty, fl_trail = []\<rparr>"

definition live :: "instance_status \<Rightarrow> bool" where
  "live st \<longleftrightarrow> st = Inst_active \<or> st = Inst_waiting"

lemma live_simps [simp]:
  "live Inst_active" "live Inst_waiting" "\<not> live Inst_completed" "\<not> live Inst_failed" "\<not> live Inst_aborted"
  by (simp_all add: live_def)

section \<open>Steps\<close>

text \<open>New packets: ids no row has yet.\<close>

definition fresh :: "string set \<Rightarrow> string set \<Rightarrow> string list \<Rightarrow> bool" where
  "fresh R R' ns \<longleftrightarrow> R \<subseteq> R' \<and> distinct ns \<and> set ns \<subseteq> R' - R"

lemma freshD: "fresh R R' ns \<Longrightarrow> R \<subseteq> R' \<and> distinct ns \<and> set ns \<subseteq> R' \<and> set ns \<inter> R = {}"
  by (auto simp: fresh_def)

definition current_step :: "workflow_spec \<Rightarrow> string option \<Rightarrow> step_spec option" where
  "current_step spec i = (if truthy i then find_step spec (the i) else at (steps spec) 0)"

text \<open>The step a packet works on: its binding's, else the run's when the packet is alone.\<close>

definition packet_step :: "workflow_spec \<Rightarrow> run \<Rightarrow> bound option \<Rightarrow> step_spec option" where
  "packet_step spec x b =
     (case b of Some v \<Rightarrow> find_step spec (bd_step v)
      | None \<Rightarrow> if length (rn_frontier x) = 1 then current_step spec (rn_step x) else None)"

definition without :: "string \<Rightarrow> string list \<Rightarrow> string list" where
  "without p ps = filter (\<lambda>i. i \<noteq> p) ps"

definition entry_of :: "string \<Rightarrow> step_spec \<Rightarrow> workflow_exit \<Rightarrow> string \<Rightarrow> closing_entry" where
  "entry_of i st x p = \<lparr>en_run = i, en_step = step_id st, en_exit = x, en_packet = p\<rparr>"

lemma entry_of_simps [simp]:
  "en_run (entry_of i st x p) = i" "en_step (entry_of i st x p) = step_id st"
  "en_exit (entry_of i st x p) = x" "en_packet (entry_of i st x p) = p"
  by (simp_all add: entry_of_def)

definition serial_run :: "string \<Rightarrow> workflow_exit \<Rightarrow> step_spec \<Rightarrow> (string \<times> step_spec) option \<Rightarrow> instance_status \<Rightarrow> run \<Rightarrow> run" where
  "serial_run p x st nxt s x' =
     (let rest = without p (rn_frontier x')
      in x'\<lparr>rn_frontier := rest @ (case nxt of Some (n, _) \<Rightarrow> [n] | None \<Rightarrow> if x = Exit_waiting then [p] else []),
            rn_status := (if nxt \<noteq> None then s
                          else if x = Exit_waiting then Inst_waiting
                          else if x = Exit_failed then Inst_failed
                          else if rest = [] then Inst_completed else Inst_active),
            rn_step := (case nxt of Some (_, t) \<Rightarrow> Some (step_id t)
                        | None \<Rightarrow> if x = Exit_waiting then rn_step x' else None),
            rn_failed := Some (step_id st, p), rn_hops := rn_hops x' + (if nxt = None then 0 else 1)\<rparr>)"

definition bind_all :: "string \<Rightarrow> bound \<Rightarrow> (string \<times> step_spec) list \<Rightarrow> (string \<Rightarrow> string \<Rightarrow> bound option)
     \<Rightarrow> string \<Rightarrow> string \<Rightarrow> bound option" where
  "bind_all i b ns B = B(i := (\<lambda>q. case map_of ns q of
       Some t \<Rightarrow> Some \<lparr>bd_step = step_id t, bd_hops = bd_hops b + 1, bd_base = bd_base b\<rparr> | None \<Rightarrow> B i q))"

definition unbind :: "string \<Rightarrow> string \<Rightarrow> (string \<Rightarrow> string \<Rightarrow> bound option) \<Rightarrow> string \<Rightarrow> string \<Rightarrow> bound option" where
  "unbind i p B = B(i := (B i)(p := None))"

text \<open>A step of a dependency graph may start: the exit maps to it, or every prerequisite, the step just
  completed among them, has a completion on the trail.\<close>

definition may_start :: "workflow_spec \<Rightarrow> string \<Rightarrow> closing_entry list \<Rightarrow> step_spec \<Rightarrow> workflow_exit \<Rightarrow> step_spec \<Rightarrow> bool" where
  "may_start spec i trail st x t \<longleftrightarrow>
     (\<exists>y. branch_target st x = Some y \<and> find_step spec y = Some t) \<or>
     t \<in> set (steps spec) \<and> dependencies t \<noteq> [] \<and>
       (\<forall>d \<in> set (dependencies t). \<exists>e \<in> set trail. en_run e = i \<and> en_step e = d \<and> completes (en_exit e))"

definition open_failure :: "(string \<Rightarrow> occurrence option) \<Rightarrow> string \<Rightarrow> bool" where
  "open_failure F i \<longleftrightarrow> (\<exists>k oc. F k = Some oc \<and> oc_run oc = i \<and> \<not> oc_resolved oc)"

definition abort_entries :: "string \<Rightarrow> (string \<Rightarrow> string) \<Rightarrow> string list \<Rightarrow> closing_entry list" where
  "abort_entries i g ps = map (\<lambda>p. \<lparr>en_run = i, en_step = g p, en_exit = Exit_failed, en_packet = p\<rparr>) ps"

text \<open>A step concerns one run.\<close>

inductive flow_step :: "(string \<times> string \<Rightarrow> workflow_spec option) \<Rightarrow> string \<Rightarrow> flow \<Rightarrow> flow \<Rightarrow> bool" for C where
  grow: "fl_rows f \<subseteq> R \<Longrightarrow> flow_step C i f (f\<lparr>fl_rows := R\<rparr>)"
| start: "\<lbrakk>fl_runs f i = None; fresh (fl_rows f) R [p]; C k = Some spec; steps spec \<noteq> []; \<forall>st \<in> set (steps spec). step_id st \<noteq> []; live s\<rbrakk> \<Longrightarrow>
    flow_step C i f (f\<lparr>fl_rows := R, fl_runs := (fl_runs f)(i \<mapsto> \<lparr>rn_spec = k, rn_status = s, rn_frontier = [p],
        rn_step = Some (step_id (hd (steps spec))), rn_failed = None, rn_hops = 0, rn_base = 0, rn_resumes = 0\<rparr>),
      fl_binds := (if dependencyGraph spec
        then (fl_binds f)(i := (fl_binds f i)(p \<mapsto> \<lparr>bd_step = step_id (hd (steps spec)), bd_hops = 0, bd_base = 0\<rparr>))
        else fl_binds f)\<rparr>)"
| serial: "\<lbrakk>fl_runs f i = Some x; live (rn_status x); p \<in> set (rn_frontier x); C (rn_spec x) = Some spec;
    \<not> dependencyGraph spec; packet_step spec x (fl_binds f i p) = Some st;
    fresh (fl_rows f) R (case nxt of None \<Rightarrow> [] | Some (n, _) \<Rightarrow> [n]);
    \<forall>n t. nxt = Some (n, t) \<longrightarrow> resolveNextStep spec st (Some ex) = Some t \<and>
      \<not> exceedsMaxHops (rn_hops x) (rn_base x) (spec_max_hops spec);
    nxt = None \<longrightarrow> ex \<noteq> Exit_handoff; live s\<rbrakk> \<Longrightarrow>
    flow_step C i f (f\<lparr>fl_rows := R, fl_runs := (fl_runs f)(i \<mapsto> serial_run p ex st nxt s x),
      fl_trail := fl_trail f @ [entry_of i st ex p]\<rparr>)"
| graph: "\<lbrakk>fl_runs f i = Some x; live (rn_status x); p \<in> set (rn_frontier x); C (rn_spec x) = Some spec;
    dependencyGraph spec; fl_binds f i p = Some b; find_step spec (bd_step b) = Some st;
    fresh (fl_rows f) R (map fst ns);
    \<forall>(n, t) \<in> set ns. may_start spec i (fl_trail f @ [entry_of i st ex p]) st ex t;
    ns \<noteq> [] \<longrightarrow> \<not> exceedsMaxHops (bd_hops b) (bd_base b) (spec_max_hops spec);
    F = fl_fails f \<or> fl_fails f p = None \<and> F = (fl_fails f)(p \<mapsto> \<lparr>oc_run = i, oc_step = step_id st, oc_resolved = False\<rparr>);
    fr = without p (rn_frontier x) @ (if ex = Exit_waiting then [p] else map fst ns);
    if fr = [] then s = (if open_failure F i then Inst_failed else Inst_completed) else live s\<rbrakk> \<Longrightarrow>
    flow_step C i f (f\<lparr>fl_rows := R,
      fl_runs := (fl_runs f)(i \<mapsto> x\<lparr>rn_status := s, rn_frontier := fr, rn_step := z,
        rn_failed := Some (step_id st, p), rn_hops := rn_hops x + (if ns = [] then 0 else 1)\<rparr>),
      fl_binds := bind_all i b ns (if ex = Exit_waiting then fl_binds f else unbind i p (fl_binds f)),
      fl_fails := F, fl_trail := fl_trail f @ [entry_of i st ex p]\<rparr>)"
| route: "\<lbrakk>fl_runs f i = Some x; live (rn_status x); p \<in> set (rn_frontier x); fresh (fl_rows f) R [n];
    B = (case fl_binds f i p of None \<Rightarrow> fl_binds f
         | Some b \<Rightarrow> (unbind i p (fl_binds f))(i := (unbind i p (fl_binds f) i)(n \<mapsto> b)));
    (\<forall>q. B i q = None) \<longrightarrow> z = rn_step x\<rbrakk> \<Longrightarrow>
    flow_step C i f (f\<lparr>fl_rows := R,
      fl_runs := (fl_runs f)(i \<mapsto> x\<lparr>rn_frontier := map (\<lambda>q. if q = p then n else q) (rn_frontier x), rn_step := z\<rparr>),
      fl_binds := B\<rparr>)"
| resume: "\<lbrakk>fl_runs f i = Some x; rn_status x = Inst_failed; C (rn_spec x) = Some spec; rn_failed x = Some (a, q);
    a \<noteq> []; find_step spec a = Some st; \<forall>k oc. fl_fails f k = Some oc \<longrightarrow> oc_run oc \<noteq> i; fresh (fl_rows f) R [n]\<rbrakk> \<Longrightarrow>
    flow_step C i f (f\<lparr>fl_rows := R,
      fl_runs := (fl_runs f)(i \<mapsto> x\<lparr>rn_status := Inst_active, rn_frontier := [n], rn_step := Some (step_id st),
        rn_base := rn_hops x, rn_resumes := rn_resumes x + 1\<rparr>)\<rparr>)"
| redrive: "\<lbrakk>fl_runs f i = Some x; rn_status x \<noteq> Inst_completed; rn_status x \<noteq> Inst_aborted;
    fl_fails f k = Some oc; oc_run oc = i; \<not> oc_resolved oc; fresh (fl_rows f) R [n]\<rbrakk> \<Longrightarrow>
    flow_step C i f (f\<lparr>fl_rows := R,
      fl_runs := (fl_runs f)(i \<mapsto> x\<lparr>rn_status := Inst_active, rn_frontier := rn_frontier x @ [n], rn_step := z,
        rn_failed := None, rn_base := rn_hops x, rn_resumes := rn_resumes x + 1\<rparr>),
      fl_binds := (fl_binds f)(i := (fl_binds f i)(n \<mapsto> \<lparr>bd_step = oc_step oc, bd_hops = h, bd_base = h\<rparr>)),
      fl_fails := (fl_fails f)(k \<mapsto> oc\<lparr>oc_resolved := True\<rparr>)\<rparr>)"
| abort: "\<lbrakk>fl_runs f i = Some x; rn_status x \<noteq> Inst_completed; rn_status x \<noteq> Inst_aborted; fl_rows f \<subseteq> R;
    \<forall>p \<in> set (rn_frontier x). case fl_binds f i p of Some b \<Rightarrow> g p = bd_step b | None \<Rightarrow> rn_step x = Some (g p)\<rbrakk> \<Longrightarrow>
    flow_step C i f (f\<lparr>fl_rows := R,
      fl_runs := (fl_runs f)(i \<mapsto> x\<lparr>rn_status := Inst_aborted, rn_frontier := [], rn_step := None, rn_failed := None\<rparr>),
      fl_binds := (fl_binds f)(i := (\<lambda>q. if q \<in> set (rn_frontier x) then None else fl_binds f i q)),
      fl_trail := fl_trail f @ abort_entries i g (rn_frontier x)\<rparr>)"


section \<open>Frontiers\<close>

definition frontiers_ok :: "flow \<Rightarrow> bool" where
  "frontiers_ok f \<longleftrightarrow>
     (\<forall>i x. fl_runs f i = Some x \<longrightarrow> distinct (rn_frontier x) \<and> set (rn_frontier x) \<subseteq> fl_rows f) \<and>
     (\<forall>i j x y. fl_runs f i = Some x \<longrightarrow> fl_runs f j = Some y \<longrightarrow> i \<noteq> j \<longrightarrow> set (rn_frontier x) \<inter> set (rn_frontier y) = {})"

definition old_frontier :: "flow \<Rightarrow> string \<Rightarrow> string list" where
  "old_frontier f i = (case fl_runs f i of None \<Rightarrow> [] | Some x \<Rightarrow> rn_frontier x)"

text \<open>A close that is not a wait takes its packet off the frontier.\<close>

definition closes_packet :: "closing_entry \<Rightarrow> bool" where
  "closes_packet e \<longleftrightarrow> en_exit e \<noteq> Exit_waiting"

text \<open>What a step does: one run's frontier keeps old packets and gains new ones only, and the entries
  it adds to the trail close packets of that frontier.\<close>

definition touches :: "flow \<Rightarrow> string \<Rightarrow> run \<Rightarrow> closing_entry list \<Rightarrow> flow \<Rightarrow> bool" where
  "touches f i x' es f' \<longleftrightarrow> fl_rows f \<subseteq> fl_rows f' \<and> fl_runs f' = (fl_runs f)(i \<mapsto> x') \<and> fl_trail f' = fl_trail f @ es \<and>
     distinct (rn_frontier x') \<and> set (rn_frontier x') \<subseteq> set (old_frontier f i) \<union> (fl_rows f' - fl_rows f) \<and>
     distinct (map en_packet es) \<and>
     (\<forall>e \<in> set es. en_run e = i \<and> en_packet e \<in> set (old_frontier f i) \<and>
        (closes_packet e \<longrightarrow> en_packet e \<notin> set (rn_frontier x')))"

definition idles :: "flow \<Rightarrow> flow \<Rightarrow> bool" where
  "idles f f' \<longleftrightarrow> fl_rows f \<subseteq> fl_rows f' \<and> fl_runs f' = fl_runs f \<and> fl_trail f' = fl_trail f"

lemma without_simps [simp]:
  "set (without p ps) = set ps - {p}" "distinct ps \<Longrightarrow> distinct (without p ps)" "p \<notin> set (without p ps)"
  by (auto simp: without_def)

lemma serial_run_fields:
  "rn_frontier (serial_run p ex st nxt s x) = without p (rn_frontier x) @
     (case nxt of Some (n, _) \<Rightarrow> [n] | None \<Rightarrow> if ex = Exit_waiting then [p] else [])"
  "rn_spec (serial_run p ex st nxt s x) = rn_spec x"
  "rn_hops (serial_run p ex st nxt s x) = rn_hops x + (if nxt = None then 0 else 1)"
  "rn_base (serial_run p ex st nxt s x) = rn_base x" "rn_resumes (serial_run p ex st nxt s x) = rn_resumes x"
  "rn_failed (serial_run p ex st nxt s x) = Some (step_id st, p)"
  by (simp_all add: serial_run_def Let_def)

lemma touchesI:
  assumes "fl_runs f i = Some x" "fl_rows f \<subseteq> fl_rows f'" "fl_runs f' = (fl_runs f)(i \<mapsto> x')"
    "fl_trail f' = fl_trail f @ es" "distinct (map en_packet es)"
    "distinct (rn_frontier x')" "set (rn_frontier x') \<subseteq> set (rn_frontier x) \<union> (fl_rows f' - fl_rows f)"
    "\<And>e. e \<in> set es \<Longrightarrow> en_run e = i \<and> en_packet e \<in> set (rn_frontier x) \<and>
        (closes_packet e \<longrightarrow> en_packet e \<notin> set (rn_frontier x'))"
  shows "\<exists>i x' es. touches f i x' es f'"
  by (rule exI [of _ i], rule exI [of _ x'], rule exI [of _ es])
    (use assms in \<open>auto simp: touches_def old_frontier_def\<close>)

lemma distinct_replace:
  "distinct ps \<Longrightarrow> n \<notin> set ps \<Longrightarrow> distinct (map (\<lambda>q. if q = p then n else q) ps)"
  by (induction ps) auto

lemma step_touches:
  assumes "flow_step C i f f'" "frontiers_ok f"
  shows "idles f f' \<or> (\<exists>i x' es. touches f i x' es f')"
proof -
  have old: "distinct (rn_frontier x)" "set (rn_frontier x) \<subseteq> fl_rows f" if "fl_runs f i = Some x" for i x
    using assms(2) that by (auto simp: frontiers_ok_def)
  show ?thesis
    using assms(1)
  proof cases
    case (grow R)
    then show ?thesis by (simp add: idles_def)
  next
    case (start R p k spec s)
    then show ?thesis
      by (intro disjI2 exI [of _ i] exI [of _ "\<lparr>rn_spec = k, rn_status = s, rn_frontier = [p],
        rn_step = Some (step_id (hd (steps spec))), rn_failed = None, rn_hops = 0, rn_base = 0, rn_resumes = 0\<rparr>"] exI [of _ "[]"])
        (auto simp: touches_def old_frontier_def fresh_def)
  next
    case (serial x p spec st R nxt ex s)
    show ?thesis
      using serial(4,8) old [OF serial(2)] unfolding serial(1)
      by (intro disjI2 touchesI [OF serial(2), where x' = "serial_run p ex st nxt s x" and es = "[entry_of i st ex p]"])
        (auto simp: serial_run_fields fresh_def closes_packet_def split: option.splits)
  next
    case (graph x p spec b st R ns ex F fr s z)
    have "distinct fr" "set fr \<subseteq> set (rn_frontier x) \<union> (R - fl_rows f)" "ex \<noteq> Exit_waiting \<longrightarrow> p \<notin> set fr"
      using graph(4,9,13) old [OF graph(2)] by (auto simp: fresh_def)
    then show ?thesis using graph(4,9) unfolding graph(1)
      by (intro disjI2 touchesI [OF graph(2), where es = "[entry_of i st ex p]"]) (auto simp: fresh_def closes_packet_def)
  next
    case (route x p R n B z)
    have "n \<notin> set (rn_frontier x)" using route(5) old [OF route(2)] by (auto simp: fresh_def)
    then show ?thesis
      using route(5) old [OF route(2)] distinct_replace [of "rn_frontier x" n p] unfolding route(1)
      by (intro disjI2 touchesI [OF route(2), where x' = "x\<lparr>rn_frontier := map (\<lambda>q. if q = p then n else q) (rn_frontier x), rn_step := z\<rparr>"
          and es = "[]"]) (auto simp: fresh_def)
  next
    case (resume x spec a q st R n)
    then show ?thesis unfolding resume(1) by (intro disjI2 touchesI [OF resume(2), where es = "[]"]) (auto simp: fresh_def)
  next
    case (redrive x k oc R n h z)
    have "n \<notin> set (rn_frontier x)" using redrive(8) old [OF redrive(2)] by (auto simp: fresh_def)
    then show ?thesis
      using redrive(8) old [OF redrive(2)] unfolding redrive(1)
      by (intro disjI2 touchesI [OF redrive(2), where es = "[]" and x' = "x\<lparr>rn_status := Inst_active,
          rn_frontier := rn_frontier x @ [n], rn_step := z, rn_failed := None, rn_base := rn_hops x,
          rn_resumes := rn_resumes x + 1\<rparr>"]) (auto simp: fresh_def)
  next
    case (abort x R g)
    then show ?thesis using old [OF abort(2)] unfolding abort(1)
      by (intro disjI2 touchesI [OF abort(2), where es = "abort_entries i g (rn_frontier x)" and x' = "x\<lparr>rn_status := Inst_aborted,
          rn_frontier := [], rn_step := None, rn_failed := None\<rparr>"])
        (auto simp: abort_entries_def o_def)
  qed
qed

lemma touches_old: "frontiers_ok f \<Longrightarrow> set (old_frontier f i) \<subseteq> fl_rows f"
  by (cases "fl_runs f i") (auto simp: frontiers_ok_def old_frontier_def)

lemma touches_disjoint:
  assumes "frontiers_ok f" "touches f i x' es f'" "fl_runs f j = Some y" "j \<noteq> i"
  shows "set (rn_frontier x') \<inter> set (rn_frontier y) = {}"
proof -
  have "set (old_frontier f i) \<inter> set (rn_frontier y) = {}" "set (rn_frontier y) \<subseteq> fl_rows f"
    using assms(1,3,4) by (cases "fl_runs f i"; auto simp: frontiers_ok_def old_frontier_def)+
  with assms(2) show ?thesis unfolding touches_def by blast
qed

lemma frontiers_step:
  assumes "flow_step C i f f'" "frontiers_ok f"
  shows "frontiers_ok f'"
  using step_touches [OF assms]
proof (elim disjE exE)
  assume "idles f f'"
  with assms(2) show ?thesis unfolding frontiers_ok_def idles_def by fastforce
next
  fix i x' es
  assume t: "touches f i x' es f'"
  have "set (rn_frontier x') \<subseteq> fl_rows f'"
    using t touches_old [OF assms(2), of i] unfolding touches_def by blast
  moreover have "set (rn_frontier y) \<subseteq> fl_rows f' \<and> distinct (rn_frontier y)" if "fl_runs f j = Some y" for j y
    using t assms(2) that unfolding touches_def frontiers_ok_def by blast
  ultimately show ?thesis
    using t touches_disjoint [OF assms(2) t] assms(2) unfolding frontiers_ok_def
    by (auto simp: touches_def split: if_splits) blast+
qed

section \<open>Exactly one close\<close>

definition closed_packets :: "flow \<Rightarrow> string list" where
  "closed_packets f = map en_packet (filter closes_packet (fl_trail f))"

definition on_frontier :: "flow \<Rightarrow> string set" where
  "on_frontier f = (\<Union>x \<in> ran (fl_runs f). set (rn_frontier x))"

definition once_ok :: "flow \<Rightarrow> bool" where
  "once_ok f \<longleftrightarrow> distinct (closed_packets f) \<and> set (closed_packets f) \<subseteq> fl_rows f \<and>
     set (closed_packets f) \<inter> on_frontier f = {}"

lemma on_frontierI: "fl_runs f i = Some x \<Longrightarrow> p \<in> set (rn_frontier x) \<Longrightarrow> p \<in> on_frontier f"
  by (auto simp: on_frontier_def ran_def)

lemma old_on_frontier: "set (old_frontier f i) \<subseteq> on_frontier f"
  by (cases "fl_runs f i") (auto simp: old_frontier_def intro: on_frontierI)

lemma on_frontier_touched:
  assumes "frontiers_ok f" "touches f i x' es f'"
  shows "on_frontier f' \<subseteq> set (rn_frontier x') \<union> (on_frontier f - set (old_frontier f i))"
proof
  fix p
  assume "p \<in> on_frontier f'"
  then obtain j y where y: "fl_runs f' j = Some y" "p \<in> set (rn_frontier y)" by (auto simp: on_frontier_def ran_def)
  show "p \<in> set (rn_frontier x') \<union> (on_frontier f - set (old_frontier f i))"
  proof (cases "j = i")
    case True
    then show ?thesis using y assms(2) by (simp add: touches_def)
  next
    case False
    then have "fl_runs f j = Some y" using y assms(2) by (simp add: touches_def)
    moreover from this have "p \<notin> set (old_frontier f i)"
      using assms(1) False y(2) by (cases "fl_runs f i") (auto simp: frontiers_ok_def old_frontier_def, blast)
    ultimately show ?thesis using y(2) by (auto intro: on_frontierI)
  qed
qed

lemma once_step:
  assumes "flow_step C i f f'" "once_ok f" "frontiers_ok f"
  shows "once_ok f'"
  using step_touches [OF assms(1,3)]
proof (elim disjE exE)
  assume "idles f f'"
  with assms(2) show ?thesis by (auto simp: once_ok_def idles_def closed_packets_def on_frontier_def)
next
  fix i x' es
  assume t: "touches f i x' es f'"
  have c: "closed_packets f' = closed_packets f @ map en_packet (filter closes_packet es)"
    using t by (simp add: closed_packets_def touches_def)
  have new: "en_packet e \<in> set (old_frontier f i) - set (rn_frontier x')" if "e \<in> set es" "closes_packet e" for e
    using t that by (auto simp: touches_def)
  have "distinct (map en_packet (filter closes_packet es))"
    using t by (auto simp: touches_def distinct_map inj_on_def)
  moreover have "set (closed_packets f) \<inter> on_frontier f' = {}"
  proof -
    have "set (rn_frontier x') \<subseteq> on_frontier f \<union> - fl_rows f"
      using t old_on_frontier [of f i] unfolding touches_def by blast
    then show ?thesis using on_frontier_touched [OF assms(3) t] assms(2) by (auto simp: once_ok_def)
  qed
  moreover have "set (map en_packet (filter closes_packet es)) \<inter> on_frontier f' = {}"
    using on_frontier_touched [OF assms(3) t] new by auto
  moreover have "set (map en_packet (filter closes_packet es)) \<subseteq> on_frontier f \<inter> fl_rows f'"
    using new old_on_frontier [of f i] touches_old [OF assms(3), of i] t by (auto simp: touches_def)
  ultimately show ?thesis
    using assms(2) t unfolding once_ok_def c by (auto simp: touches_def)
qed


section \<open>What one run sees\<close>

text \<open>A step changes the view of one run: its record, its bindings, its failures, its entries.\<close>

definition only :: "string \<Rightarrow> (string \<Rightarrow> occurrence option) \<Rightarrow> string \<Rightarrow> occurrence option" where
  "only i F k = (case F k of Some oc \<Rightarrow> if oc_run oc = i then Some oc else None | None \<Rightarrow> None)"

abbreviation fails_of :: "flow \<Rightarrow> string \<Rightarrow> string \<Rightarrow> occurrence option" where
  "fails_of f i \<equiv> only i (fl_fails f)"

lemma only_simps [simp]: "F k = None \<Longrightarrow> only i F k = None"
  "F k = Some oc \<Longrightarrow> only i F k = (if oc_run oc = i then Some oc else None)"
  by (simp_all add: only_def)

lemma only_update: "only i (F(k \<mapsto> oc)) = (only i F)(k := (if oc_run oc = i then Some oc else None))"
  by (simp add: only_def fun_eq_iff)

lemma only_idem: "only i F k = None \<Longrightarrow> (only i F)(k := None) = only i F"
  by (simp add: fun_eq_iff)

definition entries_of :: "flow \<Rightarrow> string \<Rightarrow> closing_entry list" where
  "entries_of f i = filter (\<lambda>e. en_run e = i) (fl_trail f)"

definition same_view :: "flow \<Rightarrow> flow \<Rightarrow> string \<Rightarrow> bool" where
  "same_view f f' j \<longleftrightarrow> fl_runs f' j = fl_runs f j \<and> fl_binds f' j = fl_binds f j \<and> fails_of f' j = fails_of f j
     \<and> entries_of f' j = entries_of f j"

lemma step_view:
  assumes "flow_step C i f f'" "j \<noteq> i"
  shows "same_view f f' j"
  using assms
proof cases
  case (graph x p spec b st R ns ex F fr s z)
  from graph(12) have "only j F = fails_of f j"
    using assms(2) by (auto simp: only_update only_idem)
  then show ?thesis
    using assms(2) unfolding graph(1) by (simp add: same_view_def entries_of_def bind_all_def unbind_def)
next
  case (redrive x k oc R n h z)
  then have "only j ((fl_fails f)(k \<mapsto> oc\<lparr>oc_resolved := True\<rparr>)) = fails_of f j"
    using assms(2) by (simp add: only_update only_idem)
  then show ?thesis using assms(2) unfolding redrive(1) by (simp add: same_view_def entries_of_def)
qed (auto simp: same_view_def entries_of_def unbind_def abort_entries_def filter_empty_conv
    split: option.split)

section \<open>The two shapes of a run\<close>

definition follows :: "workflow_spec \<Rightarrow> closing_entry \<Rightarrow> string \<Rightarrow> bool" where
  "follows spec e b \<longleftrightarrow>
     (en_exit e \<in> {Exit_waiting, Exit_failed} \<and> b = en_step e) \<or>
     (\<exists>st t. find_step spec (en_step e) = Some st \<and> resolveNextStep spec st (Some (en_exit e)) = Some t \<and> step_id t = b)"

definition entry_step :: "workflow_spec \<Rightarrow> string" where
  "entry_step spec = step_id (hd (steps spec))"

definition walk :: "workflow_spec \<Rightarrow> closing_entry list \<Rightarrow> bool" where
  "walk spec E \<longleftrightarrow> (E \<noteq> [] \<longrightarrow> en_step (hd E) = entry_step spec) \<and> successively (\<lambda>e e'. follows spec e (en_step e')) E"

definition at_step :: "workflow_spec \<Rightarrow> closing_entry list \<Rightarrow> string \<Rightarrow> bool" where
  "at_step spec E c \<longleftrightarrow> (if E = [] then c = entry_step spec else follows spec (last E) c)"

definition in_window :: "workflow_spec \<Rightarrow> run \<Rightarrow> bool" where
  "in_window spec x \<longleftrightarrow> (\<forall>n. spec_max_hops spec = Some (Hops n) \<longrightarrow> 1 \<le> n \<longrightarrow>
     rn_hops x \<le> rn_base x + n \<and> rn_base x \<le> rn_resumes x * n)"

definition serial_ok :: "workflow_spec \<Rightarrow> run \<Rightarrow> (string \<Rightarrow> bound option) \<Rightarrow> (string \<Rightarrow> occurrence option) \<Rightarrow> closing_entry list \<Rightarrow> bool" where
  "serial_ok spec x B F E \<longleftrightarrow> length (rn_frontier x) \<le> 1 \<and> B = Map.empty \<and> F = Map.empty \<and> walk spec E \<and>
     0 \<le> rn_resumes x \<and> in_window spec x \<and>
     (live (rn_status x) \<longrightarrow> (\<exists>c. rn_step x = Some c \<and> c \<in> step_id ` set (steps spec) \<and> at_step spec E c)) \<and>
     (rn_status x = Inst_failed \<longrightarrow> (\<exists>q. E \<noteq> [] \<and> rn_failed x = Some (en_step (last E), q) \<and> en_exit (last E) = Exit_failed))"

definition done_in :: "closing_entry list \<Rightarrow> string \<Rightarrow> bool" where
  "done_in E d \<longleftrightarrow> (\<exists>e \<in> set E. en_step e = d \<and> completes (en_exit e))"

definition no_branches :: "workflow_spec \<Rightarrow> bool" where
  "no_branches spec \<longleftrightarrow> (\<forall>st \<in> set (steps spec). hop_on st = [])"

text \<open>A step that may be worked on, where no exit is mapped: the entry, or one whose prerequisites are done.\<close>

definition started :: "workflow_spec \<Rightarrow> closing_entry list \<Rightarrow> string \<Rightarrow> bool" where
  "started spec E i \<longleftrightarrow> no_branches spec \<longrightarrow> i = entry_step spec \<or>
     (\<exists>t \<in> set (steps spec). step_id t = i \<and> dependencies t \<noteq> [] \<and> (\<forall>d \<in> set (dependencies t). done_in E d))"

fun in_order :: "workflow_spec \<Rightarrow> closing_entry list \<Rightarrow> closing_entry list \<Rightarrow> bool" where
  "in_order spec before [] \<longleftrightarrow> True"
| "in_order spec before (e # E) \<longleftrightarrow> started spec before (en_step e) \<and> in_order spec (before @ [e]) E"

definition graph_ok :: "workflow_spec \<Rightarrow> run \<Rightarrow> (string \<Rightarrow> bound option) \<Rightarrow> (string \<Rightarrow> occurrence option) \<Rightarrow> closing_entry list \<Rightarrow> bool" where
  "graph_ok spec x B F E \<longleftrightarrow> (\<forall>p \<in> set (rn_frontier x). B p \<noteq> None) \<and>
     (rn_status x = Inst_failed \<longrightarrow> (\<exists>k oc. F k = Some oc \<and> \<not> oc_resolved oc)) \<and> in_order spec [] E \<and>
     (\<forall>q b. B q = Some b \<longrightarrow> started spec E (bd_step b) \<and>
        (\<forall>n. spec_max_hops spec = Some (Hops n) \<longrightarrow> 1 \<le> n \<longrightarrow> bd_hops b \<le> bd_base b + n)) \<and>
     (\<forall>k oc. F k = Some oc \<longrightarrow> started spec E (oc_step oc))"

definition run_ok :: "(string \<times> string \<Rightarrow> workflow_spec option) \<Rightarrow> string \<Rightarrow> run option \<Rightarrow> (string \<Rightarrow> bound option)
     \<Rightarrow> (string \<Rightarrow> occurrence option) \<Rightarrow> closing_entry list \<Rightarrow> bool" where
  "run_ok C i r B F E \<longleftrightarrow>
     (case r of None \<Rightarrow> B = Map.empty \<and> F = Map.empty \<and> E = []
      | Some x \<Rightarrow> (live (rn_status x) \<longleftrightarrow> rn_frontier x \<noteq> []) \<and>
          (\<exists>spec. C (rn_spec x) = Some spec \<and> steps spec \<noteq> [] \<and> (\<forall>st \<in> set (steps spec). step_id st \<noteq> []) \<and>
             (if dependencyGraph spec then graph_ok spec x B F E else serial_ok spec x B F E)))"

definition runs_ok :: "(string \<times> string \<Rightarrow> workflow_spec option) \<Rightarrow> flow \<Rightarrow> bool" where
  "runs_ok C f \<longleftrightarrow> (\<forall>i. run_ok C i (fl_runs f i) (fl_binds f i) (fails_of f i) (entries_of f i))"


section \<open>Serial runs\<close>

lemma walk_append: "walk spec E \<Longrightarrow> at_step spec E (en_step e) \<Longrightarrow> walk spec (E @ [e])"
  by (auto simp: walk_def at_step_def successively_append_iff hd_append split: if_splits)

lemma find_step_id: "find_step spec i = Some st \<Longrightarrow> step_id st = i \<and> st \<in> set (steps spec)"
  unfolding find_step_def by (drule find_in_set) simp

lemma at_step_next: "find_step spec (step_id st) = Some st \<Longrightarrow> resolveNextStep spec st (Some ex) = Some t \<Longrightarrow>
    at_step spec (E @ [entry_of i st ex p]) (step_id t)"
  by (auto simp: at_step_def follows_def)

lemma at_step_stay: "ex \<in> {Exit_waiting, Exit_failed} \<Longrightarrow> at_step spec (E @ [entry_of i st ex p]) (step_id st)"
  by (auto simp: at_step_def follows_def)

lemma window_next:
  assumes "in_window spec x" "\<not> exceedsMaxHops (rn_hops x) (rn_base x) (spec_max_hops spec)"
    "rn_hops x' = rn_hops x + 1" "rn_base x' = rn_base x" "rn_resumes x' = rn_resumes x"
  shows "in_window spec x'"
  using assms by (auto simp: in_window_def exceedsMaxHops_def)

lemma window_resume:
  assumes "in_window spec x" "rn_hops x' = rn_hops x" "rn_base x' = rn_hops x" "rn_resumes x' = rn_resumes x + 1"
  shows "in_window spec x'"
  using assms by (fastforce simp: in_window_def distrib_right)

lemma window_same:
  assumes "in_window spec x" "rn_hops x' = rn_hops x" "rn_base x' = rn_base x" "rn_resumes x' = rn_resumes x"
  shows "in_window spec x'"
  using assms by (simp add: in_window_def)

lemma serial_packet:
  assumes "serial_ok spec x B F E" "p \<in> set (rn_frontier x)"
  shows "rn_frontier x = [p]"
  using assms by (cases "rn_frontier x") (auto simp: serial_ok_def)

lemma serial_closed_step:
  assumes "serial_ok spec x B F E" "live (rn_status x)" "p \<in> set (rn_frontier x)" "\<forall>st \<in> set (steps spec). step_id st \<noteq> []"
    "packet_step spec x (B p) = Some st"
  shows "rn_step x = Some (step_id st)" "find_step spec (step_id st) = Some st" "at_step spec E (step_id st)"
proof -
  obtain c where c: "rn_step x = Some c" "c \<in> step_id ` set (steps spec)" "at_step spec E c" and "B p = None"
    using assms(1,2) by (auto simp: serial_ok_def)
  moreover from c assms(4) have "c \<noteq> []" by auto
  ultimately have "find_step spec c = Some st"
    using assms(5) serial_packet [OF assms(1,3)] by (simp add: packet_step_def current_step_def)
  moreover from this have "step_id st = c" using find_step_id by blast
  ultimately show "rn_step x = Some (step_id st)" "find_step spec (step_id st) = Some st" "at_step spec E (step_id st)"
    using c by simp_all
qed

lemma serial_close:
  assumes ok: "serial_ok spec x B F E" and "live (rn_status x)" "p \<in> set (rn_frontier x)"
    "\<forall>st \<in> set (steps spec). step_id st \<noteq> []" "packet_step spec x (B p) = Some st"
    and nxt: "\<forall>n t. nxt = Some (n, t) \<longrightarrow> resolveNextStep spec st (Some ex) = Some t \<and>
      \<not> exceedsMaxHops (rn_hops x) (rn_base x) (spec_max_hops spec)"
    and "live s"
  shows "serial_ok spec (serial_run p ex st nxt s x) B F (E @ [entry_of i st ex p])"
    "live (rn_status (serial_run p ex st nxt s x)) \<longleftrightarrow> rn_frontier (serial_run p ex st nxt s x) \<noteq> []"
proof -
  note c = serial_closed_step [OF assms(1-5)]
  have f: "rn_frontier x = [p]" by (rule serial_packet [OF ok assms(3)])
  have mem: "step_id st \<in> step_id ` set (steps spec)" using find_step_id [OF c(2)] by simp
  have w: "walk spec (E @ [entry_of i st ex p])"
    using ok c(3) by (auto simp: serial_ok_def intro: walk_append)
  have h: "in_window spec (serial_run p ex st nxt s x)"
  proof (cases nxt)
    case None
    with ok show ?thesis by (auto simp: serial_ok_def serial_run_fields intro: window_same)
  next
    case (Some nt)
    with ok nxt show ?thesis
      by (cases nt) (auto simp: serial_ok_def serial_run_fields intro!: window_next [of spec x])
  qed
  show "serial_ok spec (serial_run p ex st nxt s x) B F (E @ [entry_of i st ex p])"
    using ok w h nxt c mem \<open>live s\<close> unfolding serial_ok_def
    by (auto simp: serial_run_fields serial_run_def Let_def f without_def at_step_stay at_step_next
        split: option.splits if_splits dest: resolveNextStep_in)
  show "live (rn_status (serial_run p ex st nxt s x)) \<longleftrightarrow> rn_frontier (serial_run p ex st nxt s x) \<noteq> []"
    using \<open>live s\<close> by (auto simp: serial_run_def Let_def f without_def split: option.split)
qed

section \<open>Graph runs\<close>

lemma done_in_mono: "done_in E d \<Longrightarrow> done_in (E @ E') d"
  by (auto simp: done_in_def)

lemma started_mono: "started spec E i \<Longrightarrow> started spec (E @ E') i"
  unfolding started_def by (blast intro: done_in_mono)

lemma in_order_append: "in_order spec before (E @ E') \<longleftrightarrow> in_order spec before E \<and> in_order spec (before @ E) E'"
  by (induction E arbitrary: before) auto

lemma in_order_all: "(\<And>e. e \<in> set E \<Longrightarrow> started spec before (en_step e)) \<Longrightarrow> in_order spec before E"
  by (induction E arbitrary: before) (auto intro: started_mono)

lemma may_start_started:
  assumes "may_start spec i trail st x t" "E = filter (\<lambda>e. en_run e = i) trail" "st \<in> set (steps spec)"
  shows "started spec E (step_id t)"
proof (unfold started_def, intro impI disjI2)
  assume "no_branches spec"
  then have "branch_target st x = None" using assms(3) by (simp add: no_branches_def branch_target_def)
  with assms(1,2) show "\<exists>u \<in> set (steps spec). step_id u = step_id t \<and> dependencies u \<noteq> [] \<and> (\<forall>d \<in> set (dependencies u). done_in E d)"
    by (intro bexI [of _ t]) (auto simp: may_start_def done_in_def)
qed

lemma graph_mono:
  assumes "graph_ok spec x B F E" "in_order spec E E'"
  shows "in_order spec [] (E @ E')" "B q = Some b \<Longrightarrow> started spec (E @ E') (bd_step b)"
    "F k = Some oc \<Longrightarrow> started spec (E @ E') (oc_step oc)"
  using assms by (auto simp: graph_ok_def in_order_append intro: started_mono)

lemma hops_window:
  "\<not> exceedsMaxHops (bd_hops b) (bd_base b) (Some (Hops n)) \<Longrightarrow> 1 \<le> n \<Longrightarrow> bd_hops b + 1 \<le> bd_base b + n"
  by (auto simp: exceedsMaxHops_def)

lemma bind_all_Some:
  "bind_all i b ns B i q = Some v \<Longrightarrow>
     (\<exists>t. (q, t) \<in> set ns \<and> v = \<lparr>bd_step = step_id t, bd_hops = bd_hops b + 1, bd_base = bd_base b\<rparr>) \<or> B i q = Some v"
  by (auto simp: bind_all_def split: option.splits dest: map_of_SomeD)

lemma bind_all_keeps: "B i q \<noteq> None \<or> q \<in> fst ` set ns \<Longrightarrow> bind_all i b ns B i q \<noteq> None"
  unfolding bind_all_def by (auto simp: map_of_eq_None_iff split: option.split)

lemma graph_close:
  assumes ok: "graph_ok spec x (fl_binds f i) (fails_of f i) (entries_of f i)"
    and b: "fl_binds f i p = Some b" "find_step spec (bd_step b) = Some st"
    and ns: "\<forall>(n, t) \<in> set ns. may_start spec i (fl_trail f @ [entry_of i st ex p]) st ex t"
    and hops: "ns \<noteq> [] \<longrightarrow> \<not> exceedsMaxHops (bd_hops b) (bd_base b) (spec_max_hops spec)"
    and F: "F = fl_fails f \<or> fl_fails f p = None \<and> F = (fl_fails f)(p \<mapsto> \<lparr>oc_run = i, oc_step = step_id st, oc_resolved = False\<rparr>)"
    and fr: "fr = without p (rn_frontier x) @ (if ex = Exit_waiting then [p] else map fst ns)"
    and s: "if fr = [] then s = (if open_failure F i then Inst_failed else Inst_completed) else live s"
    and x': "rn_frontier x' = fr" "rn_status x' = s"
  shows "graph_ok spec x' (bind_all i b ns (if ex = Exit_waiting then fl_binds f else unbind i p (fl_binds f)) i)
      (only i F) (entries_of f i @ [entry_of i st ex p])"
proof -
  let ?e = "entry_of i st ex p"
  have st: "step_id st = bd_step b" "st \<in> set (steps spec)" using find_step_id [OF b(2)] by simp_all
  have "started spec (entries_of f i) (bd_step b)" using ok b(1) by (auto simp: graph_ok_def)
  then have o: "in_order spec (entries_of f i) [?e]" by (simp add: st(1))
  note m = graph_mono [OF ok o]
  let ?B = "bind_all i b ns (if ex = Exit_waiting then fl_binds f else unbind i p (fl_binds f)) i"
  have new: "started spec (entries_of f i @ [?e]) (step_id t)" if "(q, t) \<in> set ns" for q t
    using ns that st(2) by (intro may_start_started [of spec i "fl_trail f @ [?e]" st ex t]) (auto simp: entries_of_def)
  have B: "started spec (entries_of f i @ [?e]) (bd_step v) \<and>
      (\<forall>n. spec_max_hops spec = Some (Hops n) \<longrightarrow> 1 \<le> n \<longrightarrow> bd_hops v \<le> bd_base v + n)" if "?B q = Some v" for q v
    using bind_all_Some [OF that]
  proof (elim disjE exE conjE)
    fix t
    assume t: "(q, t) \<in> set ns" "v = \<lparr>bd_step = step_id t, bd_hops = bd_hops b + 1, bd_base = bd_base b\<rparr>"
    then have "ns \<noteq> []" by auto
    with t new hops show ?thesis by (auto dest: hops_window)
  next
    assume "(if ex = Exit_waiting then fl_binds f else unbind i p (fl_binds f)) i q = Some v"
    then have "fl_binds f i q = Some v" by (auto simp: unbind_def split: if_splits)
    with m(2) ok show ?thesis by (auto simp: graph_ok_def)
  qed
  have bound: "?B q \<noteq> None" if "q \<in> set fr" for q
    using that ok b(1) unfolding fr graph_ok_def
    by (intro bind_all_keeps) (auto simp: unbind_def split: if_splits)
  have Fs: "started spec (entries_of f i @ [?e]) (oc_step oc)" if "only i F k = Some oc" for k oc
    using that F m(3) started_mono [OF \<open>started spec _ _\<close>, of "[?e]"] st(1)
    by (auto simp: only_update split: if_splits)
  have failed: "\<exists>k oc. only i F k = Some oc \<and> \<not> oc_resolved oc" if "s = Inst_failed"
  proof -
    have "open_failure F i" using that s by (auto split: if_splits)
    then obtain k oc where "F k = Some oc" "oc_run oc = i" "\<not> oc_resolved oc" by (auto simp: open_failure_def)
    then show ?thesis by (intro exI [of _ k] exI [of _ oc]) simp
  qed
  show ?thesis
    unfolding graph_ok_def using m(1) B bound Fs failed by (auto simp: x')
qed

section \<open>The other verbs\<close>

lemma graph_route:
  assumes "graph_ok spec x B F E" "B p = Some b" "rn_frontier x' = map (\<lambda>q. if q = p then n else q) (rn_frontier x)"
    "rn_status x' = rn_status x"
  shows "graph_ok spec x' ((B(p := None))(n \<mapsto> b)) F E"
  using assms by (auto simp: graph_ok_def split: if_splits)

lemma serial_route:
  assumes "serial_ok spec x B F E" "rn_frontier x' = map (\<lambda>q. if q = p then n else q) (rn_frontier x)"
    "x' = x\<lparr>rn_frontier := rn_frontier x'\<rparr>"
  shows "serial_ok spec x' B F E"
proof -
  have "rn_status x' = rn_status x" "rn_step x' = rn_step x" "rn_failed x' = rn_failed x" "rn_hops x' = rn_hops x"
    "rn_base x' = rn_base x" "rn_resumes x' = rn_resumes x"
    by (subst assms(3), simp)+
  with assms(1,2) show ?thesis by (simp add: serial_ok_def in_window_def)
qed

lemma graph_redrive:
  assumes "graph_ok spec x B F E" "F k = Some oc" "rn_frontier x' = rn_frontier x @ [n]" "rn_status x' = Inst_active"
  shows "graph_ok spec x' (B(n \<mapsto> \<lparr>bd_step = oc_step oc, bd_hops = h, bd_base = h\<rparr>)) (F(k \<mapsto> oc\<lparr>oc_resolved := True\<rparr>)) E"
  using assms by (auto simp: graph_ok_def)

lemma graph_abort:
  assumes "graph_ok spec x B F E" "\<forall>p \<in> set (rn_frontier x). case B p of Some b \<Rightarrow> g p = bd_step b | None \<Rightarrow> Q p"
    "rn_frontier x' = []" "rn_status x' = Inst_aborted"
  shows "graph_ok spec x' (\<lambda>q. if q \<in> set (rn_frontier x) then None else B q) F (E @ abort_entries i g (rn_frontier x))"
proof -
  have "started spec E (g p)" if "p \<in> set (rn_frontier x)" for p
    using assms(1,2) that by (fastforce simp: graph_ok_def)
  then have "in_order spec E (abort_entries i g (rn_frontier x))"
    by (intro in_order_all) (auto simp: abort_entries_def)
  from graph_mono [OF assms(1) this] assms(1,3,4) show ?thesis by (auto simp: graph_ok_def split: if_splits)
qed

lemma serial_abort:
  assumes "serial_ok spec x B F E" "live (rn_status x) \<longleftrightarrow> rn_frontier x \<noteq> []"
    "\<forall>p \<in> set (rn_frontier x). case B p of Some b \<Rightarrow> Q p | None \<Rightarrow> rn_step x = Some (g p)"
  shows "serial_ok spec (x\<lparr>rn_status := Inst_aborted, rn_frontier := [], rn_step := None, rn_failed := None\<rparr>) B F
    (E @ abort_entries i g (rn_frontier x))"
proof (cases "rn_frontier x")
  case Nil
  with assms(1) show ?thesis by (simp add: serial_ok_def abort_entries_def in_window_def)
next
  case (Cons p ps)
  then have "rn_frontier x = [p]" using assms(1) by (simp add: serial_ok_def)
  moreover have "at_step spec E (g p)" using assms Cons by (auto simp: serial_ok_def)
  then have "walk spec (E @ [\<lparr>en_run = i, en_step = g p, en_exit = Exit_failed, en_packet = p\<rparr>])"
    using assms(1) by (auto simp: serial_ok_def intro: walk_append)
  ultimately show ?thesis using assms(1) by (simp add: serial_ok_def abort_entries_def in_window_def)
qed

lemma run_okI:
  assumes "C (rn_spec x) = Some spec" "steps spec \<noteq> []" "\<forall>st \<in> set (steps spec). step_id st \<noteq> []"
    "live (rn_status x) \<longleftrightarrow> rn_frontier x \<noteq> []" "dependencyGraph spec \<Longrightarrow> graph_ok spec x B F E"
    "\<not> dependencyGraph spec \<Longrightarrow> serial_ok spec x B F E"
  shows "run_ok C i (Some x) B F E"
  using assms by (simp add: run_ok_def)

lemma run_okE:
  assumes "run_ok C i (Some x) B F E"
  obtains spec where "C (rn_spec x) = Some spec" "steps spec \<noteq> []" "\<forall>st \<in> set (steps spec). step_id st \<noteq> []"
    "live (rn_status x) \<longleftrightarrow> rn_frontier x \<noteq> []" "dependencyGraph spec \<Longrightarrow> graph_ok spec x B F E"
    "\<not> dependencyGraph spec \<Longrightarrow> serial_ok spec x B F E"
  using assms by (auto simp: run_ok_def split: if_splits)

lemma runs_step_own:
  assumes "flow_step C i f f'" and old: "run_ok C i (fl_runs f i) (fl_binds f i) (fails_of f i) (entries_of f i)"
  shows "run_ok C i (fl_runs f' i) (fl_binds f' i) (fails_of f' i) (entries_of f' i)"
  using assms(1)
proof cases
  case (grow R)
  then show ?thesis using old by (simp add: entries_of_def)
next
  case (start R p k spec s)
  then have "fl_binds f i = Map.empty" "fails_of f i = Map.empty" "entries_of f i = []"
    using old by (simp_all add: run_ok_def)
  then show ?thesis
    using start(3-7) unfolding start(1)
    by (auto simp: run_ok_def entries_of_def graph_ok_def serial_ok_def walk_def at_step_def entry_step_def started_def
      in_window_def)
next
  case (serial x p spec st R nxt ex s)
  then have "serial_ok spec x (fl_binds f i) (fails_of f i) (entries_of f i)" "steps spec \<noteq> []"
      "\<forall>st \<in> set (steps spec). step_id st \<noteq> []"
    using old by (simp_all add: run_ok_def)
  with serial_close [OF this(1) serial(3,4) this(3) serial(7,9,11)] serial(5,6) show ?thesis
    unfolding serial(1) by (simp add: run_ok_def entries_of_def serial_run_fields)
next
  case (graph x p spec b st R ns ex F fr s z)
  then have g: "graph_ok spec x (fl_binds f i) (fails_of f i) (entries_of f i)" "steps spec \<noteq> []"
      "\<forall>st \<in> set (steps spec). step_id st \<noteq> []"
    using old by (simp_all add: run_ok_def)
  let ?x = "x\<lparr>rn_status := s, rn_frontier := fr, rn_step := z, rn_failed := Some (step_id st, p),
    rn_hops := rn_hops x + (if ns = [] then 0 else 1)\<rparr>"
  have "live s \<longleftrightarrow> fr \<noteq> []" using graph(14) by (auto split: if_splits)
  moreover have "entries_of f' i = entries_of f i @ [entry_of i st ex p]" by (simp add: graph(1) entries_of_def)
  ultimately show ?thesis
    using graph_close [OF g(1) graph(7,8,10,11,12,13,14), of ?x] g(2,3) graph(5,6)
    unfolding graph(1) by (simp add: run_ok_def)
next
  case (route x p R n B z)
  let ?x = "x\<lparr>rn_frontier := map (\<lambda>q. if q = p then n else q) (rn_frontier x), rn_step := z\<rparr>"
  from old route(2) obtain spec where o: "C (rn_spec x) = Some spec" "steps spec \<noteq> []"
    "\<forall>st \<in> set (steps spec). step_id st \<noteq> []" "live (rn_status x) \<longleftrightarrow> rn_frontier x \<noteq> []"
    "dependencyGraph spec \<Longrightarrow> graph_ok spec x (fl_binds f i) (fails_of f i) (entries_of f i)"
    "\<not> dependencyGraph spec \<Longrightarrow> serial_ok spec x (fl_binds f i) (fails_of f i) (entries_of f i)"
    by (auto elim: run_okE)
  have "graph_ok spec ?x (B i) (fails_of f i) (entries_of f i)" if "dependencyGraph spec"
  proof -
    from o(5) [OF that] route(4) obtain b where b: "fl_binds f i p = Some b" by (auto simp: graph_ok_def)
    then have "B i = ((fl_binds f i)(p := None))(n \<mapsto> b)" using route(6) by (simp add: unbind_def)
    with graph_route [OF o(5) [OF that] b] show ?thesis by simp
  qed
  moreover have "serial_ok spec ?x (B i) (fails_of f i) (entries_of f i)" if "\<not> dependencyGraph spec"
  proof -
    from o(6) [OF that] have "fl_binds f i = Map.empty" by (simp add: serial_ok_def)
    then have "B i = fl_binds f i" "z = rn_step x" using route(6,7) by simp_all
    then show ?thesis using serial_route [OF o(6) [OF that], of ?x p n] by simp
  qed
  ultimately show ?thesis using o(1-4) unfolding route(1) by (auto simp: entries_of_def intro!: run_okI)
next
  case (resume x spec a q st R n)
  then have none: "fails_of f i = Map.empty" by (auto simp: only_def fun_eq_iff split: option.split)
  let ?x = "x\<lparr>rn_status := Inst_active, rn_frontier := [n], rn_step := Some (step_id st), rn_base := rn_hops x,
    rn_resumes := rn_resumes x + 1\<rparr>"
  have g: "\<not> dependencyGraph spec" using old resume(2-4) none by (auto simp: run_ok_def graph_ok_def)
  then have s: "serial_ok spec x (fl_binds f i) (fails_of f i) (entries_of f i)" "steps spec \<noteq> []"
      "\<forall>st \<in> set (steps spec). step_id st \<noteq> []" using old resume(2-4) by (simp_all add: run_ok_def)
  have w: "in_window spec ?x" using s(1) by (auto simp: serial_ok_def intro: window_resume)
  from s(1) resume(3,5) have "entries_of f i \<noteq> []" "en_step (last (entries_of f i)) = a"
      "en_exit (last (entries_of f i)) = Exit_failed" by (auto simp: serial_ok_def)
  then have "at_step spec (entries_of f i) (step_id st)"
    using find_step_id [OF resume(7)] by (simp add: at_step_def follows_def)
  moreover have "step_id st \<in> step_id ` set (steps spec)" using find_step_id [OF resume(7)] by blast
  ultimately have "serial_ok spec ?x (fl_binds f i) (fails_of f i) (entries_of f i)"
    using s(1) w by (simp add: serial_ok_def)
  with g s(2,3) resume(4) show ?thesis unfolding resume(1) by (auto simp: entries_of_def intro!: run_okI)
next
  case (redrive x k oc R n h z)
  have k: "fails_of f i k = Some oc" using redrive(5,6) by simp
  from old redrive(2) obtain spec where o: "C (rn_spec x) = Some spec" "steps spec \<noteq> []"
    "\<forall>st \<in> set (steps spec). step_id st \<noteq> []"
    "dependencyGraph spec \<Longrightarrow> graph_ok spec x (fl_binds f i) (fails_of f i) (entries_of f i)"
    "\<not> dependencyGraph spec \<Longrightarrow> serial_ok spec x (fl_binds f i) (fails_of f i) (entries_of f i)"
    by (auto elim: run_okE)
  have d: "dependencyGraph spec"
  proof (rule ccontr)
    assume "\<not> dependencyGraph spec"
    from o(5) [OF this] k show False by (simp add: serial_ok_def)
  qed
  have e: "only i ((fl_fails f)(k \<mapsto> oc\<lparr>oc_resolved := True\<rparr>)) = (fails_of f i)(k \<mapsto> oc\<lparr>oc_resolved := True\<rparr>)"
    using redrive(6) by (simp add: only_update)
  show ?thesis
    using o(1-3) d graph_redrive [OF o(4) [OF d] k] e unfolding redrive(1) by (auto simp: entries_of_def intro!: run_okI)
next
  case (abort x R g)
  from old abort(2) obtain spec where o: "C (rn_spec x) = Some spec" "steps spec \<noteq> []"
    "\<forall>st \<in> set (steps spec). step_id st \<noteq> []" "live (rn_status x) \<longleftrightarrow> rn_frontier x \<noteq> []"
    "dependencyGraph spec \<Longrightarrow> graph_ok spec x (fl_binds f i) (fails_of f i) (entries_of f i)"
    "\<not> dependencyGraph spec \<Longrightarrow> serial_ok spec x (fl_binds f i) (fails_of f i) (entries_of f i)"
    by (auto elim: run_okE)
  have E: "entries_of f' i = entries_of f i @ abort_entries i g (rn_frontier x)"
    by (auto simp: abort(1) entries_of_def abort_entries_def filter_id_conv)
  let ?x = "x\<lparr>rn_status := Inst_aborted, rn_frontier := [], rn_step := None, rn_failed := None\<rparr>"
  let ?B = "\<lambda>q. if q \<in> set (rn_frontier x) then None else fl_binds f i q"
  have G: "graph_ok spec ?x ?B (fails_of f i) (entries_of f' i)" if "dependencyGraph spec"
    unfolding E by (rule graph_abort [OF o(5) [OF that] abort(6)]) simp_all
  have S: "serial_ok spec ?x ?B (fails_of f i) (entries_of f' i)" if "\<not> dependencyGraph spec"
  proof -
    note s = o(6) [OF that]
    then have "?B = fl_binds f i" by (auto simp: serial_ok_def)
    moreover have "\<forall>p \<in> set (rn_frontier x). case fl_binds f i p of Some b \<Rightarrow> True | None \<Rightarrow> rn_step x = Some (g p)"
      using abort(6) by (auto split: option.splits)
    ultimately show ?thesis unfolding E using serial_abort [OF s o(4)] by simp
  qed
  have "run_ok C i (Some ?x) ?B (fails_of f i) (entries_of f' i)"
    by (rule run_okI [of C ?x spec]) (use o(1-3) G S in simp_all)
  then show ?thesis by (simp add: abort(1))
qed

lemma runs_step: "flow_step C i f f' \<Longrightarrow> runs_ok C f \<Longrightarrow> runs_ok C f'"
  unfolding runs_ok_def
proof
  fix j
  assume s: "flow_step C i f f'" and o: "\<forall>i. run_ok C i (fl_runs f i) (fl_binds f i) (fails_of f i) (entries_of f i)"
  show "run_ok C j (fl_runs f' j) (fl_binds f' j) (fails_of f' j) (entries_of f' j)"
  proof (cases "j = i")
    case True
    then show ?thesis using runs_step_own [OF s] o by simp
  next
    case False
    then show ?thesis using step_view [OF s False] o by (simp add: same_view_def)
  qed
qed

section \<open>Reachable states\<close>

definition flow_reach :: "(string \<times> string \<Rightarrow> workflow_spec option) \<Rightarrow> flow \<Rightarrow> flow \<Rightarrow> bool" where
  "flow_reach C = (\<lambda>f f'. \<exists>i. flow_step C i f f')\<^sup>*\<^sup>*"

definition flow_inv :: "(string \<times> string \<Rightarrow> workflow_spec option) \<Rightarrow> flow \<Rightarrow> bool" where
  "flow_inv C f \<longleftrightarrow> frontiers_ok f \<and> once_ok f \<and> runs_ok C f"

lemma flow_inv_empty: "flow_inv C empty_flow"
  by (simp add: flow_inv_def empty_flow_def frontiers_ok_def once_ok_def closed_packets_def on_frontier_def runs_ok_def
    run_ok_def only_def entries_of_def fun_eq_iff)

lemma flow_inv_reach: "flow_reach C f f' \<Longrightarrow> flow_inv C f \<Longrightarrow> flow_inv C f'"
  unfolding flow_reach_def
  by (induction rule: rtranclp_induct) (auto simp: flow_inv_def intro: frontiers_step once_step runs_step)

end
