(* ===== verification/Workflow_Frames.thy ===== *)
theory Workflow_Frames
  imports Workflow_Runtime Workflow_Flow
begin

text \<open>
  What the pieces of a workflow verb write: the queue operations keep the queue's invariant and never
  remove a row, and the table operations are updates of the abstract view \<open>flow_of\<close>.
\<close>

named_theorems kept_intro \<open>operations that write the queue only\<close>

section \<open>Queue-only writes\<close>

definition packet_ids :: "workflow_db \<Rightarrow> string set" where
  "packet_ids s = q_id ` set (d_items (wf_queue s))"

definition tables :: "workflow_db \<Rightarrow> workflow_instance list \<times> frontier_binding list \<times> failure_occurrence list \<times> step_trail list" where
  "tables s = (wf_instances s, wf_bindings s, wf_failures s, wf_trail s)"

definition queue_good :: "workflow_env \<Rightarrow> workflow_db \<Rightarrow> bool" where
  "queue_good env s \<longleftrightarrow> queue_inv (v_queue env) (wf_queue s)"

definition kept :: "workflow_env \<Rightarrow> workflow_db \<Rightarrow> workflow_db \<Rightarrow> bool" where
  "kept env s s' \<longleftrightarrow> tables s' = tables s \<and> (queue_good env s \<longrightarrow> queue_good env s' \<and> packet_ids s \<subseteq> packet_ids s')"

lemma kept_refl [simp]: "kept env s s"
  by (simp add: kept_def)

lemma kept_trans: "kept env s t \<Longrightarrow> kept env t u \<Longrightarrow> kept env s u"
  by (auto simp: kept_def)

lemma isPersonAddress_env [simp]: "isPersonAddress (queue_env_of env s) i = isPersonAddress (v_queue env) i"
  by (simp add: isPersonAddress_def queue_env_of_def)

lemma queue_inv_env [simp]: "queue_inv (queue_env_of env s) db = queue_inv (v_queue env) db"
proof -
  have "item_gate (queue_env_of env s) b = item_gate (v_queue env) b" for b
    by (simp add: item_gate_def split: option.split)
  then show ?thesis by (simp add: queue_inv_def waits_ok_def gate_ok_def)
qed

lemma ids_grow: "writes_to env db db' \<Longrightarrow> q_id ` set (d_items db) \<subseteq> q_id ` set (d_items db')"
  unfolding writes_to_def using micro_run_grows set_mono_prefix by fastforce

lemma keptI:
  assumes "s' = s\<lparr>wf_queue := db\<rparr>"
    and "queue_inv (v_queue env) (wf_queue s) \<Longrightarrow> writes_to (queue_env_of env s) (wf_queue s) db"
  shows "kept env s s'"
  using assms(2) ids_grow [of "queue_env_of env s" "wf_queue s" db] unfolding assms(1)
  by (auto simp: kept_def tables_def queue_good_def packet_ids_def writes_to_def)

lemma on_queue_Inr: "on_queue env f s = Inr s' \<longleftrightarrow>
    (\<exists>db. f (queue_env_of env s) (wf_queue s) = Inr db \<and> s' = s\<lparr>wf_queue := db\<rparr>)"
  by (auto simp: on_queue_def split: sum.split)

lemma kept_on_queue:
  assumes "on_queue env f s = Inr s'"
    and "\<And>db. queue_inv (v_queue env) (wf_queue s) \<Longrightarrow> f (queue_env_of env s) (wf_queue s) = Inr db \<Longrightarrow>
      writes_to (queue_env_of env s) (wf_queue s) db"
  shows "kept env s s'"
  using assms by (auto simp: on_queue_Inr intro!: keptI)

lemma same_writes: "queue_inv (v_queue env) db \<Longrightarrow> same_core db db' \<Longrightarrow> writes_to (queue_env_of env s) db db'"
  by (rule writes_to_same) simp_all

lemma kept_update [kept_intro]: "queue_update env now job inp s = Inr s' \<Longrightarrow> kept env s s'"
  unfolding queue_update_def by (erule kept_on_queue) (auto intro: update_writes)

lemma kept_stage [kept_intro]: "stage_wake env now i from dest prov s = Inr s' \<Longrightarrow> kept env s s'"
  unfolding stage_wake_def
  by (erule kept_on_queue) (auto intro!: same_writes dest!: staged_handoff same_core_staged)

lemma kept_event [simp]: "kept env s (log_event ev s)"
  by (rule keptI [where db = "persist_event ev (wf_queue s)"]) (auto simp: log_event_def intro!: same_writes)

lemma kept_assert [kept_intro]: "assert_woken env i j s = Inr s' \<Longrightarrow> kept env s s'"
  unfolding assert_woken_def by (erule kept_on_queue) (auto intro!: same_writes dest!: assert_same)

lemma markTerminal_core: "same_core db (markTerminal i reason db)"
  by (simp add: markTerminal_def same_core_jobs jobs_only_update_job)

lemma disarm_core: "same_core db (disarmWorkflowKeepalive env i reason packet db)"
  by (simp add: disarmWorkflowKeepalive_def markTerminal_core split: option.split)

lemma disarm_all_core: "same_core db (disarmAllWorkflowKeepalives env i reason db)"
proof -
  have "same_core db (fold (\<lambda>j. markTerminal (j_id j) reason) js db)" for js :: "watchdog_job list"
    by (induction js arbitrary: db) (auto intro: same_core_trans markTerminal_core)
  then show ?thesis by (simp add: disarmAllWorkflowKeepalives_def)
qed

lemma arm_core: "ensureWorkflowKeepaliveArmed env now job i target actor packet db = Inr db' \<Longrightarrow> same_core db db'"
  by (auto simp: ensureWorkflowKeepaliveArmed_def same_core_def effect_simps split: if_splits)

lemma kept_arm [kept_intro]: "arm_keepalive env now job i target actor packet s = Inr s' \<Longrightarrow> kept env s s'"
  unfolding arm_keepalive_def by (erule kept_on_queue) (auto intro!: same_writes dest!: arm_core)

lemma kept_arm_plan [kept_intro]:
  "on_queue env (\<lambda>_. ensureWorkflowKeepaliveArmed env now job i target actor packet) s = Inr s' \<Longrightarrow> kept env s s'"
  by (erule kept_on_queue) (auto intro!: same_writes dest!: arm_core)

lemma kept_serial_keepalive [kept_intro]:
  "on_queue env (serial_keepalive env now ids inp inst nxt status) s = Inr s' \<Longrightarrow> kept env s s'"
  by (erule kept_on_queue)
    (auto simp: serial_keepalive_def intro!: same_writes dest!: arm_core intro: disarm_core split: option.splits if_splits)

lemma kept_route_keepalive [kept_intro]:
  "on_queue env (route_keepalive env now ids inp i old addressed) s = Inr s' \<Longrightarrow> kept env s s'"
  by (erule kept_on_queue)
    (auto simp: route_keepalive_def intro!: same_writes dest!: arm_core intro: same_core_trans disarm_core)

section \<open>New packets\<close>

text \<open>A create that succeeds adds a row whose id was free.\<close>

definition adds :: "workflow_env \<Rightarrow> string \<Rightarrow> workflow_db \<Rightarrow> workflow_db \<Rightarrow> bool" where
  "adds env n s s' \<longleftrightarrow> kept env s s' \<and> (queue_good env s \<longrightarrow> n \<notin> packet_ids s \<and> n \<in> packet_ids s')"

lemma adds_kept: "adds env n s s' \<Longrightarrow> kept env s s'"
  by (simp add: adds_def)

lemma adds_then: "adds env n s t \<Longrightarrow> kept env t u \<Longrightarrow> adds env n s u"
  by (auto simp: adds_def kept_def)

lemma kept_adds: "kept env s t \<Longrightarrow> adds env n t u \<Longrightarrow> adds env n s u"
  by (auto simp: adds_def kept_def)

lemma adds_create:
  assumes "queue_create env now inp s = Inr s'" "c_id inp = Some n"
  shows "adds env n s s'"
proof -
  obtain db i where c: "createInTransactionalContext (queue_env_of env s) now [] inp (wf_queue s) = Inr (db, i)"
      "s' = s\<lparr>wf_queue := db\<rparr>"
    using assms(1) by (auto simp: queue_create_def on_queue_Inr createWithinTransaction_def effect_simps split: if_splits)
  from create_adds [OF c(1)] assms(2) obtain qs where i: "i = n"
    and r: "row_added (queue_env_of env s) (created_row (queue_env_of env s) now n inp qs (wf_queue s)) (wf_queue s) db"
    by auto
  have "kept env s s'" by (rule keptI [OF c(2)]) (auto intro: writes_to_added r)
  moreover have "map q_id (d_items db) = map q_id (d_items (wf_queue s)) @ [n]"
    using r core_ids [of "d_items db"] unfolding row_added_def by fastforce
  then have "q_id ` set (d_items db) = insert n (q_id ` set (d_items (wf_queue s)))"
    by (metis Un_commute image_set insert_is_Un list.set(1) list.simps(15) set_append)
  ultimately show ?thesis using r unfolding adds_def packet_ids_def c(2) by (auto simp: row_added_def)
qed

lemma adds_woken:
  assumes "create_woken env now inp s = Inr s'" "c_id inp = Some n"
  shows "adds env n s s'"
  using assms by (auto simp: create_woken_def effect_simps intro: adds_then [OF adds_create kept_stage])

lemma kept_park [kept_intro]: "park_on_person env now i actor prov parkOn s = Inr s' \<Longrightarrow> kept env s s'"
  by (auto simp: park_on_person_def split: if_splits dest: kept_update)

lemma kept_close [kept_intro]: "close_packet env now job inp inst st advisory closure re s = Inr s' \<Longrightarrow> kept env s s'"
  unfolding close_packet_def by (rule kept_update)


lemma kept_admit [kept_intro]:
  assumes "admitFailureException env now ids inp inst spec st reason occ s = Inr s'"
  shows "kept env s s'"
proof -
  have c: "kept env s t" if "queue_create env now (exception_create env ids inp inst st ex occ d tier p) s = Inr t" for ex d tier p t
    using adds_kept [OF adds_create [OF that]] by (simp add: exception_create_def packet_create_def)
  show ?thesis
    using assms by (auto simp: admitFailureException_def Let_def effect_simps split: sum.splits if_splits
      dest!: c kept_stage intro: kept_trans)
qed

lemma kept_serial_events [kept_intro]:
  assumes "serial_events env now ids inp inst spec st x why nxt status s = Inr s'"
  shows "kept env s s'"
proof -
  have e: "kept env s (log_event b (log_event a s))" for a b by (rule kept_trans [OF kept_event kept_event])
  have f: "kept env s (log_event c (log_event b (log_event a s)))" for a b c by (rule kept_trans [OF e kept_event])
  show ?thesis
    using assms by (auto simp: serial_events_def Let_def split: if_splits option.splits
      intro: e f kept_trans [OF e kept_admit] kept_trans [OF f kept_admit])
qed

lemma serial_next_adds:
  "serial_next env now ids inp inst spec st why (Some n) s = Inr s' \<Longrightarrow> adds env (id_packet ids 0) s s'"
  by (cases n) (auto simp: serial_next_def Let_def effect_simps next_create_def packet_create_def
      intro: adds_then [OF adds_woken kept_park])

section \<open>The view of the tables\<close>

definition run_of :: "workflow_instance \<Rightarrow> run" where
  "run_of x = \<lparr>rn_spec = (inst_workflow x, inst_workflowVersion x), rn_status = inst_status x, rn_frontier = inst_frontier x,
     rn_step = inst_step x, rn_failed = dec_failed (inst_decision x), rn_hops = inst_hops x, rn_base = inst_baseline x,
     rn_resumes = inst_resumes x\<rparr>"

definition bound_of :: "frontier_binding \<Rightarrow> bound" where
  "bound_of b = \<lparr>bd_step = fb_step b, bd_hops = fb_hops b, bd_base = fb_base b\<rparr>"

definition occurrence_of :: "failure_occurrence \<Rightarrow> occurrence" where
  "occurrence_of oc = \<lparr>oc_run = fo_instance oc, oc_step = fo_step oc, oc_resolved = fo_resolved oc\<rparr>"

definition closing_of :: "step_trail \<Rightarrow> closing_entry" where
  "closing_of t = \<lparr>en_run = tr_instance t, en_step = tr_step t, en_exit = tr_exit t, en_packet = tr_prior t\<rparr>"

definition flow_of :: "workflow_db \<Rightarrow> flow" where
  "flow_of s = \<lparr>fl_rows = packet_ids s, fl_runs = (\<lambda>i. map_option run_of (getInstance s i)),
     fl_binds = (\<lambda>i p. map_option bound_of (getFrontierBinding s i p)),
     fl_fails = (\<lambda>k. map_option occurrence_of (row_get fo_id k (wf_failures s))),
     fl_trail = map closing_of (wf_trail s)\<rparr>"

lemmas view_defs = run_of_def bound_of_def occurrence_of_def closing_of_def

lemma tables_eq: "tables s' = tables s \<longleftrightarrow> wf_instances s' = wf_instances s \<and> wf_bindings s' = wf_bindings s
    \<and> wf_failures s' = wf_failures s \<and> wf_trail s' = wf_trail s"
  by (simp add: tables_def)

lemma tables_reads:
  assumes "tables s' = tables s"
  shows "getInstance s' = getInstance s" "getFrontierBinding s' = getFrontierBinding s"
    "listFrontierBindings s' = listFrontierBindings s" "listFailureOccurrences s' = listFailureOccurrences s"
    "trail_of s' = trail_of s" "flow_of s' = (flow_of s)\<lparr>fl_rows := packet_ids s'\<rparr>"
  using assms by (auto simp: tables_eq getInstance_def getFrontierBinding_def listFrontierBindings_def
    listFailureOccurrences_def trail_of_def flow_of_def fun_eq_iff)

lemma row_get_update:
  assumes "\<And>r. key (f r) = key r" "row_get key k rows = Some r" "p r" "\<And>x. p x \<Longrightarrow> key x = k"
  shows "(\<lambda>j. row_get key j (row_set p f rows)) = (\<lambda>j. row_get key j rows)(k \<mapsto> f r)"
proof
  fix j
  have g: "row_get key j (row_set p f rows) = map_option (\<lambda>r. if p r then f r else r) (row_get key j rows)" for j
    by (rule row_get_set) (rule assms(1))
  show "row_get key j (row_set p f rows) = ((\<lambda>j. row_get key j rows)(k \<mapsto> f r)) j"
  proof (cases "j = k")
    case True
    then show ?thesis using assms(2,3) by (simp add: g)
  next
    case False
    then have "\<not> p x" if "row_get key j rows = Some x" for x
      using assms(4) [of x] row_get_key [OF that] by auto
    then show ?thesis using False by (cases "row_get key j rows") (simp_all add: g)
  qed
qed

lemma flow_updateFrontier:
  assumes "updateFrontier i fr st u s = Inr s'" "getInstance s i = Some x" "inst_version x = fu_expected u"
  shows "flow_of s' = (flow_of s)\<lparr>fl_runs := (fl_runs (flow_of s))(i \<mapsto> run_of (updated_instance fr st u x))\<rparr>"
    "wf_queue s' = wf_queue s" "wf_failures s' = wf_failures s"
proof -
  let ?p = "\<lambda>r. inst_id r = i \<and> inst_version r = fu_expected u"
  have s': "s' = s\<lparr>wf_instances := row_set ?p (updated_instance fr st u) (wf_instances s)\<rparr>"
    using assms(1) by (auto simp: updateFrontier_def Let_def split: if_splits)
  have "(\<lambda>j. getInstance s' j) = (\<lambda>j. getInstance s j)(i \<mapsto> updated_instance fr st u x)"
    unfolding getInstance_def s' using assms(2,3)
    by (simp, intro row_get_update) (auto simp: updated_instance_def getInstance_def dest: row_get_key)
  then show "flow_of s' = (flow_of s)\<lparr>fl_runs := (fl_runs (flow_of s))(i \<mapsto> run_of (updated_instance fr st u x))\<rparr>"
    unfolding flow_of_def by (auto simp: fun_eq_iff s' packet_ids_def getFrontierBinding_def)
  show "wf_queue s' = wf_queue s" "wf_failures s' = wf_failures s" by (simp_all add: s')
qed

lemma flow_record_trail:
  "flow_of (record_trail t s) = (flow_of s)\<lparr>fl_trail := fl_trail (flow_of s) @ [closing_of t]\<rparr>"
  "wf_queue (record_trail t s) = wf_queue s" "getInstance (record_trail t s) = getInstance s"
  "wf_failures (record_trail t s) = wf_failures s"
  by (auto simp: flow_of_def record_trail_def packet_ids_def getInstance_def getFrontierBinding_def fun_eq_iff)

lemma flow_bind:
  assumes "bindFrontierPacket b s = Inr s'"
  shows "flow_of s' = (flow_of s)\<lparr>fl_binds := (fl_binds (flow_of s))(fb_instance b :=
      (fl_binds (flow_of s) (fb_instance b))(fb_packet b \<mapsto> bound_of b))\<rparr>"
    "wf_queue s' = wf_queue s" "getInstance s' = getInstance s" "wf_failures s' = wf_failures s"
proof -
  from assms have s': "fb_packet b \<notin> fb_packet ` set (wf_bindings s)" "s' = s\<lparr>wf_bindings := wf_bindings s @ [b]\<rparr>"
    by (auto simp: bindFrontierPacket_def row_insert_Some split: option.splits)
  then have none: "find (\<lambda>c. fb_instance c = i \<and> fb_packet c = fb_packet b) (wf_bindings s) = None" for i
    by (metis (mono_tags, lifting) find_None_iff image_eqI)
  then show "flow_of s' = (flow_of s)\<lparr>fl_binds := (fl_binds (flow_of s))(fb_instance b :=
      (fl_binds (flow_of s) (fb_instance b))(fb_packet b \<mapsto> bound_of b))\<rparr>"
    by (auto simp: s'(2) flow_of_def packet_ids_def getInstance_def getFrontierBinding_def fun_eq_iff find_append
      split: option.split)
  show "wf_queue s' = wf_queue s" "getInstance s' = getInstance s" "wf_failures s' = wf_failures s"
    by (simp_all add: s'(2) getInstance_def fun_eq_iff)
qed

lemma flow_unbind:
  "flow_of (removeFrontierBinding i p s) = (flow_of s)\<lparr>fl_binds := unbind i p (fl_binds (flow_of s))\<rparr>"
  "wf_queue (removeFrontierBinding i p s) = wf_queue s" "getInstance (removeFrontierBinding i p s) = getInstance s"
  "wf_failures (removeFrontierBinding i p s) = wf_failures s"
proof -
  have "getFrontierBinding (removeFrontierBinding i p s) j q = (if j = i \<and> q = p then None else getFrontierBinding s j q)" for j q
  proof -
    have "find (\<lambda>b. fb_instance b = j \<and> fb_packet b = q) (filter (\<lambda>b. \<not> (fb_instance b = i \<and> fb_packet b = p)) bs)
        = (if j = i \<and> q = p then None else find (\<lambda>b. fb_instance b = j \<and> fb_packet b = q) bs)" for bs :: "frontier_binding list"
      by (induction bs) auto
    then show ?thesis by (simp add: getFrontierBinding_def removeFrontierBinding_def)
  qed
  then show "flow_of (removeFrontierBinding i p s) = (flow_of s)\<lparr>fl_binds := unbind i p (fl_binds (flow_of s))\<rparr>"
    by (auto simp: flow_of_def unbind_def fun_eq_iff removeFrontierBinding_def packet_ids_def getInstance_def)
  show "wf_queue (removeFrontierBinding i p s) = wf_queue s" "getInstance (removeFrontierBinding i p s) = getInstance s"
    "wf_failures (removeFrontierBinding i p s) = wf_failures s"
    by (simp_all add: removeFrontierBinding_def getInstance_def fun_eq_iff)
qed

end
