(* ===== verification/Workflow_Refines.thy ===== *)
theory Workflow_Refines
  imports Workflow_Frames
begin

text \<open>
  Every verb of the workflow engine is a step of the abstract machine of \<open>Workflow_Flow\<close>: a simulation
  through the view \<open>flow_of\<close>, one lemma per verb.
\<close>

section \<open>Specifications seen by an instance\<close>

text \<open>Binding a rig changes targets only.\<close>

definition same_steps :: "workflow_spec \<Rightarrow> workflow_spec \<Rightarrow> bool" where
  "same_steps a b \<longleftrightarrow> steps a = steps b \<and> loop_guards_of a = loop_guards_of b"

lemma same_steps_bind: "same_steps (bindSpecToRig spec rig) spec"
  by (simp add: same_steps_def bindSpecToRig_def split: option.split)

lemma same_steps_find: "same_steps a b \<Longrightarrow> find_step a i = find_step b i"
  by (simp add: same_steps_def find_step_def)

lemma same_steps_suggested: "same_steps a b \<Longrightarrow> first_suggested a rs = first_suggested b rs"
  by (induction rs) (simp_all add: same_steps_def split: option.split)

lemma same_steps_next:
  assumes "same_steps a b"
  shows "resolveNextStep a st x = resolveNextStep b st x"
proof -
  have e: "steps a = steps b" using assms by (simp add: same_steps_def)
  show ?thesis
    unfolding resolveNextStep_def same_steps_find [OF assms] same_steps_suggested [OF assms] e by (rule refl)
qed

lemma same_steps_graph: "same_steps a b \<Longrightarrow> dependencyGraph a = dependencyGraph b"
  by (simp add: dependencyGraph_def same_steps_def)

lemma same_steps_hops: "same_steps a b \<Longrightarrow> spec_max_hops a = spec_max_hops b"
  by (simp add: spec_max_hops_def same_steps_def)

lemmas same_steps_simps = same_steps_find same_steps_next same_steps_graph same_steps_hops

definition cached :: "workflow_env \<Rightarrow> string \<times> string \<Rightarrow> workflow_spec option" where
  "cached env k = v_cache env (fst k) (snd k)"

lemma getForInstance_cached:
  assumes "getForInstance env inst = Some spec"
  obtains raw where "cached env (rn_spec (run_of inst)) = Some raw" "same_steps spec raw"
  using assms same_steps_bind by (auto simp: getForInstance_def cached_def run_of_def)

section \<open>Entering a projection\<close>

lemma getInstance_id: "getInstance s i = Some x \<Longrightarrow> inst_id x = i"
  unfolding getInstance_def by (rule row_get_key)

lemma project_entry_Inr:
  assumes "project_entry env inp s = Inr (inst, spec, packet, binding, st)"
  shows "getInstance s (inst_id inst) = Some inst" "live (inst_status inst)" "pi_packet inp \<in> set (inst_frontier inst)"
    "getForInstance env inst = Some spec" "binding = getFrontierBinding s (inst_id inst) (pi_packet inp)"
    "step_of_packet spec inst binding = Some st" "inst_id inst = pi_instance inp" "getById (wf_queue s) (pi_packet inp) = Some packet"
proof -
  have all: "getInstance s (pi_instance inp) = Some inst \<and> live (inst_status inst) \<and> pi_packet inp \<in> set (inst_frontier inst) \<and>
    getForInstance env inst = Some spec \<and> binding = getFrontierBinding s (inst_id inst) (pi_packet inp) \<and>
    step_of_packet spec inst binding = Some st \<and> getById (wf_queue s) (pi_packet inp) = Some packet"
    using assms
    by (auto simp: project_entry_def getInstanceOrThrow_def effect_simps Let_def live_def simp del: unless_refused_Cons
      split: option.split_asm)
  then have "inst_id inst = pi_instance inp" using getInstance_id by blast
  with all show "getInstance s (inst_id inst) = Some inst" "live (inst_status inst)"
    "pi_packet inp \<in> set (inst_frontier inst)" "getForInstance env inst = Some spec"
    "binding = getFrontierBinding s (inst_id inst) (pi_packet inp)" "step_of_packet spec inst binding = Some st"
    "getById (wf_queue s) (pi_packet inp) = Some packet" "inst_id inst = pi_instance inp"
    by auto
qed

lemma packet_step_view:
  assumes "step_of_packet spec inst (getFrontierBinding s i p) = Some st" "same_steps spec raw"
  shows "packet_step raw (run_of inst) (fl_binds (flow_of s) i p) = Some st"
proof -
  have "at (steps spec) = at (steps raw)" using assms(2) by (simp add: same_steps_def)
  then show ?thesis
    using assms same_steps_find [OF assms(2)]
    by (auto simp: step_of_packet_def packet_step_def flow_of_def bound_of_def run_of_def resolveCurrentStep_def current_step_def
      split: option.splits if_splits)
qed

section \<open>The serial path\<close>

lemma fresh_kept: "queue_good env s \<Longrightarrow> kept env s s' \<Longrightarrow> fresh (packet_ids s) (packet_ids s') []"
  by (simp add: fresh_def kept_def)

lemma fresh_mono: "fresh R R' ns \<Longrightarrow> S \<subseteq> R \<Longrightarrow> R' \<subseteq> T \<Longrightarrow> fresh S T ns"
  by (auto simp: fresh_def)

lemma fresh_adds: "queue_good env s \<Longrightarrow> adds env n s s' \<Longrightarrow> fresh (packet_ids s) (packet_ids s') [n]"
  by (simp add: fresh_def adds_def kept_def)

definition view_next :: "fresh_ids \<Rightarrow> routed_step option \<Rightarrow> (string \<times> step_spec) option" where
  "view_next ids nxt = map_option (\<lambda>(t, _). (id_packet ids 0, t)) nxt"

definition routed_status :: "routed_step option \<Rightarrow> instance_status" where
  "routed_status nxt = (case nxt of Some (_, _, Some g) \<Rightarrow> Inst_waiting | _ \<Rightarrow> Inst_active)"

lemma serial_run_view:
  assumes "frontier = serial_frontier inst (pi_packet inp) (map_option (\<lambda>_. id_packet ids 0) nxt) x"
    "status = serial_status (nxt \<noteq> None) (case nxt of None \<Rightarrow> None | Some (_, _, g) \<Rightarrow> g) x frontier"
  shows "run_of (updated_instance frontier status (serial_update now ids inp inst st x why branched nxt status) inst)
    = serial_run (pi_packet inp) x st (view_next ids nxt) (routed_status nxt) (run_of inst)"
  using assms
  by (auto simp: run_of_def updated_instance_def serial_update_def serial_run_def view_next_def routed_status_def
    serial_frontier_def serial_status_def without_def dec_failed_def Let_def split: option.splits prod.splits)

lemma serial_writes_flow:
  assumes w: "serial_writes env now ids inp inst spec packet st x why ev branched nxt s = Inr s'"
    and g: "getInstance s (inst_id inst) = Some inst" and q: "queue_good env s"
  shows "queue_good env s'" "wf_failures s' = wf_failures s"
    "fresh (packet_ids s) (packet_ids s') (case view_next ids nxt of None \<Rightarrow> [] | Some (n, _) \<Rightarrow> [n])"
    "flow_of s' = (flow_of s)\<lparr>fl_rows := packet_ids s', fl_runs := (fl_runs (flow_of s))(inst_id inst \<mapsto>
        serial_run (pi_packet inp) x st (view_next ids nxt) (routed_status nxt) (run_of inst)),
      fl_trail := fl_trail (flow_of s) @ [entry_of (inst_id inst) st x (pi_packet inp)]\<rparr>"
proof -
  let ?np = "map_option (\<lambda>_. id_packet ids 0) nxt"
  let ?fr = "serial_frontier inst (pi_packet inp) ?np x"
  let ?st = "serial_status (nxt \<noteq> None) (case nxt of None \<Rightarrow> None | Some (_, _, g) \<Rightarrow> g) x ?fr"
  let ?e = "serial_entry now inp inst st x ev ?np"
  from w obtain c s1 s2 s3 s4 s5 where
    s1: "close_packet env now (id_park_job ids) inp inst st (unanswered_gate inp st packet) c (x = Exit_waiting \<and> nxt = None) s = Inr s1"
    and s2: "serial_next env now ids inp inst spec st why nxt s1 = Inr s2"
    and s3: "updateFrontier (inst_id inst) ?fr ?st (serial_update now ids inp inst st x why branched nxt ?st) (record_trail ?e s2) = Inr s3"
    and s4: "on_queue env (serial_keepalive env now ids inp inst nxt ?st) s3 = Inr s4"
    and s5: "serial_events env now ids inp inst spec st x why nxt ?st s4 = Inr s5"
    and s6: "s' = s5 \<or> (\<exists>i j. assert_woken env i j s5 = Inr s')"
    unfolding serial_writes_def Let_def try_bind_Inr by (elim exE conjE) (rule that, assumption+, auto split: if_splits)
  note k1 = kept_close [OF s1]
  have k2: "kept env s1 s2"
  proof (cases nxt)
    case None
    with s2 show ?thesis by (simp add: serial_next_def)
  next
    case (Some n)
    with s2 show ?thesis by (auto dest: serial_next_adds adds_kept)
  qed
  note k12 = kept_trans [OF k1 k2]
  have k36: "kept env s3 s'"
    using kept_trans [OF kept_trans [OF kept_serial_keepalive [OF s4] kept_serial_events [OF s5]]] s6 kept_assert kept_refl by blast
  have t2: "tables s2 = tables s" using k12 by (simp add: kept_def)
  have g2: "getInstance (record_trail ?e s2) (inst_id inst) = Some inst" "inst_version inst = fu_expected (serial_update now ids inp inst st x why branched nxt ?st)"
    using g by (simp_all add: flow_record_trail tables_reads [OF t2] serial_update_def)
  note u = flow_updateFrontier [OF s3 g2]
  have wq: "wf_queue s3 = wf_queue s2" by (simp add: u flow_record_trail)
  then have same: "packet_ids s3 = packet_ids s2" "queue_good env s3 = queue_good env s2"
    by (simp_all add: packet_ids_def queue_good_def)
  have q2: "queue_good env s2" and r2: "packet_ids s \<subseteq> packet_ids s2" using k12 q by (simp_all add: kept_def)
  then have q': "queue_good env s'" and r': "packet_ids s2 \<subseteq> packet_ids s'" using k36 same by (simp_all add: kept_def)
  show "queue_good env s'" by (rule q')
  have t': "tables s' = tables s3" using k36 by (simp add: kept_def)
  then show "wf_failures s' = wf_failures s" using t2 by (simp add: tables_eq u flow_record_trail)
  show "fresh (packet_ids s) (packet_ids s') (case view_next ids nxt of None \<Rightarrow> [] | Some (n, _) \<Rightarrow> [n])"
  proof (cases nxt)
    case None
    with r2 r' show ?thesis by (auto simp: view_next_def fresh_def)
  next
    case (Some n)
    with s2 have "adds env (id_packet ids 0) s1 s2" by (auto intro: serial_next_adds)
    from fresh_adds [OF q kept_adds [OF k1 this]] r' Some show ?thesis
      by (cases n) (auto simp: view_next_def fresh_def)
  qed
  have e: "closing_of ?e = entry_of (inst_id inst) st x (pi_packet inp)"
    by (simp add: closing_of_def serial_entry_def entry_of_def)
  have "flow_of s' = (flow_of s3)\<lparr>fl_rows := packet_ids s'\<rparr>" by (rule tables_reads(6) [OF t'])
  then show "flow_of s' = (flow_of s)\<lparr>fl_rows := packet_ids s', fl_runs := (fl_runs (flow_of s))(inst_id inst \<mapsto>
        serial_run (pi_packet inp) x st (view_next ids nxt) (routed_status nxt) (run_of inst)),
      fl_trail := fl_trail (flow_of s) @ [entry_of (inst_id inst) st x (pi_packet inp)]\<rparr>"
    by (simp only: u(1) flow_record_trail(1) tables_reads(6) [OF t2] e serial_run_view [OF refl refl]) simp
qed


lemma project_serial_Inr:
  assumes "project_serial env now ids inp inst spec packet st s = Inr (s', r)"
  obtains "s' = s"
  | x why ev branched nxt where "serial_writes env now ids inp inst spec packet st x why ev branched nxt s = Inr s'"
    "nxt = None \<Longrightarrow> x \<noteq> Exit_handoff"
    "\<And>t owner g. nxt = Some (t, owner, g) \<Longrightarrow> resolveNextStep spec st (Some x) = Some t \<and>
       \<not> exceedsMaxHops (inst_hops inst) (inst_baseline inst) (spec_max_hops spec)"
proof -
  let ?will = "branch_target st (pi_exit inp) \<noteq> None \<or> pi_exit inp = Exit_handoff"
  let ?trip = "?will \<and> exceedsMaxHops (inst_hops inst) (inst_baseline inst) (spec_max_hops spec)"
  let ?found = "resolveNextStep spec st (Some (pi_exit inp))"
  show thesis
  proof (cases "?will \<and> \<not> ?trip")
    case False
    then have "s' = s \<or> (\<exists>x why ev. serial_writes env now ids inp inst spec packet st x why ev
        (branch_target st (pi_exit inp) \<noteq> None) None s = Inr s' \<and> x = (if ?trip then Exit_failed else pi_exit inp))"
      using assms unfolding project_serial_def Let_def
      by (auto simp: try_bind_Inr split: if_splits)
    then show thesis
    proof (elim disjE exE conjE)
      assume "s' = s"
      then show thesis by (rule that(1))
    next
      fix x why ev
      assume "serial_writes env now ids inp inst spec packet st x why ev (branch_target st (pi_exit inp) \<noteq> None) None s = Inr s'"
        "x = (if ?trip then Exit_failed else pi_exit inp)"
      with False show thesis by (intro that(2)) auto
    qed
  next
    case True
    then have "s' = s \<or> (\<exists>why ev t owner g. ?found = Some t \<and> serial_writes env now ids inp inst spec packet st (pi_exit inp) why ev
        (branch_target st (pi_exit inp) \<noteq> None) (Some (t, owner, g)) s = Inr s')"
      using assms unfolding project_serial_def Let_def
      by (auto simp: try_bind_Inr split: if_splits option.splits)
    then show thesis
    proof (elim disjE exE conjE)
      assume "s' = s"
      then show thesis by (rule that(1))
    next
      fix why ev t owner g
      assume "?found = Some t" "serial_writes env now ids inp inst spec packet st (pi_exit inp) why ev
        (branch_target st (pi_exit inp) \<noteq> None) (Some (t, owner, g)) s = Inr s'"
      with True show thesis by (intro that(2)) auto
    qed
  qed
qed

text \<open>The effect of a verb: the queue and the failure ids stay good, the view takes a step or stays.\<close>

definition db_good :: "workflow_env \<Rightarrow> workflow_db \<Rightarrow> bool" where
  "db_good env s \<longleftrightarrow> queue_good env s \<and> distinct (map fo_id (wf_failures s))"

definition simulates :: "workflow_env \<Rightarrow> workflow_db \<Rightarrow> workflow_db \<Rightarrow> bool" where
  "simulates env s s' \<longleftrightarrow> db_good env s' \<and> (\<exists>i. flow_step (cached env) i (flow_of s) (flow_of s'))"

lemma simulates_refl: "db_good env s \<Longrightarrow> simulates env s s"
  using flow_step.grow [of "flow_of s" "fl_rows (flow_of s)" "cached env"] by (auto simp: simulates_def)

lemma simulates_kept:
  assumes "db_good env s" "kept env s s'"
  shows "simulates env s s'"
proof -
  have t: "tables s' = tables s" using assms(2) by (simp add: kept_def)
  have "packet_ids s \<subseteq> packet_ids s'" "queue_good env s'" using assms by (simp_all add: db_good_def kept_def)
  moreover have "fl_rows (flow_of s) = packet_ids s" by (simp add: flow_of_def)
  ultimately show ?thesis
    using flow_step.grow [of "flow_of s" "packet_ids s'" "cached env"] assms(1) t
    by (auto simp: simulates_def db_good_def tables_reads(6) [OF t] tables_eq)
qed

lemma flow_of_fields [simp]: "fl_rows (flow_of s) = packet_ids s"
  "fl_runs (flow_of s) i = map_option run_of (getInstance s i)"
  by (simp_all add: flow_of_def)

lemma run_of_fields [simp]: "rn_status (run_of x) = inst_status x" "rn_frontier (run_of x) = inst_frontier x"
  "rn_hops (run_of x) = inst_hops x" "rn_base (run_of x) = inst_baseline x" "rn_step (run_of x) = inst_step x"
  "rn_resumes (run_of x) = inst_resumes x" "rn_failed (run_of x) = dec_failed (inst_decision x)"
  by (simp_all add: run_of_def)

lemma serial_simulates:
  assumes e: "project_entry env inp s = Inr (inst, spec, packet, binding, st)" and d: "\<not> dependencyGraph spec"
    and p: "project_serial env now ids inp inst spec packet st s = Inr (s', r)" and ok: "db_good env s"
  shows "simulates env s s'"
  using p
proof (cases rule: project_serial_Inr)
  case 1
  with ok show ?thesis by (simp add: simulates_refl)
next
  case (2 x why ev branched nxt)
  note f = project_entry_Inr [OF e]
  from f(4) obtain raw where raw: "cached env (rn_spec (run_of inst)) = Some raw" "same_steps spec raw"
    by (rule getForInstance_cached)
  have q: "queue_good env s" using ok by (simp add: db_good_def)
  note w = serial_writes_flow [OF 2(1) f(1) q]
  have ps: "packet_step raw (run_of inst) (fl_binds (flow_of s) (inst_id inst) (pi_packet inp)) = Some st"
    using f(5,6) raw(2) by (auto intro: packet_step_view)
  have n: "\<forall>n t. view_next ids nxt = Some (n, t) \<longrightarrow> resolveNextStep raw st (Some x) = Some t \<and>
      \<not> exceedsMaxHops (rn_hops (run_of inst)) (rn_base (run_of inst)) (spec_max_hops raw)"
    using 2(3) same_steps_simps [OF raw(2)] by (auto simp: view_next_def)
  have l: "live (routed_status nxt)" by (simp add: routed_status_def split: option.split prod.split)
  have h: "view_next ids nxt = None \<longrightarrow> x \<noteq> Exit_handoff" using 2(2) by (auto simp: view_next_def)
  have "flow_step (cached env) (inst_id inst) (flow_of s) (flow_of s')"
    unfolding w(4)
    by (rule flow_step.serial [where spec = raw]) (use f w(3) d same_steps_graph [OF raw(2)] raw(1) ps n h l in simp_all)
  with w(1,2) ok show ?thesis by (auto simp: simulates_def db_good_def)
qed


section \<open>The dependency graph\<close>

lemma latest_positive:
  "0 < fold (\<lambda>(k, t) r. if tr_step t = i \<and> completes (tr_exit t) then Suc k else r) (List.enumerate n ts) r0 \<Longrightarrow>
     0 < r0 \<or> (\<exists>t \<in> set ts. tr_step t = i \<and> completes (tr_exit t))"
proof (induction ts arbitrary: n r0)
  case Nil
  then show ?case by simp
next
  case (Cons t ts)
  let ?r = "if tr_step t = i \<and> completes (tr_exit t) then Suc n else r0"
  have "0 < ?r \<or> (\<exists>t \<in> set ts. tr_step t = i \<and> completes (tr_exit t))"
    by (rule Cons.IH [of "Suc n"]) (use Cons.prems in simp)
  then show ?case by (auto split: if_splits)
qed

lemma completion_positive:
  assumes "0 < completion_ranks ts x step d"
  shows "(completes x \<and> d = step) \<or> (\<exists>t \<in> set ts. tr_step t = d \<and> completes (tr_exit t))"
  using assms latest_positive [of d 0 ts 0] by (auto simp: completion_ranks_def latestCompletion_def split: if_splits)

lemma graph_next_may_start:
  assumes "graph_next spec inst st x s = Inr ts" "t \<in> set ts" "same_steps spec raw"
  shows "may_start raw (inst_id inst) (fl_trail (flow_of s) @ [entry_of (inst_id inst) st x p]) st x t"
proof (cases "truthy (branch_target st x)")
  case True
  then show ?thesis
    using assms truthy_Some [OF True] same_steps_find [OF assms(3)]
    by (auto simp: graph_next_def may_start_def split: option.splits)
next
  case False
  let ?ts = "trail_of s (inst_id inst)"
  from False assms(1,2) have c: "completes x" "t \<in> set (steps spec)" "dependencies t \<noteq> []"
    "\<forall>d \<in> set (dependencies t). completed_in spec (completion_ranks ?ts x (step_id st)) d"
    by (auto simp: graph_next_def ready_def split: if_splits)
  have "\<exists>e \<in> set (fl_trail (flow_of s) @ [entry_of (inst_id inst) st x p]).
      en_run e = inst_id inst \<and> en_step e = d \<and> completes (en_exit e)" if "d \<in> set (dependencies t)" for d
  proof -
    have "0 < completion_ranks ?ts x (step_id st) d" using c(4) that by (auto simp: completed_in_def)
    then consider "d = step_id st" | u where "u \<in> set ?ts" "tr_step u = d" "completes (tr_exit u)"
      using completion_positive by blast
    then show ?thesis
    proof cases
      case 1
      with c(1) show ?thesis by auto
    next
      case 2
      then have "closing_of u \<in> set (fl_trail (flow_of s))" by (auto simp: trail_of_def flow_of_def)
      with 2 show ?thesis
        by (intro bexI [of _ "closing_of u"]) (auto simp: closing_of_def trail_of_def)
    qed
  qed
  moreover have "t \<in> set (steps raw)" using c(2) assms(3) by (simp add: same_steps_def)
  ultimately show ?thesis using c(3) by (simp add: may_start_def)
qed

lemma graph_plans_steps:
  "graph_plans env ids spec inst k sts = Inr ps \<Longrightarrow> map gp_step ps = sts"
  by (induction sts arbitrary: k ps) (auto simp: try_bind_Inr split: if_splits prod.splits)

definition plan_view :: "graph_plan list \<Rightarrow> (string \<times> step_spec) list" where
  "plan_view ps = map (\<lambda>p. (gp_packet p, gp_step p)) ps"

lemma plan_view_simps [simp]: "map fst (plan_view ps) = map gp_packet ps" "plan_view [] = []"
  "plan_view (p # ps) = (gp_packet p, gp_step p) # plan_view ps" "plan_view ps = [] \<longleftrightarrow> ps = []"
  "set (map snd (plan_view ps)) = set (map gp_step ps)"
  by (auto simp: plan_view_def)

lemma bind_all_Cons:
  assumes "n \<notin> set (map fst ns)"
  shows "bind_all i b ((n, t) # ns) B
     = bind_all i b ns (B(i := (B i)(n \<mapsto> \<lparr>bd_step = step_id t, bd_hops = bd_hops b + 1, bd_base = bd_base b\<rparr>)))"
proof -
  have "map_of ns n = None" using assms by (simp add: map_of_eq_None_iff)
  then show ?thesis by (auto simp: bind_all_def fun_eq_iff split: option.split)
qed

lemma project_plan_flow:
  assumes "project_plan env now ids spec inst inp st note b fans k p s = Inr s'" "queue_good env s"
  shows "queue_good env s' \<and> wf_failures s' = wf_failures s \<and> getInstance s' = getInstance s \<and>
    fresh (packet_ids s) (packet_ids s') [gp_packet p] \<and>
    flow_of s' = (flow_of s)\<lparr>fl_rows := packet_ids s', fl_binds := (fl_binds (flow_of s))(inst_id inst :=
      (fl_binds (flow_of s) (inst_id inst))(gp_packet p \<mapsto>
        \<lparr>bd_step = step_id (gp_step p), bd_hops = fb_hops b + 1, bd_base = fb_base b\<rparr>))\<rparr>"
proof -
  let ?c = "next_create env spec inst inp st (gp_step p) note (gp_gate p) (gp_packet p) (gp_owner p) (plan_tags spec inst p)"
  let ?b = "\<lparr>fb_instance = inst_id inst, fb_packet = gp_packet p, fb_step = step_id (gp_step p),
         fb_drive = fb_drive b + (if fans then 1 else 0), fb_hops = fb_hops b + 1, fb_base = fb_base b, fb_created = now\<rparr>"
  from assms(1) obtain s1 s2 s3 s4 where
    s1: "create_woken env now ?c s = Inr s1"
    and s2: "park_on_person env now (gp_packet p) (pi_actor inp) (pi_provenance inp) (parked_on (gp_gate p)) s1 = Inr s2"
    and s3: "bindFrontierPacket ?b s2 = Inr s3"
    and s4: "on_queue env (\<lambda>_. ensureWorkflowKeepaliveArmed env now (id_job ids k) (inst_id inst) (gp_owner p)
         (pi_actor inp) (Some (gp_packet p))) s3 = Inr s4"
    and s': "s' = log_event (Workflow_next_qitem_projected (inst_id inst) (gp_packet p) (gp_owner p) (step_id (gp_step p))) s4"
    unfolding project_plan_def try_bind_Inr by auto
  have a: "adds env (gp_packet p) s s2"
    using adds_then [OF adds_woken [OF s1] kept_park [OF s2]] by (simp add: next_create_def packet_create_def)
  note bd = flow_bind [OF s3]
  have k: "kept env s3 s'" unfolding s' by (rule kept_trans [OF kept_arm_plan [OF s4] kept_event])
  have t2: "tables s2 = tables s" and t': "tables s' = tables s3" using a k by (simp_all add: adds_def kept_def)
  have same: "packet_ids s3 = packet_ids s2" "queue_good env s3 = queue_good env s2"
    by (simp_all add: packet_ids_def queue_good_def bd(2))
  have "queue_good env s2" using a assms(2) by (simp add: adds_def kept_def)
  then have q': "queue_good env s'" and r': "packet_ids s2 \<subseteq> packet_ids s'" using k same by (simp_all add: kept_def)
  have "fresh (packet_ids s) (packet_ids s') [gp_packet p]" using fresh_adds [OF assms(2) a] r' by (auto simp: fresh_def)
  moreover have "wf_failures s' = wf_failures s" "getInstance s' = getInstance s"
    using t2 t' tables_reads(1) [OF t'] tables_reads(1) [OF t2] by (simp_all add: tables_eq bd)
  ultimately show ?thesis
    using q' by (simp add: tables_reads(6) [OF t'] bd(1) tables_reads(6) [OF t2] bound_of_def)
qed

lemma project_plans_flow:
  assumes "project_plans env now ids spec inst inp st note b fans k ps s = Inr s'" "queue_good env s"
  shows "queue_good env s' \<and> wf_failures s' = wf_failures s \<and> getInstance s' = getInstance s \<and>
    fresh (packet_ids s) (packet_ids s') (map gp_packet ps) \<and>
    flow_of s' = (flow_of s)\<lparr>fl_rows := packet_ids s',
      fl_binds := bind_all (inst_id inst) (bound_of b) (plan_view ps) (fl_binds (flow_of s))\<rparr>"
  using assms
proof (induction ps arbitrary: k s)
  case Nil
  then show ?case by (simp add: fresh_def bind_all_def flow_of_def fun_eq_iff)
next
  case (Cons p ps)
  then obtain s1 where s1: "project_plan env now ids spec inst inp st note b fans k p s = Inr s1"
    "project_plans env now ids spec inst inp st note b fans (Suc k) ps s1 = Inr s'"
    by (auto simp: try_bind_Inr)
  note a = project_plan_flow [OF s1(1) Cons.prems(2)]
  then have "queue_good env s1" by blast
  note c = Cons.IH [OF s1(2) this]
  have f: "fresh (packet_ids s) (packet_ids s') (map gp_packet (p # ps))" "gp_packet p \<notin> set (map gp_packet ps)"
    using a c by (auto simp: fresh_def)
  have "bind_all (inst_id inst) (bound_of b) (plan_view (p # ps)) (fl_binds (flow_of s)) =
      bind_all (inst_id inst) (bound_of b) (plan_view ps) (fl_binds (flow_of s1))"
    using a bind_all_Cons [of "gp_packet p" "plan_view ps" "inst_id inst" "bound_of b" "gp_step p" "fl_binds (flow_of s)"] f(2)
    by (simp add: bound_of_def)
  with c have "flow_of s' = (flow_of s1)\<lparr>fl_rows := packet_ids s',
      fl_binds := bind_all (inst_id inst) (bound_of b) (plan_view (p # ps)) (fl_binds (flow_of s))\<rparr>"
    by (simp only:)
  moreover obtain X where "flow_of s1 = (flow_of s)\<lparr>fl_rows := packet_ids s1, fl_binds := X\<rparr>" using a by blast
  ultimately show ?case using a c f(1) by simp
qed


lemma flow_release:
  assumes "queue_good env s" "s' = release_packet env inst p x s"
  shows "queue_good env s'" "packet_ids s \<subseteq> packet_ids s'" "wf_failures s' = wf_failures s" "getInstance s' = getInstance s"
    "flow_of s' = (flow_of s)\<lparr>fl_rows := packet_ids s',
      fl_binds := (if x = Exit_waiting then fl_binds (flow_of s) else unbind (inst_id inst) p (fl_binds (flow_of s)))\<rparr>"
proof -
  let ?u = "removeFrontierBinding (inst_id inst) p s"
  let ?db = "disarmWorkflowKeepalive env (inst_id inst) (''workflow_packet_'' @ exit_name x) (Some p) (wf_queue s)"
  have k: "kept env ?u (?u\<lparr>wf_queue := ?db\<rparr>)"
    by (rule keptI [OF refl]) (auto simp: flow_unbind intro!: same_writes disarm_core)
  have eq: "s' = (if x = Exit_waiting then s else ?u\<lparr>wf_queue := ?db\<rparr>)"
    by (simp add: assms(2) release_packet_def flow_unbind)
  have same: "packet_ids ?u = packet_ids s" "queue_good env ?u = queue_good env s"
    by (simp_all add: packet_ids_def queue_good_def flow_unbind)
  have t: "tables (?u\<lparr>wf_queue := ?db\<rparr>) = tables ?u" using k by (simp add: kept_def)
  show "queue_good env s'" "packet_ids s \<subseteq> packet_ids s'" using k same assms(1) by (auto simp: eq kept_def)
  show "wf_failures s' = wf_failures s" "getInstance s' = getInstance s"
    using tables_reads(1) [OF t] by (simp_all add: eq flow_unbind)
  show "flow_of s' = (flow_of s)\<lparr>fl_rows := packet_ids s',
      fl_binds := (if x = Exit_waiting then fl_binds (flow_of s) else unbind (inst_id inst) p (fl_binds (flow_of s)))\<rparr>"
  proof (cases "x = Exit_waiting")
    case True
    then show ?thesis by (simp add: eq flow_of_def)
  next
    case False
    then show ?thesis unfolding eq by (simp only: tables_reads(6) [OF t] flow_unbind(1) if_False) simp
  qed
qed

lemma flow_fail:
  assumes "recordFailureOccurrence oc s = Inr s'"
  shows "flow_of s' = (flow_of s)\<lparr>fl_fails := (fl_fails (flow_of s))(fo_id oc \<mapsto> occurrence_of oc)\<rparr>"
    "fl_fails (flow_of s) (fo_id oc) = None" "wf_queue s' = wf_queue s" "getInstance s' = getInstance s"
    "wf_failures s' = wf_failures s @ [oc]" "fo_id oc \<notin> fo_id ` set (wf_failures s)"
proof -
  from assms have s': "fo_id oc \<notin> fo_id ` set (wf_failures s)" "s' = s\<lparr>wf_failures := wf_failures s @ [oc]\<rparr>"
    by (auto simp: recordFailureOccurrence_def row_insert_Some split: option.splits)
  then have "row_get fo_id (fo_id oc) (wf_failures s) = None" by (simp add: row_get_None)
  with s' show "flow_of s' = (flow_of s)\<lparr>fl_fails := (fl_fails (flow_of s))(fo_id oc \<mapsto> occurrence_of oc)\<rparr>"
    "fl_fails (flow_of s) (fo_id oc) = None" "wf_queue s' = wf_queue s" "getInstance s' = getInstance s"
    "wf_failures s' = wf_failures s @ [oc]" "fo_id oc \<notin> fo_id ` set (wf_failures s)"
    by (auto simp: flow_of_def packet_ids_def getInstance_def getFrontierBinding_def fun_eq_iff row_get_append row_get_Cons
      row_get_Nil split: option.split)
qed

lemma unresolved_open:
  assumes "distinct (map fo_id (wf_failures s))"
  shows "0 < unresolved_count s i \<longleftrightarrow> open_failure (fl_fails (flow_of s)) i"
proof -
  have "0 < unresolved_count s i \<longleftrightarrow> (\<exists>oc \<in> set (wf_failures s). fo_instance oc = i \<and> \<not> fo_resolved oc)"
    by (auto simp: unresolved_count_def listFailureOccurrences_def filter_empty_conv)
  also have "\<dots> \<longleftrightarrow> open_failure (fl_fails (flow_of s)) i"
    using row_get_distinct [OF assms] row_get_Some [of fo_id _ "wf_failures s"]
    by (fastforce simp: open_failure_def flow_of_def occurrence_of_def)
  finally show ?thesis .
qed

definition graph_run :: "string \<Rightarrow> workflow_exit \<Rightarrow> step_spec \<Rightarrow> graph_plan list \<Rightarrow> instance_status \<Rightarrow> string option \<Rightarrow> run \<Rightarrow> run" where
  "graph_run p x st plans s z r = r\<lparr>rn_status := s,
     rn_frontier := without p (rn_frontier r) @ (if x = Exit_waiting then [p] else map fst (plan_view plans)),
     rn_step := z, rn_failed := Some (step_id st, p), rn_hops := rn_hops r + (if plan_view plans = [] then 0 else 1)\<rparr>"

lemma graph_settle_flow:
  assumes w: "graph_settle now inp inst st x note ev plans s = Inr s'"
    and g: "getInstance s (inst_id inst) = Some inst" and q: "queue_good env s"
  obtains z where "queue_good env s'" "packet_ids s \<subseteq> packet_ids s'" "wf_failures s' = wf_failures s"
    "flow_of s' = (flow_of s)\<lparr>fl_rows := packet_ids s',
      fl_runs := (fl_runs (flow_of s))(inst_id inst \<mapsto> graph_run (pi_packet inp) x st plans
        (graph_status s (inst_id inst) (graph_frontier inst (pi_packet inp) x plans)) z (run_of inst)),
      fl_trail := fl_trail (flow_of s) @ [entry_of (inst_id inst) st x (pi_packet inp)]\<rparr>"
proof -
  let ?i = "inst_id inst"
  let ?fr = "graph_frontier inst (pi_packet inp) x plans"
  let ?st = "graph_status s ?i ?fr"
  let ?u = "\<lparr>fu_bump = plans \<noteq> [],
             fu_decision = Some (Decided_graph x (pi_actor inp) (pi_packet inp) (step_id st) (map gp_packet plans)),
             fu_completedAt = (if terminal_status ?st then Some now else None),
             fu_step = singleton_step s ?i, fu_expected = inst_version inst, fu_resume = None\<rparr>"
  let ?e = "\<lparr>tr_instance = ?i, tr_step = step_id st, tr_role = actor_role st, tr_closedAt = now, tr_exit = x,
                    tr_evidence = Some (spread ev ''next_qitem_ids'' (packets_json plans)), tr_actor = pi_actor inp,
                    tr_next = at (map gp_packet plans) 0, tr_prior = pi_packet inp\<rparr>"
  from w obtain s1 where s1: "updateFrontier ?i ?fr ?st ?u s = Inr s1" and k: "kept env (record_trail ?e s1) s'"
    unfolding graph_settle_def Let_def try_bind_Inr
    by (elim exE conjE) (rule that, assumption, auto intro: kept_trans [OF kept_event kept_event])
  have v: "inst_version inst = fu_expected ?u" by simp
  note u = flow_updateFrontier [OF s1 g v]
  have t: "tables s' = tables (record_trail ?e s1)" using k by (simp add: kept_def)
  have same: "packet_ids (record_trail ?e s1) = packet_ids s" "queue_good env (record_trail ?e s1) = queue_good env s"
    by (simp_all add: packet_ids_def queue_good_def flow_record_trail u)
  have r: "run_of (updated_instance ?fr ?st ?u inst) = graph_run (pi_packet inp) x st plans ?st
      (case singleton_step s ?i of Preserve_step \<Rightarrow> inst_step inst | Clear_step \<Rightarrow> None | Set_step i \<Rightarrow> Some i) (run_of inst)"
    by (simp add: run_of_def updated_instance_def graph_run_def graph_frontier_def without_def dec_failed_def)
  have e: "closing_of ?e = entry_of ?i st x (pi_packet inp)" by (simp add: closing_of_def entry_of_def)
  show thesis
  proof (rule that)
    show "queue_good env s'" "packet_ids s \<subseteq> packet_ids s'" using k same q by (simp_all add: kept_def)
    show "wf_failures s' = wf_failures s" using t by (simp add: tables_eq flow_record_trail u)
    show "flow_of s' = (flow_of s)\<lparr>fl_rows := packet_ids s',
      fl_runs := (fl_runs (flow_of s))(?i \<mapsto> graph_run (pi_packet inp) x st plans ?st
        (case singleton_step s ?i of Preserve_step \<Rightarrow> inst_step inst | Clear_step \<Rightarrow> None | Set_step i \<Rightarrow> Some i) (run_of inst)),
      fl_trail := fl_trail (flow_of s) @ [entry_of ?i st x (pi_packet inp)]\<rparr>"
      by (simp only: tables_reads(6) [OF t] flow_record_trail(1) u(1) r e) simp
  qed
qed


lemma project_graph_Inr:
  assumes "project_graph env now ids inp inst spec packet b st s = Inr (s', r)"
  obtains "s' = s"
  | nexts tripped x why ev fails plans where
    "graph_next spec inst st (pi_exit inp) s = Inr nexts"
    "tripped = (nexts \<noteq> [] \<and> exceedsMaxHops (fb_hops b) (fb_base b) (spec_max_hops spec))"
    "x = (if tripped then Exit_failed else pi_exit inp)"
    "graph_plans env ids spec inst 0 (if tripped then [] else nexts) = Inr plans"
    "graph_writes env now ids inp inst spec packet b st x why ev fails plans s = Inr s'"
proof (cases "pi_exit inp = Exit_waiting \<and> inst_status inst = Inst_waiting \<and> matchesStoredWaitingDecision s inst inp (step_id st)")
  case True
  with assms that(1) show thesis by (simp add: project_graph_def)
next
  case False
  from assms show thesis
    unfolding project_graph_def Let_def if_not_P [OF False] try_bind_Inr
    by (elim exE conjE) (rule that(2), assumption, rule refl, rule refl, assumption, auto)
qed

text \<open>The graph's transaction.\<close>

lemma graph_writes_flow:
  assumes w: "graph_writes env now ids inp inst spec packet b st x why ev fails plans s = Inr s'"
    and g: "getInstance s (inst_id inst) = Some inst" and ok: "db_good env s"
  obtains F z st' where "db_good env s'" "fresh (packet_ids s) (packet_ids s') (map gp_packet plans)"
    "F = fl_fails (flow_of s) \<or> fl_fails (flow_of s) (pi_packet inp) = None \<and>
       F = (fl_fails (flow_of s))(pi_packet inp \<mapsto> \<lparr>oc_run = inst_id inst, oc_step = step_id st, oc_resolved = False\<rparr>)"
    "if graph_frontier inst (pi_packet inp) x plans = []
     then st' = (if open_failure F (inst_id inst) then Inst_failed else Inst_completed) else live st'"
    "flow_of s' = (flow_of s)\<lparr>fl_rows := packet_ids s',
      fl_runs := (fl_runs (flow_of s))(inst_id inst \<mapsto> graph_run (pi_packet inp) x st plans st' z (run_of inst)),
      fl_binds := bind_all (inst_id inst) (bound_of b) (plan_view plans)
        (if x = Exit_waiting then fl_binds (flow_of s) else unbind (inst_id inst) (pi_packet inp) (fl_binds (flow_of s))),
      fl_fails := F, fl_trail := fl_trail (flow_of s) @ [entry_of (inst_id inst) st x (pi_packet inp)]\<rparr>"
proof -
  from w obtain c s1 s2 s3 s4 where
    s1: "close_packet env now (id_park_job ids) inp inst st (unanswered_gate inp st packet) c (x = Exit_waiting \<and> plans = []) s = Inr s1"
    and s2: "project_plans env now ids spec inst inp st why b (1 < length plans) 0 plans (release_packet env inst (pi_packet inp) x s1) = Inr s2"
    and s3: "(if fails then graph_failure env now ids inp inst spec b st why s2 else Inr s2) = Inr s3"
    and s4: "graph_settle now inp inst st x why ev plans s3 = Inr s4"
    and s5: "s' = s4 \<or> (\<exists>i j. assert_woken env i j s4 = Inr s')"
    unfolding graph_writes_def try_bind_Inr
    by (elim exE conjE) (rule that, assumption, assumption, assumption, assumption, auto split: if_splits)
  define s1' where "s1' = release_packet env inst (pi_packet inp) x s1"
  have k1: "kept env s s1" by (rule kept_close [OF s1])
  have q: "queue_good env s" and d: "distinct (map fo_id (wf_failures s))" using ok by (simp_all add: db_good_def)
  have t1: "tables s1 = tables s" and q1: "queue_good env s1" and r1: "packet_ids s \<subseteq> packet_ids s1"
    using k1 q by (simp_all add: kept_def)
  note rel = flow_release [OF q1 s1'_def]
  from project_plans_flow [OF s2 [folded s1'_def] rel(1)] have
    q2: "queue_good env s2" and f2: "wf_failures s2 = wf_failures s1'" "getInstance s2 = getInstance s1'"
    and fr2: "fresh (packet_ids s1') (packet_ids s2) (map gp_packet plans)"
    and v2: "flow_of s2 = (flow_of s1')\<lparr>fl_rows := packet_ids s2,
      fl_binds := bind_all (inst_id inst) (bound_of b) (plan_view plans) (fl_binds (flow_of s1'))\<rparr>" by simp_all
  have i2: "getInstance s2 (inst_id inst) = Some inst" and w2: "wf_failures s2 = wf_failures s"
    using f2 rel(3,4) tables_reads(1) [OF t1] g t1 by (simp_all add: tables_eq)
  define F where "F = fl_fails (flow_of s3)"
  have m: "queue_good env s3 \<and> packet_ids s2 \<subseteq> packet_ids s3 \<and> getInstance s3 = getInstance s2 \<and>
      distinct (map fo_id (wf_failures s3)) \<and> flow_of s3 = (flow_of s2)\<lparr>fl_rows := packet_ids s3, fl_fails := F\<rparr> \<and>
      (F = fl_fails (flow_of s2) \<or> fl_fails (flow_of s2) (pi_packet inp) = None \<and>
       F = (fl_fails (flow_of s2))(pi_packet inp \<mapsto> \<lparr>oc_run = inst_id inst, oc_step = step_id st, oc_resolved = False\<rparr>))"
  proof (cases fails)
    case False
    with s3 q2 d w2 show ?thesis by (simp add: F_def flow_of_def)
  next
    case True
    with s3 obtain t where t: "recordFailureOccurrence \<lparr>fo_id = pi_packet inp, fo_instance = inst_id inst,
         fo_packet = pi_packet inp, fo_step = step_id st, fo_drive = fb_drive b, fo_hops = fb_hops b,
         fo_base = fb_base b, fo_reason = why, fo_resolved = False, fo_redrive = None,
         fo_decision = None, fo_failedAt = now, fo_resolvedAt = None\<rparr> s2 = Inr t" "kept env t s3"
      by (auto simp: graph_failure_def try_bind_Inr dest: kept_admit)
    note r = flow_fail [OF t(1)]
    have tt: "tables s3 = tables t" using t(2) by (simp add: kept_def)
    have same: "packet_ids t = packet_ids s2" "queue_good env t = queue_good env s2"
      by (simp_all add: packet_ids_def queue_good_def r)
    show ?thesis
      using t(2) same q2 tables_reads(1,6) [OF tt] tt r(2,5,6) d w2
      by (auto simp: F_def kept_def r(1,2,4) tables_eq occurrence_of_def)
  qed
  have i3: "getInstance s3 (inst_id inst) = Some inst" using m i2 by simp
  from m have q3: "queue_good env s3" by blast
  from graph_settle_flow [OF s4 i3 q3] obtain z where
    q4: "queue_good env s4" "packet_ids s3 \<subseteq> packet_ids s4" "wf_failures s4 = wf_failures s3"
    and v4: "flow_of s4 = (flow_of s3)\<lparr>fl_rows := packet_ids s4,
      fl_runs := (fl_runs (flow_of s3))(inst_id inst \<mapsto> graph_run (pi_packet inp) x st plans
        (graph_status s3 (inst_id inst) (graph_frontier inst (pi_packet inp) x plans)) z (run_of inst)),
      fl_trail := fl_trail (flow_of s3) @ [entry_of (inst_id inst) st x (pi_packet inp)]\<rparr>" by blast
  have k5: "kept env s4 s'" using s5 kept_assert by auto
  then have t5: "tables s' = tables s4" and q5: "queue_good env s'" "packet_ids s4 \<subseteq> packet_ids s'"
    using q4(1) by (simp_all add: kept_def)
  show thesis
  proof (rule that)
    show "db_good env s'" using q5 t5 q4(3) m by (simp add: db_good_def tables_eq)
    show "fresh (packet_ids s) (packet_ids s') (map gp_packet plans)"
      by (rule fresh_mono [OF fr2]) (use r1 rel(2) m q4(2) q5(2) in blast)+
    show "F = fl_fails (flow_of s) \<or> fl_fails (flow_of s) (pi_packet inp) = None \<and>
       F = (fl_fails (flow_of s))(pi_packet inp \<mapsto> \<lparr>oc_run = inst_id inst, oc_step = step_id st, oc_resolved = False\<rparr>)"
      using m v2 rel(5) tables_reads(6) [OF t1] by auto
    show "if graph_frontier inst (pi_packet inp) x plans = []
     then graph_status s3 (inst_id inst) (graph_frontier inst (pi_packet inp) x plans)
        = (if open_failure F (inst_id inst) then Inst_failed else Inst_completed)
     else live (graph_status s3 (inst_id inst) (graph_frontier inst (pi_packet inp) x plans))"
      using m unresolved_open [of s3 "inst_id inst"] by (auto simp: graph_status_def F_def)
    show "flow_of s' = (flow_of s)\<lparr>fl_rows := packet_ids s',
      fl_runs := (fl_runs (flow_of s))(inst_id inst \<mapsto> graph_run (pi_packet inp) x st plans
        (graph_status s3 (inst_id inst) (graph_frontier inst (pi_packet inp) x plans)) z (run_of inst)),
      fl_binds := bind_all (inst_id inst) (bound_of b) (plan_view plans)
        (if x = Exit_waiting then fl_binds (flow_of s) else unbind (inst_id inst) (pi_packet inp) (fl_binds (flow_of s))),
      fl_fails := F, fl_trail := fl_trail (flow_of s) @ [entry_of (inst_id inst) st x (pi_packet inp)]\<rparr>"
      using m v2 v4 rel(5) tables_reads(6) [OF t1] tables_reads(6) [OF t5] by simp
  qed
qed


lemma graph_simulates:
  assumes e: "project_entry env inp s = Inr (inst, spec, packet, Some b, st)" and d: "dependencyGraph spec"
    and p: "project_graph env now ids inp inst spec packet b st s = Inr (s', r)" and ok: "db_good env s"
  shows "simulates env s s'"
  using p
proof (cases rule: project_graph_Inr)
  case 1
  with ok show ?thesis by (simp add: simulates_refl)
next
  case (2 nexts tripped x why ev fails plans)
  let ?p = "pi_packet inp"
  let ?i = "inst_id inst"
  note f = project_entry_Inr [OF e]
  from f(4) obtain raw where raw: "cached env (rn_spec (run_of inst)) = Some raw" "same_steps spec raw"
    by (rule getForInstance_cached)
  from 2(5) f(1) ok obtain F z st' where w: "db_good env s'"
    "fresh (packet_ids s) (packet_ids s') (map gp_packet plans)"
    "F = fl_fails (flow_of s) \<or> fl_fails (flow_of s) ?p = None \<and>
       F = (fl_fails (flow_of s))(?p \<mapsto> \<lparr>oc_run = ?i, oc_step = step_id st, oc_resolved = False\<rparr>)"
    "if graph_frontier inst ?p x plans = []
     then st' = (if open_failure F ?i then Inst_failed else Inst_completed) else live st'"
    "flow_of s' = (flow_of s)\<lparr>fl_rows := packet_ids s',
      fl_runs := (fl_runs (flow_of s))(?i \<mapsto> graph_run ?p x st plans st' z (run_of inst)),
      fl_binds := bind_all ?i (bound_of b) (plan_view plans)
        (if x = Exit_waiting then fl_binds (flow_of s) else unbind ?i ?p (fl_binds (flow_of s))),
      fl_fails := F, fl_trail := fl_trail (flow_of s) @ [entry_of ?i st x ?p]\<rparr>" by (rule graph_writes_flow)
  have b: "fl_binds (flow_of s) ?i ?p = Some (bound_of b)" by (simp add: flow_of_def f(5) [symmetric])
  have st: "find_step raw (bd_step (bound_of b)) = Some st"
    using f(6) by (simp add: step_of_packet_def bound_of_def same_steps_find [OF raw(2)])
  note gp = graph_plans_steps [OF 2(4)]
  have ns: "\<forall>(n, t) \<in> set (plan_view plans). may_start raw ?i (fl_trail (flow_of s) @ [entry_of ?i st x ?p]) st x t"
  proof clarify
    fix n t
    assume "(n, t) \<in> set (plan_view plans)"
    then have "t \<in> set (map gp_step plans)" by (auto simp: plan_view_def)
    then have t: "t \<in> set nexts" and x: "x = pi_exit inp" using gp 2(3) by (auto split: if_splits)
    show "may_start raw ?i (fl_trail (flow_of s) @ [entry_of ?i st x ?p]) st x t"
      unfolding x by (rule graph_next_may_start [OF 2(1) t raw(2)])
  qed
  have h: "plan_view plans \<noteq> [] \<longrightarrow> \<not> exceedsMaxHops (bd_hops (bound_of b)) (bd_base (bound_of b)) (spec_max_hops raw)"
    using gp 2(2) same_steps_hops [OF raw(2)] by (auto simp: bound_of_def split: if_splits)
  have fr: "graph_frontier inst ?p x plans = without ?p (rn_frontier (run_of inst)) @
      (if x = Exit_waiting then [?p] else map fst (plan_view plans))"
    by (simp add: graph_frontier_def without_def)
  have "flow_step (cached env) ?i (flow_of s) (flow_of s')"
    unfolding w(5) graph_run_def
    by (rule flow_step.graph [where spec = raw and b = "bound_of b" and ns = "plan_view plans", OF _ _ _ _ _ _ _ _ ns h w(3) refl])
      (use f(1-3) d raw(1) b st w(2,4) same_steps_graph [OF raw(2)] fr in \<open>simp_all add: live_def\<close>)
  with w(1) show ?thesis by (auto simp: simulates_def)
qed

lemma project_simulates:
  assumes "project env now ids inp s = Inr (s', r)" "db_good env s"
  shows "simulates env s s'"
proof -
  from assms(1) obtain inst spec packet binding st where
    e: "project_entry env inp s = Inr (inst, spec, packet, binding, st)"
    and p: "(if dependencyGraph spec then case binding of None \<Rightarrow> Inl Binding_indeterminate
        | Some b \<Rightarrow> project_graph env now ids inp inst spec packet b st s
      else project_serial env now ids inp inst spec packet st s) = Inr (s', r)"
    by (auto simp: project_def try_bind_Inr)
  show ?thesis
  proof (cases "dependencyGraph spec")
    case True
    with p obtain b where "binding = Some b" "project_graph env now ids inp inst spec packet b st s = Inr (s', r)"
      by (auto split: option.splits)
    with e True assms(2) show ?thesis by (auto intro: graph_simulates)
  next
    case False
    with e p assms(2) show ?thesis by (auto intro: serial_simulates)
  qed
qed

end
