(* ===== verification/Workflow_Verbs.thy ===== *)
theory Workflow_Verbs
  imports Workflow_Refines
begin

text \<open>
  The runtime's other verbs as steps of \<open>Workflow_Flow\<close>: instantiate, route, resume in its two forms, abort
  and the reconciliation of overdue exceptions.
\<close>

section \<open>Instantiate\<close>

text \<open>The cache holds what the readers returned: \<open>readThrough\<close> and \<open>putSpec\<close> store before they return.\<close>

definition caches :: "workflow_env \<Rightarrow> bool" where
  "caches env \<longleftrightarrow> (\<forall>path spec. v_read env path = Some spec \<longrightarrow> v_cache env (spec_id spec) (spec_version spec) = Some spec) \<and>
     (\<forall>src spec. v_put env src = Some spec \<longrightarrow> v_cache env (spec_id spec) (spec_version spec) = Some spec)"

lemma bind_rig_ids: "spec_id (bindSpecToRig spec rig) = spec_id spec" "spec_version (bindSpecToRig spec rig) = spec_version spec"
  "steps (bindSpecToRig spec rig) = steps spec"
  by (simp_all add: bindSpecToRig_def split: option.split)

lemma validated_ids:
  assumes "result_ok (validate alive hosts spec)"
  shows "\<forall>st \<in> set (steps spec). step_id st \<noteq> []"
  using assms unfolding validate_ok_parts check_steps_clean by (auto simp: step_part_def)

lemma instantiate_spec_Inr:
  assumes "instantiate_spec env inp = Inr spec" "caches env"
  shows "cached env (spec_id spec, spec_version spec) = Some spec" "steps spec \<noteq> []" "\<forall>st \<in> set (steps spec). step_id st \<noteq> []"
proof -
  from assms(1) have r: "(\<exists>path. v_read env path = Some spec) \<or> (\<exists>src. v_put env src = Some spec)"
    "result_ok (validate (Some (v_seatAlive env)) (Some (v_hosts env)) spec)" "steps spec \<noteq> []"
    by (auto simp: instantiate_spec_def effect_simps simp del: unless_refused_Cons split: option.splits)
  from r(1) assms(2) show "cached env (spec_id spec, spec_version spec) = Some spec" by (auto simp: caches_def cached_def)
  show "steps spec \<noteq> []" "\<forall>st \<in> set (steps spec). step_id st \<noteq> []" by (rule r(3), rule validated_ids [OF r(2)])
qed

lemma flow_create:
  assumes "create_instance now i inp s = Inr (s', x)"
  shows "x = new_instance now i inp" "getInstance s i = None" "getInstance s' i = Some x"
    "flow_of s' = (flow_of s)\<lparr>fl_runs := (fl_runs (flow_of s))(i \<mapsto> run_of x)\<rparr>"
    "wf_queue s' = wf_queue s" "wf_failures s' = wf_failures s"
proof -
  from assms have x: "x = new_instance now i inp" and r: "i \<notin> inst_id ` set (wf_instances s)"
      "s' = s\<lparr>wf_instances := wf_instances s @ [x]\<rparr>"
    by (auto simp: create_instance_def Let_def row_insert_Some new_instance_def split: option.splits if_splits)
  show "x = new_instance now i inp" by (rule x)
  show n: "getInstance s i = None" using r(1) by (simp add: getInstance_def row_get_None)
  then have "getInstance s' = (getInstance s)(i \<mapsto> x)"
    by (auto simp: getInstance_def r(2) x new_instance_def row_simps fun_eq_iff split: option.split)
  then show "getInstance s' i = Some x" "flow_of s' = (flow_of s)\<lparr>fl_runs := (fl_runs (flow_of s))(i \<mapsto> run_of x)\<rparr>"
    by (auto simp: flow_of_def fun_eq_iff r(2) packet_ids_def getFrontierBinding_def)
  show "wf_queue s' = wf_queue s" "wf_failures s' = wf_failures s" by (simp_all add: r(2))
qed

text \<open>The same row ids and queue, other tables.\<close>

lemma same_queue: "wf_queue s' = wf_queue s \<Longrightarrow> packet_ids s' = packet_ids s \<and> queue_good env s' = queue_good env s"
  by (simp add: packet_ids_def queue_good_def)

lemma bind_packet_flow:
  assumes "bind_packet now i p step d h b s = Inr s'"
  shows "flow_of s' = (flow_of s)\<lparr>fl_binds := (fl_binds (flow_of s))(i :=
      (fl_binds (flow_of s) i)(p \<mapsto> \<lparr>bd_step = step, bd_hops = h, bd_base = b\<rparr>))\<rparr>"
    "wf_queue s' = wf_queue s" "getInstance s' = getInstance s" "wf_failures s' = wf_failures s"
  using flow_bind [OF assms [unfolded bind_packet_def]] by (simp_all add: bound_of_def)

lemma start_simulates:
  assumes w: "start_instance env now ids inp scope spec st rig owner gt s = Inr s'" and ok: "db_good env s"
    and raw: "spec = bindSpecToRig raw rig" "st = hd (steps spec)" "cached env (spec_id raw, spec_version raw) = Some raw"
      "steps raw \<noteq> []" "\<forall>st \<in> set (steps raw). step_id st \<noteq> []"
  shows "simulates env s s'"
proof -
  let ?p = "ei_packet ids"
  let ?n = "\<lparr>ni_workflow = spec_id spec, ni_version = spec_version spec, ni_createdBy = ii_createdBy inp, ni_frontier = [],
              ni_step = Some (step_id st), ni_rig = rig, ni_scope = scope,
              ni_lifecycle = map_option (lifecycle_with_entry ?p) (ii_lifecycle inp)\<rparr>"
  let ?g = "if gt \<noteq> None then Inst_waiting else Inst_active"
  from w obtain s1 x s2 s3 s4 s5 s6 where
    s1: "create_instance now (ei_instance ids) ?n s = Inr (s1, x)"
    and s2: "queue_create env now (entry_create env spec x st ?p (ii_createdBy inp) owner gt) s1 = Inr s2"
    and s3: "(if dependencyGraph spec then bind_packet now (inst_id x) ?p (step_id st) 0 0 0 s2 else Inr s2) = Inr s3"
    and s4: "park_on_person env now ?p (ii_createdBy inp) None (parked_on gt) s3 = Inr s4"
    and s5: "updateFrontier (inst_id x) [?p] ?g (idle_update (inst_version x)) s4 = Inr s5"
    and s6: "arm_keepalive env now (ei_job ids) (inst_id x) owner (ii_createdBy inp)
        (if dependencyGraph spec then Some ?p else None) s5 = Inr s6"
    and s': "s' = log_event (Workflow_instantiated (inst_id x) (spec_id spec) (spec_version spec) (ii_createdBy inp)) s6"
    unfolding start_instance_def Let_def try_bind_Inr by (elim exE conjE) (auto simp: try_bind_Inr split: prod.splits)
  note c = flow_create [OF s1]
  have i: "inst_id x = ei_instance ids" by (simp add: c(1) new_instance_def)
  have a: "adds env ?p s1 s2" by (rule adds_create [OF s2]) (simp add: entry_create_def packet_create_def)
  have t2: "tables s2 = tables s1" using a by (simp add: adds_def kept_def)
  have k4: "kept env s3 s4" by (rule kept_park [OF s4])
  then have t4: "tables s4 = tables s3" by (simp add: kept_def)
  have k6: "kept env s5 s'" unfolding s' by (rule kept_trans [OF kept_arm [OF s6] kept_event])
  then have t6: "tables s' = tables s5" by (simp add: kept_def)
  let ?B = "\<lambda>B. if dependencyGraph spec then B(inst_id x := (B (inst_id x))(?p \<mapsto> \<lparr>bd_step = step_id st, bd_hops = 0, bd_base = 0\<rparr>)) else B"
  have b: "flow_of s3 = (flow_of s2)\<lparr>fl_binds := ?B (fl_binds (flow_of s2))\<rparr>" "wf_queue s3 = wf_queue s2"
    "getInstance s3 = getInstance s2" "wf_failures s3 = wf_failures s2"
    using s3 bind_packet_flow [of now "inst_id x" ?p "step_id st" 0 0 0 s2 s3] by (auto split: if_splits)
  have g4: "getInstance s4 (inst_id x) = Some x" "inst_version x = fu_expected (idle_update (inst_version x))"
    using c(3) by (simp_all add: tables_reads(1) [OF t4] b(3) tables_reads(1) [OF t2] i idle_update_def)
  note u = flow_updateFrontier [OF s5 g4]
  have q: "queue_good env s" using ok by (simp add: db_good_def)
  then have q1: "queue_good env s1" using same_queue [OF c(5)] by simp
  have q2: "queue_good env s2" using a q1 by (simp add: adds_def kept_def)
  then have q3: "queue_good env s3" using same_queue [OF b(2)] by simp
  then have q4: "queue_good env s4" using k4 by (simp add: kept_def)
  then have q5: "queue_good env s5" using same_queue [OF u(2)] by simp
  then have q': "queue_good env s'" using k6 by (simp add: kept_def)
  have f: "fresh (packet_ids s) (packet_ids s') [?p]"
  proof (rule fresh_mono [OF fresh_adds [OF q1 a]])
    show "packet_ids s \<subseteq> packet_ids s1" using same_queue [OF c(5)] by simp
    show "packet_ids s2 \<subseteq> packet_ids s'"
      using k4 k6 q3 q5 same_queue [OF b(2)] same_queue [OF u(2)] by (auto simp: kept_def)
  qed
  have run: "run_of (updated_instance [?p] ?g (idle_update (inst_version x)) x) = \<lparr>rn_spec = (spec_id raw, spec_version raw),
      rn_status = ?g, rn_frontier = [?p], rn_step = Some (step_id (hd (steps raw))), rn_failed = None, rn_hops = 0, rn_base = 0,
      rn_resumes = 0\<rparr>"
    by (simp add: run_of_def updated_instance_def idle_update_def c(1) new_instance_def raw(1,2) bind_rig_ids dec_failed_def)
  have v: "flow_of s' = (flow_of s)\<lparr>fl_rows := packet_ids s',
      fl_runs := (fl_runs (flow_of s))(inst_id x \<mapsto> \<lparr>rn_spec = (spec_id raw, spec_version raw), rn_status = ?g, rn_frontier = [?p],
        rn_step = Some (step_id (hd (steps raw))), rn_failed = None, rn_hops = 0, rn_base = 0, rn_resumes = 0\<rparr>),
      fl_binds := (if dependencyGraph raw
        then (fl_binds (flow_of s))(inst_id x := (fl_binds (flow_of s) (inst_id x))(?p \<mapsto>
          \<lparr>bd_step = step_id (hd (steps raw)), bd_hops = 0, bd_base = 0\<rparr>))
        else fl_binds (flow_of s))\<rparr>"
    using same_steps_graph [OF same_steps_bind [of raw rig]]
    by (simp only: tables_reads(6) [OF t6] u(1) run tables_reads(6) [OF t4] b(1) tables_reads(6) [OF t2] c(4) i)
      (simp add: raw(1,2) bind_rig_ids)
  have "flow_step (cached env) (inst_id x) (flow_of s) (flow_of s')"
    unfolding v by (rule flow_step.start) (use c(2) i f raw(3-5) in simp_all)
  moreover have "wf_failures s' = wf_failures s" using t2 t4 t6 by (simp add: tables_eq u b c)
  ultimately show ?thesis using q' ok by (auto simp: simulates_def db_good_def)
qed

lemma instantiate_simulates:
  assumes "instantiate env now ids inp s = Inr (s', r)" "db_good env s" "caches env"
  shows "simulates env s s'"
proof -
  from assms(1) consider "s' = s"
    | scope raw rig owner gt where "instantiate_spec env inp = Inr raw"
      "start_instance env now ids inp scope (bindSpecToRig raw rig) (hd (steps (bindSpecToRig raw rig))) rig owner gt s = Inr s'"
    unfolding instantiate_def Let_def
    by (auto simp: effect_simps split: option.splits if_splits prod.splits)
  then show ?thesis
  proof cases
    case 1
    with assms(2) show ?thesis by (simp add: simulates_refl)
  next
    case 2
    note c = instantiate_spec_Inr [OF 2(1) assms(3)]
    show ?thesis by (rule start_simulates [OF 2(2) assms(2) refl refl]) (use c in auto)
  qed
qed

section \<open>Route\<close>

lemma no_bindings:
  assumes "\<forall>q. fl_binds (flow_of s) i q = None"
  shows "listFrontierBindings s i = []"
proof -
  have "\<not> fb_instance b = i" if "b \<in> set (wf_bindings s)" for b
  proof
    assume "fb_instance b = i"
    then have "getFrontierBinding s i (fb_packet b) \<noteq> None"
      using that by (auto simp: getFrontierBinding_def find_None_iff)
    then show False using assms by (simp add: flow_of_def)
  qed
  then have "filter (\<lambda>b. fb_instance b = i) (wf_bindings s) = []" by (simp add: filter_empty_conv)
  then show ?thesis by (simp add: listFrontierBindings_def)
qed

lemma flow_rebind:
  assumes w: "rebind now x p n (getFrontierBinding s (inst_id x) p) s = Inr s'"
  shows "flow_of s' = (flow_of s)\<lparr>fl_binds := (case fl_binds (flow_of s) (inst_id x) p of None \<Rightarrow> fl_binds (flow_of s)
       | Some b \<Rightarrow> (unbind (inst_id x) p (fl_binds (flow_of s)))(inst_id x :=
           (unbind (inst_id x) p (fl_binds (flow_of s)) (inst_id x))(n \<mapsto> b)))\<rparr>
    \<and> wf_queue s' = wf_queue s \<and> getInstance s' = getInstance s \<and> wf_failures s' = wf_failures s"
proof (cases "getFrontierBinding s (inst_id x) p")
  case None
  then have "fl_binds (flow_of s) (inst_id x) p = None" by (simp add: flow_of_def)
  with w None show ?thesis by (simp add: rebind_def)
next
  case (Some b)
  then have v: "fl_binds (flow_of s) (inst_id x) p = Some (bound_of b)" by (simp add: flow_of_def)
  have "bind_packet now (inst_id x) n (fb_step b) (fb_drive b) (fb_hops b) (fb_base b) (removeFrontierBinding (inst_id x) p s) = Inr s'"
    using w Some by (simp add: rebind_def)
  note f = bind_packet_flow [OF this, unfolded flow_unbind] 
  show ?thesis unfolding v using f by (simp add: bound_of_def)
qed

lemma route_Inr:
  assumes "route env now ids inp s = Inr (s', r)"
  obtains x p old step s1 s2 s3 s4 s5 s6 where "getInstance s (rt_instance inp) = Some x" "live (inst_status x)"
    "p \<in> set (inst_frontier x)" "route_close env now inp step old s = Inr s1"
    "create_woken env now (route_create env x inp old (ro_packet ids)) s1 = Inr s2" "kept env s2 s3"
    "rebind now x p (ro_packet ids) (getFrontierBinding s (inst_id x) p) s3 = Inr s4"
    "updateFrontier (inst_id x) (map (\<lambda>i. if i = p then ro_packet ids else i) (inst_frontier x)) (inst_status x)
       ((idle_update (inst_version x))\<lparr>fu_step := route_step s4 (inst_id x)\<rparr>) s4 = Inr s5"
    "kept env s5 s6" "kept env s6 s'"
proof -
  have a: "kept env s t" if "assert_woken env i j (log_event e s) = Inr t" for s t i j e
    by (rule kept_trans [OF kept_event kept_assert [OF that]])
  have b: "kept env s t" if "repark env now ids inp x st old s = Inr t" for s t x st old
    using that by (auto simp: repark_def Let_def split: if_splits dest: kept_update)
  from assms show thesis
    unfolding route_def Let_def
    by (auto simp: getInstanceOrThrow_def routed_packet_def effect_simps split: option.splits if_splits
      elim!: that [rotated 3] dest!: a b kept_route_keepalive simp: live_def)
qed

lemma route_simulates:
  assumes w: "route env now ids inp s = Inr (s', r)" and ok: "db_good env s"
  shows "simulates env s s'"
  using w
proof (cases rule: route_Inr)
  case (1 x p old step s1 s2 s3 s4 s5 s6)
  let ?i = "inst_id x"
  let ?n = "ro_packet ids"
  let ?u = "(idle_update (inst_version x))\<lparr>fu_step := route_step s4 ?i\<rparr>"
  let ?fr = "map (\<lambda>i. if i = p then ?n else i) (inst_frontier x)"
  have i: "rt_instance inp = ?i" using getInstance_id [OF 1(1)] by simp
  have k1: "kept env s s1" using kept_update 1(4) unfolding route_close_def by blast
  have a: "adds env ?n s s3"
    by (rule kept_adds [OF k1 adds_then [OF adds_woken [OF 1(5)] 1(6)]]) (simp add: route_create_def packet_create_def)
  then have t3: "tables s3 = tables s" by (simp add: adds_def kept_def)
  have rb: "rebind now x p ?n (getFrontierBinding s3 ?i p) s3 = Inr s4" using 1(7) by (simp add: tables_reads(2) [OF t3])
  note b = flow_rebind [OF rb, unfolded tables_reads(6) [OF t3]]
  have g4: "getInstance s4 ?i = Some x" "inst_version x = fu_expected ?u"
    using 1(1) i b by (simp_all add: tables_reads(1) [OF t3] idle_update_def)
  note u = flow_updateFrontier [OF 1(8) g4]
  have k6: "kept env s5 s'" by (rule kept_trans [OF 1(9,10)])
  then have t6: "tables s' = tables s5" by (simp add: kept_def)
  have q: "queue_good env s" using ok by (simp add: db_good_def)
  then have q3: "queue_good env s3" using a by (simp add: adds_def kept_def)
  then have q5: "queue_good env s5" using same_queue [of s4 s3 env] same_queue [OF u(2), of env] b by simp
  then have q': "queue_good env s'" using k6 by (simp add: kept_def)
  have f: "fresh (packet_ids s) (packet_ids s') [?n]"
    by (rule fresh_mono [OF fresh_adds [OF q a]])
      (use k6 q5 same_queue [of s4 s3 env] same_queue [OF u(2), of env] b in \<open>auto simp: kept_def\<close>)
  let ?B = "case fl_binds (flow_of s) ?i p of None \<Rightarrow> fl_binds (flow_of s)
       | Some b \<Rightarrow> (unbind ?i p (fl_binds (flow_of s)))(?i := (unbind ?i p (fl_binds (flow_of s)) ?i)(?n \<mapsto> b))"
  let ?z = "inst_step (updated_instance ?fr (inst_status x) ?u x)"
  have run: "run_of (updated_instance ?fr (inst_status x) ?u x) = (run_of x)\<lparr>rn_frontier := ?fr, rn_step := ?z\<rparr>"
    by (simp add: run_of_def updated_instance_def idle_update_def)
  have v4: "flow_of s4 = (flow_of s)\<lparr>fl_rows := packet_ids s3, fl_binds := ?B\<rparr>" using b by (cases "fl_binds (flow_of s) ?i p") simp_all
  have z: "(\<forall>q. ?B ?i q = None) \<longrightarrow> ?z = rn_step (run_of x)"
  proof
    assume "\<forall>q. ?B ?i q = None"
    then have "listFrontierBindings s4 ?i = []" by (intro no_bindings) (simp add: v4)
    then show "?z = rn_step (run_of x)" by (simp add: updated_instance_def idle_update_def route_step_def)
  qed
  have v: "flow_of s' = (flow_of s)\<lparr>fl_rows := packet_ids s',
      fl_runs := (fl_runs (flow_of s))(?i \<mapsto> (run_of x)\<lparr>rn_frontier := ?fr, rn_step := ?z\<rparr>), fl_binds := ?B\<rparr>"
    by (simp only: tables_reads(6) [OF t6] u(1) run v4) simp
  have r: "fl_runs (flow_of s) ?i = Some (run_of x)" "live (rn_status (run_of x))" "p \<in> set (rn_frontier (run_of x))"
    "fresh (fl_rows (flow_of s)) (packet_ids s') [?n]" using 1(1-3) i f by simp_all
  have "flow_step (cached env) ?i (flow_of s) (flow_of s')"
    unfolding v
    using flow_step.route [where f = "flow_of s" and i = ?i and x = "run_of x" and B = ?B and z = ?z, OF r refl z]
    by (simp only: run_of_fields)
  moreover have "wf_failures s' = wf_failures s" using t3 t6 b u by (simp add: tables_eq)
  ultimately show ?thesis using q' ok by (auto simp: simulates_def db_good_def)
qed

section \<open>Exceptions that are over\<close>

lemma kept_resolve [kept_intro]: "resolve_item env now actor prov why i s = Inr s' \<Longrightarrow> kept env s s'"
  unfolding resolve_item_def by (rule kept_update)

lemma kept_resolves: "resolve_items env now actor prov why is s = Inr s' \<Longrightarrow> kept env s s'"
  by (induction "is" arbitrary: s) (auto simp: try_bind_Inr intro: kept_trans kept_resolve)

lemma kept_close_failures: "closeFailureExceptions env now i packet step actor prov decided s = Inr s' \<Longrightarrow> kept env s s'"
  unfolding closeFailureExceptions_def by (rule kept_resolves)

lemma kept_reconcile_rows: "reconcile_rows env now rows closed s = Inr (s', n) \<Longrightarrow> kept env s s'"
  by (induction rows arbitrary: closed s) (auto simp: try_bind_Inr split: option.splits dest!: kept_resolve elim!: kept_trans)

lemma kept_reconcile: "reconcileStuckExceptions env now i s = Inr (s', n) \<Longrightarrow> kept env s s'"
  unfolding reconcileStuckExceptions_def by (rule kept_reconcile_rows)

section \<open>Resume\<close>

lemma no_failures:
  assumes "listFailureOccurrences s i None = []"
  shows "\<forall>k oc. fl_fails (flow_of s) k = Some oc \<longrightarrow> oc_run oc \<noteq> i"
proof (intro allI impI notI)
  fix k oc
  assume "fl_fails (flow_of s) k = Some oc" "oc_run oc = i"
  then obtain r where "r \<in> set (wf_failures s)" "fo_instance r = i"
    by (auto simp: flow_of_def occurrence_of_def dest: row_get_Some)
  then have "r \<in> set (listFailureOccurrences s i None)" by (simp add: listFailureOccurrences_def)
  with assms show False by simp
qed

lemma resume_serial_Inr:
  assumes "resume_serial env now ids inp s = Inr (s', r)"
  obtains x spec failedStep failed st owner extra fs s1 s2 s3 where "getInstance s (ri_instance inp) = Some x"
    "inst_status x = Inst_failed" "getForInstance env x = Some spec" "dec_failed (inst_decision x) = Some (failedStep, failed)"
    "failedStep \<noteq> []" "find_step spec failedStep = Some st"
    "create_woken env now (redrive_create env x st inp (rd_packet ids) owner extra fs) s = Inr s1" "kept env s1 s2"
    "updateFrontier (inst_id x) [rd_packet ids] Inst_active
       ((idle_update (inst_version x))\<lparr>fu_step := Set_step (step_id st), fu_resume := Some (inst_resumes x + 1, inst_hops x)\<rparr>) s2 = Inr s3"
    "kept env s3 s'"
proof -
  have e: "kept env s (log_event ev t)" if "arm_keepalive env now job i target actor packet s = Inr t" for s t job i target actor packet ev
    by (rule kept_trans [OF kept_arm [OF that] kept_event])
  have k: "kept env s t" if "(if b then Inr s else closeFailureExceptions env now i p q a pr d s) = Inr t" for b s t i p q a pr d
    using that by (auto split: if_splits intro: kept_close_failures)
  from assms obtain x where x: "getInstance s (ri_instance inp) = Some x" "inst_status x = Inst_failed"
    by (auto simp: resume_serial_def getInstanceOrThrow_def try_bind_Inr split: option.splits if_splits)
  with assms obtain spec failedStep failed st where d: "getForInstance env x = Some spec"
    "dec_failed (inst_decision x) = Some (failedStep, failed)" "failedStep \<noteq> []" "find_step spec failedStep = Some st"
    by (auto simp: resume_serial_def getInstanceOrThrow_def split: option.splits if_splits)
  from assms x d obtain owner s1 s2 s3 s4 where
    "create_woken env now (redrive_create env x st inp (rd_packet ids) owner [] (if failed = [] then None else Some [failed])) s = Inr s1"
    and s2: "(if failed = [] then Inr s1 else closeFailureExceptions env now (inst_id x) failed (step_id st) (ri_actor inp)
       (ri_provenance inp) (ri_decision inp) s1) = Inr s2"
    and "updateFrontier (inst_id x) [rd_packet ids] Inst_active
       ((idle_update (inst_version x))\<lparr>fu_step := Set_step (step_id st), fu_resume := Some (inst_resumes x + 1, inst_hops x)\<rparr>) s2 = Inr s3"
    and s4: "arm_keepalive env now (rd_job ids) (inst_id x) owner (ri_actor inp) None s3 = Inr s4"
    and s': "s' = log_event (resume_event x (step_id st) None inp) s4"
    by (auto simp: resume_serial_def getInstanceOrThrow_def try_bind_Inr)
  then show thesis using x d e [OF s4] k [OF s2] by (auto intro!: that)
qed

text \<open>A new packet, then a write of the run's row: what both resumes and the queue between them come to.\<close>

lemma readdress_flow:
  assumes a: "adds env n s t" and q: "queue_good env s"
    and u: "wf_queue v = wf_queue u" and g: "queue_good env t \<Longrightarrow> queue_good env u \<and> packet_ids t \<subseteq> packet_ids u"
    and k': "kept env v s'"
  shows "queue_good env s'" "fresh (packet_ids s) (packet_ids s') [n]"
proof -
  have "queue_good env t" using a q by (simp add: adds_def kept_def)
  then have gu: "queue_good env u" "packet_ids t \<subseteq> packet_ids u" using g by simp_all
  then have gv: "queue_good env v" "packet_ids v = packet_ids u" using same_queue [OF u] by simp_all
  then show "queue_good env s'" using k' by (simp add: kept_def)
  show "fresh (packet_ids s) (packet_ids s') [n]"
    by (rule fresh_mono [OF fresh_adds [OF q a]]) (use gu gv k' in \<open>auto simp: kept_def\<close>)
qed

lemma resume_serial_simulates:
  assumes w: "resume_serial env now ids inp s = Inr (s', r)" and ok: "db_good env s"
    and none: "listFailureOccurrences s (ri_instance inp) None = []"
  shows "simulates env s s'"
  using w
proof (cases rule: resume_serial_Inr)
  case (1 x spec a p st owner extra fs s1 s2 s3)
  let ?i = "inst_id x"
  let ?n = "rd_packet ids"
  let ?u = "(idle_update (inst_version x))\<lparr>fu_step := Set_step (step_id st), fu_resume := Some (inst_resumes x + 1, inst_hops x)\<rparr>"
  from 1(3) obtain raw where raw: "cached env (rn_spec (run_of x)) = Some raw" "same_steps spec raw"
    by (rule getForInstance_cached)
  have i: "ri_instance inp = ?i" using getInstance_id [OF 1(1)] by simp
  have ad: "adds env ?n s s1" by (rule adds_woken [OF 1(7)]) (simp add: redrive_create_def packet_create_def)
  have t2: "tables s2 = tables s" using ad 1(8) by (simp add: adds_def kept_def)
  have g2: "getInstance s2 ?i = Some x" "inst_version x = fu_expected ?u"
    using 1(1) i by (simp_all add: tables_reads(1) [OF t2] idle_update_def)
  note u = flow_updateFrontier [OF 1(9) g2]
  have t': "tables s' = tables s3" using 1(10) by (simp add: kept_def)
  have q: "queue_good env s" using ok by (simp add: db_good_def)
  note f = readdress_flow [OF ad q u(2) _ 1(10)]
  have q': "queue_good env s'" "fresh (packet_ids s) (packet_ids s') [?n]" using f 1(8) by (auto simp: kept_def)
  have run: "run_of (updated_instance [?n] Inst_active ?u x) = (run_of x)\<lparr>rn_status := Inst_active, rn_frontier := [?n],
      rn_step := Some (step_id st), rn_base := rn_hops (run_of x), rn_resumes := rn_resumes (run_of x) + 1\<rparr>"
    by (simp add: run_of_def updated_instance_def idle_update_def)
  have v: "flow_of s' = (flow_of s)\<lparr>fl_rows := packet_ids s', fl_runs := (fl_runs (flow_of s))(?i \<mapsto>
      (run_of x)\<lparr>rn_status := Inst_active, rn_frontier := [?n], rn_step := Some (step_id st),
        rn_base := rn_hops (run_of x), rn_resumes := rn_resumes (run_of x) + 1\<rparr>)\<rparr>"
    by (simp only: tables_reads(6) [OF t'] u(1) run tables_reads(6) [OF t2]) simp
  have r: "fl_runs (flow_of s) ?i = Some (run_of x)" "rn_status (run_of x) = Inst_failed" "rn_failed (run_of x) = Some (a, p)"
    "find_step raw a = Some st" "fresh (fl_rows (flow_of s)) (packet_ids s') [?n]"
    using 1(1,2,4,6) i q'(2) same_steps_find [OF raw(2)] by simp_all
  have "flow_step (cached env) ?i (flow_of s) (flow_of s')"
    unfolding v by (rule flow_step.resume [where f = "flow_of s" and C = "cached env" and x = "run_of x", OF r(1,2) raw(1) r(3) 1(5) r(4) no_failures [OF none, unfolded i] r(5)])
  moreover have "wf_failures s' = wf_failures s" using t2 t' u by (simp add: tables_eq)
  ultimately show ?thesis using q' ok by (auto simp: simulates_def db_good_def)
qed

text \<open>The resume of one branch.\<close>

lemma flow_resolve:
  assumes w: "resolveFailureOccurrence now i k n d s = Inr s'" and g: "row_get fo_id k (wf_failures s) = Some oc"
    and oc: "fo_instance oc = i" "\<not> fo_resolved oc"
  shows "flow_of s' = (flow_of s)\<lparr>fl_fails := (fl_fails (flow_of s))(k \<mapsto> (occurrence_of oc)\<lparr>oc_resolved := True\<rparr>)\<rparr>"
    "wf_queue s' = wf_queue s" "getInstance s' = getInstance s" "map fo_id (wf_failures s') = map fo_id (wf_failures s)"
proof -
  let ?p = "\<lambda>oc. fo_instance oc = i \<and> fo_id oc = k \<and> \<not> fo_resolved oc"
  let ?f = "\<lambda>oc. oc\<lparr>fo_resolved := True, fo_redrive := Some n, fo_decision := d, fo_resolvedAt := Some now\<rparr>"
  have s': "s' = s\<lparr>wf_failures := row_set ?p ?f (wf_failures s)\<rparr>"
    using w by (auto simp: resolveFailureOccurrence_def Let_def split: if_splits)
  have "(\<lambda>j. row_get fo_id j (row_set ?p ?f (wf_failures s))) = (\<lambda>j. row_get fo_id j (wf_failures s))(k \<mapsto> ?f oc)"
    by (rule row_get_update) (use g oc row_get_key [OF g] in auto)
  then show "flow_of s' = (flow_of s)\<lparr>fl_fails := (fl_fails (flow_of s))(k \<mapsto> (occurrence_of oc)\<lparr>oc_resolved := True\<rparr>)\<rparr>"
    by (auto simp: flow_of_def s' packet_ids_def getInstance_def getFrontierBinding_def occurrence_of_def fun_eq_iff)
  show "wf_queue s' = wf_queue s" "getInstance s' = getInstance s" "map fo_id (wf_failures s') = map fo_id (wf_failures s)"
    by (auto simp: s' getInstance_def row_set_def fun_eq_iff)
qed

lemma select_occurrence_Inr:
  assumes "select_occurrence inp (listFailureOccurrences s i None) = Inr oc"
  shows "oc \<in> set (wf_failures s) \<and> fo_instance oc = i \<and> \<not> fo_resolved oc"
proof -
  have "oc \<in> set (listFailureOccurrences s i None) \<and> \<not> fo_resolved oc"
  proof (cases "truthy (ri_occurrence inp)")
    case True
    with assms show ?thesis by (auto simp: select_occurrence_def find_Some_iff split: option.splits if_splits)
  next
    case False
    with assms have "filter (\<lambda>oc. \<not> fo_resolved oc) (listFailureOccurrences s i None) = [oc]"
      by (auto simp: select_occurrence_def split: list.splits)
    then have "oc \<in> set (filter (\<lambda>oc. \<not> fo_resolved oc) (listFailureOccurrences s i None))" by simp
    then show ?thesis by simp
  qed
  then show ?thesis by (simp add: listFailureOccurrences_def)
qed

lemma redrive_Inr:
  assumes "redrive env now ids inp oc s = Inr (s', r)"
  obtains x st owner extra fs s1 s2 s3 s4 s5 where "getInstance s (ri_instance inp) = Some x"
    "inst_status x \<noteq> Inst_completed" "inst_status x \<noteq> Inst_aborted"
    "create_woken env now (redrive_create env x st inp (rd_packet ids) owner extra fs) s = Inr s1"
    "bind_packet now (inst_id x) (rd_packet ids) (fo_step oc) (fo_drive oc + 1) (fo_hops oc) (fo_hops oc) s1 = Inr s2"
    "resolveFailureOccurrence now (inst_id x) (fo_id oc) (rd_packet ids) (ri_decision inp) s2 = Inr s3" "kept env s3 s4"
    "updateFrontier (inst_id x) (inst_frontier x @ [rd_packet ids]) Inst_active
       ((idle_update (inst_version x))\<lparr>fu_step := singleton_step s4 (inst_id x), fu_resume := Some (inst_resumes x + 1, inst_hops x),
          fu_decision := Some (Decided_resume (fo_id oc) (rd_packet ids) (ri_actor inp) (ri_decision inp))\<rparr>) s4 = Inr s5"
    "kept env s5 s'"
proof -
  have e: "kept env s (log_event ev t)" if "arm_keepalive env now job i target actor packet s = Inr t" for s t job i target actor packet ev
    by (rule kept_trans [OF kept_arm [OF that] kept_event])
  from assms obtain x where x: "getInstance s (ri_instance inp) = Some x" "inst_status x \<noteq> Inst_completed" "inst_status x \<noteq> Inst_aborted"
    by (auto simp: redrive_def getInstanceOrThrow_def try_bind_Inr split: option.splits if_splits)
  with assms obtain spec st where d: "getForInstance env x = Some spec" "find_step spec (fo_step oc) = Some st"
    by (auto simp: redrive_def getInstanceOrThrow_def split: option.splits if_splits)
  from assms x d show thesis
    by (auto simp: redrive_def getInstanceOrThrow_def try_bind_Inr dest!: e kept_close_failures intro!: that)
qed

lemma redrive_simulates:
  assumes w: "redrive env now ids inp oc s = Inr (s', r)" and ok: "db_good env s"
    and sel: "oc \<in> set (wf_failures s)" "fo_instance oc = ri_instance inp" "\<not> fo_resolved oc"
  shows "simulates env s s'"
  using w
proof (cases rule: redrive_Inr)
  case (1 x st owner extra fs s1 s2 s3 s4 s5)
  let ?i = "inst_id x"
  let ?n = "rd_packet ids"
  let ?u = "(idle_update (inst_version x))\<lparr>fu_step := singleton_step s4 ?i, fu_resume := Some (inst_resumes x + 1, inst_hops x),
          fu_decision := Some (Decided_resume (fo_id oc) ?n (ri_actor inp) (ri_decision inp))\<rparr>"
  let ?oc = "occurrence_of oc"
  let ?z = "inst_step (updated_instance (inst_frontier x @ [?n]) Inst_active ?u x)"
  have i: "ri_instance inp = ?i" using getInstance_id [OF 1(1)] by simp
  have ad: "adds env ?n s s1" by (rule adds_woken [OF 1(4)]) (simp add: redrive_create_def packet_create_def)
  then have t1: "tables s1 = tables s" by (simp add: adds_def kept_def)
  note b = bind_packet_flow [OF 1(5)]
  have q: "queue_good env s" and dist: "distinct (map fo_id (wf_failures s))" using ok by (simp_all add: db_good_def)
  have g: "row_get fo_id (fo_id oc) (wf_failures s) = Some oc" by (rule row_get_distinct [OF dist sel(1)])
  then have g2: "row_get fo_id (fo_id oc) (wf_failures s2) = Some oc" "fo_instance oc = ?i"
    using b(4) t1 sel(2) i by (simp_all add: tables_eq)
  note rs = flow_resolve [OF 1(6) g2 sel(3)]
  have t4: "tables s4 = tables s3" using 1(7) by (simp add: kept_def)
  have g4: "getInstance s4 ?i = Some x" "inst_version x = fu_expected ?u"
    using 1(1) i by (simp_all add: tables_reads(1) [OF t4] rs(3) b(3) tables_reads(1) [OF t1] idle_update_def)
  note u = flow_updateFrontier [OF 1(8) g4]
  have t': "tables s' = tables s5" using 1(9) by (simp add: kept_def)
  have same: "packet_ids s3 = packet_ids s1" "queue_good env s3 = queue_good env s1"
    by (simp_all add: packet_ids_def queue_good_def rs(2) b(2))
  have q': "queue_good env s'" "fresh (packet_ids s) (packet_ids s') [?n]"
    by (rule readdress_flow [OF ad q u(2) _ 1(9)]; use 1(7) same in \<open>simp add: kept_def\<close>)+
  have run: "run_of (updated_instance (inst_frontier x @ [?n]) Inst_active ?u x) = (run_of x)\<lparr>rn_status := Inst_active,
      rn_frontier := rn_frontier (run_of x) @ [?n], rn_step := ?z, rn_failed := None, rn_base := rn_hops (run_of x),
      rn_resumes := rn_resumes (run_of x) + 1\<rparr>"
    by (simp add: run_of_def updated_instance_def idle_update_def dec_failed_def)
  have v: "flow_of s' = (flow_of s)\<lparr>fl_rows := packet_ids s', fl_runs := (fl_runs (flow_of s))(?i \<mapsto>
      (run_of x)\<lparr>rn_status := Inst_active, rn_frontier := rn_frontier (run_of x) @ [?n], rn_step := ?z, rn_failed := None,
        rn_base := rn_hops (run_of x), rn_resumes := rn_resumes (run_of x) + 1\<rparr>),
      fl_binds := (fl_binds (flow_of s))(?i := (fl_binds (flow_of s) ?i)(?n \<mapsto>
        \<lparr>bd_step = oc_step ?oc, bd_hops = fo_hops oc, bd_base = fo_hops oc\<rparr>)),
      fl_fails := (fl_fails (flow_of s))(fo_id oc \<mapsto> ?oc\<lparr>oc_resolved := True\<rparr>)\<rparr>"
    by (simp only: tables_reads(6) [OF t'] u(1) run tables_reads(6) [OF t4] rs(1) b(1) tables_reads(6) [OF t1])
      (simp add: occurrence_of_def)
  have r: "fl_runs (flow_of s) ?i = Some (run_of x)" "rn_status (run_of x) \<noteq> Inst_completed" "rn_status (run_of x) \<noteq> Inst_aborted"
    "fl_fails (flow_of s) (fo_id oc) = Some ?oc" "oc_run ?oc = ?i" "\<not> oc_resolved ?oc"
    "fresh (fl_rows (flow_of s)) (packet_ids s') [?n]"
    using 1(1-3) i q'(2) g sel by (simp_all add: flow_of_def occurrence_of_def)
  have "flow_step (cached env) ?i (flow_of s) (flow_of s')"
    unfolding v by (rule flow_step.redrive [where f = "flow_of s" and x = "run_of x" and k = "fo_id oc" and oc = ?oc, OF r])
  moreover have "map fo_id (wf_failures s') = map fo_id (wf_failures s)"
    using t1 t4 t' u b rs by (simp add: tables_eq)
  ultimately show ?thesis using q' dist by (auto simp: simulates_def db_good_def)
qed

lemma resume_simulates:
  assumes w: "resume env now ids inp s = Inr (s', r)" and ok: "db_good env s"
  shows "simulates env s s'"
proof (cases "truthy (ri_occurrence inp) \<or> listFailureOccurrences s (ri_instance inp) None \<noteq> []")
  case False
  with w ok show ?thesis by (auto simp: resume_def intro: resume_serial_simulates)
next
  case True
  then have w': "resumeFailureOccurrence env now ids inp s = Inr (s', r)" using w by (simp add: resume_def)
  show ?thesis
  proof (cases "resumed_occurrence inp (listFailureOccurrences s (ri_instance inp) None)")
    case None
    with w' obtain oc where "select_occurrence inp (listFailureOccurrences s (ri_instance inp) None) = Inr oc"
      "redrive env now ids inp oc s = Inr (s', r)"
      by (auto simp: resumeFailureOccurrence_def Let_def try_bind_Inr)
    with ok show ?thesis by (auto dest!: select_occurrence_Inr intro: redrive_simulates)
  next
    case (Some oc)
    with w' have "s' = s"
      by (auto simp: resumeFailureOccurrence_def Let_def replay_resume_def try_bind_Inr split: if_splits option.splits)
    with ok show ?thesis by (simp add: simulates_refl)
  qed
qed

section \<open>One binding per packet\<close>

definition bindings_good :: "workflow_db \<Rightarrow> bool" where
  "bindings_good s \<longleftrightarrow> distinct (map fb_packet (wf_bindings s))"

lemma bindings_kept: "kept env s s' \<Longrightarrow> bindings_good s' = bindings_good s"
  by (simp add: bindings_good_def kept_def tables_eq)

lemma bindings_adds: "adds env n s s' \<Longrightarrow> bindings_good s' = bindings_good s"
  by (rule bindings_kept [OF adds_kept])

lemma bindings_woken: "create_woken env now inp s = Inr s' \<Longrightarrow> bindings_good s' = bindings_good s"
  by (cases "c_id inp")
    (auto simp: create_woken_def queue_create_def stage_wake_def on_queue_Inr try_bind_Inr bindings_good_def)

lemma bindings_frontier: "updateFrontier i fr st u s = Inr s' \<Longrightarrow> bindings_good s' = bindings_good s"
  by (auto simp: updateFrontier_def Let_def bindings_good_def split: if_splits)

lemma bindings_record [simp]: "bindings_good (record_trail t s) = bindings_good s"
  by (simp add: record_trail_def bindings_good_def)

lemma bindings_create: "create_instance now i inp s = Inr (s', x) \<Longrightarrow> bindings_good s' = bindings_good s"
  by (auto simp: create_instance_def Let_def bindings_good_def split: option.splits if_splits)

lemma bindings_bind: "bindFrontierPacket b s = Inr s' \<Longrightarrow> bindings_good s \<Longrightarrow> bindings_good s'"
  by (auto simp: bindFrontierPacket_def row_insert_Some bindings_good_def split: option.splits)

lemma bindings_bind_packet: "bind_packet now i p step d h b s = Inr s' \<Longrightarrow> bindings_good s \<Longrightarrow> bindings_good s'"
  unfolding bind_packet_def by (rule bindings_bind)

lemma bindings_unbind: "bindings_good s \<Longrightarrow> bindings_good (removeFrontierBinding i p s)"
  by (simp add: removeFrontierBinding_def bindings_good_def distinct_map_filter)

lemma bindings_fail: "recordFailureOccurrence oc s = Inr s' \<Longrightarrow> bindings_good s' = bindings_good s"
  by (auto simp: recordFailureOccurrence_def bindings_good_def split: option.splits)

lemma bindings_resolve: "resolveFailureOccurrence now i k n d s = Inr s' \<Longrightarrow> bindings_good s' = bindings_good s"
  by (auto simp: resolveFailureOccurrence_def Let_def bindings_good_def split: if_splits)

lemma bindings_on_queue: "on_queue env f s = Inr s' \<Longrightarrow> bindings_good s' = bindings_good s"
  by (auto simp: on_queue_Inr bindings_good_def)

lemmas bindings_queue_writes = bindings_on_queue bindings_woken bindings_kept [OF kept_update] bindings_kept [OF kept_close]
  bindings_kept [OF kept_park] bindings_kept [OF kept_assert] bindings_kept [OF kept_admit] bindings_kept [OF kept_serial_events]

lemma bindings_rebind: "rebind now x p n b s = Inr s' \<Longrightarrow> bindings_good s \<Longrightarrow> bindings_good s'"
  by (auto simp: rebind_def split: option.splits intro: bindings_bind_packet bindings_unbind)

lemma bindings_start:
  "start_instance env now ids inp scope spec st rig owner gt s = Inr s' \<Longrightarrow> bindings_good s \<Longrightarrow> bindings_good s'"
  by (auto simp: start_instance_def Let_def try_bind_Inr queue_create_def arm_keepalive_def bindings_kept [OF kept_event]
      split: if_splits prod.splits dest!: bindings_create bindings_on_queue bindings_frontier bindings_kept [OF kept_park]
      intro: bindings_bind_packet)

lemma bindings_instantiate: "instantiate env now ids inp s = Inr (s', r) \<Longrightarrow> bindings_good s \<Longrightarrow> bindings_good s'"
  by (auto simp: instantiate_def Let_def effect_simps split: option.splits if_splits prod.splits intro: bindings_start)

lemma bindings_serial:
  assumes "project_serial env now ids inp inst spec packet st s = Inr (s', r)" "bindings_good s"
  shows "bindings_good s'"
  using assms(1)
proof (cases rule: project_serial_Inr)
  case 1
  with assms(2) show ?thesis by simp
next
  case (2 x why ev branched nxt)
  have n: "bindings_good s = bindings_good t" if "serial_next env now ids inp inst spec st why nxt t = Inr s" for s t
    using that by (auto simp: serial_next_def Let_def try_bind_Inr split: option.splits prod.splits dest!: bindings_queue_writes)
  from 2(1) assms(2) show ?thesis
    unfolding serial_writes_def Let_def try_bind_Inr
    by (auto split: if_splits dest!: n bindings_queue_writes bindings_frontier)
qed

lemma bindings_plans:
  "project_plans env now ids spec inst inp st note b fans k ps s = Inr s' \<Longrightarrow> bindings_good s \<Longrightarrow> bindings_good s'"
proof (induction ps arbitrary: k s)
  case Nil
  then show ?case by simp
next
  case (Cons p ps)
  then obtain s1 where s1: "project_plan env now ids spec inst inp st note b fans k p s = Inr s1"
    "project_plans env now ids spec inst inp st note b fans (Suc k) ps s1 = Inr s'"
    by (auto simp: try_bind_Inr)
  have "bindings_good s1"
    using s1(1) Cons.prems(2)
    by (auto simp: project_plan_def try_bind_Inr bindings_kept [OF kept_event] dest!: bindings_queue_writes bindings_bind)
  with Cons.IH s1(2) show ?case by blast
qed

lemma bindings_graph:
  assumes "project_graph env now ids inp inst spec packet b st s = Inr (s', r)" "bindings_good s"
  shows "bindings_good s'"
  using assms(1)
proof (cases rule: project_graph_Inr)
  case 1
  with assms(2) show ?thesis by simp
next
  case (2 nexts tripped x why ev fails plans)
  have f: "bindings_good t = bindings_good u" if "graph_failure env now ids inp inst spec b st why t = Inr u" for t u
    using that by (auto simp: graph_failure_def try_bind_Inr dest!: bindings_queue_writes bindings_fail)
  have g: "bindings_good t = bindings_good u" if "graph_settle now inp inst st x why ev plans t = Inr u" for t u
    using that kept_trans [OF kept_event kept_event]
    by (auto simp: graph_settle_def Let_def try_bind_Inr bindings_kept [OF kept_event] dest!: bindings_frontier split: if_splits)
  have r: "bindings_good t \<Longrightarrow> bindings_good (release_packet env inst (pi_packet inp) x t)" for t
    using bindings_unbind [of t "inst_id inst" "pi_packet inp"] by (simp add: release_packet_def bindings_good_def)
  from 2(5) assms(2) show ?thesis
    unfolding graph_writes_def Let_def try_bind_Inr
    by (auto split: if_splits dest!: f g bindings_queue_writes dest: bindings_plans r)
qed

lemma bindings_project:
  assumes "project env now ids inp s = Inr (s', r)" "bindings_good s"
  shows "bindings_good s'"
  using assms by (auto simp: project_def try_bind_Inr split: if_splits option.splits intro: bindings_graph bindings_serial)

lemma bindings_route:
  assumes "route env now ids inp s = Inr (s', r)" "bindings_good s"
  shows "bindings_good s'"
  using assms(1)
proof (cases rule: route_Inr)
  case (1 x p old step s1 s2 s3 s4 s5 s6)
  have "bindings_good s3" using 1(4-6) assms(2) unfolding route_close_def by (auto dest!: bindings_queue_writes bindings_kept)
  with bindings_rebind [OF 1(7)] show ?thesis using 1(8-10) by (auto dest!: bindings_frontier bindings_kept)
qed

lemma bindings_resume:
  assumes "resume env now ids inp s = Inr (s', r)" "bindings_good s"
  shows "bindings_good s'"
proof -
  have serial: "bindings_good s'" if "resume_serial env now ids inp s = Inr (s', r)"
    using that
  proof (cases rule: resume_serial_Inr)
    case (1 x spec a p st owner extra fs s1 s2 s3)
    then show ?thesis using assms(2) by (auto dest!: bindings_woken bindings_kept bindings_frontier)
  qed
  have branch: "bindings_good s'" if "redrive env now ids inp oc s = Inr (s', r)" for oc
    using that
  proof (cases rule: redrive_Inr)
    case (1 x st owner extra fs s1 s2 s3 s4 s5)
    then show ?thesis using assms(2)
      by (auto dest!: bindings_woken bindings_kept bindings_frontier bindings_resolve dest: bindings_bind_packet)
  qed
  show ?thesis
    using assms serial branch
    by (auto simp: resume_def resumeFailureOccurrence_def Let_def replay_resume_def try_bind_Inr split: if_splits option.splits)
qed

section \<open>Abort\<close>

lemma find_unique:
  assumes "\<And>a b. a \<in> set xs \<Longrightarrow> b \<in> set xs \<Longrightarrow> P a \<Longrightarrow> P b \<Longrightarrow> a = b"
  shows "find P xs = Some b \<longleftrightarrow> b \<in> set xs \<and> P b"
proof
  assume "find P xs = Some b"
  then show "b \<in> set xs \<and> P b" by (auto simp: find_Some_iff)
next
  assume b: "b \<in> set xs \<and> P b"
  then obtain a where "find P xs = Some a" by (cases "find P xs") (auto simp: find_None_iff)
  moreover from this have "a \<in> set xs \<and> P a" by (auto simp: find_Some_iff)
  ultimately show "find P xs = Some b" using assms [of a b] b by simp
qed

text \<open>The listed binding of a packet is the stored one.\<close>

lemma find_listed:
  assumes "bindings_good s"
  shows "find (\<lambda>b. fb_packet b = p) (listFrontierBindings s i) = getFrontierBinding s i p"
proof -
  have u: "a = b" if "a \<in> set (wf_bindings s)" "b \<in> set (wf_bindings s)" "fb_packet a = fb_packet b" for a b
    using assms that by (auto simp: bindings_good_def distinct_map inj_on_def)
  have "find (\<lambda>b. fb_packet b = p) (listFrontierBindings s i) = Some b \<longleftrightarrow> getFrontierBinding s i p = Some b" for b
  proof -
    have "find (\<lambda>b. fb_packet b = p) (listFrontierBindings s i) = Some b \<longleftrightarrow> b \<in> set (listFrontierBindings s i) \<and> fb_packet b = p"
      by (rule find_unique) (auto simp: listFrontierBindings_def intro: u)
    also have "\<dots> \<longleftrightarrow> b \<in> set (wf_bindings s) \<and> fb_instance b = i \<and> fb_packet b = p"
      by (auto simp: listFrontierBindings_def)
    also have "\<dots> \<longleftrightarrow> getFrontierBinding s i p = Some b"
      unfolding getFrontierBinding_def by (rule find_unique [symmetric]) (auto intro: u)
    finally show ?thesis .
  qed
  then show ?thesis by (metis option.exhaust)
qed

lemma abort_packet_flow:
  assumes w: "abort_packet env now inp x spec bs p s = Inr s'" and q: "queue_good env s"
  shows "queue_good env s' \<and> packet_ids s \<subseteq> packet_ids s' \<and> wf_failures s' = wf_failures s \<and> getInstance s' = getInstance s \<and>
    bindings_good s' = bindings_good (removeFrontierBinding (inst_id x) p s) \<and> truthy (bound_step bs x p) \<and>
    flow_of s' = (flow_of s)\<lparr>fl_rows := packet_ids s', fl_binds := unbind (inst_id x) p (fl_binds (flow_of s)),
      fl_trail := fl_trail (flow_of s) @ abort_entries (inst_id x) (\<lambda>p. the (bound_step bs x p)) [p]\<rparr>"
proof -
  let ?u = "(packet_update p (ai_actor inp) Q_canceled
               (''workflow abort by '' @ ai_actor inp @ '': '' @ ai_reason inp) (ai_provenance inp))\<lparr>u_workflow := True\<rparr>"
  from w obtain s1 t where s1: "queue_update env now [] ?u s = Inr s1" and b: "truthy (bound_step bs x p)"
    and s': "s' = removeFrontierBinding (inst_id x) p (record_trail t s1)"
    and t: "closing_of t = \<lparr>en_run = inst_id x, en_step = the (bound_step bs x p), en_exit = Exit_failed, en_packet = p\<rparr>"
    by (auto simp: abort_packet_def Let_def try_bind_Inr closing_of_def split: if_splits)
  have k: "kept env s s1" by (rule kept_update [OF s1])
  then have t1: "tables s1 = tables s" by (simp add: kept_def)
  have same: "packet_ids s' = packet_ids s1" "queue_good env s' = queue_good env s1"
    by (simp_all add: s' packet_ids_def queue_good_def flow_unbind flow_record_trail)
  have "bindings_good s' = bindings_good (removeFrontierBinding (inst_id x) p s)"
    using t1 by (simp add: s' bindings_good_def removeFrontierBinding_def record_trail_def tables_eq)
  moreover have "flow_of s' = (flow_of s)\<lparr>fl_rows := packet_ids s', fl_binds := unbind (inst_id x) p (fl_binds (flow_of s)),
      fl_trail := fl_trail (flow_of s) @ abort_entries (inst_id x) (\<lambda>p. the (bound_step bs x p)) [p]\<rparr>"
    unfolding s' by (simp only: flow_unbind(1) flow_record_trail(1) tables_reads(6) [OF t1] t)
      (simp add: abort_entries_def same(1) [unfolded s'])
  moreover have "wf_failures s' = wf_failures s" "getInstance s' = getInstance s"
    using t1 tables_reads(1) [OF t1] by (simp_all add: s' flow_unbind flow_record_trail tables_eq)
  ultimately show ?thesis using k q b same by (simp add: kept_def)
qed

lemma abort_entries_append: "abort_entries i g (ps @ qs) = abort_entries i g ps @ abort_entries i g qs"
  by (simp add: abort_entries_def)

lemma abort_packets_flow:
  assumes "abort_packets env now inp x spec bs ps s = Inr s'" "queue_good env s"
  shows "queue_good env s' \<and> packet_ids s \<subseteq> packet_ids s' \<and> wf_failures s' = wf_failures s \<and> getInstance s' = getInstance s \<and>
    (bindings_good s \<longrightarrow> bindings_good s') \<and> (\<forall>p \<in> set ps. truthy (bound_step bs x p)) \<and>
    flow_of s' = (flow_of s)\<lparr>fl_rows := packet_ids s',
      fl_binds := (fl_binds (flow_of s))(inst_id x := (\<lambda>q. if q \<in> set ps then None else fl_binds (flow_of s) (inst_id x) q)),
      fl_trail := fl_trail (flow_of s) @ abort_entries (inst_id x) (\<lambda>p. the (bound_step bs x p)) ps\<rparr>"
  using assms
proof (induction ps arbitrary: s)
  case Nil
  then show ?case by (simp add: abort_entries_def flow_of_def fun_eq_iff)
next
  case (Cons p ps)
  then obtain s1 where s1: "abort_packet env now inp x spec bs p s = Inr s1" "abort_packets env now inp x spec bs ps s1 = Inr s'"
    by (auto simp: try_bind_Inr)
  note a = abort_packet_flow [OF s1(1) Cons.prems(2)]
  then have "queue_good env s1" by blast
  note c = Cons.IH [OF s1(2) this]
  have v1: "flow_of s1 = (flow_of s)\<lparr>fl_rows := packet_ids s1, fl_binds := unbind (inst_id x) p (fl_binds (flow_of s)),
      fl_trail := fl_trail (flow_of s) @ abort_entries (inst_id x) (\<lambda>p. the (bound_step bs x p)) [p]\<rparr>"
    using a by blast
  have c5: "flow_of s' = (flow_of s1)\<lparr>fl_rows := packet_ids s',
      fl_binds := (fl_binds (flow_of s1))(inst_id x := (\<lambda>q. if q \<in> set ps then None else fl_binds (flow_of s1) (inst_id x) q)),
      fl_trail := fl_trail (flow_of s1) @ abort_entries (inst_id x) (\<lambda>p. the (bound_step bs x p)) ps\<rparr>"
    using c by blast
  have f1: "fl_binds (flow_of s1) = unbind (inst_id x) p (fl_binds (flow_of s))" by (simp add: v1)
  have bb: "(unbind (inst_id x) p B)(inst_id x := (\<lambda>q. if q \<in> set ps then None else unbind (inst_id x) p B (inst_id x) q))
      = B(inst_id x := (\<lambda>q. if q \<in> set (p # ps) then None else B (inst_id x) q))" for B
    by (auto simp: unbind_def fun_eq_iff)
  have ff: "flow_of s' = (flow_of s)\<lparr>fl_rows := packet_ids s',
      fl_binds := (fl_binds (flow_of s))(inst_id x := (\<lambda>q. if q \<in> set (p # ps) then None else fl_binds (flow_of s) (inst_id x) q)),
      fl_trail := fl_trail (flow_of s) @ abort_entries (inst_id x) (\<lambda>p. the (bound_step bs x p)) (p # ps)\<rparr>"
    unfolding c5 f1 bb unfolding v1 by (simp add: abort_entries_def)
  have "queue_good env s' \<and> packet_ids s \<subseteq> packet_ids s' \<and> wf_failures s' = wf_failures s \<and> getInstance s' = getInstance s"
    using a c by auto
  moreover have "bindings_good s \<longrightarrow> bindings_good s'" using a c bindings_unbind [of s "inst_id x" p] by blast
  moreover have "\<forall>p \<in> set (p # ps). truthy (bound_step bs x p)" using a c by simp
  ultimately show ?case using ff by blast
qed

lemma abort_simulates:
  assumes w: "abort env now inp s = Inr s'" and ok: "db_good env s" and bg: "bindings_good s"
  shows "simulates env s s'" "bindings_good s'"
proof -
  from w obtain x s1 s2 t where x: "getInstance s (ai_instance inp) = Some x" "inst_status x \<noteq> Inst_completed" "inst_status x \<noteq> Inst_aborted"
    and s1: "abort_packets env now inp x (getForInstance env x) (listFrontierBindings s (inst_id x)) (inst_frontier x) s = Inr s1"
    and s2: "updateFrontier (inst_id x) [] Inst_aborted ((idle_update (inst_version x))\<lparr>fu_step := Clear_step, fu_completedAt := Some now,
        fu_decision := Some (Decided_abort (ai_actor inp) (ai_reason inp) (inst_frontier x))\<rparr>) s1 = Inr s2"
    and s': "s' = log_event (Workflow_failed (inst_id x) (inst_workflow x) (''aborted: '' @ ai_reason inp)) t"
    and t: "t = s2\<lparr>wf_queue := disarmAllWorkflowKeepalives env (inst_id x) (''workflow_aborted: '' @ ai_reason inp) (wf_queue s2)\<rparr>"
    by (auto simp: abort_def getInstanceOrThrow_def try_bind_Inr split: if_splits option.splits)
  let ?i = "inst_id x"
  let ?u = "(idle_update (inst_version x))\<lparr>fu_step := Clear_step, fu_completedAt := Some now,
        fu_decision := Some (Decided_abort (ai_actor inp) (ai_reason inp) (inst_frontier x))\<rparr>"
  let ?bs = "listFrontierBindings s ?i"
  define g where "g = (\<lambda>p. the (bound_step ?bs x p))"
  have i: "ai_instance inp = ?i" using getInstance_id [OF x(1)] by simp
  have q: "queue_good env s" using ok by (simp add: db_good_def)
  note a = abort_packets_flow [OF s1 q]
  have g1: "getInstance s1 ?i = Some x" "inst_version x = fu_expected ?u" using x(1) i a by (simp_all add: idle_update_def)
  note u = flow_updateFrontier [OF s2 g1]
  have "kept env s2 t" unfolding t by (rule keptI [OF refl]) (auto intro!: same_writes disarm_all_core)
  then have k: "kept env s2 s'" unfolding s' by (rule kept_trans [OF _ kept_event])
  then have t': "tables s' = tables s2" by (simp add: kept_def)
  have q2: "queue_good env s2" "packet_ids s2 = packet_ids s1" using a same_queue [OF u(2)] by simp_all
  then have q': "queue_good env s'" "packet_ids s \<subseteq> packet_ids s'" using k a by (auto simp: kept_def)
  show "bindings_good s'" using a bg bindings_kept [OF k] bindings_frontier [OF s2] by simp
  have gs: "case fl_binds (flow_of s) ?i p of Some b \<Rightarrow> g p = bd_step b | None \<Rightarrow> rn_step (run_of x) = Some (g p)"
    if "p \<in> set (rn_frontier (run_of x))" for p
  proof -
    have "truthy (bound_step ?bs x p)" using a that by simp
    then show ?thesis
      by (cases "getFrontierBinding s ?i p")
        (auto simp: g_def bound_step_def find_listed [OF bg] flow_of_def bound_of_def truthy_Some split: if_splits dest: truthy_Some)
  qed
  have f1: "flow_of s1 = (flow_of s)\<lparr>fl_rows := packet_ids s1,
      fl_binds := (fl_binds (flow_of s))(?i := (\<lambda>q. if q \<in> set (inst_frontier x) then None else fl_binds (flow_of s) ?i q)),
      fl_trail := fl_trail (flow_of s) @ abort_entries ?i g (inst_frontier x)\<rparr>"
    using a unfolding g_def by blast
  have run: "run_of (updated_instance [] Inst_aborted ?u x)
      = (run_of x)\<lparr>rn_status := Inst_aborted, rn_frontier := [], rn_step := None, rn_failed := None\<rparr>"
    by (simp add: run_of_def updated_instance_def idle_update_def dec_failed_def)
  have v: "flow_of s' = (flow_of s)\<lparr>fl_rows := packet_ids s', fl_runs := (fl_runs (flow_of s))(?i \<mapsto>
        (run_of x)\<lparr>rn_status := Inst_aborted, rn_frontier := [], rn_step := None, rn_failed := None\<rparr>),
      fl_binds := (fl_binds (flow_of s))(?i := (\<lambda>q. if q \<in> set (rn_frontier (run_of x)) then None else fl_binds (flow_of s) ?i q)),
      fl_trail := fl_trail (flow_of s) @ abort_entries ?i g (rn_frontier (run_of x))\<rparr>"
    by (simp only: tables_reads(6) [OF t'] u(1) run f1 run_of_fields) simp
  have r: "fl_runs (flow_of s) ?i = Some (run_of x)" "rn_status (run_of x) \<noteq> Inst_completed" "rn_status (run_of x) \<noteq> Inst_aborted"
    "fl_rows (flow_of s) \<subseteq> packet_ids s'" using x i q'(2) by simp_all
  have "flow_step (cached env) ?i (flow_of s) (flow_of s')"
    unfolding v by (rule flow_step.abort [where f = "flow_of s" and x = "run_of x" and g = g, OF r]) (use gs in blast)
  moreover have "wf_failures s' = wf_failures s" using a t' u by (simp add: tables_eq)
  ultimately show "simulates env s s'" using q' ok by (auto simp: simulates_def db_good_def)
qed

end
