(* ===== verification/Workflow_Machine.thy ===== *)
theory Workflow_Machine
  imports Workflow_Verbs
begin

text \<open>
  The workflow runtime and the queue as one machine: any sequence of workflow verbs and queue operations
  over the shared database. Every accepted operation is a path of \<open>Workflow_Flow\<close>, so its invariants hold
  of the tables.
\<close>

section \<open>Operations\<close>

datatype workflow_op =
    Op_instantiate timestamp entry_ids instantiate_input
  | Op_project timestamp fresh_ids project_input
  | Op_route timestamp route_ids route_input
  | Op_resume timestamp resume_ids resume_input
  | Op_abort timestamp abort_input
  | Op_reconcile timestamp "string option"
  | Op_queue queue_op

text \<open>The projection of the runtime keeps what it committed even when the reconciliation after it fails.\<close>

definition workflow_step :: "workflow_env \<Rightarrow> workflow_op \<Rightarrow> workflow_db \<Rightarrow> workflow_error + workflow_db" where
  "workflow_step env op s = (case op of
     Op_instantiate now ids inp \<Rightarrow> map_sum id fst (instantiate env now ids inp s)
   | Op_project now ids inp \<Rightarrow> Inr (fst (runtime_project env now ids inp s))
   | Op_route now ids inp \<Rightarrow> map_sum id fst (route env now ids inp s)
   | Op_resume now ids inp \<Rightarrow> map_sum id fst (resume env now ids inp s)
   | Op_abort now inp \<Rightarrow> abort env now inp s
   | Op_reconcile now i \<Rightarrow> map_sum id fst (reconcileStuckExceptions env now i s)
   | Op_queue q \<Rightarrow> on_queue env (\<lambda>e. queue_step e q) s)"

section \<open>The invariant\<close>

definition workflow_inv :: "workflow_env \<Rightarrow> workflow_db \<Rightarrow> bool" where
  "workflow_inv env s \<longleftrightarrow> (caches env \<longrightarrow>
     db_good env s \<and> bindings_good s \<and> flow_reach (cached env) empty_flow (flow_of s))"

lemma workflow_inv_empty: "workflow_inv env empty_workflows"
proof -
  have "flow_of empty_workflows = empty_flow"
    by (simp add: flow_of_def empty_workflows_def empty_flow_def packet_ids_def getInstance_def getFrontierBinding_def
      empty_db_def row_simps fun_eq_iff)
  then show ?thesis
    by (simp add: workflow_inv_def flow_reach_def db_good_def bindings_good_def queue_good_def empty_workflows_def queue_inv_empty)
qed

lemma inv_simulates:
  assumes "workflow_inv env s" "caches env \<Longrightarrow> db_good env s \<Longrightarrow> bindings_good s \<Longrightarrow> simulates env s t"
    "bindings_good s \<Longrightarrow> bindings_good t"
  shows "workflow_inv env t"
proof (unfold workflow_inv_def, intro impI)
  assume c: "caches env"
  then have i: "db_good env s" "bindings_good s" "flow_reach (cached env) empty_flow (flow_of s)"
    using assms(1) by (simp_all add: workflow_inv_def)
  then have "db_good env t" "\<exists>i. flow_step (cached env) i (flow_of s) (flow_of t)"
    using assms(2) [OF c] by (simp_all add: simulates_def)
  then show "db_good env t \<and> bindings_good t \<and> flow_reach (cached env) empty_flow (flow_of t)"
    using i assms(3) unfolding flow_reach_def by (auto intro: rtranclp.rtrancl_into_rtrancl)
qed

lemma inv_kept: "workflow_inv env s \<Longrightarrow> kept env s t \<Longrightarrow> workflow_inv env t"
  by (erule inv_simulates) (auto intro: simulates_kept simp: bindings_kept)

lemma inv_runtime_project:
  assumes "workflow_inv env s"
  shows "workflow_inv env (fst (runtime_project env now ids inp s))"
proof (cases "project env now ids inp s")
  case (Inl e)
  then show ?thesis using assms by (simp add: runtime_project_def)
next
  case (Inr a)
  then obtain s1 r where p: "project env now ids inp s = Inr (s1, r)" by (cases a) simp
  have i: "workflow_inv env s1"
    by (rule inv_simulates [OF assms]) (use p in \<open>auto intro: project_simulates bindings_project\<close>)
  then show ?thesis
    using p by (auto simp: runtime_project_def split: sum.splits prod.splits dest!: kept_reconcile intro: inv_kept)
qed

lemma workflow_step_keeps:
  assumes i: "workflow_inv env s" and w: "workflow_step env op s = Inr t"
  shows "workflow_inv env t"
proof (cases op)
  case (Op_instantiate now ids inp)
  with w obtain r where "instantiate env now ids inp s = Inr (t, r)" by (auto simp: workflow_step_def map_sum_Inr)
  then show ?thesis by (intro inv_simulates [OF i]) (auto intro: instantiate_simulates bindings_instantiate)
next
  case (Op_project now ids inp)
  with w inv_runtime_project [OF i] show ?thesis by (auto simp: workflow_step_def)
next
  case (Op_route now ids inp)
  with w obtain r where "route env now ids inp s = Inr (t, r)" by (auto simp: workflow_step_def map_sum_Inr)
  then show ?thesis by (intro inv_simulates [OF i]) (auto intro: route_simulates bindings_route)
next
  case (Op_resume now ids inp)
  with w obtain r where "resume env now ids inp s = Inr (t, r)" by (auto simp: workflow_step_def map_sum_Inr)
  then show ?thesis by (intro inv_simulates [OF i]) (auto intro: resume_simulates bindings_resume)
next
  case (Op_abort now inp)
  with w have a: "abort env now inp s = Inr t" by (simp add: workflow_step_def)
  show ?thesis
  proof (unfold workflow_inv_def, intro impI)
    assume c: "caches env"
    then have j: "db_good env s" "bindings_good s" using i by (simp_all add: workflow_inv_def)
    have "workflow_inv env t"
      by (rule inv_simulates [OF i]) (use abort_simulates [OF a j] in simp_all)
    then show "db_good env t \<and> bindings_good t \<and> flow_reach (cached env) empty_flow (flow_of t)"
      using c by (simp add: workflow_inv_def)
  qed
next
  case (Op_reconcile now k)
  with w obtain n where "reconcileStuckExceptions env now k s = Inr (t, n)" by (auto simp: workflow_step_def map_sum_Inr)
  then show ?thesis using kept_reconcile inv_kept [OF i] by blast
next
  case (Op_queue q)
  with w have "on_queue env (\<lambda>e. queue_step e q) s = Inr t" by (simp add: workflow_step_def)
  then have "kept env s t" by (rule kept_on_queue) (auto intro: queue_step_writes)
  then show ?thesis by (rule inv_kept [OF i])
qed

interpretation workflow: guarded_machine "workflow_step env" "workflow_inv env" for env
  by unfold_locales (rule workflow_step_keeps)

abbreviation run_workflows :: "workflow_env \<Rightarrow> workflow_op list \<Rightarrow> workflow_db" where
  "run_workflows env ops \<equiv> run_steps (workflow_step env) ops empty_workflows"

lemma run_workflow_inv: "workflow_inv env (run_workflows env ops)"
  by (rule workflow.run_keeps [OF workflow_inv_empty])

lemma run_flow_inv: "caches env \<Longrightarrow> flow_inv (cached env) (flow_of (run_workflows env ops))"
  using run_workflow_inv [of env ops] flow_inv_reach [OF _ flow_inv_empty] by (simp add: workflow_inv_def)

section \<open>What the invariants say of the tables\<close>

text \<open>The packets closed for good: by an exit other than a wait.\<close>

definition closed_ids :: "workflow_db \<Rightarrow> string list" where
  "closed_ids s = map tr_prior (filter (\<lambda>t. tr_exit t \<noteq> Exit_waiting) (wf_trail s))"

lemma closed_ids_view: "closed_packets (flow_of s) = closed_ids s"
  by (simp add: closed_packets_def closed_ids_def flow_of_def closes_packet_def closing_of_def filter_map o_def)

lemma packet_row: "p \<in> packet_ids s \<longleftrightarrow> getById (wf_queue s) p \<noteq> None"
  by (simp add: packet_ids_def getById_def row_get_None)

lemma frontiers_view:
  assumes "frontiers_ok (flow_of s)" "getInstance s i = Some x"
  shows "distinct (inst_frontier x)" "set (inst_frontier x) \<subseteq> packet_ids s"
    "getInstance s j = Some y \<Longrightarrow> j \<noteq> i \<Longrightarrow> set (inst_frontier x) \<inter> set (inst_frontier y) = {}"
proof -
  have r: "fl_runs (flow_of s) i = Some (run_of x)" using assms(2) by simp
  then show "distinct (inst_frontier x)" "set (inst_frontier x) \<subseteq> packet_ids s"
    using assms(1) unfolding frontiers_ok_def by (metis run_of_fields(2) flow_of_fields(1))+
  assume "getInstance s j = Some y" "j \<noteq> i"
  then have "fl_runs (flow_of s) j = Some (run_of y)" by simp
  with r \<open>j \<noteq> i\<close> show "set (inst_frontier x) \<inter> set (inst_frontier y) = {}"
    using assms(1) unfolding frontiers_ok_def by (metis run_of_fields(2))
qed

lemma entries_view: "entries_of (flow_of s) i = map closing_of (trail_of s i)"
  by (simp add: entries_of_def flow_of_def trail_of_def filter_map o_def closing_of_def)

lemma instance_run:
  assumes "flow_inv (cached env) (flow_of s)" "getInstance s i = Some x"
  obtains spec raw where "getForInstance env x = Some spec" "same_steps spec raw" "live (inst_status x) \<longleftrightarrow> inst_frontier x \<noteq> []"
    "dependencyGraph spec \<Longrightarrow> graph_ok raw (run_of x) (fl_binds (flow_of s) i) (fails_of (flow_of s) i) (map closing_of (trail_of s i))"
    "\<not> dependencyGraph spec \<Longrightarrow> serial_ok raw (run_of x) (fl_binds (flow_of s) i) (fails_of (flow_of s) i) (map closing_of (trail_of s i))"
proof -
  have r: "run_ok (cached env) i (Some (run_of x)) (fl_binds (flow_of s) i) (fails_of (flow_of s) i) (map closing_of (trail_of s i))"
    using assms by (auto simp: flow_inv_def runs_ok_def entries_view [symmetric] dest: spec [of _ i])
  from r obtain raw where raw: "cached env (rn_spec (run_of x)) = Some raw" "live (inst_status x) \<longleftrightarrow> inst_frontier x \<noteq> []"
    "dependencyGraph raw \<Longrightarrow> graph_ok raw (run_of x) (fl_binds (flow_of s) i) (fails_of (flow_of s) i) (map closing_of (trail_of s i))"
    "\<not> dependencyGraph raw \<Longrightarrow> serial_ok raw (run_of x) (fl_binds (flow_of s) i) (fails_of (flow_of s) i) (map closing_of (trail_of s i))"
    by (rule run_okE) auto
  have g: "getForInstance env x = Some (bindSpecToRig raw (inst_rig x))"
    using raw(1) by (simp add: getForInstance_def cached_def run_of_def)
  show thesis
    by (rule that [OF g same_steps_bind raw(2)])
      (use raw(3,4) same_steps_graph [OF same_steps_bind [of raw "inst_rig x"]] in simp_all)
qed

text \<open>Two entries of a serial trail: a wait or a failure repeats its step, any other exit routes.\<close>

definition routes_on :: "workflow_spec \<Rightarrow> step_trail \<Rightarrow> step_trail \<Rightarrow> bool" where
  "routes_on spec t u \<longleftrightarrow>
     (tr_exit t \<in> {Exit_waiting, Exit_failed} \<and> tr_step u = tr_step t) \<or>
     (\<exists>st. find_step spec (tr_step t) = Some st \<and> map_option step_id (resolveNextStep spec st (Some (tr_exit t))) = Some (tr_step u))"

lemma follows_view: "same_steps spec raw \<Longrightarrow> follows raw (closing_of t) (tr_step u) \<Longrightarrow> routes_on spec t u"
  by (auto simp: follows_def routes_on_def closing_of_def same_steps_find same_steps_next)

text \<open>The prerequisites of an entry, among the entries before it.\<close>

definition may_close :: "workflow_spec \<Rightarrow> step_trail list \<Rightarrow> step_trail \<Rightarrow> bool" where
  "may_close spec earlier t \<longleftrightarrow> tr_step t = step_id (hd (steps spec)) \<or>
     (\<exists>st \<in> set (steps spec). step_id st = tr_step t \<and> dependencies st \<noteq> [] \<and>
       (\<forall>d \<in> set (dependencies st). \<exists>u \<in> set earlier. tr_step u = d \<and> completes (tr_exit u)))"

lemma started_view:
  assumes "same_steps spec raw" "no_branches spec" "started raw (map closing_of ts) (tr_step t)"
  shows "may_close spec ts t"
proof -
  have e: "steps raw = steps spec" using assms(1) by (simp add: same_steps_def)
  have "no_branches raw" using assms(2) by (simp add: no_branches_def e)
  with assms(3) show ?thesis
    unfolding started_def may_close_def entry_step_def e done_in_def by (auto simp: closing_of_def)
qed

lemma in_order_view:
  assumes "same_steps spec raw" "no_branches spec" "in_order raw (map closing_of us) (map closing_of ts)" "k < length ts"
  shows "may_close spec (us @ take k ts) (ts ! k)"
  using assms(3,4)
proof (induction ts arbitrary: us k)
  case Nil
  then show ?case by simp
next
  case (Cons t ts)
  show ?case
  proof (cases k)
    case 0
    have "started raw (map closing_of us) (en_step (closing_of t))" using Cons.prems(1) by simp
    then have "started raw (map closing_of us) (tr_step t)" by (simp add: closing_of_def)
    then show ?thesis using started_view [OF assms(1,2)] by (simp add: 0)
  next
    case (Suc m)
    have "in_order raw (map closing_of (us @ [t])) (map closing_of ts)" using Cons.prems(1) by simp
    from Cons.IH [OF this, of m] Cons.prems(2) show ?thesis by (simp add: Suc)
  qed
qed

section \<open>Properties\<close>

text \<open>C4: The workflow engine refines its abstract machine: whatever sequence of instantiations, projections,
  routes, resumes, aborts, reconciliations and queue operations is attempted on an empty database, the
  runs, bindings, failures and trail it leaves are reached by steps of \<open>flow_step\<close>, each of which
  closes or replaces one live packet, starts one run, or resumes a failed one.\<close>

theorem workflow_refines_flow:
  assumes "caches env"
  shows "flow_reach (cached env) empty_flow (flow_of (run_workflows env ops))"
  using run_workflow_inv [of env ops] assms by (simp add: workflow_inv_def)

text \<open>C3: A packet is closed once: in every reachable database no packet has two closing entries in the
  trail, a packet on a frontier has none, is on no other frontier and not twice on its own, and its queue
  row exists; and exactly the live instances have a frontier.\<close>

theorem workflow_closes_once:
  assumes "caches env"
  shows "distinct (closed_ids (run_workflows env ops)) \<and>
    (\<forall>i x. getInstance (run_workflows env ops) i = Some x \<longrightarrow>
       distinct (inst_frontier x) \<and> (live (inst_status x) \<longleftrightarrow> inst_frontier x \<noteq> []) \<and>
       (\<forall>p \<in> set (inst_frontier x). getById (wf_queue (run_workflows env ops)) p \<noteq> None \<and> p \<notin> set (closed_ids (run_workflows env ops)) \<and>
         (\<forall>j y. getInstance (run_workflows env ops) j = Some y \<longrightarrow> j \<noteq> i \<longrightarrow> p \<notin> set (inst_frontier y))))"
proof -
  let ?s = "run_workflows env ops"
  note inv = run_flow_inv [OF assms, of ops]
  then have f: "frontiers_ok (flow_of ?s)" and o: "once_ok (flow_of ?s)" by (simp_all add: flow_inv_def)
  have "p \<in> packet_ids ?s \<and> p \<notin> set (closed_ids ?s)" if "getInstance ?s i = Some x" "p \<in> set (inst_frontier x)" for i x p
  proof -
    have "p \<in> on_frontier (flow_of ?s)" by (rule on_frontierI [of _ i "run_of x"]) (use that in simp_all)
    then have "p \<notin> set (closed_ids ?s)" using o by (auto simp: once_ok_def closed_ids_view)
    then show ?thesis using frontiers_view(2) [OF f that(1)] that(2) by blast
  qed
  moreover have "distinct (inst_frontier x) \<and> (live (inst_status x) \<longleftrightarrow> inst_frontier x \<noteq> [])" if "getInstance ?s i = Some x" for i x
    using frontiers_view(1) [OF f that] instance_run [OF inv that] by blast
  moreover have "p \<notin> set (inst_frontier y)"
    if "getInstance ?s i = Some x" "p \<in> set (inst_frontier x)" "getInstance ?s j = Some y" "j \<noteq> i" for i j x y p
    using frontiers_view(3) [OF f that(1,3,4)] that(2) by blast
  moreover have "distinct (closed_ids ?s)" using o by (simp add: once_ok_def closed_ids_view)
  ultimately show ?thesis unfolding packet_row [symmetric] by blast
qed



end
