(* ===== verification/Workflow_Witnesses.thy ===== *)
theory Workflow_Witnesses
  imports Workflow_Machine Queue_Witnesses
begin

text \<open>
  Two small workflows on which the properties of the machine are exercised: a serial one of two steps,
  and a graph of two steps where the second depends on the first.
\<close>

definition demo_step :: "string \<Rightarrow> string \<Rightarrow> step_spec" where
  "demo_step i role = \<lparr>step_id = i, actor_role = role, step_objective = None, allowed_exits = None, re_present_after = None,
     re_present_max = None, next_hop = None, harness = None, host = None, gate = None, depends_on = None, acceptance = None\<rparr>"

definition demo_spec :: "string \<Rightarrow> step_spec list \<Rightarrow> workflow_spec" where
  "demo_spec i sts = \<lparr>spec_id = i, spec_version = ''1'', spec_objective = None, context_refs = None, target_rig = None,
     entry_role = None,
     roles = [(''dev'', \<lparr>skill_refs = None, preferred_targets = Some [''dev@r'']\<rparr>),
              (''rev'', \<lparr>skill_refs = None, preferred_targets = Some [''rev@r'']\<rparr>)],
     steps = sts, invariants = None, closure_messages = False,
     loop_guards_of = Some \<lparr>max_hops = Some (Hops 5), spawn_budget = None\<rparr>, exception_routing = None, terminal_turn_rule = None\<rparr>"

definition serial_spec :: workflow_spec where
  "serial_spec = demo_spec ''serial''
     [(demo_step ''build'' ''dev'')\<lparr>next_hop := Some \<lparr>hop_mode = Some Mode_require, suggested_roles = Some [''rev''], branch_on = None\<rparr>\<rparr>,
      (demo_step ''review'' ''rev'')\<lparr>allowed_exits := Some [Exit_done]\<rparr>]"

definition graph_spec :: workflow_spec where
  "graph_spec = demo_spec ''graph''
     [demo_step ''build'' ''dev'', (demo_step ''review'' ''rev'')\<lparr>depends_on := Some [''build'']\<rparr>]"

definition demo_flow :: workflow_env where
  "demo_flow = \<lparr>v_queue = demo_env,
     v_cache = (\<lambda>i v. if v = ''1'' then (if i = ''serial'' then Some serial_spec else if i = ''graph'' then Some graph_spec else None) else None),
     v_read = (\<lambda>path. if path = ''serial.yaml'' then Some serial_spec else if path = ''graph.yaml'' then Some graph_spec else None),
     v_put = (\<lambda>_. None), v_runtime = (\<lambda>_. None), v_seats = (\<lambda>_. None), v_rigs = (\<lambda>_. False), v_declares = (\<lambda>_ _. False),
     v_seatAlive = (\<lambda>_. True), v_hosts = (\<lambda>_. False), v_dial = None, v_human = Inr ''human@host'', v_watchdog = True,
     v_evidence = (\<lambda>_. ''facts''), v_reasonText = (\<lambda>_. []), v_handoffText = (\<lambda>_ _ _ _ _ _. ''next''),
     v_waitText = (\<lambda>_ _ _. ''wait''), v_exceptionText = (\<lambda>_ _ _ _. ''failed''), v_entryText = (\<lambda>_ _ _ _. ''start''),
     v_resumeText = (\<lambda>_ _ _ _ _. ''again''), v_routeText = (\<lambda>_ _ _. ''routed'')\<rparr>"

definition demo_start :: "string \<Rightarrow> string \<Rightarrow> string \<Rightarrow> workflow_op" where
  "demo_start path i p = Op_instantiate 1 \<lparr>ei_instance = i, ei_packet = p, ei_job = ''job-'' @ p\<rparr>
     \<lparr>ii_path = path, ii_createdBy = ''lead@r'', ii_entryOwner = None, ii_targetRig = None,
      ii_scope = \<lparr>si_ids = (\<lambda>_. None), si_tags = None, si_slices = []\<rparr>, ii_lifecycle = None, ii_compiled = None\<rparr>"

definition demo_project :: "timestamp \<Rightarrow> string \<Rightarrow> string \<Rightarrow> string \<Rightarrow> string \<Rightarrow> workflow_exit \<Rightarrow> workflow_op" where
  "demo_project now actor i p n x = Op_project now
     \<lparr>id_packet = (\<lambda>k. n), id_exception = ''x-'' @ n, id_park_job = ''park-'' @ n, id_job = (\<lambda>k. ''job-'' @ n)\<rparr>
     \<lparr>pi_instance = i, pi_packet = p, pi_exit = x, pi_note = Some ''ok'', pi_blockedOn = None, pi_evidence = None,
      pi_actor = actor, pi_provenance = None, pi_nextOwner = None\<rparr>"

definition serial_ops :: "workflow_op list" where
  "serial_ops = [demo_start ''serial.yaml'' ''wf-1'' ''qitem-1'', demo_project 2 ''dev@r'' ''wf-1'' ''qitem-1'' ''qitem-2'' Exit_handoff]"

definition graph_ops :: "workflow_op list" where
  "graph_ops = [demo_start ''graph.yaml'' ''wf-2'' ''qitem-5'', demo_project 2 ''dev@r'' ''wf-2'' ''qitem-5'' ''qitem-6'' Exit_done,
     demo_project 3 ''rev@r'' ''wf-2'' ''qitem-6'' ''qitem-7'' Exit_done]"

lemma demo_caches: "caches demo_flow"
  by (simp add: caches_def demo_flow_def serial_spec_def graph_spec_def demo_spec_def)

section \<open>The witnesses\<close>

theorem workflow_refines_flow_witness:
  "flow_reach (cached demo_flow) empty_flow (flow_of (run_workflows demo_flow serial_ops))"
  by (rule workflow_refines_flow [OF demo_caches])

theorem workflow_closes_once_witness: "distinct (closed_ids (run_workflows demo_flow graph_ops))"
  using workflow_closes_once [OF demo_caches, of graph_ops] by (rule conjunct1)

lemma serial_run_state:
  obtains x where "getInstance (run_workflows demo_flow serial_ops) ''wf-1'' = Some x" "getForInstance demo_flow x = Some serial_spec"
    "inst_hops x = 1" "inst_frontier x = [''qitem-2'']"
proof -
  have "map_option (\<lambda>x. (getForInstance demo_flow x, inst_hops x, inst_frontier x)) (getInstance (run_workflows demo_flow serial_ops) ''wf-1'')
      = Some (Some serial_spec, 1, [''qitem-2''])" by code_simp
  then show thesis by (auto intro!: that)
qed



section \<open>Where the code departs from its intent\<close>

text \<open>The frontier guard of \<open>update\<close> is not in \<open>handoff\<close>: a handoff closes the live packet of a running
  instance, which stays on its frontier, and the next projection of it is refused.\<close>

definition stray_handoff :: workflow_op where
  "stray_handoff = Op_queue (Op_handoff 3 ''qitem-9'' (demo_handoff\<lparr>h_id := ''qitem-2'', h_from := ''rev@r''\<rparr>))"

lemma handoff_strands_frontier:
  "(let s = run_workflows demo_flow (serial_ops @ [stray_handoff])
    in (map_option q_state (getById (wf_queue s) ''qitem-2''), map_option (\<lambda>x. (inst_status x, inst_frontier x)) (getInstance s ''wf-1'')))
   = (Some Q_handed_off, Some (Inst_active, [''qitem-2'']))"
  by code_simp

text \<open>On the graph path a mapped wait creates and binds its successor but keeps only the waiting packet on
  the frontier, so the successor can never be projected.\<close>

definition waiting_spec :: workflow_spec where
  "waiting_spec = demo_spec ''graph''
     [(demo_step ''build'' ''dev'')\<lparr>next_hop := Some \<lparr>hop_mode = None, suggested_roles = None, branch_on = Some [(Exit_waiting, ''review'')]\<rparr>\<rparr>,
      (demo_step ''review'' ''rev'')\<lparr>depends_on := Some [''build'']\<rparr>]"

definition waiting_flow :: workflow_env where
  "waiting_flow = demo_flow\<lparr>v_cache := (\<lambda>_ _. Some waiting_spec), v_read := (\<lambda>_. Some waiting_spec)\<rparr>"

definition waiting_ops :: "workflow_op list" where
  "waiting_ops = [demo_start ''graph.yaml'' ''wf-3'' ''qitem-5'', demo_project 2 ''dev@r'' ''wf-3'' ''qitem-5'' ''qitem-6'' Exit_waiting]"

lemma mapped_wait_strands_successor:
  "(let s = run_workflows waiting_flow waiting_ops
    in (map_option inst_frontier (getInstance s ''wf-3''), map_option q_state (getById (wf_queue s) ''qitem-6''),
        map_option fb_step (getFrontierBinding s ''wf-3'' ''qitem-6'')))
   = (Some [''qitem-5''], Some Q_pending, Some ''review'')"
  by code_simp

end
