(* ===== verification/Watchdog_Jobs.thy ===== *)
theory Watchdog_Jobs
  imports Complex_Main Queue_Wakes
begin

text \<open>
  The watchdog's job table (\<open>packages/daemon/src/domain/watchdog-jobs-repository.ts\<close>), with every
  column of the current schema, and the repository's two in-memory maps: the schedules a caller's
  update replaced, and the schedule each delivery in flight started under. \<open>watchdog-due.ts\<close> and
  the scheduler's \<open>isDue\<close> read the row. The queue's own model (\<open>Queue_Wakes\<close>) sees the table
  through \<open>queue_view\<close>, at the end: its job operations are these ones.

  A specification is the queue's \<open>job_spec\<close>: the packet of a repeating wait, the daemon's own
  reminder packet, or the text an operator wrote. Numbers that come from a caller are \<open>js_number\<close>s,
  a finite double being a rational; a cadence is finite, as JSON carries no other number. Clock readings and fresh ids are arguments.
\<close>

section \<open>Rows\<close>

datatype js_number = Finite rat | Infinite | Not_a_number

definition js_integer :: "js_number \<Rightarrow> int option" where
  "js_integer x = (case x of
     Finite q \<Rightarrow> if snd (quotient_of q) = 1 then Some (fst (quotient_of q)) else None
   | _ \<Rightarrow> None)"

definition js_finite :: "js_number option \<Rightarrow> rat option" where
  "js_finite x = (case x of Some (Finite q) \<Rightarrow> Some q | _ \<Rightarrow> None)"

definition WATCHDOG_POLICIES :: "string list" where
  "WATCHDOG_POLICIES =
    [''periodic-reminder'', ''artifact-pool-ready'', ''edge-artifact-required'', ''workflow-keepalive'',
     ''idle-gate-qitem'', ''context-usage-threshold'', ''parked-owner-consumer'', ''delivery-deferral'',
     ''delivery-digest-flush'', ''quiet-release'', ''mode-scheduled-end'']"

text \<open>The state column is plain text, so a row may hold a state no code writes.\<close>

datatype watchdog_state = Wd_active | Wd_stopped | Wd_terminal | Wd_unknown string

record wd_job =
  wj_id :: string
  wj_policy :: string
  wj_spec :: job_spec
  wj_target :: string
  wj_interval :: int
  wj_activeWake :: "rat option"
  wj_scan :: "rat option"
  wj_lastEvaluation :: "timestamp option"
  wj_lastFire :: "timestamp option"
  wj_actionable :: bool
  wj_lastActionable :: "timestamp option"
  wj_state :: watchdog_state
  wj_registeredBy :: string
  wj_registeredAt :: timestamp
  wj_terminalReason :: "string option"
  wj_generation :: "string option"
  wj_targetGeneration :: "string option"
  wj_watchedFile :: "string option"
  wj_watchedGeneration :: "string option"
  wj_thresholdBytes :: "int option"
  wj_thresholdTokens :: "int option"
  wj_thresholdPercent :: "rat option"
  wj_requires :: "string option"
  wj_firedGeneration :: "string option"
  wj_firedCondition :: "string option"

datatype binding_state = Pending_binding | Bound

definition bindingState :: "wd_job \<Rightarrow> binding_state option" where
  "bindingState j =
     (if wj_policy j = ''context-usage-threshold''
      then Some (if truthy (wj_watchedFile j) \<and> truthy (wj_watchedGeneration j) then Bound else Pending_binding)
      else None)"

record register_input =
  ri_policy :: string
  ri_spec :: job_spec
  ri_target :: string
  ri_interval :: js_number
  ri_activeWake :: "js_number option"
  ri_scan :: "js_number option"
  ri_registeredBy :: string
  ri_targetGeneration :: "string option"
  ri_watchedFile :: "string option"
  ri_thresholdBytes :: "js_number option"
  ri_thresholdTokens :: "js_number option"
  ri_thresholdPercent :: "js_number option"
  ri_requires :: "string option"

datatype watchdog_error =
    Policy_unknown
  | Interval_invalid
  | Scan_interval_invalid
  | Target_session_invalid
  | Threshold_invalid
  | Watched_file_unresolved
  | Requires_job_not_found
  | Job_not_found
  | Job_is_terminal
  | Job_is_stopped
  | Auto_registration_state_invalid
  | Auto_registration_ambiguous
  | Job_id_conflict
  | Nothing_to_update
  | Policy_not_updatable
  | Interval_not_effective
  | Spec_not_updatable
  | Spec_invalid
  | Target_not_updatable
  | Continuity_action_invalid
  | Policy_threw string

type_synonym schedule = "job_spec \<times> int"

record watchdog_store =
  wr_jobs :: "wd_job list"
  wr_updatedFrom :: "string \<Rightarrow> schedule list option"
  wr_inFlight :: "string \<Rightarrow> schedule option"

definition empty_watchdog :: watchdog_store where
  "empty_watchdog = \<lparr>wr_jobs = [], wr_updatedFrom = (\<lambda>_. None), wr_inFlight = (\<lambda>_. None)\<rparr>"

section \<open>Registering\<close>

definition validateCadences :: "js_number \<Rightarrow> js_number option \<Rightarrow> watchdog_error + unit" where
  "validateCadences interval scan =
     unless_refused
       [((case js_integer interval of None \<Rightarrow> True | Some n \<Rightarrow> n \<le> 0), Interval_invalid),
        (scan \<noteq> None \<and> js_finite scan = None, Scan_interval_invalid)]
       (Inr ())"

definition positive_integer :: "js_number option \<Rightarrow> bool" where
  "positive_integer x = (case x of None \<Rightarrow> False
     | Some v \<Rightarrow> (case js_integer v of None \<Rightarrow> False | Some n \<Rightarrow> 0 < n))"

definition validateThresholdUnits :: "register_input \<Rightarrow> watchdog_error + unit" where
  "validateThresholdUnits inp =
     (let given = filter (\<lambda>x. x \<noteq> None) [ri_thresholdBytes inp, ri_thresholdTokens inp, ri_thresholdPercent inp]
      in unless_refused
       [(length given \<noteq> 1, Threshold_invalid),
        (ri_thresholdBytes inp \<noteq> None \<and> \<not> positive_integer (ri_thresholdBytes inp), Threshold_invalid),
        (ri_thresholdTokens inp \<noteq> None \<and> \<not> positive_integer (ri_thresholdTokens inp), Threshold_invalid),
        (ri_thresholdPercent inp \<noteq> None \<and>
           (case js_finite (ri_thresholdPercent inp) of None \<Rightarrow> True | Some q \<Rightarrow> q \<le> 0 \<or> 100 < q),
         Threshold_invalid)]
       (Inr ()))"

text \<open>\<open>specYaml.includes(...)\<close>: a packet's text holds the fragment in one of its strings; the fragments
  looked for have a space, which the packet's JSON has only there.\<close>

definition spec_strings :: "job_spec \<Rightarrow> string list" where
  "spec_strings s = (case s of
     Other_spec t \<Rightarrow> [t]
   | Reminder_spec a m \<Rightarrow> [a, m]
   | Wait_spec a m w \<Rightarrow> [a, m, ws_qitem w] @ List.map_filter id [ws_blocker w, ws_evidence w, ws_attention w, ws_notice w])"

definition spec_includes :: "string \<Rightarrow> job_spec \<Rightarrow> bool" where
  "spec_includes frag s = list_ex (sublist frag) (spec_strings s)"

definition generatedContinuityJob :: "register_input \<Rightarrow> bool" where
  "generatedContinuityJob inp \<longleftrightarrow>
     ri_registeredBy inp = ''daemon@kernel'' \<and>
     spec_includes ''generated_by: continuity-policy-materializer'' (ri_spec inp) \<and>
     (spec_includes ''continuity_mode: managed-compaction'' (ri_spec inp) \<or>
      spec_includes ''continuity_mode: apprentice-handover'' (ri_spec inp))"

definition wd_getById :: "watchdog_store \<Rightarrow> string \<Rightarrow> wd_job option" where
  "wd_getById s i = row_get wj_id i (wr_jobs s)"

definition wd_getByIdOrThrow :: "watchdog_store \<Rightarrow> string \<Rightarrow> watchdog_error + wd_job" where
  "wd_getByIdOrThrow s i = (case wd_getById s i of None \<Rightarrow> Inl Job_not_found | Some j \<Rightarrow> Inr j)"

definition register_guards :: "register_input \<Rightarrow> watchdog_store \<Rightarrow> watchdog_error + unit" where
  "register_guards inp s =
     (let context = (ri_policy inp = ''context-usage-threshold'')
      in unless_refused [(ri_policy inp \<notin> set WATCHDOG_POLICIES, Policy_unknown)]
          (try_bind (validateCadences (ri_interval inp) (ri_scan inp)) (\<lambda>_.
           unless_refused [(ri_target inp = [] \<or> CHR ''@'' \<notin> set (ri_target inp), Target_session_invalid)]
            (try_bind (if context then validateThresholdUnits inp else Inr ()) (\<lambda>_.
             unless_refused
               [(context \<and> ri_thresholdBytes inp \<noteq> None \<and> \<not> truthy (ri_watchedFile inp) \<and>
                   \<not> generatedContinuityJob inp, Watched_file_unresolved),
                (context \<and> truthy (ri_requires inp) \<and> wd_getById s (the (ri_requires inp)) = None,
                   Requires_job_not_found)]
               (Inr ()))))))"

definition integer_of :: "js_number option \<Rightarrow> int option" where
  "integer_of x = (case x of None \<Rightarrow> None | Some v \<Rightarrow> js_integer v)"

definition new_job :: "(string \<Rightarrow> string option) \<Rightarrow> timestamp \<Rightarrow> string \<Rightarrow> register_input \<Rightarrow> wd_job" where
  "new_job occupant now i inp =
     (let context = (ri_policy inp = ''context-usage-threshold'')
      in \<lparr>wj_id = i, wj_policy = ri_policy inp, wj_spec = ri_spec inp, wj_target = ri_target inp,
          wj_interval = or_default (js_integer (ri_interval inp)) 0,
          wj_activeWake = js_finite (ri_activeWake inp), wj_scan = js_finite (ri_scan inp),
          wj_lastEvaluation = None, wj_lastFire = None, wj_actionable = False, wj_lastActionable = None,
          wj_state = Wd_active, wj_registeredBy = ri_registeredBy inp, wj_registeredAt = now,
          wj_terminalReason = None, wj_generation = occupant (ri_registeredBy inp),
          wj_targetGeneration = ri_targetGeneration inp,
          wj_watchedFile = (if context then ri_watchedFile inp else None),
          wj_watchedGeneration =
            (if context \<and> truthy (ri_watchedFile inp) then occupant (ri_target inp) else None),
          wj_thresholdBytes = (if context then integer_of (ri_thresholdBytes inp) else None),
          wj_thresholdTokens = (if context then integer_of (ri_thresholdTokens inp) else None),
          wj_thresholdPercent = (if context then js_finite (ri_thresholdPercent inp) else None),
          wj_requires = (if context then ri_requires inp else None),
          wj_firedGeneration = None, wj_firedCondition = None\<rparr>)"

definition wd_register ::
  "(string \<Rightarrow> string option) \<Rightarrow> timestamp \<Rightarrow> string \<Rightarrow> register_input \<Rightarrow> watchdog_store
    \<Rightarrow> watchdog_error + watchdog_store \<times> wd_job" where
  "wd_register occupant now fresh inp s =
     try_bind (register_guards inp s) (\<lambda>_.
       case row_insert wj_id (new_job occupant now fresh inp) (wr_jobs s) of
         None \<Rightarrow> Inl Job_id_conflict
       | Some rows \<Rightarrow> Inr (s\<lparr>wr_jobs := rows\<rparr>, new_job occupant now fresh inp))"

section \<open>Reads\<close>

definition listExactTuple :: "watchdog_store \<Rightarrow> string \<Rightarrow> string \<Rightarrow> string option \<Rightarrow> wd_job list" where
  "listExactTuple s policy target gen =
     sort_key (\<lambda>j. (wj_registeredAt j, wj_id j))
       (filter (\<lambda>j. wj_policy j = policy \<and> wj_target j = target \<and> wj_targetGeneration j = gen) (wr_jobs s))"

definition listAliasTuples :: "watchdog_store \<Rightarrow> string \<Rightarrow> string list \<Rightarrow> string option \<Rightarrow> wd_job list" where
  "listAliasTuples s policy targets gen =
     sort_key (\<lambda>j. (wj_registeredAt j, wj_id j))
       (filter (\<lambda>j. wj_policy j = policy \<and> wj_target j \<in> set targets \<and> wj_targetGeneration j = gen) (wr_jobs s))"

definition wd_listAll :: "watchdog_store \<Rightarrow> wd_job list" where
  "wd_listAll s = sort_key wj_registeredAt (wr_jobs s)"

definition wd_listActive :: "watchdog_store \<Rightarrow> wd_job list" where
  "wd_listActive s = sort_key wj_registeredAt (filter (\<lambda>j. wj_state j = Wd_active) (wr_jobs s))"

definition findAutoRegistration ::
  "watchdog_store \<Rightarrow> string \<Rightarrow> string list \<Rightarrow> string option \<Rightarrow> watchdog_error + wd_job option" where
  "findAutoRegistration s policy aliases gen =
     (let rows = listAliasTuples s policy aliases gen;
          open_rows = filter (\<lambda>j. wj_state j = Wd_active \<or> wj_state j = Wd_stopped) rows
      in unless_refused
       [(list_ex (\<lambda>j. wj_state j \<notin> {Wd_active, Wd_stopped, Wd_terminal}) rows, Auto_registration_state_invalid),
        (length open_rows > 1, Auto_registration_ambiguous)]
       (Inr (Prelude.at open_rows 0)))"

section \<open>Writes\<close>

definition wd_row :: "string \<Rightarrow> (wd_job \<Rightarrow> wd_job) \<Rightarrow> watchdog_store \<Rightarrow> watchdog_store" where
  "wd_row i f s = s\<lparr>wr_jobs := row_set (\<lambda>j. wj_id j = i) f (wr_jobs s)\<rparr>"

definition forget_replaced :: "string \<Rightarrow> watchdog_store \<Rightarrow> watchdog_store" where
  "forget_replaced i s = s\<lparr>wr_updatedFrom := (wr_updatedFrom s)(i := None)\<rparr>"

definition wd_schedule :: "wd_job \<Rightarrow> schedule" where
  "wd_schedule j = (wj_spec j, wj_interval j)"

definition replaced_of :: "watchdog_store \<Rightarrow> string \<Rightarrow> schedule list" where
  "replaced_of s i = or_default (wr_updatedFrom s i) []"

definition scheduleUnchanged :: "watchdog_store \<Rightarrow> wd_job \<Rightarrow> schedule \<Rightarrow> bool" where
  "scheduleUnchanged s current snapshot \<longleftrightarrow>
     wd_schedule current = snapshot \<or> list_ex (\<lambda>r. r = snapshot) (replaced_of s (wj_id current))"

text \<open>A fire with a schedule snapshot moves the due boundary only while the active schedule matches.\<close>

definition recordEvaluation :: "string \<Rightarrow> timestamp \<Rightarrow> bool \<Rightarrow> wd_job option \<Rightarrow> watchdog_store \<Rightarrow> watchdog_store" where
  "recordEvaluation i at_time fired snapshot s =
     (if fired then
        (case snapshot of
           Some snap \<Rightarrow>
             let unchanged = (case wd_getById s i of None \<Rightarrow> False
                   | Some current \<Rightarrow> wj_state current = Wd_active \<and>
                       wj_lastEvaluation current = wj_lastEvaluation snap \<and>
                       scheduleUnchanged s current (wd_schedule snap))
             in wd_row i (\<lambda>j. if unchanged then j\<lparr>wj_lastFire := Some at_time, wj_lastEvaluation := Some at_time\<rparr>
                              else j\<lparr>wj_lastFire := Some at_time\<rparr>) s
         | None \<Rightarrow> wd_row i (\<lambda>j. j\<lparr>wj_lastEvaluation := Some at_time, wj_lastFire := Some at_time\<rparr>) s)
      else wd_row i (\<lambda>j. j\<lparr>wj_lastEvaluation := Some at_time\<rparr>) (forget_replaced i s))"

definition writeSchedule :: "string \<Rightarrow> job_spec \<Rightarrow> int \<Rightarrow> timestamp option \<Rightarrow> watchdog_store \<Rightarrow> watchdog_store" where
  "writeSchedule i spec interval evaluated =
     wd_row i (\<lambda>j. if wj_state j = Wd_active
       then j\<lparr>wj_spec := spec, wj_interval := interval, wj_lastEvaluation := evaluated\<rparr> else j)"

definition wd_updateSchedule :: "string \<Rightarrow> job_spec \<Rightarrow> int \<Rightarrow> timestamp option \<Rightarrow> watchdog_store \<Rightarrow> watchdog_store" where
  "wd_updateSchedule i spec interval evaluated s =
     (let same = (case wd_getById s i of None \<Rightarrow> False
            | Some j \<Rightarrow> wj_spec j = spec \<and> wj_interval j = interval \<and> wj_lastEvaluation j = evaluated)
      in writeSchedule i spec interval evaluated (if same then s else forget_replaced i s))"

text \<open>\<open>replaced.slice(-8)\<close>.\<close>

definition last_eight :: "'a list \<Rightarrow> 'a list" where
  "last_eight xs = drop (length xs - 8) xs"

definition keep_replaced :: "schedule option \<Rightarrow> schedule list \<Rightarrow> schedule list" where
  "keep_replaced started replaced =
     (let kept = last_eight replaced
      in case started of
           None \<Rightarrow> kept
         | Some x \<Rightarrow> if x \<in> set replaced \<and> x \<notin> set kept then x # kept else kept)"

definition updateInPlace ::
  "string \<Rightarrow> job_spec \<Rightarrow> int \<Rightarrow> timestamp option \<Rightarrow> watchdog_store \<Rightarrow> watchdog_error + watchdog_store" where
  "updateInPlace i spec interval evaluated s =
     try_bind (wd_getByIdOrThrow s i) (\<lambda>before.
       let t = writeSchedule i spec interval evaluated s
       in Inr (t\<lparr>wr_updatedFrom := (wr_updatedFrom t)(i := Some
            (keep_replaced (wr_inFlight t i) (replaced_of t i @ [wd_schedule before])))\<rparr>))"

definition deliverySchedule :: "string \<Rightarrow> watchdog_store \<Rightarrow> watchdog_error + watchdog_store \<times> wd_job" where
  "deliverySchedule i s =
     try_bind (wd_getByIdOrThrow s i) (\<lambda>j.
       Inr (s\<lparr>wr_inFlight := (wr_inFlight s)(i := Some (wd_schedule j))\<rparr>, j))"

definition deliveryAccounted :: "string \<Rightarrow> watchdog_store \<Rightarrow> watchdog_store" where
  "deliveryAccounted i s =
     s\<lparr>wr_inFlight := (wr_inFlight s)(i := None), wr_updatedFrom := (wr_updatedFrom s)(i := None)\<rparr>"

definition releaseStoppedSchedules :: "string list \<Rightarrow> watchdog_store \<Rightarrow> watchdog_store" where
  "releaseStoppedSchedules ids s =
     s\<lparr>wr_updatedFrom := (\<lambda>i. if i \<in> set ids \<and> wr_inFlight s i = None then None else wr_updatedFrom s i)\<rparr>"

definition setActionable ::
  "string \<Rightarrow> bool \<Rightarrow> timestamp \<Rightarrow> timestamp option \<Rightarrow> watchdog_store \<Rightarrow> watchdog_store" where
  "setActionable i new at_time preserve =
     (if \<not> new then wd_row i (\<lambda>j. j\<lparr>wj_actionable := False, wj_lastActionable := None\<rparr>)
      else wd_row i (\<lambda>j. j\<lparr>wj_actionable := True, wj_lastActionable := Some (or_default preserve at_time)\<rparr>))"

definition recordConditionReceipt :: "string \<Rightarrow> string \<Rightarrow> watchdog_store \<Rightarrow> watchdog_store" where
  "recordConditionReceipt i receipt = wd_row i (\<lambda>j. j\<lparr>wj_firedCondition := Some receipt\<rparr>)"

definition recordWatchedFileBinding :: "string \<Rightarrow> string \<Rightarrow> string \<Rightarrow> watchdog_store \<Rightarrow> watchdog_store" where
  "recordWatchedFileBinding i file gen =
     wd_row i (\<lambda>j. j\<lparr>wj_watchedFile := Some file, wj_watchedGeneration := Some gen\<rparr>)"

definition recordThresholdFire :: "string \<Rightarrow> string \<Rightarrow> timestamp \<Rightarrow> watchdog_store \<Rightarrow> watchdog_store" where
  "recordThresholdFire i gen fired =
     wd_row i (\<lambda>j. j\<lparr>wj_firedGeneration := Some gen, wj_lastEvaluation := Some fired, wj_lastFire := Some fired\<rparr>)"

definition wd_markTerminal :: "string \<Rightarrow> string \<Rightarrow> watchdog_store \<Rightarrow> watchdog_store" where
  "wd_markTerminal i reason s =
     releaseStoppedSchedules [i] (wd_row i (\<lambda>j. j\<lparr>wj_state := Wd_terminal, wj_terminalReason := Some reason\<rparr>) s)"

definition wd_stop :: "string \<Rightarrow> string \<Rightarrow> watchdog_store \<Rightarrow> watchdog_error + watchdog_store \<times> wd_job" where
  "wd_stop i reason s =
     try_bind (wd_getByIdOrThrow s i) (\<lambda>existing.
       if wj_state existing = Wd_terminal then Inl Job_is_terminal
       else if wj_state existing = Wd_stopped then Inr (s, existing)
       else let t = wd_row i (\<lambda>j. j\<lparr>wj_state := Wd_stopped, wj_terminalReason := Some reason\<rparr>) s
            in try_bind (wd_getByIdOrThrow t i) (\<lambda>stopped. Inr (releaseStoppedSchedules [i] t, stopped)))"

definition HANDOVER_REASON :: string where
  "HANDOVER_REASON = ''registering generation retired (seat handover)''"

text \<open>An empty generation is unknown and matches nothing.\<close>

definition dropArmedByRegisteringGeneration ::
  "string \<Rightarrow> (wd_job \<Rightarrow> bool) \<Rightarrow> string list \<Rightarrow> watchdog_store \<Rightarrow> watchdog_store \<times> nat" where
  "dropArmedByRegisteringGeneration gen wakesRetiring keep s =
     (if gen = [] then (s, 0)
      else
        let ids = map wj_id (filter (\<lambda>j. wj_state j = Wd_active \<and> wj_generation j = Some gen \<and>
                    wj_id j \<notin> set keep \<and> wakesRetiring j) (wr_jobs s));
            hit = (\<lambda>j. wj_state j = Wd_active \<and> wj_id j \<in> set ids);
            n = row_count hit (wr_jobs s);
            t = s\<lparr>wr_jobs := row_set hit (\<lambda>j. j\<lparr>wj_state := Wd_stopped, wj_terminalReason := Some HANDOVER_REASON\<rparr>) (wr_jobs s)\<rparr>
        in if ids = [] then (s, 0) else (if 0 < n then releaseStoppedSchedules ids t else t, n))"

text \<open>The daemon-owned row of a tuple: kept while it is active or stopped, replaced when only history is left.\<close>

definition ensureAutoRegistration ::
  "(string \<Rightarrow> string option) \<Rightarrow> timestamp \<Rightarrow> string \<Rightarrow> register_input \<Rightarrow> string list \<Rightarrow> watchdog_store
    \<Rightarrow> watchdog_error + watchdog_store \<times> wd_job" where
  "ensureAutoRegistration occupant now fresh inp aliases s =
     try_bind (validateCadences (ri_interval inp) (ri_scan inp)) (\<lambda>_.
     try_bind (findAutoRegistration s (ri_policy inp) aliases (ri_targetGeneration inp)) (\<lambda>found.
       case found of
         None \<Rightarrow> wd_register occupant now fresh inp s
       | Some existing \<Rightarrow>
           let t = wd_row (wj_id existing) (\<lambda>j. j\<lparr>wj_spec := ri_spec inp, wj_target := ri_target inp,
                     wj_interval := or_default (js_integer (ri_interval inp)) 0,
                     wj_activeWake := js_finite (ri_activeWake inp), wj_scan := js_finite (ri_scan inp)\<rparr>) s
           in try_bind (wd_getByIdOrThrow t (wj_id existing)) (\<lambda>j. Inr (t, j))))"

section \<open>When a job is due\<close>

definition isQueueWaitEventPending :: "job_spec \<Rightarrow> bool" where
  "isQueueWaitEventPending spec = (case spec of Wait_spec _ _ w \<Rightarrow> ws_eventPending w | _ \<Rightarrow> False)"

definition cadenceMs :: "wd_job \<Rightarrow> rat" where
  "cadenceMs j = or_default (wj_scan j) (of_int (wj_interval j)) * 1000"

text \<open>Epoch milliseconds, or none when the job is due now; a last evaluation at the epoch asks for that.\<close>

definition nextDueAt :: "wd_job \<Rightarrow> rat option" where
  "nextDueAt j = (case wj_lastEvaluation j of
     None \<Rightarrow>
       if wj_policy j \<noteq> ''periodic-reminder'' then None
       else if isQueueWaitEventPending (wj_spec j) then None
       else Some (of_int (wj_registeredAt j) + cadenceMs j)
   | Some evaluated \<Rightarrow> if evaluated = 0 then None else Some (of_int evaluated + cadenceMs j))"

definition isDue :: "wd_job \<Rightarrow> timestamp \<Rightarrow> bool" where
  "isDue j now = (case nextDueAt j of None \<Rightarrow> True | Some due \<Rightarrow> due \<le> of_int now)"

end
