(* ===== verification/Watchdog_Update.thy ===== *)
theory Watchdog_Update
  imports Watchdog_Jobs
begin

text \<open>
  Reading a watchdog specification (\<open>parseWatchdogSpec\<close> and \<open>watchdogJobTarget\<close> of
  \<open>watchdog-policy-engine.ts\<close>), what each policy requires of one (\<open>policies/*.ts\<close>), and a caller's
  change of an active job in place (\<open>watchdog-job-update.ts\<close>). The \<open>yaml\<close> package is not part of the
  repository: reading a text and setting the top-level message of one are the two fields of
  \<open>yaml_library\<close>.
\<close>

section \<open>YAML values\<close>

datatype yaml =
    Y_null
  | Y_bool bool
  | Y_number js_number
  | Y_string string
  | Y_list "yaml list"
  | Y_map "(string \<times> yaml) list"

record yaml_library =
  y_parse :: "string \<Rightarrow> yaml option"
  y_setMessage :: "job_spec \<Rightarrow> string \<Rightarrow> job_spec option"

definition yaml_truthy :: "yaml option \<Rightarrow> bool" where
  "yaml_truthy v = (case v of
     None \<Rightarrow> False
   | Some Y_null \<Rightarrow> False
   | Some (Y_bool b) \<Rightarrow> b
   | Some (Y_number n) \<Rightarrow> (case n of Finite q \<Rightarrow> q \<noteq> 0 | Infinite \<Rightarrow> True | Not_a_number \<Rightarrow> False)
   | Some (Y_string s) \<Rightarrow> s \<noteq> []
   | Some _ \<Rightarrow> True)"

text \<open>\<open>value?.key\<close>.\<close>

definition yaml_get :: "string \<Rightarrow> yaml option \<Rightarrow> yaml option" where
  "yaml_get k v = (case v of Some (Y_map kvs) \<Rightarrow> map_of kvs k | _ \<Rightarrow> None)"

definition is_array :: "yaml option \<Rightarrow> bool" where
  "is_array v = (case v of Some (Y_list _) \<Rightarrow> True | _ \<Rightarrow> False)"

definition yaml_absent :: "yaml option \<Rightarrow> bool" where
  "yaml_absent v \<longleftrightarrow> v = None \<or> v = Some Y_null"

definition yaml_string :: "yaml option \<Rightarrow> string option" where
  "yaml_string v = (case v of Some (Y_string s) \<Rightarrow> Some s | _ \<Rightarrow> None)"

definition is_mapping :: "yaml option \<Rightarrow> bool" where
  "is_mapping v = (case v of Some (Y_map _) \<Rightarrow> True | _ \<Rightarrow> False)"

definition entries :: "yaml option \<Rightarrow> (string \<times> yaml) list" where
  "entries v = (case v of Some (Y_map kvs) \<Rightarrow> kvs | _ \<Rightarrow> [])"

text \<open>The packets the daemon writes are JSON, which YAML reads as it is.\<close>

definition wait_yaml :: "wait_state \<Rightarrow> yaml" where
  "wait_yaml w = Y_map ([
     (''qitemId'', Y_string (ws_qitem w)),
     (''blocker'', case ws_blocker w of None \<Rightarrow> Y_null | Some b \<Rightarrow> Y_string b),
     (''blockerTransition'', case ws_blockerTransition w of None \<Rightarrow> Y_null | Some n \<Rightarrow> Y_number (Finite (of_nat n))),
     (''evidence'', case ws_evidence w of None \<Rightarrow> Y_null | Some e \<Rightarrow> Y_string e),
     (''initialSeconds'', Y_number (Finite (of_int (ws_initial w)))),
     (''maxSeconds'', Y_number (Finite (of_int (ws_max w)))),
     (''eventPending'', Y_bool (ws_eventPending w))]
     @ (case ws_attention w of None \<Rightarrow> [] | Some a \<Rightarrow> [(''attentionRevision'', Y_string a)])
     @ (case ws_notice w of None \<Rightarrow> [] | Some n \<Rightarrow> [(''notice'', Y_string n)]))"

definition reminder_yaml :: "string \<Rightarrow> string \<Rightarrow> (string \<times> yaml) list" where
  "reminder_yaml session message =
     [(''policy'', Y_string ''periodic-reminder''), (''target'', Y_map [(''session'', Y_string session)]),
      (''message'', Y_string message)]"

definition parseYaml :: "yaml_library \<Rightarrow> job_spec \<Rightarrow> yaml option" where
  "parseYaml lib spec = (case spec of
     Other_spec t \<Rightarrow> y_parse lib t
   | Reminder_spec s m \<Rightarrow> Some (Y_map (reminder_yaml s m))
   | Wait_spec s m w \<Rightarrow> Some (Y_map (reminder_yaml s m @ [(''context'', Y_map [(''queue_wait'', wait_yaml w)])])))"

section \<open>The specification\<close>

record parsed_spec =
  ps_target :: "string option"
  ps_message :: "string option"
  ps_context :: "(string \<times> yaml) list"

definition textual :: "yaml option \<Rightarrow> bool" where
  "textual v \<longleftrightarrow> yaml_absent v \<or> yaml_string v \<noteq> None"

definition parseWatchdogSpec :: "yaml_library \<Rightarrow> job_spec \<Rightarrow> watchdog_error + parsed_spec" where
  "parseWatchdogSpec lib spec =
     (let v = parseYaml lib spec; field = (\<lambda>k. yaml_get k v);
          named = (case yaml_string (field ''target'') of
             Some s \<Rightarrow> Some s | None \<Rightarrow> yaml_string (yaml_get ''session'' (field ''target'')))
      in unless_refused
       [(\<not> is_mapping v, Spec_invalid),
        (\<not> textual (field ''message''), Spec_invalid),
        (\<not> yaml_absent (field ''context'') \<and> \<not> is_mapping (field ''context''), Spec_invalid),
        (\<not> textual (yaml_get ''message'' (field ''context'')), Spec_invalid),
        (\<not> yaml_absent (field ''target'') \<and> named = None, Spec_invalid)]
       (Inr \<lparr>ps_target = named, ps_message = yaml_string (field ''message''),
             ps_context = entries (field ''context'')\<rparr>))"

definition watchdogJobTarget :: "wd_job \<Rightarrow> string option \<Rightarrow> string" where
  "watchdogJobTarget j spec_target =
     (if wj_policy j = ''context-usage-threshold'' then wj_target j else or_default spec_target (wj_target j))"

section \<open>What a policy requires of a specification\<close>

definition context_get :: "parsed_spec \<Rightarrow> string \<Rightarrow> yaml option" where
  "context_get spec k = map_of (ps_context spec) k"

definition reminderMessage :: "parsed_spec \<Rightarrow> string option" where
  "reminderMessage spec = nullish (ps_message spec) (yaml_string (context_get spec ''message''))"

definition periodicReminderSpecProblem :: "parsed_spec \<Rightarrow> bool" where
  "periodicReminderSpecProblem spec \<longleftrightarrow> \<not> truthy (reminderMessage spec)"

definition side_missing :: "yaml option \<Rightarrow> bool" where
  "side_missing pool \<longleftrightarrow> \<not> yaml_truthy (yaml_get ''path'' pool) \<and> \<not> is_array (yaml_get ''paths'' pool)"

definition edgeArtifactRequiredSpecProblem :: "parsed_spec \<Rightarrow> bool" where
  "edgeArtifactRequiredSpecProblem spec \<longleftrightarrow>
     side_missing (context_get spec ''source'') \<or> side_missing (context_get spec ''target'')"

definition workflowKeepaliveSpecProblem :: "parsed_spec \<Rightarrow> bool" where
  "workflowKeepaliveSpecProblem spec \<longleftrightarrow> \<not> yaml_truthy (context_get spec ''workflow_instance_id'')"

text \<open>The number of pools a list or a single pool stands for; reading a field of null throws.\<close>

definition pool_count :: "yaml \<Rightarrow> nat" where
  "pool_count spec =
     (if yaml_truthy (yaml_get ''path'' (Some spec)) then 1
      else (case yaml_get ''paths'' (Some spec) of Some (Y_list ps) \<Rightarrow> length ps | _ \<Rightarrow> 0))"

definition expandPools :: "yaml option \<Rightarrow> watchdog_error + nat" where
  "expandPools pools =
     (if \<not> yaml_truthy pools then Inr 0
      else let specs = (case pools of Some (Y_list vs) \<Rightarrow> vs | Some v \<Rightarrow> [v] | None \<Rightarrow> [])
           in if Y_null \<in> set specs then Inl (Policy_threw ''TypeError'')
              else Inr (sum_list (map pool_count specs)))"

definition artifactPoolListProblem :: "yaml option \<Rightarrow> watchdog_error + bool" where
  "artifactPoolListProblem pools = map_sum id (\<lambda>n. n = 0) (expandPools pools)"

definition specProblem :: "string \<Rightarrow> parsed_spec \<Rightarrow> watchdog_error + bool" where
  "specProblem policy spec =
     (if policy = ''periodic-reminder'' then Inr (periodicReminderSpecProblem spec)
      else if policy = ''edge-artifact-required'' then Inr (edgeArtifactRequiredSpecProblem spec)
      else if policy = ''artifact-pool-ready'' then artifactPoolListProblem (context_get spec ''pools'')
      else if policy = ''workflow-keepalive'' then Inr (workflowKeepaliveSpecProblem spec)
      else Inr False)"

section \<open>Changing a job in place\<close>

definition UPDATABLE_POLICIES :: "string list" where
  "UPDATABLE_POLICIES =
    [''periodic-reminder'', ''artifact-pool-ready'', ''edge-artifact-required'', ''workflow-keepalive'',
     ''idle-gate-qitem'', ''context-usage-threshold'']"

definition DAEMON_REGISTRANT :: string where
  "DAEMON_REGISTRANT = ''daemon@kernel''"

text \<open>The three fields of a request are unknown values; one of the wrong kind is \<open>Wrong_kind\<close>.\<close>

datatype 'a given = Not_given | Given 'a | Wrong_kind

record job_update =
  ju_interval :: "js_number given"
  ju_message :: "string given"
  ju_spec :: "job_spec given"

datatype changed_field = Changed_interval | Changed_spec

record update_result =
  ur_job :: wd_job
  ur_changed :: "changed_field list"
  ur_nextDueAt :: "rat option"
  ur_dueNow :: bool

definition retuneQueueWait :: "job_spec \<Rightarrow> int \<Rightarrow> job_spec" where
  "retuneQueueWait spec seconds = (case spec of
     Wait_spec s m w \<Rightarrow> Wait_spec s m (w\<lparr>ws_initial := seconds, ws_max := max (ws_max w) seconds\<rparr>)
   | _ \<Rightarrow> spec)"

definition storedTarget :: "yaml_library \<Rightarrow> wd_job \<Rightarrow> string" where
  "storedTarget lib j = (case parseWatchdogSpec lib (wj_spec j) of
     Inl _ \<Rightarrow> wj_target j | Inr p \<Rightarrow> watchdogJobTarget j (ps_target p))"

definition withMessage :: "yaml_library \<Rightarrow> job_spec \<Rightarrow> string \<Rightarrow> watchdog_error + job_spec" where
  "withMessage lib spec message = (case y_setMessage lib spec message of None \<Rightarrow> Inl Spec_invalid | Some t \<Rightarrow> Inr t)"

definition job_update_guards :: "wd_job \<Rightarrow> job_update \<Rightarrow> (bool \<times> watchdog_error) list" where
  "job_update_guards j inp =
     [(wj_state j = Wd_terminal, Job_is_terminal),
      (wj_state j = Wd_stopped, Job_is_stopped),
      (ju_interval inp = Not_given \<and> ju_message inp = Not_given \<and> ju_spec inp = Not_given, Nothing_to_update),
      (wj_registeredBy j = DAEMON_REGISTRANT, Policy_not_updatable),
      (wj_policy j \<notin> set UPDATABLE_POLICIES, Policy_not_updatable)]"

definition updated_interval :: "wd_job \<Rightarrow> job_update \<Rightarrow> watchdog_error + int" where
  "updated_interval j inp = (case ju_interval inp of
     Not_given \<Rightarrow> Inr (wj_interval j)
   | Wrong_kind \<Rightarrow> Inl Interval_invalid
   | Given n \<Rightarrow> try_bind (validateCadences n None) (\<lambda>_.
       if wj_scan j \<noteq> None then Inl Interval_not_effective else Inr (or_default (js_integer n) (wj_interval j))))"

text \<open>The new specification, checked for this job's policy and target before anything is stored.\<close>

definition checked_spec :: "yaml_library \<Rightarrow> wd_job \<Rightarrow> job_spec \<Rightarrow> watchdog_error + job_spec" where
  "checked_spec lib j spec =
     try_bind (parseWatchdogSpec lib spec) (\<lambda>parsed.
       unless_refused
         [((case yaml_string (yaml_get ''policy'' (parseYaml lib spec)) of
             None \<Rightarrow> False | Some p \<Rightarrow> p \<noteq> wj_policy j), Spec_invalid)]
         (try_bind (specProblem (wj_policy j) parsed) (\<lambda>problem.
           unless_refused
             [(problem, Spec_invalid),
              (watchdogJobTarget j (ps_target parsed) \<noteq> storedTarget lib j, Target_not_updatable)]
             (Inr spec))))"

definition updated_spec :: "yaml_library \<Rightarrow> wd_job \<Rightarrow> job_update \<Rightarrow> watchdog_error + job_spec" where
  "updated_spec lib j inp =
     (if ju_message inp = Not_given \<and> ju_spec inp = Not_given then Inr (wj_spec j)
      else unless_refused
       [(isQueueWait (wj_spec j), Spec_not_updatable),
        (wj_policy j = ''context-usage-threshold'' \<and> ju_spec inp \<noteq> Not_given, Spec_not_updatable),
        (ju_spec inp = Wrong_kind, Spec_invalid),
        ((case ju_message inp of Not_given \<Rightarrow> False | Wrong_kind \<Rightarrow> True | Given m \<Rightarrow> trim m = []), Spec_invalid)]
       (let base = (case ju_spec inp of Given s \<Rightarrow> s | _ \<Rightarrow> wj_spec j)
        in try_bind (case ju_message inp of Given m \<Rightarrow> withMessage lib base m | _ \<Rightarrow> Inr base)
             (checked_spec lib j)))"

definition updateWatchdogJob ::
  "yaml_library \<Rightarrow> timestamp \<Rightarrow> string \<Rightarrow> job_update \<Rightarrow> watchdog_store
    \<Rightarrow> watchdog_error + watchdog_store \<times> update_result" where
  "updateWatchdogJob lib now i inp s =
     try_bind (wd_getByIdOrThrow s i) (\<lambda>j.
     unless_refused (job_update_guards j inp)
     (try_bind (updated_interval j inp) (\<lambda>interval.
     try_bind (updated_spec lib j inp) (\<lambda>edited.
       let wait_tuned = (isQueueWait (wj_spec j) \<and> ju_interval inp \<noteq> Not_given);
           spec = (if wait_tuned then retuneQueueWait edited interval else edited);
           retuned = (wait_tuned \<and> spec \<noteq> wj_spec j);
           changed = (if interval \<noteq> wj_interval j \<or> retuned then [Changed_interval] else [])
             @ (if (ju_message inp \<noteq> Not_given \<or> ju_spec inp \<noteq> Not_given) \<and> spec \<noteq> wj_spec j then [Changed_spec] else [])
       in try_bind (if interval \<noteq> wj_interval j \<or> spec \<noteq> wj_spec j
                    then updateInPlace i spec interval (wj_lastEvaluation j) s else Inr s) (\<lambda>t.
          try_bind (wd_getByIdOrThrow t i) (\<lambda>updated.
            Inr (t, \<lparr>ur_job = updated, ur_changed = changed, ur_nextDueAt = nextDueAt updated,
                     ur_dueNow = isDue updated now\<rparr>)))))))"

end
