(* ===== verification/Watchdog_Machine.thy ===== *)
theory Watchdog_Machine
  imports Watchdog_Update
begin

text \<open>
  The job table as a machine: one label per operation other code calls on the repository
  (\<open>watchdog-jobs-repository.ts\<close>, and \<open>updateWatchdogJob\<close>, the only caller of \<open>updateInPlace\<close>). The
  invariant of the rows and of the in-memory maps, the order in which a row may change, and what a
  delivery in flight can rely on.
\<close>

section \<open>Operations\<close>

datatype watchdog_op =
    Do_register timestamp string register_input
  | Do_ensure timestamp string register_input "string list"
  | Do_update timestamp string job_update
  | Do_updateSchedule string job_spec int "timestamp option"
  | Do_recordEvaluation string timestamp bool "wd_job option"
  | Do_deliverySchedule string
  | Do_deliveryAccounted string
  | Do_setActionable string bool timestamp "timestamp option"
  | Do_recordCondition string string
  | Do_bindFile string string string
  | Do_thresholdFire string string timestamp
  | Do_markTerminal string string
  | Do_stop string string
  | Do_drop string "wd_job \<Rightarrow> bool" "string list"

fun watchdog_step ::
  "(string \<Rightarrow> string option) \<Rightarrow> yaml_library \<Rightarrow> watchdog_op \<Rightarrow> watchdog_store \<Rightarrow> watchdog_error + watchdog_store" where
  "watchdog_step occ lib (Do_register now fresh inp) s = map_sum id fst (wd_register occ now fresh inp s)"
| "watchdog_step occ lib (Do_ensure now fresh inp aliases) s =
     map_sum id fst (ensureAutoRegistration occ now fresh inp aliases s)"
| "watchdog_step occ lib (Do_update now i inp) s = map_sum id fst (updateWatchdogJob lib now i inp s)"
| "watchdog_step occ lib (Do_updateSchedule i spec interval evaluated) s =
     Inr (wd_updateSchedule i spec interval evaluated s)"
| "watchdog_step occ lib (Do_recordEvaluation i t fired snap) s = Inr (recordEvaluation i t fired snap s)"
| "watchdog_step occ lib (Do_deliverySchedule i) s = map_sum id fst (deliverySchedule i s)"
| "watchdog_step occ lib (Do_deliveryAccounted i) s = Inr (deliveryAccounted i s)"
| "watchdog_step occ lib (Do_setActionable i new t preserve) s = Inr (setActionable i new t preserve s)"
| "watchdog_step occ lib (Do_recordCondition i receipt) s = Inr (recordConditionReceipt i receipt s)"
| "watchdog_step occ lib (Do_bindFile i file gen) s = Inr (recordWatchedFileBinding i file gen s)"
| "watchdog_step occ lib (Do_thresholdFire i gen t) s = Inr (recordThresholdFire i gen t s)"
| "watchdog_step occ lib (Do_markTerminal i reason) s = Inr (wd_markTerminal i reason s)"
| "watchdog_step occ lib (Do_stop i reason) s = map_sum id fst (wd_stop i reason s)"
| "watchdog_step occ lib (Do_drop gen wakes keep) s = Inr (fst (dropArmedByRegisteringGeneration gen wakes keep s))"

section \<open>Rows and memory\<close>

definition threshold_ok :: "wd_job \<Rightarrow> bool" where
  "threshold_ok j \<longleftrightarrow>
     (if wj_policy j = ''context-usage-threshold''
      then (case (wj_thresholdBytes j, wj_thresholdTokens j, wj_thresholdPercent j) of
              (Some n, None, None) \<Rightarrow> 0 < n
            | (None, Some n, None) \<Rightarrow> 0 < n
            | (None, None, Some q) \<Rightarrow> 0 < q \<and> q \<le> 100
            | _ \<Rightarrow> False)
      else wj_thresholdBytes j = None \<and> wj_thresholdTokens j = None \<and> wj_thresholdPercent j = None)"

definition job_ok :: "wd_job \<Rightarrow> bool" where
  "job_ok j \<longleftrightarrow>
     wj_state j \<in> {Wd_active, Wd_stopped, Wd_terminal} \<and>
     wj_policy j \<in> set WATCHDOG_POLICIES \<and>
     (wj_state j = Wd_active \<longleftrightarrow> wj_terminalReason j = None) \<and>
     (wj_actionable j \<longleftrightarrow> wj_lastActionable j \<noteq> None) \<and>
     (wj_firedGeneration j \<noteq> None \<longrightarrow> wj_lastFire j \<noteq> None) \<and>
     threshold_ok j"

definition job_active :: "watchdog_store \<Rightarrow> string \<Rightarrow> bool" where
  "job_active s i \<longleftrightarrow> (\<exists>j. wd_getById s i = Some j \<and> wj_state j = Wd_active)"

definition memory_ok :: "watchdog_store \<Rightarrow> bool" where
  "memory_ok s \<longleftrightarrow>
     (\<forall>i. length (replaced_of s i) \<le> 9) \<and>
     (\<forall>i. wr_updatedFrom s i \<noteq> None \<longrightarrow> job_active s i \<or> wr_inFlight s i \<noteq> None) \<and>
     (\<forall>i. wr_inFlight s i \<noteq> None \<longrightarrow> wd_getById s i \<noteq> None)"

definition watchdog_inv :: "watchdog_store \<Rightarrow> bool" where
  "watchdog_inv s \<longleftrightarrow> distinct (map wj_id (wr_jobs s)) \<and> (\<forall>j \<in> set (wr_jobs s). job_ok j) \<and> memory_ok s"

text \<open>What may change in a row: a state only moves from active to stopped to terminal, and a terminal row
  keeps its schedule and target.\<close>

definition state_rank :: "watchdog_state \<Rightarrow> nat" where
  "state_rank st = (case st of Wd_active \<Rightarrow> 0 | Wd_stopped \<Rightarrow> 1 | Wd_terminal \<Rightarrow> 2 | Wd_unknown _ \<Rightarrow> 0)"

definition job_follows :: "wd_job \<Rightarrow> wd_job \<Rightarrow> bool" where
  "job_follows j k \<longleftrightarrow>
     wj_id k = wj_id j \<and> wj_policy k = wj_policy j \<and> wj_registeredBy k = wj_registeredBy j \<and>
     wj_registeredAt k = wj_registeredAt j \<and> wj_generation k = wj_generation j \<and>
     wj_targetGeneration k = wj_targetGeneration j \<and> wj_requires k = wj_requires j \<and>
     wj_thresholdBytes k = wj_thresholdBytes j \<and> wj_thresholdTokens k = wj_thresholdTokens j \<and>
     wj_thresholdPercent k = wj_thresholdPercent j \<and>
     state_rank (wj_state j) \<le> state_rank (wj_state k) \<and>
     (wj_lastFire j \<noteq> None \<longrightarrow> wj_lastFire k \<noteq> None) \<and>
     (wj_state j = Wd_terminal \<longrightarrow> wj_spec k = wj_spec j \<and> wj_interval k = wj_interval j \<and>
        wj_target k = wj_target j \<and> wj_activeWake k = wj_activeWake j \<and> wj_scan k = wj_scan j)"

definition store_follows :: "watchdog_store \<Rightarrow> watchdog_store \<Rightarrow> bool" where
  "store_follows s t \<longleftrightarrow>
     (\<forall>i j. wd_getById s i = Some j \<longrightarrow> (\<exists>k. wd_getById t i = Some k \<and> job_follows j k))"

lemma job_follows_refl [simp]: "job_follows j j"
  by (simp add: job_follows_def)

lemma job_follows_trans: "job_follows j k \<Longrightarrow> job_follows k l \<Longrightarrow> state_rank (wj_state k) = 2 \<longrightarrow> wj_state k = Wd_terminal \<Longrightarrow>
    job_follows j l"
  by (auto simp: job_follows_def state_rank_def split: watchdog_state.splits)

lemma store_follows_refl [simp]: "store_follows s s"
  by (auto simp: store_follows_def)

lemma state_rank_two [simp]: "state_rank st = 2 \<longleftrightarrow> st = Wd_terminal"
  by (cases st) (simp_all add: state_rank_def)

lemma store_follows_trans: "store_follows s t \<Longrightarrow> store_follows t u \<Longrightarrow> store_follows s u"
  unfolding store_follows_def by (meson job_follows_trans state_rank_two)

section \<open>Reads after writes\<close>

lemma wd_getById_row [row_simps]:
  assumes "\<And>j. wj_id (f j) = wj_id j"
  shows "wd_getById (wd_row i f s) k = (if k = i then map_option f (wd_getById s i) else wd_getById s k)"
proof -
  have "wd_getById (wd_row i f s) k = map_option (\<lambda>j. if wj_id j = i then f j else j) (wd_getById s k)"
    by (simp add: wd_getById_def wd_row_def row_get_set assms)
  then show ?thesis
    by (cases "wd_getById s k") (auto simp: wd_getById_def dest: row_get_key)
qed

lemma wd_getById_memory [simp]:
  "wd_getById (s\<lparr>wr_updatedFrom := u\<rparr>) i = wd_getById s i"
  "wd_getById (s\<lparr>wr_inFlight := m\<rparr>) i = wd_getById s i"
  by (simp_all add: wd_getById_def)

lemma wd_getById_set: "wd_getById s i = Some j \<Longrightarrow> j \<in> set (wr_jobs s) \<and> wj_id j = i"
  unfolding wd_getById_def by (rule row_get_Some)

lemma wd_getById_ok: "watchdog_inv s \<Longrightarrow> wd_getById s i = Some j \<Longrightarrow> job_ok j"
  by (auto simp: watchdog_inv_def dest: wd_getById_set)

lemma wd_row_memory [simp]:
  "wr_updatedFrom (wd_row i f s) = wr_updatedFrom s" "wr_inFlight (wd_row i f s) = wr_inFlight s"
  by (simp_all add: wd_row_def)

lemma replaced_of_row [simp]: "replaced_of (wd_row i f s) k = replaced_of s k"
  by (simp add: replaced_of_def)

lemma wd_row_ids: "(\<And>j. wj_id (f j) = wj_id j) \<Longrightarrow> map wj_id (wr_jobs (wd_row i f s)) = map wj_id (wr_jobs s)"
  by (simp add: wd_row_def row_set_keys)

text \<open>An update of one row that keeps its identity, its health and its order keeps all three of the table.\<close>

lemma wd_row_rows:
  assumes "distinct (map wj_id (wr_jobs s)) \<and> (\<forall>j \<in> set (wr_jobs s). job_ok j)"
    and "\<And>j. wj_id (f j) = wj_id j" and "\<And>j. wd_getById s i = Some j \<Longrightarrow> job_ok j \<Longrightarrow> job_ok (f j)"
  shows "distinct (map wj_id (wr_jobs (wd_row i f s))) \<and> (\<forall>j \<in> set (wr_jobs (wd_row i f s)). job_ok j)"
proof -
  have "job_ok (f j)" if "j \<in> set (wr_jobs s)" "wj_id j = i" for j
    using that assms(1) row_get_distinct [of wj_id "wr_jobs s" j] by (intro assms(3)) (auto simp: wd_getById_def)
  then show ?thesis
    using assms(1) by (auto simp: wd_row_ids [OF assms(2)]) (auto simp: wd_row_def set_row_set)
qed

lemma wd_row_follows:
  assumes "\<And>j. wj_id (f j) = wj_id j" and "\<And>j. wd_getById s i = Some j \<Longrightarrow> job_follows j (f j)"
  shows "store_follows s (wd_row i f s)"
  using assms(2) by (auto simp: store_follows_def wd_getById_row [OF assms(1)])

lemma memory_ok_rows:
  assumes "memory_ok s" and "wr_updatedFrom t = wr_updatedFrom s" and "wr_inFlight t = wr_inFlight s"
    and "\<And>i. job_active s i \<Longrightarrow> job_active t i" and "\<And>i. wd_getById s i \<noteq> None \<Longrightarrow> wd_getById t i \<noteq> None"
  shows "memory_ok t"
  using assms by (auto simp: memory_ok_def replaced_of_def)

text \<open>Forgetting replaced schedules keeps the memory healthy.\<close>

lemma memory_ok_forget:
  assumes "memory_ok s" and "wr_inFlight t = wr_inFlight s" and "wr_jobs t = wr_jobs s"
    and "\<And>i. wr_updatedFrom t i = None \<or> wr_updatedFrom t i = wr_updatedFrom s i"
  shows "memory_ok t"
proof -
  have "wd_getById t i = wd_getById s i" for i by (simp add: wd_getById_def assms(3))
  moreover have "length (replaced_of t i) \<le> 9" for i
    using assms(1) assms(4) [of i] by (auto simp: memory_ok_def replaced_of_def)
  ultimately show ?thesis
    using assms(1,2,4) by (auto simp: memory_ok_def job_active_def) (metis option.distinct(1))
qed

section \<open>Every operation keeps the invariant and the order\<close>

definition moves :: "watchdog_store \<Rightarrow> watchdog_store \<Rightarrow> bool" where
  "moves s t \<longleftrightarrow> (watchdog_inv s \<longrightarrow> watchdog_inv t \<and> store_follows s t)"

lemma moves_refl [simp]: "moves s s"
  by (simp add: moves_def)

lemma moves_trans: "moves s t \<Longrightarrow> moves t u \<Longrightarrow> moves s u"
  by (auto simp: moves_def intro: store_follows_trans)

lemma moves_row:
  assumes "\<And>j. wj_id (f j) = wj_id j" and "\<And>j. wj_state (f j) = wj_state j"
    and "\<And>j. watchdog_inv s \<Longrightarrow> wd_getById s i = Some j \<Longrightarrow> job_ok j \<Longrightarrow> job_ok (f j) \<and> job_follows j (f j)"
  shows "moves s (wd_row i f s)"
  unfolding moves_def
proof (intro impI)
  assume inv: "watchdog_inv s"
  have "memory_ok (wd_row i f s)"
    by (rule memory_ok_rows [of s]) (use inv in \<open>auto simp: watchdog_inv_def job_active_def wd_getById_row assms(1,2)\<close>)
  then show "watchdog_inv (wd_row i f s) \<and> store_follows s (wd_row i f s)"
    using inv wd_row_rows [of s f i] wd_row_follows [of f s i] assms wd_getById_ok [OF inv]
    by (auto simp: watchdog_inv_def)
qed

lemma moves_forget: "moves s (forget_replaced i s)"
proof -
  have "memory_ok s \<Longrightarrow> memory_ok (forget_replaced i s)"
    by (rule memory_ok_forget) (auto simp: forget_replaced_def)
  then show ?thesis
    by (auto simp: moves_def watchdog_inv_def forget_replaced_def store_follows_def)
qed

lemmas row_facts = job_ok_def threshold_ok_def job_follows_def state_rank_def

lemma recordEvaluation_moves: "moves s (recordEvaluation i t fired snap s)"
proof (cases fired)
  case True
  then show ?thesis
    by (auto simp: recordEvaluation_def Let_def row_facts intro!: moves_row split: option.split)
next
  case False
  have "moves (forget_replaced i s) (wd_row i (\<lambda>j. j\<lparr>wj_lastEvaluation := Some t\<rparr>) (forget_replaced i s))"
    by (rule moves_row) (auto simp: row_facts)
  then show ?thesis using False moves_forget by (auto simp: recordEvaluation_def intro: moves_trans)
qed

lemma writeSchedule_moves: "moves s (writeSchedule i spec interval evaluated s)"
  unfolding writeSchedule_def by (rule moves_row) (auto simp: row_facts)

lemma updateSchedule_moves: "moves s (wd_updateSchedule i spec interval evaluated s)"
  by (auto simp: wd_updateSchedule_def Let_def intro: writeSchedule_moves moves_trans [OF moves_forget])

lemma setActionable_moves: "moves s (setActionable i new t preserve s)"
  by (auto simp: setActionable_def row_facts intro!: moves_row)

lemma recordConditionReceipt_moves: "moves s (recordConditionReceipt i receipt s)"
  unfolding recordConditionReceipt_def by (rule moves_row) (auto simp: row_facts)

lemma recordWatchedFileBinding_moves: "moves s (recordWatchedFileBinding i file gen s)"
  unfolding recordWatchedFileBinding_def by (rule moves_row) (auto simp: row_facts)

lemma recordThresholdFire_moves: "moves s (recordThresholdFire i gen t s)"
  unfolding recordThresholdFire_def by (rule moves_row) (auto simp: row_facts)

lemma deliverySchedule_moves:
  assumes "deliverySchedule i s = Inr (t, j)"
  shows "moves s t"
proof -
  obtain s1: "wd_getById s i = Some j" "t = s\<lparr>wr_inFlight := (wr_inFlight s)(i := Some (wd_schedule j))\<rparr>"
    using assms by (auto simp: deliverySchedule_def wd_getByIdOrThrow_def effect_simps split: option.splits)
  then show ?thesis
    by (auto simp: moves_def watchdog_inv_def memory_ok_def job_active_def replaced_of_def store_follows_def)
qed

lemma deliveryAccounted_moves: "moves s (deliveryAccounted i s)"
  by (auto simp: moves_def watchdog_inv_def memory_ok_def job_active_def replaced_of_def store_follows_def
      deliveryAccounted_def wd_getById_def)

text \<open>A job that stops: its row changes state, and its replaced schedules go unless a delivery needs them.\<close>

lemma release_getById [simp]: "wd_getById (releaseStoppedSchedules ids s) i = wd_getById s i"
  by (simp add: releaseStoppedSchedules_def)

lemma moves_stop:
  assumes "wr_updatedFrom t = wr_updatedFrom s" and "wr_inFlight t = wr_inFlight s"
    and "watchdog_inv s \<Longrightarrow> distinct (map wj_id (wr_jobs t)) \<and> (\<forall>j \<in> set (wr_jobs t). job_ok j)"
    and "watchdog_inv s \<Longrightarrow> store_follows s t"
    and "\<And>k. k \<notin> set ids \<Longrightarrow> wd_getById t k = wd_getById s k"
  shows "moves s (releaseStoppedSchedules ids t)"
  unfolding moves_def
proof (intro impI)
  assume inv: "watchdog_inv s"
  then have mem: "memory_ok s" by (simp add: watchdog_inv_def)
  have active: "job_active t k" if "job_active s k" "k \<notin> set ids" for k
    using that assms(5) [of k] by (simp add: job_active_def)
  have keeps: "wd_getById t k \<noteq> None" if "wd_getById s k \<noteq> None" for k
    using assms(4) [OF inv] that by (auto simp: store_follows_def)
  have "memory_ok (releaseStoppedSchedules ids t)"
    unfolding memory_ok_def
  proof (intro conjI allI impI)
    fix k
    show "length (replaced_of (releaseStoppedSchedules ids t) k) \<le> 9"
      using mem by (auto simp: memory_ok_def replaced_of_def releaseStoppedSchedules_def assms(1,2))
  next
    fix k assume "wr_updatedFrom (releaseStoppedSchedules ids t) k \<noteq> None"
    then have "\<not> (k \<in> set ids \<and> wr_inFlight s k = None)" "wr_updatedFrom s k \<noteq> None"
      by (auto simp: releaseStoppedSchedules_def assms(1,2) split: if_splits)
    then show "job_active (releaseStoppedSchedules ids t) k \<or> wr_inFlight (releaseStoppedSchedules ids t) k \<noteq> None"
      using mem active [of k] by (auto simp: memory_ok_def job_active_def releaseStoppedSchedules_def assms(2))
  next
    fix k assume "wr_inFlight (releaseStoppedSchedules ids t) k \<noteq> None"
    then have "wr_inFlight s k \<noteq> None" by (simp add: releaseStoppedSchedules_def assms(2))
    then have "wd_getById s k \<noteq> None" using mem unfolding memory_ok_def by blast
    then show "wd_getById (releaseStoppedSchedules ids t) k \<noteq> None" using keeps [of k] by simp
  qed
  then show "watchdog_inv (releaseStoppedSchedules ids t) \<and> store_follows s (releaseStoppedSchedules ids t)"
    using assms(3,4) [OF inv] by (auto simp: watchdog_inv_def store_follows_def releaseStoppedSchedules_def)
qed

lemma moves_row_stop:
  assumes "\<And>j. wj_id (f j) = wj_id j"
    and "\<And>j. wd_getById s i = Some j \<Longrightarrow> job_ok j \<Longrightarrow> job_ok (f j) \<and> job_follows j (f j)"
  shows "moves s (releaseStoppedSchedules [i] (wd_row i f s))"
proof (rule moves_stop)
  show "watchdog_inv s \<Longrightarrow> distinct (map wj_id (wr_jobs (wd_row i f s))) \<and> (\<forall>j \<in> set (wr_jobs (wd_row i f s)). job_ok j)"
    by (rule wd_row_rows) (auto simp: watchdog_inv_def assms)
  show "watchdog_inv s \<Longrightarrow> store_follows s (wd_row i f s)"
    by (rule wd_row_follows) (auto simp: assms wd_getById_ok)
  show "\<And>k. k \<notin> set [i] \<Longrightarrow> wd_getById (wd_row i f s) k = wd_getById s k"
    by (simp add: wd_getById_row assms(1))
qed simp_all

lemma markTerminal_moves: "moves s (wd_markTerminal i reason s)"
  unfolding wd_markTerminal_def by (rule moves_row_stop) (auto simp: row_facts split: watchdog_state.splits)

lemma stop_moves:
  assumes "wd_stop i reason s = Inr (t, j)"
  shows "moves s t"
proof -
  obtain x where x: "wd_getById s i = Some x" "wj_state x \<noteq> Wd_terminal"
    using assms by (auto simp: wd_stop_def wd_getByIdOrThrow_def effect_simps split: option.splits if_splits)
  have "moves s (releaseStoppedSchedules [i] (wd_row i (\<lambda>j. j\<lparr>wj_state := Wd_stopped, wj_terminalReason := Some reason\<rparr>) s))"
    by (rule moves_row_stop) (use x in \<open>auto simp: row_facts\<close>)
  then show ?thesis
    using assms x by (auto simp: wd_stop_def wd_getByIdOrThrow_def Let_def effect_simps split: option.splits if_splits)
qed

lemma drop_moves: "moves s (fst (dropArmedByRegisteringGeneration gen wakes keep s))"
proof (cases "gen = []")
  case True
  then show ?thesis by (simp add: dropArmedByRegisteringGeneration_def)
next
  case False
  define ids where "ids = map wj_id (filter (\<lambda>j. wj_state j = Wd_active \<and> wj_generation j = Some gen \<and>
    wj_id j \<notin> set keep \<and> wakes j) (wr_jobs s))"
  define hit where "hit = (\<lambda>j :: wd_job. wj_state j = Wd_active \<and> wj_id j \<in> set ids)"
  define f where "f = (\<lambda>j :: wd_job. j\<lparr>wj_state := Wd_stopped, wj_terminalReason := Some HANDOVER_REASON\<rparr>)"
  define t where "t = s\<lparr>wr_jobs := row_set hit f (wr_jobs s)\<rparr>"
  have eq: "fst (dropArmedByRegisteringGeneration gen wakes keep s) =
      (if ids = [] then s else if 0 < row_count hit (wr_jobs s) then releaseStoppedSchedules ids t else t)"
    using False by (simp add: dropArmedByRegisteringGeneration_def Let_def ids_def hit_def f_def t_def)
  have id: "wj_id (f j) = wj_id j" for j by (simp add: f_def)
  have get: "wd_getById t k = map_option (\<lambda>j. if hit j then f j else j) (wd_getById s k)" for k
    by (simp add: wd_getById_def t_def row_get_set id)
  have "moves s (releaseStoppedSchedules ids t)"
  proof (rule moves_stop)
    show "watchdog_inv s \<Longrightarrow> distinct (map wj_id (wr_jobs t)) \<and> (\<forall>j \<in> set (wr_jobs t). job_ok j)"
      by (auto simp: watchdog_inv_def t_def row_set_keys id set_row_set) (auto simp: job_ok_def threshold_ok_def f_def hit_def)
    show "watchdog_inv s \<Longrightarrow> store_follows s t"
      by (auto simp: store_follows_def get) (auto simp: job_follows_def state_rank_def f_def hit_def)
    show "\<And>k. k \<notin> set ids \<Longrightarrow> wd_getById t k = wd_getById s k"
      by (auto simp: get hit_def map_option_case split: option.split dest: wd_getById_set)
  qed (simp_all add: t_def)
  moreover have "0 < row_count hit (wr_jobs s)" if "ids \<noteq> []"
  proof -
    from that obtain j where "j \<in> set (wr_jobs s)" "wj_state j = Wd_active" "wj_id j \<in> set ids"
      by (auto simp: ids_def filter_empty_conv)
    then have "\<not> (\<forall>r \<in> set (wr_jobs s). \<not> hit r)" by (auto simp: hit_def)
    then show ?thesis by (metis row_count_0 gr0I)
  qed
  ultimately show ?thesis by (simp add: eq)
qed

lemma length_keep_replaced: "length (keep_replaced started xs) \<le> 9"
  by (auto simp: keep_replaced_def last_eight_def Let_def split: option.split)

lemma updateInPlace_moves:
  assumes "updateInPlace i spec interval evaluated s = Inr t" and "job_active s i"
  shows "moves s t"
proof -
  define u where "u = writeSchedule i spec interval evaluated s"
  from assms(1) obtain kept where t: "t = u\<lparr>wr_updatedFrom := (wr_updatedFrom u)(i := Some kept)\<rparr>"
    and len: "length kept \<le> 9"
    by (auto simp: updateInPlace_def Let_def u_def effect_simps length_keep_replaced)
  have "moves s u" unfolding u_def by (rule writeSchedule_moves)
  moreover have "moves u t"
    unfolding moves_def
  proof (intro impI conjI)
    assume inv: "watchdog_inv u"
    have "job_active u i"
      using assms(2) by (auto simp: u_def writeSchedule_def job_active_def wd_getById_row)
    then show "watchdog_inv t"
      using inv len by (auto simp: t watchdog_inv_def memory_ok_def job_active_def replaced_of_def)
    show "store_follows u t" by (simp add: t store_follows_def)
  qed
  ultimately show ?thesis by (rule moves_trans)
qed

lemma updateWatchdogJob_Inr:
  assumes "updateWatchdogJob lib now i inp s = Inr (t, r)"
  obtains j where "wd_getById s i = Some j" and "\<forall>(c, e) \<in> set (job_update_guards j inp). \<not> c"
    and "t = s \<or> (\<exists>spec interval. updateInPlace i spec interval (wj_lastEvaluation j) s = Inr t)"
proof -
  from assms obtain j where j: "wd_getById s i = Some j" "\<forall>(c, e) \<in> set (job_update_guards j inp). \<not> c"
    by (auto simp: updateWatchdogJob_def wd_getByIdOrThrow_def effect_simps split: option.splits)
  moreover from assms j have "t = s \<or> (\<exists>spec interval. updateInPlace i spec interval (wj_lastEvaluation j) s = Inr t)"
    by (auto simp: updateWatchdogJob_def wd_getByIdOrThrow_def effect_simps Let_def split: option.splits if_splits)
  ultimately show thesis by (rule that)
qed

lemma updateWatchdogJob_moves:
  assumes "updateWatchdogJob lib now i inp s = Inr (t, r)"
  shows "moves s t"
proof -
  from assms obtain j where j: "wd_getById s i = Some j" "\<forall>(c, e) \<in> set (job_update_guards j inp). \<not> c"
    "t = s \<or> (\<exists>spec interval. updateInPlace i spec interval (wj_lastEvaluation j) s = Inr t)"
    by (rule updateWatchdogJob_Inr)
  then have "watchdog_inv s \<Longrightarrow> job_active s i"
    using wd_getById_ok [of s i j] by (auto simp: job_update_guards_def job_active_def job_ok_def)
  then show ?thesis
    using j(3) updateInPlace_moves moves_refl unfolding moves_def by metis
qed

text \<open>Registering: the guards make the new row healthy.\<close>

lemma single_given:
  "length (filter (\<lambda>x. x \<noteq> None) [a, b, c]) = 1 \<longleftrightarrow>
     (a \<noteq> None \<and> b = None \<and> c = None) \<or> (a = None \<and> b \<noteq> None \<and> c = None) \<or> (a = None \<and> b = None \<and> c \<noteq> None)"
  by auto

lemma new_job_ok:
  assumes "register_guards inp s = Inr ()"
  shows "job_ok (new_job occ now i inp)"
proof -
  have "ri_policy inp \<in> set WATCHDOG_POLICIES"
    using assms by (auto simp: register_guards_def Let_def effect_simps split: if_splits)
  moreover have "threshold_ok (new_job occ now i inp)"
  proof (cases "ri_policy inp = ''context-usage-threshold''")
    case True
    then have "validateThresholdUnits inp = Inr ()"
      using assms by (auto simp: register_guards_def Let_def effect_simps split: if_splits)
    then have v: "length (filter (\<lambda>x. x \<noteq> None) [ri_thresholdBytes inp, ri_thresholdTokens inp, ri_thresholdPercent inp]) = 1"
      "ri_thresholdBytes inp \<noteq> None \<longrightarrow> positive_integer (ri_thresholdBytes inp)"
      "ri_thresholdTokens inp \<noteq> None \<longrightarrow> positive_integer (ri_thresholdTokens inp)"
      "ri_thresholdPercent inp \<noteq> None \<longrightarrow> (\<exists>q. js_finite (ri_thresholdPercent inp) = Some q \<and> 0 < q \<and> q \<le> 100)"
      unfolding validateThresholdUnits_def Let_def unless_refused_Inr by (auto split: option.splits)
    show ?thesis
      using v(1) unfolding single_given
      using v(2-4) True
      by (auto simp: threshold_ok_def new_job_def Let_def integer_of_def positive_integer_def js_finite_def split: option.splits)
  next
    case False
    then show ?thesis by (simp add: threshold_ok_def new_job_def)
  qed
  ultimately show ?thesis by (simp add: job_ok_def new_job_def Let_def)
qed

lemma register_moves:
  assumes "wd_register occ now fresh inp s = Inr (t, j)"
  shows "moves s t"
proof -
  have g: "register_guards inp s = Inr ()" and fresh: "fresh \<notin> wj_id ` set (wr_jobs s)"
    and t: "t = s\<lparr>wr_jobs := wr_jobs s @ [new_job occ now fresh inp]\<rparr>"
    using assms by (auto simp: wd_register_def effect_simps row_insert_Some new_job_def Let_def split: option.splits)
  have get: "wd_getById t k = (case wd_getById s k of None \<Rightarrow> row_get wj_id k [new_job occ now fresh inp] | Some j \<Rightarrow> Some j)" for k
    by (simp add: wd_getById_def t row_get_append)
  show ?thesis
    unfolding moves_def
  proof (intro impI conjI)
    assume inv: "watchdog_inv s"
    have "memory_ok t"
      by (rule memory_ok_rows [of s]) (use inv in \<open>auto simp: watchdog_inv_def t job_active_def get [unfolded t] split: option.split\<close>)
    moreover have "wj_id (new_job occ now fresh inp) = fresh" by (simp add: new_job_def Let_def)
    ultimately show "watchdog_inv t"
      using inv fresh new_job_ok [OF g] by (auto simp: watchdog_inv_def t)
    show "store_follows s t" by (auto simp: store_follows_def get)
  qed
qed

lemma findAutoRegistration_Some:
  assumes "findAutoRegistration s policy aliases gen = Inr (Some j)"
  shows "j \<in> set (wr_jobs s)" "wj_state j \<noteq> Wd_terminal" "wj_policy j = policy" "wj_targetGeneration j = gen"
proof -
  from assms have "j \<in> set (filter (\<lambda>j. wj_state j = Wd_active \<or> wj_state j = Wd_stopped) (listAliasTuples s policy aliases gen))"
    by (auto simp: findAutoRegistration_def Let_def split: if_splits dest: at_Some)
  then show "j \<in> set (wr_jobs s)" "wj_state j \<noteq> Wd_terminal" "wj_policy j = policy" "wj_targetGeneration j = gen"
    by (auto simp: listAliasTuples_def)
qed

lemma ensure_moves:
  assumes "ensureAutoRegistration occ now fresh inp aliases s = Inr (t, j)"
  shows "moves s t"
proof -
  from assms obtain found where found: "findAutoRegistration s (ri_policy inp) aliases (ri_targetGeneration inp) = Inr found"
    by (auto simp: ensureAutoRegistration_def effect_simps)
  show ?thesis
  proof (cases found)
    case None
    then show ?thesis using assms found register_moves by (auto simp: ensureAutoRegistration_def effect_simps)
  next
    case (Some x)
    define f where "f = (\<lambda>j :: wd_job. j\<lparr>wj_spec := ri_spec inp, wj_target := ri_target inp,
      wj_interval := or_default (js_integer (ri_interval inp)) 0,
      wj_activeWake := js_finite (ri_activeWake inp), wj_scan := js_finite (ri_scan inp)\<rparr>)"
    have t: "t = wd_row (wj_id x) f s"
      using assms found Some by (auto simp: ensureAutoRegistration_def effect_simps Let_def f_def)
    note x = findAutoRegistration_Some [OF found [unfolded Some]]
    show ?thesis
      unfolding t
    proof (rule moves_row)
      fix j assume inv: "watchdog_inv s" and j: "wd_getById s (wj_id x) = Some j" "job_ok j"
      have "wd_getById s (wj_id x) = Some x"
        using inv x(1) by (simp add: watchdog_inv_def wd_getById_def row_get_distinct)
      then show "job_ok (f j) \<and> job_follows j (f j)"
        using j x(2) by (auto simp: f_def row_facts split: option.splits if_splits)
    qed (simp_all add: f_def)
  qed
qed

lemma watchdog_step_moves: "watchdog_step occ lib op s = Inr t \<Longrightarrow> moves s t"
  by (cases op)
    (auto simp: map_sum_fst_Inr intro: register_moves ensure_moves updateWatchdogJob_moves updateSchedule_moves
      recordEvaluation_moves deliverySchedule_moves deliveryAccounted_moves setActionable_moves
      recordConditionReceipt_moves recordWatchedFileBinding_moves recordThresholdFire_moves markTerminal_moves
      stop_moves drop_moves)

lemma watchdog_inv_empty: "watchdog_inv empty_watchdog"
  by (simp add: watchdog_inv_def memory_ok_def empty_watchdog_def replaced_of_def wd_getById_def row_get_Nil)

interpretation watchdog: guarded_machine "watchdog_step occ lib" watchdog_inv for occ lib
  by unfold_locales (use watchdog_step_moves in \<open>auto simp: moves_def\<close>)

lemma watchdog_run_follows:
  assumes "watchdog_inv s"
  shows "store_follows s (run_steps (watchdog_step occ lib) ops s)"
proof (rule watchdog.run_stable [of s "store_follows s"])
  fix op u t
  assume "watchdog_inv u" "store_follows s u" "watchdog_step occ lib op u = Inr t"
  then show "store_follows s t"
    using watchdog_step_moves [of occ lib op u t] by (auto simp: moves_def intro: store_follows_trans)
qed (use assms in simp_all)

section \<open>A delivery in flight\<close>

text \<open>The calls that give job \<open>i\<close> a new schedule or settle its delivery; an automatic registration may rewrite
  any daemon-owned row.\<close>

fun reschedules :: "string \<Rightarrow> watchdog_op \<Rightarrow> bool" where
  "reschedules i (Do_updateSchedule k spec interval evaluated) = (k = i)"
| "reschedules i (Do_recordEvaluation k t fired snap) = (k = i \<and> \<not> fired)"
| "reschedules i (Do_deliverySchedule k) = (k = i)"
| "reschedules i (Do_deliveryAccounted k) = (k = i)"
| "reschedules i (Do_ensure now fresh inp aliases) = True"
| "reschedules i op = False"

definition recognised :: "watchdog_store \<Rightarrow> string \<Rightarrow> schedule \<Rightarrow> bool" where
  "recognised s i sched \<longleftrightarrow>
     wr_inFlight s i = Some sched \<and> (\<exists>j. wd_getById s i = Some j \<and> scheduleUnchanged s j sched)"

lemma scheduleUnchanged_iff:
  "wd_getById s i = Some j \<Longrightarrow>
     scheduleUnchanged s j x \<longleftrightarrow> wd_schedule j = x \<or> x \<in> set (replaced_of s i)"
  using wd_getById_set [of s i j] by (auto simp: scheduleUnchanged_def list_ex_iff)

lemma recognised_frame:
  assumes "recognised s i sched" and "wr_inFlight t i = wr_inFlight s i" and "wr_updatedFrom t i = wr_updatedFrom s i"
    and "map_option wd_schedule (wd_getById t i) = map_option wd_schedule (wd_getById s i)"
  shows "recognised t i sched"
  using assms by (auto simp: recognised_def scheduleUnchanged_iff replaced_of_def)

lemma recognised_row:
  assumes "recognised s i sched" and "\<And>j. wj_id (f j) = wj_id j" and "k = i \<Longrightarrow> (\<And>j. wd_schedule (f j) = wd_schedule j)"
  shows "recognised (wd_row k f s) i sched"
  by (rule recognised_frame [OF assms(1)])
    (use assms(3) in \<open>auto simp: wd_getById_row assms(2) option.map_comp comp_def\<close>)

lemma recognised_release:
  assumes "recognised s i sched"
  shows "recognised (releaseStoppedSchedules ids s) i sched"
  by (rule recognised_frame [OF assms]) (use assms in \<open>auto simp: recognised_def releaseStoppedSchedules_def wd_getById_def\<close>)

lemma keep_replaced_started: "x \<in> set xs \<Longrightarrow> x \<in> set (keep_replaced (Some x) xs)"
  by (simp add: keep_replaced_def Let_def)

lemma updateInPlace_recognised:
  assumes "recognised s i sched" and "updateInPlace k spec interval evaluated s = Inr t"
  shows "recognised t i sched"
proof -
  define u where "u = writeSchedule k spec interval evaluated s"
  obtain before where b: "wd_getById s k = Some before"
    and t: "t = u\<lparr>wr_updatedFrom := (wr_updatedFrom u)(k := Some (keep_replaced (wr_inFlight u k) (replaced_of u k @ [wd_schedule before])))\<rparr>"
    using assms(2) by (auto simp: updateInPlace_def wd_getByIdOrThrow_def Let_def u_def split: option.splits)
  show ?thesis
  proof (cases "k = i")
    case True
    have x: "wr_inFlight s i = Some sched" "sched \<in> set (replaced_of s i @ [wd_schedule before])"
      using assms(1) b True by (auto simp: recognised_def scheduleUnchanged_iff)
    have "wd_getById t i \<noteq> None" using b True by (simp add: t u_def writeSchedule_def wd_getById_row)
    moreover have "wr_inFlight t i = Some sched" using x(1) by (simp add: t u_def writeSchedule_def)
    moreover have "sched \<in> set (replaced_of t i)"
      using keep_replaced_started [OF x(2)] True x(1) by (simp add: t u_def writeSchedule_def replaced_of_def)
    ultimately show ?thesis by (auto simp: recognised_def scheduleUnchanged_iff)
  next
    case False
    show ?thesis
      by (rule recognised_frame [OF assms(1)]) (use False in \<open>simp_all add: t u_def writeSchedule_def wd_getById_row\<close>)
  qed
qed

lemma updateWatchdogJob_recognised:
  assumes "recognised s i sched" and "updateWatchdogJob lib now k inp s = Inr (t, r)"
  shows "recognised t i sched"
  by (rule updateWatchdogJob_Inr [OF assms(2)]) (use assms(1) updateInPlace_recognised in blast)

lemma register_recognised:
  assumes "recognised s i sched" and "wd_register occ now fresh inp s = Inr (t, j)"
  shows "recognised t i sched"
proof (rule recognised_frame [OF assms(1)])
  show "map_option wd_schedule (wd_getById t i) = map_option wd_schedule (wd_getById s i)"
    using assms by (auto simp: wd_register_def effect_simps row_insert_Some recognised_def wd_getById_def row_get_append
        split: option.splits)
qed (use assms(2) in \<open>auto simp: wd_register_def effect_simps row_insert_Some split: option.splits\<close>)

lemma drop_recognised:
  assumes "recognised s i sched"
  shows "recognised (fst (dropArmedByRegisteringGeneration gen wakes keep s)) i sched"
proof -
  have "recognised (s\<lparr>wr_jobs := row_set p (\<lambda>j. j\<lparr>wj_state := x, wj_terminalReason := y\<rparr>) (wr_jobs s)\<rparr>) i sched" for p x y
    by (rule recognised_frame [OF assms])
      (auto simp: wd_getById_def row_get_set option.map_comp comp_def wd_schedule_def intro!: option.map_cong)
  then show ?thesis
    using assms by (auto simp: dropArmedByRegisteringGeneration_def Let_def intro: recognised_release)
qed

lemma watchdog_step_recognised:
  assumes "recognised s i sched" and "\<not> reschedules i op" and "watchdog_step occ lib op s = Inr t"
  shows "recognised t i sched"
proof (cases op)
  case (Do_recordEvaluation k now fired snap)
  show ?thesis
  proof (cases fired)
    case True
    then show ?thesis using assms(1,3) Do_recordEvaluation
      by (auto simp: recordEvaluation_def Let_def wd_schedule_def intro!: recognised_row split: option.splits)
  next
    case False
    then show ?thesis using assms Do_recordEvaluation
      by (auto simp: recordEvaluation_def forget_replaced_def wd_getById_row intro!: recognised_frame [OF assms(1)])
  qed
next
  case (Do_stop k reason)
  then obtain j where "wd_stop k reason s = Inr (t, j)" using assms(3) by auto
  then have "t = s \<or> t = releaseStoppedSchedules [k] (wd_row k (\<lambda>j. j\<lparr>wj_state := Wd_stopped, wj_terminalReason := Some reason\<rparr>) s)"
    by (auto simp: wd_stop_def effect_simps Let_def split: if_splits)
  then show ?thesis
    using assms(1) by (auto intro!: recognised_release recognised_row simp: wd_schedule_def)
next
  case (Do_updateSchedule k spec interval evaluated)
  then show ?thesis using assms
    by (auto simp: wd_updateSchedule_def writeSchedule_def forget_replaced_def Let_def wd_getById_row
        intro!: recognised_frame [OF assms(1)])
next
  case (Do_deliverySchedule k)
  then show ?thesis using assms
    by (auto simp: deliverySchedule_def effect_simps intro!: recognised_frame [OF assms(1)])
next
  case (Do_deliveryAccounted k)
  then show ?thesis using assms
    by (auto simp: deliveryAccounted_def wd_getById_def intro!: recognised_frame [OF assms(1)])
qed (use assms in \<open>auto simp: map_sum_fst_Inr wd_schedule_def setActionable_def recordConditionReceipt_def
      recordWatchedFileBinding_def recordThresholdFire_def wd_markTerminal_def
    intro: register_recognised updateWatchdogJob_recognised intro!: recognised_row recognised_release drop_recognised\<close>)

lemma run_recognised:
  assumes "recognised s i sched" and "\<forall>op \<in> set ops. \<not> reschedules i op"
  shows "recognised (run_steps (watchdog_step occ lib) ops s) i sched"
  using assms
proof (induction ops arbitrary: s)
  case Nil
  then show ?case by (simp add: run_steps_simps)
next
  case (Cons op ops)
  have "recognised (attempt_step (watchdog_step occ lib) op s) i sched"
    using Cons.prems watchdog_step_recognised [of s i sched op occ lib]
    by (auto simp: attempt_step_def split: sum.split)
  then show ?case using Cons by (simp add: run_steps_simps)
qed

lemma deliverySchedule_recognised:
  "deliverySchedule i s = Inr (u, snap) \<Longrightarrow> recognised u i (wd_schedule snap)"
  by (auto simp: deliverySchedule_def wd_getByIdOrThrow_def recognised_def scheduleUnchanged_def effect_simps
      split: option.splits)

section \<open>Properties of the table\<close>

text \<open>A watchdog job never comes back: whatever operations run, in whatever order, a job that was stopped
  or terminal is never active again, a terminal one stays terminal with its schedule and target as they were, and
  no job is ever deleted or changes its policy, registrant, thresholds or bound generation.\<close>

theorem watchdog_one_way:
  assumes "watchdog_inv s" and "wd_getById s i = Some j"
  shows "\<exists>k. wd_getById (run_steps (watchdog_step occ lib) ops s) i = Some k \<and> job_follows j k \<and>
    (wj_state j \<noteq> Wd_active \<longrightarrow> wj_state k \<noteq> Wd_active) \<and> (wj_state j = Wd_terminal \<longrightarrow> wj_state k = Wd_terminal)"
proof -
  let ?t = "run_steps (watchdog_step occ lib) ops s"
  obtain k where k: "wd_getById ?t i = Some k" "job_follows j k"
    using watchdog_run_follows [OF assms(1), of occ lib ops] assms(2) by (auto simp: store_follows_def)
  have "watchdog_inv ?t" using assms(1) by (rule watchdog.run_keeps)
  then have "job_ok k" using k(1) by (rule wd_getById_ok)
  then have known: "wj_state k \<in> {Wd_active, Wd_stopped, Wd_terminal}" by (simp only: job_ok_def)
  have "job_ok j" using assms by (rule wd_getById_ok)
  then have "wj_state j \<in> {Wd_active, Wd_stopped, Wd_terminal}" by (simp only: job_ok_def)
  moreover have "state_rank (wj_state j) \<le> state_rank (wj_state k)" using k(2) by (simp only: job_follows_def)
  ultimately have "wj_state j \<noteq> Wd_active \<longrightarrow> wj_state k \<noteq> Wd_active" "wj_state j = Wd_terminal \<longrightarrow> wj_state k = Wd_terminal"
    using known by (auto simp: state_rank_def)
  with k show ?thesis by blast
qed

text \<open>C28: Whatever operations run on an empty table, job ids stay unique, every job is healthy (a known state and
  policy, a reason exactly when it no longer runs, exactly one positive threshold on a context watch and none on any
  other), and the in-memory maps stay bounded: at most nine replaced schedules per job, and none for a job that
  neither runs nor has a delivery in flight.\<close>

theorem watchdog_healthy: "watchdog_inv (run_steps (watchdog_step occ lib) ops empty_watchdog)"
  by (rule watchdog.run_keeps) (rule watchdog_inv_empty)


text \<open>A real reschedule while a delivery is in flight wins: when the active job is given a schedule other
  than its own and than the one the delivery started under, recording that delivery's fire stamps the fire and
  leaves the new schedule, its due boundary included, exactly as it was written.\<close>

theorem watchdog_reschedule_wins:
  assumes "wd_getById s i = Some j" and "wj_state j = Wd_active"
    and "(spec, interval, evaluated) \<noteq> (wj_spec j, wj_interval j, wj_lastEvaluation j)"
    and "(spec, interval, evaluated) \<noteq> (wj_spec snap, wj_interval snap, wj_lastEvaluation snap)"
  shows "wd_getById (recordEvaluation i t True (Some snap) (wd_updateSchedule i spec interval evaluated s)) i =
    Some (j\<lparr>wj_spec := spec, wj_interval := interval, wj_lastEvaluation := evaluated, wj_lastFire := Some t\<rparr>)"
proof -
  let ?s = "wd_updateSchedule i spec interval evaluated s"
  let ?k = "j\<lparr>wj_spec := spec, wj_interval := interval, wj_lastEvaluation := evaluated\<rparr>"
  have get: "wd_getById ?s i = Some ?k"
    using assms(1,2) by (simp add: wd_updateSchedule_def writeSchedule_def Let_def wd_getById_row forget_replaced_def)
  have "replaced_of ?s i = []"
    using assms(1,3) by (auto simp: wd_updateSchedule_def writeSchedule_def replaced_of_def forget_replaced_def Let_def)
  then have "\<not> (wj_lastEvaluation ?k = wj_lastEvaluation snap \<and> scheduleUnchanged ?s ?k (wd_schedule snap))"
    using assms(4) get by (auto simp: scheduleUnchanged_iff wd_schedule_def)
  then show ?thesis
    by (auto simp: recordEvaluation_def Let_def get wd_getById_row)
qed

end
