(* ===== verification/Watchdog_Engine.thy ===== *)
theory Watchdog_Engine
  imports Watchdog_Machine
begin

text \<open>
  One evaluation of a watchdog job (\<open>packages/daemon/src/domain/watchdog-policy-engine.ts\<close>) and its
  record (\<open>watchdog-history-log.ts\<close>). \<open>evaluate\<close> awaits twice, its policy and its delivery, and any
  other operation on the job table may run there; so it is three steps, \<open>evaluate_begin\<close>,
  \<open>evaluate_decide\<close> and \<open>evaluate_finish\<close>, and \<open>evaluate\<close> composes them with the operations that
  ran in between. A step that throws keeps what it wrote before.

  The constructor's dependencies are the fields of \<open>engine_deps\<close>: the policies startup adds, the seat
  registry, the queue's hooks, the transport. A hook that writes to the job table gives the operations
  it performs. Wake texts are kept as their parts.
\<close>

section \<open>Policies\<close>

record usage_sample =
  us_tokens :: "rat option"
  us_percent :: "rat option"
  us_window :: "rat option"
  us_sampledAt :: "timestamp option"
  us_fresh :: bool

record policy_job =
  pj_id :: string
  pj_policy :: string
  pj_target :: string
  pj_message :: "string option"
  pj_interval :: int
  pj_activeWake :: "rat option"
  pj_scan :: "rat option"
  pj_context :: "(string \<times> yaml) list"
  pj_lastEvaluation :: "timestamp option"
  pj_lastFire :: "timestamp option"
  pj_registeredBy :: string
  pj_registeredAt :: timestamp
  pj_watchedFile :: "string option"
  pj_thresholdBytes :: "int option"
  pj_thresholdTokens :: "int option"
  pj_thresholdPercent :: "rat option"
  pj_sample :: "usage_sample option"
  pj_requires :: "string option"
  pj_firedGeneration :: "string option"
  pj_firedCondition :: "string option"
  pj_occupant :: "string option"
  pj_transcriptPending :: bool
  pj_receiptSatisfied :: bool
  pj_receiptDeferred :: bool

type_synonym wake_notes = "(string \<times> yaml) list"

datatype policy_evaluation =
    Pe_send (pe_target: string) (pe_message: string) (pe_notes: "wake_notes option")
      (pe_receipt: "string option") (pe_notice: bool)
  | Pe_skip (pe_reason: string) (pe_notes: "wake_notes option")
  | Pe_terminal (pe_reason: string) (pe_notes: "wake_notes option")

type_synonym policy = "policy_job \<Rightarrow> watchdog_error + policy_evaluation"

text \<open>The one built-in policy whose evaluation is only its specification.\<close>

definition periodicReminderPolicy :: policy where
  "periodicReminderPolicy job =
     unless_refused
       [(pj_target job = [], Policy_threw ''policy_spec_invalid''),
        (periodicReminderSpecProblem \<lparr>ps_target = None, ps_message = pj_message job, ps_context = pj_context job\<rparr>,
         Policy_threw ''policy_spec_invalid'')]
       (Inr (Pe_send (pj_target job)
          (the (reminderMessage \<lparr>ps_target = None, ps_message = pj_message job, ps_context = pj_context job\<rparr>))
          None None False))"

definition QUIET_SKIP_REASONS :: "string list" where
  "QUIET_SKIP_REASONS =
    [''not_due'', ''quiet_hours_still_on'', ''mode_end_not_yet'', ''queue_wait_already_presented'',
     ''queue_wait_owner_working'', ''workflow_healthy_deadline_gated'', ''workflow_recovery_owns_notice'',
     ''workflow_deadline_already_presented'', ''no_actionable_artifacts'', ''no_missing_edge_artifacts'',
     ''active_wake_not_due'', ''context_usage_below_threshold'', ''threshold_receipt_stable'',
     ''context_sample_unreadable_notified'', ''no_pending_gate'', ''seat_active'', ''gate_condition_unchanged'',
     ''no-parked-owner'', ''seat_needs_input'', ''activity_stale_unknown'']"

section \<open>Deliveries and the record\<close>

datatype wake_text =
    Wake_plain string
  | Wake_preview string string string
  | Wake_line string "string option" "string option"
  | Wake_digest "(string \<times> string option \<times> string option) list"

record continuity_action =
  ca_job :: string
  ca_occupant :: string
  ca_source :: string
  ca_destination :: string
  ca_body :: string

record delivery_source =
  dv_occurrence :: string
  dv_job :: string
  dv_policy :: string
  dv_members :: "(string \<times> string) list option"

record delivery_request =
  dr_target :: string
  dr_message :: wake_text
  dr_continuity :: "continuity_action option"

datatype delivery_status = Dl_ok | Dl_failed | Dl_retained

record delivery_outcome =
  dl_status :: delivery_status
  dl_code :: "string option"
  dl_outboxIds :: "string list"
  dl_inputPhase :: "string option"
  dl_error :: "string option"
  dl_continuityCompleted :: bool
  dl_sentMessage :: "string option"
  dl_tracked :: bool
  dl_complete :: bool
  dl_deferred :: bool
  dl_reconciled :: bool
  dl_retryAt :: "string option"
  dl_nextAction :: "string option"
  dl_terminalReason :: "string option"

datatype history_outcome = Sent | Refused | Failed_delivery | Skipped | Terminal_outcome

record history_entry =
  he_job :: string
  he_evaluatedAt :: timestamp
  he_outcome :: history_outcome
  he_skipReason :: "string option"
  he_target :: "string option"
  he_status :: "delivery_status option"
  he_message :: "wake_text option"
  he_notes :: "wake_notes option"

datatype watchdog_event =
    Evaluation_skipped string string string
  | Evaluation_terminal string string string
  | Evaluation_fired string string string delivery_status

record engine =
  en_store :: watchdog_store
  en_history :: "history_entry list"
  en_events :: "watchdog_event list"
  en_sent :: "(delivery_request \<times> delivery_source) list"

definition record_history :: "history_entry \<Rightarrow> engine \<Rightarrow> engine" where
  "record_history h e = e\<lparr>en_history := en_history e @ [h]\<rparr>"

definition emit_event :: "watchdog_event \<Rightarrow> engine \<Rightarrow> engine" where
  "emit_event v e = e\<lparr>en_events := en_events e @ [v]\<rparr>"

definition on_store :: "(watchdog_store \<Rightarrow> watchdog_store) \<Rightarrow> engine \<Rightarrow> engine" where
  "on_store f e = e\<lparr>en_store := f (en_store e)\<rparr>"

definition history_row ::
  "string \<Rightarrow> timestamp \<Rightarrow> history_outcome \<Rightarrow> string option \<Rightarrow> wake_notes option \<Rightarrow> history_entry" where
  "history_row i t out reason notes =
     \<lparr>he_job = i, he_evaluatedAt = t, he_outcome = out, he_skipReason = reason, he_target = None,
      he_status = None, he_message = None, he_notes = notes\<rparr>"

text \<open>\<open>listForJob\<close>: newest first; ids grow along the table.\<close>

definition listForJob :: "string \<Rightarrow> int \<Rightarrow> history_entry list \<Rightarrow> history_entry list" where
  "listForJob i limit hs =
     sql_limit limit (rev (sort_key he_evaluatedAt (filter (\<lambda>h. he_job h = i) hs)))"

definition countForJob :: "string \<Rightarrow> history_entry list \<Rightarrow> nat" where
  "countForJob i hs = length (filter (\<lambda>h. he_job h = i) hs)"

section \<open>Dependencies\<close>

record digest_entry =
  dg_qitem :: string
  dg_summary :: "string option"
  dg_continuation :: "string option"

record wake_attempt =
  wa_job :: string
  wa_status :: delivery_status
  wa_retryAt :: "string option"

record engine_deps =
  dp_occupant :: "string \<Rightarrow> string option"
  dp_yaml :: yaml_library
  dp_policies :: "string \<Rightarrow> policy option"
  dp_resolveTargetGeneration :: "(string \<Rightarrow> string option) option"
  dp_resolveContextUsage :: "string \<Rightarrow> string option \<Rightarrow> usage_sample option"
  dp_findTranscript :: "string \<Rightarrow> string \<Rightarrow> string option"
  dp_preDeliveryTerminal :: "string \<Rightarrow> string option"
  dp_queueWait :: "string \<Rightarrow> watchdog_store \<Rightarrow> watchdog_op list \<times> policy_evaluation option"
  dp_onWakeAttempt :: "wake_attempt \<Rightarrow> watchdog_op list"
  dp_digestEntry :: "string \<Rightarrow> string \<Rightarrow> digest_entry option"
  dp_reconcile :: "delivery_source \<Rightarrow> delivery_outcome option"
  dp_hash :: "string option list \<Rightarrow> string"

definition run_ops :: "engine_deps \<Rightarrow> watchdog_op list \<Rightarrow> engine \<Rightarrow> engine" where
  "run_ops d ops = on_store (run_steps (watchdog_step (dp_occupant d) (dp_yaml d)) ops)"

text \<open>\<open>resolvePolicy\<close>: a policy startup adds replaces a built-in one of its name.\<close>

definition resolvePolicy :: "engine_deps \<Rightarrow> string \<Rightarrow> policy option" where
  "resolvePolicy d name = (case dp_policies d name of
     Some p \<Rightarrow> Some p
   | None \<Rightarrow> if name = ''periodic-reminder'' then Some periodicReminderPolicy else None)"

section \<open>Results\<close>

record evaluation_result =
  re_job :: wd_job
  re_outcome :: policy_evaluation
  re_history :: "history_entry option"
  re_delivery :: "delivery_outcome option"
  re_meaningful :: bool

type_synonym 'a act = "engine \<times> (watchdog_error + 'a)"

definition after :: "'a act \<Rightarrow> ('a \<Rightarrow> engine \<Rightarrow> 'b act) \<Rightarrow> 'b act" where
  "after m f = (case m of (e, Inl x) \<Rightarrow> (e, Inl x) | (e, Inr v) \<Rightarrow> f v e)"

lemma after_simps [simp]: "after (e, Inl x) f = (e, Inl x)" "after (e, Inr v) f = f v e"
  by (simp_all add: after_def)

definition conclude ::
  "string \<Rightarrow> policy_evaluation \<Rightarrow> history_entry option \<Rightarrow> delivery_outcome option \<Rightarrow> bool \<Rightarrow> engine
    \<Rightarrow> evaluation_result act" where
  "conclude i out hist dl meaningful e =
     (e, try_bind (wd_getByIdOrThrow (en_store e) i) (\<lambda>j.
        Inr \<lparr>re_job = j, re_outcome = out, re_history = hist, re_delivery = dl, re_meaningful = meaningful\<rparr>))"

definition inactiveJobResult :: "string \<Rightarrow> engine \<Rightarrow> watchdog_error + evaluation_result option" where
  "inactiveJobResult i e =
     try_bind (wd_getByIdOrThrow (en_store e) i) (\<lambda>j.
       Inr (if wj_state j = Wd_active then None
            else Some \<lparr>re_job = j, re_outcome = Pe_skip ''job_not_active'' None, re_history = None,
                       re_delivery = None, re_meaningful = False\<rparr>))"

text \<open>A job its policy, or its owning domain, declares finished.\<close>

definition end_job :: "wd_job \<Rightarrow> timestamp \<Rightarrow> string \<Rightarrow> wake_notes option \<Rightarrow> engine \<Rightarrow> evaluation_result act" where
  "end_job job t reason notes e =
     (let h = history_row (wj_id job) t Terminal_outcome (Some reason) notes
      in conclude (wj_id job) (Pe_terminal reason notes) (Some h) None True
          (emit_event (Evaluation_terminal (wj_id job) (wj_policy job) reason)
            (record_history h (on_store (wd_markTerminal (wj_id job) reason) e))))"

definition skip_job :: "wd_job \<Rightarrow> timestamp \<Rightarrow> policy_evaluation \<Rightarrow> wake_notes option \<Rightarrow> engine \<Rightarrow> evaluation_result act" where
  "skip_job job t out notes e =
     (let h = history_row (wj_id job) t Skipped (Some (pe_reason out)) notes;
          e' = on_store (setActionable (wj_id job) False t None \<circ> recordEvaluation (wj_id job) t False None) e
      in conclude (wj_id job) out (Some h) None True
          (emit_event (Evaluation_skipped (wj_id job) (wj_policy job) (pe_reason out)) (record_history h e')))"

definition quiet_skip_job :: "wd_job \<Rightarrow> timestamp \<Rightarrow> policy_evaluation \<Rightarrow> engine \<Rightarrow> evaluation_result act" where
  "quiet_skip_job job t out e =
     conclude (wj_id job) out None None False
       (on_store (setActionable (wj_id job) False t None \<circ> recordEvaluation (wj_id job) t False None) e)"

section \<open>Up to the policy\<close>

datatype 'a step_result = Finished evaluation_result | Goes_on 'a

record asked =
  as_policy :: policy
  as_job :: policy_job
  as_spec :: parsed_spec
  as_occupant :: "string option"

text \<open>The receipt a chained context watch waits for: the required job's fire for this occupant, before the
  evaluation (or its scheduler pass) began.\<close>

definition required_receipt ::
  "watchdog_store \<Rightarrow> wd_job \<Rightarrow> string option \<Rightarrow> timestamp \<Rightarrow> timestamp option \<Rightarrow> bool \<times> bool" where
  "required_receipt s job occupant t passStart =
     (let needed = truthy (wj_requires job);
          other = (if needed then wd_getById s (the (wj_requires job)) else None);
          matched = (occupant \<noteq> None \<and> (case other of None \<Rightarrow> False | Some r \<Rightarrow> wj_firedGeneration r = occupant));
          fire = (case other of None \<Rightarrow> None | Some r \<Rightarrow> wj_lastFire r);
          predates = (case fire of None \<Rightarrow> False
            | Some f \<Rightarrow> (case passStart of None \<Rightarrow> f \<le> t | Some p \<Rightarrow> f < p))
      in (\<not> needed \<or> (matched \<and> fire \<noteq> None \<and> predates), needed \<and> matched \<and> fire \<noteq> None \<and> \<not> predates))"

definition is_context_watch :: "wd_job \<Rightarrow> bool" where
  "is_context_watch job \<longleftrightarrow> wj_policy job = ''context-usage-threshold''"

text \<open>A byte-gated watch follows its seat's current occupant: the engine, the watched file, and whether the
  occupant's transcript is still awaited.\<close>

definition bind_watched_file ::
  "engine_deps \<Rightarrow> timestamp \<Rightarrow> wd_job \<Rightarrow> string option \<Rightarrow> engine \<Rightarrow> engine \<times> string option \<times> bool" where
  "bind_watched_file d t job occupant e =
     (if is_context_watch job \<and> wj_thresholdBytes job \<noteq> None \<and> truthy occupant \<and>
         wj_watchedGeneration job \<noteq> occupant
      then (case dp_findTranscript d (wj_target job) (the occupant) of
          None \<Rightarrow> (e, None, True)
        | Some file \<Rightarrow>
            if file = [] then (e, Some file, True)
            else (record_history (history_row (wj_id job) t Skipped (Some ''watched_file_bound'')
                    (Some [(''boundAt'', Y_number (Finite (of_int t))), (''occupantGeneration'', Y_string (the occupant)), (''watchedFilePath'', Y_string file)]))
                  (on_store (recordWatchedFileBinding (wj_id job) file (the occupant)) e), Some file, False))
      else (e, wj_watchedFile job, False))"

definition evaluate_begin ::
  "engine_deps \<Rightarrow> timestamp \<Rightarrow> timestamp option \<Rightarrow> wd_job \<Rightarrow> engine \<Rightarrow> asked step_result act" where
  "evaluate_begin d t passStart job e =
     (case inactiveJobResult (wj_id job) e of
        Inl x \<Rightarrow> (e, Inl x)
      | Inr (Some r) \<Rightarrow> (e, Inr (Finished r))
      | Inr None \<Rightarrow>
          (case resolvePolicy d (wj_policy job) of
             None \<Rightarrow> after (end_job job t (''unknown_policy:'' @ wj_policy job) None e) (\<lambda>r e'. (e', Inr (Finished r)))
           | Some p \<Rightarrow>
               (case parseWatchdogSpec (dp_yaml d) (wj_spec job) of
                  Inl x \<Rightarrow> (e, Inl x)
                | Inr spec \<Rightarrow>
                    let occupant = (if is_context_watch job
                          then (case dp_resolveTargetGeneration d of None \<Rightarrow> None | Some f \<Rightarrow> f (wj_target job)) else None);
                        (e', file, pending) = bind_watched_file d t job occupant e;
                        (satisfied, deferred) = required_receipt (en_store e') job occupant t passStart
                    in (e', Inr (Goes_on \<lparr>as_policy = p, as_job =
                         \<lparr>pj_id = wj_id job, pj_policy = wj_policy job, pj_target = watchdogJobTarget job (ps_target spec),
                          pj_message = ps_message spec, pj_interval = wj_interval job, pj_activeWake = wj_activeWake job,
                          pj_scan = wj_scan job, pj_context = ps_context spec, pj_lastEvaluation = wj_lastEvaluation job,
                          pj_lastFire = wj_lastFire job, pj_registeredBy = wj_registeredBy job,
                          pj_registeredAt = wj_registeredAt job, pj_watchedFile = file,
                          pj_thresholdBytes = wj_thresholdBytes job, pj_thresholdTokens = wj_thresholdTokens job,
                          pj_thresholdPercent = wj_thresholdPercent job,
                          pj_sample = (if is_context_watch job \<and> wj_thresholdBytes job = None
                            then dp_resolveContextUsage d (wj_target job) occupant else None),
                          pj_requires = wj_requires job, pj_firedGeneration = wj_firedGeneration job,
                          pj_firedCondition = wj_firedCondition job, pj_occupant = occupant,
                          pj_transcriptPending = pending, pj_receiptSatisfied = satisfied,
                          pj_receiptDeferred = deferred\<rparr>,
                         as_spec = spec, as_occupant = occupant\<rparr>)))))"

text \<open>The queue's wait answers first; only otherwise is the policy asked.\<close>

definition ask_policy :: "engine_deps \<Rightarrow> wd_job \<Rightarrow> asked \<Rightarrow> engine \<Rightarrow> policy_evaluation act" where
  "ask_policy d job a e =
     (let (ops, wait) = dp_queueWait d (wj_id job) (en_store e); e' = run_ops d ops e
      in (e', case wait of Some out \<Rightarrow> Inr out | None \<Rightarrow> as_policy a (as_job a)))"

section \<open>From the policy's answer to the transport\<close>

definition parseContinuityAction ::
  "yaml option \<Rightarrow> wd_job \<Rightarrow> string option \<Rightarrow> watchdog_error + continuity_action option" where
  "parseContinuityAction raw job occupant =
     (if \<not> is_mapping raw \<or> yaml_get ''type'' raw \<noteq> Some (Y_string ''create-cutover-baton'') then Inr None
      else (case (yaml_string (yaml_get ''destination'' raw), yaml_string (yaml_get ''body'' raw)) of
          (Some dest, Some text) \<Rightarrow>
            if truthy occupant
            then Inr (Some \<lparr>ca_job = wj_id job, ca_occupant = the occupant, ca_source = wj_target job,
                            ca_destination = dest, ca_body = text\<rparr>)
            else Inl Continuity_action_invalid
        | _ \<Rightarrow> Inl Continuity_action_invalid))"

text \<open>The wake window of a job that stays actionable is still closed.\<close>

definition throttled :: "wd_job \<Rightarrow> timestamp \<Rightarrow> bool" where
  "throttled job t \<longleftrightarrow> wj_actionable job \<and>
     (case (wj_activeWake job, wj_lastFire job) of
        (Some secs, Some fired) \<Rightarrow> of_int (t - fired) < secs * 1000
      | _ \<Rightarrow> False)"

definition generation_mismatch :: "engine_deps \<Rightarrow> wd_job \<Rightarrow> string \<Rightarrow> string option" where
  "generation_mismatch d job target =
     (case (wj_targetGeneration job, dp_resolveTargetGeneration d) of
        (Some armed, Some live) \<Rightarrow>
          (case live target of None \<Rightarrow> None | Some g \<Rightarrow> if g \<noteq> armed then Some g else None)
      | _ \<Rightarrow> None)"

definition terminalBeforeDelivery :: "engine_deps \<Rightarrow> wd_job \<Rightarrow> timestamp \<Rightarrow> engine \<Rightarrow> evaluation_result act option" where
  "terminalBeforeDelivery d job t e = (case dp_preDeliveryTerminal d (wj_id job) of
     None \<Rightarrow> None
   | Some reason \<Rightarrow> if reason = [] then None else Some (end_job job t reason None e))"

text \<open>What one fire is about: the job, its occupant, and the condition, the previous fire or the message.\<close>

definition fire_stamp :: "timestamp option \<Rightarrow> string option" where
  "fire_stamp x = (case x of None \<Rightarrow> None
     | Some n \<Rightarrow> Some (if n < 0 then CHR ''-'' # nat_str (nat (- n)) else nat_str (nat n)))"

definition occurrence_key :: "wd_job \<Rightarrow> string option \<Rightarrow> policy_evaluation \<Rightarrow> string option list" where
  "occurrence_key job occupant out =
     [Some (wj_id job), occupant,
      (case pe_receipt out of Some r \<Rightarrow> Some r
       | None \<Rightarrow> if wj_policy job = ''periodic-reminder'' then fire_stamp (wj_lastFire job) else Some (pe_message out))]
     @ (if pe_receipt out = None \<and> wj_policy job \<noteq> ''periodic-reminder'' \<and> \<not> is_context_watch job \<and> wj_lastFire job \<noteq> None
        then [fire_stamp (wj_lastFire job)] else [])"

definition withContinuationPreview :: "string \<Rightarrow> digest_entry \<Rightarrow> wake_text" where
  "withContinuationPreview message entry =
     (if blank (dg_continuation entry) then Wake_plain message
      else Wake_preview message (dg_qitem entry) (trim (the (dg_continuation entry))))"

record held_reminder =
  hd_job :: wd_job
  hd_outcome :: policy_evaluation
  hd_evaluatedAt :: timestamp
  hd_occurrence :: string
  hd_entry :: digest_entry

text \<open>A call in flight: the request, and what the accounting of its outcome needs.\<close>

record in_flight_send =
  fl_job :: wd_job
  fl_outcome :: policy_evaluation
  fl_evaluatedAt :: timestamp
  fl_schedule :: wd_job
  fl_thresholdFire :: bool
  fl_occupant :: "string option"
  fl_continuity :: "continuity_action option"
  fl_request :: delivery_request
  fl_source :: delivery_source

datatype delivery_decision =
    Concluded evaluation_result
  | Held held_reminder
  | Recovered in_flight_send delivery_outcome
  | Calls in_flight_send

text \<open>\<open>jobsRepo.deliverySchedule\<close>: the row as the delivery starts.\<close>

definition start_delivery :: "string \<Rightarrow> engine \<Rightarrow> wd_job act" where
  "start_delivery i e = (case deliverySchedule i (en_store e) of
     Inl x \<Rightarrow> (e, Inl x) | Inr (s, j) \<Rightarrow> (e\<lparr>en_store := s\<rparr>, Inr j))"

definition plain_source :: "wd_job \<Rightarrow> string \<Rightarrow> delivery_source" where
  "plain_source job occurrence = \<lparr>dv_occurrence = occurrence, dv_job = wj_id job, dv_policy = wj_policy job, dv_members = None\<rparr>"

definition digest_candidate ::
  "engine_deps \<Rightarrow> wd_job \<Rightarrow> policy_evaluation \<Rightarrow> continuity_action option \<Rightarrow> digest_entry option" where
  "digest_candidate d job out continuity =
     (if wj_policy job = ''periodic-reminder'' \<and> continuity = None then dp_digestEntry d (wj_id job) (pe_message out) else None)"

text \<open>The send branch after the wake window, the generation gate and the pre-transport guard let it through.\<close>

definition prepare_send ::
  "engine_deps \<Rightarrow> timestamp \<Rightarrow> bool \<Rightarrow> wd_job \<Rightarrow> asked \<Rightarrow> policy_evaluation \<Rightarrow> engine \<Rightarrow> delivery_decision act" where
  "prepare_send d t in_pass job a out e =
     (case (if pe_notice out then Inr None
            else parseContinuityAction (context_get (as_spec a) ''continuity_action'') job (as_occupant a)) of
        Inl x \<Rightarrow> (e, Inl x)
      | Inr continuity \<Rightarrow>
          let occupant = as_occupant a;
              occurrence = dp_hash d (occurrence_key job occupant out);
              src = plain_source job occurrence;
              fires = (is_context_watch job \<and> \<not> pe_notice out);
              send = (\<lambda>snap text threshold. \<lparr>fl_job = job, fl_outcome = out, fl_evaluatedAt = t, fl_schedule = snap,
                 fl_thresholdFire = threshold, fl_occupant = occupant, fl_continuity = continuity,
                 fl_request = \<lparr>dr_target = pe_target out, dr_message = text, dr_continuity = continuity\<rparr>,
                 fl_source = src\<rparr>)
          in (case dp_reconcile d src of
                Some recovered \<Rightarrow> after (start_delivery (wj_id job) e) (\<lambda>snap e'.
                  (e', Inr (Recovered (send snap (Wake_plain (pe_message out)) False) recovered)))
              | None \<Rightarrow>
                  let entry = digest_candidate d job out continuity
                  in if in_pass \<and> entry \<noteq> None
                     then (e, Inr (Held \<lparr>hd_job = job, hd_outcome = out, hd_evaluatedAt = t, hd_occurrence = occurrence,
                                         hd_entry = the entry\<rparr>))
                     else
                       let text = (case entry of None \<Rightarrow> Wake_plain (pe_message out)
                             | Some g \<Rightarrow> withContinuationPreview (pe_message out) g);
                           e1 = (if fires \<and> truthy occupant \<and> continuity = None
                             then on_store (recordThresholdFire (wj_id job) (the occupant) t) e else e)
                       in after (start_delivery (wj_id job) e1) (\<lambda>snap e2.
                            (e2\<lparr>en_sent := en_sent e2 @ [(\<lparr>dr_target = pe_target out, dr_message = text, dr_continuity = continuity\<rparr>, src)]\<rparr>,
                             Inr (Calls (send snap text fires))))))"

definition evaluate_decide ::
  "engine_deps \<Rightarrow> timestamp \<Rightarrow> bool \<Rightarrow> wd_job \<Rightarrow> asked \<Rightarrow> policy_evaluation \<Rightarrow> engine \<Rightarrow> delivery_decision act" where
  "evaluate_decide d t in_pass job a out e =
     (case inactiveJobResult (wj_id job) e of
        Inl x \<Rightarrow> (e, Inl x)
      | Inr (Some r) \<Rightarrow> (e, Inr (Concluded r))
      | Inr None \<Rightarrow>
          (case out of
             Pe_skip reason notes \<Rightarrow>
               after (if reason \<in> set QUIET_SKIP_REASONS then quiet_skip_job job t out e else skip_job job t out notes e)
                 (\<lambda>r e'. (e', Inr (Concluded r)))
           | Pe_terminal reason notes \<Rightarrow> after (end_job job t reason notes e) (\<lambda>r e'. (e', Inr (Concluded r)))
           | Pe_send target message notes receipt notice \<Rightarrow>
               if throttled job t then
                 after (conclude (wj_id job) (Pe_skip ''active_wake_not_due'' None) None None False
                   (on_store (setActionable (wj_id job) True t (wj_lastActionable job) \<circ>
                              recordEvaluation (wj_id job) t False None) e))
                   (\<lambda>r e'. (e', Inr (Concluded r)))
               else
                 (case generation_mismatch d job target of
                    Some live \<Rightarrow>
                      after (skip_job job t (Pe_skip ''target_generation_mismatch'' None)
                        (Some [(''armedForGeneration'', Y_string (the (wj_targetGeneration job))),
                               (''liveGeneration'', Y_string live), (''targetSession'', Y_string target)]) e)
                        (\<lambda>r e'. (e', Inr (Concluded r)))
                  | None \<Rightarrow>
                      (case terminalBeforeDelivery d job t e of
                         Some m \<Rightarrow> after m (\<lambda>r e'. (e', Inr (Concluded r)))
                       | None \<Rightarrow> prepare_send d t in_pass job a out e))))"

section \<open>Accounting for a delivery\<close>

definition isRefusedInteractive :: "string option \<Rightarrow> bool" where
  "isRefusedInteractive reason = (case reason of None \<Rightarrow> False
     | Some r \<Rightarrow> starts_with ''Refused:'' r \<and> sublist ''interactive prompt'' r)"

text \<open>\<open>{ ...notes, key: value }\<close>.\<close>

definition with_key :: "string \<Rightarrow> yaml \<Rightarrow> wake_notes \<Rightarrow> wake_notes" where
  "with_key k v notes =
     (if k \<in> fst ` set notes then map (\<lambda>(x, y). (x, if x = k then v else y)) notes else notes @ [(k, v)])"

definition add_key :: "string \<Rightarrow> string option \<Rightarrow> wake_notes \<Rightarrow> wake_notes" where
  "add_key k v notes = (case v of None \<Rightarrow> notes | Some x \<Rightarrow> with_key k (Y_string x) notes)"

definition add_truthy :: "string \<Rightarrow> string option \<Rightarrow> wake_notes \<Rightarrow> wake_notes" where
  "add_truthy k v notes = (if truthy v then add_key k v notes else notes)"

definition id_list :: "string list \<Rightarrow> yaml" where
  "id_list ids = Y_list (map Y_string ids)"

definition attempt_notes ::
  "policy_evaluation \<Rightarrow> (string \<times> nat \<times> wake_text) option \<Rightarrow> delivery_outcome \<Rightarrow> wake_notes option" where
  "attempt_notes out digest dl =
     (let notes = (case digest of None \<Rightarrow> pe_notes out
            | Some (did, n, line) \<Rightarrow> Some (with_key ''digestSize'' (Y_number (Finite (of_nat n)))
                (with_key ''digestDeliveryId'' (Y_string did) (or_default (pe_notes out) []))));
          delivered = (if dl_inputPhase dl = None \<and> dl_code dl = None then notes
            else Some (add_key ''deliveryCode'' (dl_code dl) (add_key ''deliveryInputPhase'' (dl_inputPhase dl) (or_default notes []))));
          receipt = (if truthy (dl_retryAt dl) \<or> truthy (dl_nextAction dl) \<or> dl_tracked dl
            then Some ((if dl_tracked dl then with_key ''outboxIds'' (id_list (dl_outboxIds dl)) else id)
              (add_truthy ''nextAction'' (dl_nextAction dl) (add_truthy ''retryAt'' (dl_retryAt dl) (or_default delivered []))))
            else delivered)
      in case dl_error dl of
           Some x \<Rightarrow> Some (with_key ''deliveryReason'' (Y_string x) (or_default receipt []))
         | None \<Rightarrow>
             if dl_status dl = Dl_retained
             then Some (with_key ''retainedNotDelivered'' (Y_bool True)
                   (with_key ''outboxIds'' (id_list (dl_outboxIds dl)) (or_default receipt [])))
             else receipt)"

definition attempt_outcome :: "delivery_outcome \<Rightarrow> history_outcome \<times> string option" where
  "attempt_outcome dl =
     (if dl_reconciled dl then (Skipped, Some ''delivery_receipt_reconciled'')
      else case dl_status dl of
        Dl_retained \<Rightarrow> (Skipped, Some ''typing_guard_retained'')
      | Dl_ok \<Rightarrow> (Sent, None)
      | Dl_failed \<Rightarrow> (if isRefusedInteractive (dl_error dl) then Refused else Failed_delivery, None))"

record attempt =
  at_job :: wd_job
  at_outcome :: policy_evaluation
  at_evaluatedAt :: timestamp
  at_schedule :: wd_job
  at_delivery :: delivery_outcome
  at_context :: bool
  at_notice :: bool
  at_digest :: "(string \<times> nat \<times> wake_text) option"
  at_sentMessage :: "wake_text option"

definition attempt_history :: "attempt \<Rightarrow> history_entry" where
  "attempt_history a =
     (let dl = at_delivery a; (out, reason) = attempt_outcome dl
      in \<lparr>he_job = wj_id (at_job a), he_evaluatedAt = at_evaluatedAt a, he_outcome = out, he_skipReason = reason,
          he_target = Some (pe_target (at_outcome a)), he_status = Some (dl_status dl),
          he_message = Some (case at_digest a of Some (_, _, line) \<Rightarrow> line
            | None \<Rightarrow> (case dl_sentMessage dl of Some m \<Rightarrow> Wake_plain m
                | None \<Rightarrow> or_default (at_sentMessage a) (Wake_plain (pe_message (at_outcome a))))),
          he_notes = attempt_notes (at_outcome a) (at_digest a) dl\<rparr>)"

definition retryPending :: "delivery_outcome \<Rightarrow> bool" where
  "retryPending dl \<longleftrightarrow> dl_tracked dl \<and> dl_status dl = Dl_failed \<and> \<not> dl_complete dl"

text \<open>The queue hears of an attempt only while the job still runs on the schedule the attempt started under.\<close>

definition accountWake :: "engine_deps \<Rightarrow> attempt \<Rightarrow> engine \<Rightarrow> unit act" where
  "accountWake d a e =
     (case wd_getByIdOrThrow (en_store e) (wj_id (at_job a)) of
        Inl x \<Rightarrow> (e, Inl x)
      | Inr current \<Rightarrow>
          let dl = at_delivery a; retry = retryPending dl;
              counts = (wj_state current = Wd_active \<and>
                scheduleUnchanged (en_store e) current (wd_schedule (at_schedule a)) \<and>
                (at_context a \<or> wj_lastEvaluation current = Some (at_evaluatedAt a) \<or>
                 (retry \<and> wj_lastEvaluation current = wj_lastEvaluation (at_schedule a))));
              e1 = (if counts
                then run_ops d (dp_onWakeAttempt d \<lparr>wa_job = wj_id (at_job a), wa_status = dl_status dl,
                       wa_retryAt = (if retry \<and> truthy (dl_retryAt dl) then dl_retryAt dl else None)\<rparr>) e
                else e)
          in (if truthy (dl_terminalReason dl)
              then on_store (wd_markTerminal (wj_id (at_job a)) (the (dl_terminalReason dl))) e1 else e1, Inr ()))"

definition account_evaluation :: "attempt \<Rightarrow> engine \<Rightarrow> engine" where
  "account_evaluation a =
     (if at_notice a then on_store (recordEvaluation (wj_id (at_job a)) (at_evaluatedAt a) False None)
      else if \<not> at_context a \<and> \<not> retryPending (at_delivery a)
      then on_store (recordEvaluation (wj_id (at_job a)) (at_evaluatedAt a) True (Some (at_schedule a)))
      else id)"

definition bank_receipt :: "attempt \<Rightarrow> engine \<Rightarrow> engine" where
  "bank_receipt a = (case pe_receipt (at_outcome a) of
     Some r \<Rightarrow> if dl_status (at_delivery a) = Dl_ok then on_store (recordConditionReceipt (wj_id (at_job a)) r) else id
   | None \<Rightarrow> id)"

definition mark_actionable :: "attempt \<Rightarrow> engine \<Rightarrow> engine" where
  "mark_actionable a = on_store (
     if at_notice a then setActionable (wj_id (at_job a)) False (at_evaluatedAt a) None
     else setActionable (wj_id (at_job a)) True (at_evaluatedAt a) (wj_lastActionable (at_job a)))"

definition recordAttempt :: "engine_deps \<Rightarrow> attempt \<Rightarrow> engine \<Rightarrow> evaluation_result act" where
  "recordAttempt d a e =
     (let i = wj_id (at_job a); dl = at_delivery a
      in if dl_deferred dl
         then conclude i (at_outcome a) None (Some dl) False (on_store (deliveryAccounted i) e)
         else
           let h = attempt_history a;
               e1 = account_evaluation a (record_history h e)
           in after (if dl_tracked dl then accountWake d a e1 else (e1, Inr ())) (\<lambda>_ e2.
                let e3 = emit_event (Evaluation_fired i (wj_policy (at_job a)) (pe_target (at_outcome a)) (dl_status dl))
                           (mark_actionable a (bank_receipt a e2))
                in after (if dl_tracked dl then (e3, Inr ()) else accountWake d a e3) (\<lambda>_ e4.
                     conclude i (at_outcome a) (Some h) (Some dl) True (on_store (deliveryAccounted i) e4))))"

section \<open>The evaluation\<close>

definition attempt_of :: "in_flight_send \<Rightarrow> delivery_outcome \<Rightarrow> wake_text option \<Rightarrow> attempt" where
  "attempt_of f dl sent =
     \<lparr>at_job = fl_job f, at_outcome = fl_outcome f, at_evaluatedAt = fl_evaluatedAt f, at_schedule = fl_schedule f,
      at_delivery = dl, at_context = fl_thresholdFire f, at_notice = pe_notice (fl_outcome f), at_digest = None,
      at_sentMessage = sent\<rparr>"

definition evaluate_finish :: "engine_deps \<Rightarrow> in_flight_send \<Rightarrow> delivery_outcome \<Rightarrow> engine \<Rightarrow> evaluation_result act" where
  "evaluate_finish d f dl e =
     (let job = fl_job f;
          e1 = (if is_context_watch job \<and> truthy (fl_occupant f) \<and> fl_continuity f \<noteq> None \<and> dl_continuityCompleted dl
                then on_store (recordThresholdFire (wj_id job) (the (fl_occupant f)) (fl_evaluatedAt f)) e else e)
      in recordAttempt d (attempt_of f dl (Some (dr_message (fl_request f)))) e1)"

text \<open>What else happens: the operations other code runs while the policy and while the delivery is awaited, and
  what the transport answers (or that it throws), for a digest also member by member.\<close>

record world =
  wo_duringPolicy :: "watchdog_op list"
  wo_duringDelivery :: "watchdog_op list"
  wo_deliver :: "delivery_request \<Rightarrow> delivery_source \<Rightarrow> watchdog_error + delivery_outcome"
  wo_memberOutcome :: "delivery_source \<Rightarrow> string \<Rightarrow> delivery_outcome option"

text \<open>From the policy's answer to the end.\<close>

definition evaluate_rest ::
  "engine_deps \<Rightarrow> world \<Rightarrow> timestamp \<Rightarrow> bool \<Rightarrow> wd_job \<Rightarrow> asked \<Rightarrow> policy_evaluation \<Rightarrow> engine
    \<Rightarrow> (evaluation_result option \<times> held_reminder option) act" where
  "evaluate_rest d w t in_pass job a out e2 =
     after (evaluate_decide d t in_pass job a out e2) (\<lambda>dec e3. case dec of
       Concluded r \<Rightarrow> (e3, Inr (Some r, None))
     | Held h \<Rightarrow> (e3, Inr (None, Some h))
     | Recovered f dl \<Rightarrow> after (recordAttempt d (attempt_of f dl None) e3) (\<lambda>r e4. (e4, Inr (Some r, None)))
     | Calls f \<Rightarrow>
         (case wo_deliver w (fl_request f) (fl_source f) of
            Inl x \<Rightarrow> (run_ops d (wo_duringDelivery w) e3, Inl x)
          | Inr dl \<Rightarrow> after (evaluate_finish d f dl (run_ops d (wo_duringDelivery w) e3)) (\<lambda>r e4. (e4, Inr (Some r, None)))))"

definition evaluate ::
  "engine_deps \<Rightarrow> world \<Rightarrow> timestamp \<Rightarrow> timestamp option \<Rightarrow> bool \<Rightarrow> wd_job \<Rightarrow> engine
    \<Rightarrow> (evaluation_result option \<times> held_reminder option) act" where
  "evaluate d w t passStart in_pass job e =
     after (evaluate_begin d t passStart job e) (\<lambda>b e1. case b of
       Finished r \<Rightarrow> (e1, Inr (Some r, None))
     | Goes_on a \<Rightarrow> after (ask_policy d job a e1) (\<lambda>out e2.
         evaluate_rest d w t in_pass job a out (run_ops d (wo_duringPolicy w) e2)))"

end
