(* ===== verification/Watchdog_Wakes.thy ===== *)
theory Watchdog_Wakes
  imports Watchdog_Engine
begin

text \<open>
  What an evaluation of a watchdog job does: which writes leave the transport and the record alone,
  when a wake is sent, what an evaluation records, and what a delivery that lost its job may still
  change. \<open>leaves m P Q\<close> is the contract of an act: a throw leaves a state with \<open>P\<close>, a return a
  value and a state with \<open>Q\<close>.
\<close>

named_theorems act_rules \<open>contracts of the engine's acts\<close>

definition leaves :: "'a act \<Rightarrow> (engine \<Rightarrow> bool) \<Rightarrow> ('a \<Rightarrow> engine \<Rightarrow> bool) \<Rightarrow> bool" where
  "leaves m P Q \<longleftrightarrow> (case snd m of Inl _ \<Rightarrow> P (fst m) | Inr v \<Rightarrow> Q v (fst m))"

lemma leaves_simps [simp]: "leaves (e, Inl x) P Q = P e" "leaves (e, Inr v) P Q = Q v e"
  by (simp_all add: leaves_def)

lemma leaves_after: "leaves m P (\<lambda>v e. leaves (f v e) P Q) \<Longrightarrow> leaves (after m f) P Q"
  by (cases m; cases "snd m") simp_all

lemma leaves_weaken: "leaves m P Q \<Longrightarrow> (\<And>e. P e \<Longrightarrow> P' e) \<Longrightarrow> (\<And>v e. Q v e \<Longrightarrow> Q' v e) \<Longrightarrow> leaves m P' Q'"
  by (cases m; cases "snd m") simp_all

lemma leaves_Inr: "leaves m P Q \<Longrightarrow> m = (e, Inr v) \<Longrightarrow> Q v e"
  by simp

section \<open>The record\<close>

lemma engine_frames [simp]:
  "en_sent (record_history h e) = en_sent e" "en_sent (emit_event v e) = en_sent e" "en_sent (on_store f e) = en_sent e"
  "en_history (record_history h e) = en_history e @ [h]" "en_history (emit_event v e) = en_history e"
  "en_history (on_store f e) = en_history e"
  "en_events (record_history h e) = en_events e" "en_events (emit_event v e) = en_events e @ [v]"
  "en_events (on_store f e) = en_events e"
  "en_store (record_history h e) = en_store e" "en_store (emit_event v e) = en_store e"
  "en_store (on_store f e) = f (en_store e)"
  by (simp_all add: record_history_def emit_event_def on_store_def)

abbreviation deps_step :: "engine_deps \<Rightarrow> watchdog_op \<Rightarrow> watchdog_store \<Rightarrow> watchdog_error + watchdog_store" where
  "deps_step d \<equiv> watchdog_step (dp_occupant d) (dp_yaml d)"

lemma run_ops_frames [simp]:
  "en_sent (run_ops d ops e) = en_sent e" "en_history (run_ops d ops e) = en_history e"
  "en_events (run_ops d ops e) = en_events e" "en_store (run_ops d ops e) = run_steps (deps_step d) ops (en_store e)"
  by (simp_all add: run_ops_def)

text \<open>A meaningful result has the one history row it recorded, and one event; any other recorded nothing. A quiet
  skip is never meaningful.\<close>

definition recorded :: "engine \<Rightarrow> engine \<Rightarrow> evaluation_result \<Rightarrow> bool" where
  "recorded e e' r \<longleftrightarrow>
     (case re_history r of
        None \<Rightarrow> \<not> re_meaningful r \<and> en_history e' = en_history e \<and> en_events e' = en_events e
      | Some h \<Rightarrow> re_meaningful r \<and> en_history e' = en_history e @ [h] \<and>
          (\<exists>v. en_events e' = en_events e @ [v]) \<and>
          (case re_outcome r of Pe_skip reason _ \<Rightarrow> reason \<notin> set QUIET_SKIP_REASONS | _ \<Rightarrow> True))"

definition silent :: "engine \<Rightarrow> engine \<Rightarrow> bool" where
  "silent e e' \<longleftrightarrow> en_sent e' = en_sent e"

lemma conclude_leaves:
  assumes "silent e0 e"
    and "\<And>j. recorded e0 e \<lparr>re_job = j, re_outcome = out, re_history = h, re_delivery = dl, re_meaningful = m\<rparr>"
  shows "leaves (conclude i out h dl m e) (silent e0) (\<lambda>r e'. silent e0 e' \<and> recorded e0 e' r)"
  using assms by (cases "wd_getByIdOrThrow (en_store e) i") (simp_all add: conclude_def)

lemma fst_conclude [simp]: "fst (conclude i out h dl m e) = e"
  by (simp add: conclude_def)

lemma end_job_leaves [act_rules]:
  "leaves (end_job job t reason ns e) (silent e) (\<lambda>r e'. silent e e' \<and> recorded e e' r)"
  unfolding end_job_def Let_def by (rule conclude_leaves) (simp_all add: silent_def recorded_def)

lemma skip_job_leaves [act_rules]:
  "reason \<notin> set QUIET_SKIP_REASONS \<Longrightarrow>
     leaves (skip_job job t (Pe_skip reason ns) notes' e) (silent e) (\<lambda>r e'. silent e e' \<and> recorded e e' r)"
  unfolding skip_job_def Let_def by (rule conclude_leaves) (simp_all add: silent_def recorded_def)

lemma quiet_leaves:
  "leaves (conclude i out None None False (on_store f e)) (silent e) (\<lambda>r e'. silent e e' \<and> recorded e e' r)"
  by (rule conclude_leaves) (simp_all add: silent_def recorded_def)

lemma quiet_skip_leaves [act_rules]:
  "leaves (quiet_skip_job job t out e) (silent e) (\<lambda>r e'. silent e e' \<and> recorded e e' r)"
  unfolding quiet_skip_job_def by (rule quiet_leaves)

lemma inactive_result: "inactiveJobResult i e = Inr (Some r) \<Longrightarrow> recorded e e r"
  by (auto simp: inactiveJobResult_def effect_simps recorded_def split: if_splits)

lemma inactive_None: "inactiveJobResult i e = Inr None \<longleftrightarrow> job_active (en_store e) i"
  by (auto simp: inactiveJobResult_def wd_getByIdOrThrow_def job_active_def effect_simps split: option.splits if_splits)

section \<open>Up to the policy\<close>

text \<open>Nothing is sent, and only a fresh file binding is recorded.\<close>

definition binding_row :: "history_entry list \<Rightarrow> bool" where
  "binding_row hs \<longleftrightarrow> hs = [] \<or> (\<exists>h. hs = [h] \<and> he_skipReason h = Some ''watched_file_bound'')"

definition bound_only :: "engine_deps \<Rightarrow> engine \<Rightarrow> engine \<Rightarrow> bool" where
  "bound_only d e e' \<longleftrightarrow> silent e e' \<and> en_events e' = en_events e \<and>
     (\<exists>hs. binding_row hs \<and> en_history e' = en_history e @ hs) \<and>
     (\<exists>ops. en_store e' = run_steps (deps_step d) ops (en_store e))"

lemma bound_only_refl [simp]: "bound_only d e e"
  by (auto simp: bound_only_def silent_def binding_row_def run_steps_def intro!: exI [of _ "[]"])

lemma bind_watched_file_bound: "bound_only d e (fst (bind_watched_file d t job occupant e))"
proof -
  have "\<exists>ops. recordWatchedFileBinding i f g (en_store e) = run_steps (deps_step d) ops (en_store e)" for i f g
    by (rule exI [of _ "[Do_bindFile i f g]"]) (simp add: run_steps_simps attempt_step_def)
  then show ?thesis
    by (auto simp: bind_watched_file_def split: option.split)
      (auto simp: bound_only_def silent_def binding_row_def history_row_def)
qed

text \<open>A finished result lifted into the type of the next step.\<close>

lemma leaves_finished:
  "leaves m P Q \<Longrightarrow> leaves (after m (\<lambda>r e'. (e', Inr (C r)))) P (\<lambda>x e'. \<exists>r. x = C r \<and> Q r e')"
  by (rule leaves_after) (auto elim!: leaves_weaken)

lemma evaluate_begin_leaves:
  "leaves (evaluate_begin d t ps job e) (silent e)
     (\<lambda>x e'. case x of Finished r \<Rightarrow> silent e e' \<and> recorded e e' r | Goes_on _ \<Rightarrow> bound_only d e e')"
proof (cases "inactiveJobResult (wj_id job) e")
  case (Inl x)
  then show ?thesis by (simp add: evaluate_begin_def silent_def)
next
  case (Inr b)
  show ?thesis
  proof (cases b)
    case (Some r)
    then show ?thesis using Inr inactive_result [of "wj_id job" e r] by (simp add: evaluate_begin_def silent_def)
  next
    case None
    have "leaves (after (end_job job t reason ns e) (\<lambda>r e'. (e', Inr (Finished r)))) (silent e)
        (\<lambda>x e'. case x of Finished r \<Rightarrow> silent e e' \<and> recorded e e' r | Goes_on _ \<Rightarrow> bound_only d e e')" for reason ns
      by (rule leaves_weaken [OF leaves_finished [OF end_job_leaves]]) auto
    then show ?thesis
      using Inr None bind_watched_file_bound [of d e t job]
      by (auto simp: evaluate_begin_def silent_def Let_def split: option.split sum.split prod.split)
         (metis fst_conv)+
  qed
qed

section \<open>When a wake is sent\<close>

definition may_send :: "engine_deps \<Rightarrow> timestamp \<Rightarrow> wd_job \<Rightarrow> policy_evaluation \<Rightarrow> engine \<Rightarrow> bool" where
  "may_send d t job out e \<longleftrightarrow> job_active (en_store e) (wj_id job) \<and>
     (case out of Pe_send _ _ _ _ _ \<Rightarrow> True | _ \<Rightarrow> False) \<and> \<not> throttled job t \<and>
     generation_mismatch d job (pe_target out) = None \<and> \<not> truthy (dp_preDeliveryTerminal d (wj_id job))"

text \<open>A decision leaves nothing on the record but a concluded result's own rows, and sends at most its request.\<close>

definition unrecorded :: "engine \<Rightarrow> engine \<Rightarrow> bool" where
  "unrecorded e e' \<longleftrightarrow> en_history e' = en_history e \<and> en_events e' = en_events e"

definition decided :: "engine_deps \<Rightarrow> timestamp \<Rightarrow> wd_job \<Rightarrow> policy_evaluation \<Rightarrow> engine \<Rightarrow> delivery_decision \<Rightarrow> engine \<Rightarrow> bool" where
  "decided d t job out e x e' \<longleftrightarrow> (case x of
     Concluded r \<Rightarrow> silent e e' \<and> recorded e e' r
   | Held h \<Rightarrow> e' = e \<and> hd_job h = job \<and> may_send d t job out e
   | Recovered f dl \<Rightarrow> silent e e' \<and> unrecorded e e' \<and> fl_outcome f = out \<and> may_send d t job out e
   | Calls f \<Rightarrow> en_sent e' = en_sent e @ [(fl_request f, fl_source f)] \<and> unrecorded e e' \<and> fl_outcome f = out \<and>
       dr_target (fl_request f) = pe_target out \<and> dv_job (fl_source f) = wj_id job \<and> dv_members (fl_source f) = None \<and> may_send d t job out e)"

lemma decided_concluded:
  "leaves m (silent e) (\<lambda>r e'. silent e e' \<and> recorded e e' r) \<Longrightarrow>
     leaves (after m (\<lambda>r e'. (e', Inr (Concluded r)))) (silent e) (decided d t job out e)"
  by (rule leaves_weaken [OF leaves_finished]) (auto simp: decided_def)

lemma start_delivery_leaves [act_rules]:
  "leaves (start_delivery i e) (\<lambda>e'. silent e e' \<and> unrecorded e e') (\<lambda>j e'. silent e e' \<and> unrecorded e e')"
  by (auto simp: start_delivery_def silent_def unrecorded_def split: sum.split prod.split)

lemma prepare_send_leaves:
  assumes "may_send d t job out e"
  shows "leaves (prepare_send d t in_pass job a out e) (silent e) (decided d t job out e)"
proof -
  have step: "leaves (after (start_delivery (wj_id job) e1) (\<lambda>snap e'. (g e', Inr (k snap)))) (silent e) (decided d t job out e)"
    if "silent e e1" "unrecorded e e1" "\<And>snap e'. silent e e' \<Longrightarrow> unrecorded e e' \<Longrightarrow> decided d t job out e (k snap) (g e')"
    for e1 g k
    by (rule leaves_after, rule leaves_weaken [OF start_delivery_leaves])
      (use that in \<open>auto simp: silent_def unrecorded_def\<close>)
  let ?continuity = "if pe_notice out then Inr None
    else parseContinuityAction (context_get (as_spec a) ''continuity_action'') job (as_occupant a)"
  show ?thesis
  proof (cases ?continuity)
    case (Inl x)
    then show ?thesis unfolding prepare_send_def by (simp add: silent_def)
  next
    case (Inr continuity)
    let ?src = "plain_source job (dp_hash d (occurrence_key job (as_occupant a) out))"
    show ?thesis
    proof (cases "dp_reconcile d ?src")
      case (Some recovered)
      show ?thesis
        unfolding prepare_send_def Inr sum.case Let_def Some option.case
        by (rule step) (use assms in \<open>simp_all add: silent_def unrecorded_def decided_def\<close>)
    next
      case None
      show ?thesis
      proof (cases "in_pass \<and> digest_candidate d job out continuity \<noteq> None")
        case True
        then show ?thesis
          unfolding prepare_send_def Inr sum.case Let_def None option.case  if_P [OF True]
          using assms by (simp add: decided_def)
      next
        case False
        show ?thesis
          unfolding prepare_send_def Inr sum.case Let_def None option.case  if_not_P [OF False]
          by (rule step) (use assms in \<open>simp_all add: silent_def unrecorded_def decided_def plain_source_def\<close>)
      qed
    qed
  qed
qed

lemma terminalBeforeDelivery_cases:
  "terminalBeforeDelivery d job t e = None \<and> \<not> truthy (dp_preDeliveryTerminal d (wj_id job)) \<or>
     (\<exists>reason. terminalBeforeDelivery d job t e = Some (end_job job t reason None e))"
  by (auto simp: terminalBeforeDelivery_def split: option.split)

lemma send_branch:
  assumes "inactiveJobResult (wj_id job) e = Inr None" and "out = Pe_send target message ns receipt notice"
  shows "leaves (evaluate_decide d t in_pass job a out e) (silent e) (decided d t job out e)"
proof -
  have decide: "evaluate_decide d t in_pass job a out e =
      (if throttled job t then
         after (conclude (wj_id job) (Pe_skip ''active_wake_not_due'' None) None None False
           (on_store (setActionable (wj_id job) True t (wj_lastActionable job) \<circ> recordEvaluation (wj_id job) t False None) e))
           (\<lambda>r e'. (e', Inr (Concluded r)))
       else case generation_mismatch d job target of
         Some live \<Rightarrow> after (skip_job job t (Pe_skip ''target_generation_mismatch'' None)
            (Some [(''armedForGeneration'', Y_string (the (wj_targetGeneration job))),
                   (''liveGeneration'', Y_string live), (''targetSession'', Y_string target)]) e)
            (\<lambda>r e'. (e', Inr (Concluded r)))
       | None \<Rightarrow> (case terminalBeforeDelivery d job t e of
           Some m \<Rightarrow> after m (\<lambda>r e'. (e', Inr (Concluded r)))
         | None \<Rightarrow> prepare_send d t in_pass job a out e))"
    unfolding evaluate_decide_def assms by (simp only: sum.case option.case policy_evaluation.case)
  have mismatch: "''target_generation_mismatch'' \<notin> set QUIET_SKIP_REASONS" by (simp add: QUIET_SKIP_REASONS_def)
  consider "throttled job t" | live where "\<not> throttled job t" "generation_mismatch d job target = Some live"
    | reason where "\<not> throttled job t" "generation_mismatch d job target = None"
        "terminalBeforeDelivery d job t e = Some (end_job job t reason None e)"
    | "\<not> throttled job t" "generation_mismatch d job target = None" "terminalBeforeDelivery d job t e = None"
    using terminalBeforeDelivery_cases [of d job t e] by (cases "generation_mismatch d job target") auto
  then show ?thesis
  proof cases
    case 4
    then have "may_send d t job out e"
      using assms inactive_None terminalBeforeDelivery_cases [of d job t e] by (auto simp: may_send_def)
    then show ?thesis using 4 decide by (simp add: prepare_send_leaves)
  qed (simp_all add: decide decided_concluded quiet_leaves act_rules mismatch)
qed

lemma evaluate_decide_leaves:
  "leaves (evaluate_decide d t in_pass job a out e) (silent e) (decided d t job out e)"
proof (cases "inactiveJobResult (wj_id job) e")
  case (Inl x)
  then show ?thesis by (simp add: evaluate_decide_def silent_def)
next
  case (Inr b)
  show ?thesis
  proof (cases b)
    case (Some r)
    then show ?thesis
      using Inr inactive_result [of "wj_id job" e r] by (simp add: evaluate_decide_def silent_def decided_def)
  next
    case None
    then show ?thesis
      using Inr send_branch [of job e out]
      by (cases out) (simp_all add: evaluate_decide_def decided_concluded act_rules)
  qed
qed

section \<open>Accounting\<close>

lemma accountWake_leaves [act_rules]:
  "leaves (accountWake d a e) (\<lambda>e'. silent e e' \<and> unrecorded e e') (\<lambda>_ e'. silent e e' \<and> unrecorded e e')"
  by (simp add: accountWake_def Let_def silent_def unrecorded_def split: sum.split)

lemma attempt_frames [simp]:
  "en_sent (account_evaluation a e) = en_sent e" "en_history (account_evaluation a e) = en_history e"
  "en_events (account_evaluation a e) = en_events e"
  "en_sent (bank_receipt a e) = en_sent e" "en_history (bank_receipt a e) = en_history e"
  "en_events (bank_receipt a e) = en_events e"
  "en_sent (mark_actionable a e) = en_sent e" "en_history (mark_actionable a e) = en_history e"
  "en_events (mark_actionable a e) = en_events e"
  by (simp_all add: account_evaluation_def bank_receipt_def mark_actionable_def split: option.split)

lemma maybe_account_leaves:
  "leaves (if c then accountWake d a e else (e, Inr ())) (\<lambda>e'. silent e e' \<and> unrecorded e e')
     (\<lambda>_ e'. silent e e' \<and> unrecorded e e')"
  "leaves (if c then (e, Inr ()) else accountWake d a e) (\<lambda>e'. silent e e' \<and> unrecorded e e')
     (\<lambda>_ e'. silent e e' \<and> unrecorded e e')"
  using accountWake_leaves [of d a e] by (simp_all add: silent_def unrecorded_def)

lemma recordAttempt_leaves [act_rules]:
  assumes "\<And>reason ns. at_outcome a \<noteq> Pe_skip reason ns"
  shows "leaves (recordAttempt d a e) (silent e) (\<lambda>r e'. silent e e' \<and> recorded e e' r)"
proof (cases "dl_deferred (at_delivery a)")
  case True
  then show ?thesis
    unfolding recordAttempt_def Let_def if_P [OF True]
    by (intro conclude_leaves) (simp_all add: silent_def recorded_def)
next
  case False
  have last: "leaves (conclude (wj_id (at_job a)) (at_outcome a) (Some (attempt_history a)) (Some (at_delivery a)) True
      (on_store f e4)) (silent e) (\<lambda>r e'. silent e e' \<and> recorded e e' r)"
    if "silent e e4" "en_history e4 = en_history e @ [attempt_history a]" "\<exists>v. en_events e4 = en_events e @ [v]" for f e4
    by (rule conclude_leaves) (use that assms in \<open>auto simp: silent_def recorded_def split: policy_evaluation.split\<close>)
  show ?thesis
    unfolding recordAttempt_def Let_def if_not_P [OF False]
  proof (rule leaves_after, rule leaves_weaken [OF maybe_account_leaves(1)])
    fix u :: unit and e2
    let ?e1 = "account_evaluation a (record_history (attempt_history a) e)"
    assume e2: "silent ?e1 e2 \<and> unrecorded ?e1 e2"
    let ?e3 = "emit_event (Evaluation_fired (wj_id (at_job a)) (wj_policy (at_job a)) (pe_target (at_outcome a))
      (dl_status (at_delivery a))) (mark_actionable a (bank_receipt a e2))"
    show "leaves (after (if dl_tracked (at_delivery a) then (?e3, Inr ()) else accountWake d a ?e3)
        (\<lambda>_ e4. conclude (wj_id (at_job a)) (at_outcome a) (Some (attempt_history a)) (Some (at_delivery a)) True
          (on_store (deliveryAccounted (wj_id (at_job a))) e4)))
      (silent e) (\<lambda>r e'. silent e e' \<and> recorded e e' r)"
    proof (rule leaves_after, rule leaves_weaken [OF maybe_account_leaves(2)])
      fix u :: unit and e4
      assume "silent ?e3 e4 \<and> unrecorded ?e3 e4"
      then show "leaves (conclude (wj_id (at_job a)) (at_outcome a) (Some (attempt_history a)) (Some (at_delivery a)) True
          (on_store (deliveryAccounted (wj_id (at_job a))) e4)) (silent e) (\<lambda>r e'. silent e e' \<and> recorded e e' r)"
        by (intro last) (use e2 in \<open>simp_all add: silent_def unrecorded_def\<close>)
    qed (use e2 in \<open>simp add: silent_def\<close>)
  qed (simp add: silent_def)
qed

section \<open>A whole evaluation\<close>

text \<open>The only way a wake goes out: one, about this job, while the table has it active after everything that ran
  during the policy, past the wake window, the generation gate and the pre-transport guard.\<close>

definition wake_gate :: "engine_deps \<Rightarrow> world \<Rightarrow> timestamp \<Rightarrow> wd_job \<Rightarrow> engine \<Rightarrow> engine \<Rightarrow> bool" where
  "wake_gate d w t job e e' \<longleftrightarrow> en_sent e' = en_sent e \<or>
     (\<exists>ops req src. en_sent e' = en_sent e @ [(req, src)] \<and> dv_job src = wj_id job \<and> dv_members src = None \<and>
        job_active (run_steps (deps_step d) (ops @ wo_duringPolicy w) (en_store e)) (wj_id job) \<and>
        \<not> throttled job t \<and> generation_mismatch d job (dr_target req) = None \<and>
        \<not> truthy (dp_preDeliveryTerminal d (wj_id job)))"

text \<open>A reminder held back is this job's, and nothing went out for it.\<close>

definition holds_back :: "wd_job \<Rightarrow> engine \<Rightarrow> engine \<Rightarrow> held_reminder option \<Rightarrow> bool" where
  "holds_back job e e' held \<longleftrightarrow> (case held of None \<Rightarrow> True | Some h \<Rightarrow> silent e e' \<and> hd_job h = job)"

text \<open>What an evaluation records: its result's rows, after at most one row for a fresh file binding.\<close>

definition evaluation_recorded :: "engine \<Rightarrow> engine \<Rightarrow> evaluation_result option \<Rightarrow> bool" where
  "evaluation_recorded e e' res \<longleftrightarrow>
     (\<exists>e1 hs. binding_row hs \<and> en_history e1 = en_history e @ hs \<and> en_events e1 = en_events e \<and>
        (case res of None \<Rightarrow> unrecorded e1 e' | Some r \<Rightarrow> recorded e1 e' r))"

lemma evaluation_recordedI:
  "en_history e1 = en_history e @ hs \<Longrightarrow> binding_row hs \<Longrightarrow> en_events e1 = en_events e \<Longrightarrow>
     recorded e1 e' r \<Longrightarrow> evaluation_recorded e e' (Some r)"
  unfolding evaluation_recorded_def by (intro exI [of _ e1] exI [of _ hs]) simp

lemma recorded_from: "unrecorded e e1 \<Longrightarrow> recorded e1 e' r \<Longrightarrow> recorded e e' r"
  by (simp add: unrecorded_def recorded_def split: option.splits)

lemma evaluate_finish_leaves:
  assumes "\<And>reason ns. fl_outcome f \<noteq> Pe_skip reason ns"
  shows "leaves (evaluate_finish d f dl e) (silent e) (\<lambda>r e'. silent e e' \<and> recorded e e' r)"
proof -
  have *: "at_outcome (attempt_of f dl sent) \<noteq> Pe_skip reason ns" for sent reason ns
    using assms by (simp add: attempt_of_def)
  show ?thesis
    unfolding evaluate_finish_def Let_def
    by (rule leaves_weaken [OF recordAttempt_leaves [OF *]]) (auto simp: silent_def recorded_def split: if_splits option.splits)
qed

definition sends_when_allowed :: "engine_deps \<Rightarrow> timestamp \<Rightarrow> wd_job \<Rightarrow> engine \<Rightarrow> engine \<Rightarrow> bool" where
  "sends_when_allowed d t job e e' \<longleftrightarrow> en_sent e' = en_sent e \<or>
     (\<exists>out req src. en_sent e' = en_sent e @ [(req, src)] \<and> dv_job src = wj_id job \<and> dv_members src = None \<and>
        dr_target req = pe_target out \<and> may_send d t job out e)"

lemma may_send_outcome: "may_send d t job out e \<Longrightarrow> out \<noteq> Pe_skip reason ns"
  by (auto simp: may_send_def)

lemma evaluate_rest_leaves:
  "leaves (evaluate_rest d w t in_pass job a out e2) (sends_when_allowed d t job e2)
     (\<lambda>(res, held) e'. sends_when_allowed d t job e2 e' \<and>
        (case res of None \<Rightarrow> unrecorded e2 e' | Some r \<Rightarrow> recorded e2 e' r) \<and> holds_back job e2 e' held)"
  unfolding evaluate_rest_def
proof (rule leaves_after, rule leaves_weaken [OF evaluate_decide_leaves])
  show "silent e2 e' \<Longrightarrow> sends_when_allowed d t job e2 e'" for e'
    by (simp add: silent_def sends_when_allowed_def)
  fix dec e3
  assume dec: "decided d t job out e2 dec e3"
  have fin: "leaves (after m (\<lambda>r e4. (e4, Inr (Some r, None)))) (sends_when_allowed d t job e2)
      (\<lambda>(res, held) e'. sends_when_allowed d t job e2 e' \<and> (case res of None \<Rightarrow> unrecorded e2 e' | Some r \<Rightarrow> recorded e2 e' r) \<and> holds_back job e2 e' held)"
    if "leaves m (silent e3) (\<lambda>r e'. silent e3 e' \<and> recorded e3 e' r)" "unrecorded e2 e3" "sends_when_allowed d t job e2 e3"
    for m :: "evaluation_result act"
    by (rule leaves_after, rule leaves_weaken [OF that(1)])
      (use that(2,3) in \<open>auto simp: silent_def sends_when_allowed_def holds_back_def intro: recorded_from\<close>)
  show "leaves (case dec of Concluded r \<Rightarrow> (e3, Inr (Some r, None)) | Held h \<Rightarrow> (e3, Inr (None, Some h))
      | Recovered f dl \<Rightarrow> after (recordAttempt d (attempt_of f dl None) e3) (\<lambda>r e4. (e4, Inr (Some r, None)))
      | Calls f \<Rightarrow> (case wo_deliver w (fl_request f) (fl_source f) of
            Inl x \<Rightarrow> (run_ops d (wo_duringDelivery w) e3, Inl x)
          | Inr dl \<Rightarrow> after (evaluate_finish d f dl (run_ops d (wo_duringDelivery w) e3)) (\<lambda>r e4. (e4, Inr (Some r, None)))))
     (sends_when_allowed d t job e2)
     (\<lambda>(res, held) e'. sends_when_allowed d t job e2 e' \<and> (case res of None \<Rightarrow> unrecorded e2 e' | Some r \<Rightarrow> recorded e2 e' r) \<and> holds_back job e2 e' held)"
  proof (cases dec)
    case (Recovered f dl)
    have "at_outcome (attempt_of f dl None) \<noteq> Pe_skip reason ns" for reason ns
      using dec may_send_outcome [of d t job out e2] by (auto simp: Recovered decided_def attempt_of_def)
    then show ?thesis
      unfolding Recovered delivery_decision.case
      using dec by (intro fin recordAttempt_leaves) (auto simp: Recovered decided_def silent_def sends_when_allowed_def)
  next
    case (Calls f)
    let ?e4 = "run_ops d (wo_duringDelivery w) e3"
    have sends: "sends_when_allowed d t job e2 e3" and un: "unrecorded e2 e3"
      using dec by (auto simp: Calls decided_def sends_when_allowed_def)
    have "fl_outcome f \<noteq> Pe_skip reason ns" for reason ns
      using dec may_send_outcome [of d t job out e2] by (auto simp: Calls decided_def)
    then have "leaves (evaluate_finish d f dl ?e4) (silent e3) (\<lambda>r e'. silent e3 e' \<and> recorded e3 e' r)" for dl
      by (rule leaves_weaken [OF evaluate_finish_leaves]) (auto simp: silent_def recorded_def split: option.splits)
    then show ?thesis
      using sends un unfolding Calls delivery_decision.case
      by (auto intro: fin split: sum.split) (simp add: sends_when_allowed_def)
  qed (use dec in \<open>auto simp: decided_def silent_def sends_when_allowed_def unrecorded_def holds_back_def\<close>)
qed

lemma evaluate_leaves:
  "leaves (evaluate d w t ps in_pass job e) (wake_gate d w t job e)
     (\<lambda>(res, held) e'. wake_gate d w t job e e' \<and> evaluation_recorded e e' res \<and> holds_back job e e' held)"
  unfolding evaluate_def
proof (rule leaves_after, rule leaves_weaken [OF evaluate_begin_leaves])
  show "silent e e' \<Longrightarrow> wake_gate d w t job e e'" for e'
    by (simp add: silent_def wake_gate_def)
  fix b :: "asked step_result" and e1
  assume b: "case b of Finished r \<Rightarrow> silent e e1 \<and> recorded e e1 r | Goes_on _ \<Rightarrow> bound_only d e e1"
  show "leaves (case b of Finished r \<Rightarrow> (e1, Inr (Some r, None))
     | Goes_on a \<Rightarrow> after (ask_policy d job a e1) (\<lambda>out e2.
         evaluate_rest d w t in_pass job a out (run_ops d (wo_duringPolicy w) e2)))
     (wake_gate d w t job e) (\<lambda>(res, held) e'. wake_gate d w t job e e' \<and> evaluation_recorded e e' res \<and> holds_back job e e' held)"
  proof (cases b)
    case (Finished r)
    then show ?thesis using b
      by (auto simp: wake_gate_def silent_def binding_row_def holds_back_def intro: evaluation_recordedI [of e e "[]"])
  next
    case (Goes_on a)
    then obtain hs ops where e1: "silent e e1" "en_events e1 = en_events e" "binding_row hs" "en_history e1 = en_history e @ hs"
      "en_store e1 = run_steps (deps_step d) ops (en_store e)"
      using b by (auto simp: bound_only_def)
    have ask: "\<exists>qs. fst (ask_policy d job a e1) = run_ops d qs e1"
      by (auto simp: ask_policy_def Let_def split: prod.split)
    then obtain qs where qs: "fst (ask_policy d job a e1) = run_ops d qs e1" by blast
    let ?e2 = "run_ops d (wo_duringPolicy w) (run_ops d qs e1)"
    have gate: "wake_gate d w t job e e'" if "sends_when_allowed d t job ?e2 e'" for e'
      using that e1(1,5)
      by (auto simp: sends_when_allowed_def wake_gate_def silent_def may_send_def run_steps_append [symmetric] append_assoc [symmetric]
          simp del: append_assoc)
    have held: "holds_back job e e' held" if "holds_back job ?e2 e' held" for e' held
      using that e1(1) by (auto simp: holds_back_def silent_def split: option.splits)
    have rec: "evaluation_recorded e e' res" if "case res of None \<Rightarrow> unrecorded ?e2 e' | Some r \<Rightarrow> recorded ?e2 e' r" for res e'
      unfolding evaluation_recorded_def
      by (rule exI [of _ ?e2], rule exI [of _ hs]) (use that e1 in simp)
    show ?thesis
      unfolding Goes_on step_result.case
    proof (rule leaves_after)
      show "leaves (ask_policy d job a e1) (wake_gate d w t job e)
         (\<lambda>out e2. leaves (evaluate_rest d w t in_pass job a out (run_ops d (wo_duringPolicy w) e2)) (wake_gate d w t job e)
            (\<lambda>(res, held) e'. wake_gate d w t job e e' \<and> evaluation_recorded e e' res \<and> holds_back job e e' held))"
      proof (cases "snd (ask_policy d job a e1)")
        case (Inl x)
        then show ?thesis using qs e1(1) by (simp add: leaves_def wake_gate_def silent_def)
      next
        case (Inr out)
        have "leaves (evaluate_rest d w t in_pass job a out ?e2) (wake_gate d w t job e)
            (\<lambda>(res, held) e'. wake_gate d w t job e e' \<and> evaluation_recorded e e' res \<and> holds_back job e e' held)"
          by (rule leaves_weaken [OF evaluate_rest_leaves]) (auto intro: gate rec held)
        then show ?thesis using Inr qs by (cases "ask_policy d job a e1") simp
      qed
    qed
  qed
qed

end
