(* ===== verification/Watchdog_Scheduler.thy ===== *)
theory Watchdog_Scheduler
  imports Watchdog_Wakes
begin

text \<open>
  One pass of the watchdog scheduler (\<open>packages/daemon/src/domain/watchdog-scheduler.ts\<close>) and the
  reminders it holds back (\<open>deliverHeldReminders\<close> of \<open>watchdog-policy-engine.ts\<close>): the parked-row
  reminders due for one seat go as one message at the end of the pass. The pass awaits each policy and
  each delivery, so it takes one \<open>world\<close> per await and one answer per shutdown check, both by position;
  the position and the engine are its state.
\<close>

section \<open>Held reminders\<close>

record pass_env =
  ps_world :: "nat \<Rightarrow> world"
  ps_stop :: "nat \<Rightarrow> bool"
  ps_clock :: "nat \<Rightarrow> timestamp"

type_synonym 'a pass_act = "nat \<times> 'a act"

definition seat_of :: "held_reminder \<Rightarrow> string" where
  "seat_of h = pe_target (hd_outcome h)"

text \<open>\<open>bySeat\<close>: seats in the order they first appear, each with its reminders in order.\<close>

definition by_seat :: "held_reminder list \<Rightarrow> (string \<times> held_reminder list) list" where
  "by_seat hs = map (\<lambda>s. (s, filter (\<lambda>h. seat_of h = s) hs)) (rev (remdups (rev (map seat_of hs))))"

definition held_attempt :: "held_reminder \<Rightarrow> wd_job \<Rightarrow> delivery_outcome \<Rightarrow> (string \<times> nat \<times> wake_text) option \<Rightarrow>
    wake_text option \<Rightarrow> attempt" where
  "held_attempt h snap dl digest sent =
     \<lparr>at_job = hd_job h, at_outcome = hd_outcome h, at_evaluatedAt = hd_evaluatedAt h, at_schedule = snap,
      at_delivery = dl, at_context = False, at_notice = False, at_digest = digest, at_sentMessage = sent\<rparr>"

definition call_transport ::
  "engine_deps \<Rightarrow> world \<Rightarrow> delivery_request \<Rightarrow> delivery_source \<Rightarrow> engine \<Rightarrow> delivery_outcome act" where
  "call_transport d w req src e =
     (run_ops d (wo_duringDelivery w) (e\<lparr>en_sent := en_sent e @ [(req, src)]\<rparr>), wo_deliver w req src)"

definition deliverAlone ::
  "engine_deps \<Rightarrow> world \<Rightarrow> string \<Rightarrow> held_reminder \<Rightarrow> digest_entry option \<Rightarrow> engine \<Rightarrow> unit act" where
  "deliverAlone d w seat h entry e =
     (let text = (case entry of None \<Rightarrow> Wake_plain (pe_message (hd_outcome h))
                   | Some g \<Rightarrow> withContinuationPreview (pe_message (hd_outcome h)) g);
          req = \<lparr>dr_target = seat, dr_message = text, dr_continuity = None\<rparr>
      in after (start_delivery (wj_id (hd_job h)) e) (\<lambda>snap e1.
         after (call_transport d w req (plain_source (hd_job h) (hd_occurrence h)) e1) (\<lambda>dl e2.
         after (recordAttempt d (held_attempt h snap dl None (Some text)) e2) (\<lambda>_ e3. (e3, Inr ())))))"

text \<open>The line a digest has for a row: its summary on one line, and its continuation's preview.\<close>

definition digest_line :: "digest_entry \<Rightarrow> string \<times> string option \<times> string option" where
  "digest_line g = (dg_qitem g, if truthy (dg_summary g) then dg_summary g else None,
     if blank (dg_continuation g) then None else Some (trim (the (dg_continuation g))))"

fun start_all :: "held_reminder list \<Rightarrow> engine \<Rightarrow> wd_job list act" where
  "start_all [] e = (e, Inr [])"
| "start_all (h # hs) e = after (start_delivery (wj_id (hd_job h)) e) (\<lambda>snap e1.
     after (start_all hs e1) (\<lambda>snaps e2. (e2, Inr (snap # snaps))))"

fun record_all ::
  "engine_deps \<Rightarrow> (string \<Rightarrow> delivery_outcome option) \<Rightarrow> delivery_outcome \<Rightarrow> string \<Rightarrow> nat \<Rightarrow>
    (held_reminder \<times> wd_job) list \<Rightarrow> engine \<Rightarrow> unit act" where
  "record_all d member dl did n [] e = (e, Inr ())"
| "record_all d member dl did n ((h, snap) # hs) e =
     after (recordAttempt d (held_attempt h snap (or_default (member (wj_id (hd_job h))) dl)
         (Some (did, n, (case digest_line (hd_entry h) of (q, s, c) \<Rightarrow> Wake_line q s c))) None) e)
       (\<lambda>_ e1. record_all d member dl did n hs e1)"

definition deliverDigest :: "engine_deps \<Rightarrow> world \<Rightarrow> string \<Rightarrow> held_reminder list \<Rightarrow> engine \<Rightarrow> unit act" where
  "deliverDigest d w seat digest e =
     after (start_all digest e) (\<lambda>snaps e1.
       let members = map (\<lambda>h. (wj_id (hd_job h), hd_occurrence h)) digest;
           did = ''digest-'' @ dp_hash d (map Some (sort (map snd members)));
           req = \<lparr>dr_target = seat, dr_message = Wake_digest (map (digest_line \<circ> hd_entry) digest), dr_continuity = None\<rparr>;
           src = \<lparr>dv_occurrence = did, dv_job = did, dv_policy = ''periodic-reminder'', dv_members = Some members\<rparr>
       in after (call_transport d w req src e1) (\<lambda>dl e2.
            record_all d (wo_memberOutcome w src) dl did (length digest) (zip digest snaps) e2))"

text \<open>The check before each call: which reminders are over, which may share a message, and the first that
  must go on its own.\<close>

fun sort_held :: "engine_deps \<Rightarrow> held_reminder list \<Rightarrow> engine \<Rightarrow> (held_reminder \<times> digest_entry option) list act" where
  "sort_held d [] e = (e, Inr [])"
| "sort_held d (h # hs) e =
     (case inactiveJobResult (wj_id (hd_job h)) e of
        Inl x \<Rightarrow> (e, Inl x)
      | Inr (Some _) \<Rightarrow> sort_held d hs e
      | Inr None \<Rightarrow>
          (case terminalBeforeDelivery d (hd_job h) (hd_evaluatedAt h) e of
             Some m \<Rightarrow> after m (\<lambda>_ e1. sort_held d hs e1)
           | None \<Rightarrow> after (sort_held d hs e) (\<lambda>items e1.
               (e1, Inr ((h, dp_digestEntry d (wj_id (hd_job h)) (pe_message (hd_outcome h))) # items)))))"

text \<open>The first that must go alone, with the others.\<close>

fun first_alone :: "('h \<times> 'g option) list \<Rightarrow> ('h \<times> 'h list) option" where
  "first_alone [] = None"
| "first_alone ((h, None) # items) = Some (h, map fst items)"
| "first_alone ((h, Some g) # items) = map_option (\<lambda>(a, rest). (a, h # rest)) (first_alone items)"

text \<open>The loop of one seat, with fuel: each round that does not end it delivers one reminder.\<close>

fun deliverHeldGroup ::
  "pass_env \<Rightarrow> engine_deps \<Rightarrow> string \<Rightarrow> nat \<Rightarrow> held_reminder list \<Rightarrow> nat \<Rightarrow> engine \<Rightarrow> unit pass_act" where
  "deliverHeldGroup env d seat 0 grp n e = (n, (e, Inr ()))"
| "deliverHeldGroup env d seat (Suc fuel) grp n e =
     (if ps_stop env n then (n, (e, Inr ()))
      else case sort_held d grp e of
        (e1, Inl x) \<Rightarrow> (Suc n, (e1, Inl x))
      | (e1, Inr items) \<Rightarrow>
          (case first_alone items of
             Some (h, rest) \<Rightarrow>
               (case deliverAlone d (ps_world env n) seat h None e1 of
                  (e2, Inl x) \<Rightarrow> (Suc n, (e2, Inl x))
                | (e2, Inr _) \<Rightarrow> deliverHeldGroup env d seat fuel rest (Suc n) e2)
           | None \<Rightarrow>
               (Suc n, case map (\<lambda>(h, g). h\<lparr>hd_entry := the g\<rparr>) items of
                  [] \<Rightarrow> (e1, Inr ())
                | [h] \<Rightarrow> deliverAlone d (ps_world env n) seat h (Some (hd_entry h)) e1
                | digest \<Rightarrow> deliverDigest d (ps_world env n) seat digest e1)))"

fun deliverHeldReminders ::
  "pass_env \<Rightarrow> engine_deps \<Rightarrow> (string \<times> held_reminder list) list \<Rightarrow> nat \<Rightarrow> engine \<Rightarrow> engine \<times> watchdog_error list" where
  "deliverHeldReminders env d [] n e = (e, [])"
| "deliverHeldReminders env d ((seat, grp) # seats) n e =
     (if ps_stop env n then (e, [])
      else let (n1, e1, r) = deliverHeldGroup env d seat (Suc (length grp)) grp (Suc n) e;
               (e2, errs) = deliverHeldReminders env d seats n1 e1
           in (e2, (case r of Inl x \<Rightarrow> [x] | Inr _ \<Rightarrow> []) @ errs))"

section \<open>The pass\<close>

record pass_state =
  pa_position :: nat
  pa_engine :: engine
  pa_held :: "held_reminder list"
  pa_errors :: "watchdog_error list"
  pa_stopped :: bool

text \<open>The due jobs of the snapshot, one after the other; a throw is reported and the pass goes on.\<close>

fun evaluate_due :: "pass_env \<Rightarrow> engine_deps \<Rightarrow> timestamp \<Rightarrow> wd_job list \<Rightarrow> pass_state \<Rightarrow> pass_state" where
  "evaluate_due env d start [] s = s"
| "evaluate_due env d start (job # jobs) s =
     (let n = pa_position s in
      if ps_stop env n then s\<lparr>pa_stopped := True\<rparr>
      else if \<not> isDue job start then evaluate_due env d start jobs (s\<lparr>pa_position := Suc n\<rparr>)
      else case evaluate d (ps_world env n) (ps_clock env n) (Some start) True job (pa_engine s) of
        (e1, Inl x) \<Rightarrow> evaluate_due env d start jobs
           (s\<lparr>pa_position := Suc n, pa_engine := e1, pa_errors := pa_errors s @ [x]\<rparr>)
      | (e1, Inr (_, held)) \<Rightarrow> evaluate_due env d start jobs
           (s\<lparr>pa_position := Suc n, pa_engine := e1,
              pa_held := pa_held s @ (case held of None \<Rightarrow> [] | Some h \<Rightarrow> [h])\<rparr>))"

text \<open>\<open>before\<close> is what \<open>beforeTick\<close> does to the table: the queue reconciles its waits.\<close>

definition tick ::
  "pass_env \<Rightarrow> engine_deps \<Rightarrow> timestamp \<Rightarrow> watchdog_op list \<Rightarrow> engine \<Rightarrow> engine \<times> watchdog_error list" where
  "tick env d start before e =
     (if ps_stop env 0 then (e, [])
      else let e0 = run_ops d before e;
               s = evaluate_due env d start (wd_listActive (en_store e0))
                     \<lparr>pa_position = 1, pa_engine = e0, pa_held = [], pa_errors = [], pa_stopped = False\<rparr>
           in if pa_stopped s \<or> ps_stop env (pa_position s) then (pa_engine s, pa_errors s)
              else let (e1, errs) = deliverHeldReminders env d (by_seat (pa_held s)) (Suc (pa_position s)) (pa_engine s)
                   in (e1, pa_errors s @ errs))"

section \<open>A pass wakes a job at most once\<close>

definition mentions :: "string \<Rightarrow> delivery_request \<times> delivery_source \<Rightarrow> bool" where
  "mentions i x \<longleftrightarrow> (case dv_members (snd x) of None \<Rightarrow> dv_job (snd x) = i | Some ms \<Rightarrow> i \<in> fst ` set ms)"

definition wakes_of :: "string \<Rightarrow> engine \<Rightarrow> nat" where
  "wakes_of i e = length (filter (mentions i) (en_sent e))"

definition held_ids :: "held_reminder list \<Rightarrow> string list" where
  "held_ids hs = map (\<lambda>h. wj_id (hd_job h)) hs"

lemma wakes_silent: "silent e e' \<Longrightarrow> wakes_of i e' = wakes_of i e"
  by (simp add: silent_def wakes_of_def)

text \<open>At most the wakes that mention each id as often as the list has it.\<close>

definition wakes_within :: "string list \<Rightarrow> engine \<Rightarrow> engine \<Rightarrow> bool" where
  "wakes_within ids e e' \<longleftrightarrow> (\<forall>i. wakes_of i e' \<le> wakes_of i e + count_list ids i)"

lemma wakes_within_silent: "silent e e' \<Longrightarrow> wakes_within ids e e'"
  by (simp add: wakes_within_def wakes_silent)

lemma wakes_within_then_silent: "wakes_within ids e e1 \<Longrightarrow> silent e1 e' \<Longrightarrow> wakes_within ids e e'"
  by (simp add: wakes_within_def wakes_silent)

lemma wakes_within_append: "wakes_within ids e e1 \<Longrightarrow> wakes_within ids' e1 e' \<Longrightarrow> wakes_within (ids @ ids') e e'"
  by (fastforce simp: wakes_within_def intro: order_trans)

lemma wakes_within_mono: "wakes_within ids e e' \<Longrightarrow> (\<And>i. count_list ids i \<le> count_list ids' i) \<Longrightarrow> wakes_within ids' e e'"
  unfolding wakes_within_def by (meson add_left_mono order_trans)

lemma wakes_within_weaken: "wakes_within ids e e' \<Longrightarrow> wakes_within (ids @ ids') e e'"
  by (erule wakes_within_mono) simp

lemma call_transport_leaves:
  assumes "\<And>i. mentions i (req, src) \<Longrightarrow> i \<in> set ids" and "silent e0 e"
  shows "leaves (call_transport d w req src e) (wakes_within ids e0) (\<lambda>_. wakes_within ids e0)"
proof -
  have "wakes_within ids e0 (run_ops d ops (e\<lparr>en_sent := en_sent e @ [(req, src)]\<rparr>))" for ops
    using assms by (auto simp: wakes_within_def wakes_of_def silent_def Suc_le_eq) (metis count_list_0_iff gr0I)
  then show ?thesis by (simp add: call_transport_def leaves_def split: sum.split)
qed

lemma conclude_silent: "silent e0 e \<Longrightarrow> leaves (conclude i out h dl m e) (silent e0) (\<lambda>_. silent e0)"
  by (simp add: conclude_def leaves_def split: sum.split)

lemma recordAttempt_silent: "leaves (recordAttempt d a e) (silent e) (\<lambda>_. silent e)"
proof (cases "dl_deferred (at_delivery a)")
  case True
  then show ?thesis by (simp add: recordAttempt_def Let_def conclude_silent silent_def)
next
  case False
  show ?thesis
    unfolding recordAttempt_def Let_def if_not_P [OF False]
    by (rule leaves_after, rule leaves_weaken [OF maybe_account_leaves(1)], simp add: silent_def,
        rule leaves_after, rule leaves_weaken [OF maybe_account_leaves(2)], simp add: silent_def,
        rule conclude_silent, simp add: silent_def)
qed

lemma start_delivery_silent: "leaves (start_delivery i e) (silent e) (\<lambda>_. silent e)"
  by (rule leaves_weaken [OF start_delivery_leaves]) simp_all

lemma deliverAlone_wakes:
  assumes "silent e0 e"
  shows "leaves (deliverAlone d w seat h entry e) (wakes_within [wj_id (hd_job h)] e0) (\<lambda>_. wakes_within [wj_id (hd_job h)] e0)"
  unfolding deliverAlone_def Let_def
proof (rule leaves_after, rule leaves_weaken [OF start_delivery_silent])
  show "silent e e' \<Longrightarrow> wakes_within [wj_id (hd_job h)] e0 e'" for e'
    using assms by (simp add: wakes_within_silent silent_def)
  fix snap e1
  assume "silent e e1"
  with assms have e1: "silent e0 e1" by (simp add: silent_def)
  let ?text = "case entry of None \<Rightarrow> Wake_plain (pe_message (hd_outcome h))
    | Some g \<Rightarrow> withContinuationPreview (pe_message (hd_outcome h)) g"
  show "leaves (after (call_transport d w \<lparr>dr_target = seat, dr_message = ?text, dr_continuity = None\<rparr>
        (plain_source (hd_job h) (hd_occurrence h)) e1) (\<lambda>dl e2.
      after (recordAttempt d (held_attempt h snap dl None (Some ?text)) e2) (\<lambda>_ e3. (e3, Inr ()))))
    (wakes_within [wj_id (hd_job h)] e0) (\<lambda>_. wakes_within [wj_id (hd_job h)] e0)"
    by (rule leaves_after, rule leaves_weaken [OF call_transport_leaves [OF _ e1, of _ _ "[wj_id (hd_job h)]"]])
      (auto simp: mentions_def plain_source_def intro!: leaves_after leaves_weaken [OF recordAttempt_silent]
        intro: wakes_within_then_silent)
qed

lemma start_all_silent: "leaves (start_all hs e) (silent e) (\<lambda>_. silent e)"
proof (induction hs arbitrary: e)
  case Nil
  then show ?case by (simp add: silent_def)
next
  case (Cons h hs)
  show ?case
    unfolding start_all.simps
    by (rule leaves_after, rule leaves_weaken [OF start_delivery_silent], simp,
        rule leaves_after, rule leaves_weaken [OF Cons.IH], simp_all add: silent_def)
qed

lemma record_all_silent: "leaves (record_all d member dl did n hs e) (silent e) (\<lambda>_. silent e)"
proof (induction hs arbitrary: e)
  case Nil
  then show ?case by (simp add: silent_def)
next
  case (Cons x hs)
  obtain h snap where x: "x = (h, snap)" by (rule prod.exhaust)
  show ?case
    unfolding x record_all.simps
    by (rule leaves_after, rule leaves_weaken [OF recordAttempt_silent], simp,
        rule leaves_weaken [OF Cons.IH], simp_all add: silent_def)
qed

lemma deliverDigest_wakes:
  assumes "silent e0 e"
  shows "leaves (deliverDigest d w seat digest e) (wakes_within (held_ids digest) e0) (\<lambda>_. wakes_within (held_ids digest) e0)"
  unfolding deliverDigest_def Let_def
proof (rule leaves_after, rule leaves_weaken [OF start_all_silent])
  show "silent e e' \<Longrightarrow> wakes_within (held_ids digest) e0 e'" for e'
    using assms by (simp add: wakes_within_silent silent_def)
  fix snaps e1
  assume "silent e e1"
  with assms have e1: "silent e0 e1" by (simp add: silent_def)
  show "leaves (after (call_transport d w
        \<lparr>dr_target = seat, dr_message = Wake_digest (map (digest_line \<circ> hd_entry) digest), dr_continuity = None\<rparr>
        \<lparr>dv_occurrence = ''digest-'' @ dp_hash d (map Some (sort (map snd (map (\<lambda>h. (wj_id (hd_job h), hd_occurrence h)) digest)))),
         dv_job = ''digest-'' @ dp_hash d (map Some (sort (map snd (map (\<lambda>h. (wj_id (hd_job h), hd_occurrence h)) digest)))),
         dv_policy = ''periodic-reminder'', dv_members = Some (map (\<lambda>h. (wj_id (hd_job h), hd_occurrence h)) digest)\<rparr> e1)
      (\<lambda>dl e2. record_all d (wo_memberOutcome w
         \<lparr>dv_occurrence = ''digest-'' @ dp_hash d (map Some (sort (map snd (map (\<lambda>h. (wj_id (hd_job h), hd_occurrence h)) digest)))),
          dv_job = ''digest-'' @ dp_hash d (map Some (sort (map snd (map (\<lambda>h. (wj_id (hd_job h), hd_occurrence h)) digest)))),
          dv_policy = ''periodic-reminder'', dv_members = Some (map (\<lambda>h. (wj_id (hd_job h), hd_occurrence h)) digest)\<rparr>)
        dl (''digest-'' @ dp_hash d (map Some (sort (map snd (map (\<lambda>h. (wj_id (hd_job h), hd_occurrence h)) digest)))))
        (length digest) (zip digest snaps) e2))
    (wakes_within (held_ids digest) e0) (\<lambda>_. wakes_within (held_ids digest) e0)"
    by (rule leaves_after, rule leaves_weaken [OF call_transport_leaves [OF _ e1, of _ _ "held_ids digest"]])
      (auto simp: mentions_def held_ids_def image_image intro!: leaves_weaken [OF record_all_silent] intro: wakes_within_then_silent)
qed

text \<open>Sorting sends nothing, and keeps each reminder at most once.\<close>

lemma sort_held_leaves:
  "leaves (sort_held d hs e) (silent e)
     (\<lambda>items e'. silent e e' \<and> (\<forall>i. count_list (held_ids (map fst items)) i \<le> count_list (held_ids hs) i))"
proof (induction hs arbitrary: e)
  case Nil
  then show ?case by (simp add: silent_def held_ids_def)
next
  case (Cons h hs)
  have skip: "leaves m (silent e) (\<lambda>items e'. silent e e' \<and> (\<forall>i. count_list (held_ids (map fst items)) i \<le> count_list (held_ids (h # hs)) i))"
    if "leaves m (silent e1) (\<lambda>items e'. silent e1 e' \<and> (\<forall>i. count_list (held_ids (map fst items)) i \<le> count_list (held_ids hs) i))"
      "silent e e1" for m e1
    by (rule leaves_weaken [OF that(1)]) (use that(2) in \<open>auto simp: silent_def held_ids_def intro: le_SucI\<close>)
  show ?case
  proof (cases "inactiveJobResult (wj_id (hd_job h)) e")
    case (Inl x)
    then show ?thesis by (simp add: silent_def)
  next
    case (Inr b)
    show ?thesis
    proof (cases b)
      case (Some r)
      show ?thesis
        unfolding sort_held.simps Inr Some sum.case option.case by (rule skip [OF Cons.IH]) (simp add: silent_def)
    next
      case active: None
      from terminalBeforeDelivery_cases [of d "hd_job h" "hd_evaluatedAt h" e]
      consider "terminalBeforeDelivery d (hd_job h) (hd_evaluatedAt h) e = None"
        | reason where "terminalBeforeDelivery d (hd_job h) (hd_evaluatedAt h) e = Some (end_job (hd_job h) (hd_evaluatedAt h) reason None e)"
        by auto
      then show ?thesis
      proof cases
        case 1
        show ?thesis
          unfolding sort_held.simps Inr active 1 sum.case option.case
          by (rule leaves_after, rule leaves_weaken [OF Cons.IH]) (auto simp: silent_def held_ids_def)
      next
        case (2 reason)
        show ?thesis
          unfolding sort_held.simps Inr active 2 sum.case option.case
          by (rule leaves_after, rule leaves_weaken [OF end_job_leaves]) (auto intro: skip [OF Cons.IH])
      qed
    qed
  qed
qed

lemma first_alone_ids:
  "first_alone items = Some (h, rest) \<Longrightarrow>
     count_list (held_ids (map fst items)) i = count_list (held_ids (h # rest)) i"
  by (induction items arbitrary: rest rule: first_alone.induct) (auto simp: held_ids_def)

lemma deliverHeldGroup_wakes:
  "deliverHeldGroup env d seat fuel grp n e = (n', (e', r)) \<Longrightarrow> wakes_within (held_ids grp) e e'"
proof (induction fuel arbitrary: grp n e)
  case 0
  then show ?case by (simp add: wakes_within_silent silent_def)
next
  case (Suc fuel)
  obtain e1 q where sorted: "sort_held d grp e = (e1, q)" by (rule prod.exhaust)
  show ?case
  proof (cases "ps_stop env n")
    case True
    then show ?thesis using Suc.prems by (simp add: wakes_within_silent silent_def)
  next
    case run: False
    show ?thesis
    proof (cases q)
      case (Inl x)
      then have "silent e e1" using sort_held_leaves [of d grp e] sorted by simp
      then show ?thesis using Suc.prems run sorted Inl by (simp add: wakes_within_silent)
    next
      case (Inr items)
      have quiet: "silent e e1" and le: "\<And>i. count_list (held_ids (map fst items)) i \<le> count_list (held_ids grp) i"
        using sort_held_leaves [of d grp e] sorted Inr by simp_all
      note body = Suc.prems [unfolded deliverHeldGroup.simps if_not_P [OF run] sorted Inr prod.case sum.case]
      show ?thesis
      proof (cases "first_alone items")
        case (Some p)
        obtain h rest where p: "p = (h, rest)" by (rule prod.exhaust)
        obtain e2 q2 where alone: "deliverAlone d (ps_world env n) seat h None e1 = (e2, q2)" by (rule prod.exhaust)
        have w1: "wakes_within [wj_id (hd_job h)] e e2"
          using deliverAlone_wakes [OF quiet, of d "ps_world env n" seat h None] alone by (cases q2) simp_all
        have w2: "wakes_within (held_ids rest) e2 e'"
        proof (cases q2)
          case (Inl x)
          then show ?thesis using body Some p alone by (simp add: wakes_within_silent silent_def)
        next
          case (Inr u)
          then show ?thesis using body Some p alone by (intro Suc.IH) simp
        qed
        have "count_list ([wj_id (hd_job h)] @ held_ids rest) i \<le> count_list (held_ids grp) i" for i
          using le [of i] first_alone_ids [OF Some [unfolded p], of i] by (simp add: held_ids_def)
        then show ?thesis by (rule wakes_within_mono [OF wakes_within_append [OF w1 w2]])
      next
        case None
        let ?digest = "map (\<lambda>(h, g). h\<lparr>hd_entry := the g\<rparr>) items"
        have ids: "held_ids ?digest = held_ids (map fst items)" by (induction items) (auto simp: held_ids_def)
        have "wakes_within (held_ids ?digest) e e'"
        proof (cases ?digest)
          case Nil
          then show ?thesis using body None quiet by (simp add: wakes_within_silent)
        next
          case (Cons h hs)
          show ?thesis
          proof (cases hs)
            case Nil
            with Cons have one: "deliverAlone d (ps_world env n) seat h (Some (hd_entry h)) e1 = (e', r)"
              using body None by simp
            show ?thesis
              using deliverAlone_wakes [OF quiet, of d "ps_world env n" seat h "Some (hd_entry h)"] one Cons Nil
              by (cases r) (simp_all add: held_ids_def)
          next
            case (Cons h' hs')
            with \<open>?digest = h # hs\<close> have many: "deliverDigest d (ps_world env n) seat ?digest e1 = (e', r)"
              using body None by simp
            show ?thesis
              using deliverDigest_wakes [OF quiet, of d "ps_world env n" seat ?digest] many by (cases r) simp_all
          qed
        qed
        then show ?thesis using le unfolding ids by (rule wakes_within_mono)
      qed
    qed
  qed
qed

text \<open>The seats' groups are the held reminders, each once.\<close>

lemma count_by_seat: "count_list (concat (map (\<lambda>(s, g). held_ids g) (by_seat hs))) i = count_list (held_ids hs) i"
proof -
  have part: "count_list (concat (map (\<lambda>s. held_ids (filter (\<lambda>h. seat_of h = s) hs)) ss)) i = count_list (held_ids (filter (\<lambda>h. seat_of h \<in> set ss) hs)) i"
    if "distinct ss" for ss
    using that
  proof (induction ss)
    case Nil
    then show ?case by (simp add: held_ids_def)
  next
    case (Cons s ss)
    have "count_list (held_ids (filter (\<lambda>h. seat_of h \<in> set (s # ss)) hs)) i =
        count_list (held_ids (filter (\<lambda>h. seat_of h = s) hs)) i + count_list (held_ids (filter (\<lambda>h. seat_of h \<in> set ss) hs)) i"
      using Cons.prems by (induction hs) (auto simp: held_ids_def)
    then show ?case using Cons by simp
  qed
  have "filter (\<lambda>h. seat_of h \<in> seat_of ` set hs) hs = hs" by simp
  then show ?thesis
    using part [of "rev (remdups (rev (map seat_of hs)))"] by (simp add: by_seat_def comp_def)
qed

lemma deliverHeldReminders_wakes:
  "wakes_within (concat (map (\<lambda>(s, g). held_ids g) seats)) e (fst (deliverHeldReminders env d seats n e))"
proof (induction seats arbitrary: n e)
  case Nil
  then show ?case by (simp add: wakes_within_silent silent_def)
next
  case (Cons x seats)
  obtain seat grp where x: "x = (seat, grp)" by (rule prod.exhaust)
  obtain n1 e1 r where g: "deliverHeldGroup env d seat (Suc (length grp)) grp (Suc n) e = (n1, (e1, r))"
    by (rule prod_cases3)
  show ?case
    using wakes_within_append [OF deliverHeldGroup_wakes [OF g] Cons.IH [of e1 n1]]
    by (auto simp: x g wakes_within_silent silent_def simp del: deliverHeldGroup.simps split: prod.split)
qed

text \<open>Over the due jobs: what went out and what is held never exceed one per job of the list.\<close>

definition pass_bound :: "string list \<Rightarrow> pass_state \<Rightarrow> pass_state \<Rightarrow> bool" where
  "pass_bound ids s t \<longleftrightarrow> (\<forall>i. wakes_of i (pa_engine t) + count_list (held_ids (pa_held t)) i
      \<le> wakes_of i (pa_engine s) + count_list (held_ids (pa_held s)) i + count_list ids i)"

lemma evaluate_wakes:
  assumes "evaluate d w t ps in_pass job e = (e', r)"
  shows "wakes_within [wj_id job] e e' \<and> (\<forall>res held. r = Inr (res, Some held) \<longrightarrow> silent e e' \<and> hd_job held = job)"
proof -
  have gate: "wake_gate d w t job e e' \<Longrightarrow> wakes_within [wj_id job] e e'"
    by (auto simp: wake_gate_def wakes_within_def wakes_of_def mentions_def)
  show ?thesis
    using evaluate_leaves [of d w t ps in_pass job e] assms gate
    by (cases r) (auto simp: holds_back_def split: prod.splits)
qed

lemma evaluate_due_bound: "pass_bound (map wj_id jobs) s (evaluate_due env d start jobs s)"
proof (induction jobs arbitrary: s)
  case Nil
  then show ?case by (simp add: pass_bound_def)
next
  case (Cons job jobs)
  have step: "pass_bound (map wj_id (job # jobs)) s (evaluate_due env d start jobs t)"
    if "\<And>i. wakes_of i (pa_engine t) + count_list (held_ids (pa_held t)) i
        \<le> wakes_of i (pa_engine s) + count_list (held_ids (pa_held s)) i + count_list [wj_id job] i" for t
    unfolding pass_bound_def
  proof
    fix i
    show "wakes_of i (pa_engine (evaluate_due env d start jobs t)) + count_list (held_ids (pa_held (evaluate_due env d start jobs t))) i
        \<le> wakes_of i (pa_engine s) + count_list (held_ids (pa_held s)) i + count_list (map wj_id (job # jobs)) i"
      using that [of i] Cons.IH [of t] unfolding pass_bound_def by (fastforce dest: spec [of _ i])
  qed
  let ?n = "pa_position s"
  obtain e1 r where ev: "evaluate d (ps_world env ?n) (ps_clock env ?n) (Some start) True job (pa_engine s) = (e1, r)"
    by (rule prod.exhaust)
  have w: "wakes_of i e1 \<le> wakes_of i (pa_engine s) + count_list [wj_id job] i" for i
    using evaluate_wakes [OF ev] by (simp add: wakes_within_def)
  show ?case
  proof (cases "ps_stop env ?n \<or> \<not> isDue job start")
    case True
    then show ?thesis
      using step [of "s\<lparr>pa_position := Suc ?n\<rparr>"] by (auto simp: pass_bound_def Let_def)
  next
    case False
    show ?thesis
    proof (cases r)
      case (Inl x)
      have "pass_bound (map wj_id (job # jobs)) s (evaluate_due env d start jobs
           (s\<lparr>pa_position := Suc ?n, pa_engine := e1, pa_errors := pa_errors s @ [x]\<rparr>))"
        by (rule step) (use w in simp)
      then show ?thesis using False ev Inl by (simp add: Let_def)
    next
      case (Inr p)
      obtain res held where p: "p = (res, held)" by (rule prod.exhaust)
      have h: "wakes_of i e1 + (case held of None \<Rightarrow> 0 | Some h \<Rightarrow> count_list [wj_id (hd_job h)] i)
          \<le> wakes_of i (pa_engine s) + count_list [wj_id job] i" for i
        using w [of i] evaluate_wakes [OF ev] Inr p by (auto simp: wakes_silent split: option.split)
      have "pass_bound (map wj_id (job # jobs)) s (evaluate_due env d start jobs
           (s\<lparr>pa_position := Suc ?n, pa_engine := e1, pa_held := pa_held s @ (case held of None \<Rightarrow> [] | Some h \<Rightarrow> [h])\<rparr>))"
      proof (rule step)
        fix i
        show "wakes_of i (pa_engine (s\<lparr>pa_position := Suc ?n, pa_engine := e1, pa_held := pa_held s @ (case held of None \<Rightarrow> [] | Some h \<Rightarrow> [h])\<rparr>))
            + count_list (held_ids (pa_held (s\<lparr>pa_position := Suc ?n, pa_engine := e1, pa_held := pa_held s @ (case held of None \<Rightarrow> [] | Some h \<Rightarrow> [h])\<rparr>))) i
          \<le> wakes_of i (pa_engine s) + count_list (held_ids (pa_held s)) i + count_list [wj_id job] i"
          using h [of i] by (cases held) (simp_all add: held_ids_def)
      qed
      then show ?thesis using False ev Inr p by (simp add: Let_def)
    qed
  qed
qed

lemma tick_wakes:
  "wakes_within (map wj_id (wd_listActive (en_store (run_ops d before e)))) e (fst (tick env d start before e))"
proof (cases "ps_stop env 0")
  case True
  then show ?thesis by (simp add: tick_def wakes_within_silent silent_def)
next
  case False
  let ?e0 = "run_ops d before e"
  let ?s0 = "\<lparr>pa_position = 1, pa_engine = ?e0, pa_held = [], pa_errors = [], pa_stopped = False\<rparr>"
  let ?ids = "map wj_id (wd_listActive (en_store ?e0))"
  define s where "s = evaluate_due env d start (wd_listActive (en_store ?e0)) ?s0"
  have b: "wakes_of i (pa_engine s) + count_list (held_ids (pa_held s)) i \<le> wakes_of i e + count_list ?ids i" for i
    using evaluate_due_bound [of "wd_listActive (en_store ?e0)" ?s0 env d start] unfolding pass_bound_def s_def [symmetric]
    by (auto simp: held_ids_def wakes_of_def dest: spec [of _ i])
  have h: "wakes_of i (fst (deliverHeldReminders env d (by_seat (pa_held s)) k (pa_engine s)))
      \<le> wakes_of i (pa_engine s) + count_list (held_ids (pa_held s)) i" for i k
    using deliverHeldReminders_wakes [of "by_seat (pa_held s)" "pa_engine s" env d k]
    by (simp add: wakes_within_def count_by_seat)
  have eq: "fst (tick env d start before e) =
      (if pa_stopped s \<or> ps_stop env (pa_position s) then pa_engine s
       else fst (deliverHeldReminders env d (by_seat (pa_held s)) (Suc (pa_position s)) (pa_engine s)))"
    using False by (simp add: tick_def Let_def s_def split: prod.split)
  show ?thesis
    unfolding wakes_within_def eq using b h by (auto intro: order_trans add_leD1)
qed

end
