(* ===== verification/Watchdog_Properties.thy ===== *)
theory Watchdog_Properties
  imports Watchdog_Scheduler
begin

text \<open>
  What the watchdog as a whole guarantees, over its table (\<open>Watchdog_Machine\<close>), one evaluation
  (\<open>Watchdog_Wakes\<close>) and one scheduler pass (\<open>Watchdog_Scheduler\<close>); and the queue's view of the job
  table, whose operations are these ones.
\<close>

section \<open>Stopping\<close>

lemma state_stays_inactive:
  assumes "watchdog_inv s" and "wd_getById s i = Some j" and "wj_state j \<noteq> Wd_active"
  shows "\<not> job_active (run_steps (watchdog_step occ lib) ops s) i"
proof -
  let ?t = "run_steps (watchdog_step occ lib) ops s"
  obtain k where k: "wd_getById ?t i = Some k" "job_follows j k"
    using watchdog_run_follows [OF assms(1), of occ lib ops] assms(2) by (auto simp: store_follows_def)
  have "job_ok j" using assms(1,2) by (rule wd_getById_ok)
  then have "0 < state_rank (wj_state j)" using assms(3) by (auto simp: job_ok_def state_rank_def)
  moreover have "state_rank (wj_state j) \<le> state_rank (wj_state k)" using k(2) by (simp only: job_follows_def)
  ultimately show ?thesis using k(1) by (auto simp: job_active_def state_rank_def)
qed

definition retires :: "string \<Rightarrow> watchdog_op \<Rightarrow> bool" where
  "retires i op \<longleftrightarrow> (\<exists>reason. op = Do_stop i reason \<or> op = Do_markTerminal i reason)"

lemma retire_step:
  assumes "wd_getById s i = Some j" and "retires i op"
  shows "\<exists>k. wd_getById (attempt_step (watchdog_step occ lib) op s) i = Some k \<and> wj_state k \<noteq> Wd_active"
  using assms
  by (auto simp: retires_def attempt_step_def wd_stop_def wd_getByIdOrThrow_def wd_markTerminal_def wd_getById_row Let_def
      split: sum.splits if_splits)

lemma retired_never_active:
  assumes "watchdog_inv s" and "wd_getById s i = Some j" and "op \<in> set ops" and "retires i op"
  shows "\<not> job_active (run_steps (watchdog_step occ lib) ops s) i"
proof -
  obtain xs ys where ops: "ops = xs @ op # ys" using assms(3) by (metis split_list)
  let ?u = "run_steps (watchdog_step occ lib) xs s"
  have inv: "watchdog_inv ?u" using assms(1) by (rule watchdog.run_keeps)
  obtain k where "wd_getById ?u i = Some k"
    using watchdog_run_follows [OF assms(1), of occ lib xs] assms(2) by (auto simp: store_follows_def)
  from retire_step [OF this assms(4)] obtain l
    where "wd_getById (attempt_step (watchdog_step occ lib) op ?u) i = Some l" "wj_state l \<noteq> Wd_active" by blast
  then have "\<not> job_active (run_steps (watchdog_step occ lib) ys (attempt_step (watchdog_step occ lib) op ?u)) i"
    by (rule state_stays_inactive [OF watchdog.attempt_keeps [OF inv]])
  then show ?thesis by (simp add: ops run_steps_append run_steps_simps)
qed


text \<open>C29: An evaluation that returns records exactly what it reports: a meaningful result has one history row
  (the one returned) and one event, any other result and a reminder held back have none, a quiet skip is never
  meaningful, and beyond that only one row for a freshly bound transcript can be written.\<close>

theorem watchdog_evaluation_recorded:
  assumes "evaluate d w t ps in_pass job e = (e', Inr (res, held))"
  shows "evaluation_recorded e e' res \<and> holds_back job e e' held"
  using evaluate_leaves [of d w t ps in_pass job e] assms by simp

lemma count_distinct: "distinct xs \<Longrightarrow> count_list xs i \<le> 1"
  by (induction xs) (auto simp: count_notin)

text \<open>C10: One scheduler pass wakes a job at most once, alone or in a digest: starting from a healthy table, the
  messages a pass sends mention each job id at most once, whatever the policies and the transport answer and whatever
  other operations run in between.\<close>

theorem watchdog_pass_wakes_once:
  assumes "watchdog_inv (en_store e)"
  shows "wakes_of i (fst (tick env d start before e)) \<le> wakes_of i e + 1"
proof -
  let ?s = "en_store (run_ops d before e)"
  have "watchdog_inv ?s" using watchdog.run_keeps [OF assms] by simp
  then have "distinct (map wj_id (wd_listActive ?s))"
    unfolding wd_listActive_def watchdog_inv_def by (simp add: distinct_map inj_on_def)
  then have "count_list (map wj_id (wd_listActive ?s)) i \<le> 1" by (rule count_distinct)
  then show ?thesis
    using tick_wakes [of d before e env start] unfolding wakes_within_def by (meson add_left_mono order_trans)
qed

section \<open>The loop of one seat\<close>

lemma sort_held_length: "leaves (sort_held d hs e) (\<lambda>_. True) (\<lambda>items _. length items \<le> length hs)"
proof (induction hs arbitrary: e)
  case Nil
  then show ?case by simp
next
  case (Cons h hs)
  have *: "leaves (sort_held d hs e1) (\<lambda>_. True) (\<lambda>items _. length items \<le> Suc (length hs))" for e1
    by (rule leaves_weaken [OF Cons.IH]) auto
  have **: "leaves (after m (\<lambda>_ e1. sort_held d hs e1)) (\<lambda>_. True) (\<lambda>items _. length items \<le> Suc (length hs))"
    for m :: "evaluation_result act"
    by (cases m; cases "snd m") (use * in auto)
  have "leaves (after (sort_held d hs e) (\<lambda>items e1. (e1, Inr ((h, g) # items)))) (\<lambda>_. True)
      (\<lambda>items _. length items \<le> Suc (length hs))" for g
    by (rule leaves_after, rule leaves_weaken [OF Cons.IH]) auto
  then show ?case
    unfolding sort_held.simps by (auto intro: * ** split: sum.split option.split)
qed

lemma first_alone_length: "first_alone items = Some (h, rest) \<Longrightarrow> length items = Suc (length rest)"
  by (induction items arbitrary: rest rule: first_alone.induct) auto

text \<open>C33: The loop that delivers one seat's held reminders ends: more rounds than the seat has reminders never
  change what it does, so the fuel the pass gives it (one round more) never runs out.\<close>

theorem watchdog_seat_loop_ends:
  assumes "length grp < fuel"
  shows "deliverHeldGroup env d seat fuel grp n e = deliverHeldGroup env d seat (Suc (length grp)) grp n e"
proof -
  have "deliverHeldGroup env d seat f grp n e = deliverHeldGroup env d seat g grp n e"
    if "length grp < f" "length grp < g" for f g
    using that
  proof (induction f arbitrary: g grp n e)
    case 0
    then show ?case by simp
  next
    case (Suc f)
    obtain g' where g: "g = Suc g'" using Suc.prems(2) by (cases g) auto
    obtain e1 q where sorted: "sort_held d grp e = (e1, q)" by (rule prod.exhaust)
    show ?case
    proof (cases q)
      case (Inl x)
      then show ?thesis by (simp add: g sorted)
    next
      case (Inr items)
      show ?thesis
      proof (cases "first_alone items")
        case None
        then show ?thesis by (simp add: g sorted Inr)
      next
        case (Some p)
        obtain h rest where p: "p = (h, rest)" by (rule prod.exhaust)
        have "length items \<le> length grp" using sort_held_length [of d grp e] sorted Inr by simp
        then have "deliverHeldGroup env d seat f rest m e2 = deliverHeldGroup env d seat g' rest m e2" for m e2
          using first_alone_length [OF Some [unfolded p]] Suc.prems by (intro Suc.IH) (simp_all add: g)
        then show ?thesis by (simp add: g sorted Inr Some p)
      qed
    qed
  qed
  from this [OF assms, of "Suc (length grp)"] show ?thesis by simp
qed

section \<open>A delivery that lost its job\<close>

text \<open>What accounting leaves of a row: its schedule, its due boundary and whether it runs.\<close>

definition same_schedule :: "wd_job \<Rightarrow> wd_job \<Rightarrow> bool" where
  "same_schedule j k \<longleftrightarrow> wj_spec k = wj_spec j \<and> wj_interval k = wj_interval j \<and>
     wj_lastEvaluation k = wj_lastEvaluation j \<and> wj_state k = wj_state j"

definition lost :: "attempt \<Rightarrow> engine \<Rightarrow> wd_job \<Rightarrow> bool" where
  "lost a e j \<longleftrightarrow> wd_getById (en_store e) (wj_id (at_job a)) = Some j \<and>
     (wj_state j \<noteq> Wd_active \<or> \<not> scheduleUnchanged (en_store e) j (wd_schedule (at_schedule a)))"

text \<open>Writes that touch neither the schedules nor the state keep a delivery lost.\<close>

definition keeps_lost :: "attempt \<Rightarrow> (engine \<Rightarrow> engine) \<Rightarrow> bool" where
  "keeps_lost a f \<longleftrightarrow> (\<forall>e j. lost a e j \<longrightarrow> (\<exists>k. lost a (f e) k \<and> same_schedule j k))"

lemma scheduleUnchanged_cong:
  "wr_updatedFrom t = wr_updatedFrom s \<Longrightarrow> wj_id k = wj_id j \<Longrightarrow> wd_schedule k = wd_schedule j \<Longrightarrow>
     scheduleUnchanged t k x = scheduleUnchanged s j x"
  by (simp add: scheduleUnchanged_def replaced_of_def)

lemma keeps_lost_row:
  assumes "\<And>j. wj_id (f j) = wj_id j" and "\<And>j. same_schedule j (f j)"
  shows "keeps_lost a (on_store (wd_row i f))"
  unfolding keeps_lost_def
proof (intro allI impI)
  fix e j assume l: "lost a e j"
  let ?s = "wd_row i f (en_store e)"
  let ?x = "wd_schedule (at_schedule a)"
  have "scheduleUnchanged ?s (f j) ?x = scheduleUnchanged (en_store e) j ?x"
    by (rule scheduleUnchanged_cong) (use assms [of j] in \<open>simp_all add: same_schedule_def wd_schedule_def\<close>)
  moreover have "scheduleUnchanged ?s j ?x = scheduleUnchanged (en_store e) j ?x"
    by (rule scheduleUnchanged_cong) simp_all
  ultimately show "\<exists>k. lost a (on_store (wd_row i f) e) k \<and> same_schedule j k"
    using l assms by (auto simp: lost_def wd_getById_row same_schedule_def)
qed

lemma keeps_lost_id: "keeps_lost a (\<lambda>e. e)" "keeps_lost a id"
  by (auto simp: keeps_lost_def same_schedule_def)

lemma keeps_lost_frames: "keeps_lost a (record_history h)" "keeps_lost a (emit_event v)"
  by (auto simp: keeps_lost_def lost_def same_schedule_def)

lemma lost_account:
  assumes "lost a e j" and "\<not> at_notice a"
  shows "\<exists>k. lost a (account_evaluation a e) k \<and> same_schedule j k"
proof (cases "at_context a \<or> retryPending (at_delivery a)")
  case True
  then show ?thesis using assms by (auto simp: account_evaluation_def same_schedule_def)
next
  case False
  have "recordEvaluation (wj_id (at_job a)) t True (Some (at_schedule a)) (en_store e) =
      wd_row (wj_id (at_job a)) (\<lambda>j. j\<lparr>wj_lastFire := Some t\<rparr>) (en_store e)" for t
    using assms(1) by (auto simp: recordEvaluation_def Let_def lost_def)
  then have "account_evaluation a e = on_store (wd_row (wj_id (at_job a)) (\<lambda>j. j\<lparr>wj_lastFire := Some (at_evaluatedAt a)\<rparr>)) e"
    using False assms(2) by (simp add: account_evaluation_def on_store_def)
  moreover have "keeps_lost a (on_store (wd_row (wj_id (at_job a)) (\<lambda>j. j\<lparr>wj_lastFire := Some (at_evaluatedAt a)\<rparr>)))"
    by (rule keeps_lost_row) (simp_all add: same_schedule_def)
  ultimately show ?thesis using assms(1) by (auto simp: keeps_lost_def)
qed

lemma keeps_lost_marks: "keeps_lost a (bank_receipt a)" "keeps_lost a (mark_actionable a)"
  by (auto simp: bank_receipt_def mark_actionable_def setActionable_def recordConditionReceipt_def same_schedule_def
      intro!: keeps_lost_row keeps_lost_id split: option.split)

text \<open>The queue hears nothing of it, and unless the transport ended the job its row is left alone.\<close>

lemma lost_accountWake:
  assumes "lost a e j"
  shows "accountWake d a e =
    (if truthy (dl_terminalReason (at_delivery a))
     then on_store (wd_markTerminal (wj_id (at_job a)) (the (dl_terminalReason (at_delivery a)))) e else e, Inr ())"
  using assms by (auto simp: accountWake_def lost_def wd_getByIdOrThrow_def Let_def)

lemma lost_step: "keeps_lost a f \<Longrightarrow> lost a e j \<Longrightarrow> same_schedule i j \<Longrightarrow> \<exists>k. lost a (f e) k \<and> same_schedule i k"
  unfolding keeps_lost_def same_schedule_def by metis

text \<open>A delivery whose job was stopped or rescheduled while it was in flight does not move that job: its
  attempt is recorded, but the schedule, the due boundary and the state it finds stay as they are, and the queue's
  wake hook is not called (any other hook gives the same result).\<close>

theorem watchdog_lost_delivery:
  assumes "lost a e j" and "\<not> at_notice a" and "\<not> truthy (dl_terminalReason (at_delivery a))"
  shows "(\<exists>k. wd_getById (en_store (fst (recordAttempt d a e))) (wj_id (at_job a)) = Some k \<and> same_schedule j k) \<and>
    recordAttempt (d\<lparr>dp_onWakeAttempt := hook\<rparr>) a e = recordAttempt d a e"
proof (cases "dl_deferred (at_delivery a)")
  case True
  then show ?thesis
    using assms(1) by (auto simp: recordAttempt_def Let_def lost_def same_schedule_def deliveryAccounted_def wd_getById_def)
next
  case False
  let ?i = "wj_id (at_job a)"
  let ?e1 = "account_evaluation a (record_history (attempt_history a) e)"
  let ?e3 = "emit_event (Evaluation_fired ?i (wj_policy (at_job a)) (pe_target (at_outcome a)) (dl_status (at_delivery a)))
    (mark_actionable a (bank_receipt a ?e1))"
  have "lost a (record_history (attempt_history a) e) j" using assms(1) by (simp add: lost_def)
  then obtain k1 where k1: "lost a ?e1 k1" "same_schedule j k1" using lost_account assms(2) by blast
  then obtain k2 where k2: "lost a (bank_receipt a ?e1) k2" "same_schedule j k2"
    using lost_step [OF keeps_lost_marks(1)] by blast
  then obtain k3 where k3: "lost a (mark_actionable a (bank_receipt a ?e1)) k3" "same_schedule j k3"
    using lost_step [OF keeps_lost_marks(2)] by blast
  then have k4: "lost a ?e3 k3" by (simp add: lost_def)
  have "recordAttempt g a e = conclude ?i (at_outcome a) (Some (attempt_history a)) (Some (at_delivery a)) True
      (on_store (deliveryAccounted ?i) ?e3)" for g
    using False assms(3) lost_accountWake [OF k1(1), of g] lost_accountWake [OF k4, of g]
    by (simp add: recordAttempt_def Let_def)
  then show ?thesis
    using k4 k3(2) by (auto simp: lost_def deliveryAccounted_def wd_getById_def)
qed

end
