(* ===== verification/Watchdog_View.thy ===== *)
theory Watchdog_View
  imports Watchdog_Machine
begin

text \<open>
  The queue's view of the watchdog's job table. The queue (\<open>queue-repository.ts\<close>,
  \<open>queue-wait-backoff.ts\<close>) arms, reschedules and ends jobs through the repository; its model
  (\<open>Queue_Wakes\<close>) keeps the columns it reads. The view of a row drops the other columns, and every
  queue operation on jobs is the view of the repository's own.
\<close>

definition state_view :: "watchdog_state \<Rightarrow> job_state" where
  "state_view st = (case st of Wd_active \<Rightarrow> Job_active | Wd_terminal \<Rightarrow> Job_terminal | _ \<Rightarrow> Job_stopped)"

definition job_view :: "wd_job \<Rightarrow> watchdog_job" where
  "job_view j = \<lparr>j_id = wj_id j, j_policy = wj_policy j, j_spec = wj_spec j, j_target = wj_target j,
     j_interval = wj_interval j, j_lastEvaluation = wj_lastEvaluation j, j_state = state_view (wj_state j),
     j_registeredBy = wj_registeredBy j, j_registeredAt = wj_registeredAt j,
     j_terminalReason = wj_terminalReason j, j_generation = wj_generation j\<rparr>"

definition queue_view :: "watchdog_store \<Rightarrow> watchdog_job list" where
  "queue_view s = map job_view (wr_jobs s)"

lemma state_view_active [simp]: "state_view st = Job_active \<longleftrightarrow> st = Wd_active"
  by (cases st) (simp_all add: state_view_def)

lemma job_view_id [simp]: "j_id (job_view j) = wj_id j"
  by (simp add: job_view_def)

lemma queue_view_get: "row_get j_id i (queue_view s) = map_option job_view (wd_getById s i)"
proof -
  have "row_get j_id i (map job_view js) = map_option job_view (row_get wj_id i js)" for js
    by (induction js) (simp_all add: row_get_def)
  then show ?thesis by (simp add: wd_getById_def queue_view_def)
qed

lemma queue_view_row:
  assumes "\<And>j. wj_id j = i \<Longrightarrow> g (job_view j) = job_view (f j)"
  shows "row_set (\<lambda>j. j_id j = i) g (queue_view s) = queue_view (wd_row i f s)"
  by (simp add: queue_view_def wd_row_def row_set_def assms)

lemma queue_view_row_forget: "queue_view (wd_row i f (forget_replaced k s)) = queue_view (wd_row i f s)"
  by (simp add: queue_view_def wd_row_def forget_replaced_def)

lemma queue_view_memory [simp]:
  "queue_view (forget_replaced i s) = queue_view s" "queue_view (releaseStoppedSchedules ids s) = queue_view s"
  by (simp_all add: queue_view_def forget_replaced_def releaseStoppedSchedules_def)

text \<open>What a park registers.\<close>

definition reminder_input :: "job_spec \<Rightarrow> string \<Rightarrow> int \<Rightarrow> string \<Rightarrow> register_input" where
  "reminder_input spec target interval actor =
     \<lparr>ri_policy = ''periodic-reminder'', ri_spec = spec, ri_target = target, ri_interval = Finite (of_int interval),
      ri_activeWake = None, ri_scan = None, ri_registeredBy = actor, ri_targetGeneration = None,
      ri_watchedFile = None, ri_thresholdBytes = None, ri_thresholdTokens = None, ri_thresholdPercent = None,
      ri_requires = None\<rparr>"

lemma reminder_guards:
  "register_guards (reminder_input spec target interval actor) s =
     (if interval \<le> 0 then Inl Interval_invalid
      else if target = [] \<or> CHR ''@'' \<notin> set target then Inl Target_session_invalid else Inr ())"
  by (simp add: register_guards_def reminder_input_def validateCadences_def js_integer_def WATCHDOG_POLICIES_def Let_def)

lemma reminder_registered:
  assumes "wd_register occ now fresh (reminder_input spec target interval actor) s = Inr (t, j)"
  shows "queue_view (recordEvaluation fresh now False None t) = queue_view s @
    [\<lparr>j_id = fresh, j_policy = ''periodic-reminder'', j_spec = spec, j_target = target, j_interval = interval,
      j_lastEvaluation = Some now, j_state = Job_active, j_registeredBy = actor, j_registeredAt = now,
      j_terminalReason = None, j_generation = occ actor\<rparr>]"
proof -
  let ?new = "new_job occ now fresh (reminder_input spec target interval actor)"
  have t: "wr_jobs t = wr_jobs s @ [?new]" and fresh: "fresh \<notin> wj_id ` set (wr_jobs s)"
    using assms by (auto simp: wd_register_def effect_simps row_insert_Some new_job_def Let_def split: option.splits)
  have "row_set (\<lambda>j. wj_id j = fresh) f (wr_jobs s) = wr_jobs s" for f
    by (rule row_set_other) (use fresh in auto)
  then have "wr_jobs (recordEvaluation fresh now False None t) = wr_jobs s @ [?new\<lparr>wj_lastEvaluation := Some now\<rparr>]"
    by (simp add: recordEvaluation_def wd_row_def forget_replaced_def t row_set_def new_job_def Let_def)
  then show ?thesis
    by (simp add: queue_view_def job_view_def new_job_def reminder_input_def js_integer_def state_view_def Let_def)
qed


end
