(* ===== verification/Watchdog_Witnesses.thy ===== *)
theory Watchdog_Witnesses
  imports Watchdog_Properties Watchdog_View
begin

text \<open>
  The watchdog's properties at concrete inputs: a table with one park reminder, its delivery in flight,
  an evaluation that is stopped while its policy is awaited, and a scheduler pass.
\<close>

section \<open>The table\<close>

definition demo_yaml :: yaml_library where
  "demo_yaml = \<lparr>y_parse = (\<lambda>_. None), y_setMessage = (\<lambda>_ _. None)\<rparr>"

abbreviation demo_job_step :: "watchdog_op \<Rightarrow> watchdog_store \<Rightarrow> watchdog_error + watchdog_store" where
  "demo_job_step \<equiv> watchdog_step (\<lambda>_. None) demo_yaml"

definition demo_input :: register_input where
  "demo_input = reminder_input (Reminder_spec ''a@r'' ''go'') ''a@r'' 60 ''op@r''"

definition demo_job :: wd_job where
  "demo_job = new_job (\<lambda>_. None) 1000 ''J1'' demo_input"

definition demo_table :: watchdog_store where
  "demo_table = run_steps demo_job_step [Do_register 1000 ''J1'' demo_input] empty_watchdog"

lemma demo_table_inv: "watchdog_inv demo_table"
  unfolding demo_table_def by (rule watchdog.run_keeps) (rule watchdog_inv_empty)

lemma demo_table_job: "wd_getById demo_table ''J1'' = Some demo_job"
  by code_simp

definition demo_stopped :: watchdog_store where
  "demo_stopped = run_steps demo_job_step [Do_stop ''J1'' ''operator_stopped''] demo_table"

lemma demo_stopped_inv: "watchdog_inv demo_stopped"
  unfolding demo_stopped_def by (rule watchdog.run_keeps) (rule demo_table_inv)

definition demo_stopped_job :: wd_job where
  "demo_stopped_job = demo_job\<lparr>wj_state := Wd_stopped, wj_terminalReason := Some ''operator_stopped''\<rparr>"

lemma demo_stopped_row: "wd_getById demo_stopped ''J1'' = Some demo_stopped_job"
  by code_simp

theorem watchdog_one_way_witness:
  "\<exists>k. wd_getById (run_steps demo_job_step [Do_markTerminal ''J1'' ''done'', Do_stop ''J1'' ''again''] demo_stopped) ''J1'' = Some k
    \<and> job_follows demo_stopped_job k \<and> wj_state k \<noteq> Wd_active"
  using watchdog_one_way [OF demo_stopped_inv demo_stopped_row, of "\<lambda>_. None" demo_yaml
      "[Do_markTerminal ''J1'' ''done'', Do_stop ''J1'' ''again'']"]
  by (auto simp: demo_stopped_job_def)

section \<open>A delivery in flight\<close>

text \<open>Twelve updates in place land while the first delivery is out.\<close>

definition demo_updates :: "watchdog_op list" where
  "demo_updates = map (\<lambda>n. Do_update 2000 ''J1'' \<lparr>ju_interval = Given (Finite (of_int n)), ju_message = Not_given, ju_spec = Not_given\<rparr>)
     [61, 62, 63, 64, 65, 66, 67, 68, 69, 70, 71, 72]"

definition demo_flying :: watchdog_store where
  "demo_flying = (case deliverySchedule ''J1'' demo_table of Inr (s, _) \<Rightarrow> s | Inl _ \<Rightarrow> demo_table)"

lemma demo_flying_started: "deliverySchedule ''J1'' demo_table = Inr (demo_flying, demo_job)"
  by (simp add: demo_flying_def deliverySchedule_def wd_getByIdOrThrow_def demo_table_job)

lemma demo_updated: "wd_getById (run_steps demo_job_step demo_updates demo_flying) ''J1'' = Some (demo_job\<lparr>wj_interval := 72\<rparr>)"
  by code_simp


theorem watchdog_reschedule_wins_witness:
  "wd_getById (recordEvaluation ''J1'' 9000 True (Some demo_job)
      (wd_updateSchedule ''J1'' (Reminder_spec ''a@r'' ''later'') 120 (Some 5000) demo_table)) ''J1'' =
    Some (demo_job\<lparr>wj_spec := Reminder_spec ''a@r'' ''later'', wj_interval := 120, wj_lastEvaluation := Some 5000,
      wj_lastFire := Some 9000\<rparr>)"
  by (rule watchdog_reschedule_wins [OF demo_table_job]) (simp_all add: demo_job_def new_job_def demo_input_def reminder_input_def Let_def)

section \<open>Evaluations\<close>

definition demo_deps :: engine_deps where
  "demo_deps = \<lparr>dp_occupant = (\<lambda>_. None), dp_yaml = demo_yaml, dp_policies = (\<lambda>_. None),
     dp_resolveTargetGeneration = None, dp_resolveContextUsage = (\<lambda>_ _. None), dp_findTranscript = (\<lambda>_ _. None),
     dp_preDeliveryTerminal = (\<lambda>_. None), dp_queueWait = (\<lambda>_ _. ([], None)), dp_onWakeAttempt = (\<lambda>_. []),
     dp_digestEntry = (\<lambda>_ _. None), dp_reconcile = (\<lambda>_. None),
     dp_hash = (\<lambda>xs. concat (map (\<lambda>x. or_default x []) xs))\<rparr>"

definition demo_ok :: delivery_outcome where
  "demo_ok = \<lparr>dl_status = Dl_ok, dl_code = None, dl_outboxIds = [], dl_inputPhase = None, dl_error = None,
     dl_continuityCompleted = False, dl_sentMessage = None, dl_tracked = False, dl_complete = False,
     dl_deferred = False, dl_reconciled = False, dl_retryAt = None, dl_nextAction = None, dl_terminalReason = None\<rparr>"

definition demo_world :: "watchdog_op list \<Rightarrow> watchdog_op list \<Rightarrow> world" where
  "demo_world p q = \<lparr>wo_duringPolicy = p, wo_duringDelivery = q, wo_deliver = (\<lambda>_ _. Inr demo_ok),
     wo_memberOutcome = (\<lambda>_ _. None)\<rparr>"

definition demo_engine :: engine where
  "demo_engine = \<lparr>en_store = demo_table, en_history = [], en_events = [], en_sent = []\<rparr>"

text \<open>Left alone, the reminder goes out and is recorded.\<close>

lemma demo_evaluation:
  "map (\<lambda>(req, src). (dr_target req, dv_job src)) (en_sent (fst (evaluate demo_deps (demo_world [] []) 61000 None False demo_job demo_engine)))
     = [(''a@r'', ''J1'')]"
  by code_simp

lemma demo_job_id: "wj_id demo_job = ''J1''"
  by (simp add: demo_job_def new_job_def Let_def)

lemma demo_engine_simps [simp]:
  "en_store demo_engine = demo_table" "en_sent demo_engine = []" "en_history demo_engine = []" "en_events demo_engine = []"
  by (simp_all add: demo_engine_def)


text \<open>The evaluation's own record: one row for the wake that went out.\<close>

definition demo_evaluated :: "(evaluation_result option \<times> held_reminder option) act" where
  "demo_evaluated = evaluate demo_deps (demo_world [] []) 61000 None False demo_job demo_engine"

lemma demo_evaluated_ok:
  "case snd demo_evaluated of Inr (Some r, None) \<Rightarrow> re_meaningful r | _ \<Rightarrow> False"
  by code_simp

theorem watchdog_evaluation_recorded_witness:
  "\<exists>r. evaluation_recorded demo_engine (fst demo_evaluated) (Some r) \<and> re_meaningful r"
proof -
  obtain r where r: "snd demo_evaluated = Inr (Some r, None)" "re_meaningful r"
    using demo_evaluated_ok by (auto split: sum.splits option.splits prod.splits)
  then have "evaluate demo_deps (demo_world [] []) 61000 None False demo_job demo_engine = (fst demo_evaluated, Inr (Some r, None))"
    by (simp add: demo_evaluated_def prod_eq_iff)
  from watchdog_evaluation_recorded [OF this] r(2) show ?thesis by blast
qed

section \<open>A pass\<close>

definition demo_pass :: pass_env where
  "demo_pass = \<lparr>ps_world = (\<lambda>_. demo_world [] []), ps_stop = (\<lambda>_. False), ps_clock = (\<lambda>_. 61000)\<rparr>"

lemma demo_pass_sends: "wakes_of ''J1'' (fst (tick demo_pass demo_deps 61000 [] demo_engine)) = 1"
  by code_simp

theorem watchdog_pass_wakes_once_witness:
  "wakes_of ''J1'' (fst (tick demo_pass demo_deps 61000 [] demo_engine)) \<le> wakes_of ''J1'' demo_engine + 1"
  by (rule watchdog_pass_wakes_once) (simp add: demo_table_inv)

text \<open>Two reminders for one seat, given more rounds than they need.\<close>

definition demo_held :: "held_reminder list" where
  "demo_held = [\<lparr>hd_job = demo_job, hd_outcome = Pe_send ''a@r'' ''go'' None None False, hd_evaluatedAt = 61000,
     hd_occurrence = ''o1'', hd_entry = \<lparr>dg_qitem = ''q1'', dg_summary = None, dg_continuation = None\<rparr>\<rparr>]"

theorem watchdog_seat_loop_ends_witness:
  "deliverHeldGroup demo_pass demo_deps ''a@r'' 9 demo_held 0 demo_engine =
     deliverHeldGroup demo_pass demo_deps ''a@r'' (Suc (length demo_held)) demo_held 0 demo_engine"
  by (rule watchdog_seat_loop_ends) (simp add: demo_held_def)

section \<open>A delivery that lost its job\<close>

definition demo_attempt :: attempt where
  "demo_attempt = \<lparr>at_job = demo_job, at_outcome = Pe_send ''a@r'' ''go'' None None False, at_evaluatedAt = 61000,
     at_schedule = demo_job, at_delivery = demo_ok, at_context = False, at_notice = False, at_digest = None,
     at_sentMessage = None\<rparr>"

theorem watchdog_lost_delivery_witness:
  "\<exists>k. wd_getById (en_store (fst (recordAttempt demo_deps demo_attempt (demo_engine\<lparr>en_store := demo_stopped\<rparr>)))) ''J1'' = Some k
    \<and> same_schedule demo_stopped_job k"
proof -
  have "lost demo_attempt (demo_engine\<lparr>en_store := demo_stopped\<rparr>) demo_stopped_job"
    by (simp add: lost_def demo_attempt_def demo_job_id demo_stopped_row) (simp add: demo_stopped_job_def)
  then show ?thesis
    using watchdog_lost_delivery [of demo_attempt "demo_engine\<lparr>en_store := demo_stopped\<rparr>" demo_stopped_job demo_deps]
    by (simp add: demo_attempt_def demo_job_id demo_ok_def)
qed


end
