(* ===== verification/Watchdog_Receipts.thy ===== *)
theory Watchdog_Receipts
  imports Watchdog_Engine Outbox
begin

text \<open>
  Occurrence custody (\<open>packages/daemon/src/domain/watchdog-delivery-receipts.ts\<close>): a scheduled reminder is
  recorded in the outbox before its message is sent, under the id of its occurrence, and its outcome decides
  whether the watchdog may send it again. \<open>deliver\<close> awaits the inner send, so it is two steps:
  \<open>begin_delivery\<close> (the check and the claim, which nothing interrupts) and \<open>finish_delivery\<close> (one
  transaction). A transaction has one clock reading; \<open>rc_iso\<close> and \<open>rc_text\<close> render a time and a wake text.
\<close>

section \<open>Receipts\<close>

definition PREFIX :: string where
  "PREFIX = ''watchdog-occurrence-''"

record receipts_config =
  rc_interval :: int
  rc_cap :: int
  rc_iso :: "timestamp \<Rightarrow> string"
  rc_text :: "wake_text \<Rightarrow> string"

text \<open>What the inner send answers: an outcome, with whether anything was sent and the transport's reason.\<close>

record sent_outcome = delivery_outcome +
  so_sent :: "bool option"
  so_reason :: "string option"

record member =
  mb_job :: string
  mb_id :: string

definition members :: "delivery_source \<Rightarrow> member list" where
  "members src =
     (if dv_policy src \<noteq> ''periodic-reminder'' \<or> dv_occurrence src = [] then []
      else map (\<lambda>(j, occ). \<lparr>mb_job = j, mb_id = PREFIX @ occ\<rparr>)
             (or_default (dv_members src) [(dv_job src, dv_occurrence src)]))"

definition read_receipt :: "outbox \<Rightarrow> string \<Rightarrow> watchdog_receipt option" where
  "read_receipt s i = (case getEntry s i of None \<Rightarrow> None
     | Some e \<Rightarrow> (case guardDelivery e of None \<Rightarrow> None | Some g \<Rightarrow> receipt_watchdog g))"

text \<open>\<open>json_set\<close> of the receipt and of the ids, on an empty object where there is none.\<close>

definition save_receipt :: "string \<Rightarrow> watchdog_receipt \<Rightarrow> outbox \<Rightarrow> outbox" where
  "save_receipt i r = row_set (\<lambda>e. outboxId e = i)
     (\<lambda>e. e\<lparr>guardDelivery := Some ((or_default (guardDelivery e)
              \<lparr>receipt_ids = [], receipt_expected = None, receipt_watchdog = None, receipt_rest = []\<rparr>)
            \<lparr>receipt_watchdog := Some r, receipt_ids := [i]\<rparr>)\<rparr>)"

definition new_receipt :: "int \<Rightarrow> string \<Rightarrow> watchdog_receipt" where
  "new_receipt n text = \<lparr>rt_attempts = n, rt_retryAt = None, rt_message = text, rt_nextAction = None,
     rt_terminalReason = None, rt_ended = False, rt_error = None, rt_heldIds = []\<rparr>"

definition plain_outcome :: "delivery_status \<Rightarrow> delivery_outcome" where
  "plain_outcome st = \<lparr>dl_status = st, dl_code = None, dl_outboxIds = [], dl_inputPhase = None, dl_error = None,
     dl_continuityCompleted = False, dl_sentMessage = None, dl_tracked = False, dl_complete = False,
     dl_deferred = False, dl_reconciled = False, dl_retryAt = None, dl_nextAction = None, dl_terminalReason = None\<rparr>"

text \<open>\<open>[...new Set(xs)]\<close> keeps first occurrences.\<close>

definition js_unique :: "'a list \<Rightarrow> 'a list" where
  "js_unique xs = rev (remdups (rev xs))"

section \<open>Reconciling\<close>

definition inspect_before_replay :: "string \<Rightarrow> string" where
  "inspect_before_replay i = ''Inspect outbox '' @ i @
     '' and the recipient before any manual replay; input is unconfirmed. This occurrence ends; the next regular cycle is a new occurrence.''"

definition deferred_outcome :: delivery_outcome where
  "deferred_outcome = (plain_outcome Dl_failed)\<lparr>dl_tracked := True, dl_deferred := True\<rparr>"

text \<open>One member's standing: an answer that settles the call, or nothing against sending.\<close>

definition member_standing ::
  "receipts_config \<Rightarrow> timestamp \<Rightarrow> bool \<Rightarrow> outbox \<Rightarrow> member \<Rightarrow> delivery_outcome option" where
  "member_standing c now several s m =
     (case getEntry s (mb_id m) of
        None \<Rightarrow> None
      | Some e \<Rightarrow>
          let r = read_receipt s (mb_id m);
              r_ended = (case r of None \<Rightarrow> False | Some x \<Rightarrow> rt_ended x);
              r_terminal = (case r of None \<Rightarrow> None | Some x \<Rightarrow> rt_terminalReason x);
              retry = (case r of None \<Rightarrow> None | Some x \<Rightarrow> rt_retryAt x)
          in if r_ended \<or> truthy r_terminal then
               Some (if several then deferred_outcome
                 else (plain_outcome Dl_failed)\<lparr>dl_tracked := True, dl_outboxIds := [outboxId e],
                        dl_error := nullish (case r of None \<Rightarrow> None | Some x \<Rightarrow> rt_error x) r_terminal,
                        dl_complete := True, dl_terminalReason := r_terminal,
                        dl_nextAction := (case r of None \<Rightarrow> None | Some x \<Rightarrow> rt_nextAction x)\<rparr>)
             else if deliveryState e = Sending \<or> deliveryState e = Indeterminate then
               Some (if several then deferred_outcome
                 else (plain_outcome Dl_failed)\<lparr>dl_tracked := True, dl_complete := True,
                        dl_inputPhase := Some ''attempted'',
                        dl_error := Some ''Prior scheduled input is unconfirmed; no replay was attempted.'',
                        dl_outboxIds := [mb_id m],
                        dl_nextAction := Some (inspect_before_replay (outboxId e))\<rparr>)
             else if deliveryState e \<in> {Delivered, Retained, Retired} \<or>
                     (case retry of None \<Rightarrow> False | Some t \<Rightarrow> now < t) then
               Some (deferred_outcome\<lparr>dl_retryAt := map_option (rc_iso c) retry\<rparr>)
             else None)"

definition in_states :: "delivery_state set \<Rightarrow> outbox \<Rightarrow> member \<Rightarrow> bool" where
  "in_states sts s m \<longleftrightarrow> (case getEntry s (mb_id m) of None \<Rightarrow> False | Some e \<Rightarrow> deliveryState e \<in> sts)"

definition held_ids_of :: "outbox \<Rightarrow> member \<Rightarrow> string list" where
  "held_ids_of s m = mb_id m # (case read_receipt s (mb_id m) of None \<Rightarrow> [] | Some r \<Rightarrow> rt_heldIds r)"

definition reconcile ::
  "receipts_config \<Rightarrow> timestamp \<Rightarrow> outbox \<Rightarrow> delivery_source \<Rightarrow> delivery_outcome option" where
  "reconcile c now s src =
     (case members src of
        [] \<Rightarrow> None
      | m # ms \<Rightarrow>
          if list_all (in_states {Delivered} s) (m # ms) then
            Some ((plain_outcome Dl_ok)\<lparr>dl_tracked := True, dl_reconciled := True, dl_outboxIds := map mb_id (m # ms),
                    dl_sentMessage := map_option rt_message (read_receipt s (mb_id m))\<rparr>)
          else if list_all (in_states {Retained, Retired} s) (m # ms) then
            Some ((plain_outcome Dl_retained)\<lparr>dl_tracked := True, dl_reconciled := True,
                    dl_outboxIds := js_unique (concat (map (held_ids_of s) (m # ms)))\<rparr>)
          else (case List.map_filter (member_standing c now (ms \<noteq> []) s) (m # ms) of
                  [] \<Rightarrow> None | d # _ \<Rightarrow> Some d))"

section \<open>The claim\<close>

definition occurrence_input :: "string \<Rightarrow> string \<Rightarrow> member \<Rightarrow> outbox_input" where
  "occurrence_input target text m = \<lparr>in_outboxId = Some (mb_id m), in_sender = WATCHDOG_SENDER, in_destination = target,
     in_body = text, in_tags = None, in_urgency = None, in_auditPointer = Some (mb_job m), in_provenance = None,
     in_principal = None\<rparr>"

definition record_member :: "timestamp \<Rightarrow> string \<Rightarrow> string \<Rightarrow> member \<Rightarrow> outbox \<Rightarrow> outbox_error + outbox" where
  "record_member now target text m s =
     (if getEntry s (mb_id m) \<noteq> None then Inr s
      else try_bind (record_entry now (mb_id m) (occurrence_input target text m) s) (\<lambda>(t, _).
             Inr (save_receipt (mb_id m) (new_receipt 0 text) t)))"

definition claim_member :: "string \<Rightarrow> member \<Rightarrow> outbox \<Rightarrow> outbox" where
  "claim_member text m s =
     (let t = fst (claimForDelivery (mb_id m) s);
          tried = (case read_receipt t (mb_id m) of None \<Rightarrow> 0 | Some r \<Rightarrow> rt_attempts r)
      in save_receipt (mb_id m) (new_receipt (tried + 1) text) t)"

text \<open>\<open>claimed\<close>: every member, or none when one of them can no longer be sent.\<close>

definition claim_members :: "timestamp \<Rightarrow> string \<Rightarrow> string \<Rightarrow> member list \<Rightarrow> outbox \<Rightarrow> outbox_error + outbox \<times> bool" where
  "claim_members now target text ms s =
     try_bind (try_fold (record_member now target text) ms s) (\<lambda>t.
       Inr (if list_all (in_states {Pending, Failed} t) ms then (fold (claim_member text) ms t, True) else (t, False)))"

text \<open>A source without an occurrence is sent as it is (\<open>Passes\<close>).\<close>

datatype begun = Answered delivery_outcome | Passes | Sends "member list"

definition begin_delivery ::
  "receipts_config \<Rightarrow> timestamp \<Rightarrow> delivery_request \<Rightarrow> delivery_source \<Rightarrow> outbox \<Rightarrow> outbox_error + outbox \<times> begun" where
  "begin_delivery c now req src s =
     (if members src = [] then Inr (s, Passes)
      else case reconcile c now s src of
        Some prior \<Rightarrow> Inr (s, Answered prior)
      | None \<Rightarrow> map_sum id (\<lambda>(t, claimed). (t, if claimed then Sends (members src) else Answered deferred_outcome))
                  (claim_members now (dr_target req) (rc_text c (dr_message req)) (members src) s))"

section \<open>The outcome\<close>

text \<open>A send that throws is a failure with the error's text.\<close>

definition send_result :: "string + sent_outcome \<Rightarrow> sent_outcome" where
  "send_result answer = (case answer of
     Inr r \<Rightarrow> r
   | Inl msg \<Rightarrow> delivery_outcome.extend ((plain_outcome Dl_failed)\<lparr>dl_error := Some msg\<rparr>)
                (sent_outcome.fields None None))"

definition no_input :: "sent_outcome \<Rightarrow> bool" where
  "no_input r \<longleftrightarrow> so_sent r = Some False \<or> dl_inputPhase r = Some ''not_reached''"

definition permanent :: "sent_outcome \<Rightarrow> bool" where
  "permanent r \<longleftrightarrow> so_reason r = Some ''transport_unavailable'' \<or> dl_code r = Some ''terminal_seat'' \<or>
     dl_code r = Some ''retained_quota_full''"

definition final_outcome :: "sent_outcome \<Rightarrow> outcome" where
  "final_outcome r = (case dl_status r of
     Dl_ok \<Rightarrow> Out_delivered
   | Dl_retained \<Rightarrow> Out_retained
   | Dl_failed \<Rightarrow> if no_input r then Out_failed else Out_indeterminate)"

definition join_comma :: "string list \<Rightarrow> string" where
  "join_comma xs = concat (case xs of [] \<Rightarrow> [] | y # ys \<Rightarrow> y # map (\<lambda>z. '', '' @ z) ys)"

definition retry_time :: "receipts_config \<Rightarrow> timestamp \<Rightarrow> watchdog_receipt \<Rightarrow> sent_outcome \<Rightarrow> timestamp option" where
  "retry_time c now r res =
     (if dl_status res = Dl_failed \<and> no_input res \<and> \<not> permanent res \<and> \<not> rc_cap c < rt_attempts r
      then Some (now + rc_interval c * 1000) else None)"

definition terminal_reason :: "sent_outcome \<Rightarrow> string option" where
  "terminal_reason res =
     (if dl_status res = Dl_failed \<and> no_input res \<and> permanent res then Some ''watchdog_delivery_unavailable'' else None)"

definition next_action :: "receipts_config \<Rightarrow> timestamp \<Rightarrow> string \<Rightarrow> watchdog_receipt \<Rightarrow> sent_outcome \<Rightarrow> string option" where
  "next_action c now i r res = (case dl_status res of
     Dl_ok \<Rightarrow> None
   | Dl_retained \<Rightarrow> Some (''Retained by existing input protection; inspect held messages '' @ join_comma (dl_outboxIds res) @
       ''. Nothing was delivered.'')
   | Dl_failed \<Rightarrow> Some (
       if no_input res \<and> permanent res then
         ''Inspect outbox '' @ i @ '': '' @ or_default (dl_error res) (or_default (so_reason res) ''delivery failed'') @
         ''. Fix the destination and register a replacement reminder.''
       else if no_input res \<and> rc_cap c < rt_attempts r then
         ''Inspect outbox '' @ i @ '': retry budget exhausted. This occurrence ends; the next regular cycle is a new occurrence. A one-shot timer records its failed wake and ends.''
       else case retry_time c now r res of
           Some t \<Rightarrow> ''Occurrence remains owed; retry at '' @ rc_iso c t @ ''. Inspect outbox '' @ i @ ''.''
         | None \<Rightarrow> inspect_before_replay i))"

definition has_ended :: "receipts_config \<Rightarrow> watchdog_receipt \<Rightarrow> sent_outcome \<Rightarrow> bool" where
  "has_ended c r res \<longleftrightarrow> dl_status res = Dl_failed \<and> (\<not> no_input res \<or> permanent res \<or> rc_cap c < rt_attempts r)"

definition member_outcome :: "receipts_config \<Rightarrow> timestamp \<Rightarrow> sent_outcome \<Rightarrow> string \<Rightarrow> watchdog_receipt \<Rightarrow> delivery_outcome" where
  "member_outcome c now res i r =
     (let out = delivery_outcome.truncate res
      in out\<lparr>dl_tracked := True, dl_complete := (dl_complete out \<or> has_ended c r res),
             dl_outboxIds := js_unique (i # dl_outboxIds res),
             dl_retryAt := (case retry_time c now r res of None \<Rightarrow> dl_retryAt out | Some t \<Rightarrow> Some (rc_iso c t)),
             dl_nextAction := nullish (next_action c now i r res) (dl_nextAction out),
             dl_terminalReason := nullish (terminal_reason res) (dl_terminalReason out)\<rparr>)"

definition finished_receipt :: "receipts_config \<Rightarrow> timestamp \<Rightarrow> sent_outcome \<Rightarrow> string \<Rightarrow> watchdog_receipt \<Rightarrow> watchdog_receipt" where
  "finished_receipt c now res i r =
     r\<lparr>rt_ended := (rt_ended r \<or> has_ended c r res),
       rt_error := (if has_ended c r res then dl_error res else rt_error r),
       rt_heldIds := (if dl_status res = Dl_retained then dl_outboxIds res else rt_heldIds r),
       rt_retryAt := nullish (retry_time c now r res) (rt_retryAt r),
       rt_nextAction := nullish (next_action c now i r res) (rt_nextAction r),
       rt_terminalReason := nullish (terminal_reason res) (rt_terminalReason r)\<rparr>"

datatype receipts_error = Receipt_unread | Outbox_refused outbox_error

definition finish_member ::
  "receipts_config \<Rightarrow> timestamp \<Rightarrow> sent_outcome \<Rightarrow> member \<Rightarrow> outbox \<times> (string \<times> delivery_outcome) list
     \<Rightarrow> receipts_error + outbox \<times> (string \<times> delivery_outcome) list" where
  "finish_member c now res m = (\<lambda>(s, outs).
     (case read_receipt s (mb_id m) of
        None \<Rightarrow> Inl Receipt_unread
      | Some r \<Rightarrow>
          (case finalizeDelivery now (mb_id m) (final_outcome res) s of
             Inl x \<Rightarrow> Inl (Outbox_refused x)
           | Inr (t, _) \<Rightarrow> Inr (save_receipt (mb_id m) (finished_receipt c now res (mb_id m) r) t,
               outs @ [(mb_job m, member_outcome c now res (mb_id m) r)]))))"

text \<open>The answer is the first member's outcome, with every member's beside it; of two members with one job the
  later outcome counts.\<close>

definition member_outcomes :: "(string \<times> delivery_outcome) list \<Rightarrow> string \<Rightarrow> delivery_outcome option" where
  "member_outcomes outs = map_of (rev outs)"

definition finish_delivery ::
  "receipts_config \<Rightarrow> timestamp \<Rightarrow> member list \<Rightarrow> string + sent_outcome \<Rightarrow> outbox
     \<Rightarrow> receipts_error + outbox \<times> delivery_outcome \<times> (string \<Rightarrow> delivery_outcome option)" where
  "finish_delivery c now ms answer s =
     try_bind (try_fold (finish_member c now (send_result answer)) ms (s, [])) (\<lambda>(t, outs).
       Inr (t, (case ms of [] \<Rightarrow> delivery_outcome.truncate (send_result answer)
                | m # _ \<Rightarrow> the (member_outcomes outs (mb_job m))), member_outcomes outs))"

end
