(* ===== verification/Watchdog_Custody.thy ===== *)
theory Watchdog_Custody
  imports Watchdog_Receipts
begin

text \<open>
  Any interleaving of scheduled deliveries, their outcomes, crashes and other users of the outbox. The state
  is the table and the input attempts made so far, one per call of the inner send: which occurrences the
  message was for, and what is known of it. The theorem is the promise of
  \<open>watchdog-delivery-receipts.ts\<close>: input is attempted again only when every earlier attempt provably
  reached nothing.
\<close>

section \<open>The machine\<close>

datatype attempt_state = Awaited | Reached_nothing | Maybe_reached

record input_attempt =
  ia_members :: "member list"
  ia_state :: attempt_state

record custody_state =
  cu_outbox :: outbox
  cu_attempts :: "input_attempt list"

definition empty_custody :: custody_state where
  "empty_custody = \<lparr>cu_outbox = [], cu_attempts = []\<rparr>"

text \<open>A crash loses the calls in flight; \<open>DraftAwareDelivery.recover\<close> then turns the rows left in
  \<open>sending\<close> with a receipt to \<open>indeterminate\<close>.\<close>

definition recover_sending :: "outbox \<Rightarrow> outbox" where
  "recover_sending = row_set (\<lambda>e. guardDelivery e \<noteq> None \<and> deliveryState e = Sending)
     (\<lambda>e. e\<lparr>deliveryState := Indeterminate\<rparr>)"

datatype custody_op =
    Cu_begin timestamp delivery_request delivery_source
  | Cu_finish timestamp nat "string + sent_outcome"
  | Cu_crash
  | Cu_recover
  | Cu_other outbox_op

text \<open>Nobody else claims or finalizes the rows of occurrences: the other drainers do so for the ids they made.\<close>

definition foreign :: "outbox_op \<Rightarrow> bool" where
  "foreign op \<longleftrightarrow> (case op of Op_claim i \<Rightarrow> \<not> prefix PREFIX i | Op_finalize _ i _ \<Rightarrow> \<not> prefix PREFIX i | _ \<Rightarrow> True)"

definition lose_flights :: "input_attempt list \<Rightarrow> input_attempt list" where
  "lose_flights = map (\<lambda>a. if ia_state a = Awaited then a\<lparr>ia_state := Maybe_reached\<rparr> else a)"

definition answered_state :: "string + sent_outcome \<Rightarrow> attempt_state" where
  "answered_state answer =
     (if dl_status (send_result answer) = Dl_failed \<and> no_input (send_result answer) then Reached_nothing else Maybe_reached)"

datatype custody_error = Cu_outbox outbox_error | No_such_flight | Not_foreign

fun custody_step :: "receipts_config \<Rightarrow> custody_op \<Rightarrow> custody_state \<Rightarrow> custody_error + custody_state" where
  "custody_step c (Cu_begin now req src) s =
     (case begin_delivery c now req src (cu_outbox s) of
        Inl x \<Rightarrow> Inl (Cu_outbox x)
      | Inr (t, Sends ms) \<Rightarrow> Inr \<lparr>cu_outbox = t, cu_attempts = cu_attempts s @ [\<lparr>ia_members = ms, ia_state = Awaited\<rparr>]\<rparr>
      | Inr (t, _) \<Rightarrow> Inr (s\<lparr>cu_outbox := t\<rparr>))"
| "custody_step c (Cu_finish now k answer) s =
     (if k < length (cu_attempts s) \<and> ia_state (cu_attempts s ! k) = Awaited then
        let a = cu_attempts s ! k
        in Inr (case finish_delivery c now (ia_members a) answer (cu_outbox s) of
             Inl _ \<Rightarrow> s\<lparr>cu_attempts := (cu_attempts s)[k := a\<lparr>ia_state := Maybe_reached\<rparr>]\<rparr>
           | Inr (t, _) \<Rightarrow> \<lparr>cu_outbox = t, cu_attempts = (cu_attempts s)[k := a\<lparr>ia_state := answered_state answer\<rparr>]\<rparr>)
      else Inl No_such_flight)"
| "custody_step c Cu_crash s = Inr (s\<lparr>cu_attempts := lose_flights (cu_attempts s)\<rparr>)"
| "custody_step c Cu_recover s = Inr (s\<lparr>cu_outbox := recover_sending (cu_outbox s)\<rparr>)"
| "custody_step c (Cu_other op) s =
     (if foreign op then map_sum Cu_outbox (\<lambda>t. s\<lparr>cu_outbox := t\<rparr>) (outbox_step op (cu_outbox s)) else Inl Not_foreign)"

section \<open>Rows of occurrences\<close>

definition sendable :: "outbox_entry \<Rightarrow> bool" where
  "sendable e \<longleftrightarrow> deliveryState e = Pending \<or> deliveryState e = Failed"

definition watchdog_part :: "outbox_entry \<Rightarrow> watchdog_receipt option" where
  "watchdog_part e = (case guardDelivery e of None \<Rightarrow> None | Some g \<Rightarrow> receipt_watchdog g)"

lemma read_receipt_part: "read_receipt s i = Option.bind (getEntry s i) watchdog_part"
  by (simp add: read_receipt_def watchdog_part_def split: option.split)

text \<open>What leaves an occurrence alone: its receipt stays, and it becomes sendable again by no means.\<close>

definition calm_row :: "outbox_entry \<Rightarrow> outbox_entry \<Rightarrow> bool" where
  "calm_row e e' \<longleftrightarrow> watchdog_part e' = watchdog_part e \<and> (sendable e' \<longrightarrow> sendable e)"

definition calm :: "string \<Rightarrow> outbox \<Rightarrow> outbox \<Rightarrow> bool" where
  "calm i s t \<longleftrightarrow> (case getEntry s i of
     None \<Rightarrow> (case getEntry t i of None \<Rightarrow> True | Some e' \<Rightarrow> watchdog_part e' = None)
   | Some e \<Rightarrow> (case getEntry t i of None \<Rightarrow> False | Some e' \<Rightarrow> calm_row e e'))"

lemma calm_refl [simp]: "calm i s s"
  by (simp add: calm_def calm_row_def split: option.split)

lemma calm_trans: "calm i s t \<Longrightarrow> calm i t u \<Longrightarrow> calm i s u"
  by (auto simp: calm_def calm_row_def split: option.splits)

lemma calm_row_set:
  assumes "\<And>e. outboxId (f e) = outboxId e"
    and "\<And>e. outboxId e = i \<Longrightarrow> p e \<Longrightarrow> calm_row e (f e)"
  shows "calm i s (row_set p f s)"
  using assms(2) by (auto simp: calm_def getEntry_row_set [OF assms(1)] calm_row_def
      dest: row_get_key [of outboxId i s, folded getEntry_def] split: option.split)

lemma new_entry_plain [simp]: "deliveryState (new_entry now i inp) = Pending" "guardDelivery (new_entry now i inp) = None"
  by (simp_all add: new_entry_def Let_def)

lemma getEntry_append: "getEntry (s @ [e]) i = (case getEntry s i of None \<Rightarrow> if outboxId e = i then Some e else None | Some x \<Rightarrow> Some x)"
  by (simp add: getEntry_def row_simps split: option.split)

lemma calm_record: "record_entry now fresh inp s = Inr (t, e) \<Longrightarrow> calm i s t"
  by (auto simp: record_entry_eq Let_def calm_def calm_row_def getEntry_append watchdog_part_def split: option.splits if_splits)

lemma calm_hold: "calm i s (hold_row j b s)"
  unfolding hold_row_def by (rule calm_row_set) (auto simp: calm_row_def sendable_def watchdog_part_def)

lemma calm_superseded: "calm i s (superseded now inp node ex pre s)"
  unfolding superseded_def supersede_reminders_def
  by (auto intro!: calm_row_set simp: calm_row_def sendable_def watchdog_part_def)

lemma calm_retain_new:
  assumes "retain_new now j inp b ex pre s = Inr (t, e)"
  shows "calm i s t"
proof -
  let ?s1 = "superseded now inp (gb_nodeId b) ex pre s"
  obtain s2 where s2: "calm i ?s1 s2" and t: "t = hold_row j b s2"
    using assms by (auto simp: retain_new_def reread_Inr Let_def split: if_splits sum.splits intro: calm_record calm_refl)
  show ?thesis
    unfolding t by (rule calm_trans [OF calm_trans [OF calm_superseded s2] calm_hold])
qed

lemma calm_cas:
  assumes "cas_update j ready f s = Inr (t, e)" and "\<And>e. outboxId (f e) = outboxId e"
    and "\<And>e. i = j \<Longrightarrow> ready e \<Longrightarrow> calm_row e (f e)"
  shows "calm i s t"
proof -
  have t: "t = row_set (\<lambda>e. outboxId e = j \<and> ready e) f s"
    using assms(1) by (auto simp: cas_update_def reread_Inr)
  show ?thesis unfolding t by (rule calm_row_set [OF assms(2)]) (use assms(3) in auto)
qed

lemma calm_foreign:
  assumes "outbox_step op s = Inr t" and "foreign op" and "prefix PREFIX i"
  shows "calm i s t"
proof (cases op)
  case (Op_record n f inp)
  then show ?thesis using assms(1) by (auto intro: calm_record)
next
  case (Op_bind n j inp x)
  let ?f = "\<lambda>e. e\<lparr>guardDelivery := Some ((or_default (guardDelivery e)
      \<lparr>receipt_ids = [j], receipt_expected = None, receipt_watchdog = None, receipt_rest = []\<rparr>)
      \<lparr>receipt_expected := Some x\<rparr>)\<rparr>"
  have set: "calm i u (row_set (\<lambda>e. outboxId e = j) ?f u)" for u
    by (rule calm_row_set) (auto simp: calm_row_def watchdog_part_def sendable_def split: option.split)
  from assms(1) Op_bind obtain u where "calm i s u" "t = row_set (\<lambda>e. outboxId e = j) ?f u"
    by (auto simp: bindExpectedIdentity_def Let_def split: if_splits sum.splits intro: calm_record calm_refl)
  then show ?thesis using set calm_trans by blast
next
  case (Op_retain n j inp b pre)
  then show ?thesis
    using assms(1) by (auto simp: retain_def split: option.splits if_splits intro: calm_retain_new)
next
  case (Op_retire n j a r)
  then show ?thesis
    using assms(1) by (auto simp: retire_def reread_Inr split: if_splits sum.splits intro!: calm_row_set)
      (auto simp: calm_row_def sendable_def watchdog_part_def)
next
  case (Op_mark_delivered n j)
  then show ?thesis
    using assms(1) by (auto simp: markDelivered_def elim!: calm_cas) (auto simp: calm_row_def sendable_def watchdog_part_def)
next
  case (Op_mark_failed j)
  then show ?thesis
    using assms(1) by (auto simp: markFailed_def elim!: calm_cas) (auto simp: calm_row_def sendable_def watchdog_part_def)
next
  case (Op_mark_indeterminate j)
  then show ?thesis
    using assms(1) by (auto simp: markIndeterminate_def elim!: calm_cas) (auto simp: calm_row_def sendable_def watchdog_part_def)
next
  case (Op_claim j)
  then have "i \<noteq> j" using assms(2,3) by (auto simp: foreign_def)
  then show ?thesis
    using assms(1) Op_claim by (auto simp: claimForDelivery_def Let_def intro!: calm_row_set)
next
  case (Op_finalize n j r)
  then have "i \<noteq> j" using assms(2,3) by (auto simp: foreign_def)
  then show ?thesis
    using assms(1) Op_finalize by (auto simp: finalizeDelivery_def elim!: calm_cas)
next
  case (Op_reconcile p)
  then show ?thesis
    using assms(1) by (auto simp: reconcileAbandonedSending_def abandoned_def intro!: calm_row_set)
      (auto simp: calm_row_def sendable_def watchdog_part_def)
qed

section \<open>The standing of an occurrence\<close>

definition for_occurrence :: "string \<Rightarrow> input_attempt \<Rightarrow> bool" where
  "for_occurrence i a \<longleftrightarrow> i \<in> mb_id ` set (ia_members a)"

definition nothing :: "input_attempt \<Rightarrow> bool" where
  "nothing a \<longleftrightarrow> ia_state a = Reached_nothing"

text \<open>The attempts of one occurrence against its row: only the last one can have reached the recipient, and a row
  that may be sent again has none that could, within the retry budget.\<close>

definition standing_ok :: "receipts_config \<Rightarrow> outbox_entry option \<Rightarrow> input_attempt list \<Rightarrow> bool" where
  "standing_ok c row us \<longleftrightarrow> (case row of
     None \<Rightarrow> us = []
   | Some e \<Rightarrow> list_all nothing (butlast us) \<and> int (length us) \<le> max 0 (rc_cap c) + 1 \<and>
       (sendable e \<longrightarrow> list_all nothing us) \<and>
       (case watchdog_part e of
          None \<Rightarrow> us = []
        | Some r \<Rightarrow> int (length us) \<le> rt_attempts r \<and> (sendable e \<and> \<not> rt_ended r \<longrightarrow> rt_attempts r \<le> max 0 (rc_cap c))))"

definition custody_inv :: "receipts_config \<Rightarrow> custody_state \<Rightarrow> bool" where
  "custody_inv c s \<longleftrightarrow> (\<forall>i. prefix PREFIX i \<longrightarrow>
     standing_ok c (getEntry (cu_outbox s) i) (filter (for_occurrence i) (cu_attempts s)))"

lemma standing_calm: "standing_ok c (getEntry s i) us \<Longrightarrow> calm i s t \<Longrightarrow> standing_ok c (getEntry t i) us"
  by (auto simp: standing_ok_def calm_def calm_row_def split: option.splits)

lemma custody_inv_calm:
  assumes "custody_inv c s" and "\<And>i. prefix PREFIX i \<Longrightarrow> calm i (cu_outbox s) t"
  shows "custody_inv c (s\<lparr>cu_outbox := t\<rparr>)"
  using assms by (auto simp: custody_inv_def intro: standing_calm)

lemma filter_lose: "filter (for_occurrence i) (lose_flights us) = lose_flights (filter (for_occurrence i) us)"
  by (induction us) (auto simp: lose_flights_def for_occurrence_def)

lemma standing_lose: "standing_ok c row (lose_flights us) = standing_ok c row us"
proof -
  have all: "list_all nothing (lose_flights us) = list_all nothing us" for us
    by (induction us) (auto simp: lose_flights_def nothing_def)
  have "butlast (lose_flights us) = lose_flights (butlast us)" "length (lose_flights us) = length us"
    "lose_flights us = [] \<longleftrightarrow> us = []"
    by (simp_all add: lose_flights_def map_butlast)
  then show ?thesis by (simp only: standing_ok_def all)
qed

lemma custody_inv_crash:
  assumes "custody_inv c s"
  shows "custody_inv c (s\<lparr>cu_attempts := lose_flights (cu_attempts s)\<rparr>)"
  using assms by (simp add: custody_inv_def filter_lose standing_lose)

section \<open>The claim\<close>

lemma getEntry_save:
  "getEntry (save_receipt j r s) i = map_option (\<lambda>e. if outboxId e = j then e\<lparr>guardDelivery := Some ((or_default (guardDelivery e)
       \<lparr>receipt_ids = [], receipt_expected = None, receipt_watchdog = None, receipt_rest = []\<rparr>)
     \<lparr>receipt_watchdog := Some r, receipt_ids := [j]\<rparr>)\<rparr> else e) (getEntry s i)"
  unfolding save_receipt_def by (rule getEntry_row_set) simp

lemma getEntry_id: "getEntry s i = Some e \<Longrightarrow> outboxId e = i"
  unfolding getEntry_def by (rule row_get_key)

definition row_recorded :: "string list \<Rightarrow> string \<Rightarrow> outbox_entry option \<Rightarrow> outbox_entry option \<Rightarrow> bool" where
  "row_recorded ids i row row' \<longleftrightarrow> (case row of
     Some e \<Rightarrow> row' = Some e
   | None \<Rightarrow> (case row' of None \<Rightarrow> True
       | Some e \<Rightarrow> i \<in> set ids \<and> sendable e \<and>
           (case watchdog_part e of None \<Rightarrow> False | Some r \<Rightarrow> rt_attempts r = 0 \<and> \<not> rt_ended r)))"

lemma recorded_refl: "row_recorded ids i row row"
  by (simp add: row_recorded_def split: option.split)

lemma record_member_row:
  assumes "record_member now target text m s = Inr t"
  shows "row_recorded [mb_id m] i (getEntry s i) (getEntry t i)"
proof (cases "getEntry s (mb_id m)")
  case None
  then have "t = save_receipt (mb_id m) (new_receipt 0 text) (s @ [new_entry now (mb_id m) (occurrence_input target text m)])"
    using assms by (auto simp: record_member_def record_entry_eq occurrence_input_def Let_def effect_simps)
  then have get: "getEntry t i = (if i = mb_id m then Some ((new_entry now i (occurrence_input target text m))\<lparr>guardDelivery :=
      Some \<lparr>receipt_ids = [i], receipt_expected = None, receipt_watchdog = Some (new_receipt 0 text), receipt_rest = []\<rparr>\<rparr>)
    else getEntry s i)"
    using None by (cases "getEntry s i") (auto simp: getEntry_save getEntry_append getEntry_id)
  show ?thesis
  proof (cases "i = mb_id m")
    case True
    then show ?thesis using None get by (simp add: row_recorded_def sendable_def watchdog_part_def new_receipt_def)
  next
    case False
    then show ?thesis using get by (simp add: recorded_refl)
  qed
next
  case (Some e)
  then show ?thesis using assms by (simp add: record_member_def row_recorded_def split: option.split)
qed

lemma recorded_rows:
  "try_fold (record_member now target text) ms s = Inr t \<Longrightarrow> row_recorded (map mb_id ms) i (getEntry s i) (getEntry t i)"
proof (induction ms arbitrary: s)
  case Nil
  then show ?case by (simp add: row_recorded_def split: option.split)
next
  case (Cons m ms)
  then obtain u where u: "record_member now target text m s = Inr u" "try_fold (record_member now target text) ms u = Inr t"
    by (auto simp: effect_simps)
  from record_member_row [OF u(1), of i] Cons.IH [OF u(2)] show ?case
    by (auto simp: row_recorded_def split: option.splits)
qed

lemma standing_recorded: "standing_ok c row us \<Longrightarrow> row_recorded ids i row row' \<Longrightarrow> standing_ok c row' us"
  by (auto simp: row_recorded_def standing_ok_def split: option.splits)

definition tried :: "outbox_entry \<Rightarrow> int" where
  "tried e = (case watchdog_part e of None \<Rightarrow> 0 | Some r \<Rightarrow> rt_attempts r)"

definition claim_row :: "string \<Rightarrow> string \<Rightarrow> outbox_entry \<Rightarrow> outbox_entry" where
  "claim_row text i e =
     (if claimable e then e\<lparr>deliveryState := Sending\<rparr> else e)\<lparr>guardDelivery := Some ((or_default (guardDelivery e)
        \<lparr>receipt_ids = [], receipt_expected = None, receipt_watchdog = None, receipt_rest = []\<rparr>)
      \<lparr>receipt_watchdog := Some (new_receipt (tried e + 1) text), receipt_ids := [i]\<rparr>)\<rparr>"

lemma claim_row_facts:
  "outboxId (claim_row text i e) = outboxId e" "watchdog_part (claim_row text i e) = Some (new_receipt (tried e + 1) text)"
  "deliveryState e \<in> {Pending, Failed, Sending} \<Longrightarrow> deliveryState (claim_row text i e) = Sending"
  by (auto simp: claim_row_def watchdog_part_def claimable_def)

lemma claim_member_row:
  "getEntry (claim_member text m s) i =
     (if i = mb_id m then map_option (claim_row text i) (getEntry s i) else getEntry s i)"
proof -
  let ?t = "fst (claimForDelivery (mb_id m) s)"
  have t: "getEntry ?t k = map_option (\<lambda>e. if outboxId e = mb_id m \<and> claimable e then e\<lparr>deliveryState := Sending\<rparr> else e) (getEntry s k)" for k
    by (simp add: claimForDelivery_def Let_def getEntry_row_set)
  show ?thesis
  proof (cases "getEntry s i")
    case None
    then show ?thesis by (auto simp: claim_member_def Let_def getEntry_save t)
  next
    case (Some e)
    then have e: "outboxId e = i" by (rule getEntry_id)
    show ?thesis
    proof (cases "i = mb_id m")
      case True
      have "(case read_receipt ?t i of None \<Rightarrow> 0 | Some r \<Rightarrow> rt_attempts r) = tried e"
        using Some e True by (simp add: read_receipt_part t tried_def watchdog_part_def split: option.split)
      then show ?thesis
        using Some e True by (simp add: claim_member_def Let_def getEntry_save t claim_row_def)
    next
      case False
      then show ?thesis using Some e by (simp add: claim_member_def Let_def getEntry_save t)
    qed
  qed
qed

lemma claimed_rows:
  assumes "getEntry s i = Some e" and "deliveryState e \<in> {Pending, Failed, Sending}"
  shows "\<exists>e'. getEntry (fold (claim_member text) ms s) i = Some e' \<and>
    (if i \<in> mb_id ` set ms
     then deliveryState e' = Sending \<and> tried e + 1 \<le> tried e' \<and> watchdog_part e' \<noteq> None else e' = e)"
  using assms
proof (induction ms arbitrary: s e)
  case Nil
  then show ?case by simp
next
  case (Cons m ms)
  let ?s = "claim_member text m s"
  show ?case
  proof (cases "mb_id m = i")
    case False
    then have "getEntry ?s i = Some e"
      using Cons.prems(1) by (simp add: claim_member_row)
    from Cons.IH [OF this Cons.prems(2)] False show ?thesis by auto
  next
    case True
    then obtain e1 where e1: "getEntry ?s i = Some e1" "deliveryState e1 = Sending" "tried e1 = tried e + 1" "watchdog_part e1 \<noteq> None"
      using Cons.prems by (simp add: claim_row_facts claim_member_row tried_def new_receipt_def)
    from Cons.IH [OF e1(1)] e1 obtain e' where "getEntry (fold (claim_member text) ms ?s) i = Some e'"
        "if i \<in> mb_id ` set ms then deliveryState e' = Sending \<and> tried e1 + 1 \<le> tried e' \<and> watchdog_part e' \<noteq> None else e' = e1"
      by auto
    then show ?thesis using True e1 by (auto split: if_splits)
  qed
qed

lemma standing_claimed:
  assumes "standing_ok c (Some e) us" and "sendable e" and "case watchdog_part e of None \<Rightarrow> True | Some r \<Rightarrow> \<not> rt_ended r"
    and "deliveryState e' = Sending" and "tried e + 1 \<le> tried e'" and "watchdog_part e' \<noteq> None"
  shows "standing_ok c (Some e') (us @ [a])"
  using assms by (auto simp: standing_ok_def sendable_def tried_def split: option.splits)

text \<open>A source that is sent had no member with a word against it.\<close>

lemma map_filter_Nil: "List.map_filter f xs = [] \<longleftrightarrow> (\<forall>x \<in> set xs. f x = None)"
  by (induction xs) (auto simp: List.map_filter_simps split: option.split)

lemma reconcile_None:
  assumes "reconcile c now s src = None" and "m \<in> set (members src)"
  shows "member_standing c now (tl (members src) \<noteq> []) s m = None"
proof (cases "members src")
  case Nil
  then show ?thesis using assms(2) by simp
next
  case (Cons x xs)
  then have "List.map_filter (member_standing c now (xs \<noteq> []) s) (x # xs) = []"
    using assms(1) by (auto simp: reconcile_def simp del: List.map_filter_simps split: list.splits if_splits)
  then show ?thesis using assms(2) Cons by (auto simp: map_filter_Nil simp del: List.map_filter_simps)
qed

lemma member_standing_None:
  "member_standing c now several s m = None \<Longrightarrow> getEntry s (mb_id m) = Some e \<Longrightarrow>
     case watchdog_part e of None \<Rightarrow> True | Some r \<Rightarrow> \<not> rt_ended r"
  by (auto simp: member_standing_def Let_def read_receipt_part split: if_splits option.splits)

lemma begin_cases:
  assumes "begin_delivery c now req src s = Inr (t, b)"
  obtains "t = s" "\<forall>ms. b \<noteq> Sends ms"
    | u where "try_fold (record_member now (dr_target req) (rc_text c (dr_message req))) (members src) s = Inr u"
        "t = u" "\<forall>ms. b \<noteq> Sends ms"
    | u where "try_fold (record_member now (dr_target req) (rc_text c (dr_message req))) (members src) s = Inr u"
        "t = fold (claim_member (rc_text c (dr_message req))) (members src) u" "b = Sends (members src)"
        "list_all (in_states {Pending, Failed} u) (members src)" "reconcile c now s src = None"
  using assms by (auto simp: begin_delivery_def claim_members_def effect_simps split: if_splits option.splits)

lemma begin_quiet:
  assumes "begin_delivery c now req src s = Inr (t, b)" and "\<forall>ms. b \<noteq> Sends ms"
  shows "row_recorded (map mb_id (members src)) i (getEntry s i) (getEntry t i)"
  using assms(1)
proof (cases rule: begin_cases)
  case 1
  then show ?thesis by (simp add: row_recorded_def split: option.split)
next
  case (2 u)
  then show ?thesis by (simp add: recorded_rows)
next
  case (3 u)
  then show ?thesis using assms(2) by simp
qed

lemma custody_inv_begin:
  assumes inv: "custody_inv c s" and begun: "begin_delivery c now req src (cu_outbox s) = Inr (t, Sends ms)"
  shows "custody_inv c \<lparr>cu_outbox = t, cu_attempts = cu_attempts s @ [\<lparr>ia_members = ms, ia_state = Awaited\<rparr>]\<rparr>"
  unfolding custody_inv_def
proof (intro allI impI)
  fix i :: string
  assume "prefix PREFIX i"
  let ?a = "\<lparr>ia_members = ms, ia_state = Awaited\<rparr>"
  let ?us = "filter (for_occurrence i) (cu_attempts s)"
  from begun obtain u where u: "try_fold (record_member now (dr_target req) (rc_text c (dr_message req))) ms (cu_outbox s) = Inr u"
      "t = fold (claim_member (rc_text c (dr_message req))) ms u"
      "list_all (in_states {Pending, Failed} u) ms" and none: "reconcile c now (cu_outbox s) src = None" "ms = members src"
    by (elim begin_cases) auto
  have row: "row_recorded (map mb_id ms) i (getEntry (cu_outbox s) i) (getEntry u i)"
    by (rule recorded_rows [OF u(1)])
  have ok: "standing_ok c (getEntry u i) ?us"
    using inv \<open>prefix PREFIX i\<close> row by (auto simp: custody_inv_def intro: standing_recorded)
  have "standing_ok c (getEntry t i) (?us @ filter (for_occurrence i) [?a])"
  proof (cases "i \<in> mb_id ` set ms")
    case False
    then have "getEntry t i = getEntry u i"
      unfolding u(2) by (induction ms arbitrary: u) (auto simp: claim_member_row)
    then show ?thesis using ok False by (simp add: for_occurrence_def)
  next
    case True
    then obtain m where m: "m \<in> set ms" "mb_id m = i" by auto
    with u(3) obtain e where e: "getEntry u i = Some e" "deliveryState e \<in> {Pending, Failed}"
      by (auto simp: in_states_def list_all_iff split: option.splits)
    have fresh: "case watchdog_part e of None \<Rightarrow> True | Some r \<Rightarrow> \<not> rt_ended r"
    proof (cases "getEntry (cu_outbox s) i")
      case None
      then show ?thesis using row e(1) by (auto simp: row_recorded_def split: option.splits)
    next
      case (Some x)
      then have "x = e" using row e(1) by (simp add: row_recorded_def)
      then show ?thesis
        using member_standing_None [OF reconcile_None [OF none(1)], of m e] m none(2) Some by simp
    qed
    from claimed_rows [OF e(1), of "rc_text c (dr_message req)" ms] e(2) True
    obtain e' where "getEntry t i = Some e'" "deliveryState e' = Sending" "tried e + 1 \<le> tried e'" "watchdog_part e' \<noteq> None"
      unfolding u(2) by auto
    then show ?thesis
      using standing_claimed [OF ok [unfolded e(1)] _ fresh, of e' ?a] e(2) True
      by (auto simp: sendable_def for_occurrence_def)
  qed
  then show "standing_ok c (getEntry (cu_outbox \<lparr>cu_outbox = t, cu_attempts = cu_attempts s @ [?a]\<rparr>) i)
      (filter (for_occurrence i) (cu_attempts \<lparr>cu_outbox = t, cu_attempts = cu_attempts s @ [?a]\<rparr>))"
    by simp
qed

section \<open>The outcome\<close>

text \<open>What finishing leaves of a member's row.\<close>

definition settled :: "receipts_config \<Rightarrow> sent_outcome \<Rightarrow> outbox_entry \<Rightarrow> outbox_entry \<Rightarrow> bool" where
  "settled c res e e' \<longleftrightarrow>
     deliveryState e' = (if deliveryState e = Sending then outcome_state (final_outcome res) else deliveryState e) \<and>
     (\<exists>r r'. watchdog_part e = Some r \<and> watchdog_part e' = Some r' \<and> rt_attempts r' = rt_attempts r \<and>
        (has_ended c r res \<longrightarrow> rt_ended r'))"

lemma finish_member_row:
  assumes "finish_member c now res m (s, outs) = Inr (t, outs')"
  shows "if i = mb_id m then \<exists>e e'. getEntry s i = Some e \<and> getEntry t i = Some e' \<and> settled c res e e'
    else getEntry t i = getEntry s i"
proof -
  from assms obtain r u x where r: "read_receipt s (mb_id m) = Some r"
    and u: "finalizeDelivery now (mb_id m) (final_outcome res) s = Inr (u, x)"
    and t: "t = save_receipt (mb_id m) (finished_receipt c now res (mb_id m) r) u"
    by (auto simp: finish_member_def split: option.splits sum.splits)
  have get: "getEntry u k = map_option (\<lambda>e. if outboxId e = mb_id m \<and> deliveryState e = Sending
      then e\<lparr>deliveryState := outcome_state (final_outcome res),
             deliveredAt := (if final_outcome res = Out_delivered then Some now else None)\<rparr> else e) (getEntry s k)" for k
    using u by (auto simp: finalizeDelivery_def cas_update_def reread_Inr getEntry_row_set)
  show ?thesis
  proof (cases "i = mb_id m")
    case False
    then show ?thesis by (cases "getEntry s i") (auto simp: t getEntry_save get dest: getEntry_id)
  next
    case True
    with r obtain e where e: "getEntry s i = Some e" "watchdog_part e = Some r" "outboxId e = i"
      by (auto simp: read_receipt_part bind_eq_Some_conv dest: getEntry_id)
    then show ?thesis
      using True by (simp add: t getEntry_save get settled_def watchdog_part_def finished_receipt_def)
  qed
qed

lemma settled_trans: "settled c res e f \<Longrightarrow> settled c res f g \<Longrightarrow> settled c res e g"
  by (auto simp: settled_def has_ended_def)

lemma finished_rows:
  assumes "try_fold (finish_member c now res) ms (s, outs) = Inr (t, outs')"
  shows "if i \<in> mb_id ` set ms then \<exists>e e'. getEntry s i = Some e \<and> getEntry t i = Some e' \<and> settled c res e e'
    else getEntry t i = getEntry s i"
  using assms
proof (induction ms arbitrary: s outs)
  case Nil
  then show ?case by simp
next
  case (Cons m ms)
  then obtain u o1 where u: "finish_member c now res m (s, outs) = Inr (u, o1)" "try_fold (finish_member c now res) ms (u, o1) = Inr (t, outs')"
    by (auto simp: effect_simps)
  from finish_member_row [OF u(1), of i] Cons.IH [OF u(2)] show ?case
    by (cases "i = mb_id m"; cases "i \<in> mb_id ` set ms") (auto intro: settled_trans)
qed

text \<open>An awaited attempt is the last one of each occurrence it was for.\<close>

lemma awaited_last:
  assumes "list_all nothing (butlast (filter P xs))" and "k < length xs" and "\<not> nothing (xs ! k)" and "P (xs ! k)"
  shows "filter P (xs[k := y]) = butlast (filter P xs) @ (if P y then [y] else [])"
    and "filter P xs = butlast (filter P xs) @ [xs ! k]"
proof -
  let ?l = "filter P (take k xs)" and ?r = "filter P (drop (Suc k) xs)"
  have split: "filter P xs = ?l @ xs ! k # ?r"
    using assms(2,4) by (metis (no_types, lifting) filter.simps(2) filter_append id_take_nth_drop)
  have "?r = []"
  proof (rule ccontr)
    assume "?r \<noteq> []"
    then have "butlast (filter P xs) = ?l @ xs ! k # butlast ?r" by (simp add: split butlast_append)
    then show False using assms(1,3) by simp
  qed
  then have last: "filter P xs = ?l @ [xs ! k]" using split by simp
  then show "filter P xs = butlast (filter P xs) @ [xs ! k]" by simp
  show "filter P (xs[k := y]) = butlast (filter P xs) @ (if P y then [y] else [])"
    using \<open>?r = []\<close> assms(2) last by (simp add: upd_conv_take_nth_drop)
qed

lemma filter_update_other:
  "k < length xs \<Longrightarrow> \<not> P (xs ! k) \<Longrightarrow> \<not> P y \<Longrightarrow> filter P (xs[k := y]) = filter P xs"
  by (induction xs arbitrary: k) (auto simp: nth_Cons split: nat.splits)

lemma failed_iff: "final_outcome r = Out_failed \<longleftrightarrow> dl_status r = Dl_failed \<and> no_input r"
  by (simp add: final_outcome_def split: delivery_status.split)

lemma standing_settled:
  assumes "standing_ok c (Some e) (us @ [a])" and "settled c (send_result answer) e e'" and "ia_state a = Awaited"
  shows "standing_ok c (Some e') (us @ [a\<lparr>ia_state := answered_state answer\<rparr>])"
proof -
  obtain r r' where r: "watchdog_part e = Some r" "watchdog_part e' = Some r'" "rt_attempts r' = rt_attempts r"
      "has_ended c r (send_result answer) \<Longrightarrow> rt_ended r'"
    using assms(2) by (auto simp: settled_def)
  have quiet: "\<not> sendable e" using assms(1,3) by (auto simp: standing_ok_def nothing_def)
  have state: "sendable e' \<Longrightarrow> final_outcome (send_result answer) = Out_failed"
    using assms(2) quiet by (cases "final_outcome (send_result answer)") (auto simp: settled_def sendable_def split: if_splits)
  have "final_outcome (send_result answer) = Out_failed \<Longrightarrow> \<not> rt_ended r' \<Longrightarrow> rt_attempts r \<le> rc_cap c"
    using r(4) by (force simp: has_ended_def final_outcome_def split: delivery_status.splits if_splits)
  then show ?thesis
    using assms(1) r state by (auto simp: standing_ok_def nothing_def answered_state_def failed_iff)
qed

lemma standing_lost:
  assumes "standing_ok c row (us @ [a])" and "ia_state a = Awaited" and "st \<noteq> Reached_nothing"
  shows "standing_ok c row (us @ [a\<lparr>ia_state := st\<rparr>])"
  using assms by (auto simp: standing_ok_def nothing_def split: option.splits)

lemma custody_inv_finish:
  assumes inv: "custody_inv c s" and k: "k < length (cu_attempts s)" "ia_state (cu_attempts s ! k) = Awaited"
    and fin: "\<And>i. if for_occurrence i (cu_attempts s ! k)
        then (t = cu_outbox s \<and> st \<noteq> Reached_nothing) \<or>
          (\<exists>e e'. getEntry (cu_outbox s) i = Some e \<and> getEntry t i = Some e' \<and> settled c (send_result answer) e e' \<and>
             st = answered_state answer)
        else getEntry t i = getEntry (cu_outbox s) i"
  shows "custody_inv c \<lparr>cu_outbox = t, cu_attempts = (cu_attempts s)[k := (cu_attempts s ! k)\<lparr>ia_state := st\<rparr>]\<rparr>"
  unfolding custody_inv_def
proof (intro allI impI)
  fix i :: string
  assume i: "prefix PREFIX i"
  let ?xs = "cu_attempts s" and ?a = "cu_attempts s ! k"
  let ?b = "?a\<lparr>ia_state := st\<rparr>"
  have ok: "standing_ok c (getEntry (cu_outbox s) i) (filter (for_occurrence i) ?xs)"
    using inv i by (simp add: custody_inv_def)
  have same: "for_occurrence i ?b = for_occurrence i ?a" by (simp add: for_occurrence_def)
  have "standing_ok c (getEntry t i) (filter (for_occurrence i) (?xs[k := ?b]))"
  proof (cases "for_occurrence i ?a")
    case False
    then show ?thesis using ok fin [of i] same k(1) by (simp add: filter_update_other)
  next
    case True
    then have "filter (for_occurrence i) ?xs \<noteq> []"
      using k(1) by (auto simp: filter_empty_conv)
    then have all: "list_all nothing (butlast (filter (for_occurrence i) ?xs))"
      using ok by (auto simp: standing_ok_def split: option.splits)
    let ?us = "butlast (filter (for_occurrence i) ?xs)"
    have "\<not> nothing ?a" using k(2) by (simp add: nothing_def)
    note last = awaited_last(1) [OF all k(1) this True, of ?b] awaited_last(2) [OF all k(1) this True]
    have new: "filter (for_occurrence i) (?xs[k := ?b]) = ?us @ [?b]" using last(1) True same by simp
    have old: "standing_ok c (getEntry (cu_outbox s) i) (?us @ [?a])" using ok last(2) by simp
    from fin [of i] True consider "t = cu_outbox s" "st \<noteq> Reached_nothing"
      | e e' where "getEntry (cu_outbox s) i = Some e" "getEntry t i = Some e'" "settled c (send_result answer) e e'"
          "st = answered_state answer"
      by auto
    then show ?thesis
      unfolding new using old k(2) by cases (auto intro: standing_lost standing_settled)
  qed
  then show "standing_ok c (getEntry (cu_outbox \<lparr>cu_outbox = t, cu_attempts = ?xs[k := ?b]\<rparr>) i)
      (filter (for_occurrence i) (cu_attempts \<lparr>cu_outbox = t, cu_attempts = ?xs[k := ?b]\<rparr>))"
    by simp
qed

section \<open>The machine keeps the promise\<close>

lemma calm_recover: "calm i s (recover_sending s)"
  unfolding recover_sending_def by (rule calm_row_set) (auto simp: calm_row_def sendable_def watchdog_part_def)

lemma custody_step_inv:
  assumes "custody_inv c s" and "custody_step c op s = Inr t"
  shows "custody_inv c t"
proof (cases op)
  case (Cu_begin now req src)
  obtain u b where b: "begin_delivery c now req src (cu_outbox s) = Inr (u, b)"
    using assms(2) Cu_begin by (auto split: sum.splits)
  show ?thesis
  proof (cases b)
    case (Sends ms)
    then show ?thesis using assms custody_inv_begin b Cu_begin by auto
  next
    case (Answered d)
    then have t: "t = s\<lparr>cu_outbox := u\<rparr>" using assms(2) b Cu_begin by simp
    have "row_recorded (map mb_id (members src)) i (getEntry (cu_outbox s) i) (getEntry u i)" for i
      by (rule begin_quiet [OF b]) (simp add: Answered)
    then show ?thesis using assms(1) unfolding t by (auto simp: custody_inv_def intro: standing_recorded)
  next
    case Passes
    then have t: "t = s\<lparr>cu_outbox := u\<rparr>" using assms(2) b Cu_begin by simp
    have "row_recorded (map mb_id (members src)) i (getEntry (cu_outbox s) i) (getEntry u i)" for i
      by (rule begin_quiet [OF b]) (simp add: Passes)
    then show ?thesis using assms(1) unfolding t by (auto simp: custody_inv_def intro: standing_recorded)
  qed
next
  case (Cu_finish now k answer)
  then have k: "k < length (cu_attempts s)" "ia_state (cu_attempts s ! k) = Awaited"
    using assms(2) by (auto split: if_splits)
  let ?a = "cu_attempts s ! k"
  show ?thesis
  proof (cases "finish_delivery c now (ia_members ?a) answer (cu_outbox s)")
    case (Inl x)
    then have "t = \<lparr>cu_outbox = cu_outbox s, cu_attempts = (cu_attempts s)[k := ?a\<lparr>ia_state := Maybe_reached\<rparr>]\<rparr>"
      using assms(2) Cu_finish k by (auto simp: Let_def)
    then show ?thesis using custody_inv_finish [OF assms(1) k, of "cu_outbox s" Maybe_reached] by simp
  next
    case (Inr p)
    obtain u v where p: "p = (u, v)" by (rule prod.exhaust)
    from Inr p obtain outs where folded: "try_fold (finish_member c now (send_result answer)) (ia_members ?a) (cu_outbox s, []) = Inr (u, outs)"
      by (auto simp: finish_delivery_def effect_simps)
    have t: "t = \<lparr>cu_outbox = u, cu_attempts = (cu_attempts s)[k := ?a\<lparr>ia_state := answered_state answer\<rparr>]\<rparr>"
      using assms(2) Cu_finish k Inr p by (simp add: Let_def)
    have fin: "if for_occurrence i ?a
        then (u = cu_outbox s \<and> answered_state answer \<noteq> Reached_nothing) \<or>
          (\<exists>e e'. getEntry (cu_outbox s) i = Some e \<and> getEntry u i = Some e' \<and> settled c (send_result answer) e e' \<and>
             answered_state answer = answered_state answer)
        else getEntry u i = getEntry (cu_outbox s) i" for i
      using finished_rows [OF folded, of i] by (auto simp: for_occurrence_def)
    show ?thesis unfolding t by (rule custody_inv_finish [OF assms(1) k fin])
  qed
next
  case Cu_crash
  then show ?thesis using assms custody_inv_crash by auto
next
  case Cu_recover
  then show ?thesis using assms custody_inv_calm calm_recover by auto
next
  case (Cu_other op')
  then obtain u where "outbox_step op' (cu_outbox s) = Inr u" "foreign op'" "t = s\<lparr>cu_outbox := u\<rparr>"
    using assms(2) by (cases "outbox_step op' (cu_outbox s)") (auto split: if_splits)
  then show ?thesis using assms(1) custody_inv_calm calm_foreign by auto
qed

interpretation custody: guarded_machine "custody_step c" "custody_inv c" for c
  by unfold_locales (rule custody_step_inv)

lemma custody_inv_empty: "custody_inv c empty_custody"
  by (simp add: custody_inv_def empty_custody_def standing_ok_def getEntry_def row_simps)

text \<open>C11: A scheduled occurrence is never typed twice: whatever deliveries, outcomes, crashes, recoveries and other
  outbox operations interleave, every input attempt for an occurrence but the last is known to have reached nothing,
  and there are at most as many attempts as the retry cap plus one.\<close>

theorem occurrence_sent_once:
  "let tries = filter (for_occurrence (PREFIX @ occ)) (cu_attempts (run_steps (custody_step c) ops empty_custody))
   in list_all nothing (butlast tries) \<and> length tries \<le> nat (rc_cap c) + 1"
proof -
  let ?s = "run_steps (custody_step c) ops empty_custody"
  have "custody_inv c ?s" by (rule custody.run_keeps) (rule custody_inv_empty)
  then have "standing_ok c (getEntry (cu_outbox ?s) (PREFIX @ occ)) (filter (for_occurrence (PREFIX @ occ)) (cu_attempts ?s))"
    by (simp add: custody_inv_def)
  then show ?thesis by (auto simp: standing_ok_def Let_def split: option.splits)
qed

text \<open>A digest is claimed whole or not at all: when a delivery goes out, every member's row is in flight with one
  attempt more than before; when it does not, no row that existed changed and none is in flight that was not.\<close>

theorem digest_claimed_whole:
  assumes "begin_delivery c now req src s = Inr (t, b)"
  shows "(case b of
      Sends ms \<Rightarrow> ms = members src \<and> ms \<noteq> [] \<and> list_all (\<lambda>m. case getEntry t (mb_id m) of
          None \<Rightarrow> False
        | Some e \<Rightarrow> deliveryState e = Sending \<and> (case getEntry s (mb_id m) of None \<Rightarrow> 0 | Some x \<Rightarrow> tried x) < tried e) ms
    | _ \<Rightarrow> \<forall>i. row_recorded (map mb_id (members src)) i (getEntry s i) (getEntry t i))"
proof (cases "\<forall>ms. b \<noteq> Sends ms")
  case True
  then show ?thesis using begin_quiet [OF assms True] by (cases b) simp_all
next
  case False
  with assms obtain u where 3: "try_fold (record_member now (dr_target req) (rc_text c (dr_message req))) (members src) s = Inr u"
      "t = fold (claim_member (rc_text c (dr_message req))) (members src) u" "b = Sends (members src)"
      "list_all (in_states {Pending, Failed} u) (members src)"
    by (elim begin_cases) auto
  have "members src \<noteq> []" using assms 3(3) by (auto simp: begin_delivery_def)
  moreover have "case getEntry t (mb_id m) of None \<Rightarrow> False
      | Some e \<Rightarrow> deliveryState e = Sending \<and> (case getEntry s (mb_id m) of None \<Rightarrow> 0 | Some x \<Rightarrow> tried x) < tried e"
    if m: "m \<in> set (members src)" for m
  proof -
    from 3(4) m obtain e where e: "getEntry u (mb_id m) = Some e" "deliveryState e \<in> {Pending, Failed}"
      by (auto simp: in_states_def list_all_iff split: option.splits)
    have "(case getEntry s (mb_id m) of None \<Rightarrow> 0 | Some x \<Rightarrow> tried x) = tried e"
      using recorded_rows [OF 3(1), of "mb_id m"] e(1) by (auto simp: row_recorded_def tried_def split: option.splits)
    with claimed_rows [OF e(1), of "rc_text c (dr_message req)" "members src"] e(2) m show ?thesis
      by (auto simp: 3(2))
  qed
  ultimately show ?thesis using 3(3) by (simp add: list_all_iff)
qed

end
