(* ===== verification/Watchdog_Delivery.thy ===== *)
theory Watchdog_Delivery
  imports Watchdog_Custody
begin

text \<open>
  The input adapter (\<open>packages/daemon/src/domain/watchdog-delivery.ts\<close>): one call of the session transport per
  delivery, with its typed refusals. The transport is a function of the request and of what the seat is at the
  moment of the write, which the request's hook is given.
\<close>

definition PARKED_OWNER_POLICY_NAME :: string where
  "PARKED_OWNER_POLICY_NAME = ''parked-owner-consumer''"

datatype thrown = Guard_refusal string string | Outbox_refusal outbox_error string | Other_error string

definition thrown_text :: "thrown \<Rightarrow> string" where
  "thrown_text x = (case x of Guard_refusal _ m \<Rightarrow> m | Outbox_refusal _ m \<Rightarrow> m | Other_error m \<Rightarrow> m)"

text \<open>The header names the digest or the job; the warning is there when no receipt guards the occurrence.\<close>

record payload =
  pl_policy :: string
  pl_jobs :: "nat option"
  pl_id :: string
  pl_warning :: bool
  pl_text :: wake_text

definition formatWatchdogDeliveryMessage :: "delivery_source \<Rightarrow> bool \<Rightarrow> wake_text \<Rightarrow> payload" where
  "formatWatchdogDeliveryMessage src warning msg =
     \<lparr>pl_policy = dv_policy src, pl_jobs = map_option length (dv_members src), pl_id = dv_job src,
      pl_warning = warning, pl_text = msg\<rparr>"

text \<open>A seat as it is at one moment: terminal, with a managed compaction pending.\<close>

type_synonym seat_now = "bool \<times> bool"

record transport_request =
  tq_target :: string
  tq_payload :: payload
  tq_audit :: string
  tq_beforeWrite :: "(seat_now \<Rightarrow> thrown option) option"

record transport_failure =
  tf_error :: "string option"
  tf_sent :: "bool option"
  tf_reason :: "string option"
  tf_inputPhase :: "string option"
  tf_noInputCode :: "string option"

datatype transport_answer = Tr_retained "string list" | Tr_ok | Tr_failed transport_failure

record adapter =
  ad_outbox :: bool
  ad_knowsCompaction :: bool
  ad_knowsTerminal :: bool
  ad_continuity :: "(continuity_action \<Rightarrow> thrown option) option"
  ad_send :: "transport_request \<Rightarrow> thrown + transport_answer"

definition checkTerminal :: "adapter \<Rightarrow> delivery_source \<Rightarrow> seat_now \<Rightarrow> thrown option" where
  "checkTerminal a src seat =
     (if dv_policy src = PARKED_OWNER_POLICY_NAME \<and> ad_knowsTerminal a \<and> fst seat
      then Some (Guard_refusal ''terminal_seat''
        ''A terminal seat cannot consume an automated parked-owner reminder; route its obligation to an agent seat. No input was written.'')
      else None)"

definition beforeWrite :: "adapter \<Rightarrow> delivery_source \<Rightarrow> (seat_now \<Rightarrow> thrown option) option" where
  "beforeWrite a src =
     (if dv_policy src = PARKED_OWNER_POLICY_NAME \<and> (ad_knowsCompaction a \<or> ad_knowsTerminal a)
      then Some (\<lambda>seat. case checkTerminal a src seat of
          Some x \<Rightarrow> Some x
        | None \<Rightarrow> if ad_knowsCompaction a \<and> snd seat
            then Some (Guard_refusal ''managed_compaction_pending''
            ''[managed-compaction-pending] Parked-owner reminder deferred until the existing post-compact stages clear.'') else None)
      else None)"

definition refused :: "bool \<Rightarrow> thrown \<Rightarrow> sent_outcome" where
  "refused continued x =
     (let code = (case x of
            Outbox_refusal Retained_quota_full _ \<Rightarrow> Some ''retained_quota_full''
          | Guard_refusal c _ \<Rightarrow> if c = ''terminal_seat'' then Some c else None
          | _ \<Rightarrow> None)
      in delivery_outcome.extend
          ((plain_outcome Dl_failed)\<lparr>dl_code := code, dl_inputPhase := (if code = None then None else Some ''not_reached''),
             dl_error := Some (thrown_text x), dl_continuityCompleted := continued\<rparr>)
          (sent_outcome.fields None None))"

definition answered :: "bool \<Rightarrow> transport_answer \<Rightarrow> sent_outcome" where
  "answered continued ans = (case ans of
     Tr_retained ids \<Rightarrow> delivery_outcome.extend
       ((plain_outcome Dl_retained)\<lparr>dl_outboxIds := ids, dl_continuityCompleted := continued\<rparr>) (sent_outcome.fields None None)
   | Tr_ok \<Rightarrow> delivery_outcome.extend ((plain_outcome Dl_ok)\<lparr>dl_continuityCompleted := continued\<rparr>) (sent_outcome.fields None None)
   | Tr_failed f \<Rightarrow> delivery_outcome.extend
       ((plain_outcome Dl_failed)\<lparr>dl_error := tf_error f,
          dl_inputPhase := (if truthy (tf_inputPhase f) then tf_inputPhase f else None),
          dl_code := (if tf_sent f = Some False \<and> tf_inputPhase f = Some ''not_reached'' \<and> truthy (tf_noInputCode f)
                      then tf_noInputCode f else None),
          dl_continuityCompleted := continued\<rparr>)
       (sent_outcome.fields (tf_sent f) (if truthy (tf_reason f) then tf_reason f else None)))"

text \<open>The requests the call made, and its outcome; it never throws.\<close>

definition watchdog_input ::
  "adapter \<Rightarrow> seat_now \<Rightarrow> delivery_request \<Rightarrow> delivery_source \<Rightarrow> transport_request list \<times> sent_outcome" where
  "watchdog_input a seat req src =
     (case checkTerminal a src seat of
        Some x \<Rightarrow> ([], refused False x)
      | None \<Rightarrow>
          (case (case (dr_continuity req, ad_continuity a) of (Some act, Some create) \<Rightarrow> create act | _ \<Rightarrow> None) of
             Some x \<Rightarrow> ([], refused False x)
           | None \<Rightarrow>
               let continued = (dr_continuity req \<noteq> None);
                   warning = (\<not> (ad_outbox a \<and> dv_policy src = ''periodic-reminder''));
                   q = \<lparr>tq_target = dr_target req,
                        tq_payload = formatWatchdogDeliveryMessage src warning (dr_message req),
                        tq_audit = dv_job src, tq_beforeWrite = beforeWrite a src\<rparr>
               in ([q], case ad_send a q of Inl x \<Rightarrow> refused continued x | Inr ans \<Rightarrow> answered continued ans)))"

text \<open>A typed refusal ends the occurrence it was for, with a reason that ends its job; any other thrown error leaves
  the input unconfirmed, so the occurrence is never tried again.\<close>

lemma refused_ends:
  "final_outcome (refused b x) = (if dl_code (refused b x) = None then Out_indeterminate else Out_failed)"
  "terminal_reason (refused b x) = (if dl_code (refused b x) = None then None else Some ''watchdog_delivery_unavailable'')"
  "has_ended c r (refused b x)"
  by (auto simp: refused_def Let_def final_outcome_def terminal_reason_def has_ended_def no_input_def permanent_def
      delivery_outcome.defs sent_outcome.defs plain_outcome_def split: thrown.split outbox_error.split)


end
