(* ===== verification/Watchdog_Context.thy ===== *)
theory Watchdog_Context
  imports Watchdog_Wakes
begin

text \<open>
  The context usage watch (\<open>packages/daemon/src/domain/policies/context-usage-threshold.ts\<close>): it fires once per
  occupant of its seat, when the transcript's bytes, the sampled tokens or the sampled percentage reach the
  threshold, and tells its target once per occupant and reason that it can't read the sample. The file system and
  the printing of numbers and times are parameters.
\<close>

section \<open>The policy\<close>

record context_env =
  cx_measure :: "string \<Rightarrow> string + int"
  cx_num :: "rat \<Rightarrow> string"
  cx_iso :: "timestamp \<Rightarrow> string"

datatype threshold_unit = Unit_bytes | Unit_tokens | Unit_percent

definition thresholdUnit :: "policy_job \<Rightarrow> threshold_unit" where
  "thresholdUnit j = (if pj_thresholdTokens j \<noteq> None then Unit_tokens
     else if pj_thresholdPercent j \<noteq> None then Unit_percent else Unit_bytes)"

definition threshold_of :: "policy_job \<Rightarrow> rat option" where
  "threshold_of j = (case thresholdUnit j of
     Unit_tokens \<Rightarrow> map_option of_int (pj_thresholdTokens j)
   | Unit_percent \<Rightarrow> pj_thresholdPercent j
   | Unit_bytes \<Rightarrow> map_option of_int (pj_thresholdBytes j))"

definition null_or :: "('a \<Rightarrow> yaml) \<Rightarrow> 'a option \<Rightarrow> yaml" where
  "null_or f x = (case x of None \<Rightarrow> Y_null | Some v \<Rightarrow> f v)"

definition y_rat :: "rat \<Rightarrow> yaml" where
  "y_rat q = Y_number (Finite q)"

text \<open>\<open>String.split(",")\<close> and \<open>join(",")\<close>.\<close>

fun split_comma :: "string \<Rightarrow> string list" where
  "split_comma [] = [[]]"
| "split_comma (c # cs) = (if c = CHR '','' then [] # split_comma cs
     else case split_comma cs of [] \<Rightarrow> [[c]] | p # ps \<Rightarrow> (c # p) # ps)"

fun join_with_comma :: "string list \<Rightarrow> string" where
  "join_with_comma [] = []"
| "join_with_comma [x] = x"
| "join_with_comma (x # xs) = x @ CHR '','' # join_with_comma xs"

definition unreadable_prefix :: "policy_job \<Rightarrow> string" where
  "unreadable_prefix j = ''unreadable:'' @ the (pj_occupant j) @ '':''"

text \<open>The reasons the occupant has been told.\<close>

definition told :: "policy_job \<Rightarrow> string list" where
  "told j = (case pj_firedCondition j of
     None \<Rightarrow> []
   | Some s \<Rightarrow> if starts_with (unreadable_prefix j) s then split_comma (drop (length (unreadable_prefix j)) s) else [])"

definition unreadable ::
  "context_env \<Rightarrow> policy_job \<Rightarrow> rat \<Rightarrow> string \<Rightarrow> string \<Rightarrow> wake_notes \<Rightarrow> policy_evaluation" where
  "unreadable cx j threshold reason detail notes =
     (if reason \<in> set (told j)
      then Pe_skip ''context_sample_unreadable_notified'' (Some (with_key ''unreadable'' (Y_string reason) notes))
      else Pe_send (pj_target j)
        (''Context watch '' @ pj_id j @ '' can't read '' @ pj_target j @ '''s context use ('' @ detail @
         ''), so it can't tell whether the '' @ cx_num cx threshold @
         (if thresholdUnit j = Unit_percent then ''%'' else ''-token'') @
         '' threshold is reached. It acts on the next fresh sample, and won't repeat this for this occupant.'')
        (Some (with_key ''unreadable'' (Y_string reason) notes))
        (Some (unreadable_prefix j @ join_with_comma (sort (told j @ [reason])))) True)"

definition seat_notes :: "policy_job \<Rightarrow> wake_notes" where
  "seat_notes j = [(''targetSession'', Y_string (pj_target j)), (''occupantGeneration'', null_or Y_string (pj_occupant j))]"

text \<open>What was observed, or the answer that nothing could be.\<close>

definition observe :: "context_env \<Rightarrow> policy_job \<Rightarrow> rat \<Rightarrow> policy_evaluation + rat \<times> wake_notes" where
  "observe cx j threshold = (case thresholdUnit j of
     Unit_bytes \<Rightarrow>
       (case cx_measure cx (or_default (pj_watchedFile j) []) of
          Inl err \<Rightarrow> Inl (Pe_terminal ''watched_file_unresolved''
            (Some [(''watchedFilePath'', null_or Y_string (pj_watchedFile j)), (''error'', Y_string err)]))
        | Inr n \<Rightarrow> Inr (of_int n, [(''observedBytes'', y_rat (of_int n)), (''watchedFilePath'', null_or Y_string (pj_watchedFile j))]))
   | u \<Rightarrow>
       (case pj_sample j of
          None \<Rightarrow> Inl (unreadable cx j threshold ''context_sample_unavailable'' ''no sample for this occupant yet'' (seat_notes j))
        | Some x \<Rightarrow>
            if us_percent x = None \<and> us_tokens x = None
            then Inl (unreadable cx j threshold ''context_sample_unavailable'' ''no sample for this occupant yet'' (seat_notes j))
            else if \<not> us_fresh x
            then Inl (unreadable cx j threshold ''context_sample_stale''
              (''its last sample, at '' @ (case us_sampledAt x of None \<Rightarrow> ''null'' | Some s \<Rightarrow> cx_iso cx s) @ '', is 10 or more minutes old'')
              (seat_notes j @ [(''sampledAt'', null_or (\<lambda>s. Y_string (cx_iso cx s)) (us_sampledAt x))]))
            else if u = Unit_percent then
              (case us_percent x of
                 None \<Rightarrow> Inl (unreadable cx j threshold ''context_sample_unavailable'' ''the sample has no percentage'' (seat_notes j))
               | Some v \<Rightarrow> Inr (v, [(''observedPercent'', y_rat v), (''contextWindowSize'', null_or y_rat (us_window x))]))
            else
              (case us_tokens x of
                 None \<Rightarrow> Inl (unreadable cx j threshold ''context_window_unknown'' ''the sample has no token count or window size''
                   (seat_notes j @ [(''usedPercentage'', null_or y_rat (us_percent x))]))
               | Some v \<Rightarrow> Inr (v, [(''observedTokens'', y_rat v), (''contextWindowSize'', null_or y_rat (us_window x))]))))"

definition unit_name :: "threshold_unit \<Rightarrow> string" where
  "unit_name u = (case u of Unit_bytes \<Rightarrow> ''byte'' | Unit_tokens \<Rightarrow> ''tokens'' | Unit_percent \<Rightarrow> ''percent'')"

definition threshold_notes :: "policy_job \<Rightarrow> rat \<Rightarrow> wake_notes" where
  "threshold_notes j threshold = (if thresholdUnit j = Unit_bytes then [(''thresholdBytes'', y_rat threshold)]
     else [(''threshold'', y_rat threshold), (''unit'', Y_string (unit_name (thresholdUnit j)))])"

definition crossed_reason :: "context_env \<Rightarrow> policy_job \<Rightarrow> rat \<Rightarrow> rat \<Rightarrow> string" where
  "crossed_reason cx j threshold v =
     (let n = cx_num cx v in case thresholdUnit j of
        Unit_bytes \<Rightarrow> n @ '' transcript bytes''
      | Unit_tokens \<Rightarrow> n @ '' sampled context tokens''
      | Unit_percent \<Rightarrow> n @ ''% of the seat's context window'') @
     '' crossed the '' @ cx_num cx threshold @ ''-'' @ unit_name (thresholdUnit j) @ '' threshold for occupant '' @
     or_default (pj_occupant j) ''null'' @ ''.''"

text \<open>The comparison, and the watch this one waits for.\<close>

definition compare_reading :: "context_env \<Rightarrow> policy_job \<Rightarrow> rat \<Rightarrow> rat \<Rightarrow> wake_notes \<Rightarrow> policy_evaluation" where
  "compare_reading cx j threshold v notes =
     (if v < threshold then Pe_skip ''context_usage_below_threshold'' (Some (notes @ threshold_notes j threshold))
      else if truthy (pj_requires j) \<and> \<not> pj_receiptSatisfied j then
        Pe_skip (if pj_receiptDeferred j then ''required_watchdog_receipt_not_yet_eligible'' else ''required_watchdog_receipt_missing'')
          (Some [(''requiresJobId'', null_or Y_string (pj_requires j)), (''occupantGeneration'', null_or Y_string (pj_occupant j))])
      else
        Pe_send (pj_target j)
          (or_default (pj_message j) (''Context usage threshold crossed for '' @ pj_target j @ ''. '' @ crossed_reason cx j threshold v))
          (Some ([(''reason'', Y_string (crossed_reason cx j threshold v))] @ notes @ threshold_notes j threshold @
            (if thresholdUnit j = Unit_bytes then []
             else [(''sampledAt'', null_or (\<lambda>s. Y_string (cx_iso cx s)) (Option.bind (pj_sample j) us_sampledAt))]) @
            [(''occupantGeneration'', null_or Y_string (pj_occupant j))]))
          None False)"

definition contextUsageThresholdPolicy :: "context_env \<Rightarrow> policy" where
  "contextUsageThresholdPolicy cx j = Inr (
     case threshold_of j of
       None \<Rightarrow> Pe_terminal ''threshold_invalid'' None
     | Some threshold \<Rightarrow>
         if \<not> truthy (pj_occupant j) then Pe_terminal ''occupant_generation_unresolved'' (Some [(''targetSession'', Y_string (pj_target j))])
         else if pj_firedGeneration j = pj_occupant j then
           Pe_skip (if pj_lastEvaluation j = pj_lastFire j then ''threshold_already_fired'' else ''threshold_receipt_stable'')
             (Some [(''occupantGeneration'', null_or Y_string (pj_occupant j)), (''watchedFilePath'', null_or Y_string (pj_watchedFile j))])
         else if thresholdUnit j = Unit_bytes \<and> pj_transcriptPending j then
           Pe_skip ''current_generation_transcript_pending'' (Some (seat_notes j))
         else (case observe cx j threshold of
             Inl answer \<Rightarrow> answer
           | Inr (v, notes) \<Rightarrow> compare_reading cx j threshold v notes))"

section \<open>What the policy answers\<close>

text \<open>What a watch can read: the transcript's size, or the fresh sample in its unit.\<close>

definition readable :: "context_env \<Rightarrow> policy_job \<Rightarrow> rat option" where
  "readable cx j = (case thresholdUnit j of
     Unit_bytes \<Rightarrow> (if pj_transcriptPending j then None
       else case cx_measure cx (or_default (pj_watchedFile j) []) of Inl _ \<Rightarrow> None | Inr n \<Rightarrow> Some (of_int n))
   | u \<Rightarrow> (case pj_sample j of
       None \<Rightarrow> None
     | Some x \<Rightarrow> if \<not> us_fresh x then None else if u = Unit_percent then us_percent x else us_tokens x))"

definition fires :: "policy_evaluation \<Rightarrow> bool" where
  "fires out \<longleftrightarrow> (case out of Pe_send _ _ _ _ notice \<Rightarrow> \<not> notice | _ \<Rightarrow> False)"

lemma fires_simps [simp]:
  "fires (Pe_send target msg ns receipt notice) \<longleftrightarrow> \<not> notice" "\<not> fires (Pe_skip reason ns)" "\<not> fires (Pe_terminal reason ns)"
  by (simp_all add: fires_def)

lemma unreadable_never_fires [simp]: "\<not> fires (unreadable cx j th reason detail ns)"
  by (simp add: unreadable_def)

lemma compare_fires:
  "fires (compare_reading cx j th v ns) \<longleftrightarrow> th \<le> v \<and> (truthy (pj_requires j) \<longrightarrow> pj_receiptSatisfied j)"
  "fires (compare_reading cx j th v ns) \<Longrightarrow>
     pe_target (compare_reading cx j th v ns) = pj_target j \<and> pe_receipt (compare_reading cx j th v ns) = None"
  by (auto simp: compare_reading_def)

lemma observe_readable:
  "\<not> (thresholdUnit j = Unit_bytes \<and> pj_transcriptPending j) \<Longrightarrow>
     (case observe cx j th of Inl out \<Rightarrow> \<not> fires out \<and> readable cx j = None | Inr (v, ns) \<Rightarrow> readable cx j = Some v)"
  by (cases "thresholdUnit j"; cases "pj_sample j")
    (auto simp: observe_def readable_def split: sum.split option.split)

text \<open>C21: A context watch fires exactly when its seat's occupant is known and has not been fired at, the threshold
  of its unit is set, the reading (the transcript's bytes, or a fresh sample's tokens or percentage) is there and has
  reached it, and the watch it depends on has fired for this occupant first. Then it wakes its own target.\<close>

theorem context_watch_fires_iff:
  "(\<exists>out. contextUsageThresholdPolicy cx j = Inr out \<and> fires out \<and> pe_target out = pj_target j) \<longleftrightarrow>
     (\<exists>threshold v. threshold_of j = Some threshold \<and> readable cx j = Some v \<and> threshold \<le> v) \<and>
     truthy (pj_occupant j) \<and> pj_firedGeneration j \<noteq> pj_occupant j \<and>
     (truthy (pj_requires j) \<longrightarrow> pj_receiptSatisfied j)"
proof (cases "threshold_of j")
  case None
  then show ?thesis by (simp add: contextUsageThresholdPolicy_def)
next
  case (Some th)
  show ?thesis
  proof (cases "thresholdUnit j = Unit_bytes \<and> pj_transcriptPending j")
    case True
    then show ?thesis using Some by (auto simp: contextUsageThresholdPolicy_def readable_def)
  next
    case False
    note read = observe_readable [OF False, of cx th]
    show ?thesis
      using Some False read
      by (cases "observe cx j th") (auto simp: contextUsageThresholdPolicy_def compare_fires)
  qed
qed

lemma fires_needs:
  assumes "contextUsageThresholdPolicy cx j = Inr out" and "fires out"
  shows "truthy (pj_occupant j) \<and> pj_firedGeneration j \<noteq> pj_occupant j \<and> pe_receipt out = None"
proof -
  obtain th where th: "threshold_of j = Some th"
    using assms by (auto simp: contextUsageThresholdPolicy_def split: option.splits)
  have "\<not> (thresholdUnit j = Unit_bytes \<and> pj_transcriptPending j)"
    using assms th by (auto simp: contextUsageThresholdPolicy_def split: if_splits)
  from observe_readable [OF this, of cx th] show ?thesis
    using assms th compare_fires(2) by (auto simp: contextUsageThresholdPolicy_def split: if_splits sum.splits prod.splits)
qed

section \<open>Unreadable samples are told once\<close>

lemma split_join: "xs \<noteq> [] \<Longrightarrow> list_all (\<lambda>x. CHR '','' \<notin> set x) xs \<Longrightarrow> split_comma (join_with_comma xs) = xs"
proof (induction xs rule: join_with_comma.induct)
  case (2 x)
  then show ?case by (induction x) auto
next
  case (3 x y ys)
  have "split_comma (x @ CHR '','' # rest) = x # split_comma rest" if "CHR '','' \<notin> set x" for rest
    using that by (induction x) auto
  then show ?case using 3 by simp
qed simp

lemma split_comma_parts: "list_all (\<lambda>x. CHR '','' \<notin> set x) (split_comma s)"
  by (induction s) (auto split: list.splits)

lemma starts_with_append [simp]: "starts_with p (p @ s)"
  by (simp add: starts_with_def)

text \<open>An unreadable sample is told once: after a watch has told its target a reason and the receipt was banked,
  the same reason for the same occupant is a quiet skip, and every reason told before is still remembered.\<close>

theorem context_notice_once:
  assumes "unreadable cx j th reason detail ns = Pe_send target msg notes (Some receipt) True" and "CHR '','' \<notin> set reason"
  shows "set (told (j\<lparr>pj_firedCondition := Some receipt\<rparr>)) = insert reason (set (told j)) \<and>
    unreadable cx2 (j\<lparr>pj_firedCondition := Some receipt\<rparr>) th2 reason detail2 ns2 =
      Pe_skip ''context_sample_unreadable_notified'' (Some (with_key ''unreadable'' (Y_string reason) ns2))"
proof -
  let ?k = "j\<lparr>pj_firedCondition := Some receipt\<rparr>"
  have receipt: "receipt = unreadable_prefix j @ join_with_comma (sort (told j @ [reason]))"
    using assms(1) by (auto simp: unreadable_def split: if_splits)
  have "list_all (\<lambda>x. CHR '','' \<notin> set x) (told j)"
    by (auto simp: told_def split_comma_parts split: option.split)
  then have parts: "list_all (\<lambda>x. CHR '','' \<notin> set x) (sort (told j @ [reason]))"
    using assms(2) by (auto simp: list_all_iff)
  have "sort (told j @ [reason]) \<noteq> []" by (metis length_sort length_0_conv append_is_Nil_conv not_Cons_self)
  then have "split_comma (join_with_comma (sort (told j @ [reason]))) = sort (told j @ [reason])"
    using parts by (rule split_join)
  moreover have "unreadable_prefix ?k = unreadable_prefix j" by (simp add: unreadable_prefix_def)
  ultimately have "told ?k = sort (told j @ [reason])" by (simp add: told_def receipt)
  then have "set (told ?k) = insert reason (set (told j))" by simp
  then show ?thesis by (simp add: unreadable_def)
qed

end
