(* ===== verification/Watchdog_Context_Once.thy ===== *)
theory Watchdog_Context_Once
  imports Watchdog_Context
begin

text \<open>
  A context watch fires once per occupant of its seat: the fire is stamped on the job before its wake goes out
  (or with the continuity action that completed), no other operation touches the stamp, and a stamped occupant
  is never fired at again.
\<close>

section \<open>The stamp\<close>

definition stamped :: "string \<Rightarrow> string \<Rightarrow> watchdog_store \<Rightarrow> bool" where
  "stamped i g s \<longleftrightarrow> (case wd_getById s i of None \<Rightarrow> False | Some j \<Rightarrow> wj_firedGeneration j = Some g)"

text \<open>Only the engine records fires; an operation that records another occupant's is excluded.\<close>

definition other_fire :: "string \<Rightarrow> string \<Rightarrow> watchdog_op \<Rightarrow> bool" where
  "other_fire i g op \<longleftrightarrow> (case op of Do_thresholdFire k h _ \<Rightarrow> k = i \<and> h \<noteq> g | _ \<Rightarrow> False)"

lemma stamped_row:
  assumes "stamped i g s" and "\<And>j. wj_id (f j) = wj_id j"
    and "\<And>j. k = i \<Longrightarrow> wj_firedGeneration j = Some g \<Longrightarrow> wj_firedGeneration (f j) = Some g"
  shows "stamped i g (wd_row k f s)"
  using assms(1,3) by (auto simp: stamped_def wd_getById_row [OF assms(2)] split: option.splits)

lemma stamped_memory [simp]:
  "stamped i g (forget_replaced k s) = stamped i g s" "stamped i g (releaseStoppedSchedules ids s) = stamped i g s"
  "stamped i g (s\<lparr>wr_inFlight := m\<rparr>) = stamped i g s" "stamped i g (s\<lparr>wr_updatedFrom := u\<rparr>) = stamped i g s"
  by (simp_all add: stamped_def wd_getById_def forget_replaced_def releaseStoppedSchedules_def)

lemma stamped_recordEvaluation: "stamped i g s \<Longrightarrow> stamped i g (recordEvaluation k t fired snap s)"
  by (auto simp: recordEvaluation_def Let_def intro!: stamped_row split: option.split)

lemma stamped_writeSchedule: "stamped i g s \<Longrightarrow> stamped i g (writeSchedule k spec interval evaluated s)"
  unfolding writeSchedule_def by (rule stamped_row) auto

lemma stamped_updateSchedule: "stamped i g s \<Longrightarrow> stamped i g (wd_updateSchedule k spec interval evaluated s)"
  by (auto simp: wd_updateSchedule_def Let_def intro: stamped_writeSchedule)

lemma stamped_updateInPlace: "stamped i g s \<Longrightarrow> updateInPlace k spec interval evaluated s = Inr t \<Longrightarrow> stamped i g t"
  by (auto simp: updateInPlace_def Let_def effect_simps stamped_writeSchedule)

lemma stamped_setActionable: "stamped i g s \<Longrightarrow> stamped i g (setActionable k new t preserve s)"
  by (auto simp: setActionable_def intro!: stamped_row)

lemma stamped_markTerminal: "stamped i g s \<Longrightarrow> stamped i g (wd_markTerminal k reason s)"
  by (auto simp: wd_markTerminal_def intro!: stamped_row)

lemma stamped_condition: "stamped i g s \<Longrightarrow> stamped i g (recordConditionReceipt k receipt s)"
  by (auto simp: recordConditionReceipt_def intro!: stamped_row)

lemma stamped_bind: "stamped i g s \<Longrightarrow> stamped i g (recordWatchedFileBinding k file gen s)"
  by (auto simp: recordWatchedFileBinding_def intro!: stamped_row)

lemma stamped_accounted: "stamped i g s \<Longrightarrow> stamped i g (deliveryAccounted k s)"
  by (simp add: deliveryAccounted_def stamped_def wd_getById_def)

lemma stamped_register:
  "stamped i g s \<Longrightarrow> wd_register occ now fresh inp s = Inr (t, j) \<Longrightarrow> stamped i g t"
  by (auto simp: wd_register_def effect_simps row_insert_Some stamped_def wd_getById_def row_get_append split: option.splits)

lemma stamped_ensure:
  assumes "stamped i g s" and "ensureAutoRegistration occ now fresh inp aliases s = Inr (t, j)"
  shows "stamped i g t"
proof -
  obtain found where found: "findAutoRegistration s (ri_policy inp) aliases (ri_targetGeneration inp) = Inr found"
    using assms(2) by (auto simp: ensureAutoRegistration_def effect_simps)
  show ?thesis
  proof (cases found)
    case None
    then show ?thesis using assms found stamped_register by (auto simp: ensureAutoRegistration_def effect_simps)
  next
    case (Some x)
    then have "t = wd_row (wj_id x) (\<lambda>j. j\<lparr>wj_spec := ri_spec inp, wj_target := ri_target inp,
        wj_interval := or_default (js_integer (ri_interval inp)) 0,
        wj_activeWake := js_finite (ri_activeWake inp), wj_scan := js_finite (ri_scan inp)\<rparr>) s"
      using assms(2) found by (auto simp: ensureAutoRegistration_def effect_simps Let_def)
    then show ?thesis using assms(1) by (auto intro: stamped_row)
  qed
qed

lemma stamped_step:
  assumes "stamped i g s" and "\<not> other_fire i g op" and "watchdog_step occ lib op s = Inr t"
  shows "stamped i g t"
proof (cases op)
  case (Do_register now fresh inp)
  then show ?thesis using assms stamped_register by auto
next
  case (Do_ensure now fresh inp aliases)
  then show ?thesis using assms stamped_ensure by auto
next
  case (Do_update now k inp)
  then obtain r where r: "updateWatchdogJob lib now k inp s = Inr (t, r)" using assms(3) by auto
  show ?thesis by (rule updateWatchdogJob_Inr [OF r]) (use assms(1) stamped_updateInPlace in blast)
next
  case (Do_thresholdFire k h fired)
  then show ?thesis
    using assms by (auto simp: recordThresholdFire_def other_fire_def intro!: stamped_row)
next
  case (Do_drop gen wakes keep)
  have "stamped i g (s\<lparr>wr_jobs := row_set p (\<lambda>j. j\<lparr>wj_state := x, wj_terminalReason := y\<rparr>) (wr_jobs s)\<rparr>)" for p x y
    using assms(1) by (auto simp: stamped_def wd_getById_def row_get_set split: option.splits)
  then show ?thesis
    using assms Do_drop by (auto simp: dropArmedByRegisteringGeneration_def Let_def)
next
  case (Do_stop k reason)
  then show ?thesis
    using assms by (auto simp: wd_stop_def effect_simps Let_def split: if_splits intro!: stamped_row)
next
  case (Do_deliverySchedule k)
  then show ?thesis using assms by (auto simp: deliverySchedule_def effect_simps)
qed (use assms stamped_recordEvaluation stamped_updateSchedule stamped_accounted stamped_setActionable stamped_condition
    stamped_bind stamped_markTerminal in auto)

lemma stamped_run: "stamped i g s \<Longrightarrow> list_all (\<lambda>op. \<not> other_fire i g op) ops \<Longrightarrow> stamped i g (run_steps (watchdog_step occ lib) ops s)"
  by (induction ops arbitrary: s) (auto simp: run_steps_simps attempt_step_def split: sum.split intro: stamped_step)

section \<open>Sending stamps\<close>

definition calls_for :: "wd_job \<Rightarrow> asked \<Rightarrow> policy_evaluation \<Rightarrow> delivery_decision \<Rightarrow> engine \<Rightarrow> bool" where
  "calls_for job a out dec e \<longleftrightarrow> (case dec of
     Calls f \<Rightarrow> fl_job f = job \<and> fl_outcome f = out \<and> fl_occupant f = as_occupant a \<and>
       fl_continuity f = dr_continuity (fl_request f) \<and>
       (fires out \<and> fl_continuity f = None \<longrightarrow> stamped (wj_id job) (the (as_occupant a)) (en_store e)) \<and>
       (\<exists>xs. en_sent e = xs @ [(fl_request f, fl_source f)])
   | Concluded r \<Rightarrow> re_delivery r = None
   | Held h \<Rightarrow> True | Recovered f dl \<Rightarrow> False)"

lemma start_delivery_stamped:
  assumes "stamped i g (en_store e)"
  shows "leaves (start_delivery k e) (\<lambda>_. True) (\<lambda>_ e'. stamped i g (en_store e') \<and> en_sent e' = en_sent e)"
  using assms by (auto simp: start_delivery_def deliverySchedule_def effect_simps leaves_def split: sum.split)

lemma start_delivery_sent: "leaves (start_delivery k e) (\<lambda>_. True) (\<lambda>_ e'. en_sent e' = en_sent e)"
  by (auto simp: start_delivery_def leaves_def split: sum.split)

lemma conclude_none:
  "leaves (after (conclude i out h None m e) (\<lambda>r e'. (e', Inr (Concluded r)))) (\<lambda>_. True) (calls_for job a out')"
  by (rule leaves_after) (auto simp: conclude_def calls_for_def leaves_def effect_simps split: sum.split)

lemma prepare_send_calls:
  assumes watch: "is_context_watch job" and "fires out \<Longrightarrow> truthy (as_occupant a)"
    and row: "wd_getById (en_store e) (wj_id job) \<noteq> None" and none: "\<And>src. dv_policy src = wj_policy job \<Longrightarrow> dp_reconcile d src = None"
    and send: "\<exists>target msg ns receipt notice. out = Pe_send target msg ns receipt notice"
  shows "leaves (prepare_send d t in_pass job a out e) (\<lambda>_. True) (calls_for job a out)"
proof (cases "if pe_notice out then Inr None
    else parseContinuityAction (context_get (as_spec a) ''continuity_action'') job (as_occupant a)")
  case (Inl x)
  then show ?thesis by (simp add: prepare_send_def)
next
  case (Inr continuity)
  let ?src = "plain_source job (dp_hash d (occurrence_key job (as_occupant a) out))"
  have src: "dp_reconcile d ?src = None" by (rule none) (simp add: plain_source_def)
  have policy: "wj_policy job \<noteq> ''periodic-reminder''" using watch by (simp add: is_context_watch_def)
  then have entry: "digest_candidate d job out continuity = None" by (simp add: digest_candidate_def)
  have fires: "fires out \<longleftrightarrow> \<not> pe_notice out" using send by auto
  let ?e1 = "if (is_context_watch job \<and> \<not> pe_notice out) \<and> truthy (as_occupant a) \<and> continuity = None
    then on_store (recordThresholdFire (wj_id job) (the (as_occupant a)) t) e else e"
  have stamp: "fires out \<and> continuity = None \<longrightarrow> stamped (wj_id job) (the (as_occupant a)) (en_store ?e1)"
    using assms(2) watch fires row by (auto simp: stamped_def recordThresholdFire_def wd_getById_row)
  have start: "leaves (start_delivery (wj_id job) ?e1) (\<lambda>_. True)
      (\<lambda>_ e2. fires out \<and> continuity = None \<longrightarrow> stamped (wj_id job) (the (as_occupant a)) (en_store e2))"
  proof (cases "fires out \<and> continuity = None")
    case True
    then show ?thesis using stamp by (intro leaves_weaken [OF start_delivery_stamped]) auto
  next
    case False
    then show ?thesis by (intro leaves_weaken [OF start_delivery_sent]) auto
  qed
  show ?thesis
    unfolding prepare_send_def Inr sum.case Let_def src option.case entry
    by (subst if_not_P, simp, rule leaves_after, rule leaves_weaken [OF start]) (auto simp: calls_for_def)
qed

lemma evaluate_decide_calls:
  assumes watch: "is_context_watch job" and "fires out \<Longrightarrow> truthy (as_occupant a)"
    and none: "\<And>src. dv_policy src = wj_policy job \<Longrightarrow> dp_reconcile d src = None"
  shows "leaves (evaluate_decide d t in_pass job a out e) (\<lambda>_. True) (calls_for job a out)"
proof (cases "inactiveJobResult (wj_id job) e")
  case (Inl x)
  then show ?thesis by (simp add: evaluate_decide_def)
next
  case (Inr b)
  show ?thesis
  proof (cases b)
    case (Some r)
    then show ?thesis
      using Inr by (auto simp: evaluate_decide_def calls_for_def inactiveJobResult_def effect_simps split: if_splits)
  next
    case None
    have row: "wd_getById (en_store e) (wj_id job) \<noteq> None"
      using Inr None inactive_None [of "wj_id job" e] by (auto simp: job_active_def)
    show ?thesis
    proof (cases out)
      case (Pe_send target msg ns receipt notice)
      have "\<exists>target msg ns receipt notice. out = Pe_send target msg ns receipt notice" using Pe_send by blast
      note send = prepare_send_calls [OF watch assms(2) row none this, of t in_pass]
      show ?thesis
        using terminalBeforeDelivery_cases [of d job t e]
      proof (elim disjE exE conjE)
        assume "terminalBeforeDelivery d job t e = None"
        then show ?thesis
          using send unfolding evaluate_decide_def Inr None Pe_send sum.case option.case policy_evaluation.case
          by (simp add: conclude_none skip_job_def Let_def split: option.split)
      next
        fix reason
        assume "terminalBeforeDelivery d job t e = Some (end_job job t reason None e)"
        then show ?thesis
          unfolding evaluate_decide_def Inr None Pe_send sum.case option.case policy_evaluation.case
          by (simp add: conclude_none skip_job_def end_job_def Let_def split: option.split)
      qed
    qed (simp_all add: evaluate_decide_def Inr None conclude_none skip_job_def quiet_skip_job_def end_job_def Let_def)
  qed
qed

section \<open>Accounting keeps the stamp\<close>

definition hooks_quiet :: "string \<Rightarrow> string \<Rightarrow> engine_deps \<Rightarrow> bool" where
  "hooks_quiet i g d \<longleftrightarrow> (\<forall>x. list_all (\<lambda>op. \<not> other_fire i g op) (dp_onWakeAttempt d x))"

lemma accountWake_stamped:
  assumes "hooks_quiet i g d" and "stamped i g (en_store e)"
  shows "leaves (accountWake d a e) (\<lambda>e'. stamped i g (en_store e')) (\<lambda>_ e'. stamped i g (en_store e'))"
proof -
  have "stamped i g (run_steps (deps_step d) (dp_onWakeAttempt d x) (en_store e))" for x
    using assms by (intro stamped_run) (simp_all add: hooks_quiet_def)
  then show ?thesis
    using assms(2) by (auto simp: accountWake_def Let_def leaves_def intro: stamped_markTerminal split: sum.split)
qed

lemma conclude_stamped:
  "stamped i g (en_store e) \<Longrightarrow> leaves (conclude k out h dl m e) (\<lambda>e'. stamped i g (en_store e'))
     (\<lambda>r e'. stamped i g (en_store e') \<and> re_outcome r = out \<and> re_delivery r = dl)"
  by (auto simp: conclude_def leaves_def effect_simps split: sum.split)

lemma recordAttempt_stamped:
  assumes "hooks_quiet i g d" and "stamped i g (en_store e)"
  shows "leaves (recordAttempt d a e) (\<lambda>e'. stamped i g (en_store e'))
    (\<lambda>r e'. stamped i g (en_store e') \<and> re_outcome r = at_outcome a \<and> re_delivery r = Some (at_delivery a))"
proof (cases "dl_deferred (at_delivery a)")
  case True
  then show ?thesis
    unfolding recordAttempt_def Let_def if_P [OF True]
    by (intro conclude_stamped) (simp add: stamped_accounted assms(2))
next
  case False
  let ?e1 = "account_evaluation a (record_history (attempt_history a) e)"
  have e1: "stamped i g (en_store ?e1)"
    using assms(2) by (simp add: account_evaluation_def stamped_recordEvaluation)
  have e3: "stamped i g (en_store (emit_event v (mark_actionable a (bank_receipt a x))))" if "stamped i g (en_store x)" for v and x :: engine
    using that by (auto simp: mark_actionable_def bank_receipt_def split: option.split
        intro: stamped_setActionable stamped_condition)
  show ?thesis
    unfolding recordAttempt_def Let_def if_not_P [OF False]
  proof (rule leaves_after, rule leaves_weaken [where Q = "\<lambda>_ e'. stamped i g (en_store e')"])
    show "leaves (if dl_tracked (at_delivery a) then accountWake d a ?e1 else (?e1, Inr ()))
        (\<lambda>e'. stamped i g (en_store e')) (\<lambda>_ e'. stamped i g (en_store e'))"
      using accountWake_stamped [OF assms(1) e1] e1 by simp
    fix u :: unit and e2 :: engine
    assume e2: "stamped i g (en_store e2)"
    let ?e3 = "emit_event (Evaluation_fired (wj_id (at_job a)) (wj_policy (at_job a)) (pe_target (at_outcome a))
      (dl_status (at_delivery a))) (mark_actionable a (bank_receipt a e2))"
    show "leaves (after (if dl_tracked (at_delivery a) then (?e3, Inr ()) else accountWake d a ?e3)
        (\<lambda>_ e4. conclude (wj_id (at_job a)) (at_outcome a) (Some (attempt_history a)) (Some (at_delivery a)) True
          (on_store (deliveryAccounted (wj_id (at_job a))) e4)))
      (\<lambda>e'. stamped i g (en_store e'))
      (\<lambda>r e'. stamped i g (en_store e') \<and> re_outcome r = at_outcome a \<and> re_delivery r = Some (at_delivery a))"
    proof (rule leaves_after, rule leaves_weaken [where Q = "\<lambda>_ e'. stamped i g (en_store e')"])
      show "leaves (if dl_tracked (at_delivery a) then (?e3, Inr ()) else accountWake d a ?e3)
          (\<lambda>e'. stamped i g (en_store e')) (\<lambda>_ e'. stamped i g (en_store e'))"
        using accountWake_stamped [OF assms(1) e3 [OF e2]] e3 [OF e2] by simp
    qed (auto intro!: conclude_stamped simp: stamped_accounted)
  qed
qed

lemma conclude_result: "leaves (conclude k out h dl m e) (\<lambda>_. True) (\<lambda>r _. re_outcome r = out \<and> re_delivery r = dl)"
  by (auto simp: conclude_def leaves_def effect_simps split: sum.split)

lemma leaves_then: "(\<And>v e'. leaves (f v e') (\<lambda>_. True) Q) \<Longrightarrow> leaves (after m f) (\<lambda>_. True) Q"
  by (cases m; cases "snd m") simp_all

lemma recordAttempt_result:
  "leaves (recordAttempt d a e) (\<lambda>_. True) (\<lambda>r _. re_outcome r = at_outcome a \<and> re_delivery r = Some (at_delivery a))"
  unfolding recordAttempt_def Let_def
  by (cases "dl_deferred (at_delivery a)") (simp_all add: conclude_result leaves_then)

section \<open>One fire per occupant\<close>

definition occupant_now :: "engine_deps \<Rightarrow> wd_job \<Rightarrow> string option" where
  "occupant_now d job = (case dp_resolveTargetGeneration d of None \<Rightarrow> None | Some f \<Rightarrow> f (wj_target job))"

text \<open>What the engine is set up with: the watch's own policy, and custody and queue waits that concern reminders only.\<close>

definition watch_deps :: "context_env \<Rightarrow> engine_deps \<Rightarrow> bool" where
  "watch_deps cx d \<longleftrightarrow> dp_policies d ''context-usage-threshold'' = Some (contextUsageThresholdPolicy cx) \<and>
     (\<forall>src. dv_policy src = ''context-usage-threshold'' \<longrightarrow> dp_reconcile d src = None) \<and>
     (\<forall>i s. dp_queueWait d i s = ([], None))"

lemma begin_asked:
  assumes "evaluate_begin d t ps job e = (e1, Inr (Goes_on a))" and "is_context_watch job" and "watch_deps cx d"
  shows "as_policy a = contextUsageThresholdPolicy cx \<and> as_occupant a = occupant_now d job \<and>
    pj_occupant (as_job a) = occupant_now d job \<and> pj_firedGeneration (as_job a) = wj_firedGeneration job"
  using assms
  by (auto simp: evaluate_begin_def resolvePolicy_def is_context_watch_def watch_deps_def occupant_now_def Let_def after_def end_job_def conclude_def
      split: sum.splits option.splits prod.splits)

lemma ask_watch: "watch_deps cx d \<Longrightarrow> ask_policy d job a e = (run_ops d [] e, as_policy a (as_job a))"
  by (simp add: ask_policy_def watch_deps_def)

lemma decide_quiet:
  assumes "\<forall>target msg ns receipt notice. out \<noteq> Pe_send target msg ns receipt notice"
  shows "leaves (evaluate_decide d t in_pass job a out e) (silent e) (\<lambda>dec e'. silent e e' \<and> (\<exists>r. dec = Concluded r))"
proof (cases "inactiveJobResult (wj_id job) e")
  case (Inl x)
  then show ?thesis by (simp add: evaluate_decide_def silent_def)
next
  case (Inr b)
  have fin: "leaves (after m (\<lambda>r e'. (e', Inr (Concluded r)))) (silent e) (\<lambda>dec e'. silent e e' \<and> (\<exists>r. dec = Concluded r))"
    if "leaves m (silent e) (\<lambda>r e'. silent e e' \<and> recorded e e' r)" for m
    by (rule leaves_after, rule leaves_weaken [OF that]) auto
  show ?thesis
  proof (cases b)
    case (Some r)
    then show ?thesis using Inr by (simp add: evaluate_decide_def silent_def)
  next
    case None
    show ?thesis
    proof (cases out)
      case (Pe_send target msg ns receipt notice)
      then show ?thesis using assms by blast
    next
      case (Pe_skip reason ns)
      show ?thesis
        unfolding evaluate_decide_def Inr None Pe_skip sum.case option.case policy_evaluation.case
        by (rule fin) (simp add: act_rules)
    next
      case (Pe_terminal reason ns)
      show ?thesis
        unfolding evaluate_decide_def Inr None Pe_terminal sum.case option.case policy_evaluation.case
        by (rule fin) (rule end_job_leaves)
    qed
  qed
qed

text \<open>A stamped occupant is left alone.\<close>

lemma stamped_sends_nothing:
  assumes "is_context_watch job" and "watch_deps cx d" and "wj_firedGeneration job = occupant_now d job"
  shows "en_sent (fst (evaluate d w t ps in_pass job e)) = en_sent e"
proof -
  have begin_silent: "leaves (evaluate_begin d t ps job e) (silent e) (\<lambda>_. silent e)"
    by (rule leaves_weaken [OF evaluate_begin_leaves]) (auto simp: bound_only_def split: step_result.splits)
  obtain e1 x where b: "evaluate_begin d t ps job e = (e1, x)" by (rule prod.exhaust)
  show ?thesis
  proof (cases "\<exists>a. x = Inr (Goes_on a)")
    case False
    then show ?thesis
      using begin_silent b by (cases x; cases "projr x") (auto simp: evaluate_def silent_def)
  next
    case True
    then obtain a where a: "x = Inr (Goes_on a)" by auto
    have e1: "en_sent e1 = en_sent e" using begin_silent b a by (simp add: silent_def)
    have facts: "as_policy a = contextUsageThresholdPolicy cx" "pj_firedGeneration (as_job a) = pj_occupant (as_job a)"
      using begin_asked [OF b [unfolded a] assms(1,2)] assms(3) by simp_all
    then obtain out where out: "as_policy a (as_job a) = Inr out" and
        quiet: "\<forall>target msg ns receipt notice. out \<noteq> Pe_send target msg ns receipt notice"
      by (auto simp: contextUsageThresholdPolicy_def split: option.splits if_splits)
    let ?e2 = "run_ops d (wo_duringPolicy w) (run_ops d [] e1)"
    have "leaves (evaluate_rest d w t in_pass job a out ?e2) (silent ?e2) (\<lambda>_. silent ?e2)"
      unfolding evaluate_rest_def
      by (rule leaves_after, rule leaves_weaken [OF decide_quiet [OF quiet]]) auto
    then show ?thesis
      using e1 b a out ask_watch [OF assms(2), of job a e1]
      by (auto simp: evaluate_def silent_def leaves_def split: sum.splits)
  qed
qed

text \<open>A fire stamps its occupant.\<close>

lemma fire_stamps:
  assumes watch: "is_context_watch job" "watch_deps cx d" and g: "occupant_now d job = Some g"
    and quiet: "hooks_quiet (wj_id job) g d" "list_all (\<lambda>op. \<not> other_fire (wj_id job) g op) (wo_duringDelivery w)"
    and ran: "evaluate d w t ps in_pass job e = (e1, Inr (Some r, held))" "fires (re_outcome r)" "re_delivery r = Some dl"
    and plain: "dr_continuity (fst (last (en_sent e1))) = None"
  shows "stamped (wj_id job) g (en_store e1)"
proof -
  let ?i = "wj_id job"
  obtain e2 x where b: "evaluate_begin d t ps job e = (e2, x)" by (rule prod.exhaust)
  have not_finished: "x \<noteq> Inr (Finished y)" for y
  proof
    assume "x = Inr (Finished y)"
    then have "re_delivery r = None"
      using ran(1) b
      by (auto simp: evaluate_def evaluate_begin_def inactiveJobResult_def end_job_def conclude_def Let_def effect_simps after_def
          split: sum.splits option.splits if_splits prod.splits)
    then show False using ran(3) by simp
  qed
  obtain a where a: "x = Inr (Goes_on a)"
    using ran(1) b not_finished by (cases x; cases "projr x") (auto simp: evaluate_def)
  note facts = begin_asked [OF b [unfolded a] watch]
  let ?e3 = "run_ops d (wo_duringPolicy w) (run_ops d [] e2)"
  obtain out where out: "as_policy a (as_job a) = Inr out" by (simp add: facts contextUsageThresholdPolicy_def)
  have rest: "evaluate_rest d w t in_pass job a out ?e3 = (e1, Inr (Some r, held))"
    using ran(1) b a out ask_watch [OF watch(2), of job a e2] by (simp add: evaluate_def)
  have truth: "fires out \<Longrightarrow> truthy (as_occupant a)"
    using fires_needs [OF out [unfolded facts [THEN conjunct1]]] facts by simp
  have none: "\<And>src. dv_policy src = wj_policy job \<Longrightarrow> dp_reconcile d src = None"
    using watch by (auto simp: watch_deps_def is_context_watch_def)
  obtain e4 y where dec: "evaluate_decide d t in_pass job a out ?e3 = (e4, y)" by (rule prod.exhaust)
  with rest obtain decision where y: "y = Inr decision" by (cases y) (auto simp: evaluate_rest_def)
  have calls: "calls_for job a out decision e4"
    using evaluate_decide_calls [of job out a d t in_pass ?e3] watch(1) truth none dec y by auto
  obtain f where f: "decision = Calls f"
    using calls rest dec y ran(3) by (cases decision) (auto simp: evaluate_rest_def calls_for_def)
  have job: "fl_job f = job" "fl_outcome f = out" "fl_occupant f = Some g" "fl_continuity f = dr_continuity (fl_request f)"
    and stamp: "fires out \<Longrightarrow> fl_continuity f = None \<Longrightarrow> stamped ?i g (en_store e4)"
    using calls facts g by (auto simp: calls_for_def f)
  obtain answer where sent: "wo_deliver w (fl_request f) (fl_source f) = Inr answer"
      "evaluate_finish d f answer (run_ops d (wo_duringDelivery w) e4) = (e1, Inr r)"
    using rest dec y f by (auto simp: evaluate_rest_def after_def split: sum.splits prod.splits)
  let ?e5 = "run_ops d (wo_duringDelivery w) e4"
  obtain e6 where e6: "en_sent e6 = en_sent ?e5" "stamped ?i g (en_store ?e5) \<Longrightarrow> stamped ?i g (en_store e6)"
    and fin: "recordAttempt d (attempt_of f answer (Some (dr_message (fl_request f)))) e6 = (e1, Inr r)"
  proof
    let ?e6 = "if is_context_watch job \<and> truthy (fl_occupant f) \<and> fl_continuity f \<noteq> None \<and> dl_continuityCompleted answer
      then on_store (recordThresholdFire ?i (the (fl_occupant f)) (fl_evaluatedAt f)) ?e5 else ?e5"
    show "recordAttempt d (attempt_of f answer (Some (dr_message (fl_request f)))) ?e6 = (e1, Inr r)"
      using sent(2) unfolding evaluate_finish_def Let_def job(1) .
    show "stamped ?i g (en_store ?e5) \<Longrightarrow> stamped ?i g (en_store ?e6)"
      by (auto simp: recordThresholdFire_def job(3) intro: stamped_row)
  qed simp
  have "re_outcome r = out"
    using leaves_Inr [OF recordAttempt_result fin] by (simp add: attempt_of_def job)
  with ran(2) have fired: "fires out" by simp
  then have "\<And>reason ns. at_outcome (attempt_of f answer (Some (dr_message (fl_request f)))) \<noteq> Pe_skip reason ns"
    by (auto simp: attempt_of_def job)
  then have "en_sent e1 = en_sent e6"
    using leaves_Inr [OF recordAttempt_leaves fin] by (simp add: silent_def)
  then have "fst (last (en_sent e1)) = fl_request f"
    using calls e6(1) by (auto simp: calls_for_def f)
  with plain job(4) have "stamped ?i g (en_store e4)" using stamp fired by simp
  then have "stamped ?i g (en_store e6)" using quiet(2) e6(2) by (simp add: stamped_run)
  then show ?thesis using leaves_Inr [OF recordAttempt_stamped [OF quiet(1)] fin] by simp
qed


end
