(* ===== verification/Watchdog_Registration.thy ===== *)
theory Watchdog_Registration
  imports Watchdog_Context Session_Name
begin

text \<open>
  Automatic registration of a seat's supervision job (\<open>packages/daemon/src/domain/watchdog-auto-registration.ts\<close>):
  every canonical seat has at most one job of the idle gate policy that still runs or was stopped, found under any
  name its node ever had, and moved to the current one. Nodes, rigs and sessions are tables other code keeps; the
  settings are as the store resolves them, a number printed by \<open>rs_text\<close>.
\<close>

section \<open>Topology and settings\<close>

definition IDLE_GATE_POLICY :: string where
  "IDLE_GATE_POLICY = ''idle-gate-qitem''"

definition REGISTRAR :: string where
  "REGISTRAR = ''daemon@kernel''"

definition TERMINAL_SESSION_STATUSES :: "string list" where
  "TERMINAL_SESSION_STATUSES = [''superseded'', ''detached'', ''exited'']"

record session_row =
  sn_id :: string
  sn_node :: string
  sn_name :: string
  sn_status :: string
  sn_created :: timestamp

record topology =
  tp_nodes :: "(string \<times> string) list"
  tp_rigs :: "(string \<times> string) list"
  tp_sessions :: "session_row list"

record registration_settings =
  rs_autoRegister :: "string option"
  rs_optIn :: "string option"
  rs_scan :: js_number
  rs_activeWake :: js_number
  rs_text :: "js_number \<Rightarrow> string"

datatype registration_error = Target_mismatch | Coverage_missing | Jobs_refused watchdog_error

definition lift_jobs :: "watchdog_error + 'a \<Rightarrow> registration_error + 'a" where
  "lift_jobs x = map_sum Jobs_refused id x"

definition isEligibleSessionName :: "string \<Rightarrow> bool" where
  "isEligibleSessionName name \<longleftrightarrow> validateSessionName name \<and> sessionRigOf name \<noteq> None"

text \<open>\<open>nodes LEFT JOIN rigs\<close>: the name of the node's rig.\<close>

definition rig_of_node :: "topology \<Rightarrow> string \<Rightarrow> string option" where
  "rig_of_node tp node = Option.bind (map_of (tp_nodes tp) node) (map_of (tp_rigs tp))"

text \<open>No topology for a seat that is not eligible, and a mismatch where its rig is not its node's.\<close>

definition resolveTopology :: "topology \<Rightarrow> string \<Rightarrow> string \<Rightarrow> registration_error + string option" where
  "resolveTopology tp node name =
     (if \<not> isEligibleSessionName name then Inr None
      else case rig_of_node tp node of
          None \<Rightarrow> Inl Target_mismatch
        | Some rig \<Rightarrow> if sessionRigOf name = Some rig then Inr (Some rig) else Inl Target_mismatch)"

definition canonicalAliases :: "topology \<Rightarrow> string \<Rightarrow> string \<Rightarrow> string \<Rightarrow> string list" where
  "canonicalAliases tp node rig name =
     (let names = map sn_name (sort_key (\<lambda>r. (sn_created r, sn_id r)) (filter (\<lambda>r. sn_node r = node) (tp_sessions tp)))
      in filter (\<lambda>c. validateSessionName c \<and> sessionRigOf c = Some rig) (rev (remdups (rev (names @ [name])))))"

definition autoRegisterAllowed :: "registration_settings \<Rightarrow> string \<Rightarrow> bool" where
  "autoRegisterAllowed rs name \<longleftrightarrow>
     trim (or_default (rs_autoRegister rs) ''off'') = ''all'' \<or>
     name \<in> set (filter (\<lambda>x. x \<noteq> []) (map trim (split_comma (or_default (rs_optIn rs) []))))"

definition NEWLINE :: string where
  "NEWLINE = [CHR 0x0A]"

definition generatedSpec :: "registration_settings \<Rightarrow> string \<Rightarrow> string" where
  "generatedSpec rs name =
     (let scan = rs_text rs (rs_scan rs)
      in ''policy: '' @ IDLE_GATE_POLICY @ NEWLINE @ ''generated_by: openrig-daemon'' @ NEWLINE @
         ''target:'' @ NEWLINE @ ''  session: '' @ name @ NEWLINE @ ''interval_seconds: '' @ scan @ NEWLINE @
         ''scan_interval_seconds: '' @ scan @ NEWLINE @
         ''active_wake_interval_seconds: '' @ rs_text rs (rs_activeWake rs) @ NEWLINE)"

definition seat_input :: "registration_settings \<Rightarrow> string \<Rightarrow> register_input" where
  "seat_input rs name =
     \<lparr>ri_policy = IDLE_GATE_POLICY, ri_spec = Other_spec (generatedSpec rs name), ri_target = name,
      ri_interval = rs_scan rs, ri_activeWake = Some (rs_activeWake rs), ri_scan = Some (rs_scan rs),
      ri_registeredBy = REGISTRAR, ri_targetGeneration = None, ri_watchedFile = None, ri_thresholdBytes = None,
      ri_thresholdTokens = None, ri_thresholdPercent = None, ri_requires = None\<rparr>"

section \<open>Operations\<close>

definition seat_job :: "watchdog_store \<Rightarrow> string list \<Rightarrow> registration_error + wd_job option" where
  "seat_job s aliases = lift_jobs (findAutoRegistration s IDLE_GATE_POLICY aliases None)"

definition ensure_seat ::
  "(string \<Rightarrow> string option) \<Rightarrow> timestamp \<Rightarrow> string \<Rightarrow> topology \<Rightarrow> registration_settings \<Rightarrow> string \<Rightarrow> string
     \<Rightarrow> watchdog_store \<Rightarrow> registration_error + watchdog_store \<times> wd_job option" where
  "ensure_seat occupant now fresh tp rs node name s =
     try_bind (resolveTopology tp node name) (\<lambda>found.
       case found of
         None \<Rightarrow> Inr (s, None)
       | Some rig \<Rightarrow>
           let aliases = canonicalAliases tp node rig name;
               go = map_sum Jobs_refused (\<lambda>(t, j). (t, Some j))
                      (ensureAutoRegistration occupant now fresh (seat_input rs name) aliases s)
           in if autoRegisterAllowed rs name then go
              else try_bind (seat_job s aliases) (\<lambda>existing. case existing of None \<Rightarrow> Inr (s, None) | Some _ \<Rightarrow> go))"

definition assertCoverage ::
  "topology \<Rightarrow> registration_settings \<Rightarrow> string \<Rightarrow> string \<Rightarrow> watchdog_store \<Rightarrow> registration_error + wd_job option" where
  "assertCoverage tp rs node name s =
     try_bind (resolveTopology tp node name) (\<lambda>found.
       case found of
         None \<Rightarrow> Inr None
       | Some rig \<Rightarrow> try_bind (seat_job s (canonicalAliases tp node rig name)) (\<lambda>job. case job of
             None \<Rightarrow> if autoRegisterAllowed rs name then Inl Coverage_missing else Inr None
           | Some j \<Rightarrow> if wj_target j = name then Inr (Some j) else Inl Coverage_missing))"

definition reconcileHandover ::
  "topology \<Rightarrow> string \<Rightarrow> string \<Rightarrow> watchdog_store \<Rightarrow> registration_error + watchdog_store \<times> wd_job option" where
  "reconcileHandover tp node name s =
     (case rig_of_node tp node of
        None \<Rightarrow> Inl Target_mismatch
      | Some rig \<Rightarrow> try_bind (seat_job s (canonicalAliases tp node rig name)) (\<lambda>job. case job of
            None \<Rightarrow> Inr (s, None)
          | Some j \<Rightarrow>
              if wj_state j = Wd_stopped then Inr (s, Some j)
              else let t = wd_markTerminal (wj_id j) ''handover_noncanonical_successor'' s
                   in map_sum Jobs_refused (\<lambda>k. (t, Some k)) (wd_getByIdOrThrow t (wj_id j))))"

text \<open>The audit warns of the latest live-like session of every node; it writes nothing.\<close>

fun latest_sessions :: "string list \<Rightarrow> session_row list \<Rightarrow> session_row list" where
  "latest_sessions seen [] = []"
| "latest_sessions seen (r # rs) =
     (if sn_node r \<in> set seen then latest_sessions seen rs else r # latest_sessions (sn_node r # seen) rs)"

definition assertLiveSeatCoverage ::
  "topology \<Rightarrow> registration_settings \<Rightarrow> watchdog_store \<Rightarrow> (string \<times> string \<times> registration_error) list" where
  "assertLiveSeatCoverage tp rs s =
     List.map_filter (\<lambda>r. case assertCoverage tp rs (sn_node r) (sn_name r) s of
         Inl x \<Rightarrow> Some (sn_node r, sn_name r, x) | Inr _ \<Rightarrow> None)
       (filter (\<lambda>r. sn_status r \<notin> set TERMINAL_SESSION_STATUSES \<and> isEligibleSessionName (sn_name r))
         (latest_sessions [] (rev (sort_key (\<lambda>r. (sn_created r, sn_id r)) (tp_sessions tp)))))"

section \<open>One job per seat\<close>

lemma lifted_Inr: "map_sum h f x = Inr y \<longleftrightarrow> (\<exists>v. x = Inr v \<and> y = f v)"
  by (cases x) auto

text \<open>The rows of a seat that still count.\<close>

definition counts :: "string list \<Rightarrow> wd_job \<Rightarrow> bool" where
  "counts aliases j \<longleftrightarrow> (wj_state j = Wd_active \<or> wj_state j = Wd_stopped) \<and> wj_policy j = IDLE_GATE_POLICY \<and>
     wj_target j \<in> set aliases \<and> wj_targetGeneration j = None"

definition known_states :: "watchdog_store \<Rightarrow> bool" where
  "known_states s \<longleftrightarrow> (\<forall>j \<in> set (wr_jobs s). wj_state j \<in> {Wd_active, Wd_stopped, Wd_terminal})"

lemma inv_known: "watchdog_inv s \<Longrightarrow> known_states s"
  by (auto simp: watchdog_inv_def known_states_def job_ok_def)

lemma seat_job_found:
  assumes "known_states s"
  shows "seat_job s aliases = (case filter (counts aliases) (wr_jobs s) of
     [] \<Rightarrow> Inr None | [j] \<Rightarrow> Inr (Some j) | _ \<Rightarrow> Inl (Jobs_refused Auto_registration_ambiguous))"
proof -
  let ?key = "\<lambda>j. (wj_registeredAt j, wj_id j)"
  let ?tuple = "\<lambda>j. wj_policy j = IDLE_GATE_POLICY \<and> wj_target j \<in> set aliases \<and> wj_targetGeneration j = None"
  have "filter (\<lambda>j. wj_state j = Wd_active \<or> wj_state j = Wd_stopped) (sort_key ?key (filter ?tuple (wr_jobs s)))
      = sort_key ?key (filter (counts aliases) (wr_jobs s))"
    by (simp add: filter_sort) (rule arg_cong [where f = "sort_key _"], rule filter_cong, auto simp: counts_def)
  moreover have "\<not> list_ex (\<lambda>j. wj_state j \<notin> {Wd_active, Wd_stopped, Wd_terminal}) (sort_key ?key (filter ?tuple (wr_jobs s)))"
    using assms by (auto simp: known_states_def list_ex_iff)
  ultimately have "seat_job s aliases = lift_jobs (unless_refused
      [(1 < length (filter (counts aliases) (wr_jobs s)), Auto_registration_ambiguous)]
      (Inr (Prelude.at (sort_key ?key (filter (counts aliases) (wr_jobs s))) 0)))"
    by (simp add: seat_job_def findAutoRegistration_def listAliasTuples_def Let_def)
  then show ?thesis
    by (auto simp: lift_jobs_def Prelude.at_def split: list.split)
qed

text \<open>What an ensured job is kept at.\<close>

definition refreshed :: "registration_settings \<Rightarrow> string \<Rightarrow> wd_job \<Rightarrow> wd_job" where
  "refreshed rs name j = j\<lparr>wj_spec := Other_spec (generatedSpec rs name), wj_target := name,
     wj_interval := or_default (js_integer (rs_scan rs)) 0, wj_activeWake := js_finite (Some (rs_activeWake rs)),
     wj_scan := js_finite (Some (rs_scan rs))\<rparr>"

lemma ensure_cases:
  assumes "ensureAutoRegistration occ now fresh (seat_input rs name) aliases s = Inr (t, j)" and "known_states s"
  obtains "filter (counts aliases) (wr_jobs s) = []" "j = new_job occ now fresh (seat_input rs name)"
      "t = s\<lparr>wr_jobs := wr_jobs s @ [j]\<rparr>"
    | x where "filter (counts aliases) (wr_jobs s) = [x]" "t = wd_row (wj_id x) (refreshed rs name) s"
      "wd_getById t (wj_id x) = Some j"
proof -
  obtain found where found: "findAutoRegistration s IDLE_GATE_POLICY aliases None = Inr found"
    using assms(1) by (auto simp: ensureAutoRegistration_def effect_simps seat_input_def)
  then have "seat_job s aliases = Inr found" by (simp add: seat_job_def lift_jobs_def)
  then have only: "filter (counts aliases) (wr_jobs s) = (case found of None \<Rightarrow> [] | Some x \<Rightarrow> [x])"
    using seat_job_found [OF assms(2), of aliases] by (auto split: list.splits)
  show thesis
  proof (cases found)
    case None
    then have "wd_register occ now fresh (seat_input rs name) s = Inr (t, j)"
      using assms(1) found by (auto simp: ensureAutoRegistration_def effect_simps seat_input_def)
    then show thesis
      using that(1) only None by (auto simp: wd_register_def effect_simps row_insert_Some split: option.splits)
  next
    case (Some x)
    have f: "refreshed rs name = (\<lambda>j. j\<lparr>wj_spec := Other_spec (generatedSpec rs name), wj_target := name,
        wj_interval := or_default (js_integer (rs_scan rs)) 0, wj_activeWake := js_finite (Some (rs_activeWake rs)),
        wj_scan := js_finite (Some (rs_scan rs))\<rparr>)"
      by (simp add: fun_eq_iff refreshed_def)
    have "t = wd_row (wj_id x) (refreshed rs name) s" "wd_getByIdOrThrow t (wj_id x) = Inr j"
      using assms(1) found Some unfolding f by (auto simp: ensureAutoRegistration_def effect_simps seat_input_def Let_def)
    then show thesis using that(2) only Some by (auto simp: wd_getByIdOrThrow_def split: option.splits)
  qed
qed

lemma refreshed_simps [simp]:
  "wj_id (refreshed rs name j) = wj_id j" "refreshed rs name (refreshed rs name j) = refreshed rs name j"
  "wj_target (refreshed rs name j) = name"
  by (simp_all add: refreshed_def)

lemma counts_refreshed: "name \<in> set aliases \<Longrightarrow> counts aliases j \<Longrightarrow> counts aliases (refreshed rs name j)"
  by (simp add: counts_def refreshed_def)

lemma filter_row_set_same:
  assumes "distinct (map key rows)" and "filter P rows = [x]" and "\<And>r. key (f r) = key r" and "P (f x)"
  shows "filter P (row_set (\<lambda>r. key r = key x) f rows) = [f x]"
proof -
  have x: "x \<in> set rows" "P x" using assms(2) by (auto simp: filter_eq_Cons_iff)
  have "P (if key r = key x then f r else r) \<longleftrightarrow> P r" if "r \<in> set rows" for r
  proof (cases "key r = key x")
    case True
    then have "r = x" using that x(1) assms(1) by (auto simp: distinct_map inj_on_def)
    then show ?thesis using x(2) assms(4) by simp
  qed simp
  then have "filter P (row_set (\<lambda>r. key r = key x) f rows) = row_set (\<lambda>r. key r = key x) f (filter P rows)"
    by (induction rows) (auto simp: row_set_def)
  then show ?thesis by (simp add: assms(2) row_set_def)
qed

lemma ensure_settles:
  assumes inv: "watchdog_inv s" and "name \<in> set aliases"
    and ran: "ensureAutoRegistration occ now fresh (seat_input rs name) aliases s = Inr (t, j)"
  shows "filter (counts aliases) (wr_jobs t) = [j] \<and> refreshed rs name j = j \<and> watchdog_inv t"
proof -
  have "watchdog_inv t" using ensure_moves [OF ran] inv by (simp add: moves_def)
  moreover have "filter (counts aliases) (wr_jobs t) = [j] \<and> refreshed rs name j = j"
    using ran inv_known [OF inv]
  proof (cases rule: ensure_cases)
    case 1
    then have "refreshed rs name j = j" and "counts aliases j"
      using assms(2) by (simp_all add: counts_def new_job_def seat_input_def refreshed_def Let_def IDLE_GATE_POLICY_def)
    then show ?thesis using 1 by simp
  next
    case (2 x)
    have x: "counts aliases x" "x \<in> set (wr_jobs s)" using 2(1) by (auto simp: filter_eq_Cons_iff)
    have "distinct (map wj_id (wr_jobs s))" using inv by (simp add: watchdog_inv_def)
    then have "filter (counts aliases) (wr_jobs t) = [refreshed rs name x]" and "wd_getById s (wj_id x) = Some x"
      using filter_row_set_same [of wj_id "wr_jobs s" "counts aliases" x "refreshed rs name"] 2(1,2) x counts_refreshed assms(2)
      by (simp_all add: wd_row_def wd_getById_def row_get_distinct)
    then show ?thesis using 2(2,3) by (auto simp: wd_getById_row)
  qed
  ultimately show ?thesis by simp
qed

lemma ensure_seat_inv:
  assumes "watchdog_inv s" and "ensure_seat occ now fresh tp rs node name s = Inr (t, out)"
  shows "watchdog_inv t"
proof -
  obtain found where top: "resolveTopology tp node name = Inr found"
    using assms(2) by (auto simp: ensure_seat_def effect_simps)
  consider "t = s" | aliases j where "ensureAutoRegistration occ now fresh (seat_input rs name) aliases s = Inr (t, j)"
    using assms(2) top
    by (cases found) (auto simp: ensure_seat_def effect_simps Let_def lifted_Inr split: if_splits option.splits)
  then show ?thesis
    by cases (use assms(1) in \<open>auto simp: moves_def dest!: ensure_moves\<close>)
qed

lemma ensure_again:
  assumes inv: "watchdog_inv t" and one: "filter (counts aliases) (wr_jobs t) = [j]" and same: "refreshed rs name j = j"
    and valid: "validateCadences (rs_scan rs) (Some (rs_scan rs)) = Inr ()"
  shows "ensureAutoRegistration occ now fresh (seat_input rs name) aliases t = Inr (t, j)"
proof -
  have j: "j \<in> set (wr_jobs t)" using one by (auto simp: filter_eq_Cons_iff)
  have "distinct (map wj_id (wr_jobs t))" using inv by (simp add: watchdog_inv_def)
  then have get: "wd_getById t (wj_id j) = Some j" and only: "\<And>k. k \<in> set (wr_jobs t) \<Longrightarrow> wj_id k = wj_id j \<Longrightarrow> k = j"
    using j by (auto simp: wd_getById_def row_get_distinct distinct_map inj_on_def)
  have "row_set (\<lambda>k. wj_id k = wj_id j) (refreshed rs name) (wr_jobs t) = wr_jobs t"
    unfolding row_set_def by (rule map_idI) (use only same in auto)
  then have row: "wd_row (wj_id j) (refreshed rs name) t = t" by (simp add: wd_row_def)
  have found: "findAutoRegistration t IDLE_GATE_POLICY aliases None = Inr (Some j)"
    using seat_job_found [OF inv_known [OF inv], of aliases] one
    by (cases "findAutoRegistration t IDLE_GATE_POLICY aliases None") (auto simp: seat_job_def lift_jobs_def)
  have f: "refreshed rs name = (\<lambda>j. j\<lparr>wj_spec := Other_spec (generatedSpec rs name), wj_target := name,
      wj_interval := or_default (js_integer (rs_scan rs)) 0, wj_activeWake := js_finite (Some (rs_activeWake rs)),
      wj_scan := js_finite (Some (rs_scan rs))\<rparr>)"
    by (simp add: fun_eq_iff refreshed_def)
  show ?thesis
    using found row [unfolded f] get valid
    by (simp add: ensureAutoRegistration_def seat_input_def wd_getByIdOrThrow_def Let_def)
qed

lemma alias_self:
  "resolveTopology tp node name = Inr (Some rig) \<Longrightarrow> name \<in> set (canonicalAliases tp node rig name)"
  by (auto simp: resolveTopology_def canonicalAliases_def isEligibleSessionName_def Let_def split: if_splits option.splits)


text \<open>A handover to a noncanonical name retires the seat's job: afterwards no job of the seat runs (one an operator
  stopped stays stopped), so the old name is no longer woken, and a later canonical occupant of an opted-in seat gets
  a new job unless the operator had stopped it.\<close>

theorem handover_retires_job:
  assumes "watchdog_inv s" and "reconcileHandover tp node name s = Inr (t, out)"
  shows "\<exists>rig. rig_of_node tp node = Some rig \<and>
    list_all (\<lambda>j. wj_state j = Wd_stopped \<and> out = Some j) (filter (counts (canonicalAliases tp node rig name)) (wr_jobs t)) \<and>
    (case out of None \<Rightarrow> t = s | Some j \<Rightarrow> wj_state j \<noteq> Wd_active)"
proof -
  obtain rig where rig: "rig_of_node tp node = Some rig"
    using assms(2) by (auto simp: reconcileHandover_def split: option.splits)
  let ?al = "canonicalAliases tp node rig name"
  have rest: "try_bind (seat_job s ?al) (\<lambda>job. case job of
        None \<Rightarrow> Inr (s, None)
      | Some j \<Rightarrow> if wj_state j = Wd_stopped then Inr (s, Some j)
          else let t = wd_markTerminal (wj_id j) ''handover_noncanonical_successor'' s
               in map_sum Jobs_refused (\<lambda>k. (t, Some k)) (wd_getByIdOrThrow t (wj_id j))) = Inr (t, out)"
    using assms(2) rig by (simp add: reconcileHandover_def)
  have dist: "distinct (map wj_id (wr_jobs s))" using assms(1) by (simp add: watchdog_inv_def)
  consider "filter (counts ?al) (wr_jobs s) = []" "t = s" "out = None"
    | j where "filter (counts ?al) (wr_jobs s) = [j]" "wj_state j = Wd_stopped" "t = s" "out = Some j"
    | j k where "filter (counts ?al) (wr_jobs s) = [j]" "wj_state j \<noteq> Wd_stopped"
        "t = wd_markTerminal (wj_id j) ''handover_noncanonical_successor'' s" "wd_getByIdOrThrow t (wj_id j) = Inr k" "out = Some k"
    using rest seat_job_found [OF inv_known [OF assms(1)], of ?al]
    by (auto simp: effect_simps Let_def lifted_Inr split: list.splits if_splits)
  then show ?thesis
  proof cases
    case (3 j k)
    let ?f = "\<lambda>j. j\<lparr>wj_state := Wd_terminal, wj_terminalReason := Some ''handover_noncanonical_successor''\<rparr>"
    have jobs: "wr_jobs t = row_set (\<lambda>r. wj_id r = wj_id j) ?f (wr_jobs s)"
      by (simp add: 3(3) wd_markTerminal_def wd_row_def releaseStoppedSchedules_def)
    have "counts ?al r \<longrightarrow> wj_id r = wj_id j" if "r \<in> set (wr_jobs s)" for r
    proof
      assume "counts ?al r"
      with that have "r \<in> set (filter (counts ?al) (wr_jobs s))" by simp
      then show "wj_id r = wj_id j" by (simp add: 3(1))
    qed
    then have none: "filter (counts ?al) (wr_jobs t) = []"
      by (auto simp: jobs filter_empty_conv row_set_def counts_def)
    have "wj_state k \<noteq> Wd_active"
      using 3(4) by (auto simp: wd_getByIdOrThrow_def 3(3) wd_markTerminal_def wd_getById_def releaseStoppedSchedules_def
          wd_row_def row_get_set split: option.splits dest!: row_get_key)
    then show ?thesis using rig none 3(5) by simp
  qed (use rig in simp_all)
qed

end
