(* ===== verification/Watchdog_Seat_Witnesses.thy ===== *)
theory Watchdog_Seat_Witnesses
  imports Watchdog_Delivery Watchdog_Context_Once Watchdog_Registration
begin

text \<open>
  The properties of deliveries under custody, of context watches and of automatic registration at concrete inputs.
\<close>

section \<open>A refused occurrence\<close>

definition kept_config :: receipts_config where
  "kept_config = \<lparr>rc_interval = 60, rc_cap = 2, rc_iso = (\<lambda>_. ''then''), rc_text = (\<lambda>_. ''go'')\<rparr>"

definition kept_source :: delivery_source where
  "kept_source = \<lparr>dv_occurrence = ''o1'', dv_job = ''J1'', dv_policy = ''periodic-reminder'', dv_members = None\<rparr>"

definition kept_request :: delivery_request where
  "kept_request = \<lparr>dr_target = ''a@r'', dr_message = Wake_plain ''go'', dr_continuity = None\<rparr>"

definition kept_id :: string where
  "kept_id = PREFIX @ ''o1''"

definition kept_refusal :: thrown where
  "kept_refusal = Guard_refusal ''terminal_seat'' ''no input''"

definition kept_rows :: outbox where
  "kept_rows = (case begin_delivery kept_config 1000 kept_request kept_source [] of Inr (s, _) \<Rightarrow> s | Inl _ \<Rightarrow> [])"

definition kept_finished :: "receipts_error + outbox \<times> delivery_outcome \<times> (string \<Rightarrow> delivery_outcome option)" where
  "kept_finished = finish_delivery kept_config 2000 [\<lparr>mb_job = ''J1'', mb_id = kept_id\<rparr>] (Inr (refused True kept_refusal)) kept_rows"

lemma kept_rows_sending:
  "read_receipt kept_rows kept_id = Some (new_receipt 1 ''go'') \<and> deliveryState (the (getEntry kept_rows kept_id)) = Sending"
  by code_simp

lemma kept_members: "members kept_source = [\<lparr>mb_job = ''J1'', mb_id = kept_id\<rparr>]"
  by (simp add: members_def kept_source_def kept_id_def)

lemma kept_finishes: "case kept_finished of Inr _ \<Rightarrow> True | Inl _ \<Rightarrow> False"
  by code_simp


section \<open>A context watch\<close>

definition full_sample :: usage_sample where
  "full_sample = \<lparr>us_tokens = Some 90000, us_percent = Some 90, us_window = Some 100000, us_sampledAt = Some 500, us_fresh = True\<rparr>"

definition watch_env :: context_env where
  "watch_env = \<lparr>cx_measure = (\<lambda>_. Inr 0), cx_num = (\<lambda>_. ''n''), cx_iso = (\<lambda>_. ''then'')\<rparr>"

definition watch_engine_deps :: engine_deps where
  "watch_engine_deps = \<lparr>dp_occupant = (\<lambda>_. Some ''g1''), dp_yaml = \<lparr>y_parse = (\<lambda>_. None), y_setMessage = (\<lambda>_ _. None)\<rparr>,
     dp_policies = (\<lambda>n. if n = ''context-usage-threshold'' then Some (contextUsageThresholdPolicy watch_env) else None),
     dp_resolveTargetGeneration = Some (\<lambda>_. Some ''g1''), dp_resolveContextUsage = (\<lambda>_ _. Some full_sample),
     dp_findTranscript = (\<lambda>_ _. None), dp_preDeliveryTerminal = (\<lambda>_. None), dp_queueWait = (\<lambda>_ _. ([], None)),
     dp_onWakeAttempt = (\<lambda>_. []), dp_digestEntry = (\<lambda>_ _. None), dp_reconcile = (\<lambda>_. None),
     dp_hash = (\<lambda>xs. concat (map (\<lambda>x. or_default x []) xs))\<rparr>"

definition watch_input :: register_input where
  "watch_input = \<lparr>ri_policy = ''context-usage-threshold'', ri_spec = Reminder_spec ''a@r'' ''compact'', ri_target = ''a@r'',
     ri_interval = Finite 60, ri_activeWake = None, ri_scan = None, ri_registeredBy = ''op@r'', ri_targetGeneration = None,
     ri_watchedFile = None, ri_thresholdBytes = None, ri_thresholdTokens = None, ri_thresholdPercent = Some (Finite 80),
     ri_requires = None\<rparr>"

definition watch_job :: wd_job where
  "watch_job = new_job (\<lambda>_. Some ''g1'') 1000 ''W1'' watch_input"

definition watch_engine :: engine where
  "watch_engine = \<lparr>en_store = empty_watchdog\<lparr>wr_jobs := [watch_job]\<rparr>, en_history = [], en_events = [], en_sent = []\<rparr>"

definition watch_world :: world where
  "watch_world = \<lparr>wo_duringPolicy = [], wo_duringDelivery = [], wo_deliver = (\<lambda>_ _. Inr (plain_outcome Dl_ok)),
     wo_memberOutcome = (\<lambda>_ _. None)\<rparr>"

definition watch_fired :: "(evaluation_result option \<times> held_reminder option) act" where
  "watch_fired = evaluate watch_engine_deps watch_world 61000 None False watch_job watch_engine"

definition watch_later :: wd_job where
  "watch_later = the (wd_getById (en_store (fst watch_fired)) ''W1'')"

lemma watch_fired_ok:
  "case snd watch_fired of Inr (Some r, None) \<Rightarrow> fires (re_outcome r) \<and> re_delivery r \<noteq> None | _ \<Rightarrow> False"
  by code_simp

lemma watch_fired_plain: "dr_continuity (fst (last (en_sent (fst watch_fired)))) = None"
  by code_simp

lemma watch_fired_job: "wd_getById (en_store (fst watch_fired)) ''W1'' \<noteq> None \<and> wj_policy watch_later = ''context-usage-threshold''"
  by code_simp

lemma watch_job_simps: "wj_id watch_job = ''W1''" "is_context_watch watch_job"
  by (simp_all add: watch_job_def new_job_def watch_input_def is_context_watch_def Let_def)

lemma watch_setting: "watch_deps watch_env watch_engine_deps" "occupant_now watch_engine_deps j = Some ''g1''"
    "hooks_quiet i g watch_engine_deps"
  by (simp_all add: watch_deps_def occupant_now_def hooks_quiet_def watch_engine_deps_def)


section \<open>A reading that reached its threshold\<close>

definition watch_asked :: policy_job where
  "watch_asked = \<lparr>pj_id = ''W1'', pj_policy = ''context-usage-threshold'', pj_target = ''a@r'', pj_message = None,
     pj_interval = 60, pj_activeWake = None, pj_scan = None, pj_context = [], pj_lastEvaluation = None, pj_lastFire = None,
     pj_registeredBy = ''op@r'', pj_registeredAt = 0, pj_watchedFile = None, pj_thresholdBytes = None,
     pj_thresholdTokens = Some 80000, pj_thresholdPercent = None, pj_sample = Some full_sample, pj_requires = Some ''W0'',
     pj_firedGeneration = Some ''g0'', pj_firedCondition = None, pj_occupant = Some ''g1'', pj_transcriptPending = False,
     pj_receiptSatisfied = True, pj_receiptDeferred = False\<rparr>"

theorem context_watch_fires_iff_witness:
  "\<exists>out. contextUsageThresholdPolicy watch_env watch_asked = Inr out \<and> fires out \<and> pe_target out = ''a@r''"
  using context_watch_fires_iff [of watch_env watch_asked]
  by (simp add: watch_asked_def full_sample_def threshold_of_def thresholdUnit_def readable_def truthy_def)

section \<open>One job per seat\<close>

definition seat_topology :: topology where
  "seat_topology = \<lparr>tp_nodes = [(''n1'', ''r1'')], tp_rigs = [(''r1'', ''rig'')],
     tp_sessions = [\<lparr>sn_id = ''s1'', sn_node = ''n1'', sn_name = ''dev-old@rig'', sn_status = ''exited'', sn_created = 10\<rparr>,
       \<lparr>sn_id = ''s2'', sn_node = ''n1'', sn_name = ''dev-main@rig'', sn_status = ''running'', sn_created = 20\<rparr>]\<rparr>"

definition seat_settings :: registration_settings where
  "seat_settings = \<lparr>rs_autoRegister = Some ''all'', rs_optIn = None, rs_scan = Finite 60, rs_activeWake = Finite 600,
     rs_text = (\<lambda>_. ''60'')\<rparr>"

definition seat_ensured :: "registration_error + watchdog_store \<times> wd_job option" where
  "seat_ensured = ensure_seat (\<lambda>_. None) 1000 ''J1'' seat_topology seat_settings ''n1'' ''dev-main@rig'' empty_watchdog"

lemma seat_ensured_ok: "case seat_ensured of Inr (t, Some j) \<Rightarrow> True | _ \<Rightarrow> False"
  by code_simp


definition seat_table :: watchdog_store where
  "seat_table = (case seat_ensured of Inr (t, _) \<Rightarrow> t | Inl _ \<Rightarrow> empty_watchdog)"

lemma seat_table_inv: "watchdog_inv seat_table"
  using ensure_seat_inv [OF watchdog_inv_empty]
  by (auto simp: seat_table_def seat_ensured_def watchdog_inv_empty split: sum.split)

definition seat_handed :: "registration_error + watchdog_store \<times> wd_job option" where
  "seat_handed = reconcileHandover seat_topology ''n1'' ''dev.alt'' seat_table"

lemma seat_handed_ok: "case seat_handed of Inr (t, Some j) \<Rightarrow> wj_state j = Wd_terminal | _ \<Rightarrow> False"
  by code_simp

theorem handover_retires_job_witness:
  "\<exists>t j. seat_handed = Inr (t, Some j) \<and> wj_state j \<noteq> Wd_active"
proof -
  obtain t j where ran: "seat_handed = Inr (t, Some j)"
    using seat_handed_ok by (auto split: sum.splits option.splits prod.splits)
  from handover_retires_job [OF seat_table_inv ran [unfolded seat_handed_def]] show ?thesis using ran by auto
qed

end
