(* ===== verification/Escalation_Owner.thy ===== *)
theory Escalation_Owner
  imports Prelude
begin

text \<open>
  Whom a stuck seat's row escalates to: the topology tables, the seat behind a session name
  (\<open>packages/daemon/src/domain/session-registry.ts\<close>), its delegation parent and a rig's representative
  (\<open>queue-owner.ts\<close>), and the one hop of a declared \<open>escalates_to\<close> edge with its check for cycles
  (\<open>escalation-owner.ts\<close>).
\<close>

section \<open>Topology\<close>

record rig_row =
  rg_id :: string
  rg_name :: string
  rg_archived :: bool

record node_row =
  nd_id :: string
  nd_rig :: string
  nd_logical :: string

record bound_session =
  bs_id :: string
  bs_node :: string
  bs_name :: string
  bs_status :: string
  bs_created :: timestamp

datatype edge_kind = Delegates_to | Escalates_to | Other_edge

record arc =
  ar_source :: string
  ar_target :: "string option"
  ar_ref :: "string option"
  ar_kind :: edge_kind

record org =
  og_rigs :: "rig_row list"
  og_nodes :: "node_row list"
  og_bindings :: "(string \<times> string option) list"
  og_sessions :: "bound_session list"
  og_edges :: "arc list"

definition latest_of :: "bound_session list \<Rightarrow> bound_session option" where
  "latest_of ss = (case rev (sort_key bs_id ss) of [] \<Rightarrow> None | s # _ \<Rightarrow> Some s)"

definition latest_session :: "org \<Rightarrow> string \<Rightarrow> bound_session option" where
  "latest_session og node = latest_of (filter (\<lambda>s. bs_node s = node) (og_sessions og))"

definition seat_address :: "node_row \<Rightarrow> rig_row \<Rightarrow> string" where
  "seat_address n r = map (\<lambda>c. if c = CHR ''.'' then CHR ''-'' else c) (nd_logical n) @ ''@'' @ rg_name r"

text \<open>\<open>nodes JOIN rigs\<close>.\<close>

definition placed :: "org \<Rightarrow> (node_row \<times> rig_row) list" where
  "placed og = concat (map (\<lambda>n. map (Pair n) (filter (\<lambda>r. rg_id r = nd_rig n) (og_rigs og))) (og_nodes og))"

section \<open>The seat behind a name\<close>

definition STOPPED_STATUSES :: "string list" where
  "STOPPED_STATUSES = [''superseded'', ''detached'', ''exited'']"

definition isStoppedSeatPredecessor :: "(node_row \<times> rig_row) \<times> string option \<Rightarrow> node_row \<times> rig_row \<Rightarrow> bool" where
  "isStoppedSeatPredecessor previous current =
     (case previous of ((n, r), latest) \<Rightarrow>
        rg_name r = rg_name (snd current) \<and> nd_logical n = nd_logical (fst current) \<and>
        (rg_archived r \<or> or_default latest [] \<in> set STOPPED_STATUSES))"

definition hasOtherSeatHistory :: "org \<Rightarrow> string \<Rightarrow> string \<Rightarrow> bool" where
  "hasOtherSeatHistory og address node =
     list_ex (\<lambda>s. bs_name s = address \<and> bs_node s \<noteq> node \<and>
        list_ex (\<lambda>owner. nd_id (fst owner) = bs_node s \<and>
           list_ex (\<lambda>target. nd_id (fst target) = node \<and>
              \<not> isStoppedSeatPredecessor (owner, map_option bs_status (latest_session og (bs_node s))) target) (placed og))
          (placed og)) (og_sessions og)"

definition current_rows :: "org \<Rightarrow> string \<Rightarrow> ((node_row \<times> rig_row) \<times> bound_session) list" where
  "current_rows og address = concat (map (\<lambda>p.
     concat (map (\<lambda>b. case latest_session og (nd_id (fst p)) of None \<Rightarrow> []
        | Some s \<Rightarrow> if snd b = Some (bs_name s) \<and> (bs_name s = address \<or> seat_address (fst p) (snd p) = address)
                    then [(p, s)] else [])
       (filter (\<lambda>b. fst b = nd_id (fst p)) (og_bindings og)))) (placed og))"

definition resolveCurrentSessionAddress :: "org \<Rightarrow> string \<Rightarrow> ((node_row \<times> rig_row) \<times> bound_session) option" where
  "resolveCurrentSessionAddress og address =
     (let active = filter (\<lambda>(p, s). \<not> rg_archived (snd p) \<and> bs_status s \<notin> set STOPPED_STATUSES) (current_rows og address);
          exact = filter (\<lambda>(p, s). bs_name s = address) active;
          pool = (if exact \<noteq> [] then exact
                  else filter (\<lambda>(p, s). \<not> hasOtherSeatHistory og address (nd_id (fst p))) active)
      in case pool of [row] \<Rightarrow> Some row | _ \<Rightarrow> None)"

definition physicalSessionName :: "org \<Rightarrow> string \<Rightarrow> string" where
  "physicalSessionName og address =
     (if CHR ''@'' \<notin> set address then address
      else case resolveCurrentSessionAddress og address of None \<Rightarrow> address | Some (p, s) \<Rightarrow> bs_name s)"

definition savedSessionName :: "org \<Rightarrow> string \<Rightarrow> string" where
  "savedSessionName og address =
     (if list_ex (\<lambda>s. bs_name s = address) (og_sessions og) then address else physicalSessionName og address)"

section \<open>Parents and representatives\<close>

definition resolveSessionNodeId :: "org \<Rightarrow> string \<Rightarrow> string option" where
  "resolveSessionNodeId og session =
     (case latest_of (filter (\<lambda>s. bs_name s = session) (og_sessions og)) of
        Some s \<Rightarrow> Some (bs_node s)
      | None \<Rightarrow> map_option (\<lambda>(p, s). nd_id (fst p)) (resolveCurrentSessionAddress og session))"

definition delegates_into :: "org \<Rightarrow> string \<Rightarrow> arc list" where
  "delegates_into og node = filter (\<lambda>a. ar_kind a = Delegates_to \<and> ar_target a = Some node) (og_edges og)"

definition defaultResolveOrchestrator :: "org \<Rightarrow> string \<Rightarrow> string option" where
  "defaultResolveOrchestrator og session =
     (case resolveSessionNodeId og session of None \<Rightarrow> None
      | Some node \<Rightarrow>
          (case rev (sort_key (\<lambda>s. (bs_created s, bs_id s))
              (filter (\<lambda>s. bs_node s \<in> set (map ar_source (delegates_into og node))) (og_sessions og))) of
             [] \<Rightarrow> None | s # _ \<Rightarrow> Some (bs_name s)))"

definition resolveRigRepresentativeById :: "org \<Rightarrow> string \<Rightarrow> string option" where
  "resolveRigRepresentativeById og rig =
     (case filter (\<lambda>n. nd_rig n = rig \<and>
             list_ex (\<lambda>a. ar_kind a = Delegates_to \<and> ar_source a = nd_id n) (og_edges og) \<and>
             delegates_into og (nd_id n) = []) (og_nodes og) of
        [n] \<Rightarrow> map_option bs_name (latest_session og (nd_id n))
      | _ \<Rightarrow> None)"

definition resolveRigRepresentative :: "org \<Rightarrow> string \<Rightarrow> string option" where
  "resolveRigRepresentative og name =
     (case filter (\<lambda>r. rg_name r = name \<and> \<not> rg_archived r) (og_rigs og) of
        [r] \<Rightarrow> resolveRigRepresentativeById og (rg_id r)
      | _ \<Rightarrow> None)"

section \<open>One hop\<close>

datatype escalation_outcome = Out_parent | Out_none | Out_routed | Out_unavailable | Out_ambiguous | Out_self | Out_cycle
  | Out_unknown

record escalation_owner =
  eo_owner :: "string option"
  eo_outcome :: escalation_outcome
  eo_reason :: string

record seat =
  se_id :: string
  se_address :: string
  se_session :: "string option"
  se_status :: "string option"

definition seats_of :: "org \<Rightarrow> seat list" where
  "seats_of og = map (\<lambda>(n, r). let s = latest_session og (nd_id n)
       in \<lparr>se_id = nd_id n, se_address = seat_address n r, se_session = map_option bs_name s, se_status = map_option bs_status s\<rparr>)
     (filter (\<lambda>(n, r). \<not> rg_archived r) (placed og))"

definition arcs_of :: "org \<Rightarrow> arc list" where
  "arcs_of og = filter (\<lambda>a. ar_kind a \<noteq> Other_edge) (og_edges og)"

definition endpoints :: "org \<Rightarrow> arc \<Rightarrow> seat list" where
  "endpoints og a =
     (case ar_ref a of
        Some ref \<Rightarrow>
          if ref = [] then filter (\<lambda>s. Some (se_id s) = ar_target a) (seats_of og)
          else let exact = filter (\<lambda>s. se_session s = Some ref) (seats_of og)
               in if exact \<noteq> [] then exact else filter (\<lambda>s. se_address s = ref) (seats_of og)
      | None \<Rightarrow> filter (\<lambda>s. Some (se_id s) = ar_target a) (seats_of og))"

text \<open>Where an escalation from a node would go on to: its delegation parents, or else its own declared targets.\<close>

definition escalates_from :: "org \<Rightarrow> string \<Rightarrow> arc list" where
  "escalates_from og i = filter (\<lambda>a. ar_kind a = Escalates_to \<and> ar_source a = i) (arcs_of og)"

definition onward :: "org \<Rightarrow> string \<Rightarrow> seat list list" where
  "onward og i =
     (let parents = delegates_into og i
      in if parents \<noteq> [] then map (\<lambda>a. filter (\<lambda>s. se_id s = ar_source a) (seats_of og)) parents
         else map (endpoints og) (escalates_from og i))"

record search =
  sr_visiting :: "string list"
  sr_visited :: "string list"
  sr_unknown :: bool

fun until_true :: "('a \<Rightarrow> 's \<Rightarrow> (bool \<times> 's) option) \<Rightarrow> 'a list \<Rightarrow> 's \<Rightarrow> (bool \<times> 's) option" where
  "until_true f [] st = Some (False, st)"
| "until_true f (x # xs) st = (case f x st of None \<Rightarrow> None
     | Some (b, st') \<Rightarrow> if b then Some (True, st') else until_true f xs st')"

definition doubt :: "bool \<Rightarrow> search \<Rightarrow> search" where
  "doubt b st = (if b then st\<lparr>sr_unknown := True\<rparr> else st)"

text \<open>The depth first search; no level below the number of seats runs out.\<close>

primrec cyclic :: "nat \<Rightarrow> org \<Rightarrow> string \<Rightarrow> search \<Rightarrow> (bool \<times> search) option" where
  "cyclic 0 og i st = None"
| "cyclic (Suc n) og i st =
     (if i \<in> set (sr_visiting st) then Some (True, st)
      else if i \<in> set (sr_visited st) then Some (False, st)
      else case until_true (\<lambda>matches. until_true (\<lambda>s. cyclic n og (se_id s)) matches \<circ> doubt (length matches \<noteq> 1))
             (onward og i)
             (doubt (1 < length (onward og i)) (st\<lparr>sr_visiting := i # sr_visiting st\<rparr>)) of
          None \<Rightarrow> None
        | Some (True, st') \<Rightarrow> Some (True, st')
        | Some (False, st') \<Rightarrow> Some (False,
            st'\<lparr>sr_visiting := removeAll i (sr_visiting st'), sr_visited := i # sr_visited st'\<rparr>))"

definition failed_hop :: "escalation_outcome \<Rightarrow> string \<Rightarrow> string \<Rightarrow> escalation_owner" where
  "failed_hop out name detail = \<lparr>eo_owner = None, eo_outcome = out,
     eo_reason = ''escalates_to '' @ name @ '': '' @ detail @ ''; existing fallback retained''\<rparr>"

definition hop_target :: "(string \<Rightarrow> bool) option \<Rightarrow> string \<Rightarrow> seat \<Rightarrow> escalation_owner" where
  "hop_target accepts session target =
     (if \<not> truthy (se_session target) \<or> or_default (se_status target) [] \<notin> {''running'', ''idle''}
      then failed_hop Out_unavailable ''unavailable'' ''destination has no running recorded session''
      else if (case accepts of None \<Rightarrow> False | Some f \<Rightarrow> \<not> f (the (se_session target)))
      then failed_hop Out_unavailable ''unavailable'' ''destination not admitted by queue''
      else \<lparr>eo_owner = se_session target, eo_outcome = Out_routed,
        eo_reason = ''escalates_to routed: '' @ session @ '' -> '' @ the (se_session target) @ '' (one hop)''\<rparr>)"

definition cycle_check :: "org \<Rightarrow> string \<Rightarrow> seat \<Rightarrow> (bool \<times> search) option" where
  "cycle_check og source target = cyclic (Suc (length (seats_of og))) og (se_id target)
     \<lparr>sr_visiting = [source], sr_visited = [], sr_unknown = False\<rparr>"

definition resolveEscalationOwner :: "org \<Rightarrow> (string \<Rightarrow> bool) option \<Rightarrow> string \<Rightarrow> escalation_owner" where
  "resolveEscalationOwner og accepts session =
     (let parent = defaultResolveOrchestrator og session
      in case resolveSessionNodeId og session of
        None \<Rightarrow> \<lparr>eo_owner = parent, eo_outcome = Out_none, eo_reason = ''no recorded source topology''\<rparr>
      | Some source \<Rightarrow>
          if delegates_into og source \<noteq> [] then
            \<lparr>eo_owner = parent, eo_outcome = Out_parent, eo_reason = ''declared delegation parent retained''\<rparr>
          else case escalates_from og source of
            [] \<Rightarrow> \<lparr>eo_owner = None, eo_outcome = Out_none, eo_reason = ''no escalation destination declared''\<rparr>
          | [declared] \<Rightarrow>
              (case endpoints og declared of
                 [] \<Rightarrow> failed_hop Out_unavailable ''unavailable'' (''destination absent from this daemon'' @ [CHR 0x27] @ ''s active topology'')
               | [target] \<Rightarrow>
                   if se_id target = source then failed_hop Out_self ''self'' ''destination is the source seat''
                   else (case cycle_check og source target of
                       Some (False, st) \<Rightarrow>
                         if sr_unknown st
                         then failed_hop Out_unknown ''unknown'' ''cycle check includes an unresolved or ambiguous declared endpoint''
                         else hop_target accepts session target
                     | _ \<Rightarrow> failed_hop Out_cycle ''cycle'' ''declared escalation/delegation topology contains a cycle'')
               | _ \<Rightarrow> failed_hop Out_ambiguous ''ambiguous'' ''destination names more than one seat'')
          | _ \<Rightarrow> failed_hop Out_ambiguous ''ambiguous'' ''multiple declared destinations'')"

end
