(* ===== verification/Escalation_Search.thy ===== *)
theory Escalation_Search
  imports Escalation_Owner
begin

text \<open>
  The search for cycles: it ends, what it reports as a cycle is one, and where it finds neither a cycle nor a doubt
  the way onward is a single finite path.
\<close>

section \<open>Loops\<close>

text \<open>What every round keeps holds at the end, and a loop that stops stopped in a round.\<close>

lemma until_true_stops:
  assumes "until_true f xs st = Some (True, st')" "I st"
    and "\<And>x st st1. x \<in> set xs \<Longrightarrow> I st \<Longrightarrow> f x st = Some (False, st1) \<Longrightarrow> I st1"
  shows "\<exists>x \<in> set xs. \<exists>st0. I st0 \<and> f x st0 = Some (True, st')"
  using assms
proof (induction xs arbitrary: st)
  case (Cons x xs)
  show ?case
  proof (cases "f x st")
    case (Some p)
    then obtain b st1 where p: "f x st = Some (b, st1)" by (cases p) auto
    show ?thesis
    proof (cases b)
      case True
      with p Cons.prems show ?thesis by auto
    next
      case False
      with p Cons.prems have "I st1" by auto
      with Cons.IH [of st1] Cons.prems p False show ?thesis by auto
    qed
  qed (use Cons.prems in simp)
qed simp

lemma until_true_ends:
  assumes "until_true f xs st = Some (False, st')" "I st"
    and "\<And>x st st1. x \<in> set xs \<Longrightarrow> I st \<Longrightarrow> f x st = Some (False, st1) \<Longrightarrow> I st1"
  shows "I st'"
  using assms
proof (induction xs arbitrary: st)
  case (Cons x xs)
  then obtain st1 where "f x st = Some (False, st1)" "until_true f xs st1 = Some (False, st')"
    by (auto split: option.splits prod.splits if_splits)
  with Cons.IH [of st1] Cons.prems show ?case by auto
qed simp

lemma until_true_total:
  assumes "I st" "\<And>x st. x \<in> set xs \<Longrightarrow> I st \<Longrightarrow> f x st \<noteq> None"
    and "\<And>x st st1. x \<in> set xs \<Longrightarrow> I st \<Longrightarrow> f x st = Some (False, st1) \<Longrightarrow> I st1"
  shows "until_true f xs st \<noteq> None"
  using assms
proof (induction xs arbitrary: st)
  case (Cons x xs)
  have "f x st \<noteq> None" by (rule Cons.prems(2)) (use Cons.prems(1) in auto)
  then obtain b st1 where f: "f x st = Some (b, st1)" by auto
  show ?case
  proof (cases b)
    case False
    with f have "I st1" by (intro Cons.prems(3) [of x st st1]) (use Cons.prems(1) in auto)
    then have "until_true f xs st1 \<noteq> None"
    proof (rule Cons.IH)
      fix y u v assume y: "y \<in> set xs" "I u"
      from Cons.prems(2) [of y u] y show "f y u \<noteq> None" by simp
      assume "f y u = Some (False, v)"
      with Cons.prems(3) [of y u v] y show "I v" by simp
    qed
    with f False show ?thesis by simp
  qed (use f in simp)
qed simp

lemma doubt_simps [simp]: "sr_visiting (doubt b st) = sr_visiting st" "sr_visited (doubt b st) = sr_visited st"
  "sr_unknown (doubt b st) \<longleftrightarrow> b \<or> sr_unknown st"
  by (simp_all add: doubt_def)

abbreviation look :: "nat \<Rightarrow> org \<Rightarrow> seat list \<Rightarrow> search \<Rightarrow> (bool \<times> search) option" where
  "look n og \<equiv> \<lambda>matches. until_true (\<lambda>s. cyclic n og (se_id s)) matches \<circ> doubt (length matches \<noteq> 1)"

lemma look_ends:
  assumes "look n og ms st = Some (False, st')" "I st" "\<And>b st. I st \<Longrightarrow> I (doubt b st)"
    and "\<And>i st st1. I st \<Longrightarrow> cyclic n og i st = Some (False, st1) \<Longrightarrow> I st1"
  shows "I st'"
  by (rule until_true_ends [where I = I and f = "\<lambda>s. cyclic n og (se_id s)" and xs = ms and st = "doubt (length ms \<noteq> 1) st"])
     (use assms in auto)

text \<open>A node that is neither on the way nor done.\<close>

lemma cyclic_new:
  assumes "i \<notin> set (sr_visiting st)" "i \<notin> set (sr_visited st)"
  shows "cyclic (Suc n) og i st =
    (case until_true (look n og) (onward og i)
        (doubt (1 < length (onward og i)) (st\<lparr>sr_visiting := i # sr_visiting st\<rparr>)) of
       None \<Rightarrow> None | Some (True, st') \<Rightarrow> Some (True, st')
     | Some (False, st') \<Rightarrow> Some (False, st'\<lparr>sr_visiting := removeAll i (sr_visiting st'), sr_visited := i # sr_visited st'\<rparr>))"
  using assms by simp

lemma cyclic_visiting: "cyclic n og i st = Some (False, st') \<Longrightarrow> sr_visiting st' = sr_visiting st"
proof (induction n arbitrary: i st st')
  case (Suc n)
  show ?case
  proof (cases "i \<in> set (sr_visiting st) \<or> i \<in> set (sr_visited st)")
    case False
    let ?V = "i # sr_visiting st"
    from Suc.prems False obtain s1 where
      loop: "until_true (look n og) (onward og i)
        (doubt (1 < length (onward og i)) (st\<lparr>sr_visiting := ?V\<rparr>)) = Some (False, s1)"
      and st': "st' = s1\<lparr>sr_visiting := removeAll i (sr_visiting s1), sr_visited := i # sr_visited s1\<rparr>"
      by (auto simp: cyclic_new split: option.splits prod.splits bool.splits)
    have "sr_visiting s1 = ?V"
    proof (rule until_true_ends [OF loop, where I = "\<lambda>s. sr_visiting s = ?V"])
      fix ms s s2 assume s: "sr_visiting s = ?V" and "look n og ms s = Some (False, s2)"
      from this(2) show "sr_visiting s2 = ?V"
        by (rule look_ends [where I = "\<lambda>s. sr_visiting s = ?V"]) (use s Suc.IH in auto)
    qed simp
    with st' False show ?thesis by simp
  qed (use Suc.prems in \<open>auto split: if_splits\<close>)
qed simp

lemma cyclic_unknown: "cyclic n og i st = Some (False, st') \<Longrightarrow> sr_unknown st \<Longrightarrow> sr_unknown st'"
proof (induction n arbitrary: i st st')
  case (Suc n)
  show ?case
  proof (cases "i \<in> set (sr_visiting st) \<or> i \<in> set (sr_visited st)")
    case False
    from Suc.prems(1) False obtain s1 where
      loop: "until_true (look n og) (onward og i)
        (doubt (1 < length (onward og i)) (st\<lparr>sr_visiting := i # sr_visiting st\<rparr>)) = Some (False, s1)"
      and st': "st' = s1\<lparr>sr_visiting := removeAll i (sr_visiting s1), sr_visited := i # sr_visited s1\<rparr>"
      by (auto simp: cyclic_new split: option.splits prod.splits bool.splits)
    have "sr_unknown s1"
    proof (rule until_true_ends [OF loop, where I = sr_unknown])
      fix ms s s2 assume s: "sr_unknown s" and "look n og ms s = Some (False, s2)"
      from this(2) show "sr_unknown s2" by (rule look_ends [where I = sr_unknown]) (use s Suc.IH in auto)
    qed (use Suc.prems(2) in simp)
    with st' show ?thesis by simp
  qed (use Suc.prems in \<open>auto split: if_splits\<close>)
qed simp

section \<open>Cycles\<close>

definition leads_to :: "org \<Rightarrow> string \<Rightarrow> string \<Rightarrow> bool" where
  "leads_to og x y \<longleftrightarrow> (\<exists>matches \<in> set (onward og x). \<exists>s \<in> set matches. y = se_id s)"

lemma cyclic_sound:
  "cyclic n og i st = Some (True, st')
    \<Longrightarrow> \<exists>y. (leads_to og)\<^sup>*\<^sup>* i y \<and> (y \<in> set (sr_visiting st) \<or> (leads_to og)\<^sup>+\<^sup>+ y y)"
proof (induction n arbitrary: i st st')
  case (Suc n)
  show ?case
  proof (cases "i \<in> set (sr_visiting st) \<or> i \<in> set (sr_visited st)")
    case True
    with Suc.prems show ?thesis by (auto split: if_splits)
  next
    case False
    let ?V = "i # sr_visiting st"
    from Suc.prems(1) False have
      loop: "until_true (look n og) (onward og i)
        (doubt (1 < length (onward og i)) (st\<lparr>sr_visiting := ?V\<rparr>)) = Some (True, st')"
      by (auto simp: cyclic_new split: option.splits prod.splits bool.splits)
    have keep: "sr_visiting s2 = ?V" if "sr_visiting s = ?V" "look n og ms s = Some (False, s2)" for ms s s2
      by (rule look_ends [OF that(2), where I = "\<lambda>s. sr_visiting s = ?V"]) (use that(1) cyclic_visiting in auto)
    have "\<exists>ms \<in> set (onward og i). \<exists>s0. sr_visiting s0 = ?V \<and> look n og ms s0 = Some (True, st')"
      by (rule until_true_stops [OF loop]) (simp, erule keep, assumption)
    then obtain ms s0 where ms: "ms \<in> set (onward og i)" "sr_visiting s0 = ?V"
      "until_true (\<lambda>s. cyclic n og (se_id s)) ms (doubt (length ms \<noteq> 1) s0) = Some (True, st')" by auto
    have "\<exists>s \<in> set ms. \<exists>s1. sr_visiting s1 = ?V \<and> cyclic n og (se_id s) s1 = Some (True, st')"
      by (rule until_true_stops [OF ms(3)]) (simp add: ms(2), simp add: cyclic_visiting)
    then obtain s s1 where s: "s \<in> set ms" "sr_visiting s1 = ?V" "cyclic n og (se_id s) s1 = Some (True, st')" by auto
    have step: "leads_to og i (se_id s)" using ms(1) s(1) by (auto simp: leads_to_def)
    obtain y where y: "(leads_to og)\<^sup>*\<^sup>* (se_id s) y" "y \<in> set ?V \<or> (leads_to og)\<^sup>+\<^sup>+ y y"
      using Suc.IH [OF s(3)] s(2) by auto
    show ?thesis
    proof (cases "y = i")
      case True
      with step y(1) have "(leads_to og)\<^sup>+\<^sup>+ i i" by (metis rtranclp_into_tranclp2)
      then show ?thesis by blast
    next
      case False
      with y step show ?thesis by (auto intro: converse_rtranclp_into_rtranclp)
    qed
  qed
qed simp

section \<open>Fuel\<close>

lemma onward_seats: "matches \<in> set (onward og x) \<Longrightarrow> s \<in> set matches \<Longrightarrow> se_id s \<in> set (map se_id (seats_of og))"
  by (auto simp: onward_def Let_def endpoints_def split: if_splits option.splits)

lemma cyclic_total:
  "card (set (map se_id (seats_of og)) - set (sr_visiting st)) < n \<Longrightarrow> i \<in> set (map se_id (seats_of og)) \<Longrightarrow> cyclic n og i st \<noteq> None"
proof (induction n arbitrary: i st)
  case (Suc n)
  let ?S = "set (map se_id (seats_of og))"
  show ?case
  proof (cases "i \<in> set (sr_visiting st) \<or> i \<in> set (sr_visited st)")
    case False
    let ?V = "i # sr_visiting st"
    have eq: "?S - set ?V = (?S - set (sr_visiting st)) - {i}" by auto
    have "card (?S - set ?V) < card (?S - set (sr_visiting st))"
      unfolding eq by (rule card_Diff1_less) (use Suc.prems(2) False in auto)
    with Suc.prems(1) have less: "card (?S - set ?V) < n" by linarith
    have inner: "until_true (\<lambda>s. cyclic n og (se_id s)) ms s0 \<noteq> None" if "ms \<in> set (onward og i)" "sr_visiting s0 = ?V" for ms s0
    proof (rule until_true_total [where I = "\<lambda>s. sr_visiting s = ?V"])
      fix x and s :: search assume "x \<in> set ms" "sr_visiting s = ?V"
      with Suc.IH [of s "se_id x"] less onward_seats [OF that(1)] show "cyclic n og (se_id x) s \<noteq> None" by simp
    next
      show "sr_visiting s0 = ?V" by (rule that(2))
    next
      fix x s s1 assume "sr_visiting s = ?V" "cyclic n og (se_id x) s = Some (False, s1)"
      then show "sr_visiting s1 = ?V" by (simp add: cyclic_visiting)
    qed
    have "until_true (look n og) (onward og i)
        (doubt (1 < length (onward og i)) (st\<lparr>sr_visiting := ?V\<rparr>)) \<noteq> None"
    proof (rule until_true_total [where I = "\<lambda>s. sr_visiting s = ?V"])
      fix ms s s2 assume s: "sr_visiting s = ?V" and "look n og ms s = Some (False, s2)"
      from this(2) show "sr_visiting s2 = ?V"
        by (rule look_ends [where I = "\<lambda>s. sr_visiting s = ?V"]) (use s cyclic_visiting in auto)
    qed (use inner in auto)
    then show ?thesis using False by (auto simp: cyclic_new split: option.split prod.split bool.split)
  qed auto
qed simp

lemma cycle_check_total: "target \<in> set (seats_of og) \<Longrightarrow> cycle_check og source target \<noteq> None"
proof -
  assume t: "target \<in> set (seats_of og)"
  have "card (set (map se_id (seats_of og)) - {source}) \<le> card (set (map se_id (seats_of og)))" by (rule card_mono) auto
  also have "\<dots> \<le> length (seats_of og)" using card_length [of "map se_id (seats_of og)"] by simp
  finally show ?thesis unfolding cycle_check_def by (intro cyclic_total) (use t in auto)
qed

section \<open>Paths\<close>

text \<open>A path along the only way onward, to a node with none.\<close>

fun leads_on :: "org \<Rightarrow> string list \<Rightarrow> bool" where
  "leads_on og [] = False"
| "leads_on og [x] = (onward og x = [])"
| "leads_on og (x # y # xs) = (map (map se_id) (onward og x) = [[y]] \<and> leads_on og (y # xs))"

lemma cyclic_path:
  "cyclic n og i st = Some (False, st') \<Longrightarrow> \<not> sr_unknown st' \<Longrightarrow> sr_visited st = []
    \<Longrightarrow> \<exists>path. leads_on og (i # path) \<and> distinct (i # path) \<and> set (i # path) \<inter> set (sr_visiting st) = {}"
proof (induction n arbitrary: i st st')
  case (Suc n)
  have new: "i \<notin> set (sr_visiting st)" "i \<notin> set (sr_visited st)" using Suc.prems(1,3) by auto
  let ?st = "doubt (1 < length (onward og i)) (st\<lparr>sr_visiting := i # sr_visiting st\<rparr>)"
  obtain s1 where loop: "until_true (look n og) (onward og i) ?st = Some (False, s1)" and s1: "\<not> sr_unknown s1"
    using Suc.prems(1,2) new by (auto simp: cyclic_new simp del: cyclic.simps split: option.splits prod.splits bool.splits)
  have keep: "sr_unknown v" if "sr_unknown u" "look n og ms u = Some (False, v)" for u v ms
    by (rule look_ends [OF that(2), where I = sr_unknown]) (use that(1) cyclic_unknown in auto)
  have known: "\<not> sr_unknown ?st" using until_true_ends [OF loop, of sr_unknown] keep s1 by blast
  then consider "onward og i = []" | ms where "onward og i = [ms]"
    by (cases "onward og i"; cases "tl (onward og i)") auto
  then show ?case
  proof cases
    case 1
    with new show ?thesis by (intro exI [of _ "[]"]) simp
  next
    case (2 ms)
    from loop 2 obtain s2 where look: "look n og ms ?st = Some (False, s2)" and s2: "\<not> sr_unknown s2"
      using s1 by (auto split: option.splits prod.splits if_splits)
    have "\<not> sr_unknown (doubt (length ms \<noteq> 1) ?st)"
    proof
      assume "sr_unknown (doubt (length ms \<noteq> 1) ?st)"
      with until_true_ends [OF look [unfolded o_apply], of sr_unknown] cyclic_unknown s2 show False by blast
    qed
    then obtain s where ms: "ms = [s]" by (cases ms; cases "tl ms") auto
    from look ms have "cyclic n og (se_id s) ?st = Some (False, s2)"
      by (auto simp: doubt_def split: option.splits prod.splits if_splits)
    from Suc.IH [OF this s2] Suc.prems(3) obtain path where "leads_on og (se_id s # path)" "distinct (se_id s # path)"
      "set (se_id s # path) \<inter> set (i # sr_visiting st) = {}" by auto
    with 2 ms new show ?thesis by (intro exI [of _ "se_id s # path"]) auto
  qed
qed simp

section \<open>Properties\<close>

text \<open>C16: A declared escalation never runs in a circle: where the one hop is routed, the seat has no delegation parent and
  exactly one declared destination, a running seat other than itself that the queue admits; and going on from that
  seat, by its delegation parent or its own declared destination, is a single path without repetition that ends and
  never comes back to the seat that escalated.\<close>

theorem escalation_route_ends:
  assumes "eo_outcome (resolveEscalationOwner og accepts session) = Out_routed"
  shows "\<exists>source declared target path.
    resolveSessionNodeId og session = Some source \<and> delegates_into og source = [] \<and> escalates_from og source = [declared]
    \<and> endpoints og declared = [target] \<and> se_session target = eo_owner (resolveEscalationOwner og accepts session)
    \<and> se_status target \<in> {Some ''running'', Some ''idle''} \<and> (\<forall>f. accepts = Some f \<longrightarrow> f (the (se_session target)))
    \<and> leads_on og (se_id target # path) \<and> distinct (source # se_id target # path)"
proof -
  obtain source declared target st where r: "resolveSessionNodeId og session = Some source" "delegates_into og source = []"
      "escalates_from og source = [declared]" "endpoints og declared = [target]" "se_id target \<noteq> source"
    and c: "cycle_check og source target = Some (False, st)" "\<not> sr_unknown st"
    and h: "resolveEscalationOwner og accepts session = hop_target accepts session target"
    using assms unfolding resolveEscalationOwner_def Let_def failed_hop_def
    by (auto split: option.splits list.splits if_splits prod.splits bool.splits)
  have t: "truthy (se_session target) \<and> or_default (se_status target) [] \<in> {''running'', ''idle''}
      \<and> (\<forall>f. accepts = Some f \<longrightarrow> f (the (se_session target))) \<and> eo_owner (hop_target accepts session target) = se_session target"
    using assms h by (auto simp: hop_target_def failed_hop_def split: if_splits option.splits)
  then have "se_status target \<in> {Some ''running'', Some ''idle''}" by (cases "se_status target") auto
  moreover obtain path where "leads_on og (se_id target # path)" "distinct (se_id target # path)"
      "set (se_id target # path) \<inter> {source} = {}"
    using cyclic_path [OF c(1) [unfolded cycle_check_def] c(2)] by auto
  ultimately show ?thesis using r t h by (intro exI [of _ source] exI [of _ declared] exI [of _ target] exI [of _ path]) auto
qed

text \<open>What is refused as a cycle is one: from the declared destination the topology leads back to the seat that
  escalated or to a node that leads back to itself.\<close>

theorem escalation_cycle_real:
  assumes "eo_outcome (resolveEscalationOwner og accepts session) = Out_cycle"
  shows "\<exists>source declared target y. resolveSessionNodeId og session = Some source \<and> escalates_from og source = [declared]
    \<and> endpoints og declared = [target] \<and> (leads_to og)\<^sup>*\<^sup>* (se_id target) y \<and> (y = source \<or> (leads_to og)\<^sup>+\<^sup>+ y y)"
proof -
  obtain source declared target where r: "resolveSessionNodeId og session = Some source"
      "escalates_from og source = [declared]" "endpoints og declared = [target]"
    and c: "case cycle_check og source target of Some (False, st) \<Rightarrow> False | _ \<Rightarrow> True"
    using assms unfolding resolveEscalationOwner_def Let_def failed_hop_def hop_target_def
    by (auto split: option.splits list.splits if_splits prod.splits bool.splits)
  have "target \<in> set (endpoints og declared)" using r(3) by simp
  then have "target \<in> set (seats_of og)" by (auto simp: endpoints_def Let_def split: option.splits if_splits)
  from cycle_check_total [OF this, of source] c obtain st where "cycle_check og source target = Some (True, st)"
    by (auto split: option.splits prod.splits bool.splits)
  from cyclic_sound [OF this [unfolded cycle_check_def]] r show ?thesis by auto
qed

section \<open>A witness\<close>

text \<open>A worker escalates to a lead, whose delegation parent is the boss.\<close>

definition demo_org :: org where
  "demo_org = \<lparr>og_rigs = [\<lparr>rg_id = ''r1'', rg_name = ''r'', rg_archived = False\<rparr>],
     og_nodes = map (\<lambda>i. \<lparr>nd_id = i, nd_rig = ''r1'', nd_logical = i @ ''.x''\<rparr>) [''worker'', ''lead'', ''boss''],
     og_bindings = [],
     og_sessions = map (\<lambda>i. \<lparr>bs_id = ''s-'' @ i, bs_node = i, bs_name = i @ ''@r'', bs_status = ''running'', bs_created = 1\<rparr>)
       [''worker'', ''lead'', ''boss''],
     og_edges = [\<lparr>ar_source = ''worker'', ar_target = None, ar_ref = Some ''lead-x@r'', ar_kind = Escalates_to\<rparr>,
       \<lparr>ar_source = ''boss'', ar_target = Some ''lead'', ar_ref = None, ar_kind = Delegates_to\<rparr>]\<rparr>"

theorem escalation_route_ends_witness:
  "\<exists>path. leads_on demo_org (''lead'' # path) \<and> distinct (''worker'' # ''lead'' # path)"
proof -
  have o1: "eo_outcome (resolveEscalationOwner demo_org (Some (\<lambda>_. True)) ''worker@r'') = Out_routed" by code_simp
  have n: "resolveSessionNodeId demo_org ''worker@r'' = Some ''worker''"
    "map (map se_id) (map (endpoints demo_org) (escalates_from demo_org ''worker'')) = [[''lead'']]"
    by code_simp+
  from escalation_route_ends [OF o1] obtain source declared target path where
    "resolveSessionNodeId demo_org ''worker@r'' = Some source" "escalates_from demo_org source = [declared]"
    "endpoints demo_org declared = [target]" "leads_on demo_org (se_id target # path)" "distinct (source # se_id target # path)"
    by blast
  with n have "source = ''worker''" "se_id target = ''lead''" by auto
  with \<open>leads_on demo_org (se_id target # path)\<close> \<open>distinct (source # se_id target # path)\<close> show ?thesis by auto
qed

end
