(* ===== verification/Ladder_View.thy ===== *)
theory Ladder_View
  imports Queue_Update
begin

text \<open>
  The wake ladder reads its position from the log (\<open>packages/daemon/src/domain/queue-wake-ladder.ts\<close>): how often
  a row's wake was retried, which rungs it climbed and whether it is done are notes of transitions after the row's
  last meaningful one, so a restart forgets nothing. Here are the notes, the view they give, the classes of a
  nudge's result and the recovery rows of \<open>queue-recovery.ts\<close> and \<open>escalation-owner.ts\<close>.
\<close>

section \<open>Text\<close>

text \<open>SQLite's \<open>LIKE\<close>: \<open>%\<close> is any text, \<open>_\<close> any character, letters of either case are alike.\<close>

function like :: "string \<Rightarrow> string \<Rightarrow> bool" where
  "like [] s = (s = [])"
| "like (p # ps) s =
     (if p = CHR ''%'' then like ps s \<or> (case s of [] \<Rightarrow> False | _ # t \<Rightarrow> like (p # ps) t)
      else (case s of [] \<Rightarrow> False
        | c # t \<Rightarrow> (p = CHR ''_'' \<or> ascii_lower p = ascii_lower c) \<and> like ps t))"
  by pat_completeness auto
termination
  by (relation "measure (\<lambda>(p, s). length p + length s)") auto

text \<open>\<open>JSON.stringify\<close> of a string, and of a list of strings.\<close>

definition hex_digit :: "nat \<Rightarrow> char" where
  "hex_digit n = (if n < 10 then char_of (48 + n) else char_of (87 + n))"

definition json_char :: "char \<Rightarrow> string" where
  "json_char c =
     (if c = CHR 0x22 then [CHR 0x5C, CHR 0x22]
      else if c = CHR 0x5C then [CHR 0x5C, CHR 0x5C]
      else if c = CHR 0x08 then [CHR 0x5C, CHR ''b'']
      else if c = CHR 0x09 then [CHR 0x5C, CHR ''t'']
      else if c = CHR 0x0A then [CHR 0x5C, CHR ''n'']
      else if c = CHR 0x0C then [CHR 0x5C, CHR ''f'']
      else if c = CHR 0x0D then [CHR 0x5C, CHR ''r'']
      else if (of_char c :: nat) < 32 then
        [CHR 0x5C, CHR ''u'', CHR ''0'', CHR ''0'', hex_digit (of_char c div 16), hex_digit (of_char c mod 16)]
      else [c])"

definition json_quote :: "string \<Rightarrow> string" where
  "json_quote s = CHR 0x22 # concat (map json_char s) @ [CHR 0x22]"

fun joined :: "string \<Rightarrow> string list \<Rightarrow> string" where
  "joined sep [] = []"
| "joined sep [x] = x"
| "joined sep (x # xs) = x @ sep @ joined sep xs"

definition json_strings :: "string list \<Rightarrow> string" where
  "json_strings xs = CHR ''['' # joined '','' (map json_quote xs) @ '']''"

text \<open>\<open>tags LIKE %"tag"%\<close> reads the column's JSON text; the other lookups read its values.\<close>

definition tags_like :: "string \<Rightarrow> queue_item \<Rightarrow> bool" where
  "tags_like tag r = (case q_tags r of None \<Rightarrow> False
     | Some ts \<Rightarrow> like (''%'' @ [CHR 0x22] @ tag @ [CHR 0x22] @ ''%'') (json_strings ts))"

definition has_tag :: "string \<Rightarrow> queue_item \<Rightarrow> bool" where
  "has_tag tag r \<longleftrightarrow> tag \<in> set (or_default (q_tags r) [])"

definition open_row :: "queue_item \<Rightarrow> bool" where
  "open_row r \<longleftrightarrow> q_state r \<in> {Q_pending, Q_in_progress, Q_blocked}"

section \<open>Notes\<close>

definition LADDER_ATTEMPT_PREFIX :: string where
  "LADDER_ATTEMPT_PREFIX = ''wake-attempt:''"

definition LADDER_RUNG_PREFIX :: string where
  "LADDER_RUNG_PREFIX = ''escalation-rung:''"

definition LADDER_EXHAUSTED_PREFIX :: string where
  "LADDER_EXHAUSTED_PREFIX = ''ladder-exhausted:''"

definition LADDER_SUSPEND_PREFIX :: string where
  "LADDER_SUSPEND_PREFIX = ''ladder-suspend:''"

definition LADDER_RESUME_PREFIX :: string where
  "LADDER_RESUME_PREFIX = ''ladder-resume:''"

definition LADDER_ACTOR :: string where
  "LADDER_ACTOR = ''wake-ladder@system''"

definition RELAY_ACCEPTED :: string where
  "RELAY_ACCEPTED = ''relay-owner-notification-accepted''"

definition RELAY_FAILED :: string where
  "RELAY_FAILED = ''relay-owner-notification-transport-failed''"

definition UNACCEPTED_CARRIER_REROUTE :: string where
  "UNACCEPTED_CARRIER_REROUTE =
     ''unaccepted wake escalation uses a local carrier; human dispatch still requires readiness''"

definition note_of :: "transition \<Rightarrow> string" where
  "note_of t = or_default (t_note t) []"

text \<open>\<open>/^escalation-rung:\s*word/\<close>.\<close>

definition rung_note :: "string \<Rightarrow> string \<Rightarrow> bool" where
  "rung_note word note \<longleftrightarrow> starts_with LADDER_RUNG_PREFIX note \<and>
     starts_with word (dropWhile js_space (drop (length LADDER_RUNG_PREFIX) note))"

definition is_attempt :: "string \<Rightarrow> bool" where
  "is_attempt note = starts_with LADDER_ATTEMPT_PREFIX note"

definition is_dispatch :: "string \<Rightarrow> bool" where
  "is_dispatch note = rung_note ''operator dispatched-to-engine'' note"

text \<open>\<open>/notification_key=(\S+)/\<close>: the first occurrence with something after it.\<close>

fun key_in :: "string \<Rightarrow> string option" where
  "key_in [] = None"
| "key_in (c # s) =
     (let rest = drop (length ''notification_key='') (c # s); word = takeWhile (\<lambda>x. \<not> js_space x) rest
      in if starts_with ''notification_key='' (c # s) \<and> word \<noteq> [] then Some word else key_in s)"

fun words_of :: "string \<Rightarrow> string \<Rightarrow> string list" where
  "words_of word [] = [word]"
| "words_of word (c # s) = (if js_space c then word # words_of [] s else words_of (word @ [c]) s)"

section \<open>The view\<close>

record ladder_view =
  lv_attempts :: nat
  lv_lastMarker :: "timestamp option"
  lv_firstMarker :: "timestamp option"
  lv_orchRung :: bool
  lv_orchFailed :: bool
  lv_opRung :: bool
  lv_dispatched :: bool
  lv_key :: "string option"
  lv_resolved :: bool
  lv_unresolved :: "string option"
  lv_exhausted :: bool
  lv_exhaustedNote :: "string option"
  lv_suspends :: nat
  lv_resumes :: nat

definition empty_view :: ladder_view where
  "empty_view = \<lparr>lv_attempts = 0, lv_lastMarker = None, lv_firstMarker = None, lv_orchRung = False,
     lv_orchFailed = False, lv_opRung = False, lv_dispatched = False, lv_key = None, lv_resolved = False,
     lv_unresolved = None, lv_exhausted = False, lv_exhaustedNote = None, lv_suspends = 0, lv_resumes = 0\<rparr>"

definition unresolved_prefix :: string where
  "unresolved_prefix = LADDER_RUNG_PREFIX @ '' operator unresolved-route decision=''"

definition later :: "timestamp option \<Rightarrow> timestamp \<Rightarrow> timestamp" where
  "later x t = (case x of None \<Rightarrow> t | Some y \<Rightarrow> max y t)"

definition earlier :: "timestamp option \<Rightarrow> timestamp \<Rightarrow> timestamp" where
  "earlier x t = (case x of None \<Rightarrow> t | Some y \<Rightarrow> min y t)"

text \<open>One note, in the order of the loop's body.\<close>

definition view_fallback :: "string \<Rightarrow> ladder_view \<Rightarrow> ladder_view" where
  "view_fallback note v =
     (if starts_with ''fallback-routed: '' note \<and> ends_with (''('' @ UNACCEPTED_CARRIER_REROUTE @ '')'') note
      then v\<lparr>lv_orchRung := False, lv_orchFailed := False, lv_exhausted := False, lv_exhaustedNote := None,
             lv_lastMarker := None\<rparr> else v)"

definition view_rungs :: "string \<Rightarrow> ladder_view \<Rightarrow> ladder_view" where
  "view_rungs note v0 =
     (let v1 = (if is_attempt note then v0\<lparr>lv_attempts := Suc (lv_attempts v0)\<rparr> else v0);
          v2 = (if rung_note ''orchestrator'' note
                then v1\<lparr>lv_orchRung := True, lv_orchFailed := contains ''outcome=failed:'' note\<rparr> else v1);
          v3 = (if rung_note ''operator'' note then v2\<lparr>lv_opRung := True\<rparr> else v2);
          v4 = (if starts_with unresolved_prefix note
                then v3\<lparr>lv_unresolved := Some (drop (length unresolved_prefix) note)\<rparr> else v3)
      in if is_dispatch note
         then v4\<lparr>lv_dispatched := True, lv_key := nullish (key_in note) (lv_key v4), lv_resolved := False\<rparr> else v4)"

definition view_outcome :: "string \<Rightarrow> ladder_view \<Rightarrow> ladder_view" where
  "view_outcome note v =
     (if (starts_with ''slack-owner-notification-posted '' note \<or> starts_with (RELAY_ACCEPTED @ '' '') note \<or>
          starts_with ''delivery-termination:'' note) \<and>
         (case lv_key v of None \<Rightarrow> True | Some k \<Rightarrow> (''notification_key='' @ k) \<in> set (words_of [] note))
      then v\<lparr>lv_resolved := True\<rparr> else v)"

definition view_end :: "string \<Rightarrow> timestamp \<Rightarrow> ladder_view \<Rightarrow> ladder_view" where
  "view_end note t v0 =
     (let v1 = (if starts_with LADDER_EXHAUSTED_PREFIX note
                then v0\<lparr>lv_exhausted := True, lv_exhaustedNote := Some note\<rparr> else v0);
          v2 = (if starts_with LADDER_SUSPEND_PREFIX note then v1\<lparr>lv_suspends := Suc (lv_suspends v1)\<rparr> else v1);
          v3 = (if starts_with LADDER_RESUME_PREFIX note then v2\<lparr>lv_resumes := Suc (lv_resumes v2)\<rparr> else v2)
      in if is_attempt note \<or> starts_with LADDER_RUNG_PREFIX note
         then v3\<lparr>lv_lastMarker := Some (later (lv_lastMarker v3) t), lv_firstMarker := Some (earlier (lv_firstMarker v3) t)\<rparr>
         else v3)"

definition view_step :: "transition \<Rightarrow> ladder_view \<Rightarrow> ladder_view" where
  "view_step t v = view_end (note_of t) (t_ts t) (view_outcome (note_of t) (view_rungs (note_of t) (view_fallback (note_of t) v)))"

definition boundary :: "queue_db \<Rightarrow> string \<Rightarrow> nat" where
  "boundary db i = (case lastMeaningfulTransition db i of None \<Rightarrow> 0 | Some (n, _) \<Rightarrow> n)"

definition since :: "nat \<Rightarrow> queue_db \<Rightarrow> string \<Rightarrow> transition list" where
  "since n db i = filter (\<lambda>t. n < t_id t) (listForQitem db i)"

definition readLadderAfter :: "nat \<Rightarrow> queue_db \<Rightarrow> string \<Rightarrow> ladder_view" where
  "readLadderAfter n db i = fold view_step (since n db i) empty_view"

definition readLadder :: "queue_db \<Rightarrow> string \<Rightarrow> ladder_view" where
  "readLadder db i = readLadderAfter (boundary db i) db i"

definition suspendOpen :: "ladder_view \<Rightarrow> bool" where
  "suspendOpen v \<longleftrightarrow> lv_resumes v < lv_suspends v"

section \<open>What the last nudge says\<close>

datatype wake_mode = Mode_failed | Mode_unconfirmed | Mode_held

definition classifyWakeResult :: "string option \<Rightarrow> wake_mode option" where
  "classifyWakeResult result = (case result of None \<Rightarrow> None
     | Some r \<Rightarrow>
         if r = [] then None
         else if starts_with ''failed:'' r then Some Mode_failed
         else if r = ''retained:typing_guard'' then Some Mode_held
         else if starts_with ''retained:'' r then Some Mode_failed
         else if r = ''delivered-ack-pending'' \<or> starts_with ''indeterminate:'' r \<or> starts_with ''gateway-owned:'' r
         then Some Mode_unconfirmed
         else None)"

definition last_nudge :: "queue_item \<Rightarrow> string option" where
  "last_nudge r = presentedNudgeResult (q_nudgeResult r) (q_claimedAt r)"

definition unclaimedWakeMode :: "queue_item \<Rightarrow> wake_mode option" where
  "unclaimedWakeMode r =
     (case classifyWakeResult (last_nudge r) of None \<Rightarrow> None
      | Some mode \<Rightarrow>
          if starts_with ''retained:'' (or_default (last_nudge r) []) \<and>
             \<not> (q_state r = Q_pending \<and> q_claimedAt r = None \<and> truthy (q_handedOffFrom r))
          then None else Some mode)"

text \<open>The column \<open>last_heartbeat\<close> has no writer, so it is always null.\<close>

definition machinery :: "string \<Rightarrow> bool" where
  "machinery note \<longleftrightarrow> note = ''created'' \<or> starts_with ''handoff'' note \<or>
     list_ex (\<lambda>p. starts_with p note)
       [LADDER_ATTEMPT_PREFIX, LADDER_RUNG_PREFIX, LADDER_EXHAUSTED_PREFIX, LADDER_SUSPEND_PREFIX, LADDER_RESUME_PREFIX,
        ''slack-owner-notification-'', RELAY_ACCEPTED @ '' '', RELAY_FAILED @ '' '', ''delivery-termination:'',
        ''delivery-deferral-'', ''delivery-decision: quiet-hold '', ''quiet-release-'']"

definition hasPickupEvidence :: "queue_db \<Rightarrow> queue_item \<Rightarrow> bool" where
  "hasPickupEvidence db r \<longleftrightarrow> q_claimedAt r \<noteq> None \<or>
     list_ex (\<lambda>t. \<not> machinery (note_of t)) (listForQitem db (q_id r))"

section \<open>Recovery rows\<close>

definition WAKE_ESCALATION_TAG :: string where
  "WAKE_ESCALATION_TAG = ''wake-escalation''"

definition PROMPT_ALERT_TAG :: string where
  "PROMPT_ALERT_TAG = ''wake-prompt-refusal''"

definition PROMPT_RETIRED_NOTE :: string where
  "PROMPT_RETIRED_NOTE = ''prompt escalation retired: prompt cleared or original episode ended; not a delivery receipt''"

definition ESCALATION_HOP_TAG :: string where
  "ESCALATION_HOP_TAG = ''escalation-route:one-hop''"

definition escalationDedupTag :: "string \<Rightarrow> string" where
  "escalationDedupTag dest = ''wake-escalation:'' @ dest"

definition recoveryTag :: "string \<Rightarrow> string" where
  "recoveryTag i = ''recovery-for:'' @ i"

definition failedAttempt :: "queue_db \<Rightarrow> string \<Rightarrow> timestamp option" where
  "failedAttempt db i = (case getById db i of None \<Rightarrow> None
     | Some r \<Rightarrow> (case q_nudgeResult r of None \<Rightarrow> None
         | Some x \<Rightarrow> if like ''failed:%'' x \<or> like ''retained:%'' x then q_nudgeAttempt r else None))"

text \<open>Open rows first, then the latest.\<close>

definition recovery_order :: "queue_item \<Rightarrow> bool \<times> timestamp \<times> string" where
  "recovery_order r = (open_row r, q_updated r, q_id r)"

definition recovery_row :: "queue_db \<Rightarrow> string \<Rightarrow> queue_item option" where
  "recovery_row db i = Prelude.at (rev (sort_key recovery_order (filter (has_tag (recoveryTag i)) (d_items db)))) 0"

definition findQueueRecovery :: "queue_db \<Rightarrow> string \<Rightarrow> queue_item option" where
  "findQueueRecovery db i = (case recovery_row db i of None \<Rightarrow> None
     | Some r \<Rightarrow>
         if \<not> open_row r \<and>
            (let changed = lastMeaningfulTransition db i; disposition = lastMeaningfulTransition db (q_id r)
             in (case (changed, disposition) of (Some (c, _), Some (d, _)) \<Rightarrow> d < c | _ \<Rightarrow> False) \<or>
                (case changed of None \<Rightarrow> False | Some (_, at_time) \<Rightarrow> q_updated r < at_time) \<or>
                (case failedAttempt db i of None \<Rightarrow> False | Some t \<Rightarrow> q_updated r < t))
         then None else Some r)"

definition findWakeRecovery :: "queue_db \<Rightarrow> string \<Rightarrow> queue_item option" where
  "findWakeRecovery db i = (case findQueueRecovery db i of None \<Rightarrow> None
     | Some r \<Rightarrow>
         if \<not> open_row r \<and> has_tag PROMPT_ALERT_TAG r \<and>
            list_ex (\<lambda>t. t_actor t = q_source r \<and> t_note t = Some PROMPT_RETIRED_NOTE) (listForQitem db (q_id r))
         then None else Some r)"

text \<open>A row's handoff ancestry has at most as many rows as the table.\<close>

fun ancestry :: "nat \<Rightarrow> queue_db \<Rightarrow> string \<Rightarrow> queue_item list" where
  "ancestry 0 db i = []"
| "ancestry (Suc n) db i = (case getById db i of None \<Rightarrow> []
     | Some r \<Rightarrow> r # (case q_handedOffFrom r of None \<Rightarrow> [] | Some p \<Rightarrow> ancestry n db p))"

definition hasConsumedEscalationHop :: "queue_db \<Rightarrow> string \<Rightarrow> bool" where
  "hasConsumedEscalationHop db i = list_ex (has_tag ESCALATION_HOP_TAG) (ancestry (length (d_items db)) db i)"

definition recoversEscalationNotice :: "queue_db \<Rightarrow> queue_item \<Rightarrow> bool" where
  "recoversEscalationNotice db r =
     (let prefix = ''stuck-sweep:undelivered-human-notice:''
      in list_ex (\<lambda>t. starts_with prefix t \<and>
           (case getById db (drop (length prefix) t) of None \<Rightarrow> False | Some n \<Rightarrow> has_tag WAKE_ESCALATION_TAG n))
         (or_default (q_tags r) []))"

text \<open>Whether the ladder or a recovery row owns a row's next wake.\<close>

definition PARKED_OWNER_FAILED :: string where
  "PARKED_OWNER_FAILED = ''parked-owner wake delivery failed:%''"

definition parked_owner_failed :: "queue_db \<Rightarrow> string \<Rightarrow> bool" where
  "parked_owner_failed db i \<longleftrightarrow> list_ex (\<lambda>t. case t_note t of None \<Rightarrow> False | Some n \<Rightarrow> like PARKED_OWNER_FAILED n) (listForQitem db i)"

definition queueRecoveryOwnsWake :: "queue_db \<Rightarrow> queue_item option \<Rightarrow> bool" where
  "queueRecoveryOwnsWake db row = (case row of None \<Rightarrow> False | Some r \<Rightarrow>
     if \<not> open_row r then False
     else if findWakeRecovery db (q_id r) \<noteq> None then True
     else case unclaimedWakeMode r of None \<Rightarrow> False | Some mode \<Rightarrow>
       if q_state r = Q_pending \<and> q_claimedAt r = None \<and> truthy (q_handedOffFrom r)
       then mode = Mode_failed \<or> \<not> hasPickupEvidence db r
       else q_state r = Q_in_progress \<and> mode = Mode_failed \<and> parked_owner_failed db (q_id r))"

end
