(* ===== verification/Ladder_Pass.thy ===== *)
theory Ladder_Pass
  imports Ladder_View Queue_Lifecycle Escalation_Owner
begin

text \<open>
  One tick of the wake ladder (\<open>runWakeLadderTick\<close> of \<open>packages/daemon/src/domain/queue-wake-ladder.ts\<close>): it
  retires resolved escalations, parks rows of seats at a usage limit, retries failed wakes under a cap and a
  budget per destination, and then climbs the rungs: the destination's orchestrator, the operator. The tick awaits
  its wakes, its creates and the delivery engine; \<open>le_world n\<close> are the operations that run during its \<open>n\<close>th
  await. The pass over prompt refusals is such operations; topology, registry, provider signals and the engine
  are parameters. The settings are positive integers, as the settings store checks.
\<close>

section \<open>Environment and state\<close>

record usage_pool =
  up_key :: string
  up_seats :: "string list"
  up_expires :: timestamp
  up_text :: string
  up_source :: string

record dispatch_outcome =
  do_decision :: string
  do_resolved :: bool
  do_key :: "string option"
  do_dispatched :: "bool option"
  do_id :: "string option"

record engine_port =
  ep_accepted :: "queue_item \<Rightarrow> bool"
  ep_dispatch :: "nat \<Rightarrow> dispatch_outcome"

text \<open>What else writes: the repository's operations, and notes that other code appends to a row in its state.\<close>

datatype other_op = Repo_op queue_op | Note_op string string string

record ladder_env =
  le_queue :: queue_env
  le_interval :: int
  le_cap :: int
  le_window :: int
  le_grace :: int
  le_now :: timestamp
  le_clock :: "nat \<Rightarrow> timestamp"
  le_fresh :: "nat \<Rightarrow> string"
  le_override :: "string option"
  le_date :: "string \<Rightarrow> timestamp option"
  le_handover :: "string \<Rightarrow> string option"
  le_resolve :: "(string \<Rightarrow> string option) option"
  le_escalation :: "string \<Rightarrow> escalation_owner"
  le_operator :: "string option"
  le_people :: "(string \<Rightarrow> bool) option"
  le_pool :: "string \<Rightarrow> usage_pool option"
  le_jitter :: int
  le_engine :: "engine_port option"
  le_explicitOnly :: bool
  le_quiet :: "queue_db \<Rightarrow> string \<Rightarrow> bool"
  le_silent :: "queue_db \<Rightarrow> string \<Rightarrow> bool"
  le_world :: "nat \<Rightarrow> other_op list"
  le_wake :: "nat \<Rightarrow> string"

datatype ladder_action = Act_retry string | Act_orchestrator string | Act_operator | Act_suspend | Act_resume | Act_park

record ladder =
  la_db :: queue_db
  la_awaits :: nat
  la_wakes :: "(string \<times> string) list"
  la_dispatched :: "string list"
  la_actions :: "(string \<times> ladder_action) list"
  la_budget :: "string \<Rightarrow> nat option"
  la_blockers :: "string \<Rightarrow> string option"

datatype ladder_error = Repo_refused queue_error | Stale_limit_blocker string

type_synonym 'a climb = "ladder \<times> (ladder_error + 'a)"

definition and_then :: "'a climb \<Rightarrow> ('a \<Rightarrow> ladder \<Rightarrow> 'b climb) \<Rightarrow> 'b climb" where
  "and_then m f = (case m of (l, Inl x) \<Rightarrow> (l, Inl x) | (l, Inr v) \<Rightarrow> f v l)"

fun for_each :: "('a \<Rightarrow> ladder \<Rightarrow> 'b climb) \<Rightarrow> 'a list \<Rightarrow> ladder \<Rightarrow> unit climb" where
  "for_each f [] l = (l, Inr ())"
| "for_each f (x # xs) l = and_then (f x l) (\<lambda>_ l'. for_each f xs l')"

definition acted :: "string \<Rightarrow> ladder_action \<Rightarrow> ladder \<Rightarrow> ladder" where
  "acted i a l = l\<lparr>la_actions := la_actions l @ [(i, a)]\<rparr>"

text \<open>A marker is written in the state of the row as it was read, and keeps a claim's gate.\<close>

definition claim_gate :: "queue_db \<Rightarrow> queue_item \<Rightarrow> string option" where
  "claim_gate db r = (if q_state r = Q_in_progress then retainedClaimBlocker db (q_id r) else None)"

definition append_note_by :: "queue_env \<Rightarrow> string \<Rightarrow> queue_item \<Rightarrow> string \<Rightarrow> queue_db \<Rightarrow> queue_db" where
  "append_note_by env actor r note db =
     append_transition env ((plain_transition (q_id r) (q_state r) actor (Some note))\<lparr>ti_target := claim_gate db r\<rparr>) db"

definition appendMarker :: "ladder_env \<Rightarrow> queue_item \<Rightarrow> string \<Rightarrow> ladder \<Rightarrow> ladder" where
  "appendMarker e r note l = l\<lparr>la_db := append_note_by (le_queue e) LADDER_ACTOR r note (la_db l)\<rparr>"

definition other_step :: "queue_env \<Rightarrow> other_op \<Rightarrow> queue_db \<Rightarrow> queue_error + queue_db" where
  "other_step env op db = (case op of
     Repo_op q \<Rightarrow> queue_step env q db
   | Note_op i actor note \<Rightarrow> (case getById db i of None \<Rightarrow> Inl Qitem_not_found
       | Some r \<Rightarrow> Inr (append_note_by env actor r note db)))"

definition pause :: "ladder_env \<Rightarrow> ladder \<Rightarrow> ladder" where
  "pause e l = l\<lparr>la_db := run_steps (other_step (le_queue e)) (le_world e (la_awaits l)) (la_db l),
     la_awaits := Suc (la_awaits l)\<rparr>"

definition attemptWake :: "ladder_env \<Rightarrow> string \<Rightarrow> string \<Rightarrow> ladder \<Rightarrow> ladder \<times> string" where
  "attemptWake e i target l =
     ((pause e l)\<lparr>la_wakes := la_wakes l @ [(i, target)]\<rparr>, le_wake e (la_awaits l))"

definition repo :: "(queue_db \<Rightarrow> queue_error + queue_db) \<Rightarrow> ladder \<Rightarrow> unit climb" where
  "repo f l = (case f (la_db l) of Inl x \<Rightarrow> (l, Inl (Repo_refused x)) | Inr d \<Rightarrow> (l\<lparr>la_db := d\<rparr>, Inr ()))"

text \<open>What an \<open>await\<close> of an asynchronous function adds, and the repository's create.\<close>

definition awaited :: "ladder_env \<Rightarrow> 'a climb \<Rightarrow> 'a climb" where
  "awaited e m = and_then m (\<lambda>v l. (pause e l, Inr v))"

definition create_row :: "ladder_env \<Rightarrow> create_input \<Rightarrow> ladder \<Rightarrow> string climb" where
  "create_row e inp l =
     (case create (le_queue e) (le_clock e (la_awaits l)) (le_fresh e (la_awaits l)) inp (la_db l) of
        Inl x \<Rightarrow> (l, Inl (Repo_refused x))
      | Inr (d, r, _) \<Rightarrow> (pause e (l\<lparr>la_db := d\<rparr>), Inr (q_id r)))"

definition update_row_of :: "ladder_env \<Rightarrow> update_input \<Rightarrow> ladder \<Rightarrow> unit climb" where
  "update_row_of e inp l =
     repo (update (le_queue e) (le_clock e (la_awaits l)) (le_fresh e (la_awaits l)) inp) l"

definition bare_create :: "string \<Rightarrow> string \<Rightarrow> string \<Rightarrow> string list \<Rightarrow> create_input" where
  "bare_create source dest msg ts = \<lparr>c_id = None, c_source = source, c_dest = dest, c_body = msg, c_priority = None,
     c_tier = None, c_tags = Some ts, c_expiresAt = None, c_chain = None, c_handedOffFrom = None, c_targetRepo = None,
     c_intent = None, c_alert = None, c_detail = None, c_replyTo = None, c_inboundReplyTo = None, c_gateway = False,
     c_questions = None, c_summary = None, c_evidence = None, c_nudge = Some False, c_provenance = None,
     c_principal = None, c_openrig = False\<rparr>"

definition bare_update :: "string \<Rightarrow> string \<Rightarrow> queue_state \<Rightarrow> string \<Rightarrow> update_input" where
  "bare_update i actor st note = \<lparr>u_id = i, u_actor = actor, u_state = Some (state_name st), u_deadline = None,
     u_reopen = False, u_workflow = False, u_note = Some note, u_reason = None, u_target = None, u_resolution = None,
     u_handedOffTo = None, u_blockedOn = None, u_wakeWatchdog = None, u_wakeAfter = None, u_wakeMax = None,
     u_wakeEvidence = None, u_wakeMessage = None, u_summary = None, u_evidence = None, u_provenance = None,
     u_principal = None, u_resolved = False\<rparr>"

section \<open>Resolved escalations\<close>

definition tags_with :: "string \<Rightarrow> queue_item \<Rightarrow> string list" where
  "tags_with p r = map (drop (length p)) (filter (starts_with p) (or_default (q_tags r) []))"

definition member_resolved :: "queue_db \<Rightarrow> queue_item \<Rightarrow> string \<Rightarrow> bool" where
  "member_resolved db aggregate i = (case getById db i of None \<Rightarrow> False
     | Some r \<Rightarrow> \<not> open_row r \<or> last_nudge r = Some ''verified'' \<or>
         (case q_claimedAt r of None \<Rightarrow> False | Some t \<Rightarrow> q_created aggregate < t))"

definition retire_aggregate :: "ladder_env \<Rightarrow> queue_item \<Rightarrow> ladder \<Rightarrow> unit climb" where
  "retire_aggregate e a l =
     (let ids = tags_with ''recovery-for:'' a
      in if has_tag PROMPT_ALERT_TAG a \<or> ids = [] \<or> \<not> list_all (member_resolved (la_db l) a) ids then (l, Inr ())
         else awaited e (update_row_of e ((bare_update (q_id a) (q_source a) Q_done
             ''wake recovery resolved: tagged obligations no longer require delivery recovery'')
             \<lparr>u_reason := Some ''no-follow-on''\<rparr>) l))"

definition retire_aggregates :: "ladder_env \<Rightarrow> ladder \<Rightarrow> unit climb" where
  "retire_aggregates e l =
     for_each (retire_aggregate e) (filter (\<lambda>r. open_row r \<and> tags_like WAKE_ESCALATION_TAG r) (d_items (la_db l))) l"

section \<open>Usage limits\<close>

definition USAGE_LIMIT_POOL_TAG_PREFIX :: string where
  "USAGE_LIMIT_POOL_TAG_PREFIX = ''usage-limit-pool:''"

definition rigOf :: "string \<Rightarrow> string" where
  "rigOf s = rev (takeWhile (\<lambda>c. c \<noteq> CHR ''@'') (rev s))"

definition limit_update :: "ladder_env \<Rightarrow> usage_pool \<Rightarrow> string \<Rightarrow> update_input" where
  "limit_update e p i =
     (let wakeAt = up_expires p + le_jitter e * 1000
      in (bare_update i LADDER_ACTOR Q_blocked (''usage-limit cause='' @ up_source p @ '' pool='' @ up_key p @ '' reset='' @
            up_text p @ '' wake='' @ e_iso (le_queue e) wakeAt))
         \<lparr>u_blockedOn := Some (''external:provider-limit:'' @ up_key p),
          u_wakeAfter := Some (Seconds (max 1 (- ((le_now e - wakeAt) div 1000))))\<rparr>)"

definition ensureUsageLimitBlocker :: "ladder_env \<Rightarrow> usage_pool \<Rightarrow> ladder \<Rightarrow> string climb" where
  "ensureUsageLimitBlocker e p l =
     (let tag = USAGE_LIMIT_POOL_TAG_PREFIX @ up_key p;
          arm = (\<lambda>i l'. and_then (update_row_of e (limit_update e p i) l') (\<lambda>_ l''. (l'', Inr i)))
      in case find (\<lambda>r. open_row r \<and> has_tag USAGE_LIMIT_BLOCKER_TAG r \<and> has_tag tag r) (d_items (la_db l)) of
           Some b \<Rightarrow>
             (case getStatus (la_db l) (q_id b) of
                Some st \<Rightarrow> (l, if st_kind st = Wake_timer \<and> st_live st then Inr (q_id b) else Inl (Stale_limit_blocker (q_id b)))
              | None \<Rightarrow> arm (q_id b) l)
         | None \<Rightarrow>
             and_then (create_row e ((bare_create LADDER_ACTOR (''wake-ladder@'' @ rigOf (or_default (Prelude.at (up_seats p) 0) []))
                 (''Provider usage limit for '' @ up_key p @ ''; release every dependent once at '' @ up_text p @ ''.'')
                 [USAGE_LIMIT_BLOCKER_TAG, tag])
                 \<lparr>c_expiresAt := Some (e_iso (le_queue e) (up_expires p + le_jitter e * 1000))\<rparr>) l) arm)"

definition park_limited :: "ladder_env \<Rightarrow> usage_pool \<Rightarrow> queue_item \<Rightarrow> ladder \<Rightarrow> unit climb" where
  "park_limited e p r l =
     and_then (case la_blockers l (up_key p) of
         Some b \<Rightarrow> (l, Inr b)
       | None \<Rightarrow> and_then (awaited e (ensureUsageLimitBlocker e p l))
                   (\<lambda>b l'. (l'\<lparr>la_blockers := (la_blockers l')(up_key p \<mapsto> b)\<rparr>, Inr b)))
     (\<lambda>b l1. and_then (update_row_of e ((bare_update (q_id r) LADDER_ACTOR Q_blocked
          (''usage-limit suppressed: pool='' @ up_key p @ '' reset='' @ up_text p @ ''; waiting on shared blocker '' @ b))
          \<lparr>u_blockedOn := Some b\<rparr>) l1) (\<lambda>_ l2. (acted (q_id r) Act_park l2, Inr ())))"

section \<open>Rungs\<close>

definition gatewayOwnsEscalation :: "ladder_env \<Rightarrow> queue_db \<Rightarrow> queue_item \<Rightarrow> bool" where
  "gatewayOwnsEscalation e db r \<longleftrightarrow> lv_dispatched (readLadderAfter 0 db (q_id r)) \<or>
     (case le_engine e of None \<Rightarrow> False | Some g \<Rightarrow> ep_accepted g r)"

definition external :: "string \<Rightarrow> bool" where
  "external s \<longleftrightarrow> (case parseSessionName s of External _ _ \<Rightarrow> True | _ \<Rightarrow> False)"

definition knownPerson :: "ladder_env \<Rightarrow> string \<Rightarrow> bool" where
  "knownPerson e dest \<longleftrightarrow> external dest \<or> (case le_people e of None \<Rightarrow> False | Some f \<Rightarrow> f dest)"

definition addressedToPerson :: "ladder_env \<Rightarrow> string \<Rightarrow> bool" where
  "addressedToPerson e dest \<longleftrightarrow> external dest \<or> (case le_people e of None \<Rightarrow> True | Some f \<Rightarrow> f dest)"

definition humanAlertCarrier :: "ladder_env \<Rightarrow> string \<Rightarrow> string option \<Rightarrow> string" where
  "humanAlertCarrier e dest source =
     (case find (\<lambda>c. c \<noteq> [] \<and> \<not> knownPerson e c \<and> e_validateRig (le_queue e) c) (List.map_filter id [le_operator e, source]) of
        None \<Rightarrow> dest | Some c \<Rightarrow> c)"

definition openEscalationOwner :: "ladder_env \<Rightarrow> queue_db \<Rightarrow> string \<Rightarrow> string option" where
  "openEscalationOwner e db tag = (case find (\<lambda>r. open_row r \<and> has_tag tag r) (d_items db) of None \<Rightarrow> None
     | Some r \<Rightarrow> if \<not> knownPerson e (q_dest r) \<or> gatewayOwnsEscalation e db r then Some (q_dest r) else None)"

definition refreshEscalationRowIfExists :: "ladder_env \<Rightarrow> string \<Rightarrow> string list \<Rightarrow> ladder \<Rightarrow> ladder" where
  "refreshEscalationRowIfExists e tag ids l =
     (case find (\<lambda>r. open_row r \<and> tags_like tag r) (d_items (la_db l)) of
        None \<Rightarrow> l
      | Some r \<Rightarrow>
          let added = filter (\<lambda>t. \<not> has_tag t r) (map recoveryTag ids)
          in if added = [] then l
             else appendMarker e r (''wake-escalation members added: '' @ joined '', '' added)
                    (l\<lparr>la_db := update_row (q_id r) (\<lambda>q. q\<lparr>q_tags := Some (or_default (q_tags r) [] @ added)\<rparr>) (la_db l)\<rparr>))"

record ladder_member =
  lm_row :: queue_item
  lm_view :: ladder_view
  lm_reason :: string
  lm_due :: bool
  lm_suspended :: bool

definition escalation_body :: "string \<Rightarrow> string \<Rightarrow> (queue_item \<times> string) list \<Rightarrow> string" where
  "escalation_body dest reason ms =
     ''WAKE ESCALATION (aggregated per destination)'' @ [CHR 0x0A] @ ''destination: '' @ dest @ [CHR 0x0A] @
     ''reason: '' @ reason @ [CHR 0x0A] @ ''stuck batons ('' @ nat_str (length ms) @ ''):'' @ [CHR 0x0A] @
     joined [CHR 0x0A] (map (\<lambda>(r, why). ''- '' @ q_id r @ '': '' @ or_default (q_summary r) ''outstanding work'' @
       '' ('' @ why @ '')'') ms) @ [CHR 0x0A] @
     ''The rows above still carry their obligations exactly-once; this escalation is the wake, not the content.''"

text \<open>One open row per tag: an open one is kept, moved off a person the gateway does not own, and refreshed.\<close>

definition ensureEscalationRow ::
  "ladder_env \<Rightarrow> string \<Rightarrow> string \<Rightarrow> (queue_item \<times> string) list \<Rightarrow> string \<Rightarrow> string \<Rightarrow> string list \<Rightarrow> ladder \<Rightarrow> string climb" where
  "ensureEscalationRow e dest orch ms reason tag extra l =
     (case find (\<lambda>r. open_row r \<and> tags_like tag r) (d_items (la_db l)) of
        Some r \<Rightarrow>
          and_then (if knownPerson e (q_dest r) \<and> \<not> gatewayOwnsEscalation e (la_db l) r
             then repo (routeToFallback (le_queue e) (le_clock e (la_awaits l)) (q_id r)
               (if knownPerson e orch
                then humanAlertCarrier e dest (case ms of [] \<Rightarrow> None | (m, _) # _ \<Rightarrow> Some (q_source m)) else orch)
               UNACCEPTED_CARRIER_REROUTE) l
             else (l, Inr ()))
          (\<lambda>_ l1. (pause e (refreshEscalationRowIfExists e tag (map (q_id \<circ> fst) ms) l1), Inr (q_id r)))
      | None \<Rightarrow>
          let route = le_escalation e dest;
              oneHop = (le_resolve e = None \<and> eo_outcome route = Out_routed \<and> eo_owner route = Some orch)
          in create_row e ((bare_create OPENRIG_SENDER orch (escalation_body dest reason ms)
               ([WAKE_ESCALATION_TAG, tag] @ (if oneHop then [ESCALATION_HOP_TAG] else []) @ extra @
                map (recoveryTag \<circ> q_id \<circ> fst) ms))
               \<lparr>c_summary := Some (''Wake escalation: '' @ nat_str (length ms) @ '' baton(s) stuck at '' @ dest @ '' '' @
                  [CHR 0xE2, CHR 0x80, CHR 0x94] @ '' '' @ reason)\<rparr>) l)"

definition appendExhausted :: "ladder_env \<Rightarrow> queue_item \<Rightarrow> string \<Rightarrow> ladder \<Rightarrow> ladder" where
  "appendExhausted e r why = appendMarker e r (LADDER_EXHAUSTED_PREFIX @ '' '' @ why)"

definition dispatch_note :: "dispatch_outcome \<Rightarrow> string \<Rightarrow> string" where
  "dispatch_note d reason = LADDER_RUNG_PREFIX @ '' operator dispatched-to-engine decision='' @ do_decision d @
     '' resolved='' @ (if do_resolved d then ''true'' else ''false'') @
     (if truthy (do_key d) then '' notification_key='' @ the (do_key d) else []) @
     (if truthy (do_id d) then '' decision_id='' @ the (do_id d) else []) @ '' reason='' @ reason"

text \<open>The answer is whether the ladder may be exhausted now.\<close>

definition operatorRung :: "ladder_env \<Rightarrow> queue_item \<Rightarrow> string \<Rightarrow> ladder_view \<Rightarrow> ladder \<Rightarrow> bool climb" where
  "operatorRung e r reason v l =
     (let told = (\<lambda>note l'. acted (q_id r) Act_operator (appendMarker e r (LADDER_RUNG_PREFIX @ note) l'))
      in case le_engine e of
           None \<Rightarrow> (told ('' operator floor=escalation view + daemon-health (delivery engine not wired) reason='' @ reason) l, Inr True)
         | Some g \<Rightarrow>
             if \<not> lv_dispatched v \<and> le_explicitOnly e \<and> \<not> addressedToPerson e (q_dest r) then
               (told ('' operator floor=escalation view (human rung explicit-only; not posted to a person) reason='' @ reason) l, Inr True)
             else if lv_dispatched v then (l, Inr (lv_resolved v))
             else
               let out = ep_dispatch g (la_awaits l);
                   l1 = (pause e l)\<lparr>la_dispatched := la_dispatched l @ [q_id r]\<rparr>
               in if do_dispatched out = Some False then
                    (if lv_unresolved v = Some (do_decision out) then l1
                     else told ('' operator unresolved-route decision='' @ do_decision out) l1, Inr False)
                  else (acted (q_id r) Act_operator (appendMarker e r (dispatch_note out reason) l1), Inr (do_resolved out)))"

definition operator_then_exhaust :: "ladder_env \<Rightarrow> queue_item \<Rightarrow> string \<Rightarrow> ladder_view \<Rightarrow> string \<Rightarrow> ladder \<Rightarrow> unit climb" where
  "operator_then_exhaust e r reason v why l =
     and_then (awaited e (operatorRung e r reason v l))
       (\<lambda>finished l'. (if finished then appendExhausted e r why l' else l', Inr ()))"

section \<open>One baton\<close>

definition baton_ids :: "queue_db \<Rightarrow> string list" where
  "baton_ids db = map q_id (filter (\<lambda>r. q_state r = Q_pending \<and> q_claimedAt r = None \<and> q_handedOffFrom r \<noteq> None) (d_items db))"

definition parked_owner_ids :: "queue_db \<Rightarrow> string list" where
  "parked_owner_ids db = map q_id (filter (\<lambda>r. q_state r = Q_in_progress \<and> q_claimedAt r \<noteq> None \<and>
     (case q_nudgeResult r of None \<Rightarrow> False | Some x \<Rightarrow> like ''failed:%'' x) \<and> parked_owner_failed db (q_id r)) (d_items db))"

definition minutesSince :: "timestamp \<Rightarrow> timestamp \<Rightarrow> int" where
  "minutesSince t now = max 0 ((now - t + 30000) div 60000)"

fun split_on_comma :: "string \<Rightarrow> string list" where
  "split_on_comma [] = [[]]"
| "split_on_comma (c # cs) = (if c = CHR '','' then [] # split_on_comma cs
     else case split_on_comma cs of [] \<Rightarrow> [[c]] | p # ps \<Rightarrow> (c # p) # ps)"

definition suspensionReason :: "ladder_env \<Rightarrow> string \<Rightarrow> string option" where
  "suspensionReason e dest =
     (let declared = (case le_override e of None \<Rightarrow> None
        | Some t \<Rightarrow> find (\<lambda>entry. starts_with (dest @ '':'') entry \<and>
              (case le_date e (drop (Suc (length dest)) entry) of None \<Rightarrow> False | Some until \<Rightarrow> le_now e < until))
            (split_on_comma t))
      in case declared of
           Some entry \<Rightarrow> Some (''operator override (OPENRIG_WAKE_SUSPEND) until '' @ drop (Suc (length dest)) entry)
         | None \<Rightarrow>
             (case Option.bind (le_handover e dest) (\<lambda>h. if h = [] then None else le_date e h) of
                None \<Rightarrow> None
              | Some swap \<Rightarrow>
                  if 0 \<le> le_now e - swap \<and> le_now e - swap < le_grace e * 1000
                  then Some (''destination in post-swap grace (handover '' @ nat_str (nat ((le_now e - swap + 500) div 1000)) @
                    ''s ago, grace '' @ nat_str (nat (le_grace e)) @ ''s)'')
                  else None))"

text \<open>The wakes of the destination's rows that the window already holds.\<close>

definition recent_attempts :: "ladder_env \<Rightarrow> queue_db \<Rightarrow> string \<Rightarrow> nat" where
  "recent_attempts e db dest = length (filter (\<lambda>t.
     (case getById db (t_qitem t) of None \<Rightarrow> False | Some r \<Rightarrow> q_dest r = dest) \<and>
     (case t_note t of None \<Rightarrow> False | Some n \<Rightarrow> like (LADDER_ATTEMPT_PREFIX @ ''%'') n) \<and>
     le_now e - le_interval e * 1000 \<le> t_ts t) (d_log db))"

definition budgetFor :: "ladder_env \<Rightarrow> ladder \<Rightarrow> string \<Rightarrow> nat" where
  "budgetFor e l dest = or_default (la_budget l dest) (recent_attempts e (la_db l) dest)"

definition retry_rung :: "ladder_env \<Rightarrow> queue_item \<Rightarrow> ladder_view \<Rightarrow> bool \<Rightarrow> string option \<Rightarrow> ladder \<Rightarrow> ladder" where
  "retry_rung e r v due suspended l =
     (if \<not> due then l
      else case suspended of
        Some why \<Rightarrow> if suspendOpen v then l
          else acted (q_id r) Act_suspend (appendMarker e r (LADDER_SUSPEND_PREFIX @ '' '' @ why) l)
      | None \<Rightarrow>
          let l1 = (if suspendOpen v
                then acted (q_id r) Act_resume (appendMarker e r (LADDER_RESUME_PREFIX @ '' suspension over; ladder resumes'') l)
                else l);
              n = budgetFor e l1 (q_dest r);
              l2 = l1\<lparr>la_budget := (la_budget l1)(q_dest r \<mapsto> n)\<rparr>
          in if le_cap e \<le> int n then l2
             else
               let (l3, outcome) = attemptWake e (q_id r) (q_dest r) (l2\<lparr>la_budget := (la_budget l2)(q_dest r \<mapsto> Suc n)\<rparr>)
               in acted (q_id r) (Act_retry (q_dest r)) (appendMarker e r
                    (LADDER_ATTEMPT_PREFIX @ '' '' @ nat_str (Suc (lv_attempts v)) @ ''/'' @ nat_str (nat (le_cap e)) @
                     '' outcome='' @ outcome) l3))"

definition minutes_str :: "int \<Rightarrow> string" where
  "minutes_str n = nat_str (nat n)"

definition stuck_reason :: "ladder_env \<Rightarrow> queue_item \<Rightarrow> ladder_view \<Rightarrow> wake_mode \<Rightarrow> string" where
  "stuck_reason e r v mode = (case mode of
     Mode_failed \<Rightarrow> ''wake failed '' @ nat_str (lv_attempts v) @ '' times over '' @
       minutes_str (minutesSince (or_default (lv_firstMarker v) (q_created r)) (le_now e)) @ '' min''
   | Mode_held \<Rightarrow> ''held by '' @ q_dest r @ [CHR 0x27] @ ''s typing guard for '' @ minutes_str (minutesSince (q_created r) (le_now e)) @
       '' min: nothing was typed, and it isn'' @ [CHR 0x27] @ ''t retried''
   | Mode_unconfirmed \<Rightarrow> ''unconfirmed delivery with no pickup evidence over '' @
       minutes_str (minutesSince (q_created r) (le_now e)) @ '' min'')"

definition consumed_hop :: "ladder_env \<Rightarrow> queue_item \<Rightarrow> ladder_view \<Rightarrow> string \<Rightarrow> ladder \<Rightarrow> unit climb" where
  "consumed_hop e r v reason0 l =
     (let reason = reason0 @ ''; escalates_to one-hop delivery already used; existing fallback retained''
      in and_then (awaited e (ensureEscalationRow e (q_dest r) (humanAlertCarrier e (q_dest r) (Some (q_source r)))
             [(r, reason)] reason (''consumed-hop:'' @ q_id r) [ESCALATION_HOP_TAG] l))
         (\<lambda>_ l1. operator_then_exhaust e r reason v ''consumed escalation hop reached operator fallback''
           (if lv_orchRung v then l1 else appendMarker e r (LADDER_RUNG_PREFIX @ '' orchestrator self-skip reason='' @ reason) l1)))"

text \<open>The members to escalate, per destination in the order they were met.\<close>

type_synonym groups = "(string \<times> ladder_member list) list"

fun enlist :: "string \<Rightarrow> ladder_member \<Rightarrow> groups \<Rightarrow> groups" where
  "enlist dest m [] = [(dest, [m])]"
| "enlist dest m ((d, ms) # gs) = (if d = dest then (d, ms @ [m]) # gs else (d, ms) # enlist dest m gs)"

definition is_due :: "ladder_env \<Rightarrow> queue_item \<Rightarrow> ladder_view \<Rightarrow> bool" where
  "is_due e r v = (case nullish (lv_lastMarker v) (q_nudgeAttempt r) of
     None \<Rightarrow> True | Some t \<Rightarrow> le_interval e * 1000 \<le> le_now e - t)"

definition escalate_member ::
  "ladder_env \<Rightarrow> queue_item \<Rightarrow> ladder_view \<Rightarrow> bool \<Rightarrow> string option \<Rightarrow> string \<Rightarrow> groups \<Rightarrow> ladder \<Rightarrow> groups climb" where
  "escalate_member e r v due suspended reason gs l =
     (if hasConsumedEscalationHop (la_db l) (q_id r)
      then (if \<not> due \<or> truthy suspended then (l, Inr gs)
            else and_then (consumed_hop e r v reason l) (\<lambda>_ l'. (l', Inr gs)))
      else (l, Inr (enlist (q_dest r) \<lparr>lm_row = r, lm_view = v, lm_reason = reason, lm_due = due,
                                        lm_suspended = truthy suspended\<rparr> gs)))"

definition climb_ladder ::
  "ladder_env \<Rightarrow> queue_item \<Rightarrow> wake_mode \<Rightarrow> ladder_view \<Rightarrow> queue_item option \<Rightarrow> groups \<Rightarrow> ladder \<Rightarrow> groups climb" where
  "climb_ladder e r mode v disposition gs l =
     (let due = is_due e r v;
          suspended = (if due then suspensionReason e (q_dest r) else None);
          reason = stuck_reason e r v mode
      in if (case disposition of None \<Rightarrow> False | Some d \<Rightarrow> has_tag PROMPT_ALERT_TAG d \<and> open_row d) then (l, Inr gs)
         else if mode = Mode_failed \<and> int (lv_attempts v) < le_cap e
         then (retry_rung e r v due suspended l, Inr gs)
         else case disposition of
           Some d \<Rightarrow>
             if \<not> has_tag WAKE_ESCALATION_TAG d
             then (appendExhausted e r (''recovery disposition already held by '' @ q_id d @ '' ('' @ state_name (q_state d) @ '')'') l, Inr gs)
             else escalate_member e r v due suspended reason gs l
         | None \<Rightarrow> escalate_member e r v due suspended reason gs l)"

text \<open>A row of the lists, read again; a claimed row is never parked.\<close>

definition climb_row :: "ladder_env \<Rightarrow> string \<Rightarrow> groups \<Rightarrow> ladder \<Rightarrow> groups climb" where
  "climb_row e i gs l = (case getById (la_db l) i of
     None \<Rightarrow> (l, Inr gs)
   | Some r \<Rightarrow>
       if recoversEscalationNotice (la_db l) r then (l, Inr gs)
       else case (le_pool e (q_dest r), q_state r = Q_pending) of
         (Some p, True) \<Rightarrow> and_then (park_limited e p r l) (\<lambda>_ l'. (l', Inr gs))
       | _ \<Rightarrow>
         (case unclaimedWakeMode r of
            None \<Rightarrow> (l, Inr gs)
          | Some mode \<Rightarrow>
              let disposition = findWakeRecovery (la_db l) i; v = readLadder (la_db l) i
              in if (case disposition of None \<Rightarrow> False | Some d \<Rightarrow> \<not> open_row d) \<or> lv_exhausted v \<or>
                    (mode \<noteq> Mode_failed \<and> (minutesSince (q_created r) (le_now e) < le_window e \<or> hasPickupEvidence (la_db l) r)) \<or>
                    le_quiet e (la_db l) i \<or> le_silent e (la_db l) i
                 then (l, Inr gs)
                 else climb_ladder e r mode v disposition gs l))"

fun climb_rows :: "ladder_env \<Rightarrow> string list \<Rightarrow> groups \<Rightarrow> ladder \<Rightarrow> groups climb" where
  "climb_rows e [] gs l = (l, Inr gs)"
| "climb_rows e (i # is) gs l = and_then (climb_row e i gs l) (\<lambda>gs' l'. climb_rows e is gs' l')"

section \<open>One destination\<close>

definition self_skip :: "ladder_env \<Rightarrow> string option \<Rightarrow> ladder_member \<Rightarrow> ladder \<Rightarrow> unit climb" where
  "self_skip e orch m l = operator_then_exhaust e (lm_row m) (lm_reason m) (lm_view m) ''operator rung resolved''
     (appendMarker e (lm_row m) (LADDER_RUNG_PREFIX @ '' orchestrator self-skip (resolves to '' @
        (if orch = None then ''no orchestrator'' else ''destination'') @ '') reason='' @ lm_reason m) l)"

definition orchestrator_told :: "ladder_env \<Rightarrow> string \<Rightarrow> string \<Rightarrow> ladder_member \<Rightarrow> ladder \<Rightarrow> unit climb" where
  "orchestrator_told e owner outcome m l =
     (let l1 = acted (q_id (lm_row m)) (Act_orchestrator owner) (appendMarker e (lm_row m)
            (LADDER_RUNG_PREFIX @ '' orchestrator -> '' @ owner @ '' outcome='' @ outcome @ '' reason='' @ lm_reason m) l)
      in (if starts_with ''failed:'' outcome then l1
          else appendExhausted e (lm_row m) (''escalated to orchestrator ('' @
            (if outcome = ''verified'' then ''delivered'' else outcome) @ '')'') l1, Inr ()))"

definition advance_operator :: "ladder_env \<Rightarrow> ladder_member \<Rightarrow> ladder \<Rightarrow> unit climb" where
  "advance_operator e m l =
     (if lv_orchRung (lm_view m) \<and> (lv_orchFailed (lm_view m) \<or> lv_unresolved (lm_view m) \<noteq> None) \<and> \<not> lv_dispatched (lm_view m)
      then operator_then_exhaust e (lm_row m) (lm_reason m) (lm_view m) ''operator rung resolved'' l
      else (l, Inr ()))"

definition resolve_outcome :: "ladder_env \<Rightarrow> ladder_member \<Rightarrow> ladder \<Rightarrow> unit climb" where
  "resolve_outcome e m l =
     (if lv_dispatched (lm_view m) \<and> \<not> lv_exhausted (lm_view m) \<and> lv_resolved (lm_view m)
      then (appendExhausted e (lm_row m) ''engine outcome resolved'' l, Inr ()) else (l, Inr ()))"

definition route_reason :: "ladder_env \<Rightarrow> string \<Rightarrow> string" where
  "route_reason e dest = (let route = le_escalation e dest in
     if le_resolve e = None \<and> eo_outcome route \<noteq> Out_none \<and> eo_outcome route \<noteq> Out_parent then eo_reason route else [])"

definition resolveOrch :: "ladder_env \<Rightarrow> string \<Rightarrow> string option" where
  "resolveOrch e dest = (case le_resolve e of Some f \<Rightarrow> f dest | None \<Rightarrow> eo_owner (le_escalation e dest))"

definition stated :: "ladder_member \<Rightarrow> queue_item \<times> string" where
  "stated m = (lm_row m, lm_reason m)"

definition with_route :: "string \<Rightarrow> ladder_member \<Rightarrow> ladder_member" where
  "with_route why m = (if why = [] then m else m\<lparr>lm_reason := lm_reason m @ ''; '' @ why\<rparr>)"

definition actionable :: "ladder_member list \<Rightarrow> ladder_member list" where
  "actionable ms = filter (\<lambda>m. lm_due m \<and> \<not> lm_suspended m) ms"

definition needs_orch :: "ladder_member list \<Rightarrow> ladder_member list" where
  "needs_orch ms = filter (\<lambda>m. \<not> lv_orchRung (lm_view m)) (actionable ms)"

definition group_reason :: "ladder_member list \<Rightarrow> string" where
  "group_reason ms = (case needs_orch ms @ ms of [] \<Rightarrow> [] | m # _ \<Rightarrow> lm_reason m)"

definition skip_orchestrator ::
  "ladder_env \<Rightarrow> string \<Rightarrow> string option \<Rightarrow> ladder_member \<Rightarrow> ladder_member list \<Rightarrow> ladder \<Rightarrow> unit climb" where
  "skip_orchestrator e dest orch first ms l =
     and_then (awaited e (ensureEscalationRow e dest (humanAlertCarrier e dest (Some (q_source (lm_row first))))
         (map stated (needs_orch ms)) (group_reason ms) (escalationDedupTag dest) [] l))
       (\<lambda>_ l1. for_each (self_skip e orch) (needs_orch ms) l1)"

definition tell_orchestrator :: "ladder_env \<Rightarrow> string \<Rightarrow> string \<Rightarrow> ladder_member list \<Rightarrow> ladder \<Rightarrow> unit climb" where
  "tell_orchestrator e dest orch ms l =
     and_then (awaited e (ensureEscalationRow e dest orch (map stated ms) (group_reason ms) (escalationDedupTag dest) [] l))
       (\<lambda>i l1.
          let owner = (case getById (la_db l1) i of None \<Rightarrow> orch | Some r \<Rightarrow> q_dest r);
              (l2, outcome) = attemptWake e i owner l1
          in for_each (orchestrator_told e owner outcome) (needs_orch ms) l2)"

definition advance_members :: "ladder_env \<Rightarrow> ladder_member list \<Rightarrow> ladder \<Rightarrow> unit climb" where
  "advance_members e ms l =
     and_then (for_each (advance_operator e) (actionable ms) l) (\<lambda>_ l1. for_each (resolve_outcome e) ms l1)"

text \<open>One rung per destination and tick.\<close>

definition escalate_group :: "ladder_env \<Rightarrow> string \<times> ladder_member list \<Rightarrow> ladder \<Rightarrow> unit climb" where
  "escalate_group e g l0 =
     (let dest = fst g; tag = escalationDedupTag dest;
          orch = (case openEscalationOwner e (la_db l0) tag of Some x \<Rightarrow> Some x | None \<Rightarrow> resolveOrch e dest);
          ms = map (with_route (route_reason e dest)) (snd g);
          l = pause e (refreshEscalationRowIfExists e tag (map (q_id \<circ> lm_row) ms) l0)
      in case needs_orch ms of
           [] \<Rightarrow> advance_members e ms l
         | m # _ \<Rightarrow>
             (case orch of
                Some x \<Rightarrow> if x = dest then skip_orchestrator e dest orch m ms l else tell_orchestrator e dest x ms l
              | None \<Rightarrow> skip_orchestrator e dest orch m ms l))"

section \<open>The tick\<close>

definition start_tick :: "queue_db \<Rightarrow> ladder" where
  "start_tick db = \<lparr>la_db = db, la_awaits = 0, la_wakes = [], la_dispatched = [], la_actions = [],
     la_budget = (\<lambda>_. None), la_blockers = (\<lambda>_. None)\<rparr>"

text \<open>After the aggregates the tick awaits the prompt refusals and the provider's signals.\<close>

definition ladder_tick :: "ladder_env \<Rightarrow> queue_db \<Rightarrow> unit climb" where
  "ladder_tick e db =
     and_then (retire_aggregates e (start_tick db)) (\<lambda>_ l.
       let l1 = pause e (pause e l)
       in and_then (climb_rows e (baton_ids (la_db l1) @ parked_owner_ids (la_db l1)) [] l1)
            (\<lambda>gs l2. for_each (escalate_group e) gs l2))"

datatype tick_outcome = Tick_clean | Tick_actions | Tick_failed ladder_error

definition runWakeLadderTick :: "ladder_env \<Rightarrow> queue_db \<Rightarrow> queue_db \<times> tick_outcome \<times> (string \<times> ladder_action) list" where
  "runWakeLadderTick e db = (case ladder_tick e db of
     (l, Inl x) \<Rightarrow> (la_db l, Tick_failed x, [])
   | (l, Inr _) \<Rightarrow> (la_db l, if la_actions l = [] then Tick_clean else Tick_actions, la_actions l))"

end
