(* ===== verification/Ladder_Quiet.thy ===== *)
theory Ladder_Quiet
  imports Ladder_Pass
begin

text \<open>
  What every other writer leaves of a ladder: it appends to the log, and a note that reads as a ladder's attempt or
  rung is not a machine's unless the ladder wrote it; so it can end an episode, never lengthen one.
\<close>

section \<open>Episodes\<close>

definition numbered :: "queue_db \<Rightarrow> bool" where
  "numbered db \<longleftrightarrow> map t_id (d_log db) = [1..<Suc (length (d_log db))]"

definition unique_rows :: "queue_db \<Rightarrow> bool" where
  "unique_rows db \<longleftrightarrow> distinct (map q_id (d_items db))"

definition fired :: "queue_db \<Rightarrow> wake list" where
  "fired db = filter (\<lambda>w. w_phase w = Fired) (d_wakes db)"

definition fired_known :: "queue_db \<Rightarrow> bool" where
  "fired_known db \<longleftrightarrow> (\<forall>w \<in> set (fired db). w_transition w \<le> length (d_log db))"

definition ladder_note :: "string \<Rightarrow> bool" where
  "ladder_note note \<longleftrightarrow> starts_with LADDER_ATTEMPT_PREFIX note \<or> starts_with LADDER_RUNG_PREFIX note"

definition may_write :: "string \<Rightarrow> string option \<Rightarrow> bool" where
  "may_write actor note \<longleftrightarrow> (ladder_note (or_default note []) \<longrightarrow> actor \<notin> set MACHINE_ACTORS)"

definition tame :: "queue_db \<Rightarrow> queue_db \<Rightarrow> bool" where
  "tame db db' \<longleftrightarrow> (numbered db \<longrightarrow> numbered db') \<and> (unique_rows db \<longrightarrow> unique_rows db') \<and> fired db' = fired db \<and>
     (\<exists>new. d_log db' = d_log db @ new \<and> (\<forall>t \<in> set new. may_write (t_actor t) (t_note t)))"

lemma ladder_note_head [simp]: "c \<noteq> CHR ''w'' \<Longrightarrow> c \<noteq> CHR ''e'' \<Longrightarrow> \<not> ladder_note (c # s)"
  by (auto simp: ladder_note_def starts_with_def LADDER_ATTEMPT_PREFIX_def LADDER_RUNG_PREFIX_def)

lemma ladder_note_Nil [simp]: "\<not> ladder_note []"
  by (simp add: ladder_note_def starts_with_def LADDER_ATTEMPT_PREFIX_def LADDER_RUNG_PREFIX_def)

lemma starts_with_extended:
  assumes "starts_with p (n @ c # s)" and "c \<notin> set p"
  shows "starts_with p n"
proof (cases "length p \<le> length n")
  case False
  then have "p ! length n = c"
    using assms(1) by (metis nth_append_length nth_take not_le starts_with_def)
  then show ?thesis using False assms(2) nth_mem [of "length n" p] by auto
qed (use assms(1) in \<open>simp add: starts_with_def\<close>)

lemma ladder_note_extended: "c \<in> {CHR '' '', CHR 0x0A} \<Longrightarrow> ladder_note (n @ c # s) \<Longrightarrow> ladder_note n"
  using starts_with_extended [of LADDER_ATTEMPT_PREFIX n c s] starts_with_extended [of LADDER_RUNG_PREFIX n c s]
  by (auto simp: ladder_note_def LADDER_ATTEMPT_PREFIX_def LADDER_RUNG_PREFIX_def)

lemma may_write_plain [simp]: "\<not> ladder_note n \<Longrightarrow> may_write a (Some n)" "may_write a None"
  by (simp_all add: may_write_def)

lemma tame_refl [simp]: "tame db db"
  by (simp add: tame_def)

lemma tame_trans: "tame a b \<Longrightarrow> tame b c \<Longrightarrow> tame a c"
  by (auto simp: tame_def)

lemma tame_frame:
  "map q_id (d_items db') = map q_id (d_items db) \<Longrightarrow> d_log db' = d_log db \<Longrightarrow> d_wakes db' = d_wakes db \<Longrightarrow> tame db db'"
  by (simp add: tame_def numbered_def fired_def unique_rows_def)

lemma numbered_append: "numbered db \<Longrightarrow> numbered (append_transition env ti db)"
  by (simp add: numbered_def append_transition_def new_transition_def Let_def)

lemma tame_append: "may_write (ti_actor ti) (ti_note ti) \<Longrightarrow> tame db (append_transition env ti db)"
  using numbered_append [of db env ti]
  by (simp add: tame_def fired_def unique_rows_def append_transition_def new_transition_def Let_def)

text \<open>Peeling writes off a database.\<close>

lemma tame_update_row: "tame a b \<Longrightarrow> (\<And>q. q_id (f q) = q_id q) \<Longrightarrow> tame a (update_row i f b)"
  by (erule tame_trans) (simp add: tame_frame frame_simps row_set_ids)

lemma tame_write: "tame a b \<Longrightarrow> may_write (ti_actor ti) (ti_note ti) \<Longrightarrow> tame a (append_transition env ti b)"
  using tame_trans tame_append by blast

lemma tame_event: "tame a b \<Longrightarrow> tame a (persist_event ev b)"
  by (erule tame_trans) (simp add: tame_frame frame_simps)

lemma tame_arm: "tame a b \<Longrightarrow> w_phase w = Armed \<Longrightarrow> tame a (record_wake w b)"
  by (simp add: tame_def numbered_def fired_def unique_rows_def frame_simps)

lemma tame_retire: "tame a b \<Longrightarrow> tame a (retireParkGeneratedTimer i reason b)"
  by (erule tame_trans) (simp add: tame_frame frame_simps)

lemma tame_retarget: "tame a b \<Longrightarrow> tame a (fst (retargetQueueWait j k b))"
  by (erule tame_trans) (simp add: tame_frame frame_simps)

lemma tame_nudge: "tame a b \<Longrightarrow> tame a (recordNudgeAttempt now i t b)"
  by (erule tame_trans) (simp add: tame_frame frame_simps recordNudgeAttempt_def row_set_ids)

lemmas tame_peel = tame_update_row tame_write tame_event tame_arm tame_retire tame_retarget tame_nudge

lemma tame_staged: "tame a b \<Longrightarrow> staged i b c \<Longrightarrow> tame a c"
  by (erule tame_trans) (auto simp: staged_def nudged_def row_set_ids intro!: tame_frame)

lemma tame_jobs: "tame a b \<Longrightarrow> jobs_only b c \<Longrightarrow> tame a c"
  by (erule tame_trans) (simp add: tame_frame jobs_only_def)

lemma tame_outbox: "tame a b \<Longrightarrow> c = b\<lparr>d_outbox := x\<rparr> \<Longrightarrow> tame a c"
  by (erule tame_trans) (simp add: tame_frame)

lemma tame_insert: "tame a b \<Longrightarrow> insert_row r b = Inr c \<Longrightarrow> tame a c"
  by (erule tame_trans) (simp add: tame_def numbered_def fired_def unique_rows_def insert_row_Inr)

section \<open>The writers of the queue\<close>

lemma tame_rebind: "tame db (rebind_waiter env now source actor prov s i db)"
  by (auto simp: rebind_waiter_def Let_def case_prod_beta plain_transition_def intro!: tame_peel split: option.split)

lemma tame_unpark:
  assumes "unpark_waiter env now source terminal actor prov i dest db = Inr db'"
  shows "tame db db'"
proof -
  from assms obtain d ti c ev where d: "tame db d" "ti_actor ti = actor" "\<not> ladder_note (the (ti_note ti))" "ti_note ti \<noteq> None"
    and c: "stageAutoUnparkWakeIntent env now i dest actor prov source (last_transition_id (append_transition env ti d))
      (retireParkGeneratedTimer i ''park_ended:auto-unparked'' (append_transition env ti d)) = Inr c"
    and db': "db' = persist_event ev c"
    unfolding unpark_waiter_def Let_def try_bind_Inr
    by (elim exE conjE, intro that) (auto simp: plain_transition_def intro!: tame_update_row)
  have "may_write (ti_actor ti) (ti_note ti)" using d(3,4) by (auto simp: may_write_def)
  then show ?thesis
    unfolding db' by (intro tame_event tame_outbox [OF _ unpark_stage_frame [OF c]] tame_retire tame_write d(1))
qed

lemma tame_propagate_one: "propagate_one env now source terminal actor prov w db = Inr db' \<Longrightarrow> tame db db'"
  by (auto simp: propagate_one_def tame_rebind tame_unpark split: option.splits)

lemma tame_propagate:
  assumes "tame a db" "propagateBlockerCompletion env now i terminal actor prov db = Inr db'"
  shows "tame a db'"
  by (rule try_fold_invariant [OF assms(2) [unfolded propagateBlockerCompletion_def], where I = "\<lambda>_. tame a"])
     (use assms(1) tame_trans tame_propagate_one in blast)+

lemma tame_close:
  "tame a db \<Longrightarrow> may_write (ti_actor t) (ti_note t) \<Longrightarrow> tame a (close_source env now i st to target t db)"
  by (simp add: close_source_def tame_peel)

lemma tame_create_context:
  "createInTransactionalContext env now fresh inp db = Inr (db', i) \<Longrightarrow> tame db db'"
  by (auto simp: createInTransactionalContext_def Let_def effect_simps plain_transition_def split: sum.splits
      intro!: tame_event tame_write intro: tame_insert [OF tame_refl])

lemma tame_create_staged:
  assumes "create_staged env now fresh inp db = Inr (db', i)"
  shows "tame db db'"
proof -
  from assms obtain db1 where 1: "createInTransactionalContext env now fresh inp db = Inr (db1, i)"
    by (auto simp: create_staged_def effect_simps split: if_splits sum.splits)
  note c = tame_create_context [OF 1]
  show ?thesis
  proof (cases "\<not> e_outbox env \<or> c_nudge inp = Some False")
    case True
    with assms 1 c show ?thesis by (simp add: create_staged_def)
  next
    case False
    let ?from = "if c_openrig inp \<and> \<not> isOpenRigSender (c_source inp) then OPENRIG_SENDER else c_source inp"
    from False assms 1 c show ?thesis
      by (cases "stageWakeIntent env now i ?from (c_dest inp) (sideEffectProvenance (c_provenance inp))
             (c_nudge inp) (c_openrig inp) db1")
         (auto simp: create_staged_def Let_def wake_not_retained_def intro: tame_nudge tame_staged [OF c staged_outbox [OF stage_frame]])
  qed
qed

lemma tame_create: "create env now fresh inp db = Inr (db', r, flag) \<Longrightarrow> tame db db'"
  by (auto simp: create_def getByIdOrThrow_def effect_simps tame_create_staged split: sum.splits queue_error.splits if_splits option.splits)

lemma tame_handoff:
  assumes "handoff_with terminal cn on stamped env now fresh inp db = Inr db'"
    and "may_write (h_from inp) (Some (or_default (h_note inp) cn))" "\<And>s. \<not> ladder_note (on @ s)"
  shows "tame db db'"
proof -
  from assms(1) obtain src where "handoff_body env now fresh terminal cn on stamped inp src db = Inr db'"
    by (rule handoff_with_Inr)
  then obtain ti d1 d2 t2 d3 e3 d4 e4 where 1: "may_write (ti_actor ti) (ti_note ti)"
      "insert_row (successor_row env now fresh inp src (carried_questions env db src (h_to inp)))
         (close_source env now (q_id src) terminal (h_to inp) (h_to inp) ti db) = Inr d2"
    and 2: "may_write (ti_actor t2) (ti_note t2)"
      "stageHandoffWake env now fresh (h_from inp) (h_to inp) (sideEffectProvenance (h_provenance inp)) (h_nudge inp)
        (append_transition env t2 d2) = Inr d3"
    and 3: "propagateBlockerCompletion env now (q_id src) terminal (h_from inp) (sideEffectProvenance (h_provenance inp))
        (persist_event e3 d3) = Inr d4"
    and 4: "assertTerminalClosureHasIntent env (q_id src) fresh (h_nudge inp) (persist_event e4 d4) = Inr db'"
    unfolding handoff_body_def Let_def try_bind_Inr
    by (elim exE conjE, intro that) (use assms(2,3) in \<open>auto simp: plain_transition_def may_write_def\<close>)
  have "tame db d2" by (rule tame_insert [OF tame_close [OF tame_refl 1(1)] 1(2)])
  then have "tame db d3" by (rule tame_staged [OF tame_write [OF _ 2(1)] staged_handoff [OF 2(2)]])
  then have "tame db d4" by (rule tame_propagate [OF tame_event 3])
  with assert_same [OF 4] show ?thesis by (simp add: tame_event)
qed

lemma tame_cross_host:
  assumes "closeCrossHostHandoffSource env now inp db = Inr (db', absorbed)"
    and "may_write (x_from inp) (Some (or_default (x_note inp) (''cross-host handoff to '' @ x_to inp)))"
  shows "tame db db'"
  using assms
  by (auto simp: closeCrossHostHandoffSource_def Let_def map_sum_Inr plain_transition_def split: option.splits if_splits
      elim!: tame_propagate [rotated] intro!: tame_event tame_close)

lemma tame_claim: "claim env now i session prov grantee db = Inr db' \<Longrightarrow> tame db db'"
  by (erule claim_Inr) (simp add: plain_transition_def tame_peel)

lemma tame_unclaim: "unclaim env now i session reason prov grantee db = Inr db' \<Longrightarrow> tame db db'"
  by (auto simp: unclaim_def plain_transition_def split: option.splits if_splits intro!: tame_peel)

lemma tame_fold: "(\<And>i d. tame d (g i d)) \<Longrightarrow> tame db (fold g xs db)"
  by (induction xs arbitrary: db) (auto intro: tame_trans)

lemma tame_release: "tame db (fst (releaseClaimsByGeneration env now gen db))"
  by (auto simp: releaseClaimsByGeneration_def plain_transition_def intro!: tame_fold tame_write tame_update_row)

lemma tame_transfer: "tame db (fst (transferClaimsByGeneration env now from to note db))"
  by (auto simp: transferClaimsByGeneration_def plain_transition_def may_write_def MACHINE_ACTORS_def
      intro!: tame_fold tame_write tame_update_row)

lemma tame_fallback: "routeToFallback env now i dest reason db = Inr db' \<Longrightarrow> tame db db'"
  by (auto simp: routeToFallback_def Let_def plain_transition_def fallback_note_def split: option.splits if_splits
      intro!: tame_peel)

lemma may_write_mono: "may_write a n \<Longrightarrow> (ladder_note m \<Longrightarrow> ladder_note (or_default n [])) \<Longrightarrow> may_write a (Some m)"
  by (auto simp: may_write_def)

lemma append_note_quiet:
  assumes "append_note env inp r = Some m" "ladder_note m"
  shows "ladder_note (or_default (u_note inp) [])"
proof -
  define base where "base = (if has_summary inp
            then Some (if has_note inp
                 then (if contains ''(summary updated)'' (the (u_note inp)) then the (u_note inp)
                       else the (u_note inp) @ '' (summary updated)'')
                 else ''summary updated'')
            else u_note inp)"
  have noted: "u_note inp = Some (the (u_note inp))" if "has_note inp"
    using that by (cases "u_note inp") (simp_all add: has_note_def)
  have base: "ladder_note (or_default (u_note inp) [])" if "base = Some b" "ladder_note b" for b
    using that ladder_note_extended [of "CHR '' ''" "the (u_note inp)"] arg_cong [OF noted, of "\<lambda>x. or_default x []"]
    by (auto simp: base_def split: if_splits)
  have some: "base \<noteq> None" if "has_note inp \<or> has_summary inp"
    using that by (cases "u_note inp") (auto simp: base_def has_note_def)
  from assms(1) consider "base = Some m" | d where "m = ''closure deadline re-estimated: '' @ d"
    | d where "has_note inp \<or> has_summary inp" "m = the base @ CHR 0x0A # d"
    unfolding append_note_def base_def [symmetric] Let_def
    by (auto split: option.splits deadline_input.splits if_splits)
  then show ?thesis
  proof cases
    case 1
    with base assms(2) show ?thesis by blast
  next
    case 2
    with assms(2) show ?thesis by simp
  next
    case 3
    with some obtain b where b: "base = Some b" by auto
    with 3 assms(2) have "ladder_note b" using ladder_note_extended [of "CHR 0x0A" b] by simp
    with base b show ?thesis by blast
  qed
qed

lemma tame_append_update:
  assumes "append_update env inp r db = Inr db'" "may_write (u_actor inp) (u_note inp)"
  shows "tame db db'"
proof -
  have "may_write (u_actor inp) (append_note env inp r)"
    using assms(2) append_note_quiet [of env inp r] by (cases "append_note env inp r") (auto simp: may_write_def)
  with assms(1) show ?thesis
    unfolding append_update_def Let_def unless_refused_Inr
    by (auto simp: plain_transition_def intro!: tame_peel split: option.split deadline_input.split)
qed

lemma tame_settle: "tame a db \<Longrightarrow> tame a (settle_wake i from st w n db)"
  by (auto simp: settle_wake_def intro!: tame_arm tame_retire split: option.split)

lemma tame_write_update:
  assumes "write_update env now inp r st b w db = Inr db'" "may_write (u_actor inp) (u_note inp)"
  shows "tame db db'"
proof -
  let ?note = "if is_reopen r st then Some (''reopen acknowledged: '' @ or_default (u_note inp) []) else u_note inp"
  have noted: "may_write (u_actor inp) ?note" using assms(2) by simp
  from assms(1) obtain t k d3 ev where t: "may_write (ti_actor t) (ti_note t)"
    and d3: "(if isBlockerLive st then Inr (settle_wake (u_id inp) (q_state r) st w k (append_transition env t
          (update_row (u_id inp) (written_row now inp r st b (is_human_park env st b)) db)))
        else propagateBlockerCompletion env now (u_id inp) st (u_actor inp) (sideEffectProvenance (u_provenance inp))
          (settle_wake (u_id inp) (q_state r) st w k (append_transition env t
            (update_row (u_id inp) (written_row now inp r st b (is_human_park env st b)) db)))) = Inr d3"
    and db': "db' = persist_event ev d3"
    unfolding write_update_def Let_def try_bind_Inr
    by (elim exE conjE, intro that) (use noted in \<open>auto simp: plain_transition_def\<close>)
  have "tame db (settle_wake (u_id inp) (q_state r) st w k (append_transition env t
            (update_row (u_id inp) (written_row now inp r st b (is_human_park env st b)) db)))"
    by (intro tame_settle tame_write tame_update_row tame_refl t) (simp add: written_row_def)
  with d3 have "tame db d3" by (auto intro: tame_propagate split: if_splits)
  then show ?thesis unfolding db' by (rule tame_event)
qed

lemma tame_update:
  assumes "update env now job inp db = Inr db'" "may_write (u_actor inp) (u_note inp)"
  shows "tame db db'"
  using assms(1)
proof (cases rule: update_Inr)
  case (1 r)
  from tame_append_update [OF 1(3) assms(2)] show ?thesis .
next
  case (2 r st)
  from 2(4) show ?thesis
  proof (rule state_update_Inr)
    fix db0 w
    assume "arm_wake env now job inp r st (effective_blocker inp r st db) db = Inr (db0, w)"
      "write_update env now inp r st (effective_blocker inp r st db) w db0 = Inr db'"
    then show ?thesis
      by (rule tame_trans [OF tame_jobs [OF tame_refl jobs_only_arm_wake] tame_write_update [OF _ assms(2)]])
  qed
qed

text \<open>An operation whose caller's note, where a machine is the caller, is not a ladder's.\<close>

fun quiet_op :: "queue_op \<Rightarrow> bool" where
  "quiet_op (Op_handoff _ _ inp) = may_write (h_from inp) (h_note inp)"
| "quiet_op (Op_handoff_complete _ _ inp) = may_write (h_from inp) (h_note inp)"
| "quiet_op (Op_cross_host _ inp) = may_write (x_from inp) (x_note inp)"
| "quiet_op (Op_update _ _ inp) = may_write (u_actor inp) (u_note inp)"
| "quiet_op _ = True"

lemma may_write_default: "may_write a n \<Longrightarrow> \<not> ladder_note m \<Longrightarrow> may_write a (Some (or_default n m))"
  by (cases n) (simp_all add: may_write_def)

lemma tame_queue_step:
  assumes "queue_step env op db = Inr db'" "quiet_op op"
  shows "tame db db'"
proof (cases op)
  case (Op_create now fresh inp)
  with assms(1) show ?thesis by (auto simp: queue_step_def map_sum_Inr tame_create)
next
  case (Op_handoff now fresh inp)
  with assms show ?thesis
    by (auto simp: queue_step_def handoff_def intro!: may_write_default elim!: tame_handoff)
next
  case (Op_handoff_complete now fresh inp)
  with assms show ?thesis
    by (auto simp: queue_step_def handoffAndComplete_def intro!: may_write_default elim!: tame_handoff)
next
  case (Op_cross_host now inp)
  with assms show ?thesis
    by (auto simp: queue_step_def map_sum_Inr intro!: may_write_default elim!: tame_cross_host)
qed (use assms in \<open>auto simp: queue_step_def tame_claim tame_unclaim tame_update tame_fallback tame_release tame_transfer
       tame_nudge\<close>)

end
