(* ===== verification/Ladder_Marks.thy ===== *)
theory Ladder_Marks
  imports Ladder_Quiet
begin

text \<open>
  Counting the notes of a row's present episode: a meaningful transition starts the count again, any other adds at
  most itself, and what others write never adds.
\<close>

section \<open>Marks\<close>

definition marks :: "(string \<Rightarrow> bool) \<Rightarrow> queue_db \<Rightarrow> string \<Rightarrow> nat" where
  "marks P db i = length (filter (\<lambda>t. P (note_of t)) (since (boundary db i) db i))"

definition sound_log :: "queue_db \<Rightarrow> bool" where
  "sound_log db \<longleftrightarrow> numbered db \<and> fired_known db"

lemma last_meaningful_fired:
  "lastMeaningfulTransition db i = map_option (\<lambda>(t, _). (t_id t, t_ts t))
     (find (\<lambda>(t, prev). (t_actor t \<notin> set MACHINE_ACTORS \<or> Some (t_state t) \<noteq> prev) \<and>
          t_id t \<notin> w_transition ` set (fired db)) (rev (with_previous None (listForQitem db i))))"
  unfolding lastMeaningfulTransition_def
  by (intro arg_cong2 [where f = map_option] arg_cong2 [where f = find]) (auto simp: fun_eq_iff list_ex_iff fired_def image_iff)

lemma with_previous_append:
  "with_previous p (ts @ [t]) = with_previous p ts @ [(t, if ts = [] then p else Some (t_state (last ts)))]"
  by (induction ts arbitrary: p) simp_all

lemma with_previous_fst: "map fst (with_previous p ts) = ts"
  by (induction ts arbitrary: p) simp_all

lemma listed_ids: "numbered db \<Longrightarrow> t \<in> set (listForQitem db i) \<Longrightarrow> t_id t \<le> length (d_log db)"
proof -
  assume n: "numbered db" and "t \<in> set (listForQitem db i)"
  then have "t_id t \<in> set (map t_id (d_log db))" by (simp add: listForQitem_def)
  then show ?thesis unfolding n [unfolded numbered_def] by auto
qed

lemma boundary_le:
  assumes "numbered db"
  shows "boundary db i \<le> length (d_log db)"
proof (cases "lastMeaningfulTransition db i")
  case (Some p)
  then obtain t q where t: "(t, q) \<in> set (with_previous None (listForQitem db i))" "fst p = t_id t"
    unfolding lastMeaningfulTransition_def by (fastforce dest: find_in_set)
  from t(1) have "t \<in> set (map fst (with_previous None (listForQitem db i)))" by force
  with t(2) listed_ids [OF assms] Some show ?thesis by (simp add: with_previous_fst boundary_def case_prod_beta)
qed (simp add: boundary_def)

text \<open>One transition more.\<close>

lemma marks_append:
  assumes "sound_log db" "d_log db' = d_log db @ [t]" "t_id t = Suc (length (d_log db))" "fired db' = fired db"
  shows "t_qitem t \<noteq> i \<Longrightarrow> marks P db' i = marks P db i"
    and "t_qitem t = i \<Longrightarrow> t_actor t \<notin> set MACHINE_ACTORS \<Longrightarrow> marks P db' i = 0"
    and "marks P db' i \<le> marks P db i + (if t_qitem t = i \<and> P (note_of t) then 1 else 0)"
proof -
  have list: "listForQitem db' i = listForQitem db i @ (if t_qitem t = i then [t] else [])"
    using assms(2) by (simp add: listForQitem_def)
  have fresh: "t_id t \<notin> w_transition ` set (fired db)"
    using assms(1,3) by (fastforce simp: sound_log_def fired_known_def)
  have num: "numbered db" using assms(1) by (simp add: sound_log_def)
  show other: "marks P db' i = marks P db i" if "t_qitem t \<noteq> i"
    using that by (simp add: marks_def since_def boundary_def last_meaningful_fired list assms(4))
  let ?prev = "if listForQitem db i = [] then None else Some (t_state (last (listForQitem db i)))"
  have last: "lastMeaningfulTransition db' i = (if t_actor t \<notin> set MACHINE_ACTORS \<or> Some (t_state t) \<noteq> ?prev
      then Some (t_id t, t_ts t) else lastMeaningfulTransition db i)" if "t_qitem t = i"
    using that fresh unfolding last_meaningful_fired assms(4) by (simp add: list with_previous_append)
  have none: "filter (\<lambda>u. t_id t < t_id u) (listForQitem db i) = []"
    using listed_ids [OF num] assms(3) by (fastforce simp: filter_empty_conv)
  have meaningful: "marks P db' i = 0"
    if "t_qitem t = i" "t_actor t \<notin> set MACHINE_ACTORS \<or> Some (t_state t) \<noteq> ?prev"
    using last that none list by (simp add: marks_def since_def boundary_def)
  then show "marks P db' i = 0" if "t_qitem t = i" "t_actor t \<notin> set MACHINE_ACTORS" using that by blast
  show "marks P db' i \<le> marks P db i + (if t_qitem t = i \<and> P (note_of t) then 1 else 0)"
  proof (cases "t_qitem t = i \<and> \<not> (t_actor t \<notin> set MACHINE_ACTORS \<or> Some (t_state t) \<noteq> ?prev)")
    case True
    then have "boundary db' i = boundary db i" using last by (simp add: boundary_def)
    with True list boundary_le [OF num, of i] assms(3) show ?thesis by (simp add: marks_def since_def)
  next
    case False
    with meaningful other show ?thesis by fastforce
  qed
qed

lemma sound_log_append:
  assumes "sound_log db" "d_log db' = d_log db @ [t]" "t_id t = Suc (length (d_log db))" "fired db' = fired db"
  shows "sound_log db'"
  using assms by (fastforce simp: sound_log_def numbered_def fired_known_def)

text \<open>What others write.\<close>

lemma marks_tame:
  assumes "tame db db'" "sound_log db" and P: "\<And>n. P n \<Longrightarrow> ladder_note n"
  shows "sound_log db' \<and> marks P db' i \<le> marks P db i"
proof -
  from assms(1) obtain new where num: "numbered db'" and fired: "fired db' = fired db"
    and log: "d_log db' = d_log db @ new" and writes: "\<forall>t \<in> set new. may_write (t_actor t) (t_note t)"
    using assms(2) by (auto simp: tame_def sound_log_def)
  have "sound_log d \<and> marks P d i \<le> marks P db i"
    if "d_log d = d_log db @ new" "numbered d" "fired d = fired db" "\<forall>t \<in> set new. may_write (t_actor t) (t_note t)" for d
    using that
  proof (induction new arbitrary: d rule: rev_induct)
    case Nil
    with assms(2) show ?case
      by (simp add: sound_log_def fired_known_def marks_def since_def boundary_def last_meaningful_fired listForQitem_def numbered_def)
  next
    case (snoc t ts)
    let ?d = "d\<lparr>d_log := d_log db @ ts\<rparr>"
    have ids: "map t_id (d_log db @ ts) @ [t_id t] = [1..<Suc (length (d_log db @ ts))] @ [Suc (length (d_log db @ ts))]"
      using snoc.prems(1,2) by (simp add: numbered_def)
    then have n: "numbered ?d" "t_id t = Suc (length (d_log db @ ts))" by (simp_all add: numbered_def)
    have IH: "sound_log ?d" "marks P ?d i \<le> marks P db i"
      using snoc.IH [of ?d] n(1) snoc.prems(3,4) by (simp_all add: fired_def)
    note step = marks_append [of ?d d t] sound_log_append [of ?d d t]
    have app: "d_log d = d_log ?d @ [t]" "t_id t = Suc (length (d_log ?d))" "fired d = fired ?d"
      using snoc.prems(1) n(2) by (simp_all add: fired_def)
    have "marks P d i \<le> marks P ?d i"
    proof (cases "t_qitem t = i \<and> P (note_of t)")
      case True
      with P snoc.prems(4) have "t_actor t \<notin> set MACHINE_ACTORS" by (simp add: may_write_def note_of_def)
      with True step(2) [OF IH(1) app] show ?thesis by simp
    next
      case False
      with step(3) [OF IH(1) app, of P i] show ?thesis by auto
    qed
    with IH step(4) [OF IH(1) app] show ?case by simp
  qed
  from this [OF log num fired writes] show ?thesis .
qed

end
