(* ===== verification/Ladder_Holds.thy ===== *)
theory Ladder_Holds
  imports Ladder_Marks
begin

text \<open>
  What a tick keeps, whatever else runs at its awaits: bounds on every row's attempts and dispatches of an episode,
  and that the rows it still means to dispatch have none.
\<close>

section \<open>Notes\<close>

named_theorems note_prefixes

lemmas note_prefix_defs [note_prefixes] = LADDER_ATTEMPT_PREFIX_def LADDER_RUNG_PREFIX_def LADDER_EXHAUSTED_PREFIX_def
  LADDER_SUSPEND_PREFIX_def LADDER_RESUME_PREFIX_def starts_with_def is_attempt_def is_dispatch_def rung_note_def

definition plain_note :: "string \<Rightarrow> bool" where
  "plain_note n \<longleftrightarrow> \<not> is_attempt n \<and> \<not> is_dispatch n"

lemma counted_notes: "is_attempt n \<Longrightarrow> ladder_note n" "is_dispatch n \<Longrightarrow> ladder_note n"
  by (auto simp: is_attempt_def is_dispatch_def rung_note_def ladder_note_def)

lemma plain_notes_text:
  "plain_note (LADDER_SUSPEND_PREFIX @ s)" "plain_note (LADDER_RESUME_PREFIX @ s)" "plain_note (LADDER_EXHAUSTED_PREFIX @ s)"
  "plain_note (''wake-escalation members added: '' @ s)" "plain_note (LADDER_RUNG_PREFIX @ '' orchestrator'' @ s)"
  "plain_note (LADDER_RUNG_PREFIX @ '' operator floor'' @ s)" "plain_note (LADDER_RUNG_PREFIX @ '' operator unresolved'' @ s)"
  by (simp_all add: plain_note_def note_prefixes js_space_def)

text \<open>As the simplifier leaves them.\<close>

lemmas plain_notes [simp] = plain_notes_text [unfolded append.simps]

lemma attempt_note [simp]: "is_attempt (LADDER_ATTEMPT_PREFIX @ s)" "\<not> is_dispatch (LADDER_ATTEMPT_PREFIX @ s)"
  by (simp_all add: note_prefixes)

lemma dispatched_note [simp]: "\<not> is_attempt (dispatch_note d why)" "is_dispatch (dispatch_note d why)"
  by (simp_all add: dispatch_note_def note_prefixes js_space_def)

section \<open>What the view counts\<close>

lemma view_fallback_counts: "lv_attempts (view_fallback n v) = lv_attempts v" "lv_dispatched (view_fallback n v) = lv_dispatched v"
  by (simp_all add: view_fallback_def)

lemma view_rungs_counts:
  "lv_attempts (view_rungs n v) = lv_attempts v + (if is_attempt n then 1 else 0)"
  "lv_dispatched (view_rungs n v) \<longleftrightarrow> lv_dispatched v \<or> is_dispatch n"
  by (cases "is_attempt n"; cases "is_dispatch n"; cases "rung_note ''orchestrator'' n"; cases "rung_note ''operator'' n";
      cases "starts_with unresolved_prefix n"; simp add: view_rungs_def)+

lemma view_outcome_counts: "lv_attempts (view_outcome n v) = lv_attempts v" "lv_dispatched (view_outcome n v) = lv_dispatched v"
  by (simp_all add: view_outcome_def)

lemma view_end_counts: "lv_attempts (view_end n t v) = lv_attempts v" "lv_dispatched (view_end n t v) = lv_dispatched v"
  by (cases "is_attempt n \<or> starts_with LADDER_RUNG_PREFIX n"; cases "starts_with LADDER_EXHAUSTED_PREFIX n";
      cases "starts_with LADDER_SUSPEND_PREFIX n"; cases "starts_with LADDER_RESUME_PREFIX n"; simp add: view_end_def)+

lemmas view_step_counts = view_step_def view_end_counts view_outcome_counts view_rungs_counts view_fallback_counts

lemma attempts_marks: "lv_attempts (readLadder db i) = marks is_attempt db i"
proof -
  have "lv_attempts (fold view_step ts v) = lv_attempts v + length (filter (\<lambda>t. is_attempt (note_of t)) ts)" for ts v
    by (induction ts arbitrary: v) (simp_all add: view_step_counts)
  then show ?thesis by (simp add: readLadder_def readLadderAfter_def marks_def empty_view_def)
qed

lemma dispatched_marks: "lv_dispatched (readLadder db i) \<longleftrightarrow> marks is_dispatch db i \<noteq> 0"
proof -
  have "lv_dispatched (fold view_step ts v) \<longleftrightarrow> lv_dispatched v \<or> filter (\<lambda>t. is_dispatch (note_of t)) ts \<noteq> []" for ts v
    by (induction ts arbitrary: v) (simp_all add: view_step_counts)
  then show ?thesis by (simp add: readLadder_def readLadderAfter_def marks_def empty_view_def)
qed

section \<open>What holds between steps\<close>

definition held :: "(string \<Rightarrow> nat) \<Rightarrow> (string \<Rightarrow> nat) \<Rightarrow> string set \<Rightarrow> queue_db \<Rightarrow> bool" where
  "held A D F db \<longleftrightarrow> sound_log db \<and> unique_rows db \<and>
     (\<forall>i. marks is_attempt db i \<le> A i \<and> marks is_dispatch db i \<le> D i) \<and> (\<forall>i \<in> F. marks is_dispatch db i = 0)"

lemma held_mono: "held A D F db \<Longrightarrow> G \<subseteq> F \<Longrightarrow> held A D G db"
  by (auto simp: held_def)

lemma held_step:
  assumes h: "held A D F db" and "sound_log db'" "unique_rows db'" and G: "G \<subseteq> F"
    and a: "\<And>i. marks is_attempt db' i \<le> marks is_attempt db i \<or> marks is_attempt db' i \<le> A i"
    and d: "\<And>i. marks is_dispatch db' i \<le> marks is_dispatch db i \<or> i \<notin> G \<and> marks is_dispatch db' i \<le> D i"
  shows "held A D G db'"
  unfolding held_def
proof (intro conjI allI ballI)
  fix i
  show "marks is_attempt db' i \<le> A i" using a [of i] h le_trans unfolding held_def by blast
  show "marks is_dispatch db' i \<le> D i" using d [of i] h le_trans unfolding held_def by blast
  assume "i \<in> G"
  with d [of i] G h show "marks is_dispatch db' i = 0" by (auto simp: held_def)
qed (use assms(2,3) in simp_all)

lemma held_tame:
  assumes "tame db db'" "held A D F db"
  shows "held A D F db'"
proof -
  have s: "sound_log db" "unique_rows db" using assms(2) by (simp_all add: held_def)
  have u: "unique_rows db'" using assms(1) s(2) by (simp add: tame_def)
  have le: "sound_log db'" "marks is_attempt db' i \<le> marks is_attempt db i" "marks is_dispatch db' i \<le> marks is_dispatch db i" for i
    using marks_tame [OF assms(1) s(1), of is_attempt] marks_tame [OF assms(1) s(1), of is_dispatch] counted_notes by auto
  show ?thesis by (rule held_step [OF assms(2) le(1) u]) (use le in auto)
qed

lemma append_note_log:
  "\<exists>t. d_log (append_note_by env a r n db) = d_log db @ [t] \<and> t_id t = Suc (length (d_log db)) \<and> t_qitem t = q_id r
     \<and> note_of t = n \<and> t_actor t = a"
  by (simp add: append_note_by_def append_transition_def new_transition_def Let_def plain_transition_def note_of_def)

lemma append_note_frame [simp]:
  "d_items (append_note_by env a r n db) = d_items db" "fired (append_note_by env a r n db) = fired db"
  by (simp_all add: append_note_by_def fired_def frame_simps)

text \<open>A marker of the ladder adds to its own row's count only.\<close>

lemma marker_marks:
  assumes "sound_log db"
  shows "sound_log (append_note_by env a r n db)"
    and "marks P (append_note_by env a r n db) i \<le> marks P db i + (if q_id r = i \<and> P n then 1 else 0)"
proof -
  obtain t where t: "d_log (append_note_by env a r n db) = d_log db @ [t]" "t_id t = Suc (length (d_log db))"
    "t_qitem t = q_id r" "note_of t = n"
    using append_note_log by blast
  show "sound_log (append_note_by env a r n db)"
    using sound_log_append [OF assms t(1,2)] by simp
  show "marks P (append_note_by env a r n db) i \<le> marks P db i + (if q_id r = i \<and> P n then 1 else 0)"
    using marks_append(3) [OF assms t(1,2), of P i] t(3,4) by simp
qed

lemma held_marker:
  assumes "held A D F db" "G \<subseteq> F"
    and "is_attempt n \<Longrightarrow> marks is_attempt db (q_id r) < A (q_id r)"
    and "is_dispatch n \<Longrightarrow> marks is_dispatch db (q_id r) = 0 \<and> 1 \<le> D (q_id r) \<and> q_id r \<notin> G"
  shows "held A D G (append_note_by env a r n db)"
proof -
  have s: "sound_log db" "unique_rows db" using assms(1) by (simp_all add: held_def)
  note m = marker_marks(1) [OF s(1), of env a r n] marker_marks(2) [OF s(1), of _ env a r n]
  show ?thesis
  proof (rule held_step [OF assms(1) m(1) _ assms(2)])
    show "unique_rows (append_note_by env a r n db)" using s(2) by (simp add: unique_rows_def)
    fix i
    show "marks is_attempt (append_note_by env a r n db) i \<le> marks is_attempt db i \<or>
        marks is_attempt (append_note_by env a r n db) i \<le> A i"
      using m(2) [of is_attempt i] assms(3) by (auto split: if_splits)
    show "marks is_dispatch (append_note_by env a r n db) i \<le> marks is_dispatch db i \<or>
        i \<notin> G \<and> marks is_dispatch (append_note_by env a r n db) i \<le> D i"
      using m(2) [of is_dispatch i] assms(4) by (auto split: if_splits)
  qed
qed

lemma held_plain: "held A D F db \<Longrightarrow> plain_note n \<Longrightarrow> held A D F (append_note_by env a r n db)"
  by (rule held_marker [OF _ subset_refl]) (simp_all add: plain_note_def)

end
