(* ===== verification/Ladder_Steps.thy ===== *)
theory Ladder_Steps
  imports Ladder_Holds
begin

text \<open>
  The steps of a tick, each with what it keeps.
\<close>

section \<open>Running steps\<close>

fun quiet_other :: "other_op \<Rightarrow> bool" where
  "quiet_other (Repo_op q) = quiet_op q"
| "quiet_other (Note_op i actor n) = may_write actor (Some n)"

definition quiet_world :: "ladder_env \<Rightarrow> bool" where
  "quiet_world e \<longleftrightarrow> (\<forall>n. \<forall>op \<in> set (le_world e n). quiet_other op)"

lemma tame_other: "other_step env op db = Inr db' \<Longrightarrow> quiet_other op \<Longrightarrow> tame db db'"
  by (cases op) (auto simp: other_step_def append_note_by_def plain_transition_def tame_queue_step
      split: option.splits intro!: tame_append)

lemma held_world:
  assumes "held A D F db" "\<forall>op \<in> set ops. quiet_other op"
  shows "held A D F (run_steps (other_step env) ops db)"
  using assms
proof (induction ops arbitrary: db)
  case Nil
  then show ?case by (simp add: run_steps_simps)
next
  case (Cons op ops)
  have "held A D F (attempt_step (other_step env) op db)"
    using Cons.prems tame_other [of env op db] by (auto simp: attempt_step_def split: sum.split intro: held_tame)
  with Cons.IH Cons.prems(2) show ?case by (simp add: run_steps_simps)
qed

abbreviation within :: "(string \<Rightarrow> nat) \<Rightarrow> (string \<Rightarrow> nat) \<Rightarrow> string set \<Rightarrow> ladder \<Rightarrow> bool" where
  "within A D F l \<equiv> held A D F (la_db l)"

lemma and_then_keeps:
  assumes "within A D F (fst m)" "\<And>v l. m = (l, Inr v) \<Longrightarrow> within A D F l \<Longrightarrow> within A D G (fst (f v l))" "G \<subseteq> F"
  shows "within A D G (fst (and_then m f))"
proof (cases m)
  case (Pair l x)
  with assms show ?thesis by (cases x) (auto simp: and_then_def intro: held_mono)
qed

lemma for_each_keeps:
  assumes "within A D F l" "\<And>x l. x \<in> set xs \<Longrightarrow> within A D F l \<Longrightarrow> within A D F (fst (f x l))"
  shows "within A D F (fst (for_each f xs l))"
  using assms
proof (induction xs arbitrary: l)
  case Nil
  then show ?case by simp
next
  case (Cons x xs)
  show ?case unfolding for_each.simps
    by (rule and_then_keeps [OF _ _ subset_refl]) (use Cons in auto)
qed

lemma acted_frame [simp]: "la_db (acted i a l) = la_db l" "la_awaits (acted i a l) = la_awaits l"
  by (simp_all add: acted_def)

lemma keeps_plain: "within A D F l \<Longrightarrow> plain_note n \<Longrightarrow> within A D F (appendMarker e r n l)"
  by (simp add: appendMarker_def held_plain)

lemma keeps_exhausted: "within A D F l \<Longrightarrow> within A D F (appendExhausted e r why l)"
  by (simp add: appendExhausted_def keeps_plain)

lemma keeps_pause: "quiet_world e \<Longrightarrow> within A D F l \<Longrightarrow> within A D F (pause e l)"
  by (simp add: pause_def quiet_world_def held_world)

lemma keeps_awaited: "quiet_world e \<Longrightarrow> within A D F (fst m) \<Longrightarrow> within A D F (fst (awaited e m))"
  unfolding awaited_def by (rule and_then_keeps) (auto intro: keeps_pause)

lemma keeps_repo: "within A D F l \<Longrightarrow> (\<And>d. f (la_db l) = Inr d \<Longrightarrow> tame (la_db l) d) \<Longrightarrow> within A D F (fst (repo f l))"
  by (auto simp: repo_def split: sum.split intro: held_tame)

lemma keeps_create_row: "quiet_world e \<Longrightarrow> within A D F l \<Longrightarrow> within A D F (fst (create_row e inp l))"
  by (auto simp: create_row_def split: sum.split dest!: tame_create intro!: keeps_pause elim: held_tame)

lemma keeps_update_row:
  "within A D F l \<Longrightarrow> may_write (u_actor inp) (u_note inp) \<Longrightarrow> within A D F (fst (update_row_of e inp l))"
  unfolding update_row_of_def by (rule keeps_repo) (auto intro: tame_update)

section \<open>Everything but retries and dispatches\<close>

lemma other_notes_text:
  "\<not> ladder_note ''wake recovery resolved: tagged obligations no longer require delivery recovery''"
  "\<not> ladder_note (''usage-limit'' @ s)"
  by (simp_all add: ladder_note_def note_prefixes)

lemmas other_notes [simp] = other_notes_text [unfolded append.simps]

lemma keeps_retire_aggregates: "quiet_world e \<Longrightarrow> within A D F l \<Longrightarrow> within A D F (fst (retire_aggregates e l))"
  unfolding retire_aggregates_def
  by (rule for_each_keeps) (auto simp: retire_aggregate_def Let_def bare_update_def intro!: keeps_awaited keeps_update_row)

lemma keeps_blocker: "quiet_world e \<Longrightarrow> within A D F l \<Longrightarrow> within A D F (fst (ensureUsageLimitBlocker e p l))"
  by (auto simp: ensureUsageLimitBlocker_def Let_def limit_update_def bare_update_def split: option.split
      intro!: and_then_keeps [OF _ _ subset_refl] keeps_create_row keeps_update_row)

lemma keeps_park: "quiet_world e \<Longrightarrow> within A D F l \<Longrightarrow> within A D F (fst (park_limited e p r l))"
  by (auto simp: park_limited_def bare_update_def split: option.split
      intro!: and_then_keeps [OF _ _ subset_refl] keeps_awaited keeps_blocker keeps_update_row)

lemma keeps_refresh: "within A D F l \<Longrightarrow> within A D F (refreshEscalationRowIfExists e tag ids l)"
  by (auto simp: refreshEscalationRowIfExists_def Let_def split: option.split
      intro!: keeps_plain held_tame [OF tame_update_row [OF tame_refl]])

lemma keeps_ensure: "quiet_world e \<Longrightarrow> within A D F l \<Longrightarrow> within A D F (fst (ensureEscalationRow e dest orch ms reason tag extra l))"
  by (auto simp: ensureEscalationRow_def Let_def split: option.split dest: tame_fallback
      intro!: and_then_keeps [OF _ _ subset_refl] keeps_create_row keeps_repo keeps_pause keeps_refresh)

end
