(* ===== verification/Ladder_Once.thy ===== *)
theory Ladder_Once
  imports Ladder_Steps
begin

text \<open>
  A tick retries a row only under the cap and dispatches it at most once an episode.
\<close>

section \<open>Retry and dispatch\<close>

lemma within_weaken: "within A D F l \<Longrightarrow> (\<And>i. A i \<le> B i) \<Longrightarrow> within B D F l"
  unfolding held_def using le_trans by blast

lemma keeps_attempt:
  "within A D F l \<Longrightarrow> is_attempt n \<Longrightarrow> \<not> is_dispatch n \<Longrightarrow> marks is_attempt (la_db l) (q_id r) < A (q_id r)
    \<Longrightarrow> within A D F (appendMarker e r n l)"
  unfolding appendMarker_def by (simp, rule held_marker [OF _ subset_refl]) simp_all

lemma keeps_dispatch:
  "within A D F l \<Longrightarrow> \<not> is_attempt n \<Longrightarrow> q_id r \<in> F \<Longrightarrow> 1 \<le> D (q_id r)
    \<Longrightarrow> within A D (F - {q_id r}) (appendMarker e r n l)"
  unfolding appendMarker_def by (simp, rule held_marker [where F = F]) (auto simp: held_def)

lemma keeps_retry:
  assumes q: "quiet_world e" and l: "within A D F l" and v: "lv_attempts v = marks is_attempt (la_db l) (q_id r)"
    and cap: "int (lv_attempts v) < le_cap e" "\<And>i. nat (le_cap e) \<le> A i"
  shows "within A D F (retry_rung e r v due suspended l)"
proof -
  let ?B = "A(q_id r := lv_attempts v)"
  let ?l1 = "if suspendOpen v then acted (q_id r) Act_resume (appendMarker e r (LADDER_RESUME_PREFIX @ '' suspension over; ladder resumes'') l) else l"
  have lt: "lv_attempts v < A (q_id r)" using cap(1) cap(2) [of "q_id r"] by linarith
  have B: "within ?B D F l" using l v by (simp add: held_def)
  then have l1: "within ?B D F ?l1" by (simp add: keeps_plain)
  let ?n = "budgetFor e ?l1 (q_dest r)"
  let ?l2 = "?l1\<lparr>la_budget := (la_budget ?l1)(q_dest r \<mapsto> ?n)\<rparr>"
  let ?l3 = "fst (attemptWake e (q_id r) (q_dest r) (?l2\<lparr>la_budget := (la_budget ?l2)(q_dest r \<mapsto> Suc ?n)\<rparr>))"
  have l3: "within ?B D F ?l3"
    using keeps_pause [OF q, of ?B D F "?l2\<lparr>la_budget := (la_budget ?l2)(q_dest r \<mapsto> Suc ?n)\<rparr>"] l1
    by (simp add: attemptWake_def)
  have A3: "within A D F ?l3" by (rule within_weaken [OF l3]) (use lt in auto)
  have m: "marks is_attempt (la_db ?l3) (q_id r) < A (q_id r)"
    using l3 lt by (auto simp: held_def dest!: spec [of _ "q_id r"])
  have l1A: "within A D F ?l1" using l by (simp add: keeps_plain)
  have done3: "within A D F (appendMarker e r (LADDER_ATTEMPT_PREFIX @ s) ?l3)" for s
    by (rule keeps_attempt [OF A3 _ _ m]) simp_all
  consider "\<not> due" | why where "due" "suspended = Some why" | "due" "suspended = None" "le_cap e \<le> int ?n"
    | "due" "suspended = None" "\<not> le_cap e \<le> int ?n" by (cases suspended) auto
  then show ?thesis
  proof cases
    case 4
    have "retry_rung e r v due suspended l = acted (q_id r) (Act_retry (q_dest r)) (appendMarker e r
        (LADDER_ATTEMPT_PREFIX @ '' '' @ nat_str (Suc (lv_attempts v)) @ ''/'' @ nat_str (nat (le_cap e)) @ '' outcome='' @
         snd (attemptWake e (q_id r) (q_dest r) (?l2\<lparr>la_budget := (la_budget ?l2)(q_dest r \<mapsto> Suc ?n)\<rparr>))) ?l3)"
      using 4 by (simp only: retry_rung_def Let_def option.case if_not_P if_P not_True_eq_False if_False case_prod_beta)
    with done3 show ?thesis by (simp only: acted_frame)
  next
    case 3
    then have "retry_rung e r v due suspended l = ?l2"
      by (simp only: retry_rung_def Let_def option.case not_True_eq_False if_False if_True)
    with l1A show ?thesis by simp
  qed (use l in \<open>simp_all add: retry_rung_def keeps_plain\<close>)
qed

lemma keeps_operatorRung:
  assumes q: "quiet_world e" and l: "within A D F l" and r: "\<not> lv_dispatched v \<Longrightarrow> q_id r \<in> F" and D: "1 \<le> D (q_id r)"
  shows "within A D (F - {q_id r}) (fst (operatorRung e r reason v l))"
proof -
  have w: "within A D (F - {q_id r}) l" by (rule held_mono [OF l]) auto
  show ?thesis
  proof (cases "le_engine e")
    case None
    with w show ?thesis by (simp add: operatorRung_def Let_def keeps_plain)
  next
    case (Some g)
    let ?l1 = "(pause e l)\<lparr>la_dispatched := la_dispatched l @ [q_id r]\<rparr>"
    have l1: "within A D F ?l1" "within A D (F - {q_id r}) ?l1"
      using keeps_pause [OF q l] keeps_pause [OF q w] by simp_all
    have "within A D (F - {q_id r}) (appendMarker e r (dispatch_note out reason) ?l1)" if "\<not> lv_dispatched v" for out
      by (rule keeps_dispatch [where F = F, OF l1(1) _ r [OF that] D]) simp
    with Some w l1(2) show ?thesis by (auto simp: operatorRung_def Let_def keeps_plain)
  qed
qed

lemma keeps_operator_then_exhaust:
  assumes q: "quiet_world e" and l: "within A D F l" and r: "\<not> lv_dispatched v \<Longrightarrow> q_id r \<in> F" and D: "1 \<le> D (q_id r)"
  shows "within A D (F - {q_id r}) (fst (operator_then_exhaust e r reason v why l))"
  unfolding operator_then_exhaust_def
  by (rule and_then_keeps [OF _ _ subset_refl])
     (use keeps_awaited [OF q keeps_operatorRung [OF assms]] keeps_exhausted in auto)

lemma keeps_consumed_hop:
  assumes q: "quiet_world e" and l: "within A D F l" and r: "\<not> lv_dispatched v \<Longrightarrow> q_id r \<in> F" and D: "1 \<le> D (q_id r)"
  shows "within A D (F - {q_id r}) (fst (consumed_hop e r v reason l))"
  unfolding consumed_hop_def Let_def
  by (rule and_then_keeps [where F = F])
     (use q l r D in \<open>auto intro!: keeps_awaited keeps_ensure keeps_operator_then_exhaust keeps_plain\<close>)

end
