(* ===== verification/Ladder_Tick.thy ===== *)
theory Ladder_Tick
  imports Ladder_Once
begin

text \<open>
  The whole tick: the rows climb one by one, then each destination's members. A row is met once.
\<close>

section \<open>Rows\<close>

definition members_of :: "groups \<Rightarrow> ladder_member list" where
  "members_of gs = concat (map snd gs)"

definition ids_of :: "ladder_member list \<Rightarrow> string list" where
  "ids_of ms = map (q_id \<circ> lm_row) ms"

definition undispatched :: "ladder_member list \<Rightarrow> string set" where
  "undispatched ms = set (ids_of (filter (\<lambda>m. \<not> lv_dispatched (lm_view m)) ms))"

lemma members_of_simps [simp]: "members_of [] = []" "members_of (g # gs) = snd g @ members_of gs"
  by (simp_all add: members_of_def)

lemma members_enlist: "set (members_of (enlist d m gs)) = insert m (set (members_of gs))"
  by (induction d m gs rule: enlist.induct) auto

lemma undispatched_enlist: "undispatched (members_of (enlist d m gs)) =
    (if lv_dispatched (lm_view m) then undispatched (members_of gs) else insert (q_id (lm_row m)) (undispatched (members_of gs)))"
  by (auto simp: undispatched_def ids_of_def members_enlist)

lemma distinct_enlist:
  "distinct (ids_of (members_of gs)) \<Longrightarrow> q_id (lm_row m) \<notin> set (ids_of (members_of gs)) \<Longrightarrow> distinct (ids_of (members_of (enlist d m gs)))"
proof (induction gs)
  case Nil
  then show ?case by (simp add: ids_of_def)
next
  case (Cons g gs)
  obtain d' ms where g: "g = (d', ms)" by (cases g)
  have "set (ids_of (members_of (enlist d m gs))) = insert (q_id (lm_row m)) (set (ids_of (members_of gs)))"
    by (simp add: ids_of_def members_enlist)
  with Cons show ?case by (auto simp: g ids_of_def)
qed

definition climbed :: "(string \<Rightarrow> nat) \<Rightarrow> (string \<Rightarrow> nat) \<Rightarrow> string set \<Rightarrow> groups climb \<Rightarrow> bool" where
  "climbed A D I m \<longleftrightarrow> (case m of (l, Inl _) \<Rightarrow> within A D {} l
     | (l, Inr gs) \<Rightarrow> within A D (undispatched (members_of gs)) l \<and> distinct (ids_of (members_of gs)) \<and>
         set (ids_of (members_of gs)) \<subseteq> I)"

lemma climbed_same:
  "within A D (undispatched (members_of gs)) l \<Longrightarrow> distinct (ids_of (members_of gs)) \<Longrightarrow> set (ids_of (members_of gs)) \<subseteq> I
    \<Longrightarrow> climbed A D I (l, Inr gs)"
  by (simp add: climbed_def)

lemma climbed_after:
  assumes "within A D (undispatched (members_of gs)) (fst m)" "distinct (ids_of (members_of gs))"
    and "set (ids_of (members_of gs)) \<subseteq> I"
  shows "climbed A D I (and_then m (\<lambda>_ l. (l, Inr gs)))"
  using assms by (cases m; cases "snd m") (auto simp: climbed_def and_then_def intro: held_mono)

lemma climb_row_climbed:
  assumes q: "quiet_world e" and l: "within A D (undispatched (members_of gs)) l"
    and new: "i \<notin> set (ids_of (members_of gs))" and d: "distinct (ids_of (members_of gs))"
    and A: "\<And>i. nat (le_cap e) \<le> A i" and D: "\<And>i. 1 \<le> D i"
  shows "climbed A D (insert i (set (ids_of (members_of gs)))) (climb_row e i gs l)"
proof -
  let ?I = "insert i (set (ids_of (members_of gs)))" and ?F = "undispatched (members_of gs)"
  have I: "set (ids_of (members_of gs)) \<subseteq> ?I" by blast
  note same = climbed_same [OF l d I]
  have i: "i \<notin> ?F" using new by (auto simp: undispatched_def ids_of_def)
  show ?thesis
  proof (cases "getById (la_db l) i")
    case None
    then show ?thesis by (simp add: climb_row_def same)
  next
    case (Some r)
    then have r: "q_id r = i" by (auto dest: getById_Some)
    let ?v = "readLadder (la_db l) i"
    have park: "climbed A D ?I (and_then (park_limited e p r l) (\<lambda>_ l'. (l', Inr gs)))" for p
      by (rule climbed_after [OF keeps_park [OF q l] d I])
    have wide: "within A D (if lv_dispatched ?v then ?F else insert i ?F) l"
      using l by (simp add: held_def dispatched_marks)
    have member: "climbed A D ?I (escalate_member e r ?v due suspended reason gs l)" for due suspended reason
    proof (cases "hasConsumedEscalationHop (la_db l) (q_id r)")
      case True
      have "within A D ?F (fst (consumed_hop e r ?v reason l))"
        by (rule held_mono [OF keeps_consumed_hop [OF q wide]]) (use r i D in auto)
      from climbed_after [OF this d I] same True show ?thesis by (simp add: escalate_member_def)
    next
      case False
      let ?m = "\<lparr>lm_row = r, lm_view = ?v, lm_reason = reason, lm_due = due, lm_suspended = truthy suspended\<rparr>"
      have "undispatched (members_of (enlist (q_dest r) ?m gs)) = (if lv_dispatched ?v then ?F else insert i ?F)"
        by (simp add: undispatched_enlist r)
      moreover have "set (ids_of (members_of (enlist (q_dest r) ?m gs))) \<subseteq> ?I"
        using r by (auto simp: ids_of_def members_enlist)
      moreover have "distinct (ids_of (members_of (enlist (q_dest r) ?m gs)))"
        by (rule distinct_enlist [OF d]) (use r new in simp)
      ultimately show ?thesis using wide False by (simp add: escalate_member_def climbed_def)
    qed
    have ladder: "climbed A D ?I (climb_ladder e r mode ?v disposition gs l)" for mode disposition
    proof -
      have "within A D ?F (retry_rung e r ?v due suspended l)" if "int (lv_attempts ?v) < le_cap e" for due suspended
        by (rule keeps_retry [OF q l _ that A]) (simp add: attempts_marks r)
      then show ?thesis
        by (auto simp: climb_ladder_def Let_def split: option.split intro!: same member climbed_same d I keeps_exhausted l)
    qed
    show ?thesis
      by (auto simp: climb_row_def Some Let_def split: option.split bool.split intro!: same park ladder)
  qed
qed

lemma climb_rows_climbed:
  assumes q: "quiet_world e" and A: "\<And>i. nat (le_cap e) \<le> A i" and D: "\<And>i. 1 \<le> D i"
  shows "within A D (undispatched (members_of gs)) l \<Longrightarrow> distinct (ids_of (members_of gs)) \<Longrightarrow> distinct is
    \<Longrightarrow> set is \<inter> set (ids_of (members_of gs)) = {} \<Longrightarrow> climbed A D UNIV (climb_rows e is gs l)"
proof (induction "is" arbitrary: gs l)
  case Nil
  then show ?case by (simp add: climbed_def)
next
  case (Cons i js)
  have one: "climbed A D (insert i (set (ids_of (members_of gs)))) (climb_row e i gs l)"
    by (rule climb_row_climbed [OF q Cons.prems(1) _ Cons.prems(2) A D]) (use Cons.prems(4) in auto)
  show ?case
  proof (cases "climb_row e i gs l")
    case (Pair l1 x)
    show ?thesis
    proof (cases x)
      case (Inl err)
      with one Pair show ?thesis by (simp add: climbed_def and_then_def)
    next
      case (Inr gs1)
      with one Pair have 1: "within A D (undispatched (members_of gs1)) l1" "distinct (ids_of (members_of gs1))"
        "set (ids_of (members_of gs1)) \<subseteq> insert i (set (ids_of (members_of gs)))" by (simp_all add: climbed_def)
      have "set js \<inter> set (ids_of (members_of gs1)) = {}" using 1(3) Cons.prems(3,4) by auto
      with Cons.IH [OF 1(1,2)] Cons.prems(3) Inr Pair show ?thesis by (simp add: and_then_def)
    qed
  qed
qed

section \<open>Destinations\<close>

text \<open>Members that are given a dispatch, one after the other.\<close>

lemma for_members:
  assumes step: "\<And>m l F. m \<in> set ms \<Longrightarrow> within A D F l \<Longrightarrow> (\<not> lv_dispatched (lm_view m) \<Longrightarrow> q_id (lm_row m) \<in> F)
      \<Longrightarrow> within A D (F - {q_id (lm_row m)}) (fst (f m l))"
    and l: "within A D F l" and d: "distinct (ids_of ms)" and F: "undispatched ms \<subseteq> F"
  shows "within A D (F - set (ids_of ms)) (fst (for_each f ms l))"
  using assms
proof (induction ms arbitrary: F l)
  case Nil
  then show ?case by (simp add: ids_of_def)
next
  case (Cons m ms)
  have one: "within A D (F - {q_id (lm_row m)}) (fst (f m l))"
    by (rule Cons.prems(1)) (use Cons.prems(2,4) in \<open>auto simp: undispatched_def ids_of_def\<close>)
  have rest: "undispatched ms \<subseteq> F - {q_id (lm_row m)}"
    using Cons.prems(3,4) by (auto simp: undispatched_def ids_of_def image_iff split: if_splits)
  have eq: "F - set (ids_of (m # ms)) = F - {q_id (lm_row m)} - set (ids_of ms)" by (auto simp: ids_of_def)
  show ?case unfolding for_each.simps eq
    by (rule and_then_keeps [OF one]) (use Cons.IH Cons.prems rest in \<open>auto simp: ids_of_def\<close>)
qed

lemma keeps_self_skip:
  assumes "quiet_world e" "within A D F l" "\<not> lv_dispatched (lm_view m) \<Longrightarrow> q_id (lm_row m) \<in> F" "\<And>i. 1 \<le> D i"
  shows "within A D (F - {q_id (lm_row m)}) (fst (self_skip e orch m l))"
  unfolding self_skip_def using assms by (intro keeps_operator_then_exhaust keeps_plain) simp_all

lemma keeps_advance:
  assumes "quiet_world e" "within A D F l" "\<not> lv_dispatched (lm_view m) \<Longrightarrow> q_id (lm_row m) \<in> F" "\<And>i. 1 \<le> D i"
  shows "within A D (F - {q_id (lm_row m)}) (fst (advance_operator e m l))"
  using assms held_mono [OF assms(2)] by (auto simp: advance_operator_def intro!: keeps_operator_then_exhaust)

lemma keeps_told: "within A D F l \<Longrightarrow> within A D F (fst (orchestrator_told e owner outcome m l))"
  by (simp add: orchestrator_told_def Let_def keeps_plain keeps_exhausted)

lemma keeps_resolve: "within A D F l \<Longrightarrow> within A D F (fst (resolve_outcome e m l))"
  by (simp add: resolve_outcome_def keeps_exhausted)

text \<open>The members of a turn are among the group's.\<close>

lemma with_route_same [simp]: "lm_row (with_route why m) = lm_row m" "lm_view (with_route why m) = lm_view m"
  "lm_due (with_route why m) = lm_due m" "lm_suspended (with_route why m) = lm_suspended m"
  by (simp_all add: with_route_def)

lemma routed_members: "ids_of (map (with_route why) ms) = ids_of ms" "undispatched (map (with_route why) ms) = undispatched ms"
  by (simp_all add: ids_of_def undispatched_def filter_map o_def)

lemma members_filter:
  assumes "distinct (ids_of ms)" "undispatched ms \<subseteq> F"
  shows "undispatched (filter P ms) \<subseteq> F" "distinct (ids_of (filter P ms))" "set (ids_of (filter P ms)) \<subseteq> set (ids_of ms)"
  using assms by (auto simp: ids_of_def undispatched_def distinct_map_filter image_subset_iff)

lemma needs_orch_filter: "needs_orch ms = filter (\<lambda>m. (lm_due m \<and> \<not> lm_suspended m) \<and> \<not> lv_orchRung (lm_view m)) ms"
  by (simp add: needs_orch_def actionable_def)

lemma keeps_advance_members:
  assumes q: "quiet_world e" and l: "within A D F l" and d: "distinct (ids_of ms)" and F: "undispatched ms \<subseteq> F"
    and D: "\<And>i. 1 \<le> D i"
  shows "within A D (F - set (ids_of ms)) (fst (advance_members e ms l))"
  unfolding advance_members_def
proof (rule and_then_keeps)
  note sub = members_filter [OF d F, of "\<lambda>m. lm_due m \<and> \<not> lm_suspended m", folded actionable_def]
  show "within A D (F - set (ids_of (actionable ms))) (fst (for_each (advance_operator e) (actionable ms) l))"
    by (rule for_members [OF _ l sub(2,1)]) (rule keeps_advance [OF q _ _ D])
  show "F - set (ids_of ms) \<subseteq> F - set (ids_of (actionable ms))" using sub(3) by blast
  fix u l1 assume "within A D (F - set (ids_of (actionable ms))) l1"
  then have "within A D (F - set (ids_of ms)) l1" by (rule held_mono) (use sub(3) in blast)
  then show "within A D (F - set (ids_of ms)) (fst (for_each (resolve_outcome e) ms l1))"
    by (rule for_each_keeps) (rule keeps_resolve)
qed

lemma keeps_skip_orchestrator:
  assumes q: "quiet_world e" and l: "within A D F l" and d: "distinct (ids_of ms)" and F: "undispatched ms \<subseteq> F"
    and D: "\<And>i. 1 \<le> D i"
  shows "within A D (F - set (ids_of ms)) (fst (skip_orchestrator e dest orch first ms l))"
  unfolding skip_orchestrator_def
proof (rule and_then_keeps [OF keeps_awaited [OF q keeps_ensure [OF q l]]])
  note sub = members_filter [OF d F, of "\<lambda>m. (lm_due m \<and> \<not> lm_suspended m) \<and> \<not> lv_orchRung (lm_view m)",
      folded needs_orch_filter]
  fix u l1 assume "within A D F l1"
  then have "within A D (F - set (ids_of (needs_orch ms))) (fst (for_each (self_skip e orch) (needs_orch ms) l1))"
    by (rule for_members [OF _ _ sub(2,1), rotated]) (rule keeps_self_skip [OF q _ _ D])
  then show "within A D (F - set (ids_of ms)) (fst (for_each (self_skip e orch) (needs_orch ms) l1))"
    by (rule held_mono) (use sub(3) in blast)
qed blast

lemma keeps_tell_orchestrator:
  assumes q: "quiet_world e" and l: "within A D F l" and G: "G \<subseteq> F"
  shows "within A D G (fst (tell_orchestrator e dest orch ms l))"
  unfolding tell_orchestrator_def
proof (rule and_then_keeps [OF keeps_awaited [OF q keeps_ensure [OF q l]] _ G])
  fix i l1 assume "within A D F l1"
  then have "within A D G (fst (attemptWake e i owner l1))" for owner
    using keeps_pause [OF q] held_mono [OF _ G] by (simp add: attemptWake_def)
  then show "within A D G (fst (let owner = (case getById (la_db l1) i of None \<Rightarrow> orch | Some r \<Rightarrow> q_dest r);
                   (l2, outcome) = attemptWake e i owner l1
               in for_each (orchestrator_told e owner outcome) (needs_orch ms) l2))"
    unfolding Let_def case_prod_beta by (intro for_each_keeps keeps_told)
qed

lemma keeps_group:
  assumes q: "quiet_world e" and l: "within A D F l0" and d: "distinct (ids_of (snd g))" and F: "undispatched (snd g) \<subseteq> F"
    and D: "\<And>i. 1 \<le> D i"
  shows "within A D (F - set (ids_of (snd g))) (fst (escalate_group e g l0))"
proof -
  let ?ms = "map (with_route (route_reason e (fst g))) (snd g)"
  let ?l = "pause e (refreshEscalationRowIfExists e (escalationDedupTag (fst g)) (map (q_id \<circ> lm_row) ?ms) l0)"
  have wl: "within A D F ?l" by (intro keeps_pause keeps_refresh q l)
  have ms: "distinct (ids_of ?ms)" "undispatched ?ms \<subseteq> F" using d F by (simp_all add: routed_members)
  have "within A D (F - set (ids_of (snd g))) (fst (advance_members e ?ms ?l))"
    "within A D (F - set (ids_of (snd g))) (fst (skip_orchestrator e (fst g) orch m ?ms ?l))"
    "within A D (F - set (ids_of (snd g))) (fst (tell_orchestrator e (fst g) x ?ms ?l))" for orch m x
    using keeps_advance_members [OF q wl ms D] keeps_skip_orchestrator [OF q wl ms D] keeps_tell_orchestrator [OF q wl]
    by (simp_all add: routed_members)
  then show ?thesis unfolding escalate_group_def Let_def by (auto split: list.split option.split)
qed

lemma keeps_groups:
  assumes q: "quiet_world e" and D: "\<And>i. 1 \<le> D i"
  shows "within A D (undispatched (members_of gs)) l \<Longrightarrow> distinct (ids_of (members_of gs))
    \<Longrightarrow> within A D {} (fst (for_each (escalate_group e) gs l))"
proof (induction gs arbitrary: l)
  case Nil
  then show ?case by (auto intro: held_mono)
next
  case (Cons g gs)
  let ?F = "undispatched (members_of (g # gs))"
  have one: "within A D (?F - set (ids_of (snd g))) (fst (escalate_group e g l))"
    by (rule keeps_group [OF q Cons.prems(1) _ _ D]) (use Cons.prems(2) in \<open>auto simp: ids_of_def undispatched_def\<close>)
  have rest: "undispatched (members_of gs) \<subseteq> ?F - set (ids_of (snd g))"
    using Cons.prems(2) by (auto simp: ids_of_def undispatched_def)
  have d: "distinct (ids_of (members_of gs))" using Cons.prems(2) by (simp add: ids_of_def)
  show ?case unfolding for_each.simps
  proof (rule and_then_keeps [OF one])
    fix u l1 assume "within A D (?F - set (ids_of (snd g))) l1"
    then show "within A D {} (fst (for_each (escalate_group e) gs l1))"
      by (intro Cons.IH d) (rule held_mono [OF _ rest])
  qed simp
qed

section \<open>The tick\<close>

lemma distinct_ladder_ids:
  assumes "unique_rows db"
  shows "distinct (baton_ids db @ parked_owner_ids db)"
proof -
  have d: "distinct (map q_id (d_items db))" using assms by (simp add: unique_rows_def)
  have "i \<notin> set (parked_owner_ids db)" if "i \<in> set (baton_ids db)" for i
  proof
    assume "i \<in> set (parked_owner_ids db)"
    then obtain r where r: "r \<in> set (d_items db)" "q_id r = i" "q_state r = Q_in_progress" by (auto simp: parked_owner_ids_def)
    from that obtain s where s: "s \<in> set (d_items db)" "q_id s = i" "q_state s = Q_pending" by (auto simp: baton_ids_def)
    have "r = s" using d r(1,2) s(1,2) by (metis distinct_map inj_onD)
    with r s show False by simp
  qed
  then have "set (baton_ids db) \<inter> set (parked_owner_ids db) = {}" by blast
  moreover have "distinct (baton_ids db)" "distinct (parked_owner_ids db)"
    using d by (simp_all only: baton_ids_def parked_owner_ids_def distinct_map_filter)
  ultimately show ?thesis by simp
qed

lemma keeps_tick:
  assumes q: "quiet_world e" and db: "held A D {} db" and A: "\<And>i. nat (le_cap e) \<le> A i" and D: "\<And>i. 1 \<le> D i"
  shows "within A D {} (fst (ladder_tick e db))"
  unfolding ladder_tick_def Let_def
proof (rule and_then_keeps [OF _ _ subset_refl])
  have "within A D {} (start_tick db)" using db by (simp add: start_tick_def)
  then show "within A D {} (fst (retire_aggregates e (start_tick db)))" by (rule keeps_retire_aggregates [OF q])
  fix u l
  let ?l = "pause e (pause e l)"
  let ?m = "climb_rows e (baton_ids (la_db ?l) @ parked_owner_ids (la_db ?l)) [] ?l"
  assume "within A D {} l"
  then have l: "within A D {} ?l" by (intro keeps_pause q)
  then have "unique_rows (la_db ?l)" by (simp add: held_def)
  then have c: "climbed A D UNIV ?m"
    by (intro climb_rows_climbed q A D distinct_ladder_ids) (use l in \<open>simp_all add: undispatched_def ids_of_def\<close>)
  show "within A D {} (fst (and_then ?m (\<lambda>gs l2. for_each (escalate_group e) gs l2)))"
  proof (cases ?m)
    case (Pair l2 x)
    with c show ?thesis by (cases x) (auto simp: climbed_def and_then_def intro: keeps_groups [OF q D])
  qed
qed

text \<open>Ticks and other writers, in any order.\<close>

datatype ladder_event = Ladder_tick ladder_env | Other_write queue_env other_op

definition ladder_event_step :: "ladder_event \<Rightarrow> queue_db \<Rightarrow> queue_error + queue_db" where
  "ladder_event_step ev db = (case ev of
     Ladder_tick e \<Rightarrow> Inr (fst (runWakeLadderTick e db))
   | Other_write env op \<Rightarrow> other_step env op db)"

fun quiet_event :: "int \<Rightarrow> ladder_event \<Rightarrow> bool" where
  "quiet_event cap (Ladder_tick e) \<longleftrightarrow> quiet_world e \<and> le_cap e \<le> cap"
| "quiet_event cap (Other_write env op) \<longleftrightarrow> quiet_other op"

lemma tick_result: "fst (runWakeLadderTick e db) = la_db (fst (ladder_tick e db))"
  by (simp add: runWakeLadderTick_def case_prod_beta split: sum.split)

lemma held_run:
  assumes "\<forall>ev \<in> set evs. quiet_event cap ev" "held A D {} db" "\<And>i. nat cap \<le> A i" "\<And>i. 1 \<le> D i"
  shows "held A D {} (run_steps ladder_event_step evs db)"
  using assms(1,2)
proof (induction evs arbitrary: db)
  case Nil
  then show ?case by (simp add: run_steps_simps)
next
  case (Cons ev evs)
  have "held A D {} (attempt_step ladder_event_step ev db)"
  proof (cases ev)
    case (Ladder_tick e)
    have "nat (le_cap e) \<le> A i" for i
      using Cons.prems(1) Ladder_tick assms(3) [of i] by simp (meson le_trans nat_mono)
    with Cons.prems Ladder_tick keeps_tick [of e A D db] assms(4) show ?thesis
      by (simp add: attempt_step_def ladder_event_step_def tick_result)
  next
    case (Other_write env op)
    with Cons.prems tame_other [of env op db] show ?thesis
      by (auto simp: attempt_step_def ladder_event_step_def split: sum.split intro: held_tame)
  qed
  with Cons show ?case by (simp add: run_steps_simps)
qed

lemma held_empty: "held A D {} empty_db"
  by (simp add: held_def sound_log_def numbered_def fired_known_def fired_def unique_rows_def empty_db_def marks_def since_def
      listForQitem_def)

end
