(* ===== verification/Ladder_Budget.thy ===== *)
theory Ladder_Budget
  imports Ladder_Tick
begin

text \<open>
  Which steps of a tick wake a seat: a retry under its destination's budget, and the orchestrator's rung.
\<close>

definition retries :: "string \<Rightarrow> ladder \<Rightarrow> nat" where
  "retries d l = length (filter (\<lambda>(i, a). a = Act_retry d) (la_actions l))"

definition unretried :: "ladder \<Rightarrow> ladder \<Rightarrow> bool" where
  "unretried l l' \<longleftrightarrow> la_budget l' = la_budget l \<and> (\<forall>d. retries d l' = retries d l)"

definition still :: "ladder \<Rightarrow> ladder \<Rightarrow> bool" where
  "still l l' \<longleftrightarrow> unretried l l' \<and> la_wakes l' = la_wakes l"

lemma still_refl [simp]: "still l l"
  by (simp add: still_def unretried_def)

lemma and_then_inv: "I (fst m) \<Longrightarrow> (\<And>v l. I l \<Longrightarrow> I (fst (f v l))) \<Longrightarrow> I (fst (and_then m f))"
  by (cases m; cases "snd m") (auto simp: and_then_def)

lemma for_each_inv: "I l \<Longrightarrow> (\<And>x l. I l \<Longrightarrow> I (fst (f x l))) \<Longrightarrow> I (fst (for_each f xs l))"
proof (induction xs arbitrary: l)
  case (Cons x xs)
  show ?case unfolding for_each.simps by (rule and_then_inv [where I = I]) (use Cons in auto)
qed simp

lemma still_steps:
  "still l l1 \<Longrightarrow> still l (pause e l1)" "still l l1 \<Longrightarrow> still l (appendMarker e r n l1)"
  "still l l1 \<Longrightarrow> still l (appendExhausted e r why l1)"
  "still l l1 \<Longrightarrow> still l (fst (repo f l1))" "still l l1 \<Longrightarrow> still l (fst (create_row e c l1))"
  "still l l1 \<Longrightarrow> still l (fst (update_row_of e u l1))"
  "still l l1 \<Longrightarrow> still l (refreshEscalationRowIfExists e tag ids l1)"
  by (auto simp: still_def unretried_def retries_def pause_def appendMarker_def appendExhausted_def repo_def create_row_def
      update_row_of_def refreshEscalationRowIfExists_def Let_def split: sum.split option.split)

lemma still_acted: "still l l1 \<Longrightarrow> (\<And>d. a \<noteq> Act_retry d) \<Longrightarrow> still l (acted i a l1)"
  by (simp add: still_def unretried_def retries_def acted_def)

lemma still_awaited: "still l (fst m) \<Longrightarrow> still l (fst (awaited e m))"
  unfolding awaited_def by (rule and_then_inv) (simp_all add: still_steps)

lemma still_retire: "still l l1 \<Longrightarrow> still l (fst (retire_aggregates e l1))"
  unfolding retire_aggregates_def
  by (rule for_each_inv) (auto simp: retire_aggregate_def Let_def intro!: still_awaited still_steps)

lemmas still_and_then = and_then_inv [where I = "still l" for l]

lemma still_blocker: "still l l1 \<Longrightarrow> still l (fst (ensureUsageLimitBlocker e p l1))"
  by (auto simp: ensureUsageLimitBlocker_def Let_def split: option.split intro!: still_and_then still_steps)

lemma still_park: "still l l1 \<Longrightarrow> still l (fst (park_limited e p r l1))"
proof -
  have b: "still l (l1\<lparr>la_blockers := x\<rparr>)" if "still l l1" for l1 x
    using that by (simp add: still_def unretried_def retries_def)
  assume "still l l1"
  then show ?thesis
    by (auto simp: park_limited_def split: option.split
        intro!: still_and_then still_awaited still_blocker still_steps still_acted b)
qed

lemma still_ensure: "still l l1 \<Longrightarrow> still l (fst (ensureEscalationRow e dest orch ms reason tag extra l1))"
  by (auto simp: ensureEscalationRow_def Let_def split: option.split intro!: still_and_then still_steps)

lemma still_operator: "still l l1 \<Longrightarrow> still l (fst (operatorRung e r reason v l1))"
proof -
  have d: "still l (l1\<lparr>la_dispatched := x\<rparr>)" if "still l l1" for l1 x
    using that by (simp add: still_def unretried_def retries_def)
  assume "still l l1"
  then show ?thesis
    by (auto simp: operatorRung_def Let_def split: option.split intro!: still_steps still_acted d)
qed

lemma still_exhaust: "still l l1 \<Longrightarrow> still l (fst (operator_then_exhaust e r reason v why l1))"
  unfolding operator_then_exhaust_def
  by (rule still_and_then) (auto intro: still_awaited still_operator still_steps)

lemma still_hop: "still l l1 \<Longrightarrow> still l (fst (consumed_hop e r v reason l1))"
  unfolding consumed_hop_def Let_def
  by (rule still_and_then) (auto intro: still_awaited still_ensure still_exhaust still_steps)

lemma still_member: "still l l1 \<Longrightarrow> still l (fst (escalate_member e r v due suspended reason gs l1))"
  by (auto simp: escalate_member_def intro!: still_and_then still_hop)

section \<open>Retries\<close>

text \<open>A retry has room in its destination's budget; what does not retry leaves everything.\<close>

lemma retry_rung_cases:
  obtains "still l (retry_rung e r v due suspended l)"
  | l1 n where "still l l1" "n = budgetFor e l1 (q_dest r)" "int n < le_cap e" "due" "suspended = None"
      "la_budget (retry_rung e r v due suspended l) = (la_budget l)(q_dest r \<mapsto> Suc n)"
      "\<And>d. retries d (retry_rung e r v due suspended l) = retries d l + (if d = q_dest r then 1 else 0)"
      "la_wakes (retry_rung e r v due suspended l) = la_wakes l @ [(q_id r, q_dest r)]"
  | l1 n where "still l l1" "n = budgetFor e l1 (q_dest r)"
      "la_budget (retry_rung e r v due suspended l) = (la_budget l)(q_dest r \<mapsto> n)"
      "\<And>d. retries d (retry_rung e r v due suspended l) = retries d l"
      "la_wakes (retry_rung e r v due suspended l) = la_wakes l"
proof -
  define l1 where "l1 = (if suspendOpen v
      then acted (q_id r) Act_resume (appendMarker e r (LADDER_RESUME_PREFIX @ '' suspension over; ladder resumes'') l) else l)"
  define n where "n = budgetFor e l1 (q_dest r)"
  have l1: "still l l1" by (simp add: l1_def still_acted still_steps)
  consider "\<not> due \<or> suspended \<noteq> None" | "due" "suspended = None" "le_cap e \<le> int n" | "due" "suspended = None" "int n < le_cap e"
    by linarith
  then show thesis
  proof cases
    case 1
    then have "still l (retry_rung e r v due suspended l)"
      by (auto simp: retry_rung_def still_acted still_steps)
    with that(1) show thesis .
  next
    case 2
    then have "retry_rung e r v due suspended l = l1\<lparr>la_budget := (la_budget l1)(q_dest r \<mapsto> n)\<rparr>"
      unfolding retry_rung_def l1_def [symmetric] n_def by (simp add: Let_def l1_def)
    with that(3) [OF l1 n_def] l1 show thesis by (simp add: still_def unretried_def retries_def)
  next
    case 3
    let ?l2 = "l1\<lparr>la_budget := (la_budget l1)(q_dest r \<mapsto> Suc n)\<rparr>"
    let ?note = "LADDER_ATTEMPT_PREFIX @ '' '' @ nat_str (Suc (lv_attempts v)) @ ''/'' @ nat_str (nat (le_cap e)) @
                     '' outcome='' @ snd (attemptWake e (q_id r) (q_dest r) ?l2)"
    have "retry_rung e r v due suspended l = acted (q_id r) (Act_retry (q_dest r))
        (appendMarker e r ?note (fst (attemptWake e (q_id r) (q_dest r) ?l2)))"
      using 3 unfolding retry_rung_def l1_def [symmetric] n_def [symmetric] by (simp add: Let_def case_prod_beta l1_def n_def)
    then show thesis using that(2) [OF l1 n_def 3(3,1,2)] l1
      by (auto simp: still_def unretried_def retries_def acted_def appendMarker_def attemptWake_def pause_def)
  qed
qed

definition budgeted :: "ladder_env \<Rightarrow> ladder \<Rightarrow> bool" where
  "budgeted e l \<longleftrightarrow> (\<forall>d. retries d l \<le> nat (le_cap e) \<and> retries d l \<le> or_default (la_budget l d) 0)"

lemma budgeted_unretried: "budgeted e l \<Longrightarrow> unretried l l' \<Longrightarrow> budgeted e l'"
  by (simp add: budgeted_def unretried_def)

lemma budgeted_retry: "budgeted e l \<Longrightarrow> budgeted e (retry_rung e r v due suspended l)"
proof (rule retry_rung_cases [of l e r v due suspended])
  assume b: "budgeted e l"
  then show "still l (retry_rung e r v due suspended l) \<Longrightarrow> ?thesis" by (auto simp: still_def intro: budgeted_unretried)
  fix l1 n assume s: "still l l1" "n = budgetFor e l1 (q_dest r)"
  have n: "retries (q_dest r) l \<le> n"
    using b s by (cases "la_budget l (q_dest r)") (auto simp: budgeted_def budgetFor_def still_def unretried_def dest!: spec [of _ "q_dest r"])
  show ?thesis if "int n < le_cap e"
    "la_budget (retry_rung e r v due suspended l) = (la_budget l)(q_dest r \<mapsto> Suc n)"
    "\<And>d. retries d (retry_rung e r v due suspended l) = retries d l + (if d = q_dest r then 1 else 0)"
    using b n that by (auto simp: budgeted_def)
  show ?thesis if "la_budget (retry_rung e r v due suspended l) = (la_budget l)(q_dest r \<mapsto> n)"
    "\<And>d. retries d (retry_rung e r v due suspended l) = retries d l"
    using b n that by (auto simp: budgeted_def)
qed

lemma climb_row_cases:
  obtains "still l (fst (climb_row e i gs l))"
  | r where "getById (la_db l) i = Some r" "unclaimedWakeMode r = Some Mode_failed"
      "\<not> lv_exhausted (readLadder (la_db l) i)" "int (lv_attempts (readLadder (la_db l) i)) < le_cap e"
      "climb_row e i gs l = (retry_rung e r (readLadder (la_db l) i) (is_due e r (readLadder (la_db l) i))
         (if is_due e r (readLadder (la_db l) i) then suspensionReason e (q_dest r) else None) l, Inr gs)"
proof (cases "getById (la_db l) i")
  case None
  then show thesis using that(1) by (simp add: climb_row_def)
next
  case (Some r)
  let ?v = "readLadder (la_db l) i"
  have park: "still l (fst (and_then (park_limited e p r l) (\<lambda>_ l'. (l', Inr gs))))" for p
    by (rule still_and_then) (simp_all add: still_park)
  have climb: "still l (fst (climb_ladder e r mode ?v d gs l)) \<or>
      mode = Mode_failed \<and> int (lv_attempts ?v) < le_cap e \<and> climb_ladder e r mode ?v d gs l =
        (retry_rung e r ?v (is_due e r ?v) (if is_due e r ?v then suspensionReason e (q_dest r) else None) l, Inr gs)" for mode d
    by (auto simp: climb_ladder_def Let_def still_member still_steps split: option.split)
  define body where "body = (case unclaimedWakeMode r of
            None \<Rightarrow> (l, Inr gs)
          | Some mode \<Rightarrow>
              let disposition = findWakeRecovery (la_db l) i; v = readLadder (la_db l) i
              in if (case disposition of None \<Rightarrow> False | Some d \<Rightarrow> \<not> open_row d) \<or> lv_exhausted v \<or>
                    (mode \<noteq> Mode_failed \<and> (minutesSince (q_created r) (le_now e) < le_window e \<or> hasPickupEvidence (la_db l) r)) \<or>
                    le_quiet e (la_db l) i \<or> le_silent e (la_db l) i
                 then (l, Inr gs)
                 else climb_ladder e r mode v disposition gs l)"
  have row: "climb_row e i gs l = (if recoversEscalationNotice (la_db l) r then (l, Inr gs)
       else case (le_pool e (q_dest r), q_state r = Q_pending) of
         (Some p, True) \<Rightarrow> and_then (park_limited e p r l) (\<lambda>_ l'. (l', Inr gs)) | _ \<Rightarrow> body)"
    unfolding climb_row_def Some body_def option.case by (rule refl)
  have "climb_row e i gs l = (l, Inr gs) \<or> climb_row e i gs l = body \<or>
      (\<exists>p. climb_row e i gs l = and_then (park_limited e p r l) (\<lambda>_ l'. (l', Inr gs)))"
    unfolding row by (cases "le_pool e (q_dest r)"; cases "q_state r = Q_pending") auto
  moreover have "body = (l, Inr gs) \<or> (\<exists>mode d. unclaimedWakeMode r = Some mode \<and> \<not> lv_exhausted ?v \<and> body = climb_ladder e r mode ?v d gs l)"
    unfolding body_def Let_def by (cases "unclaimedWakeMode r") auto
  ultimately consider "climb_row e i gs l = (l, Inr gs)" | p where "climb_row e i gs l = and_then (park_limited e p r l) (\<lambda>_ l'. (l', Inr gs))"
    | mode d where "unclaimedWakeMode r = Some mode" "\<not> lv_exhausted ?v" "climb_row e i gs l = climb_ladder e r mode ?v d gs l"
    by metis
  then show thesis
  proof cases
    case 3
    from climb [of mode d] show thesis
    proof
      assume "still l (fst (climb_ladder e r mode ?v d gs l))"
      with 3 that(1) show thesis by simp
    next
      assume "mode = Mode_failed \<and> int (lv_attempts ?v) < le_cap e \<and> climb_ladder e r mode ?v d gs l =
        (retry_rung e r ?v (is_due e r ?v) (if is_due e r ?v then suspensionReason e (q_dest r) else None) l, Inr gs)"
      then have c: "mode = Mode_failed" "int (lv_attempts ?v) < le_cap e" "climb_ladder e r mode ?v d gs l =
        (retry_rung e r ?v (is_due e r ?v) (if is_due e r ?v then suspensionReason e (q_dest r) else None) l, Inr gs)"
        by blast+
      from 3(1) c(1) have "unclaimedWakeMode r = Some Mode_failed" by simp
      from that(2) [OF Some this 3(2) c(2) trans [OF 3(3) c(3)]] show thesis .
    qed
  qed (use that(1) park in simp_all)
qed

lemma budgeted_climb: "budgeted e l \<Longrightarrow> budgeted e (fst (climb_row e i gs l))"
  by (rule climb_row_cases [of l e i gs]) (auto simp: still_def intro: budgeted_unretried budgeted_retry)

lemma budgeted_rows: "budgeted e l \<Longrightarrow> budgeted e (fst (climb_rows e is gs l))"
proof (induction "is" arbitrary: gs l)
  case (Cons i js)
  show ?case unfolding climb_rows.simps
    by (rule and_then_inv [where I = "budgeted e"]) (use Cons budgeted_climb in auto)
qed simp

lemma still_told: "still l l1 \<Longrightarrow> still l (fst (orchestrator_told e owner outcome m l1))"
  by (simp add: orchestrator_told_def Let_def still_steps still_acted)

lemma still_skip: "still l l1 \<Longrightarrow> still l (fst (self_skip e orch m l1))"
  by (simp add: self_skip_def still_exhaust still_steps)

lemma still_advance: "still l l1 \<Longrightarrow> still l (fst (advance_operator e m l1))"
  by (simp add: advance_operator_def still_exhaust)

lemma still_resolve: "still l l1 \<Longrightarrow> still l (fst (resolve_outcome e m l1))"
  by (simp add: resolve_outcome_def still_steps)

lemma budgeted_still: "(\<And>l1. still l1 (fst (f l1))) \<Longrightarrow> budgeted e l \<Longrightarrow> budgeted e (fst (f l))"
  using budgeted_unretried by (auto simp: still_def)

lemma budgeted_group: "budgeted e l \<Longrightarrow> budgeted e (fst (escalate_group e g l))"
proof -
  assume l: "budgeted e l"
  have wake: "budgeted e (fst (attemptWake e i t l1))" if "budgeted e l1" for i t l1
    using that by (rule budgeted_unretried) (simp add: unretried_def retries_def attemptWake_def pause_def)
  have one: "budgeted e (fst (self_skip e orch m l1))" "budgeted e (fst (advance_operator e m l1))"
    "budgeted e (fst (resolve_outcome e m l1))" "budgeted e (fst (orchestrator_told e owner out m l1))"
    "budgeted e (fst (awaited e (ensureEscalationRow e dest to ms why tag extra l1)))"
    "budgeted e (pause e (refreshEscalationRowIfExists e tag ids l1))"
    if "budgeted e l1" for orch m l1 owner out dest to ms why tag extra ids
    using budgeted_unretried [OF that] still_skip [of l1 l1 e orch m] still_advance [of l1 l1 e m] still_resolve [of l1 l1 e m]
      still_told [of l1 l1 e owner out m] still_awaited [OF still_ensure [OF still_refl], of l1 e e dest to ms why tag extra]
      still_steps(1) [OF still_steps(7) [OF still_refl], of l1 e e tag ids] by (auto simp: still_def)
  show ?thesis
    unfolding escalate_group_def advance_members_def skip_orchestrator_def tell_orchestrator_def Let_def case_prod_beta
    by (auto split: list.split option.split intro!: l one wake and_then_inv [where I = "budgeted e"] for_each_inv [where I = "budgeted e"])
qed

lemma budgeted_tick: "0 \<le> le_cap e \<Longrightarrow> budgeted e (fst (ladder_tick e db))"
  unfolding ladder_tick_def Let_def
proof (rule and_then_inv [where I = "budgeted e"])
  have "budgeted e (start_tick db)" by (simp add: budgeted_def start_tick_def retries_def)
  then show "budgeted e (fst (retire_aggregates e (start_tick db)))"
    using still_retire [OF still_refl] budgeted_unretried by (auto simp: still_def)
  fix u l assume "budgeted e l"
  moreover have "unretried l (pause e (pause e l))" using still_steps(1) [OF still_steps(1) [OF still_refl]] by (simp add: still_def)
  ultimately have "budgeted e (pause e (pause e l))" by (rule budgeted_unretried)
  then show "budgeted e (fst (and_then (climb_rows e (baton_ids (la_db (pause e (pause e l))) @
      parked_owner_ids (la_db (pause e (pause e l)))) [] (pause e (pause e l))) (\<lambda>gs l2. for_each (escalate_group e) gs l2)))"
    by (intro and_then_inv [where I = "budgeted e"] for_each_inv [where I = "budgeted e"] budgeted_rows budgeted_group)
qed

end
