(* ===== verification/Ladder_Rungs.thy ===== *)
theory Ladder_Rungs
  imports Ladder_Budget
begin

text \<open>
  Escalating a destination leaves a rung on every member that was due.
\<close>

definition logged :: "ladder \<Rightarrow> ladder \<Rightarrow> bool" where
  "logged l l' \<longleftrightarrow> prefix (d_log (la_db l)) (d_log (la_db l'))"

lemma logged_refl [simp]: "logged l l"
  by (simp add: logged_def)

lemma logged_trans: "logged a b \<Longrightarrow> logged b c \<Longrightarrow> logged a c"
  unfolding logged_def by (rule prefix_order.trans)

lemma tame_prefix: "tame db db' \<Longrightarrow> prefix (d_log db) (d_log db')"
  by (auto simp: tame_def)

lemma logged_tame: "logged l l1 \<Longrightarrow> tame (la_db l1) (la_db l2) \<Longrightarrow> logged l l2"
  by (erule logged_trans) (simp add: logged_def tame_prefix)

lemma run_prefix: "\<forall>op \<in> set ops. quiet_other op \<Longrightarrow> prefix (d_log db) (d_log (run_steps (other_step env) ops db))"
proof (induction ops arbitrary: db)
  case (Cons op ops)
  have "prefix (d_log db) (d_log (attempt_step (other_step env) op db))"
    using Cons.prems tame_prefix [OF tame_other [of env op db]] by (auto simp: attempt_step_def split: sum.split)
  with Cons show ?case by (auto simp: run_steps_simps intro: prefix_order.trans)
qed (simp add: run_steps_simps)

lemma logged_acted [simp]: "logged l (acted i a l1) = logged l l1"
  by (simp add: logged_def)

lemma logged_marker: "logged l l1 \<Longrightarrow> logged l (appendMarker e r n l1)"
  by (erule logged_trans) (simp add: logged_def appendMarker_def append_note_by_def frame_simps)

lemma logged_exhausted: "logged l l1 \<Longrightarrow> logged l (appendExhausted e r why l1)"
  by (simp add: appendExhausted_def logged_marker)

lemma logged_pause: "quiet_world e \<Longrightarrow> logged l l1 \<Longrightarrow> logged l (pause e l1)"
  by (erule logged_trans) (simp add: logged_def pause_def quiet_world_def run_prefix)

lemma logged_wake: "quiet_world e \<Longrightarrow> logged l l1 \<Longrightarrow> logged l (fst (attemptWake e i t l1))"
  using logged_pause [of e l l1] by (simp add: attemptWake_def logged_def)

lemmas logged_and_then = and_then_inv [where I = "logged l" for l]

lemma logged_awaited: "quiet_world e \<Longrightarrow> logged l (fst m) \<Longrightarrow> logged l (fst (awaited e m))"
  unfolding awaited_def by (rule logged_and_then) (simp_all add: logged_pause)

lemma logged_repo: "logged l l1 \<Longrightarrow> (\<And>d. f (la_db l1) = Inr d \<Longrightarrow> tame (la_db l1) d) \<Longrightarrow> logged l (fst (repo f l1))"
  by (auto simp: repo_def split: sum.split intro: logged_tame)

lemma logged_create: "quiet_world e \<Longrightarrow> logged l l1 \<Longrightarrow> logged l (fst (create_row e c l1))"
  by (auto simp: create_row_def split: sum.split dest!: tame_create intro!: logged_pause elim: logged_tame)

lemma logged_refresh: "logged l l1 \<Longrightarrow> logged l (refreshEscalationRowIfExists e tag ids l1)"
  by (auto simp: refreshEscalationRowIfExists_def Let_def logged_def frame_simps split: option.split
      intro!: logged_marker [unfolded logged_def])

lemma logged_ensure: "quiet_world e \<Longrightarrow> logged l l1 \<Longrightarrow> logged l (fst (ensureEscalationRow e dest orch ms reason tag extra l1))"
  by (auto simp: ensureEscalationRow_def Let_def split: option.split dest: tame_fallback
      intro!: logged_and_then logged_create logged_repo logged_pause logged_refresh)

lemma logged_operator: "quiet_world e \<Longrightarrow> logged l l1 \<Longrightarrow> logged l (fst (operatorRung e r reason v l1))"
proof -
  have d: "logged l (l1\<lparr>la_dispatched := x\<rparr>) = logged l l1" for l1 x by (simp add: logged_def)
  assume "quiet_world e" "logged l l1"
  then show ?thesis by (auto simp: operatorRung_def Let_def d split: option.split intro!: logged_marker logged_pause)
qed

section \<open>Rungs\<close>

text \<open>The ladder's own note on a row, after a point of the log.\<close>

definition rung_since :: "nat \<Rightarrow> string \<Rightarrow> string \<Rightarrow> ladder \<Rightarrow> bool" where
  "rung_since n word i l \<longleftrightarrow> (\<exists>t \<in> set (drop n (d_log (la_db l))). t_qitem t = i \<and> t_actor t = LADDER_ACTOR \<and> rung_note word (note_of t))"

lemma rung_kept: "rung_since n word i l \<Longrightarrow> logged l l' \<Longrightarrow> rung_since n word i l'"
  by (auto simp: rung_since_def logged_def prefix_def)

lemma rung_written:
  assumes "n \<le> length (d_log (la_db l))" "rung_note word note"
  shows "rung_since n word (q_id r) (appendMarker e r note l)"
  using assms by (simp add: rung_since_def appendMarker_def append_note_by_def append_transition_def new_transition_def Let_def
      plain_transition_def note_of_def)

lemma orchestrator_note: "rung_note ''orchestrator'' (LADDER_RUNG_PREFIX @ '' orchestrator'' @ s)"
  by (simp add: rung_note_def note_prefixes js_space_def)

lemmas orchestrator_notes [simp] = orchestrator_note [unfolded append.simps]

lemma for_each_reaches:
  assumes step: "\<And>x l. x \<in> set xs \<Longrightarrow> I l \<Longrightarrow> \<exists>l1. f x l = (l1, Inr ()) \<and> I l1 \<and> logged l l1 \<and> Q x l1"
    and Q: "\<And>x l l1. Q x l \<Longrightarrow> logged l l1 \<Longrightarrow> Q x l1" and l: "I l"
  shows "\<exists>l1. for_each f xs l = (l1, Inr ()) \<and> I l1 \<and> logged l l1 \<and> (\<forall>x \<in> set xs. Q x l1)"
  using step l
proof (induction xs arbitrary: l)
  case (Cons x xs)
  obtain l1 where 1: "f x l = (l1, Inr ())" "I l1" "logged l l1" "Q x l1" using Cons.prems by fastforce
  obtain l2 where 2: "for_each f xs l1 = (l2, Inr ())" "I l2" "logged l1 l2" "\<forall>x \<in> set xs. Q x l2"
    using Cons.IH [OF Cons.prems(1) 1(2)] by auto
  with 1 Q [OF 1(4) 2(3)] show ?case by (auto simp: and_then_def intro: logged_trans)
qed simp

lemma operator_succeeds: "\<exists>l1 b. operatorRung e r reason v l = (l1, Inr b)"
  by (cases "le_engine e") (auto simp: operatorRung_def Let_def)

lemma exhaust_succeeds:
  assumes "quiet_world e"
  shows "\<exists>l1. operator_then_exhaust e r reason v why l = (l1, Inr ()) \<and> logged l l1"
proof -
  obtain l1 b where o1: "operatorRung e r reason v l = (l1, Inr b)" using operator_succeeds by blast
  then have "logged l (pause e l1)"
    using logged_operator [OF assms logged_refl, of l r reason v] by (simp add: logged_pause assms)
  then have "logged l (appendExhausted e r why (pause e l1))" "logged l (pause e l1)" by (simp_all add: logged_exhausted)
  with o1 show ?thesis by (simp add: operator_then_exhaust_def awaited_def and_then_def)
qed

lemma skip_reaches:
  assumes "quiet_world e" "n \<le> length (d_log (la_db l))"
  shows "\<exists>l1. self_skip e orch m l = (l1, Inr ()) \<and> n \<le> length (d_log (la_db l1)) \<and> logged l l1
    \<and> rung_since n ''orchestrator'' (q_id (lm_row m)) l1"
proof -
  let ?note = "LADDER_RUNG_PREFIX @ '' orchestrator self-skip (resolves to '' @
        (if orch = None then ''no orchestrator'' else ''destination'') @ '') reason='' @ lm_reason m"
  let ?l = "appendMarker e (lm_row m) ?note l"
  have r: "rung_since n ''orchestrator'' (q_id (lm_row m)) ?l" by (rule rung_written [OF assms(2)]) simp
  obtain l1 where l1: "self_skip e orch m l = (l1, Inr ())" "logged ?l l1"
    using exhaust_succeeds [OF assms(1)] unfolding self_skip_def by blast
  have l: "logged l l1" using logged_trans [OF logged_marker [OF logged_refl] l1(2)] .
  then have "length (d_log (la_db l)) \<le> length (d_log (la_db l1))" by (simp add: logged_def prefix_length_le)
  with l l1(1) rung_kept [OF r l1(2)] assms(2) show ?thesis by simp
qed

lemma told_reaches:
  assumes "n \<le> length (d_log (la_db l))"
  shows "\<exists>l1. orchestrator_told e owner outcome m l = (l1, Inr ()) \<and> n \<le> length (d_log (la_db l1)) \<and> logged l l1
    \<and> rung_since n ''orchestrator'' (q_id (lm_row m)) l1"
proof -
  let ?note = "LADDER_RUNG_PREFIX @ '' orchestrator -> '' @ owner @ '' outcome='' @ outcome @ '' reason='' @ lm_reason m"
  let ?l = "acted (q_id (lm_row m)) (Act_orchestrator owner) (appendMarker e (lm_row m) ?note l)"
  have r: "rung_since n ''orchestrator'' (q_id (lm_row m)) ?l"
    using rung_written [OF assms, of "''orchestrator''" ?note "lm_row m" e] by (simp add: rung_since_def)
  obtain l1 where l1: "orchestrator_told e owner outcome m l = (l1, Inr ())" "logged ?l l1"
    by (simp add: orchestrator_told_def Let_def logged_exhausted)
  have l: "logged l l1" by (rule logged_trans [OF _ l1(2)]) (simp add: logged_marker)
  then have "length (d_log (la_db l)) \<le> length (d_log (la_db l1))" by (simp add: logged_def prefix_length_le)
  with l l1(1) rung_kept [OF r l1(2)] assms show ?thesis by simp
qed

text \<open>A destination's turn that does not fail leaves the rung on every due member that had none.\<close>

lemma and_then_Inr:
  assumes "and_then m f = (l', Inr y)"
  obtains v l1 where "m = (l1, Inr v)" "f v l1 = (l', Inr y)"
  using assms by (cases m; cases "snd m") (auto simp: and_then_def)

lemma skip_rungs:
  assumes q: "quiet_world e" and run: "skip_orchestrator e dest orch first ms l = (l', Inr ())"
    and n: "n \<le> length (d_log (la_db l))" and m: "m \<in> set (needs_orch ms)"
  shows "rung_since n ''orchestrator'' (q_id (lm_row m)) l'"
  using run unfolding skip_orchestrator_def
proof (rule and_then_Inr)
  fix v l1
  assume l1: "awaited e (ensureEscalationRow e dest (humanAlertCarrier e dest (Some (q_source (lm_row first))))
       (map stated (needs_orch ms)) (group_reason ms) (escalationDedupTag dest) [] l) = (l1, Inr v)"
    and run: "for_each (self_skip e orch) (needs_orch ms) l1 = (l', Inr ())"
  have "logged l l1" using logged_awaited [OF q logged_ensure [OF q logged_refl]] l1 by (metis fst_conv)
  with n have "n \<le> length (d_log (la_db l1))" by (auto simp: logged_def dest: prefix_length_le)
  then have "\<exists>l2. for_each (self_skip e orch) (needs_orch ms) l1 = (l2, Inr ()) \<and> n \<le> length (d_log (la_db l2)) \<and> logged l1 l2
      \<and> (\<forall>m \<in> set (needs_orch ms). rung_since n ''orchestrator'' (q_id (lm_row m)) l2)"
    by - (rule for_each_reaches; use skip_reaches [OF q] rung_kept in blast)
  with run m show ?thesis by auto
qed

lemma tell_rungs:
  assumes q: "quiet_world e" and run: "tell_orchestrator e dest orch ms l = (l', Inr ())"
    and n: "n \<le> length (d_log (la_db l))" and m: "m \<in> set (needs_orch ms)"
  shows "rung_since n ''orchestrator'' (q_id (lm_row m)) l'"
  using run unfolding tell_orchestrator_def
proof (rule and_then_Inr)
  fix i and l1 :: ladder
  define owner where "owner = (case getById (la_db l1) i of None \<Rightarrow> orch | Some r \<Rightarrow> q_dest r)"
  define l2 where "l2 = fst (attemptWake e i owner l1)"
  assume l1: "awaited e (ensureEscalationRow e dest orch (map stated ms) (group_reason ms) (escalationDedupTag dest) [] l) = (l1, Inr i)"
    and run: "(let owner = (case getById (la_db l1) i of None \<Rightarrow> orch | Some r \<Rightarrow> q_dest r);
              (l2, outcome) = attemptWake e i owner l1
          in for_each (orchestrator_told e owner outcome) (needs_orch ms) l2) = (l', Inr ())"
  obtain outcome where run2: "for_each (orchestrator_told e owner outcome) (needs_orch ms) l2 = (l', Inr ())"
    using run by (simp add: Let_def owner_def l2_def case_prod_beta)
  have "logged l l1" using logged_awaited [OF q logged_ensure [OF q logged_refl]] l1 by (metis fst_conv)
  then have "logged l l2" unfolding l2_def by (rule logged_wake [OF q])
  with n have "n \<le> length (d_log (la_db l2))" by (auto simp: logged_def dest: prefix_length_le)
  then have "\<exists>l3. for_each (orchestrator_told e owner outcome) (needs_orch ms) l2 = (l3, Inr ()) \<and> n \<le> length (d_log (la_db l3))
      \<and> logged l2 l3 \<and> (\<forall>m \<in> set (needs_orch ms). rung_since n ''orchestrator'' (q_id (lm_row m)) l3)"
    by - (rule for_each_reaches; use told_reaches rung_kept in blast)
  with run2 m show ?thesis by auto
qed

lemma group_rungs:
  assumes q: "quiet_world e" and run: "escalate_group e g l0 = (l', Inr ())"
    and m: "m \<in> set (snd g)" "lm_due m" "\<not> lm_suspended m" "\<not> lv_orchRung (lm_view m)"
  shows "rung_since (length (d_log (la_db l0))) ''orchestrator'' (q_id (lm_row m)) l'"
proof -
  let ?ms = "map (with_route (route_reason e (fst g))) (snd g)"
  let ?l = "pause e (refreshEscalationRowIfExists e (escalationDedupTag (fst g)) (map (q_id \<circ> lm_row) ?ms) l0)"
  let ?m = "with_route (route_reason e (fst g)) m"
  have need: "?m \<in> set (needs_orch ?ms)" using m by (simp add: needs_orch_filter)
  have "logged l0 ?l" by (intro logged_pause logged_refresh q logged_refl)
  then have n: "length (d_log (la_db l0)) \<le> length (d_log (la_db ?l))" by (simp add: logged_def prefix_length_le)
  from need obtain x xs where "needs_orch ?ms = x # xs" by (cases "needs_orch ?ms") auto
  with run obtain orch where "skip_orchestrator e (fst g) None x ?ms ?l = (l', Inr ()) \<or>
      skip_orchestrator e (fst g) (Some orch) x ?ms ?l = (l', Inr ()) \<or> tell_orchestrator e (fst g) orch ?ms ?l = (l', Inr ())"
    unfolding escalate_group_def Let_def by (auto split: option.splits if_splits)
  with skip_rungs [OF q _ n need] tell_rungs [OF q _ n need] show ?thesis by auto
qed

end
