(* ===== verification/Ladder_Properties.thy ===== *)
theory Ladder_Properties
  imports Ladder_Rungs
begin

text \<open>
  The promises of the wake ladder.
\<close>

section \<open>Properties\<close>

text \<open>C12: A wake is retried at most as often as the cap says: whatever ticks, queue operations and notes run on an empty
  queue, in any order and also at the awaits inside a tick, no row ever carries more retry attempts in its present
  episode than the largest cap a tick was given, as long as no other machine writes a note that looks like the
  ladder's.\<close>

theorem ladder_attempts_capped:
  assumes "\<forall>ev \<in> set evs. quiet_event cap ev"
  shows "lv_attempts (readLadder (run_steps ladder_event_step evs empty_db) i) \<le> nat cap"
  using held_run [OF assms held_empty, of "\<lambda>_. nat cap" "\<lambda>_. 1"] by (simp add: held_def attempts_marks)

text \<open>C13: A stuck row reaches the delivery engine's record at most once an episode: under the same interleavings, the
  present episode of any row holds at most one note that it was dispatched.\<close>

theorem ladder_dispatched_once:
  fixes evs :: "ladder_event list"
  defines "db \<equiv> run_steps ladder_event_step evs empty_db"
  assumes "\<forall>ev \<in> set evs. quiet_event cap ev"
  shows "length (filter (\<lambda>t. is_dispatch (note_of t)) (since (boundary db i) db i)) \<le> 1"
  using held_run [OF assms(2) held_empty, of "\<lambda>_. nat cap" "\<lambda>_. 1"]
  by (simp add: db_def held_def marks_def)

text \<open>C14: Only a failed wake is sent again: when a row's turn in a tick wakes a seat, the row's last nudge failed, its
  ladder is not exhausted and is under the cap, the retry interval has passed, the seat is not suspended, and the
  one wake goes to the row's own destination. An unconfirmed or held delivery is never repeated.\<close>

theorem ladder_retries_only_failed:
  assumes "la_wakes (fst (climb_row e i gs l)) \<noteq> la_wakes l"
  shows "\<exists>r. getById (la_db l) i = Some r \<and> classifyWakeResult (last_nudge r) = Some Mode_failed
    \<and> \<not> lv_exhausted (readLadder (la_db l) i) \<and> int (lv_attempts (readLadder (la_db l) i)) < le_cap e
    \<and> is_due e r (readLadder (la_db l) i) \<and> suspensionReason e (q_dest r) = None
    \<and> la_wakes (fst (climb_row e i gs l)) = la_wakes l @ [(i, q_dest r)]"
proof (rule climb_row_cases [of l e i gs])
  assume "still l (fst (climb_row e i gs l))"
  with assms show ?thesis by (simp add: still_def)
next
  let ?v = "readLadder (la_db l) i"
  fix r
  assume r: "getById (la_db l) i = Some r" "unclaimedWakeMode r = Some Mode_failed" "\<not> lv_exhausted ?v"
      "int (lv_attempts ?v) < le_cap e"
    and row: "climb_row e i gs l = (retry_rung e r ?v (is_due e r ?v)
         (if is_due e r ?v then suspensionReason e (q_dest r) else None) l, Inr gs)"
  have i: "q_id r = i" using r(1) by (auto dest: getById_Some)
  have mode: "classifyWakeResult (last_nudge r) = Some Mode_failed"
    using r(2) by (auto simp: unclaimedWakeMode_def split: option.splits if_splits)
  have "\<not> la_wakes (retry_rung e r ?v (is_due e r ?v) (if is_due e r ?v then suspensionReason e (q_dest r) else None) l) = la_wakes l"
    using assms row by simp
  then have "is_due e r ?v \<and> suspensionReason e (q_dest r) = None \<and> la_wakes (fst (climb_row e i gs l)) = la_wakes l @ [(i, q_dest r)]"
    by (rule_tac retry_rung_cases [of l e r ?v "is_due e r ?v" "if is_due e r ?v then suspensionReason e (q_dest r) else None"])
       (use row i in \<open>auto simp: still_def\<close>)
  with r mode show ?thesis by blast
qed



section \<open>A stale state\<close>

text \<open>A marker carries the state its row had when it was read. If the row has moved on since, as when the seat claims
  it while its wake is on the way, the marker reads as a change of state: it becomes the episode's boundary, and the
  retries and rungs before it, and the marker itself, are forgotten.\<close>

theorem ladder_stale_marker_forgets:
  assumes "sound_log (la_db l)" "listForQitem (la_db l) (q_id r) \<noteq> []"
    and "t_state (last (listForQitem (la_db l) (q_id r))) \<noteq> q_state r"
  shows "readLadder (la_db (appendMarker e r note l)) (q_id r) = empty_view"
proof -
  obtain t where t: "d_log (la_db (appendMarker e r note l)) = d_log (la_db l) @ [t]" "t_id t = Suc (length (d_log (la_db l)))"
    "t_qitem t = q_id r" "t_state t = q_state r"
    by (simp add: appendMarker_def append_note_by_def append_transition_def new_transition_def Let_def plain_transition_def)
  let ?db = "la_db (appendMarker e r note l)"
  have fired: "fired ?db = fired (la_db l)" by (simp add: appendMarker_def)
  have list: "listForQitem ?db (q_id r) = listForQitem (la_db l) (q_id r) @ [t]" using t by (simp add: listForQitem_def)
  have "t_id t \<notin> w_transition ` set (fired ?db)"
    using assms(1) t(2) fired by (fastforce simp: sound_log_def fired_known_def)
  then have "boundary ?db (q_id r) = t_id t"
    using assms(2,3) t(4) unfolding boundary_def last_meaningful_fired list with_previous_append by simp
  moreover have "filter (\<lambda>u. t_id t < t_id u) (listForQitem (la_db l) (q_id r)) = []"
    using listed_ids [of "la_db l"] assms(1) t(2) by (fastforce simp: filter_empty_conv sound_log_def)
  ultimately show ?thesis by (simp add: readLadder_def readLadderAfter_def since_def list)
qed

end
