(* ===== verification/Ladder_Witnesses.thy ===== *)
theory Ladder_Witnesses
  imports Ladder_Properties Queue_Witnesses
begin

text \<open>
  Stuck batons on which the ladder's properties are exercised: a handoff whose wake fails and is retried, and one
  whose delivery stays unconfirmed and is dispatched to the delivery engine.
\<close>

definition demo_engine_port :: engine_port where
  "demo_engine_port = \<lparr>ep_accepted = (\<lambda>_. False), ep_dispatch = (\<lambda>_. \<lparr>do_decision = ''defer'', do_resolved = False,
     do_key = Some ''k1'', do_dispatched = Some True, do_id = None\<rparr>)\<rparr>"

definition demo_ladder :: "int \<Rightarrow> ladder_env" where
  "demo_ladder t = \<lparr>le_queue = demo_env, le_interval = 300, le_cap = 2, le_window = 30, le_grace = 180, le_now = t,
     le_clock = (\<lambda>n. t + int n), le_fresh = (\<lambda>n. ''qitem-e'' @ nat_str n), le_override = None, le_date = (\<lambda>_. None),
     le_handover = (\<lambda>_. None), le_resolve = None,
     le_escalation = (\<lambda>_. \<lparr>eo_owner = None, eo_outcome = Out_none, eo_reason = []\<rparr>),
     le_operator = Some ''ops@r'', le_people = None, le_pool = (\<lambda>_. None), le_jitter = 30, le_engine = Some demo_engine_port,
     le_explicitOnly = False, le_quiet = (\<lambda>_ _. False), le_silent = (\<lambda>_ _. False), le_world = (\<lambda>_. []),
     le_wake = (\<lambda>_. ''failed: gone'')\<rparr>"

definition demo_stuck :: "ladder_event list" where
  "demo_stuck = map (Other_write demo_env \<circ> Repo_op) [Op_create 2 [] (demo_item ''qitem-b'' ''b@r''),
     Op_handoff 3 ''qitem-c'' demo_handoff, Op_nudge 4 ''qitem-c'' ''failed: gone'']"

definition demo_ticks :: "nat \<Rightarrow> ladder_event list" where
  "demo_ticks n = demo_stuck @ map (\<lambda>k. Ladder_tick (demo_ladder (1000000 * int k))) [1..<Suc n]"

definition demo_ladder_db :: "nat \<Rightarrow> queue_db" where
  "demo_ladder_db n = run_steps ladder_event_step (demo_ticks n) empty_db"

lemma demo_quiet: "\<forall>ev \<in> set (demo_ticks n). quiet_event 2 ev"
  by (auto simp: demo_ticks_def demo_stuck_def quiet_world_def demo_ladder_def demo_handoff_def)

section \<open>The witnesses\<close>

lemma demo_attempts: "lv_attempts (readLadder (demo_ladder_db 2) ''qitem-c'') = 2"
  by code_simp

theorem ladder_attempts_capped_witness:
  "0 < lv_attempts (readLadder (demo_ladder_db 2) ''qitem-c'') \<and> lv_attempts (readLadder (demo_ladder_db 2) ''qitem-c'') \<le> nat 2"
  using ladder_attempts_capped [OF demo_quiet [of 2], of "''qitem-c''"] demo_attempts by (simp add: demo_ladder_db_def)

text \<open>An unconfirmed delivery goes straight to the rungs.\<close>

definition demo_unconfirmed :: "ladder_event list" where
  "demo_unconfirmed = map (Other_write demo_env \<circ> Repo_op) [Op_create 2 [] (demo_item ''qitem-b'' ''b@r''),
     Op_handoff 3 ''qitem-c'' demo_handoff, Op_nudge 4 ''qitem-c'' ''delivered-ack-pending''] @
     [Ladder_tick (demo_ladder 3000000)]"

definition demo_unconfirmed_db :: queue_db where
  "demo_unconfirmed_db = run_steps ladder_event_step demo_unconfirmed empty_db"

abbreviation demo_dispatches :: nat where
  "demo_dispatches \<equiv> length (filter (\<lambda>t. is_dispatch (note_of t))
     (since (boundary demo_unconfirmed_db ''qitem-c'') demo_unconfirmed_db ''qitem-c''))"

theorem ladder_dispatched_once_witness: "0 < demo_dispatches \<and> demo_dispatches \<le> 1"
proof -
  have "demo_dispatches \<noteq> 0" by code_simp
  moreover have "\<forall>ev \<in> set demo_unconfirmed. quiet_event 2 ev"
    by (auto simp: demo_unconfirmed_def quiet_world_def demo_ladder_def demo_handoff_def)
  ultimately show ?thesis
    using ladder_dispatched_once [of demo_unconfirmed 2 "''qitem-c''"] by (simp add: demo_unconfirmed_db_def)
qed

definition demo_turn :: "groups climb" where
  "demo_turn = climb_row (demo_ladder 1000000) ''qitem-c'' [] (start_tick (demo_ladder_db 0))"

theorem ladder_retries_only_failed_witness:
  "\<exists>r. getById (demo_ladder_db 0) ''qitem-c'' = Some r \<and> classifyWakeResult (last_nudge r) = Some Mode_failed
    \<and> la_wakes (fst demo_turn) = [(''qitem-c'', q_dest r)]"
proof -
  have "la_wakes (fst demo_turn) \<noteq> la_wakes (start_tick (demo_ladder_db 0))" by code_simp
  from ladder_retries_only_failed [OF this [unfolded demo_turn_def]] show ?thesis
    by (auto simp: demo_turn_def start_tick_def)
qed

definition demo_tick :: ladder where
  "demo_tick = fst (ladder_tick (demo_ladder 1000000) (demo_ladder_db 0))"

abbreviation demo_retries :: nat where
  "demo_retries \<equiv> length (filter (\<lambda>(i, a). a = Act_retry ''c@r'') (la_actions demo_tick))"


definition demo_member :: ladder_member where
  "demo_member = \<lparr>lm_row = the (getById (demo_ladder_db 2) ''qitem-c''), lm_view = readLadder (demo_ladder_db 2) ''qitem-c'',
     lm_reason = ''wake failed 2 times'', lm_due = True, lm_suspended = False\<rparr>"

definition demo_group :: "unit climb" where
  "demo_group = escalate_group (demo_ladder 3000000) (''c@r'', [demo_member]) (start_tick (demo_ladder_db 2))"


section \<open>A claim during a wake\<close>

text \<open>The seat claims the row while its first retry is on the way: the log then ends in a state the row has left, and
  the retry is forgotten.\<close>

definition demo_claimed_db :: queue_db where
  "demo_claimed_db = la_db (fst (ladder_tick
     ((demo_ladder 1000000)\<lparr>le_world := (\<lambda>n. if n = 2 then [Repo_op (Op_claim 5 ''qitem-c'' ''c@r'' None None)] else [])\<rparr>)
     (demo_ladder_db 0)))"

theorem ladder_stale_marker_forgets_witness:
  "map_option q_state (getById demo_claimed_db ''qitem-c'') = Some Q_in_progress
    \<and> t_state (last (listForQitem demo_claimed_db ''qitem-c'')) = Q_pending
    \<and> is_attempt (note_of (last (listForQitem demo_claimed_db ''qitem-c'')))
    \<and> lv_attempts (readLadder demo_claimed_db ''qitem-c'') = 0"
  by code_simp

end
