(* ===== verification/Spec2Isabelle.thy ===== *)
theory Spec2Isabelle
  imports Prelude Rig_Events Hot_Potato Human_Route Classifier_Lease Outbox Stream_Store
    Workflow_Validator Role_Resolver Workflow_Deadline Workflow_Exception Workflow_Scope
    Session_Name Human_Questions Queue_Witnesses Workflow_Witnesses Watchdog_Witnesses
    Watchdog_Seat_Witnesses Escalation_Search Ladder_Witnesses
begin

text \<open>
  A verification library for the coordination core of the OpenRig daemon (\<open>packages/daemon/src/domain\<close>).

  \<^bold>\<open>The program.\<close> OpenRig coordinates agent sessions through a durable queue. A queue item is owned by one
  seat and must be closed with a reason (\<^emph>\<open>hot potato\<close>); handing it off creates the successor's item and a
  wake in the outbox in the same transaction. Workflows drive items through the steps of a
  specification: each live step is one packet (a queue item) on the frontier of an instance, and
  closing it routes to the next owner. A watchdog keeps timed jobs (reminders, parks' repeating waits, watches over
  workflows and context use) and wakes seats from a scheduler. A wake ladder sends the failed wakes
  of handed-off rows again and then escalates them. An inbox, a stream and a lease table stand beside the queue.

  \<^bold>\<open>Theories and sources.\<close>
  \<^item> \<open>Prelude\<close>: rows and tables, strings, JSON text, and the locale \<open>guarded_machine\<close> (an invariant that
    accepted steps keep holds after any run); \<open>Effects\<close>: refusals and sequencing of fallible operations.
  \<^item> \<open>Rig_Events\<close>: the event variants of \<open>types.ts\<close> that the modelled code writes.
  \<^item> \<open>Hot_Potato\<close>, \<open>Human_Route\<close>: closure validation and human routes (\<open>hot-potato-enforcer.ts\<close>,
    \<open>human-route-enforcer.ts\<close>).
  \<^item> \<open>Classifier_Lease\<close>, \<open>Outbox\<close>, \<open>Stream_Store\<close>: \<open>classifier-lease-manager.ts\<close>, \<open>outbox-handler.ts\<close>,
    \<open>stream-store.ts\<close>, every operation over their tables.
  \<^item> \<open>Queue_Types\<close>, \<open>Queue_Wakes\<close>, \<open>Queue_Create\<close>, \<open>Queue_Update\<close>: the queue item, its transition log, wakes,
    watchdog jobs and the writers of \<open>queue-repository.ts\<close> (create, handoff, handoffAndComplete,
    closeCrossHostHandoffSource, claim, unclaim, update, routeToFallback, the generation sweeps). \<open>Queue_Invariant\<close> and
    \<open>Queue_Steps\<close> show that each is a sequence of small writes that keep \<open>queue_inv\<close>; \<open>Queue_Lifecycle\<close> refines them to the
    life cycle of a row; \<open>Queue_Properties\<close> and \<open>Queue_Guards\<close> hold the theorems, \<open>Queue_Witnesses\<close> a concrete queue.
  \<^item> \<open>Inbox\<close>: \<open>inbox-handler.ts\<close> over the queue. \<open>Session_Name\<close>, \<open>Human_Questions\<close>: the naming rules and the question parser.
  \<^item> \<open>Workflow_Types\<close>, \<open>Workflow_Graph\<close>, \<open>Workflow_Validator\<close>: specifications and \<open>workflow-validator.ts\<close>, with its depth first
    search shown complete; \<open>Role_Resolver\<close>, \<open>Workflow_Deadline\<close>, \<open>Workflow_Exception\<close>, \<open>Workflow_Scope\<close>: the pure
    decisions of the files of those names.
  \<^item> \<open>Workflow_Store\<close>: the tables of \<open>workflow-instance-store.ts\<close>, \<open>workflow-step-trail-log.ts\<close>, the keepalive jobs and the frontier
    predicate. \<open>Workflow_Routing\<close> (owners, gates, closures, acceptance), \<open>Workflow_Projector\<close> (the serial projection),
    \<open>Workflow_Dependency\<close> (the graph projection): \<open>workflow-projector.ts\<close>. \<open>Workflow_Runtime\<close>: the verbs of
    \<open>workflow-runtime.ts\<close>.
  \<^item> \<open>Workflow_Flow\<close> is the abstract machine of the engine and its invariants; \<open>Workflow_Frames\<close>, \<open>Workflow_Refines\<close> and
    \<open>Workflow_Verbs\<close> simulate every verb by its steps; \<open>Workflow_Machine\<close> runs verbs and queue operations together and
    states the theorems, \<open>Workflow_Witnesses\<close> runs two small workflows.
  \<^item> \<open>Watchdog_Jobs\<close>: the job table of \<open>watchdog-jobs-repository.ts\<close> with its two in-memory maps of schedules, and
    \<open>watchdog-due.ts\<close>; \<open>Watchdog_Update\<close>: specifications as parsed, their checks per policy and \<open>watchdog-job-update.ts\<close>;
    \<open>Watchdog_Machine\<close>: any sequence of these operations, its invariant and the theorems on schedules in flight;
    \<open>Watchdog_View\<close>: the queue's job operations are this table's.
  \<^item> \<open>Watchdog_Engine\<close>: \<open>watchdog-policy-engine.ts\<close>, one evaluation in three steps (it awaits its policy and its
    delivery), and \<open>watchdog-history-log.ts\<close>; \<open>Watchdog_Wakes\<close>: what an evaluation leaves behind; \<open>Watchdog_Scheduler\<close>:
    held reminders, digests and one pass of \<open>watchdog-scheduler.ts\<close>; \<open>Watchdog_Properties\<close>: the theorems on evaluations and
    passes; \<open>Watchdog_Witnesses\<close>: a concrete job table.
  \<^item> \<open>Watchdog_Receipts\<close>: \<open>watchdog-delivery-receipts.ts\<close>, which records an occurrence in the outbox before its message is
    sent; \<open>deliver\<close> awaits its send, so it is \<open>begin_delivery\<close> and \<open>finish_delivery\<close>. \<open>Watchdog_Custody\<close>: any interleaving of
    deliveries, outcomes, crashes, recovery (\<open>draft-aware-delivery.ts\<close>, \<open>recover\<close>) and other users of the outbox.
    \<open>Watchdog_Delivery\<close>: the input adapter of \<open>watchdog-delivery.ts\<close> and what its typed refusals do to an occurrence.
  \<^item> \<open>Watchdog_Context\<close>: \<open>policies/context-usage-threshold.ts\<close>; \<open>Watchdog_Context_Once\<close>: its fires across evaluations.
    \<open>Watchdog_Registration\<close>: \<open>watchdog-auto-registration.ts\<close>. \<open>Watchdog_Seat_Witnesses\<close>: concrete inputs for these.
  \<^item> \<open>Escalation_Owner\<close>: \<open>escalation-owner.ts\<close>, \<open>queue-owner.ts\<close> and the address lookups of \<open>session-registry.ts\<close>;
    \<open>Escalation_Search\<close>: its search for cycles ends and is right.
  \<^item> \<open>Ladder_View\<close>: the notes the wake ladder keeps its position in and the rows of \<open>queue-recovery.ts\<close>; \<open>Ladder_Pass\<close>: one
    tick of \<open>queue-wake-ladder.ts\<close>, which awaits its wakes, its creates and the delivery engine. \<open>Ladder_Quiet\<close>, \<open>Ladder_Marks\<close>,
    \<open>Ladder_Holds\<close> and \<open>Ladder_Steps\<close> show what each write does to a row's notes; \<open>Ladder_Once\<close>, \<open>Ladder_Tick\<close>,
    \<open>Ladder_Budget\<close> and \<open>Ladder_Rungs\<close> carry that through a tick; \<open>Ladder_Properties\<close> holds the theorems,
    \<open>Ladder_Witnesses\<close> two stuck rows.

  \<^bold>\<open>Conventions.\<close> A table is a list of rows in insertion order with its keys enforced by the inserts; a
  transaction is a function whose \<open>Inl\<close> leaves the state as it was. Strings are char lists, timestamps
  integers of milliseconds, JSON values a datatype. Error codes are constructors; messages are left out.
  Fresh ids and the clock are arguments. What the domain asks of code outside it (the registry of seats,
  texts of messages, specification files, liveness probes) is a field of \<open>queue_env\<close> or \<open>workflow_env\<close>. The schema is
  the current one: fallbacks for older databases are not modelled. Numbers a caller sends to the watchdog are
  \<open>js_number\<close>s; the YAML library is a field of \<open>yaml_library\<close>, the other dependencies of the engine are fields of
  \<open>engine_deps\<close>, and a hook that writes gives the operations it performs. Where the engine awaits, the
  \<open>world\<close> of that moment gives the operations that run meanwhile and the transport's answer; the ladder's
  \<open>ladder_env\<close> does the same for its tick, and the topology it asks is the \<open>org\<close> of \<open>Escalation_Owner\<close>.

  \<^bold>\<open>Assumptions.\<close> \<open>caches\<close>: reading or generating a specification stores it under its id and version
  before it is returned, and the stored specification of a running instance does not change; the
  workflow theorems rest on it. Targets of routes and gates are non-empty names.

  \<^bold>\<open>Fuel.\<close> The validator's depth first search takes \<open>graph_fuel\<close>, the number of steps and edges, which
  \<open>validate_ok_iff\<close> shows to be enough; \<open>permission_chain\<close> follows at most eleven links, as the code does;
  \<open>deliverHeldGroup\<close> takes one round more than its seat has reminders, which \<open>watchdog_seat_loop_ends\<close> shows to be
  enough; \<open>cyclic\<close> takes one level more than there are seats, which \<open>cycle_check_total\<close> shows to be enough; \<open>ancestry\<close>
  takes as many levels as the queue has rows, the most a union of rows can find. No other definition has fuel.

  \<^bold>\<open>What the theorems show.\<close> Of the queue: no row is parked on a closed item, closing resumes those
  who waited, a handoff is one act, every done row says why, claims are exclusive, the log is the
  history. Of the outbox: custody and the quota. Of the lease: one writer. Of the workflow engine: it
  refines \<open>Workflow_Flow\<close>, so a packet is closed once and lives on one frontier, a serial run follows its
  specification within its hop window, a graph starts no step before its prerequisites. Of the watchdog: a stopped
  job never wakes a seat, a pass wakes a job at most once, a delivery moves only the schedule it started
  under, updates in place keep it and reschedules win, and every evaluation leaves the record it reports; a scheduled
  occurrence is typed again only when every earlier attempt reached nothing, and at most as often as the retry cap allows;
  a context watch fires once per occupant; a seat has one supervision job. Of the wake ladder: retries are capped per
  episode and per destination, only failed wakes are sent again, an episode of a row records at most one
  dispatch to the delivery engine, every rung leaves its note, and a routed escalation leads along a finite path. Two
  lemmas of \<open>Workflow_Witnesses\<close> and \<open>ladder_stale_marker_forgets\<close> record where the code departs from its intent.

  \<^bold>\<open>Not modelled.\<close> Delivery after commit (nudges, terminals), the watchdog policies that read files,
  queues and workflows (parameters of the engine: artifact pools, edge artifacts, keepalive, scheduled modes, quiet
  release, idle gate, parked owners, deferred deliveries) and its timer, the guarded send of the session transport,
  revision of a running graph, the lifecycle compiler's files, the ladder's pass over prompt refusals (operations of other
  writers in its model), its backstop view, heartbeat and timer, chat connectors, rig and seat life cycles, restore,
  bundles, HTTP routes and user interfaces: I/O over processes, files and sockets, or read models. The
  components of the manifest list them.
\<close>

end
